(* ===== verification/Ltsm_Prelude.thy ===== *)
theory Ltsm_Prelude
  imports Main "HOL-Library.Word"
begin

unbundle bit_operations_syntax

text \<open>
  The shared prelude of the development: the machine integer types of the C++ sources, the
  exceptions of the program as values, the sum type that carries them through every fallible
  operation, and the generic lemmas on results, lists, words and byte strings that the
  component theories use.
\<close>

section \<open>Machine integers\<close>

type_synonym u8 = "8 word"
type_synonym u16 = "16 word"
type_synonym u32 = "32 word"
type_synonym u64 = "64 word"
type_synonym bytes = "u8 list"

text \<open>A \<open>std::string\<close> as the bytes that it holds, and back.\<close>

definition str_bytes :: "string \<Rightarrow> bytes" where
  "str_bytes str = map of_char str"

definition bytes_str :: "bytes \<Rightarrow> string" where
  "bytes_str bs = map (\<lambda>b. char_of (unat b)) bs"

lemma bytes_str_bytes [simp]: "bytes_str (str_bytes str) = str"
proof -
  have "unat (of_char c :: u8) = of_char c" for c
  proof -
    have "unat (of_nat (of_char c) :: u8) = of_char c"
      using nat_of_char_less_256 [of c] unfolding unsigned_of_nat by (simp add: take_bit_eq_mod)
    then show ?thesis by (simp only: of_nat_of_char)
  qed
  then show ?thesis by (simp add: bytes_str_def str_bytes_def comp_def)
qed

lemma length_str_bytes [simp]: "length (str_bytes str) = length str"
  by (simp add: str_bytes_def)

text \<open>
  Collections: \<open>res_simps\<close> evaluates results, \<open>wire_simps\<close> the byte strings an encoder sends.
\<close>

named_theorems res_simps "evaluation of results"
named_theorems wire_simps "byte strings put on a stream"

section \<open>Exceptions and results\<close>

text \<open>
  One constructor per exception class the modelled code throws. \<open>AssertFailed\<close> is a failed
  \<open>assertm\<close>, \<open>MemoryFault\<close> an access outside the block a pointer refers to (undefined
  behaviour in C++), \<open>Diverges\<close> a loop of the code that does not end.
\<close>

datatype error =
    InvalidArgument
  | OutOfRange
  | RuntimeError
  | StreambufError
  | RfbError
  | NetworkError
  | AssertFailed
  | MemoryFault
  | Diverges

type_synonym 'a res = "error + 'a"

definition rbind :: "'a res \<Rightarrow> ('a \<Rightarrow> 'b res) \<Rightarrow> 'b res" where
  "rbind m f = (case m of Inl e \<Rightarrow> Inl e | Inr a \<Rightarrow> f a)"

lemma rbind_Inl [simp, res_simps]: "rbind (Inl e) f = Inl e"
  by (simp add: rbind_def)

lemma rbind_Inr [simp, res_simps]: "rbind (Inr a) f = f a"
  by (simp add: rbind_def)

lemma rbind_eq_Inr: "rbind m f = Inr b \<longleftrightarrow> (\<exists>a. m = Inr a \<and> f a = Inr b)"
  by (cases m) auto

lemma rbind_assoc: "rbind (rbind m f) g = rbind m (\<lambda>a. rbind (f a) g)"
  by (cases m) auto

lemma rbind_cong [fundef_cong]:
  "m = m' \<Longrightarrow> (\<And>a. m' = Inr a \<Longrightarrow> f a = f' a) \<Longrightarrow> rbind m f = rbind m' f'"
  by (cases m') auto

lemma rbind_return [simp]: "rbind m Inr = m"
  by (cases m) auto

definition require :: "bool \<Rightarrow> error \<Rightarrow> unit res" where
  "require b e = (if b then Inr () else Inl e)"

lemma require_simps [simp, res_simps]:
  "require True e = Inr ()" "require False e = Inl e"
  by (simp_all add: require_def)

lemma require_eq_Inr [simp]: "require b e = Inr u \<longleftrightarrow> b"
  by (simp add: require_def)

text \<open>A computation that may not return, as the value \<open>None\<close>, inside a result.\<close>

definition returning :: "'a option \<Rightarrow> 'a res" where
  "returning x = (case x of None \<Rightarrow> Inl Diverges | Some a \<Rightarrow> Inr a)"

lemma returning_simps [simp, res_simps]:
  "returning None = Inl Diverges" "returning (Some a) = Inr a"
  by (simp_all add: returning_def)

text \<open>The loops of the code over a list: run a body on every element, stop at the first exception.\<close>

fun mapM :: "('a \<Rightarrow> 'b res) \<Rightarrow> 'a list \<Rightarrow> 'b list res" where
  "mapM f [] = Inr []"
| "mapM f (x # xs) = rbind (f x) (\<lambda>y. rbind (mapM f xs) (\<lambda>ys. Inr (y # ys)))"

fun foldM :: "('a \<Rightarrow> 's \<Rightarrow> 's res) \<Rightarrow> 'a list \<Rightarrow> 's \<Rightarrow> 's res" where
  "foldM f [] s = Inr s"
| "foldM f (x # xs) s = rbind (f x s) (foldM f xs)"

definition concatM :: "('a \<Rightarrow> 'b list res) \<Rightarrow> 'a list \<Rightarrow> 'b list res" where
  "concatM f xs = rbind (mapM f xs) (\<lambda>ys. Inr (concat ys))"

lemma mapM_Inr: "(\<And>x. x \<in> set xs \<Longrightarrow> f x = Inr (g x)) \<Longrightarrow> mapM f xs = Inr (map g xs)"
  by (induction xs) auto

lemma mapM_append:
  "mapM f (xs @ ys) = rbind (mapM f xs) (\<lambda>as. rbind (mapM f ys) (\<lambda>bs. Inr (as @ bs)))"
  by (induction xs) (auto simp: rbind_assoc)

lemma mapM_cong [fundef_cong]:
  "xs = ys \<Longrightarrow> (\<And>x. x \<in> set ys \<Longrightarrow> f x = g x) \<Longrightarrow> mapM f xs = mapM g ys"
proof (induction ys arbitrary: xs)
  case Nil
  then show ?case by simp
next
  case (Cons y ys)
  then have "mapM f ys = mapM g ys" and "f y = g y" by auto
  with Cons.prems(1) show ?case by simp
qed

lemma mapM_length: "mapM f xs = Inr ys \<Longrightarrow> length ys = length xs"
  by (induction xs arbitrary: ys) (auto simp: rbind_eq_Inr)

lemma mapM_nth: "mapM f xs = Inr ys \<Longrightarrow> i < length xs \<Longrightarrow> f (xs ! i) = Inr (ys ! i)"
proof (induction xs arbitrary: ys i)
  case Nil
  then show ?case by simp
next
  case (Cons x xs)
  then show ?case by (cases i) (auto simp: rbind_eq_Inr)
qed

lemma foldM_append: "foldM f (xs @ ys) s = rbind (foldM f xs s) (foldM f ys)"
  by (induction xs arbitrary: s) (simp_all add: rbind_assoc cong: rbind_cong)

lemma foldM_invariant:
  "P s \<Longrightarrow> (\<And>x t. x \<in> set xs \<Longrightarrow> P t \<Longrightarrow> \<exists>t'. f x t = Inr t' \<and> P t') \<Longrightarrow>
   \<exists>s'. foldM f xs s = Inr s' \<and> P s'"
proof (induction xs arbitrary: s)
  case Nil
  then show ?case by simp
next
  case (Cons x xs)
  from Cons.prems obtain t where "f x s = Inr t" and "P t" by force
  with Cons show ?case by simp
qed

lemma concatM_Inr: "(\<And>x. x \<in> set xs \<Longrightarrow> f x = Inr (g x)) \<Longrightarrow> concatM f xs = Inr (concat (map g xs))"
  by (simp add: concatM_def mapM_Inr)

lemma concatM_Nil [simp]: "concatM f [] = Inr []"
  by (simp add: concatM_def)

lemma concatM_Cons [simp]:
  "concatM f (x # xs) = rbind (f x) (\<lambda>y. rbind (concatM f xs) (\<lambda>ys. Inr (y @ ys)))"
  by (simp add: concatM_def rbind_assoc)

section \<open>Words as byte strings\<close>

text \<open>\<open>le_bytes n v\<close> is the \<open>n\<close> low bytes of \<open>v\<close>, least significant first.\<close>

fun le_bytes :: "nat \<Rightarrow> 'a::len word \<Rightarrow> bytes" where
  "le_bytes 0 v = []"
| "le_bytes (Suc n) v = ucast v # le_bytes n (drop_bit 8 v)"

fun le_val :: "bytes \<Rightarrow> 'a::len word" where
  "le_val [] = 0"
| "le_val (b # bs) = ucast b OR push_bit 8 (le_val bs)"

definition be_bytes :: "nat \<Rightarrow> 'a::len word \<Rightarrow> bytes" where
  "be_bytes n v = rev (le_bytes n v)"

definition be_val :: "bytes \<Rightarrow> 'a::len word" where
  "be_val bs = le_val (rev bs)"

lemma length_le_bytes [simp]: "length (le_bytes n v) = n"
  by (induction n arbitrary: v) auto

lemma length_be_bytes [simp]: "length (be_bytes n v) = n"
  by (simp add: be_bytes_def)

lemma le_val_le_bytes: "le_val (le_bytes n v) = take_bit (8 * n) (v :: 'a::len word)"
proof (induction n arbitrary: v)
  case 0
  then show ?case by simp
next
  case (Suc n)
  show ?case
    by (rule bit_word_eqI)
      (auto simp: Suc bit_simps not_less)
qed

lemma bit_le_val:
  "bit (le_val bs :: 'a::len word) k \<longleftrightarrow>
     k < LENGTH('a) \<and> k div 8 < length bs \<and> bit (bs ! (k div 8)) (k mod 8)"
proof (induction bs arbitrary: k)
  case Nil
  then show ?case by simp
next
  case (Cons b bs)
  show ?case
  proof (cases "k < 8")
    case True
    then show ?thesis by (auto simp: bit_simps)
  next
    case False
    then have "\<not> bit b k" by (auto dest: bit_imp_le_length)
    moreover have "k div 8 = Suc ((k - 8) div 8)" and "k mod 8 = (k - 8) mod 8"
      using False by (auto simp: le_div_geq le_mod_geq)
    ultimately show ?thesis using False by (auto simp: bit_simps Cons.IH)
  qed
qed

lemma nth_le_bytes: "i < n \<Longrightarrow> le_bytes n v ! i = ucast (drop_bit (8 * i) v)"
proof (induction n arbitrary: v i)
  case 0
  then show ?case by simp
next
  case (Suc n)
  then show ?case by (cases i) (auto simp: add.commute)
qed

lemma le_bytes_le_val:
  assumes "8 * length bs \<le> LENGTH('a::len)"
  shows "le_bytes (length bs) (le_val bs :: 'a word) = bs"
proof (rule nth_equalityI)
  fix i assume "i < length (le_bytes (length bs) (le_val bs :: 'a word))"
  then have i: "i < length bs" by simp
  have "bit (ucast (drop_bit (8 * i) (le_val bs :: 'a word)) :: u8) k = bit (bs ! i) k"
    if "k < 8" for k
    using i that assms by (auto simp: bit_simps bit_le_val)
  then have "ucast (drop_bit (8 * i) (le_val bs :: 'a word)) = bs ! i"
    by (intro bit_word_eqI) simp
  with i show "le_bytes (length bs) (le_val bs :: 'a word) ! i = bs ! i"
    by (simp add: nth_le_bytes)
qed simp

lemma take_bit_width [simp]: "LENGTH('a) \<le> n \<Longrightarrow> take_bit n (v :: 'a::len word) = v"
  by (rule bit_word_eqI) (auto simp: bit_simps)

lemma le_val_full [simp]:
  "LENGTH('a) \<le> 8 * n \<Longrightarrow> le_val (le_bytes n (v :: 'a::len word)) = v"
  by (simp add: le_val_le_bytes)

lemma be_val_full [simp]:
  "LENGTH('a) \<le> 8 * n \<Longrightarrow> be_val (be_bytes n (v :: 'a::len word)) = v"
  by (simp add: be_val_def be_bytes_def)

lemma le_bytes_full [simp]:
  "length bs = n \<Longrightarrow> 8 * n \<le> LENGTH('a) \<Longrightarrow> le_bytes n (le_val bs :: 'a::len word) = bs"
  using le_bytes_le_val by blast

lemma be_bytes_full [simp]:
  "length bs = n \<Longrightarrow> 8 * n \<le> LENGTH('a) \<Longrightarrow> be_bytes n (be_val bs :: 'a::len word) = bs"
  by (simp add: be_bytes_def be_val_def)

text \<open>
  The representation of an integer object in memory: the platform's byte order, \<open>True\<close> for
  big endian.
\<close>

definition native_bytes :: "bool \<Rightarrow> nat \<Rightarrow> 'a::len word \<Rightarrow> bytes" where
  "native_bytes be n v = (if be then be_bytes n v else le_bytes n v)"

definition native_val :: "bool \<Rightarrow> bytes \<Rightarrow> 'a::len word" where
  "native_val be bs = (if be then be_val bs else le_val bs)"

lemma length_native_bytes [simp]: "length (native_bytes be n v) = n"
  by (simp add: native_bytes_def)

lemma native_val_full [simp]:
  "LENGTH('a) \<le> 8 * n \<Longrightarrow> native_val be (native_bytes be n (v :: 'a::len word)) = v"
  by (simp add: native_bytes_def native_val_def)

lemma native_bytes_full [simp]:
  "length bs = n \<Longrightarrow> 8 * n \<le> LENGTH('a) \<Longrightarrow> native_bytes be n (native_val be bs :: 'a::len word) = bs"
  by (simp add: native_bytes_def native_val_def)

section \<open>Reading and writing a block of memory\<close>

definition read_mem :: "bytes \<Rightarrow> nat \<Rightarrow> nat \<Rightarrow> bytes res" where
  "read_mem m off n =
     (if n = 0 \<or> off + n \<le> length m then Inr (take n (drop off m)) else Inl MemoryFault)"

definition write_mem :: "bytes \<Rightarrow> nat \<Rightarrow> bytes \<Rightarrow> bytes res" where
  "write_mem m off bs =
     (if bs = [] \<or> off + length bs \<le> length m
      then Inr (take off m @ bs @ drop (off + length bs) m) else Inl MemoryFault)"

lemma length_write_mem: "write_mem m off bs = Inr m' \<Longrightarrow> length m' = length m"
  by (auto simp: write_mem_def split: if_splits)

lemma read_write_same: "write_mem m off bs = Inr m' \<Longrightarrow> read_mem m' off (length bs) = Inr bs"
  by (auto simp: write_mem_def read_mem_def split: if_splits)

lemma take_drop_cong:
  assumes "length xs = length ys" and "\<And>k. off \<le> k \<Longrightarrow> k < off + n \<Longrightarrow> k < length xs \<Longrightarrow> xs ! k = ys ! k"
  shows "take n (drop off xs) = take n (drop off ys)"
  using assms by (intro nth_equalityI) auto

lemma read_write_other:
  assumes "write_mem m off bs = Inr m'"
    and "off' + n \<le> off \<or> off + length bs \<le> off'"
  shows "read_mem m' off' n = read_mem m off' n"
proof -
  have m': "m' = take off m @ bs @ drop (off + length bs) m"
    and len: "bs = [] \<or> off + length bs \<le> length m"
    using assms(1) by (auto simp: write_mem_def split: if_splits)
  have "m' ! k = m ! k" if "off' \<le> k" "k < off' + n" "k < length m" for k
    using that assms(2) len by (auto simp: m' nth_append min_def)
  moreover have "length m' = length m" using m' len by auto
  ultimately have "take n (drop off' m') = take n (drop off' m)"
    by (intro take_drop_cong) auto
  with \<open>length m' = length m\<close> show ?thesis by (simp add: read_mem_def)
qed

end
