(* ===== verification/Byte_Streams.thy ===== *)
theory Byte_Streams
  imports Ltsm_Prelude
begin

text \<open>
  \<^verbatim>\<open>src/src/common/ltsm_streambuf.cpp\<close>: the byte order interface (integers of 8 to 64 bits over
  an abstract \<open>getRaw\<close> and \<open>putRaw\<close>), the read only cursor \<open>StreamBufRef\<close> and the buffered stream
  \<open>StreamBuf\<close>. The platform's byte order is the parameter \<open>be\<close>, so both branches of every
  \<^verbatim>\<open>#if (__BYTE_ORDER__ == ...)\<close> are modelled. A stream object is its state, which each operation
  takes and returns; logging has no model.
\<close>

section \<open>ByteOrderInterface\<close>

text \<open>The virtual \<open>getRaw\<close> and \<open>putRaw\<close>, as operations of a stream state.\<close>

type_synonym 's get_raw = "'s \<Rightarrow> nat \<Rightarrow> (bytes \<times> 's) res"
type_synonym 's put_raw = "'s \<Rightarrow> bytes \<Rightarrow> 's res"

text \<open>\<open>__builtin_bswap16/32/64\<close>: the bytes of the integer in the opposite order.\<close>

definition swap16 :: "u16 \<Rightarrow> u16" where
  "swap16 x = le_val (rev (le_bytes 2 x))"

definition swap32 :: "u32 \<Rightarrow> u32" where
  "swap32 x = le_val (rev (le_bytes 4 x))"

definition swap64 :: "u64 \<Rightarrow> u64" where
  "swap64 x = le_val (rev (le_bytes 8 x))"

definition getInt8 :: "'s get_raw \<Rightarrow> 's \<Rightarrow> (u8 \<times> 's) res" where
  "getInt8 get s = rbind (get s 1) (\<lambda>(bs, s'). Inr (le_val bs, s'))"

definition putInt8 :: "'s put_raw \<Rightarrow> u8 \<Rightarrow> 's \<Rightarrow> 's res" where
  "putInt8 put v s = put s (le_bytes 1 v)"

definition getIntLE16 :: "bool \<Rightarrow> 's get_raw \<Rightarrow> 's \<Rightarrow> (u16 \<times> 's) res" where
  "getIntLE16 be get s = rbind (get s 2) (\<lambda>(bs, s').
     let v = native_val be bs in Inr (if be then swap16 v else v, s'))"

definition getIntLE32 :: "bool \<Rightarrow> 's get_raw \<Rightarrow> 's \<Rightarrow> (u32 \<times> 's) res" where
  "getIntLE32 be get s = rbind (get s 4) (\<lambda>(bs, s').
     let v = native_val be bs in Inr (if be then swap32 v else v, s'))"

definition getIntLE64 :: "bool \<Rightarrow> 's get_raw \<Rightarrow> 's \<Rightarrow> (u64 \<times> 's) res" where
  "getIntLE64 be get s = rbind (get s 8) (\<lambda>(bs, s').
     let v = native_val be bs in Inr (if be then swap64 v else v, s'))"

definition getIntBE16 :: "bool \<Rightarrow> 's get_raw \<Rightarrow> 's \<Rightarrow> (u16 \<times> 's) res" where
  "getIntBE16 be get s = rbind (get s 2) (\<lambda>(bs, s').
     let v = native_val be bs in Inr (if be then v else swap16 v, s'))"

definition getIntBE32 :: "bool \<Rightarrow> 's get_raw \<Rightarrow> 's \<Rightarrow> (u32 \<times> 's) res" where
  "getIntBE32 be get s = rbind (get s 4) (\<lambda>(bs, s').
     let v = native_val be bs in Inr (if be then v else swap32 v, s'))"

definition getIntBE64 :: "bool \<Rightarrow> 's get_raw \<Rightarrow> 's \<Rightarrow> (u64 \<times> 's) res" where
  "getIntBE64 be get s = rbind (get s 8) (\<lambda>(bs, s').
     let v = native_val be bs in Inr (if be then v else swap64 v, s'))"

definition putIntLE16 :: "bool \<Rightarrow> 's put_raw \<Rightarrow> u16 \<Rightarrow> 's \<Rightarrow> 's res" where
  "putIntLE16 be put v s = put s (native_bytes be 2 (if be then swap16 v else v))"

definition putIntLE32 :: "bool \<Rightarrow> 's put_raw \<Rightarrow> u32 \<Rightarrow> 's \<Rightarrow> 's res" where
  "putIntLE32 be put v s = put s (native_bytes be 4 (if be then swap32 v else v))"

definition putIntLE64 :: "bool \<Rightarrow> 's put_raw \<Rightarrow> u64 \<Rightarrow> 's \<Rightarrow> 's res" where
  "putIntLE64 be put v s = put s (native_bytes be 8 (if be then swap64 v else v))"

definition putIntBE16 :: "bool \<Rightarrow> 's put_raw \<Rightarrow> u16 \<Rightarrow> 's \<Rightarrow> 's res" where
  "putIntBE16 be put v s = put s (native_bytes be 2 (if be then v else swap16 v))"

definition putIntBE32 :: "bool \<Rightarrow> 's put_raw \<Rightarrow> u32 \<Rightarrow> 's \<Rightarrow> 's res" where
  "putIntBE32 be put v s = put s (native_bytes be 4 (if be then v else swap32 v))"

definition putIntBE64 :: "bool \<Rightarrow> 's put_raw \<Rightarrow> u64 \<Rightarrow> 's \<Rightarrow> 's res" where
  "putIntBE64 be put v s = put s (native_bytes be 8 (if be then v else swap64 v))"

subsection \<open>The wire format does not depend on the platform\<close>

lemma native_swap:
  "native_bytes be 2 (swap16 a) = rev (native_bytes be 2 a)"
  "native_bytes be 4 (swap32 b) = rev (native_bytes be 4 b)"
  "native_bytes be 8 (swap64 c) = rev (native_bytes be 8 c)"
  by (simp_all add: native_bytes_def be_bytes_def swap16_def swap32_def swap64_def)

lemma swap_native_val:
  "length bs = 2 \<Longrightarrow> swap16 (native_val be bs) = native_val (\<not> be) bs"
  "length cs = 4 \<Longrightarrow> swap32 (native_val be cs) = native_val (\<not> be) cs"
  "length ds = 8 \<Longrightarrow> swap64 (native_val be ds) = native_val (\<not> be) ds"
  by (simp_all add: native_val_def be_val_def swap16_def swap32_def swap64_def)

lemma put_wire [wire_simps]:
  "putInt8 put a s = put s [a]"
  "putIntLE16 be put v s = put s (le_bytes 2 v)"
  "putIntLE32 be put w s = put s (le_bytes 4 w)"
  "putIntLE64 be put x s = put s (le_bytes 8 x)"
  "putIntBE16 be put v s = put s (be_bytes 2 v)"
  "putIntBE32 be put w s = put s (be_bytes 4 w)"
  "putIntBE64 be put x s = put s (be_bytes 8 x)"
  by (simp_all add: putInt8_def putIntLE16_def putIntLE32_def putIntLE64_def putIntBE16_def
      putIntBE32_def putIntBE64_def native_swap) (simp_all add: native_bytes_def be_bytes_def)

text \<open>
  \<open>reads pending m bs v\<close>: whenever the bytes still to be read start with \<open>bs\<close>, the reader \<open>m\<close>
  succeeds, returns \<open>v\<close> and consumes exactly \<open>bs\<close>. Readers compose by appending what they consume.
\<close>

definition reads :: "('s \<Rightarrow> bytes) \<Rightarrow> ('s \<Rightarrow> ('a \<times> 's) res) \<Rightarrow> bytes \<Rightarrow> 'a \<Rightarrow> bool" where
  "reads pending m bs v \<longleftrightarrow>
     (\<forall>s rest. pending s = bs @ rest \<longrightarrow> (\<exists>s'. m s = Inr (v, s') \<and> pending s' = rest))"

lemma readsI:
  "(\<And>s rest. pending s = bs @ rest \<Longrightarrow> \<exists>s'. m s = Inr (v, s') \<and> pending s' = rest) \<Longrightarrow>
   reads pending m bs v"
  by (simp add: reads_def)

lemma readsE:
  assumes "reads pending m bs v" and "pending s = bs @ rest"
  obtains s' where "m s = Inr (v, s')" and "pending s' = rest"
  using assms by (auto simp: reads_def)

lemma reads_return: "reads pending (\<lambda>s. Inr (v, s)) [] v"
  by (simp add: reads_def)

lemma reads_bind:
  assumes "reads pending m bs v" and "reads pending (f v) cs w"
  shows "reads pending (\<lambda>s. rbind (m s) (\<lambda>(a, s'). f a s')) (bs @ cs) w"
proof (rule readsI)
  fix s rest assume "pending s = (bs @ cs) @ rest"
  then have "pending s = bs @ (cs @ rest)" by simp
  with assms(1) obtain s' where "m s = Inr (v, s')" and "pending s' = cs @ rest" by (rule readsE)
  moreover from assms(2) this(2) obtain s'' where "f v s' = Inr (w, s'')" and "pending s'' = rest"
    by (rule readsE)
  ultimately show "\<exists>s''. rbind (m s) (\<lambda>(a, s'). f a s') = Inr (w, s'') \<and> pending s'' = rest"
    by simp
qed

lemma reads_map:
  assumes "reads pending m bs v" and "w = f v"
  shows "reads pending (\<lambda>s. rbind (m s) (\<lambda>(a, s'). Inr (f a, s'))) bs w"
  using reads_bind [OF assms(1), of "\<lambda>a s. Inr (f a, s)" "[]" w] assms(2)
  by (simp add: reads_return)

text \<open>
  What the readers rely on: \<open>getRaw\<close> delivers the next \<open>len\<close> pending bytes when there are that
  many and throws otherwise.
\<close>

locale byte_source =
  fixes get :: "'s get_raw" and pending :: "'s \<Rightarrow> bytes"
  assumes get_enough: "n \<le> length (pending s) \<Longrightarrow>
      \<exists>s'. get s n = Inr (take n (pending s), s') \<and> pending s' = drop n (pending s)"
    and get_short: "length (pending s) < n \<Longrightarrow> \<exists>e. e \<noteq> Diverges \<and> get s n = Inl e"
begin

lemma reads_raw: "n = length bs \<Longrightarrow> reads pending (\<lambda>s. get s n) bs bs"
proof (rule readsI)
  fix s rest assume "n = length bs" and "pending s = bs @ rest"
  then show "\<exists>s'. get s n = Inr (bs, s') \<and> pending s' = rest"
    using get_enough [of n s] by simp
qed

lemma reads_int8: "reads pending (getInt8 get) [v] v"
  unfolding getInt8_def by (rule reads_map [OF reads_raw]) (auto simp: bit_simps)

lemma reads_LE:
  "reads pending (getIntLE16 be get) (le_bytes 2 v) v"
  "reads pending (getIntLE32 be get) (le_bytes 4 w) w"
  "reads pending (getIntLE64 be get) (le_bytes 8 x) x"
  unfolding getIntLE16_def getIntLE32_def getIntLE64_def Let_def
  by (rule reads_map [OF reads_raw]; simp add: swap_native_val; simp add: native_val_def)+

lemma reads_BE:
  "reads pending (getIntBE16 be get) (be_bytes 2 v) v"
  "reads pending (getIntBE32 be get) (be_bytes 4 w) w"
  "reads pending (getIntBE64 be get) (be_bytes 8 x) x"
  unfolding getIntBE16_def getIntBE32_def getIntBE64_def Let_def
  by (rule reads_map [OF reads_raw]; simp add: swap_native_val; simp add: native_val_def)+

lemmas reads_ints = reads_int8 reads_LE reads_BE

end

section \<open>MemoryStream\<close>

text \<open>
  \<open>sbe\<close> is the virtual \<open>bigendian()\<close> of the stream; the base class answers with the platform's
  order, \<open>StreamBuf\<close> and \<open>StreamBufRef\<close> with \<open>false\<close>.
\<close>

definition memoryStream_bigendian :: "bool \<Rightarrow> bool" where
  "memoryStream_bigendian be = be"

definition readInt16 :: "bool \<Rightarrow> bool \<Rightarrow> 's get_raw \<Rightarrow> 's \<Rightarrow> (u16 \<times> 's) res" where
  "readInt16 be sbe get s = (if sbe then getIntBE16 be get s else getIntLE16 be get s)"

definition readInt32 :: "bool \<Rightarrow> bool \<Rightarrow> 's get_raw \<Rightarrow> 's \<Rightarrow> (u32 \<times> 's) res" where
  "readInt32 be sbe get s = (if sbe then getIntBE32 be get s else getIntLE32 be get s)"

definition readInt64 :: "bool \<Rightarrow> bool \<Rightarrow> 's get_raw \<Rightarrow> 's \<Rightarrow> (u64 \<times> 's) res" where
  "readInt64 be sbe get s = (if sbe then getIntBE64 be get s else getIntLE64 be get s)"

definition readTo :: "'s get_raw \<Rightarrow> 's \<Rightarrow> nat \<Rightarrow> (bytes \<times> 's) res" where
  "readTo get s len = get s len"

text \<open>\<open>operator>>(std::vector)\<close>: everything that is left, appended to the vector.\<close>

definition readVector :: "'s get_raw \<Rightarrow> ('s \<Rightarrow> nat) \<Rightarrow> bytes \<Rightarrow> 's \<Rightarrow> (bytes \<times> 's) res" where
  "readVector get lst v s = rbind (get s (lst s)) (\<lambda>(bs, s'). Inr (v @ bs, s'))"

definition writeInt16 :: "bool \<Rightarrow> bool \<Rightarrow> 's put_raw \<Rightarrow> u16 \<Rightarrow> 's \<Rightarrow> 's res" where
  "writeInt16 be sbe put v s = (if sbe then putIntBE16 be put v s else putIntLE16 be put v s)"

definition writeInt32 :: "bool \<Rightarrow> bool \<Rightarrow> 's put_raw \<Rightarrow> u32 \<Rightarrow> 's \<Rightarrow> 's res" where
  "writeInt32 be sbe put v s = (if sbe then putIntBE32 be put v s else putIntLE32 be put v s)"

definition writeInt64 :: "bool \<Rightarrow> bool \<Rightarrow> 's put_raw \<Rightarrow> u64 \<Rightarrow> 's \<Rightarrow> 's res" where
  "writeInt64 be sbe put v s = (if sbe then putIntBE64 be put v s else putIntLE64 be put v s)"

text \<open>\<open>write(ptr, len)\<close>, \<open>write(string_view)\<close>, \<open>write(vector)\<close> and the \<open><<\<close> of both.\<close>

definition writeBytes :: "'s put_raw \<Rightarrow> bytes \<Rightarrow> 's \<Rightarrow> 's res" where
  "writeBytes put v s = put s v"

fun fill :: "'s put_raw \<Rightarrow> nat \<Rightarrow> u8 \<Rightarrow> 's \<Rightarrow> 's res" where
  "fill put 0 c s = Inr s"
| "fill put (Suc len) c s = rbind (putInt8 put c s) (fill put len c)"

definition readString :: "'s get_raw \<Rightarrow> ('s \<Rightarrow> nat) \<Rightarrow> nat \<Rightarrow> 's \<Rightarrow> (bytes \<times> 's) res" where
  "readString get lst len s = (let len = if len = 0 then lst s else len in readTo get s len)"

section \<open>StreamBufRef\<close>

text \<open>
  A cursor \<open>it1\<close> and an end \<open>it2\<close> into a block it does not own. The pointers are offsets into the
  block \<open>ref_mem\<close>; the null pointer of the default constructor is an empty block.
\<close>

record streambufref =
  ref_mem :: bytes
  ref_it1 :: nat
  ref_it2 :: nat

definition streamBufRef_default :: streambufref where
  "streamBufRef_default = \<lparr>ref_mem = [], ref_it1 = 0, ref_it2 = 0\<rparr>"

definition streamBufRef :: "bytes option \<Rightarrow> nat \<Rightarrow> streambufref" where
  "streamBufRef ptr len = (case ptr of
       None \<Rightarrow> streamBufRef_default
     | Some m \<Rightarrow> \<lparr>ref_mem = m, ref_it1 = 0, ref_it2 = len\<rparr>)"

definition ref_reset :: "bytes \<Rightarrow> nat \<Rightarrow> streambufref \<Rightarrow> streambufref" where
  "ref_reset m len s = s\<lparr>ref_mem := m, ref_it1 := 0, ref_it2 := len\<rparr>"

definition ref_last :: "streambufref \<Rightarrow> nat" where
  "ref_last s = ref_it2 s - ref_it1 s"

definition ref_getRaw :: "streambufref get_raw" where
  "ref_getRaw s len =
     (if ref_last s < len then Inl InvalidArgument
      else rbind (read_mem (ref_mem s) (ref_it1 s) len) (\<lambda>bs.
           Inr (bs, s\<lparr>ref_it1 := ref_it1 s + len\<rparr>)))"

definition ref_putRaw :: "streambufref put_raw" where
  "ref_putRaw s bs = Inl StreambufError"

definition ref_read :: "nat \<Rightarrow> streambufref \<Rightarrow> (bytes \<times> streambufref) res" where
  "ref_read len s =
     (if ref_last s < len then Inl InvalidArgument
      else let len = if len = 0 then ref_last s else len in
           rbind (read_mem (ref_mem s) (ref_it1 s) len) (\<lambda>bs.
             Inr (bs, s\<lparr>ref_it1 := ref_it1 s + len\<rparr>)))"

definition ref_readTo :: "streambufref \<Rightarrow> nat \<Rightarrow> (bytes \<times> streambufref) res" where
  "ref_readTo s len =
     (if ref_last s < len then Inl InvalidArgument
      else if len = 0 then Inr ([], s)
      else rbind (read_mem (ref_mem s) (ref_it1 s) len) (\<lambda>bs.
             Inr (bs, s\<lparr>ref_it1 := ref_it1 s + len\<rparr>)))"

definition ref_skip :: "nat \<Rightarrow> streambufref \<Rightarrow> streambufref res" where
  "ref_skip len s =
     (if ref_last s < len then Inl InvalidArgument else Inr (s\<lparr>ref_it1 := ref_it1 s + len\<rparr>))"

definition ref_peek :: "streambufref \<Rightarrow> u8 res" where
  "ref_peek s =
     (if ref_it1 s = ref_it2 s then Inl OutOfRange
      else rbind (read_mem (ref_mem s) (ref_it1 s) 1) (\<lambda>bs. Inr (le_val bs)))"

text \<open>The multi-byte peeks read and then step the cursor back.\<close>

definition ref_back :: "nat \<Rightarrow> 'a \<times> streambufref \<Rightarrow> ('a \<times> streambufref) res" where
  "ref_back n r = Inr (fst r, (snd r)\<lparr>ref_it1 := ref_it1 (snd r) - n\<rparr>)"

definition ref_peekIntLE16 :: "bool \<Rightarrow> streambufref \<Rightarrow> (u16 \<times> streambufref) res" where
  "ref_peekIntLE16 be s = rbind (getIntLE16 be ref_getRaw s) (ref_back 2)"

definition ref_peekIntBE16 :: "bool \<Rightarrow> streambufref \<Rightarrow> (u16 \<times> streambufref) res" where
  "ref_peekIntBE16 be s = rbind (getIntBE16 be ref_getRaw s) (ref_back 2)"

definition ref_peekIntLE32 :: "bool \<Rightarrow> streambufref \<Rightarrow> (u32 \<times> streambufref) res" where
  "ref_peekIntLE32 be s = rbind (getIntLE32 be ref_getRaw s) (ref_back 4)"

definition ref_peekIntBE32 :: "bool \<Rightarrow> streambufref \<Rightarrow> (u32 \<times> streambufref) res" where
  "ref_peekIntBE32 be s = rbind (getIntBE32 be ref_getRaw s) (ref_back 4)"

definition ref_peekIntLE64 :: "bool \<Rightarrow> streambufref \<Rightarrow> (u64 \<times> streambufref) res" where
  "ref_peekIntLE64 be s = rbind (getIntLE64 be ref_getRaw s) (ref_back 8)"

definition ref_peekIntBE64 :: "bool \<Rightarrow> streambufref \<Rightarrow> (u64 \<times> streambufref) res" where
  "ref_peekIntBE64 be s = rbind (getIntBE64 be ref_getRaw s) (ref_back 8)"

definition ref_pending :: "streambufref \<Rightarrow> bytes" where
  "ref_pending s = take (ref_last s) (drop (ref_it1 s) (ref_mem s))"

lemma ref_pending_new [simp]: "ref_pending (streamBufRef (Some m) (length m)) = m"
  by (simp add: ref_pending_def streamBufRef_def ref_last_def)

lemma ref_pending_reset [simp]: "ref_pending (ref_reset m (length m) s) = m"
  by (simp add: ref_pending_def ref_reset_def ref_last_def)

lemma ref_pending_step:
  "ref_pending (s\<lparr>ref_it1 := ref_it1 s + n\<rparr>) = drop n (ref_pending s)"
  by (simp add: ref_pending_def ref_last_def drop_take add.commute diff_diff_left)

text \<open>Both ways of taking bytes from a \<open>StreamBufRef\<close> are byte sources.\<close>

interpretation sbref: byte_source ref_getRaw ref_pending
  by unfold_locales
    (auto simp: ref_getRaw_def read_mem_def ref_pending_step, auto simp: ref_pending_def)

interpretation sbto: byte_source ref_readTo ref_pending
  by unfold_locales
    (auto simp: ref_readTo_def read_mem_def ref_pending_step, auto simp: ref_pending_def)

text \<open>A peek returns the integer ahead of the cursor and leaves the stream as it was.\<close>

lemma ref_back_restores:
  assumes "g = Inr (v, s')" and "s' = s\<lparr>ref_it1 := ref_it1 s + n\<rparr>"
  shows "rbind g (ref_back n) = Inr (v, s)"
  using assms by (simp add: ref_back_def)

lemma ref_getInt_state:
  "getIntLE16 be ref_getRaw s = Inr (a, s') \<Longrightarrow> s' = s\<lparr>ref_it1 := ref_it1 s + 2\<rparr>"
  "getIntBE16 be ref_getRaw s = Inr (a, s') \<Longrightarrow> s' = s\<lparr>ref_it1 := ref_it1 s + 2\<rparr>"
  "getIntLE32 be ref_getRaw s = Inr (b, s') \<Longrightarrow> s' = s\<lparr>ref_it1 := ref_it1 s + 4\<rparr>"
  "getIntBE32 be ref_getRaw s = Inr (b, s') \<Longrightarrow> s' = s\<lparr>ref_it1 := ref_it1 s + 4\<rparr>"
  "getIntLE64 be ref_getRaw s = Inr (c, s') \<Longrightarrow> s' = s\<lparr>ref_it1 := ref_it1 s + 8\<rparr>"
  "getIntBE64 be ref_getRaw s = Inr (c, s') \<Longrightarrow> s' = s\<lparr>ref_it1 := ref_it1 s + 8\<rparr>"
  by (auto simp: getIntLE16_def getIntLE32_def getIntLE64_def getIntBE16_def getIntBE32_def
      getIntBE64_def Let_def rbind_eq_Inr ref_getRaw_def split: if_splits)

lemma ref_peeks:
  "ref_pending s = le_bytes 2 a @ r \<Longrightarrow> ref_peekIntLE16 be s = Inr (a, s)"
  "ref_pending s = be_bytes 2 a @ r \<Longrightarrow> ref_peekIntBE16 be s = Inr (a, s)"
  "ref_pending s = le_bytes 4 b @ r \<Longrightarrow> ref_peekIntLE32 be s = Inr (b, s)"
  "ref_pending s = be_bytes 4 b @ r \<Longrightarrow> ref_peekIntBE32 be s = Inr (b, s)"
  "ref_pending s = le_bytes 8 c @ r \<Longrightarrow> ref_peekIntLE64 be s = Inr (c, s)"
  "ref_pending s = be_bytes 8 c @ r \<Longrightarrow> ref_peekIntBE64 be s = Inr (c, s)"
  unfolding ref_peekIntLE16_def ref_peekIntBE16_def ref_peekIntLE32_def ref_peekIntBE32_def
    ref_peekIntLE64_def ref_peekIntBE64_def
  by (erule readsE [OF sbref.reads_LE(1) [of be]] readsE [OF sbref.reads_BE(1) [of be]]
      readsE [OF sbref.reads_LE(2) [of be]] readsE [OF sbref.reads_BE(2) [of be]]
      readsE [OF sbref.reads_LE(3) [of be]] readsE [OF sbref.reads_BE(3) [of be]],
      rule ref_back_restores, assumption, erule ref_getInt_state)+

section \<open>StreamBuf\<close>

text \<open>The vector and the offset of its read iterator.\<close>

record streambuf =
  buf_vec :: bytes
  buf_it :: nat

definition streamBuf :: streambuf where
  "streamBuf = \<lparr>buf_vec = [], buf_it = 0\<rparr>"

definition streamBuf_of :: "bytes \<Rightarrow> streambuf" where
  "streamBuf_of v = \<lparr>buf_vec = v, buf_it = 0\<rparr>"

definition buf_tell :: "streambuf \<Rightarrow> nat" where
  "buf_tell s = buf_it s"

definition buf_copy :: "streambuf \<Rightarrow> streambuf" where
  "buf_copy sb = \<lparr>buf_vec = buf_vec sb, buf_it = buf_tell sb\<rparr>"

definition buf_reset :: "streambuf \<Rightarrow> streambuf" where
  "buf_reset s = s\<lparr>buf_vec := [], buf_it := 0\<rparr>"

definition buf_reset_to :: "bytes \<Rightarrow> streambuf \<Rightarrow> streambuf" where
  "buf_reset_to v s = s\<lparr>buf_vec := v, buf_it := 0\<rparr>"

definition buf_last :: "streambuf \<Rightarrow> nat" where
  "buf_last s = length (buf_vec s) - buf_it s"

definition buf_getRaw :: "streambuf get_raw" where
  "buf_getRaw s len =
     (if buf_last s < len then Inl InvalidArgument
      else rbind (read_mem (buf_vec s) (buf_it s) len) (\<lambda>bs.
           Inr (bs, s\<lparr>buf_it := buf_it s + len\<rparr>)))"

definition buf_putRaw :: "streambuf put_raw" where
  "buf_putRaw s bs =
     (let offset = buf_it s; vec = buf_vec s @ bs
      in Inr (s\<lparr>buf_vec := vec, buf_it := min offset (length vec)\<rparr>))"

definition buf_read :: "nat \<Rightarrow> streambuf \<Rightarrow> (bytes \<times> streambuf) res" where
  "buf_read len s =
     (if len > buf_last s then Inl InvalidArgument
      else let len = if len = 0 then buf_last s else len in
           rbind (read_mem (buf_vec s) (buf_it s) len) (\<lambda>bs.
             Inr (bs, s\<lparr>buf_it := buf_it s + len\<rparr>)))"

definition buf_skip :: "nat \<Rightarrow> streambuf \<Rightarrow> streambuf res" where
  "buf_skip len s =
     (if len > buf_last s then Inl InvalidArgument else Inr (s\<lparr>buf_it := buf_it s + len\<rparr>))"

definition buf_peek :: "streambuf \<Rightarrow> u8 res" where
  "buf_peek s =
     (if buf_it s = length (buf_vec s) then Inl OutOfRange
      else rbind (read_mem (buf_vec s) (buf_it s) 1) (\<lambda>bs. Inr (le_val bs)))"

definition buf_rawbuf :: "streambuf \<Rightarrow> bytes" where
  "buf_rawbuf s = buf_vec s"

definition buf_shrink :: "streambuf \<Rightarrow> streambuf" where
  "buf_shrink s =
     (if buf_vec s \<noteq> [] then
        if buf_it s = length (buf_vec s) then s\<lparr>buf_vec := [], buf_it := 0\<rparr>
        else if length (buf_vec s) > 10 * buf_last s
        then s\<lparr>buf_vec := drop (buf_it s) (buf_vec s), buf_it := 0\<rparr>
        else s
      else s)"

definition buf_wf :: "streambuf \<Rightarrow> bool" where
  "buf_wf s \<longleftrightarrow> buf_it s \<le> length (buf_vec s)"

definition buf_pending :: "streambuf \<Rightarrow> bytes" where
  "buf_pending s = drop (buf_it s) (buf_vec s)"

lemma buf_pending_new [simp]:
  "buf_pending streamBuf = []" "buf_pending (streamBuf_of v) = v" "buf_wf streamBuf" "buf_wf (streamBuf_of v)"
  by (simp_all add: buf_pending_def streamBuf_def streamBuf_of_def buf_wf_def)

lemma length_buf_pending [simp]: "length (buf_pending s) = buf_last s"
  by (simp add: buf_pending_def buf_last_def)

interpretation sbuf: byte_source buf_getRaw buf_pending
  by unfold_locales
    (auto simp: buf_getRaw_def read_mem_def, auto simp: buf_pending_def buf_last_def add.commute)

text \<open>
  A stream that is also written to: \<open>putRaw\<close> appends to what is still to be read, on every state
  the operations keep well formed.
\<close>

locale memory_stream = byte_source get pending
  for get :: "'s get_raw" and pending :: "'s \<Rightarrow> bytes" +
  fixes put :: "'s put_raw" and wf :: "'s \<Rightarrow> bool"
  assumes put_appends: "wf s \<Longrightarrow> \<exists>s'. put s bs = Inr s' \<and> pending s' = pending s @ bs \<and> wf s'"
    and get_wf: "wf s \<Longrightarrow> get s n = Inr (bs, s') \<Longrightarrow> wf s'"
begin

lemma fill_appends:
  "wf s \<Longrightarrow> \<exists>s'. fill put n c s = Inr s' \<and> pending s' = pending s @ replicate n c \<and> wf s'"
proof (induction n arbitrary: s)
  case 0
  then show ?case by simp
next
  case (Suc n)
  obtain t where "put s [c] = Inr t" "pending t = pending s @ [c]" "wf t"
    using put_appends [OF Suc.prems] by blast
  with Suc.IH [of t] show ?case by (auto simp: put_wire)
qed

end

interpretation sbuf: memory_stream buf_getRaw buf_pending buf_putRaw buf_wf
  by unfold_locales
    (auto simp: buf_putRaw_def buf_wf_def buf_pending_def Let_def,
     auto simp: buf_getRaw_def buf_last_def rbind_eq_Inr split: if_splits)

section \<open>The stream as a queue of bytes\<close>

text \<open>
  The abstract specification of \<open>StreamBuf\<close>: a queue of bytes. One operation of the class is
  one constructor; \<open>buf_step\<close> runs the code's operation, \<open>queue_step\<close> the operation of the queue.
  Both return what the operation delivers.
\<close>

datatype stream_op =
    Put bytes
  | Get nat
  | Read nat
  | Skip nat
  | Shrink
  | Reset

definition buf_step :: "stream_op \<Rightarrow> streambuf \<Rightarrow> (bytes \<times> streambuf) res" where
  "buf_step x s = (case x of
       Put bs \<Rightarrow> rbind (buf_putRaw s bs) (\<lambda>s'. Inr ([], s'))
     | Get n \<Rightarrow> buf_getRaw s n
     | Read n \<Rightarrow> buf_read n s
     | Skip n \<Rightarrow> rbind (buf_skip n s) (\<lambda>s'. Inr ([], s'))
     | Shrink \<Rightarrow> Inr ([], buf_shrink s)
     | Reset \<Rightarrow> Inr ([], buf_reset s))"

definition queue_step :: "stream_op \<Rightarrow> bytes \<Rightarrow> (bytes \<times> bytes) res" where
  "queue_step x q = (case x of
       Put bs \<Rightarrow> Inr ([], q @ bs)
     | Get n \<Rightarrow> if n \<le> length q then Inr (take n q, drop n q) else Inl InvalidArgument
     | Read n \<Rightarrow> if n \<le> length q
         then let m = (if n = 0 then length q else n) in Inr (take m q, drop m q)
         else Inl InvalidArgument
     | Skip n \<Rightarrow> if n \<le> length q then Inr ([], drop n q) else Inl InvalidArgument
     | Shrink \<Rightarrow> Inr ([], q)
     | Reset \<Rightarrow> Inr ([], []))"

fun run_steps :: "('x \<Rightarrow> 's \<Rightarrow> ('o \<times> 's) res) \<Rightarrow> 'x list \<Rightarrow> 's \<Rightarrow> ('o list \<times> 's) res" where
  "run_steps f [] s = Inr ([], s)"
| "run_steps f (x # xs) s = rbind (f x s) (\<lambda>(out, s').
     rbind (run_steps f xs s') (\<lambda>(outs, s''). Inr (out # outs, s'')))"

lemma buf_shrink_pending: "buf_wf s \<Longrightarrow> buf_pending (buf_shrink s) = buf_pending s"
  by (auto simp: buf_shrink_def buf_pending_def)

lemma buf_shrink_wf: "buf_wf s \<Longrightarrow> buf_wf (buf_shrink s)"
  by (auto simp: buf_shrink_def buf_wf_def)

lemma buf_step_refines:
  assumes "buf_wf s"
  shows "case queue_step x (buf_pending s) of
      Inl e \<Rightarrow> buf_step x s = Inl e
    | Inr (out, q) \<Rightarrow> \<exists>s'. buf_step x s = Inr (out, s') \<and> buf_wf s' \<and> buf_pending s' = q"
  using assms buf_shrink_pending [of s] buf_shrink_wf [of s]
  by (cases x)
    (auto simp: buf_step_def queue_step_def buf_putRaw_def buf_getRaw_def buf_read_def buf_skip_def
      buf_reset_def read_mem_def Let_def buf_wf_def buf_pending_def buf_last_def add.commute)

lemma run_buf_refines:
  "buf_wf s \<Longrightarrow> (case run_steps queue_step xs (buf_pending s) of
      Inl e \<Rightarrow> run_steps buf_step xs s = Inl e
    | Inr (outs, q) \<Rightarrow> \<exists>s'. run_steps buf_step xs s = Inr (outs, s') \<and> buf_wf s' \<and> buf_pending s' = q)"
proof (induction xs arbitrary: s)
  case Nil
  then show ?case by simp
next
  case (Cons x xs)
  show ?case
  proof (cases "queue_step x (buf_pending s)")
    case (Inl e)
    with buf_step_refines [OF Cons.prems, of x] show ?thesis by simp
  next
    case (Inr r)
    then obtain out q where q: "queue_step x (buf_pending s) = Inr (out, q)" by (cases r) auto
    with buf_step_refines [OF Cons.prems, of x] obtain s' where
      s': "buf_step x s = Inr (out, s')" "buf_wf s'" "buf_pending s' = q" by auto
    with Cons.IH [of s'] q show ?thesis
      by (auto split: sum.splits)
  qed
qed

text \<open>
  C34. A new \<open>StreamBuf\<close>, driven by any sequence of \<open>putRaw\<close>, \<open>getRaw\<close>, \<open>read\<close>, \<open>skip\<close>, \<open>shrink\<close>
  and \<open>reset\<close>, delivers and throws exactly what a queue of bytes does: the compaction in
  \<open>shrink\<close> and the iterator saved across the reallocation in \<open>putRaw\<close> never lose or repeat a byte,
  and no operation leaves the vector's bounds.
\<close>

theorem streambuf_is_queue:
  "map_sum id fst (run_steps buf_step xs streamBuf) = map_sum id fst (run_steps queue_step xs [])"
  using run_buf_refines [of streamBuf xs] by (auto split: sum.splits)

text \<open>Typed writes and reads: one constructor per integer width and byte order, and raw bytes.\<close>

datatype item =
    I8 u8
  | LE16 u16
  | LE32 u32
  | LE64 u64
  | BE16 u16
  | BE32 u32
  | BE64 u64
  | Raw bytes

definition put_item :: "bool \<Rightarrow> 's put_raw \<Rightarrow> item \<Rightarrow> 's \<Rightarrow> 's res" where
  "put_item be put x s = (case x of
       I8 v \<Rightarrow> putInt8 put v s
     | LE16 v \<Rightarrow> putIntLE16 be put v s
     | LE32 v \<Rightarrow> putIntLE32 be put v s
     | LE64 v \<Rightarrow> putIntLE64 be put v s
     | BE16 v \<Rightarrow> putIntBE16 be put v s
     | BE32 v \<Rightarrow> putIntBE32 be put v s
     | BE64 v \<Rightarrow> putIntBE64 be put v s
     | Raw bs \<Rightarrow> writeBytes put bs s)"

text \<open>Read back an item of the same kind (and length).\<close>

definition get_item :: "bool \<Rightarrow> 's get_raw \<Rightarrow> item \<Rightarrow> 's \<Rightarrow> (item \<times> 's) res" where
  "get_item be get x s = (case x of
       I8 _ \<Rightarrow> rbind (getInt8 get s) (\<lambda>(v, s'). Inr (I8 v, s'))
     | LE16 _ \<Rightarrow> rbind (getIntLE16 be get s) (\<lambda>(v, s'). Inr (LE16 v, s'))
     | LE32 _ \<Rightarrow> rbind (getIntLE32 be get s) (\<lambda>(v, s'). Inr (LE32 v, s'))
     | LE64 _ \<Rightarrow> rbind (getIntLE64 be get s) (\<lambda>(v, s'). Inr (LE64 v, s'))
     | BE16 _ \<Rightarrow> rbind (getIntBE16 be get s) (\<lambda>(v, s'). Inr (BE16 v, s'))
     | BE32 _ \<Rightarrow> rbind (getIntBE32 be get s) (\<lambda>(v, s'). Inr (BE32 v, s'))
     | BE64 _ \<Rightarrow> rbind (getIntBE64 be get s) (\<lambda>(v, s'). Inr (BE64 v, s'))
     | Raw bs \<Rightarrow> rbind (readTo get s (length bs)) (\<lambda>(v, s'). Inr (Raw v, s')))"

definition item_bytes :: "item \<Rightarrow> bytes" where
  "item_bytes x = (case x of
       I8 v \<Rightarrow> [v]
     | LE16 v \<Rightarrow> le_bytes 2 v
     | LE32 v \<Rightarrow> le_bytes 4 v
     | LE64 v \<Rightarrow> le_bytes 8 v
     | BE16 v \<Rightarrow> be_bytes 2 v
     | BE32 v \<Rightarrow> be_bytes 4 v
     | BE64 v \<Rightarrow> be_bytes 8 v
     | Raw bs \<Rightarrow> bs)"

lemma put_item_wire: "put_item be put x s = put s (item_bytes x)"
  by (cases x) (simp_all add: put_item_def item_bytes_def put_wire writeBytes_def)

context byte_source
begin

lemma reads_item: "reads pending (get_item be get x) (item_bytes x) x"
  unfolding get_item_def item_bytes_def readTo_def
  by (cases x; simp; rule reads_map; (rule reads_ints reads_raw refl)+)

lemma reads_items:
  "pending s = concat (map item_bytes xs) @ rest \<Longrightarrow>
   \<exists>s'. run_steps (get_item be get) xs s = Inr (xs, s') \<and> pending s' = rest"
proof (induction xs arbitrary: s)
  case Nil
  then show ?case by simp
next
  case (Cons x xs)
  then have "pending s = item_bytes x @ (concat (map item_bytes xs) @ rest)" by simp
  with reads_item obtain t where "get_item be get x s = Inr (x, t)"
    and "pending t = concat (map item_bytes xs) @ rest" by (rule readsE)
  with Cons.IH [of t] show ?case by auto
qed

end

context memory_stream
begin

lemma put_items:
  "wf s \<Longrightarrow> \<exists>s'. foldM (put_item be put) xs s = Inr s' \<and>
     pending s' = pending s @ concat (map item_bytes xs) \<and> wf s'"
proof (induction xs arbitrary: s)
  case Nil
  then show ?case by simp
next
  case (Cons x xs)
  obtain t where "put s (item_bytes x) = Inr t" "pending t = pending s @ item_bytes x" "wf t"
    using put_appends [OF Cons.prems] by blast
  with Cons.IH [of t] show ?case by (auto simp: put_item_wire)
qed

lemma items_roundtrip:
  assumes "wf s" and "pending s = []"
  shows "rbind (foldM (put_item be put) xs s) (\<lambda>t. map_sum id fst (run_steps (get_item be' get) xs t))
      = Inr xs"
proof -
  obtain t where t: "foldM (put_item be put) xs s = Inr t" "pending t = concat (map item_bytes xs)"
    using put_items [OF assms(1), of be xs] assms(2) by auto
  with reads_items [of t xs "[]" be'] show ?thesis by auto
qed

end

text \<open>
  C35. Round trip of \<open>StreamBuf\<close>'s typed writes and reads: any sequence of integers of 8, 16, 32
  and 64 bits in either byte order and of raw byte strings, written by a program on a platform
  of byte order \<open>be\<close> and read back kind by kind on a platform of byte order \<open>be'\<close>, comes back
  unchanged.
\<close>

theorem streambuf_roundtrip:
  "rbind (foldM (put_item be buf_putRaw) xs streamBuf)
     (\<lambda>s. map_sum id fst (run_steps (get_item be' buf_getRaw) xs s)) = Inr xs"
  by (rule sbuf.items_roundtrip) simp_all

end
