(* ===== verification/Rfb_Common.thy ===== *)
theory Rfb_Common
  imports Byte_Streams
begin

text \<open>
  \<^verbatim>\<open>src/src/librfb/ltsm_librfb.h\<close> and \<^verbatim>\<open>ltsm_librfb.cpp\<close>: the protocol numbers, the table of
  encoding names, and the bit packer and unpacker of the packed palette rows.
\<close>

section \<open>Protocol constants\<close>

definition "ENCODING_UNKNOWN = (-1 :: int)"
definition "ENCODING_RAW = (0 :: int)"
definition "ENCODING_COPYRECT = (1 :: int)"
definition "ENCODING_RRE = (2 :: int)"
definition "ENCODING_CORRE = (4 :: int)"
definition "ENCODING_HEXTILE = (5 :: int)"
definition "ENCODING_ZLIB = (6 :: int)"
definition "ENCODING_TIGHT = (7 :: int)"
definition "ENCODING_ZLIBHEX = (8 :: int)"
definition "ENCODING_TRLE = (15 :: int)"
definition "ENCODING_ZRLE = (16 :: int)"
definition "HEXTILE_RAW = (1 :: u8)"
definition "HEXTILE_BACKGROUND = (2 :: u8)"
definition "HEXTILE_FOREGROUND = (4 :: u8)"
definition "HEXTILE_SUBRECTS = (8 :: u8)"
definition "HEXTILE_COLOURED = (16 :: u8)"
definition "ENCODING_DESKTOP_SIZE = (-223 :: int)"
definition "ENCODING_EXT_DESKTOP_SIZE = (-308 :: int)"
definition "ENCODING_CONTINUOUS_UPDATES = (-313 :: int)"
definition "ENCODING_LAST_RECT = (-224 :: int)"
definition "ENCODING_RICH_CURSOR = (-239 :: int)"
definition "ENCODING_COMPRESS9 = (-247 :: int)"
definition "ENCODING_COMPRESS8 = (-248 :: int)"
definition "ENCODING_COMPRESS7 = (-249 :: int)"
definition "ENCODING_COMPRESS6 = (-250 :: int)"
definition "ENCODING_COMPRESS5 = (-251 :: int)"
definition "ENCODING_COMPRESS4 = (-252 :: int)"
definition "ENCODING_COMPRESS3 = (-253 :: int)"
definition "ENCODING_COMPRESS2 = (-254 :: int)"
definition "ENCODING_COMPRESS1 = (-255 :: int)"
definition "ENCODING_EXT_CLIPBOARD = (0xC0A1E5CE - 0x100000000 :: int)"
definition "ENCODING_LTSM = (0x4C54534D :: int)"
definition "ENCODING_LTSM_CURSOR = (0x4C54534E :: int)"
definition "ENCODING_LTSM_KEYB = (0x4B455942 :: int)"
definition "ENCODING_LTSM_H264 = (0x48464D50 :: int)"
definition "ENCODING_LTSM_MPEG4 = (0x4D504734 :: int)"
definition "ENCODING_LTSM_LZ4 = (0x4C5A3400 :: int)"
definition "ENCODING_LTSM_TJPG = (0x544A5047 :: int)"
definition "ENCODING_LTSM_QOI = (0x514F4900 :: int)"
definition "ENCODING_LTSM_ZQOI = (0x5A514F49 :: int)"
definition "ENCODING_LTSM_OPUS = (0x4F505553 :: int)"
definition "ENCODING_LTSM_PCM = (0x50434D00 :: int)"

lemmas encoding_defs = ENCODING_UNKNOWN_def ENCODING_RAW_def ENCODING_COPYRECT_def ENCODING_RRE_def
  ENCODING_CORRE_def ENCODING_HEXTILE_def ENCODING_ZLIB_def ENCODING_TIGHT_def ENCODING_ZLIBHEX_def
  ENCODING_TRLE_def ENCODING_ZRLE_def ENCODING_DESKTOP_SIZE_def ENCODING_EXT_DESKTOP_SIZE_def
  ENCODING_CONTINUOUS_UPDATES_def ENCODING_LAST_RECT_def ENCODING_RICH_CURSOR_def
  ENCODING_COMPRESS9_def ENCODING_COMPRESS8_def ENCODING_COMPRESS7_def ENCODING_COMPRESS6_def
  ENCODING_COMPRESS5_def ENCODING_COMPRESS4_def ENCODING_COMPRESS3_def ENCODING_COMPRESS2_def
  ENCODING_COMPRESS1_def ENCODING_EXT_CLIPBOARD_def ENCODING_LTSM_def ENCODING_LTSM_CURSOR_def
  ENCODING_LTSM_KEYB_def ENCODING_LTSM_H264_def ENCODING_LTSM_MPEG4_def ENCODING_LTSM_LZ4_def
  ENCODING_LTSM_TJPG_def ENCODING_LTSM_QOI_def ENCODING_LTSM_ZQOI_def ENCODING_LTSM_OPUS_def
  ENCODING_LTSM_PCM_def

lemmas hextile_defs = HEXTILE_RAW_def HEXTILE_BACKGROUND_def HEXTILE_FOREGROUND_def
  HEXTILE_SUBRECTS_def HEXTILE_COLOURED_def

datatype desktop_resize_status = ServerRuntime | ClientSide | OtherClient
datatype desktop_resize_error = NoError | ResizeProhibited | OutOfResources | InvalidScreenLayout

definition desktopResizeStatusCode :: "desktop_resize_status \<Rightarrow> int" where
  "desktopResizeStatusCode s = (case s of ServerRuntime \<Rightarrow> 0 | ClientSide \<Rightarrow> 1 | OtherClient \<Rightarrow> 2)"

definition desktopResizeErrorCode :: "desktop_resize_error \<Rightarrow> int" where
  "desktopResizeErrorCode e = (case e of
     NoError \<Rightarrow> 0 | ResizeProhibited \<Rightarrow> 1 | OutOfResources \<Rightarrow> 2 | InvalidScreenLayout \<Rightarrow> 3)"

section \<open>Encoding names\<close>

text \<open>The \<open>switch\<close> of \<open>encodingName\<close>, case by case.\<close>

definition encoding_names :: "(int \<times> string) list" where
  "encoding_names =
    [(ENCODING_RAW, ''Raw''), (ENCODING_COPYRECT, ''CopyRect''), (ENCODING_RRE, ''RRE''),
     (ENCODING_CORRE, ''CoRRE''), (ENCODING_HEXTILE, ''HexTile''), (ENCODING_ZLIB, ''ZLib''),
     (ENCODING_TIGHT, ''Tight''), (ENCODING_ZLIBHEX, ''ZLibHex''), (ENCODING_TRLE, ''TRLE''),
     (ENCODING_ZRLE, ''ZRLE''), (ENCODING_DESKTOP_SIZE, ''DesktopSize''),
     (ENCODING_EXT_DESKTOP_SIZE, ''ExtendedDesktopSize''), (ENCODING_LAST_RECT, ''ExtendedLastRect''),
     (ENCODING_RICH_CURSOR, ''ExtendedRichCursor''), (ENCODING_COMPRESS9, ''ExtendedCompress9''),
     (ENCODING_COMPRESS8, ''ExtendedCompress8''), (ENCODING_COMPRESS7, ''ExtendedCompress7''),
     (ENCODING_COMPRESS6, ''ExtendedCompress6''), (ENCODING_COMPRESS5, ''ExtendedCompress5''),
     (ENCODING_COMPRESS4, ''ExtendedCompress4''), (ENCODING_COMPRESS3, ''ExtendedCompress3''),
     (ENCODING_COMPRESS2, ''ExtendedCompress2''), (ENCODING_COMPRESS1, ''ExtendedCompress1''),
     (ENCODING_EXT_CLIPBOARD, ''ExtendedClipboard''),
     (ENCODING_CONTINUOUS_UPDATES, ''ExtendedContinuousUpdates''), (ENCODING_LTSM, ''LTSM_Channels''),
     (ENCODING_LTSM_H264, ''FFMPEG_H264''), (ENCODING_LTSM_MPEG4, ''FFMPEG_MPEG4''),
     (ENCODING_LTSM_LZ4, ''LTSM_LZ4''), (ENCODING_LTSM_TJPG, ''LTSM_TJPG''),
     (ENCODING_LTSM_QOI, ''LTSM_QOI''), (ENCODING_LTSM_ZQOI, ''LTSM_ZQOI''),
     (ENCODING_LTSM_CURSOR, ''LTSM_CURSOR''), (ENCODING_LTSM_KEYB, ''LTSM_KEYB''),
     (ENCODING_LTSM_OPUS, ''LTSM_OPUS''), (ENCODING_LTSM_PCM, ''LTSM_PCM'')]"

definition encodingName :: "int \<Rightarrow> string" where
  "encodingName type = (case map_of encoding_names type of Some name \<Rightarrow> name | None \<Rightarrow> ''unknown'')"

definition isAudioEncoding :: "int \<Rightarrow> bool" where
  "isAudioEncoding type = list_ex (\<lambda>enc. enc = type) [ENCODING_LTSM_PCM, ENCODING_LTSM_OPUS]"

definition isVideoEncoding :: "int \<Rightarrow> bool" where
  "isVideoEncoding type = list_ex (\<lambda>enc. enc = type)
     [ENCODING_RAW, ENCODING_RRE, ENCODING_CORRE, ENCODING_HEXTILE,
      ENCODING_ZLIB, ENCODING_TIGHT, ENCODING_ZLIBHEX, ENCODING_TRLE, ENCODING_ZRLE,
      ENCODING_LTSM_H264, ENCODING_LTSM_MPEG4, ENCODING_LTSM_LZ4, ENCODING_LTSM_TJPG,
      ENCODING_LTSM_QOI, ENCODING_LTSM_ZQOI]"

text \<open>\<open>Tools::lower\<close> with the \<open>tolower\<close> of the C locale.\<close>

definition tolower :: "char \<Rightarrow> char" where
  "tolower c = (if 65 \<le> (of_char c :: nat) \<and> (of_char c :: nat) \<le> 90 then char_of (of_char c + 32 :: nat) else c)"

definition lower :: "string \<Rightarrow> string" where
  "lower s = map tolower s"

definition encoding_types :: "int list" where
  "encoding_types =
     [ENCODING_RAW, ENCODING_COPYRECT, ENCODING_RRE, ENCODING_CORRE, ENCODING_HEXTILE,
      ENCODING_ZLIB, ENCODING_TIGHT, ENCODING_ZLIBHEX, ENCODING_TRLE, ENCODING_ZRLE,
      ENCODING_DESKTOP_SIZE, ENCODING_EXT_DESKTOP_SIZE, ENCODING_LAST_RECT, ENCODING_RICH_CURSOR,
      ENCODING_COMPRESS9, ENCODING_COMPRESS8, ENCODING_COMPRESS7, ENCODING_COMPRESS6,
      ENCODING_COMPRESS5, ENCODING_COMPRESS4, ENCODING_COMPRESS3, ENCODING_COMPRESS2, ENCODING_COMPRESS1,
      ENCODING_EXT_CLIPBOARD, ENCODING_CONTINUOUS_UPDATES,
      ENCODING_LTSM, ENCODING_LTSM_H264, ENCODING_LTSM_MPEG4, ENCODING_LTSM_LZ4, ENCODING_LTSM_TJPG,
      ENCODING_LTSM_QOI, ENCODING_LTSM_ZQOI,
      ENCODING_LTSM_CURSOR, ENCODING_LTSM_KEYB, ENCODING_LTSM_OPUS, ENCODING_LTSM_PCM]"

definition encodingType :: "string \<Rightarrow> int" where
  "encodingType name = (case List.find (\<lambda>type. lower name = lower (encodingName type)) encoding_types of
     Some type \<Rightarrow> type | None \<Rightarrow> ENCODING_UNKNOWN)"

definition encodingOpts :: "int \<Rightarrow> string" where
  "encodingOpts type =
     (if type = ENCODING_ZLIB then ''--video '' @ lower (encodingName type) @ '',zlev:<[1],2,3,4,5,6,7,8,9>''
      else if type = ENCODING_LTSM_TJPG
      then ''--video '' @ lower (encodingName type) @ '',qual:85,samp:<[420],422,440,444,gray,411>''
      else '''')"

section \<open>Bit packing\<close>

record streambits =
  vecbuf :: bytes
  bitpos :: nat

definition bits_empty :: "streambits \<Rightarrow> bool" where
  "bits_empty s \<longleftrightarrow> vecbuf s = [] \<or> length (vecbuf s) = 1 \<and> bitpos s = 7"

definition streamBitsPack :: streambits where
  "streamBitsPack = \<lparr>vecbuf = [], bitpos = 7\<rparr>"

definition pushBit :: "bool \<Rightarrow> streambits \<Rightarrow> streambits" where
  "pushBit v s0 =
     (let s = (if bitpos s0 = 7 then s0\<lparr>vecbuf := vecbuf s0 @ [0]\<rparr> else s0);
          s = (if v then s\<lparr>vecbuf := butlast (vecbuf s) @ [last (vecbuf s) OR push_bit (bitpos s) 1]\<rparr> else s)
      in if bitpos s = 0 then s\<lparr>bitpos := 7\<rparr> else s\<lparr>bitpos := bitpos s - 1\<rparr>)"

definition pushAlign :: "streambits \<Rightarrow> streambits" where
  "pushAlign s = s\<lparr>bitpos := 7\<rparr>"

datatype bits_field = Val1 | Val2 | Val4

definition field_bits :: "bits_field \<Rightarrow> nat" where
  "field_bits f = (case f of Val1 \<Rightarrow> 1 | Val2 \<Rightarrow> 2 | Val4 \<Rightarrow> 4)"

text \<open>The mask runs from bit \<open>field - 1\<close> down to bit 0.\<close>

fun push_low :: "u32 \<Rightarrow> nat \<Rightarrow> streambits \<Rightarrow> streambits" where
  "push_low val 0 s = s"
| "push_low val (Suc k) s = push_low val k (pushBit (bit val k) s)"

definition pushValue :: "u32 \<Rightarrow> bits_field \<Rightarrow> streambits \<Rightarrow> streambits" where
  "pushValue val f s = push_low val (field_bits f) s"

definition streamBitsUnpack :: "bytes \<Rightarrow> nat \<Rightarrow> nat \<Rightarrow> streambits res" where
  "streamBitsUnpack v counts field =
     (let bits = field * counts;
          len = bits div 8;
          len = (if len * 8 < bits then len + 1 else len)
      in if len < length v then Inl OutOfRange
         else Inr \<lparr>vecbuf = v, bitpos = len * 8 - bits\<rparr>)"

definition popBit :: "streambits \<Rightarrow> (bool \<times> streambits) res" where
  "popBit s =
     (if vecbuf s = [] then Inl InvalidArgument
      else let res = bit (last (vecbuf s)) (bitpos s) in
        if bitpos s = 7 then Inr (res, s\<lparr>vecbuf := butlast (vecbuf s), bitpos := 0\<rparr>)
        else Inr (res, s\<lparr>bitpos := bitpos s + 1\<rparr>))"

fun pop_from :: "nat \<Rightarrow> nat \<Rightarrow> nat \<Rightarrow> streambits \<Rightarrow> (nat \<times> streambits) res" where
  "pop_from 0 k val s = Inr (val, s)"
| "pop_from (Suc n) k val s = rbind (popBit s) (\<lambda>(b, s).
     pop_from n (k + 1) (if b then val OR push_bit k 1 else val) s)"

text \<open>\<open>mask1\<close> counts the bits down, \<open>mask2\<close> is the next bit of the value.\<close>

definition popValue :: "nat \<Rightarrow> streambits \<Rightarrow> (nat \<times> streambits) res" where
  "popValue field s = pop_from field 0 0 s"

section \<open>Names\<close>

text \<open>
  \<open>encodingType\<close> inverts \<open>encodingName\<close>: the name of every known encoding, in any mixture of
  upper and lower case, is parsed back to its number, and no name at all is parsed to a number
  that has no name.
\<close>

theorem encodingType_of_name:
  "(\<forall>type \<in> set encoding_types. \<forall>name. lower name = lower (encodingName type) \<longrightarrow> encodingType name = type) \<and>
   (\<forall>name. encodingType name \<noteq> ENCODING_UNKNOWN \<longrightarrow> lower (encodingName (encodingType name)) = lower name)"
proof -
  have d: "distinct (map (\<lambda>type. lower (encodingName type)) encoding_types)"
    by (simp add: encoding_types_def encodingName_def encoding_names_def encoding_defs lower_def
        tolower_def char_of_def)
  have "encodingType name = type" if "type \<in> set encoding_types" "lower name = lower (encodingName type)" for type name
  proof -
    have "List.find (\<lambda>type. lower name = lower (encodingName type)) encoding_types \<noteq> None"
      unfolding find_None_iff using that by blast
    then obtain t where t: "List.find (\<lambda>type. lower name = lower (encodingName type)) encoding_types = Some t"
      by blast
    then have "t \<in> set encoding_types" "lower name = lower (encodingName t)"
      by (auto simp: find_Some_iff)
    with that d have "t = type" by (auto simp: distinct_map inj_on_def)
    with t show ?thesis by (simp add: encodingType_def)
  qed
  moreover have "lower (encodingName (encodingType name)) = lower name"
    if "encodingType name \<noteq> ENCODING_UNKNOWN" for name
  proof (cases "List.find (\<lambda>type. lower name = lower (encodingName type)) encoding_types")
    case (Some t)
    then have "lower name = lower (encodingName t)" by (auto simp: find_Some_iff)
    with Some show ?thesis by (simp add: encodingType_def)
  qed (use that in \<open>simp add: encodingType_def\<close>)
  ultimately show ?thesis by blast
qed

theorem encodingType_of_name_witness:
  "encodingType ''zRle'' = ENCODING_ZRLE"
proof -
  have "ENCODING_ZRLE \<in> set encoding_types" by (simp add: encoding_types_def)
  moreover have "lower ''zRle'' = lower (encodingName ENCODING_ZRLE)"
    by code_simp
  ultimately show ?thesis using encodingType_of_name by blast
qed

section \<open>Packing and unpacking\<close>

text \<open>
  \<open>pack_bits bs v\<close>: the bytes hold the bits of the list, the most significant bit of a byte first
  and the rest of the last byte zero.
\<close>

definition packs :: "bytes \<Rightarrow> bool list \<Rightarrow> bool" where
  "packs v bs \<longleftrightarrow> length v = (length bs + 7) div 8 \<and>
     (\<forall>k < 8 * length v. bit (v ! (k div 8)) (7 - k mod 8) = (k < length bs \<and> bs ! k))"

definition packed :: "streambits \<Rightarrow> bytes \<Rightarrow> bool list \<Rightarrow> bool" where
  "packed s base bs \<longleftrightarrow> bitpos s = 7 - length bs mod 8 \<and> (\<exists>v. vecbuf s = base @ v \<and> packs v bs)"

lemma bit_u8_flip:
  fixes x :: u8 shows "j \<le> 7 \<Longrightarrow> i \<le> 7 \<Longrightarrow> bit (x OR push_bit (7 - i) 1) (7 - j) \<longleftrightarrow> bit x (7 - j) \<or> j = i"
  by (auto simp: bit_simps)

lemmas bit_u8_set = bit_u8_flip [unfolded push_bit_of_1]

lemma pushBit_packed:
  assumes "packed s base bs"
  shows "packed (pushBit b s) base (bs @ [b])"
proof -
  obtain v where v: "vecbuf s = base @ v" "packs v bs" using assms by (auto simp: packed_def)
  define n where "n = length bs"
  define r where "r = n mod 8"
  define q where "q = n div 8"
  have n: "n = 8 * q + r" "r < 8" by (simp_all add: q_def r_def)
  have pos: "bitpos s = 7 - r" using assms by (simp add: packed_def r_def n_def)
  have len: "length v = (n + 7) div 8" using v(2) by (simp add: packs_def n_def)
  define w where "w = (if r = 0 then v @ [0] else v)"
  have lw: "length w = q + 1" using len n by (auto simp: w_def)
  have w: "bit (w ! (k div 8)) (7 - k mod 8) = (k < n \<and> bs ! k)" if "k < 8 * length w" for k
  proof (cases "k < 8 * length v")
    case True
    then have "w ! (k div 8) = v ! (k div 8)" by (auto simp: w_def nth_append)
    with True v(2) show ?thesis by (simp add: packs_def n_def)
  next
    case False
    then have "r = 0" and "k div 8 = length v" using that len n lw by (auto simp: w_def split: if_splits)
    moreover from this have "n \<le> k" using False len n by simp
    ultimately show ?thesis by (simp add: w_def)
  qed
  define x where "x = (if b then butlast w @ [last w OR push_bit (7 - r) 1] else w)"
  have lx: "length x = q + 1" using lw by (auto simp: x_def)
  have x: "bit (x ! (k div 8)) (7 - k mod 8) = (k < n + 1 \<and> (bs @ [b]) ! k)" if "k < 8 * length x" for k
  proof -
    have kw: "k < 8 * length w" using that lx lw by simp
    have last: "last w = w ! q" using lw by (metis Suc_eq_plus1 diff_Suc_1 last_conv_nth length_0_conv nat.distinct(1))
    show ?thesis
    proof (cases "k div 8 = q")
      case True
      then have "k = 8 * q + k mod 8" by (metis mult_div_mod_eq)
      then have "k = n \<longleftrightarrow> k mod 8 = r" and "k < n \<Longrightarrow> k mod 8 \<noteq> r" using n by linarith+
      moreover have "x ! q = (if b then w ! q OR push_bit (7 - r) 1 else w ! q)"
        using lw by (simp add: x_def nth_append last)
      moreover have "k mod 8 \<le> 7" "r \<le> 7" using n by simp_all
      ultimately show ?thesis
        using w [OF kw] True by (auto simp: bit_u8_set nth_append n_def less_Suc_eq)
    next
      case False
      then have "k div 8 < q" using kw lw by simp
      moreover from this have "x ! (k div 8) = w ! (k div 8)"
        using lw by (auto simp: x_def nth_append nth_butlast)
      moreover have "k < n" using \<open>k div 8 < q\<close> n by simp
      ultimately show ?thesis using w [OF kw] by (simp add: nth_append n_def)
    qed
  qed
  have "packs x (bs @ [b])"
    using x lx n by (simp add: packs_def n_def [symmetric])
  moreover have "vecbuf (pushBit b s) = base @ x"
  proof -
    have "w \<noteq> []" using lw by auto
    then show ?thesis
      using v(1) pos n by (auto simp: pushBit_def Let_def x_def w_def butlast_append)
  qed
  moreover have "bitpos (pushBit b s) = 7 - length (bs @ [b]) mod 8"
  proof -
    have "Suc n mod 8 = (if r = 7 then 0 else r + 1)" by (simp add: r_def mod_Suc)
    moreover have "bitpos (pushBit b s) = (if bitpos s = 0 then 7 else bitpos s - 1)"
      by (simp add: pushBit_def Let_def)
    ultimately show ?thesis using pos n(2) by (simp add: n_def [symmetric])
  qed
  ultimately show ?thesis by (auto simp: packed_def)
qed

text \<open>The bits of a value, most significant first, as \<open>pushValue\<close> sends them.\<close>

definition value_bits :: "nat \<Rightarrow> nat \<Rightarrow> bool list" where
  "value_bits n v = map (bit v) (rev [0..<n])"

lemma push_low_packed:
  "packed s base bs \<Longrightarrow> packed (push_low val n s) base (bs @ map (bit val) (rev [0..<n]))"
proof (induction n arbitrary: s bs)
  case (Suc n)
  from Suc.IH [OF pushBit_packed [OF Suc.prems]] show ?case by simp
qed simp

lemma pushValue_packed:
  assumes "packed s base bs"
  shows "packed (pushValue val f s) base (bs @ value_bits (field_bits f) (unat val))"
proof -
  have "field_bits f \<le> 32" by (cases f) (simp_all add: field_bits_def)
  then have "map (bit val) (rev [0..<field_bits f]) = value_bits (field_bits f) (unat val)"
    by (auto simp: value_bits_def bit_simps)
  then show ?thesis using push_low_packed [OF assms, of val "field_bits f"] by (simp add: pushValue_def)
qed

lemma packed_start: "bitpos s = 7 \<Longrightarrow> packed s (vecbuf s) []"
  by (auto simp: packed_def packs_def)

text \<open>A reader that still holds the bits of a list pops them from the end.\<close>

definition holds :: "streambits \<Rightarrow> bool list \<Rightarrow> bool" where
  "holds s bs \<longleftrightarrow> length (vecbuf s) = (length bs + 7) div 8 \<and>
     bitpos s = 8 * length (vecbuf s) - length bs \<and>
     (\<forall>k < length bs. bit (vecbuf s ! (k div 8)) (7 - k mod 8) = bs ! k)"

lemma unpack_holds:
  assumes "packs v bs" and "length bs = field * counts"
  shows "\<exists>s. streamBitsUnpack v counts field = Inr s \<and> holds s bs"
proof -
  let ?n = "length bs"
  have len: "(if ?n div 8 * 8 < ?n then ?n div 8 + 1 else ?n div 8) = (?n + 7) div 8"
    by presburger
  have "streamBitsUnpack v counts field = Inr \<lparr>vecbuf = v, bitpos = 8 * length v - ?n\<rparr>"
    unfolding streamBitsUnpack_def Let_def assms(2) [symmetric] len
    using assms(1) by (simp add: packs_def mult.commute)
  moreover have "?n \<le> 8 * ((?n + 7) div 8)" by presburger
  then have "holds \<lparr>vecbuf = v, bitpos = 8 * length v - ?n\<rparr> bs"
    using assms(1) by (auto simp: holds_def packs_def)
  ultimately show ?thesis by blast
qed

lemma popBit_holds:
  assumes "holds s (bs @ [b])"
  shows "\<exists>s'. popBit s = Inr (b, s') \<and> holds s' bs"
proof -
  define n where "n = length bs"
  define q where "q = n div 8"
  define r where "r = n mod 8"
  have n: "n = 8 * q + r" "r < 8" by (simp_all add: q_def r_def)
  have "(n + 8) div 8 = q + 1" by (simp add: q_def)
  then have len: "length (vecbuf s) = q + 1" using assms by (simp add: holds_def n_def [symmetric] add.commute)
  then have pos: "bitpos s = 7 - r" using assms n by (simp add: holds_def n_def [symmetric])
  have at: "bit (vecbuf s ! (k div 8)) (7 - k mod 8) = (bs @ [b]) ! k" if "k \<le> n" for k
    using assms that by (simp add: holds_def n_def)
  have ne: "vecbuf s \<noteq> []" using len by auto
  have "last (vecbuf s) = vecbuf s ! q" using len ne by (simp add: last_conv_nth)
  with at [of n] have "bit (last (vecbuf s)) (bitpos s) = b" by (simp add: pos q_def r_def n_def nth_append)
  then have pop: "popBit s = Inr (b, if bitpos s = 7 then s\<lparr>vecbuf := butlast (vecbuf s), bitpos := 0\<rparr>
      else s\<lparr>bitpos := bitpos s + 1\<rparr>)"
    using ne by (simp add: popBit_def Let_def)
  moreover have "holds (if bitpos s = 7 then s\<lparr>vecbuf := butlast (vecbuf s), bitpos := 0\<rparr>
      else s\<lparr>bitpos := bitpos s + 1\<rparr>) bs"
  proof (cases "r = 0")
    case True
    have "bit (butlast (vecbuf s) ! (k div 8)) (7 - k mod 8) = bs ! k" if "k < n" for k
    proof -
      have "k div 8 < q" using that n True by simp
      then show ?thesis using at [of k] that len by (simp add: nth_butlast nth_append n_def)
    qed
    then show ?thesis using True pos len n by (simp add: holds_def n_def [symmetric])
  next
    case False
    have "bit (vecbuf s ! (k div 8)) (7 - k mod 8) = bs ! k" if "k < n" for k
      using at [of k] that by (simp add: nth_append n_def)
    then show ?thesis using False pos len n by (auto simp: holds_def n_def [symmetric])
  qed
  ultimately show ?thesis by blast
qed

lemma take_bit_Suc_low: "take_bit (Suc k) (v :: nat) = (if bit v k then take_bit k v OR push_bit k 1 else take_bit k v)"
  by (rule bit_eqI) (auto simp: bit_simps less_Suc_eq)

lemma pop_from_holds:
  "holds s (bs @ map (bit v) (rev [k..<k + n])) \<Longrightarrow>
   \<exists>s'. pop_from n k (take_bit k v) s = Inr (take_bit (k + n) v, s') \<and> holds s' bs"
proof (induction n arbitrary: k s)
  case (Suc n)
  have "[k..<k + Suc n] = k # [Suc k..<Suc k + n]" by (simp add: upt_conv_Cons del: upt_Suc)
  then have "map (bit v) (rev [k..<k + Suc n]) = map (bit v) (rev [Suc k..<Suc k + n]) @ [bit v k]" by simp
  with Suc.prems have "holds s ((bs @ map (bit v) (rev [Suc k..<Suc k + n])) @ [bit v k])"
    by (simp only: append.assoc)
  then obtain s' where s': "popBit s = Inr (bit v k, s')" "holds s' (bs @ map (bit v) (rev [Suc k..<Suc k + n]))"
    using popBit_holds by blast
  from Suc.IH [OF s'(2)] s'(1) show ?case by (simp add: take_bit_Suc_low [symmetric])
qed simp

lemma popValue_holds:
  assumes "holds s (bs @ value_bits n v)" and "v < 2 ^ n"
  shows "\<exists>s'. popValue n s = Inr (v, s') \<and> holds s' bs"
  using pop_from_holds [of s bs v 0 n] assms by (simp add: popValue_def value_bits_def take_bit_nat_eq_self)

subsection \<open>Rows\<close>

definition row_bits :: "nat \<Rightarrow> u32 list \<Rightarrow> bool list" where
  "row_bits n row = concat (map (\<lambda>v. value_bits n (unat v)) row)"

definition push_row :: "bits_field \<Rightarrow> u32 list \<Rightarrow> streambits \<Rightarrow> streambits" where
  "push_row f row s = pushAlign (fold (\<lambda>v. pushValue v f) row s)"

lemma fold_packed:
  "packed s base bs \<Longrightarrow> packed (fold (\<lambda>v. pushValue v f) row s) base (bs @ row_bits (field_bits f) row)"
proof (induction row arbitrary: s bs)
  case (Cons v row)
  from Cons.IH [OF pushValue_packed [OF Cons.prems]] show ?case by (simp add: row_bits_def)
qed (simp add: row_bits_def)

lemma push_row_packs:
  assumes "bitpos s = 7"
  obtains v where "vecbuf (push_row f row s) = vecbuf s @ v" and "packs v (row_bits (field_bits f) row)"
    and "bitpos (push_row f row s) = 7"
  using fold_packed [OF packed_start [OF assms], of f row] by (auto simp: push_row_def pushAlign_def packed_def)

lemma push_rows_packs:
  "bitpos s = 7 \<Longrightarrow> \<exists>vs. vecbuf (fold (push_row f) rows s) = vecbuf s @ concat vs \<and>
     list_all2 (\<lambda>v row. packs v (row_bits (field_bits f) row)) vs rows"
proof (induction rows arbitrary: s)
  case (Cons row rows)
  obtain v where v: "vecbuf (push_row f row s) = vecbuf s @ v" "packs v (row_bits (field_bits f) row)"
    "bitpos (push_row f row s) = 7"
    using push_row_packs [OF Cons.prems] by blast
  obtain vs where "vecbuf (fold (push_row f) rows (push_row f row s)) = vecbuf (push_row f row s) @ concat vs"
    "list_all2 (\<lambda>v row. packs v (row_bits (field_bits f) row)) vs rows"
    using Cons.IH [OF v(3)] by blast
  with v show ?case by (intro exI [of _ "v # vs"]) simp
qed simp

lemma length_row_bits [simp]: "length (row_bits n row) = n * length row"
  by (induction row) (simp_all add: row_bits_def value_bits_def)

text \<open>Reading a row: the values come from right to left.\<close>

fun pop_row :: "nat \<Rightarrow> nat \<Rightarrow> streambits \<Rightarrow> nat list res" where
  "pop_row n 0 s = Inr []"
| "pop_row n (Suc k) s = rbind (popValue n s) (\<lambda>(v, s). rbind (pop_row n k s) (\<lambda>vs. Inr (vs @ [v])))"

lemma pop_row_holds:
  "holds s (row_bits n row) \<Longrightarrow> \<forall>v \<in> set row. unat v < 2 ^ n \<Longrightarrow>
   pop_row n (length row) s = Inr (map unat row)"
proof (induction row arbitrary: s rule: rev_induct)
  case (snoc v row)
  then have "holds s (row_bits n row @ value_bits n (unat v))" by (simp add: row_bits_def)
  moreover have "unat v < 2 ^ n" using snoc.prems by simp
  ultimately obtain s' where "popValue n s = Inr (unat v, s')" "holds s' (row_bits n row)"
    using popValue_holds by blast
  with snoc show ?case by simp
qed simp

definition unpack_row :: "bits_field \<Rightarrow> nat \<Rightarrow> bytes \<Rightarrow> nat list res" where
  "unpack_row f w v = rbind (streamBitsUnpack v w (field_bits f)) (pop_row (field_bits f) w)"

text \<open>
  Round trip of the bit packer: rows of palette indexes packed in 1, 2 or 4 bits each, every
  row aligned to a byte, cut into rows of bytes and unpacked from right to left, come back.
\<close>

theorem bits_roundtrip:
  assumes "\<forall>row \<in> set rows. length row = w \<and> (\<forall>v \<in> set row. unat v < 2 ^ field_bits f)"
  shows "\<exists>vs. vecbuf (fold (push_row f) rows streamBitsPack) = concat vs \<and>
    (\<forall>v \<in> set vs. length v = (field_bits f * w + 7) div 8) \<and>
    mapM (unpack_row f w) vs = Inr (map (map unat) rows)"
proof -
  obtain vs where vs: "vecbuf (fold (push_row f) rows streamBitsPack) = concat vs"
    "list_all2 (\<lambda>v row. packs v (row_bits (field_bits f) row)) vs rows"
    using push_rows_packs [of streamBitsPack f rows] by (auto simp: streamBitsPack_def)
  have row: "length v = (field_bits f * w + 7) div 8 \<and> unpack_row f w v = Inr (map unat row)"
    if "packs v (row_bits (field_bits f) row)" "row \<in> set rows" for v row
  proof -
    have w: "length row = w" "\<forall>v \<in> set row. unat v < 2 ^ field_bits f" using assms that(2) by auto
    note p = that(1)
    from w obtain s where "streamBitsUnpack v w (field_bits f) = Inr s" "holds s (row_bits (field_bits f) row)"
      using unpack_holds [OF p, of "field_bits f" w] by auto
    with pop_row_holds [OF _ w(2)] w p show ?thesis by (auto simp: unpack_row_def packs_def)
  qed
  from vs(2) row have "(\<forall>v \<in> set vs. length v = (field_bits f * w + 7) div 8) \<and>
      mapM (unpack_row f w) vs = Inr (map (map unat) rows)"
    by (induction rule: list_all2_induct) auto
  with vs(1) show ?thesis by blast
qed

theorem bits_roundtrip_witness:
  "\<exists>vs. vecbuf (fold (push_row Val2) [[1, 2, 3, 0, 1], [3, 3, 0, 0, 2]] streamBitsPack) = concat vs \<and>
    mapM (unpack_row Val2 5) vs = Inr [[1, 2, 3, 0, 1], [3, 3, 0, 0, 2]]"
  using bits_roundtrip [of "[[1, 2, 3, 0, 1], [3, 3, 0, 0, 2]]" 5 Val2] by (auto simp: field_bits_def)

end
