(* ===== verification/Xcb_Types.thy ===== *)
theory Xcb_Types
  imports Ltsm_Prelude
begin

text \<open>
  \<^verbatim>\<open>src/src/common/ltsm_xcb_types.h\<close> and \<^verbatim>\<open>ltsm_xcb_types.cpp\<close>: points, sizes, regions, the
  row by row iterator over a region and the division of a region into blocks, and the alignment
  helpers of \<^verbatim>\<open>ltsm_tools.h\<close>. Coordinates are \<open>int16_t\<close> and sizes \<open>uint16_t\<close>, both 16 bit words
  here; an arithmetic expression is promoted to \<open>int\<close>, so it is computed on the integers read
  from the words (\<open>sint\<close>, \<open>uint\<close>) and narrowed by \<open>narrow16\<close> where the code stores it.
\<close>

section \<open>Narrowing\<close>

text \<open>The conversion of an \<open>int\<close> to \<open>int16_t\<close> or \<open>uint16_t\<close>: modulo \<open>2 ^ 16\<close>.\<close>

definition narrow16 :: "int \<Rightarrow> u16" where
  "narrow16 k = word_of_int k"

section \<open>Alignment\<close>

definition pop_count :: "'a::len word \<Rightarrow> nat" where
  "pop_count w = length (filter (bit w) [0..<LENGTH('a)])"

definition has_single_bit :: "u64 \<Rightarrow> bool" where
  "has_single_bit a \<longleftrightarrow> pop_count a = 1"

text \<open>The template argument is a signed type (\<open>int16_t\<close>, \<open>int\<close>), sign extended to \<open>size_t\<close>.\<close>

definition alignUp :: "'a::len word \<Rightarrow> u64 \<Rightarrow> 'a word" where
  "alignUp n a = (if \<not> has_single_bit a then 0
     else ucast ((scast n + a - 1) AND NOT (a - 1)))"

definition alignDown :: "'a::len word \<Rightarrow> u64 \<Rightarrow> 'a word" where
  "alignDown n a = (if \<not> has_single_bit a then n else ucast (scast n AND NOT (a - 1)))"

section \<open>Point and Size\<close>

record point =
  pt_x :: u16
  pt_y :: u16

record xsize =
  sz_width :: u16
  sz_height :: u16

abbreviation Point :: "u16 \<Rightarrow> u16 \<Rightarrow> point" where
  "Point x y \<equiv> \<lparr>pt_x = x, pt_y = y\<rparr>"

abbreviation Size :: "u16 \<Rightarrow> u16 \<Rightarrow> xsize" where
  "Size w h \<equiv> \<lparr>sz_width = w, sz_height = h\<rparr>"

definition point_default :: point where
  "point_default = Point (- 1) (- 1)"

definition point_isValid :: "point \<Rightarrow> bool" where
  "point_isValid p \<longleftrightarrow> 0 \<le> sint (pt_x p) \<and> 0 \<le> sint (pt_y p)"

definition point_add :: "point \<Rightarrow> point \<Rightarrow> point" where
  "point_add p q = Point (narrow16 (sint (pt_x p) + sint (pt_x q)))
     (narrow16 (sint (pt_y p) + sint (pt_y q)))"

definition point_sub :: "point \<Rightarrow> point \<Rightarrow> point" where
  "point_sub p q = Point (narrow16 (sint (pt_x p) - sint (pt_x q)))
     (narrow16 (sint (pt_y p) - sint (pt_y q)))"

definition size_isEmpty :: "xsize \<Rightarrow> bool" where
  "size_isEmpty s \<longleftrightarrow> sz_width s = 0 \<or> sz_height s = 0"

definition size_reset :: "xsize \<Rightarrow> xsize" where
  "size_reset s = s\<lparr>sz_width := 0, sz_height := 0\<rparr>"

definition size_greater :: "xsize \<Rightarrow> xsize \<Rightarrow> bool" where
  "size_greater s t \<longleftrightarrow> uint (sz_width s) * uint (sz_height s) > uint (sz_width t) * uint (sz_height t)"

definition size_less :: "xsize \<Rightarrow> xsize \<Rightarrow> bool" where
  "size_less s t \<longleftrightarrow> uint (sz_width t) * uint (sz_height t) > uint (sz_width s) * uint (sz_height s)"

section \<open>PointIterator\<close>

record pointiterator = point +
  it_limit :: xsize

definition pointIterator :: "u16 \<Rightarrow> u16 \<Rightarrow> xsize \<Rightarrow> pointiterator" where
  "pointIterator px py sz = \<lparr>pt_x = px, pt_y = py, it_limit = sz\<rparr>"

definition it_isValid :: "pointiterator \<Rightarrow> bool" where
  "it_isValid i \<longleftrightarrow> point_isValid (point.truncate i) \<and>
     sint (pt_x i) < uint (sz_width (it_limit i)) \<and> sint (pt_y i) < uint (sz_height (it_limit i))"

definition it_isBeginLine :: "pointiterator \<Rightarrow> bool" where
  "it_isBeginLine i \<longleftrightarrow> pt_x i = 0"

definition it_isEndLine :: "pointiterator \<Rightarrow> bool" where
  "it_isEndLine i \<longleftrightarrow> sint (pt_x i) = uint (sz_width (it_limit i)) - 1"

definition it_inc :: "pointiterator \<Rightarrow> pointiterator res" where
  "it_inc i0 = rbind (require (it_isValid i0) AssertFailed) (\<lambda>_.
     let i = i0\<lparr>pt_x := pt_x i0 + 1\<rparr> in
     if sint (pt_x i) < uint (sz_width (it_limit i)) then Inr i
     else if sint (pt_y i) < uint (sz_height (it_limit i)) then
       let i = i\<lparr>pt_y := pt_y i + 1\<rparr> in
       if uint (sz_height (it_limit i)) \<le> sint (pt_y i) then Inr (i\<lparr>pt_x := - 1, pt_y := - 1\<rparr>)
       else Inr (i\<lparr>pt_x := 0\<rparr>)
     else Inr i)"

definition it_dec :: "pointiterator \<Rightarrow> pointiterator res" where
  "it_dec i0 = rbind (require (it_isValid i0) AssertFailed) (\<lambda>_.
     let i = i0\<lparr>pt_x := pt_x i0 - 1\<rparr> in
     if 0 \<le> sint (pt_x i) then Inr i
     else if sint (pt_y i) > 0 then
       let i = i\<lparr>pt_y := pt_y i - 1\<rparr> in
       if sint (pt_y i) < 0 then Inr (i\<lparr>pt_x := - 1, pt_y := - 1\<rparr>)
       else Inr (i\<lparr>pt_x := narrow16 (uint (sz_width (it_limit i)) - 1)\<rparr>)
     else Inr i)"

section \<open>Region\<close>

record region =
  rg_x :: u16
  rg_y :: u16
  rg_width :: u16
  rg_height :: u16

abbreviation Region :: "u16 \<Rightarrow> u16 \<Rightarrow> u16 \<Rightarrow> u16 \<Rightarrow> region" where
  "Region x y w h \<equiv> \<lparr>rg_x = x, rg_y = y, rg_width = w, rg_height = h\<rparr>"

definition region_default :: region where
  "region_default = Region (- 1) (- 1) 0 0"

definition topLeft :: "region \<Rightarrow> point" where
  "topLeft r = Point (rg_x r) (rg_y r)"

definition toSize :: "region \<Rightarrow> xsize" where
  "toSize r = Size (rg_width r) (rg_height r)"

definition region_of :: "point \<Rightarrow> xsize \<Rightarrow> region" where
  "region_of p s = Region (pt_x p) (pt_y p) (sz_width s) (sz_height s)"

definition coordBegin :: "region \<Rightarrow> pointiterator" where
  "coordBegin r = pointIterator 0 0 (toSize r)"

definition region_isEmpty :: "region \<Rightarrow> bool" where
  "region_isEmpty r \<longleftrightarrow> size_isEmpty (toSize r)"

definition region_add :: "region \<Rightarrow> point \<Rightarrow> region" where
  "region_add r p = region_of (point_add (topLeft r) p) (toSize r)"

definition region_sub :: "region \<Rightarrow> point \<Rightarrow> region" where
  "region_sub r p = region_of (point_sub (topLeft r) p) (toSize r)"

definition region_reset :: "region \<Rightarrow> region" where
  "region_reset r = r\<lparr>rg_x := - 1, rg_y := - 1, rg_width := 0, rg_height := 0\<rparr>"

definition region_assign :: "region \<Rightarrow> region \<Rightarrow> region" where
  "region_assign r reg =
     r\<lparr>rg_x := rg_x reg, rg_y := rg_y reg, rg_width := rg_width reg, rg_height := rg_height reg\<rparr>"

definition region_align :: "u64 \<Rightarrow> region \<Rightarrow> region" where
  "region_align val r =
     (let x' = alignDown (rg_x r) val;
          y' = alignDown (rg_y r) val;
          w = word_of_int (uint (rg_width r) + (sint (rg_x r) - sint x')) :: u32;
          h = word_of_int (uint (rg_height r) + (sint (rg_y r) - sint y')) :: u32
      in Region x' y' (ucast (alignUp w val)) (ucast (alignUp h val)))"

definition region_isValid :: "region \<Rightarrow> bool" where
  "region_isValid r \<longleftrightarrow> point_isValid (topLeft r) \<and> \<not> region_isEmpty r"

definition region_join :: "region \<Rightarrow> region \<Rightarrow> region" where
  "region_join r reg =
     (if \<not> region_isValid r then
        r\<lparr>rg_x := rg_x reg, rg_y := rg_y reg, rg_width := rg_width reg, rg_height := rg_height reg\<rparr>
      else if \<not> region_isEmpty reg \<and> r \<noteq> reg then
        let xm = min (sint (rg_x r)) (sint (rg_x reg));
            w = max (sint (rg_x r) + uint (rg_width r)) (sint (rg_x reg) + uint (rg_width reg)) - xm;
            ym = min (sint (rg_y r)) (sint (rg_y reg));
            h = max (sint (rg_y r) + uint (rg_height r)) (sint (rg_y reg) + uint (rg_height reg)) - ym
        in Region (narrow16 xm) (narrow16 ym) (narrow16 w) (narrow16 h)
      else r)"

definition region_contains :: "region \<Rightarrow> region \<Rightarrow> bool" where
  "region_contains r reg =
     (if sint (rg_x reg) < sint (rg_x r) \<or> sint (rg_y reg) < sint (rg_y r) then False
      else
        let thisRight = sint (rg_x r) + uint (rg_width r);
            thisBottom = sint (rg_y r) + uint (rg_height r);
            regRight = sint (rg_x reg) + uint (rg_width reg);
            regBottom = sint (rg_y reg) + uint (rg_height reg)
        in if regRight > thisRight \<or> regBottom > thisBottom then False else True)"

definition region_intersects :: "region \<Rightarrow> region \<Rightarrow> bool" where
  "region_intersects r1 r2 =
     (if region_isEmpty r1 \<or> region_isEmpty r2 then False
      else if min (sint (rg_x r1) + uint (rg_width r1)) (sint (rg_x r2) + uint (rg_width r2))
              \<le> max (sint (rg_x r1)) (sint (rg_x r2)) then False
      else if min (sint (rg_y r1) + uint (rg_height r1)) (sint (rg_y r2) + uint (rg_height r2))
              \<le> max (sint (rg_y r1)) (sint (rg_y r2)) then False
      else True)"

text \<open>The result pointer is optional; the pointee is returned updated.\<close>

definition region_intersection :: "region \<Rightarrow> region \<Rightarrow> region option \<Rightarrow> bool \<times> region option" where
  "region_intersection r1 r2 res =
     (if \<not> region_intersects r1 r2 then (False, res)
      else case res of
          None \<Rightarrow> (True, None)
        | Some r \<Rightarrow>
            let x' = max (sint (rg_x r1)) (sint (rg_x r2));
                w' = min (sint (rg_x r1) + uint (rg_width r1)) (sint (rg_x r2) + uint (rg_width r2)) - x';
                y' = max (sint (rg_y r1)) (sint (rg_y r2));
                h' = min (sint (rg_y r1) + uint (rg_height r1)) (sint (rg_y r2) + uint (rg_height r2)) - y';
                r' = Region (narrow16 x') (narrow16 y') (narrow16 w') (narrow16 h')
            in (\<not> region_isEmpty r', Some r'))"

definition region_intersected :: "region \<Rightarrow> region \<Rightarrow> region" where
  "region_intersected r reg = the (snd (region_intersection r reg (Some region_default)))"

text \<open>
  \<open>divideBlocks\<close>: two counters of type \<open>uint16_t\<close> that wrap around. With a block width or height
  of zero, or a last step past 65535, the loops do not end: \<open>None\<close>.
\<close>

partial_function (option) divide_xx ::
  "region \<Rightarrow> int \<Rightarrow> int \<Rightarrow> u16 \<Rightarrow> u16 \<Rightarrow> region list \<Rightarrow> region list option" where
  "divide_xx r cw ch yy xx acc =
     (if xx < rg_width r then
        divide_xx r cw ch yy (xx + narrow16 cw)
          (acc @ [Region (narrow16 (sint (rg_x r) + uint xx)) (narrow16 (sint (rg_y r) + uint yy))
             (narrow16 (min (uint (rg_width r) - uint xx) cw))
             (narrow16 (min (uint (rg_height r) - uint yy) ch))])
      else Some acc)"

partial_function (option) divide_yy ::
  "region \<Rightarrow> int \<Rightarrow> int \<Rightarrow> u16 \<Rightarrow> region list \<Rightarrow> region list option" where
  "divide_yy r cw ch yy acc =
     (if yy < rg_height r then
        Option.bind (divide_xx r cw ch yy 0 acc) (\<lambda>acc. divide_yy r cw ch (yy + narrow16 ch) acc)
      else Some acc)"

definition divideBlocks :: "region \<Rightarrow> xsize \<Rightarrow> region list option" where
  "divideBlocks r sz =
     (let cw = (if sz_width sz > rg_width r then uint (rg_width r) else uint (sz_width sz));
          ch = (if sz_height sz > rg_height r then uint (rg_height r) else uint (sz_height sz))
      in divide_yy r cw ch 0 [])"

text \<open>A division by zero columns or rows of a region that is not empty traps.\<close>

definition divideCounts :: "region \<Rightarrow> u16 \<Rightarrow> u16 \<Rightarrow> region list res" where
  "divideCounts r cols rows =
     (if rg_width r > cols \<and> cols = 0 \<or> rg_height r > rows \<and> rows = 0 then Inl MemoryFault
      else
        let bw = (if rg_width r \<le> cols then 1 else rg_width r div cols);
            bh = (if rg_height r \<le> rows then 1 else rg_height r div rows)
        in returning (divideBlocks r (Size bw bh)))"

section \<open>Coordinates and narrowing\<close>

lemma u16_bounds:
  "- 32768 \<le> sint (x :: u16)" "sint x < 32768" "0 \<le> uint x" "uint x < 65536"
  using sint_greater_eq [of x] sint_less [of x] uint_bounded [of x] by simp_all

lemma sint_narrow16 [simp]: "- 32768 \<le> k \<Longrightarrow> k < 32768 \<Longrightarrow> sint (narrow16 k) = k"
  using signed_take_bit_int_eq_self [of 15 k] by (simp add: narrow16_def signed_of_int)

lemma uint_narrow16 [simp]: "0 \<le> k \<Longrightarrow> k < 65536 \<Longrightarrow> uint (narrow16 k) = k"
  by (simp add: narrow16_def uint_word_of_int)

lemma narrow16_uint [simp]: "narrow16 (uint x) = x"
  by (simp add: narrow16_def)

lemma narrow16_sint [simp]: "narrow16 (sint x) = x"
  by (simp add: narrow16_def)

lemma u16_eq_0_iff: "(w :: u16) = 0 \<longleftrightarrow> uint w = 0"
  by (simp add: unsigned_eq_0_iff)

lemma uint_pos_iff: "0 < uint (w :: 'a::len word) \<longleftrightarrow> uint w \<noteq> 0"
  by (simp add: less_le)

lemma sint_eq_uint_u16: "uint (x :: u16) < 32768 \<Longrightarrow> sint x = uint x"
  using sint_narrow16 [of "uint x"] u16_bounds(3) [of x] by simp

text \<open>The pixels of a region, as a set of integer coordinates.\<close>

definition pixels :: "region \<Rightarrow> (int \<times> int) set" where
  "pixels r = {(i, j). sint (rg_x r) \<le> i \<and> i < sint (rg_x r) + uint (rg_width r) \<and>
     sint (rg_y r) \<le> j \<and> j < sint (rg_y r) + uint (rg_height r)}"

lemma in_pixels [simp]:
  "(i, j) \<in> pixels r \<longleftrightarrow> sint (rg_x r) \<le> i \<and> i < sint (rg_x r) + uint (rg_width r) \<and>
     sint (rg_y r) \<le> j \<and> j < sint (rg_y r) + uint (rg_height r)"
  by (simp add: pixels_def)

lemma isEmpty_iff: "region_isEmpty r \<longleftrightarrow> uint (rg_width r) = 0 \<or> uint (rg_height r) = 0"
  by (simp add: region_isEmpty_def size_isEmpty_def toSize_def u16_eq_0_iff)

lemma isEmpty_pixels: "region_isEmpty r \<longleftrightarrow> pixels r = {}"
proof
  assume "region_isEmpty r"
  then show "pixels r = {}" by (auto simp: isEmpty_iff)
next
  assume "pixels r = {}"
  then have "(sint (rg_x r), sint (rg_y r)) \<notin> pixels r" by simp
  then show "region_isEmpty r"
    by (auto simp: isEmpty_iff uint_pos_iff)
qed

section \<open>Intersection, containment, union\<close>

lemma intersects_iff:
  "region_intersects r1 r2 \<longleftrightarrow> pixels r1 \<inter> pixels r2 \<noteq> {}"
proof
  assume i: "region_intersects r1 r2"
  let ?x = "max (sint (rg_x r1)) (sint (rg_x r2))" and ?y = "max (sint (rg_y r1)) (sint (rg_y r2))"
  from i have "(?x, ?y) \<in> pixels r1 \<inter> pixels r2"
    using u16_bounds(3) [of "rg_width r1"] u16_bounds(3) [of "rg_width r2"]
      u16_bounds(3) [of "rg_height r1"] u16_bounds(3) [of "rg_height r2"]
    by (auto simp: region_intersects_def isEmpty_iff split: if_splits)
  then show "pixels r1 \<inter> pixels r2 \<noteq> {}" by blast
next
  assume "pixels r1 \<inter> pixels r2 \<noteq> {}"
  then show "region_intersects r1 r2"
    by (auto simp: region_intersects_def isEmpty_iff)
qed

lemma intersection_fields:
  fixes r0 :: region
  assumes "region_intersects r1 r2"
  defines "r \<equiv> the (snd (region_intersection r1 r2 (Some r0)))"
  shows "sint (rg_x r) = max (sint (rg_x r1)) (sint (rg_x r2))"
    and "sint (rg_y r) = max (sint (rg_y r1)) (sint (rg_y r2))"
    and "uint (rg_width r) = min (sint (rg_x r1) + uint (rg_width r1)) (sint (rg_x r2) + uint (rg_width r2))
        - max (sint (rg_x r1)) (sint (rg_x r2))"
    and "uint (rg_height r) = min (sint (rg_y r1) + uint (rg_height r1)) (sint (rg_y r2) + uint (rg_height r2))
        - max (sint (rg_y r1)) (sint (rg_y r2))"
proof -
  have gap: "max (sint (rg_x r1)) (sint (rg_x r2)) <
      min (sint (rg_x r1) + uint (rg_width r1)) (sint (rg_x r2) + uint (rg_width r2))"
    "max (sint (rg_y r1)) (sint (rg_y r2)) <
      min (sint (rg_y r1) + uint (rg_height r1)) (sint (rg_y r2) + uint (rg_height r2))"
    using assms(1) by (auto simp: region_intersects_def split: if_splits)
  note defs = r_def region_intersection_def assms(1) Let_def
  show "sint (rg_x r) = max (sint (rg_x r1)) (sint (rg_x r2))"
    using u16_bounds(1,2) [of "rg_x r1"] u16_bounds(1,2) [of "rg_x r2"] by (simp add: defs)
  show "sint (rg_y r) = max (sint (rg_y r1)) (sint (rg_y r2))"
    using u16_bounds(1,2) [of "rg_y r1"] u16_bounds(1,2) [of "rg_y r2"] by (simp add: defs)
  have "min (sint (rg_x r1) + uint (rg_width r1)) (sint (rg_x r2) + uint (rg_width r2))
        - max (sint (rg_x r1)) (sint (rg_x r2)) < 65536"
    using u16_bounds(4) [of "rg_width r1"] by linarith
  with gap(1) show "uint (rg_width r) = min (sint (rg_x r1) + uint (rg_width r1))
      (sint (rg_x r2) + uint (rg_width r2)) - max (sint (rg_x r1)) (sint (rg_x r2))"
    by (simp add: defs)
  have "min (sint (rg_y r1) + uint (rg_height r1)) (sint (rg_y r2) + uint (rg_height r2))
        - max (sint (rg_y r1)) (sint (rg_y r2)) < 65536"
    using u16_bounds(4) [of "rg_height r1"] by linarith
  with gap(2) show "uint (rg_height r) = min (sint (rg_y r1) + uint (rg_height r1))
      (sint (rg_y r2) + uint (rg_height r2)) - max (sint (rg_y r1)) (sint (rg_y r2))"
    by (simp add: defs)
qed

lemma intersection_pixels:
  "region_intersects r1 r2 \<Longrightarrow>
   pixels (the (snd (region_intersection r1 r2 (Some r)))) = pixels r1 \<inter> pixels r2"
  by (auto simp: pixels_def intersection_fields)

lemma intersection_simps:
  "region_intersects r1 r2 \<Longrightarrow> region_intersection r1 r2 (Some r) =
     (True, Some (the (snd (region_intersection r1 r2 (Some r)))))"
  "\<not> region_intersects r1 r2 \<Longrightarrow> region_intersection r1 r2 (Some r) = (False, Some r)"
proof -
  assume i: "region_intersects r1 r2"
  then have "\<not> region_isEmpty (the (snd (region_intersection r1 r2 (Some r))))"
    by (simp add: isEmpty_pixels intersection_pixels flip: intersects_iff)
  with i show "region_intersection r1 r2 (Some r) =
     (True, Some (the (snd (region_intersection r1 r2 (Some r)))))"
    by (simp add: region_intersection_def Let_def)
qed (simp add: region_intersection_def)

text \<open>
  \<open>Region::intersection\<close> computes the intersection of the two pixel sets, for all regions,
  those at the ends of the coordinate range included: it answers whether the regions share a
  pixel, writes the region of exactly the shared pixels through the pointer when they do, and
  leaves the pointee alone when they do not.
\<close>

theorem intersection_correct:
  "\<exists>r'. region_intersection r1 r2 (Some r) = (pixels r1 \<inter> pixels r2 \<noteq> {}, Some r') \<and>
     (if pixels r1 \<inter> pixels r2 \<noteq> {} then pixels r' = pixels r1 \<inter> pixels r2 else r' = r)"
proof (cases "region_intersects r1 r2")
  case True
  then show ?thesis
    using intersection_simps(1) [OF True, of r] intersection_pixels [OF True, of r]
    by (intro exI [of _ "the (snd (region_intersection r1 r2 (Some r)))"])
      (simp flip: intersects_iff)
next
  case False
  then show ?thesis using intersection_simps(2) [OF False, of r] by (simp flip: intersects_iff)
qed

text \<open>
  \<open>Region::contains\<close> decides inclusion of pixel sets whenever the argument is not empty.
\<close>

theorem contains_correct:
  assumes "\<not> region_isEmpty reg"
  shows "region_contains r reg \<longleftrightarrow> pixels reg \<subseteq> pixels r"
proof
  assume "region_contains r reg"
  then show "pixels reg \<subseteq> pixels r"
    by (auto simp: region_contains_def Let_def split: if_splits)
next
  assume sub: "pixels reg \<subseteq> pixels r"
  let ?x = "sint (rg_x reg)" and ?y = "sint (rg_y reg)"
  have w: "0 < uint (rg_width reg)" and h: "0 < uint (rg_height reg)"
    using assms by (simp_all add: isEmpty_iff uint_pos_iff)
  have "(?x, ?y) \<in> pixels r" and "(?x + uint (rg_width reg) - 1, ?y + uint (rg_height reg) - 1) \<in> pixels r"
    using w h by (intro subsetD [OF sub]; simp)+
  then show "region_contains r reg"
    by (simp add: region_contains_def Let_def)
qed

theorem contains_correct_witness:
  "region_contains (Region 0 0 10 10) (Region 2 3 8 7) \<and>
   pixels (Region 2 3 8 7) \<subseteq> pixels (Region 0 0 10 10)"
proof -
  have ne: "\<not> region_isEmpty (Region 2 3 8 7)"
    by (simp add: isEmpty_iff)
  have "region_contains (Region 0 0 10 10) (Region 2 3 8 7)"
    by (simp add: region_contains_def Let_def)
  with contains_correct [OF ne] show ?thesis by blast
qed

text \<open>The right and bottom edges of the bounding box of two regions.\<close>

definition join_fits :: "region \<Rightarrow> region \<Rightarrow> bool" where
  "join_fits r reg \<longleftrightarrow>
     max (sint (rg_x r) + uint (rg_width r)) (sint (rg_x reg) + uint (rg_width reg))
       - min (sint (rg_x r)) (sint (rg_x reg)) < 65536 \<and>
     max (sint (rg_y r) + uint (rg_height r)) (sint (rg_y reg) + uint (rg_height reg))
       - min (sint (rg_y r)) (sint (rg_y reg)) < 65536"

lemma join_fields:
  assumes "region_isValid r" and "\<not> region_isEmpty reg" and "r \<noteq> reg" and "join_fits r reg"
  shows "sint (rg_x (region_join r reg)) = min (sint (rg_x r)) (sint (rg_x reg))"
    and "sint (rg_y (region_join r reg)) = min (sint (rg_y r)) (sint (rg_y reg))"
    and "uint (rg_width (region_join r reg)) =
      max (sint (rg_x r) + uint (rg_width r)) (sint (rg_x reg) + uint (rg_width reg))
        - min (sint (rg_x r)) (sint (rg_x reg))"
    and "uint (rg_height (region_join r reg)) =
      max (sint (rg_y r) + uint (rg_height r)) (sint (rg_y reg) + uint (rg_height reg))
        - min (sint (rg_y r)) (sint (rg_y reg))"
proof -
  note defs = region_join_def assms(1-3) Let_def
  show "sint (rg_x (region_join r reg)) = min (sint (rg_x r)) (sint (rg_x reg))"
    using u16_bounds(1,2) [of "rg_x r"] u16_bounds(1,2) [of "rg_x reg"] by (simp add: defs)
  show "sint (rg_y (region_join r reg)) = min (sint (rg_y r)) (sint (rg_y reg))"
    using u16_bounds(1,2) [of "rg_y r"] u16_bounds(1,2) [of "rg_y reg"] by (simp add: defs)
  have "0 \<le> max (sint (rg_x r) + uint (rg_width r)) (sint (rg_x reg) + uint (rg_width reg))
      - min (sint (rg_x r)) (sint (rg_x reg))"
    using u16_bounds(3) [of "rg_width r"] by linarith
  with assms(4) show "uint (rg_width (region_join r reg)) =
      max (sint (rg_x r) + uint (rg_width r)) (sint (rg_x reg) + uint (rg_width reg))
        - min (sint (rg_x r)) (sint (rg_x reg))"
    by (simp add: defs join_fits_def)
  have "0 \<le> max (sint (rg_y r) + uint (rg_height r)) (sint (rg_y reg) + uint (rg_height reg))
      - min (sint (rg_y r)) (sint (rg_y reg))"
    using u16_bounds(3) [of "rg_height r"] by linarith
  with assms(4) show "uint (rg_height (region_join r reg)) =
      max (sint (rg_y r) + uint (rg_height r)) (sint (rg_y reg) + uint (rg_height reg))
        - min (sint (rg_y r)) (sint (rg_y reg))"
    by (simp add: defs join_fits_def)
qed

text \<open>
  \<open>Region::join\<close> is the bounding box: joining a valid region with a non-empty one, with the
  joint extent within \<open>uint16_t\<close>, covers the pixels of both, and every region that covers both
  covers the result.
\<close>

theorem join_bounding_box:
  assumes "region_isValid r" and "\<not> region_isEmpty reg" and "join_fits r reg"
  shows "pixels r \<union> pixels reg \<subseteq> pixels (region_join r reg) \<and>
    (\<forall>b. region_contains b r \<and> region_contains b reg \<longrightarrow> region_contains b (region_join r reg))"
proof (cases "r = reg")
  case True
  then show ?thesis using assms(1) by (simp add: region_join_def)
next
  case False
  note f = join_fields [OF assms(1,2) False assms(3)]
  have "pixels r \<union> pixels reg \<subseteq> pixels (region_join r reg)"
    by (auto simp: f)
  moreover have "region_contains b (region_join r reg)"
    if "region_contains b r" "region_contains b reg" for b
    using that by (auto simp: region_contains_def Let_def f split: if_splits)
  ultimately show ?thesis by blast
qed

theorem join_bounding_box_witness:
  "pixels (Region 0 0 2 2) \<union> pixels (Region 5 7 1 1) \<subseteq> pixels (Region 0 0 6 8)"
proof -
  have "region_join (Region 0 0 2 2) (Region 5 7 1 1) = Region 0 0 6 8"
    by (simp add: region_join_def region_isValid_def point_isValid_def topLeft_def isEmpty_iff
        narrow16_def)
  then show ?thesis
    using join_bounding_box [of "Region 0 0 2 2" "Region 5 7 1 1"]
    by (simp add: region_isValid_def point_isValid_def topLeft_def isEmpty_iff join_fits_def)
qed

end
