(* ===== verification/Region_Blocks.thy ===== *)
theory Region_Blocks
  imports Xcb_Types
begin

text \<open>
  The lemmas of the two loops over a region: \<open>Region::divideBlocks\<close> ends and cuts the region into
  a partition, and a \<open>PointIterator\<close> visits every point once, row by row.
\<close>

section \<open>Division into blocks\<close>

declare divide_xx.simps [code] divide_yy.simps [code]

text \<open>The values a loop counter takes that starts at \<open>k\<close> and advances by \<open>c\<close> below \<open>n\<close>.\<close>

function cuts :: "int \<Rightarrow> int \<Rightarrow> int \<Rightarrow> int list" where
  "cuts c n k = (if 0 < c \<and> k < n then k # cuts c n (k + c) else [])"
  by pat_completeness auto
termination
  by (relation "measure (\<lambda>(c, n, k). nat (n - k))") auto

declare cuts.simps [simp del]

lemma cuts_Nil [simp]: "n \<le> k \<Longrightarrow> cuts c n k = []"
  by (simp add: cuts.simps)

lemma cuts_range: "x \<in> set (cuts c n k) \<Longrightarrow> k \<le> x \<and> x < n \<and> 0 < c"
proof (induction c n k rule: cuts.induct)
  case (1 c n k)
  then show ?case by (fastforce simp: cuts.simps [of c n k] split: if_splits)
qed

lemma cuts_cover: "0 < c \<Longrightarrow> k \<le> i \<Longrightarrow> i < n \<Longrightarrow> \<exists>x \<in> set (cuts c n k). x \<le> i \<and> i < x + c"
proof (induction c n k rule: cuts.induct)
  case (1 c n k)
  then show ?case by (cases "i < k + c") (auto simp: cuts.simps [of c n k])
qed

lemma cuts_apart: "sorted_wrt (\<lambda>x y. x + c \<le> y) (cuts c n k)"
proof (induction c n k rule: cuts.induct)
  case (1 c n k)
  then show ?case by (auto simp: cuts.simps [of c n k] dest: cuts_range)
qed

lemma length_cuts: "0 < c \<Longrightarrow> int (length (cuts c n k)) * c < max 0 (n - k) + c"
proof (induction c n k rule: cuts.induct)
  case (1 c n k)
  then show ?case
    by (cases "k < n") (auto simp: cuts.simps [of c n k] algebra_simps max_def split: if_splits)
qed

definition block :: "region \<Rightarrow> int \<Rightarrow> int \<Rightarrow> int \<Rightarrow> int \<Rightarrow> region" where
  "block r cw ch y x = Region (narrow16 (sint (rg_x r) + x)) (narrow16 (sint (rg_y r) + y))
     (narrow16 (min (uint (rg_width r) - x) cw)) (narrow16 (min (uint (rg_height r) - y) ch))"

lemma uint_step: "0 \<le> c \<Longrightarrow> uint (x :: u16) + c < 65536 \<Longrightarrow> uint (x + narrow16 c) = uint x + c"
proof -
  assume a: "0 \<le> c" "uint x + c < 65536"
  then have "c < 65536" using u16_bounds(3) [of x] by linarith
  with a show ?thesis by (simp add: uint_word_ariths)
qed

lemma divide_xx_cuts:
  assumes "0 < cw" and "uint (rg_width r) + cw \<le> 65536"
  shows "divide_xx r cw ch yy xx acc =
    Some (acc @ map (block r cw ch (uint yy)) (cuts cw (uint (rg_width r)) (uint xx)))"
  using assms
proof (induction cw "uint (rg_width r)" "uint xx" arbitrary: xx acc rule: cuts.induct)
  case (1 cw xx)
  show ?case
  proof (cases "xx < rg_width r")
    case True
    then have lt: "uint xx < uint (rg_width r)" by (simp add: word_less_def)
    then have "uint (xx + narrow16 cw) = uint xx + cw"
      using 1 by (intro uint_step) auto
    with 1 True lt show ?thesis
      by (subst divide_xx.simps) (simp add: cuts.simps [of cw _ "uint xx"] block_def)
  next
    case False
    then show ?thesis
      by (subst divide_xx.simps) (simp add: word_less_def)
  qed
qed

lemma divide_yy_cuts:
  assumes "0 < ch" and "uint (rg_height r) + ch \<le> 65536"
    and "\<And>yy acc. divide_xx r cw ch yy 0 acc = Some (acc @ row (uint yy))"
  shows "divide_yy r cw ch yy acc = Some (acc @ concat (map row (cuts ch (uint (rg_height r)) (uint yy))))"
  using assms
proof (induction ch "uint (rg_height r)" "uint yy" arbitrary: yy acc rule: cuts.induct)
  case (1 ch yy)
  show ?case
  proof (cases "yy < rg_height r")
    case True
    then have lt: "uint yy < uint (rg_height r)" by (simp add: word_less_def)
    then have "uint (yy + narrow16 ch) = uint yy + ch"
      using 1 by (intro uint_step) auto
    with 1 True lt show ?thesis
      by (subst divide_yy.simps) (simp add: cuts.simps [of ch _ "uint yy"])
  next
    case False
    then show ?thesis
      by (subst divide_yy.simps) (simp add: word_less_def)
  qed
qed

text \<open>The block size the code uses, and when its counters neither stand still nor wrap.\<close>

definition block_w :: "region \<Rightarrow> xsize \<Rightarrow> int" where
  "block_w r sz = min (uint (sz_width sz)) (uint (rg_width r))"

definition block_h :: "region \<Rightarrow> xsize \<Rightarrow> int" where
  "block_h r sz = min (uint (sz_height sz)) (uint (rg_height r))"

definition blocks_end :: "region \<Rightarrow> xsize \<Rightarrow> bool" where
  "blocks_end r sz \<longleftrightarrow> \<not> region_isEmpty r \<and> \<not> size_isEmpty sz \<and>
     uint (rg_width r) + block_w r sz \<le> 65536 \<and> uint (rg_height r) + block_h r sz \<le> 65536"

definition blocks :: "region \<Rightarrow> xsize \<Rightarrow> region list" where
  "blocks r sz = concat (map (\<lambda>y. map (block r (block_w r sz) (block_h r sz) y)
     (cuts (block_w r sz) (uint (rg_width r)) 0)) (cuts (block_h r sz) (uint (rg_height r)) 0))"

lemma blocks_end_pos:
  assumes "blocks_end r sz"
  shows "0 < block_w r sz" "0 < block_h r sz"
    "uint (rg_width r) + block_w r sz \<le> 65536" "uint (rg_height r) + block_h r sz \<le> 65536"
  using assms
  by (auto simp: blocks_end_def block_w_def block_h_def isEmpty_iff size_isEmpty_def u16_eq_0_iff uint_pos_iff)

lemma divideBlocks_blocks:
  assumes "blocks_end r sz"
  shows "divideBlocks r sz = Some (blocks r sz)"
proof -
  note p = blocks_end_pos [OF assms]
  have row: "divide_xx r (block_w r sz) (block_h r sz) yy 0 acc =
      Some (acc @ map (block r (block_w r sz) (block_h r sz) (uint yy))
        (cuts (block_w r sz) (uint (rg_width r)) 0))" for yy acc
    using divide_xx_cuts [OF p(1,3), of "block_h r sz" yy 0 acc] by simp
  have "divideBlocks r sz = divide_yy r (block_w r sz) (block_h r sz) 0 []"
    by (simp add: divideBlocks_def block_w_def block_h_def min_def word_less_def not_less le_less)
  also have "\<dots> = Some (blocks r sz)"
    using divide_yy_cuts [OF p(2,4) row, of 0 "[]"] by (simp add: blocks_def)
  finally show ?thesis .
qed

text \<open>A region whose right and bottom edges are within the coordinate range.\<close>

definition region_fits :: "region \<Rightarrow> bool" where
  "region_fits r \<longleftrightarrow> sint (rg_x r) + uint (rg_width r) \<le> 32768 \<and>
     sint (rg_y r) + uint (rg_height r) \<le> 32768"

lemma block_fields:
  assumes "region_fits r" and "0 < cw" and "0 < ch"
    and "0 \<le> x" "x < uint (rg_width r)" "0 \<le> y" "y < uint (rg_height r)"
  shows "sint (rg_x (block r cw ch y x)) = sint (rg_x r) + x"
    and "sint (rg_y (block r cw ch y x)) = sint (rg_y r) + y"
    and "uint (rg_width (block r cw ch y x)) = min (uint (rg_width r) - x) cw"
    and "uint (rg_height (block r cw ch y x)) = min (uint (rg_height r) - y) ch"
proof -
  note b = u16_bounds(1) [of "rg_x r"] u16_bounds(1) [of "rg_y r"]
    u16_bounds(4) [of "rg_width r"] u16_bounds(4) [of "rg_height r"]
  show "sint (rg_x (block r cw ch y x)) = sint (rg_x r) + x"
    using assms b by (simp add: block_def region_fits_def)
  show "sint (rg_y (block r cw ch y x)) = sint (rg_y r) + y"
    using assms b by (simp add: block_def region_fits_def)
  show "uint (rg_width (block r cw ch y x)) = min (uint (rg_width r) - x) cw"
    using assms b by (simp add: block_def)
  show "uint (rg_height (block r cw ch y x)) = min (uint (rg_height r) - y) ch"
    using assms b by (simp add: block_def)
qed

lemma sorted_wrt_concat:
  assumes "\<And>xs. xs \<in> set xss \<Longrightarrow> sorted_wrt P xs"
    and "sorted_wrt (\<lambda>xs ys. \<forall>x \<in> set xs. \<forall>y \<in> set ys. P x y) xss"
  shows "sorted_wrt P (concat xss)"
  using assms by (induction xss) (auto simp: sorted_wrt_append)

text \<open>
  \<open>tiles ts r\<close>: the regions of the list are pairwise disjoint and together hold exactly the
  pixels of \<open>r\<close>.
\<close>

definition tiles :: "region list \<Rightarrow> region \<Rightarrow> bool" where
  "tiles ts r \<longleftrightarrow> sorted_wrt (\<lambda>a b. pixels a \<inter> pixels b = {}) ts \<and> (\<Union>t \<in> set ts. pixels t) = pixels r"

lemma block_pixels:
  assumes "region_fits r" and "0 < cw" and "0 < ch"
    and "x \<in> set (cuts cw (uint (rg_width r)) 0)" and "y \<in> set (cuts ch (uint (rg_height r)) 0)"
  shows "pixels (block r cw ch y x) = {(i, j).
    sint (rg_x r) + x \<le> i \<and> i < sint (rg_x r) + min (uint (rg_width r)) (x + cw) \<and>
    sint (rg_y r) + y \<le> j \<and> j < sint (rg_y r) + min (uint (rg_height r)) (y + ch)}"
  using assms(4,5) block_fields [OF assms(1-3), of x y] by (auto simp: pixels_def dest!: cuts_range)

lemma blocks_tile:
  assumes "region_fits r" and "blocks_end r sz"
  shows "tiles (blocks r sz) r"
proof -
  let ?cw = "block_w r sz" and ?ch = "block_h r sz"
  let ?xs = "cuts ?cw (uint (rg_width r)) 0" and ?ys = "cuts ?ch (uint (rg_height r)) 0"
  note p = blocks_end_pos(1,2) [OF assms(2)]
  note px = block_pixels [OF assms(1) p]
  let ?apart = "\<lambda>a b. pixels a \<inter> pixels b = {}"
  have "sorted_wrt ?apart (map (block r ?cw ?ch y) ?xs)" if "y \<in> set ?ys" for y
    unfolding sorted_wrt_map
    by (rule sorted_wrt_mono_rel [OF _ cuts_apart]) (auto simp: px that)
  moreover have "sorted_wrt (\<lambda>as bs. \<forall>a \<in> set as. \<forall>b \<in> set bs. ?apart a b)
      (map (\<lambda>y. map (block r ?cw ?ch y) ?xs) ?ys)"
    unfolding sorted_wrt_map
    by (rule sorted_wrt_mono_rel [OF _ cuts_apart]) (auto simp: px)
  ultimately have "sorted_wrt ?apart (blocks r sz)"
    unfolding blocks_def by (intro sorted_wrt_concat) auto
  moreover have "(\<Union>t \<in> set (blocks r sz). pixels t) = pixels r"
  proof (intro equalityI subsetI)
    fix q assume "q \<in> (\<Union>t \<in> set (blocks r sz). pixels t)"
    then obtain x y where "x \<in> set ?xs" "y \<in> set ?ys" "q \<in> pixels (block r ?cw ?ch y x)"
      by (auto simp: blocks_def simp del: in_pixels)
    then show "q \<in> pixels r"
      by (auto simp: px simp del: in_pixels) (auto simp: pixels_def dest: cuts_range)
  next
    fix q assume "q \<in> pixels r"
    then obtain i j where q: "q = (i, j)" and "(i, j) \<in> pixels r" by (cases q) auto
    then obtain x y where xy: "x \<in> set ?xs" "x \<le> i - sint (rg_x r)" "i - sint (rg_x r) < x + ?cw"
      and xy': "y \<in> set ?ys" "y \<le> j - sint (rg_y r)" "j - sint (rg_y r) < y + ?ch"
      using cuts_cover [OF p(1), of 0 "i - sint (rg_x r)" "uint (rg_width r)"] cuts_cover [OF p(2), of 0 "j - sint (rg_y r)" "uint (rg_height r)"]
      by auto
    with \<open>(i, j) \<in> pixels r\<close> have "q \<in> pixels (block r ?cw ?ch y x)"
      by (simp add: px q del: in_pixels) (auto simp: min_def)
    with xy xy' show "q \<in> (\<Union>t \<in> set (blocks r sz). pixels t)"
      by (auto simp: blocks_def simp del: in_pixels)
  qed
  ultimately show ?thesis by (simp add: tiles_def)
qed

lemma block_size:
  assumes "blocks_end r sz" and "t \<in> set (blocks r sz)"
  shows "\<not> region_isEmpty t" and "rg_width t \<le> sz_width sz" and "rg_height t \<le> sz_height sz"
    and "rg_width t \<le> rg_width r" and "rg_height t \<le> rg_height r"
proof -
  note p = blocks_end_pos(1,2) [OF assms(1)]
  from assms(2) obtain x y where "x \<in> set (cuts (block_w r sz) (uint (rg_width r)) 0)"
    and "y \<in> set (cuts (block_h r sz) (uint (rg_height r)) 0)"
    and t: "t = block r (block_w r sz) (block_h r sz) y x"
    by (auto simp: blocks_def)
  then have "0 \<le> x" "x < uint (rg_width r)" "0 \<le> y" "y < uint (rg_height r)"
    by (auto dest: cuts_range)
  then have w: "uint (rg_width t) = min (uint (rg_width r) - x) (block_w r sz)"
    and h: "uint (rg_height t) = min (uint (rg_height r) - y) (block_h r sz)"
    using p u16_bounds(4) [of "rg_width r"] u16_bounds(4) [of "rg_height r"]
    by (simp_all add: t block_def)
  show "\<not> region_isEmpty t"
    using w h p \<open>x < uint (rg_width r)\<close> \<open>y < uint (rg_height r)\<close>
    by (auto simp: isEmpty_iff min_def)
  show "rg_width t \<le> sz_width sz" "rg_width t \<le> rg_width r"
    using w by (simp_all add: word_le_def block_w_def)
  show "rg_height t \<le> sz_height sz" "rg_height t \<le> rg_height r"
    using h by (simp_all add: word_le_def block_h_def)
qed
lemma tiles_unique:
  assumes "tiles ts r" and "p \<in> pixels r"
  shows "\<exists>!k. k < length ts \<and> p \<in> pixels (ts ! k)"
proof -
  from assms obtain t where "t \<in> set ts" "p \<in> pixels t" by (auto simp: tiles_def)
  then obtain k where k: "k < length ts" "p \<in> pixels (ts ! k)" by (metis in_set_conv_nth)
  have "l = k" if "l < length ts" "p \<in> pixels (ts ! l)" for l
    using assms(1) k that unfolding tiles_def sorted_wrt_iff_nth_less
    by (cases l k rule: linorder_cases) blast+
  with k show ?thesis by blast
qed

text \<open>
  C39. \<open>Region::divideBlocks\<close> ends and partitions the region: for a non-empty block size and a
  non-empty region within the coordinate range, every pixel of the region is in exactly one of
  the returned blocks, no block is empty, sticks out of the region or is larger than asked for.
\<close>

theorem divideBlocks_partition:
  assumes "region_fits r" and "blocks_end r sz"
  shows "\<exists>ts. divideBlocks r sz = Some ts \<and>
    (\<forall>p. p \<in> pixels r \<longrightarrow> (\<exists>!k. k < length ts \<and> p \<in> pixels (ts ! k))) \<and>
    (\<forall>t \<in> set ts. pixels t \<subseteq> pixels r \<and> \<not> region_isEmpty t \<and>
       rg_width t \<le> sz_width sz \<and> rg_height t \<le> sz_height sz)"
proof (intro exI conjI)
  show "divideBlocks r sz = Some (blocks r sz)"
    by (rule divideBlocks_blocks [OF assms(2)])
  have t: "tiles (blocks r sz) r" by (rule blocks_tile [OF assms])
  then show "\<forall>p. p \<in> pixels r \<longrightarrow> (\<exists>!k. k < length (blocks r sz) \<and> p \<in> pixels (blocks r sz ! k))"
    using tiles_unique by blast
  show "\<forall>t \<in> set (blocks r sz). pixels t \<subseteq> pixels r \<and> \<not> region_isEmpty t \<and>
       rg_width t \<le> sz_width sz \<and> rg_height t \<le> sz_height sz"
    using t block_size [OF assms(2)] unfolding tiles_def by blast
qed

theorem divideBlocks_partition_witness:
  "divideBlocks (Region 1 2 3 1) (Size 2 4) = Some [Region 1 2 2 1, Region 3 2 1 1] \<and>
   (\<exists>!k. k < 2 \<and> (3, 2) \<in> pixels ([Region 1 2 2 1, Region 3 2 1 1] ! k))"
proof -
  have fits: "region_fits (Region 1 2 3 1)" by (simp add: region_fits_def)
  have ends: "blocks_end (Region 1 2 3 1) (Size 2 4)"
    by (simp add: blocks_end_def isEmpty_iff size_isEmpty_def block_w_def block_h_def)
  have eq: "divideBlocks (Region 1 2 3 1) (Size 2 4) = Some [Region 1 2 2 1, Region 3 2 1 1]"
    by code_simp
  from divideBlocks_partition [OF fits ends]
  have "\<forall>p. p \<in> pixels (Region 1 2 3 1) \<longrightarrow>
      (\<exists>!k. k < length [Region 1 2 2 1, Region 3 2 1 1] \<and> p \<in> pixels ([Region 1 2 2 1, Region 3 2 1 1] ! k))"
    unfolding eq by blast
  moreover have "(3, 2) \<in> pixels (Region 1 2 3 1)" by simp
  ultimately show ?thesis using eq by (simp add: numeral_2_eq_2 del: in_pixels)
qed

text \<open>With a block width or height of zero the counters stand still.\<close>

lemma divide_xx_stuck: "xx < rg_width r \<Longrightarrow> divide_xx r 0 ch yy xx acc = None"
proof (rule ccontr)
  assume lt: "xx < rg_width r" and "divide_xx r 0 ch yy xx acc \<noteq> None"
  then obtain ts where "divide_xx r 0 ch yy xx acc = Some ts" by blast
  then have "0 = (0 :: int) \<longrightarrow> \<not> xx < rg_width r"
    by (rule divide_xx.raw_induct [where P = "\<lambda>r cw ch yy xx acc ts. cw = 0 \<longrightarrow> \<not> xx < rg_width r", rotated])
      (auto simp: narrow16_def split: if_splits)
  with lt show False by simp
qed

lemma divide_yy_stuck: "yy < rg_height r \<Longrightarrow> divide_yy r cw 0 yy acc = None"
proof (rule ccontr)
  assume lt: "yy < rg_height r" and "divide_yy r cw 0 yy acc \<noteq> None"
  then obtain ts where "divide_yy r cw 0 yy acc = Some ts" by blast
  then have "0 = (0 :: int) \<longrightarrow> \<not> yy < rg_height r"
    by (rule divide_yy.raw_induct [where P = "\<lambda>r cw ch yy acc ts. ch = 0 \<longrightarrow> \<not> yy < rg_height r", rotated])
      (auto simp: narrow16_def bind_eq_Some_conv split: if_splits)
  with lt show False by simp
qed

lemma divideBlocks_empty_block:
  assumes "\<not> region_isEmpty r" and "size_isEmpty sz"
  shows "divideBlocks r sz = None"
proof -
  have w: "0 < rg_width r" and h: "0 < rg_height r"
    using assms(1) by (auto simp: isEmpty_iff word_less_def uint_pos_iff)
  show ?thesis
  proof (cases "sz_height sz = 0")
    case True
    then show ?thesis using h by (simp add: divideBlocks_def divide_yy_stuck)
  next
    case False
    with assms(2) have "sz_width sz = 0" by (simp add: size_isEmpty_def)
    then show ?thesis using w h
      by (simp add: divideBlocks_def divide_yy.simps [where yy = 0] divide_xx_stuck)
  qed
qed

section \<open>Row by row iteration\<close>

text \<open>The points a loop \<open>for(auto coord = begin; coord.isValid(); ++coord)\<close> visits.\<close>

definition it_point :: "pointiterator \<Rightarrow> point" where
  "it_point i = Point (pt_x i) (pt_y i)"

text \<open>The increment of a valid iterator never fails its assertion.\<close>

definition it_next :: "pointiterator \<Rightarrow> pointiterator" where
  "it_next i = (case it_inc i of Inr i' \<Rightarrow> i' | Inl _ \<Rightarrow> i)"

definition it_left :: "pointiterator \<Rightarrow> nat" where
  "it_left i = (if it_isValid i
     then nat ((uint (sz_height (it_limit i)) - sint (pt_y i)) * 65536 - sint (pt_x i)) else 0)"

lemma it_next_simps:
  assumes "it_isValid i"
  shows "it_next i =
    (if sint (pt_x i + 1) < uint (sz_width (it_limit i)) then i\<lparr>pt_x := pt_x i + 1\<rparr>
     else if uint (sz_height (it_limit i)) \<le> sint (pt_y i + 1) then i\<lparr>pt_x := - 1, pt_y := - 1\<rparr>
     else i\<lparr>pt_x := 0, pt_y := pt_y i + 1\<rparr>)"
  using assms by (simp add: it_next_def it_inc_def it_isValid_def Let_def)

lemma sint_plus_1: "sint (x :: u16) \<noteq> 32767 \<Longrightarrow> sint (x + 1) = sint x + 1"
  using u16_bounds(1,2) [of x] signed_take_bit_int_eq_self [of 15 "sint x + 1"]
  by (simp add: sint_word_ariths)

lemma it_isValid_iff:
  "it_isValid i \<longleftrightarrow> 0 \<le> sint (pt_x i) \<and> sint (pt_x i) < uint (sz_width (it_limit i)) \<and>
     0 \<le> sint (pt_y i) \<and> sint (pt_y i) < uint (sz_height (it_limit i))"
  by (auto simp: it_isValid_def point_isValid_def point.defs)

lemma sint_wrap: "sint (x :: u16) = 32767 \<Longrightarrow> sint (x + 1) = - 32768"
  by (simp add: sint_word_ariths signed_take_bit_Suc)

lemma it_next_left: "it_isValid i \<Longrightarrow> it_left (it_next i) < it_left i"
  using u16_bounds(2) [of "pt_x i"] u16_bounds(2) [of "pt_y i"]
  by (cases "sint (pt_x i) = 32767"; cases "sint (pt_y i) = 32767")
    (auto simp: it_next_simps it_left_def it_isValid_iff sint_plus_1 sint_wrap)

function coordList :: "pointiterator \<Rightarrow> point list" where
  "coordList i = (if it_isValid i then it_point i # coordList (it_next i) else [])"
  by pat_completeness auto
termination
  by (relation "measure it_left") (auto simp: it_next_left)

declare coordList.simps [simp del]

text \<open>The points of a \<open>w\<close> by \<open>h\<close> rectangle at the origin, row by row.\<close>

definition row_major :: "xsize \<Rightarrow> point list" where
  "row_major sz = concat (map (\<lambda>j. map (\<lambda>i. Point (narrow16 i) (narrow16 j))
     [0..uint (sz_width sz) - 1]) [0..uint (sz_height sz) - 1])"

definition size_fits :: "xsize \<Rightarrow> bool" where
  "size_fits sz \<longleftrightarrow> uint (sz_width sz) < 32768 \<and> uint (sz_height sz) < 32768"

lemma it_next_at:
  assumes "size_fits sz" and "0 \<le> x" "x < uint (sz_width sz)" and "0 \<le> y" "y < uint (sz_height sz)"
  shows "it_next (pointIterator (narrow16 x) (narrow16 y) sz) =
    (if x + 1 < uint (sz_width sz) then pointIterator (narrow16 (x + 1)) (narrow16 y) sz
     else if uint (sz_height sz) \<le> y + 1 then pointIterator (- 1) (- 1) sz
     else pointIterator 0 (narrow16 (y + 1)) sz)"
proof -
  let ?i = "pointIterator (narrow16 x) (narrow16 y) sz"
  have x: "sint (narrow16 x) = x" "sint (narrow16 y) = y"
    using assms by (simp_all add: size_fits_def)
  then have "it_isValid ?i" using assms by (simp add: it_isValid_iff pointIterator_def)
  moreover have "sint (narrow16 x + 1) = x + 1" "sint (narrow16 y + 1) = y + 1"
    using assms x by (simp_all add: size_fits_def sint_plus_1)
  moreover have "narrow16 x + 1 = narrow16 (x + 1)" "narrow16 y + 1 = narrow16 (y + 1)"
    by (simp_all add: narrow16_def)
  ultimately show ?thesis
    by (simp add: it_next_simps pointIterator_def)
qed

lemma coordList_from:
  assumes "size_fits sz" and "0 \<le> x" "x < uint (sz_width sz)" and "0 \<le> y" "y < uint (sz_height sz)"
  shows "coordList (pointIterator (narrow16 x) (narrow16 y) sz) =
    map (\<lambda>i. Point (narrow16 i) (narrow16 y)) [x..uint (sz_width sz) - 1] @
    concat (map (\<lambda>j. map (\<lambda>i. Point (narrow16 i) (narrow16 j)) [0..uint (sz_width sz) - 1])
      [y + 1..uint (sz_height sz) - 1])"
  using assms
proof (induction "nat ((uint (sz_height sz) - y) * uint (sz_width sz) - x)" arbitrary: x y rule: less_induct)
  case less
  let ?W = "uint (sz_width sz)" and ?H = "uint (sz_height sz)"
  let ?i = "pointIterator (narrow16 x) (narrow16 y) sz"
  have "it_isValid ?i" using less.prems by (simp add: it_isValid_iff pointIterator_def size_fits_def)
  then have unfold: "coordList ?i = Point (narrow16 x) (narrow16 y) # coordList (it_next ?i)"
    by (subst coordList.simps) (simp add: it_point_def pointIterator_def)
  have row: "[x..?W - 1] = x # [x + 1..?W - 1]" using less.prems by (simp add: upto.simps)
  have dec: "(?H - y) * ?W - x > 0"
  proof -
    have "1 * ?W \<le> (?H - y) * ?W" using less.prems by (intro mult_right_mono) auto
    with less.prems show ?thesis by linarith
  qed
  consider (same) "x + 1 < ?W" | (wrap) "x + 1 = ?W" "y + 1 < ?H" | (last) "x + 1 = ?W" "y + 1 = ?H"
    using less.prems by linarith
  then show ?case
  proof cases
    case same
    then have "coordList (pointIterator (narrow16 (x + 1)) (narrow16 y) sz) =
        map (\<lambda>i. Point (narrow16 i) (narrow16 y)) [x + 1..?W - 1] @
        concat (map (\<lambda>j. map (\<lambda>i. Point (narrow16 i) (narrow16 j)) [0..?W - 1]) [y + 1..?H - 1])"
      using less.prems dec by (intro less.hyps) auto
    with same less.prems row show ?thesis by (simp add: unfold it_next_at)
  next
    case wrap
    have "0 < ?W" using wrap less.prems by linarith
    have "nat ((?H - (y + 1)) * ?W - 0) < nat ((?H - y) * ?W - x)"
      using less.prems dec wrap by (simp add: algebra_simps nat_less_eq_zless)
    then have "coordList (pointIterator (narrow16 0) (narrow16 (y + 1)) sz) =
        map (\<lambda>i. Point (narrow16 i) (narrow16 (y + 1))) [0..?W - 1] @
        concat (map (\<lambda>j. map (\<lambda>i. Point (narrow16 i) (narrow16 j)) [0..?W - 1]) [y + 1 + 1..?H - 1])"
      using less.prems wrap \<open>0 < ?W\<close> by (intro less.hyps) auto
    moreover have "[y + 1..?H - 1] = (y + 1) # [y + 1 + 1..?H - 1]" using wrap by (simp add: upto.simps)
    moreover have "narrow16 0 = 0" by (simp add: narrow16_def)
    ultimately show ?thesis using wrap less.prems row by (simp add: unfold it_next_at)
  next
    case last
    have "coordList (pointIterator (- 1) (- 1) sz) = []"
      by (simp add: coordList.simps it_isValid_iff pointIterator_def)
    with last less.prems row show ?thesis by (simp add: unfold it_next_at)
  qed
qed

lemma coordList_row_major:
  assumes "size_fits sz"
  shows "coordList (pointIterator 0 0 sz) = row_major sz"
proof (cases "0 < uint (sz_width sz) \<and> 0 < uint (sz_height sz)")
  case True
  moreover have "narrow16 0 = 0" by (simp add: narrow16_def)
  moreover have "[0..uint (sz_height sz) - 1] = 0 # [1..uint (sz_height sz) - 1]"
    using True by (simp add: upto.simps)
  ultimately show ?thesis
    using coordList_from [OF assms, of 0 0] by (simp add: row_major_def)
next
  case False
  then have "uint (sz_width sz) = 0 \<or> uint (sz_height sz) = 0" by (simp add: uint_pos_iff)
  then have "row_major sz = []" by (auto simp: row_major_def)
  moreover have "\<not> it_isValid (pointIterator 0 0 sz)"
    using False by (auto simp: it_isValid_iff pointIterator_def)
  ultimately show ?thesis by (simp add: coordList.simps)
qed

text \<open>
  The \<open>PointIterator\<close> loop visits the points of a rectangle row by row, each exactly once, and
  ends, for rectangles of fewer than 32768 rows and columns.
\<close>

theorem iterator_row_major:
  assumes "size_fits (toSize r)"
  shows "coordList (coordBegin r) = concat (map (\<lambda>j. map (\<lambda>i. Point (narrow16 i) (narrow16 j))
    [0..uint (rg_width r) - 1]) [0..uint (rg_height r) - 1])"
  using coordList_row_major [OF assms] by (simp add: coordBegin_def row_major_def toSize_def)

theorem iterator_row_major_witness:
  "coordList (coordBegin (Region 7 7 2 2)) = [Point 0 0, Point 1 0, Point 0 1, Point 1 1]"
proof -
  have fits: "size_fits (toSize (Region 7 7 2 2))" by (simp add: size_fits_def toSize_def)
  have "[0..1::int] = [0, 1]" by (simp add: upto.simps)
  with iterator_row_major [OF fits] show ?thesis by (simp add: narrow16_def)
qed

lemma set_row_major:
  "p \<in> set (row_major sz) \<longleftrightarrow> 0 \<le> sint (pt_x p) \<and> sint (pt_x p) < uint (sz_width sz) \<and>
     0 \<le> sint (pt_y p) \<and> sint (pt_y p) < uint (sz_height sz)"
  if "size_fits sz" for p :: point
proof
  assume "p \<in> set (row_major sz)"
  then show "0 \<le> sint (pt_x p) \<and> sint (pt_x p) < uint (sz_width sz) \<and>
     0 \<le> sint (pt_y p) \<and> sint (pt_y p) < uint (sz_height sz)"
    using that by (auto simp: row_major_def size_fits_def)
next
  assume "0 \<le> sint (pt_x p) \<and> sint (pt_x p) < uint (sz_width sz) \<and>
     0 \<le> sint (pt_y p) \<and> sint (pt_y p) < uint (sz_height sz)"
  then show "p \<in> set (row_major sz)"
    by (cases p) (force simp: row_major_def image_iff)
qed

end
