(* ===== verification/Pixel_Format.thy ===== *)
theory Pixel_Format
  imports Xcb_Types
begin

text \<open>
  \<open>Color\<close> and \<open>PixelFormat\<close> of \<^verbatim>\<open>src/src/common/ltsm_framebuffer.h\<close> and \<^verbatim>\<open>ltsm_framebuffer.cpp\<close>:
  channel extraction, packing and the conversion of a pixel between formats. A format without an
  alpha channel has \<open>alphaShift = 32\<close>; the code shifts only zeros by it, and the model's shift by
  the width of a word is zero too.
\<close>

section \<open>Color\<close>

record color =
  col_r :: u8
  col_g :: u8
  col_b :: u8
  col_x :: u8

definition color_default :: color where
  "color_default = \<lparr>col_r = 0, col_g = 0, col_b = 0, col_x = 0\<rparr>"

definition toARGB :: "color \<Rightarrow> u32" where
  "toARGB c = push_bit 24 (ucast (col_x c)) OR push_bit 16 (ucast (col_r c)) OR
     push_bit 8 (ucast (col_g c)) OR ucast (col_b c)"

section \<open>PixelFormat\<close>

record pixelformat =
  redMax :: u16
  greenMax :: u16
  blueMax :: u16
  alphaMax :: u16
  redShift :: u8
  greenShift :: u8
  blueShift :: u8
  alphaShift :: u8
  bitsPixel :: u8
  bytePixel :: u8

text \<open>\<open>std::countr_zero\<close>: the number of low zero bits, the width for zero.\<close>

definition countr_zero :: "u32 \<Rightarrow> nat" where
  "countr_zero m = length (takeWhile (\<lambda>n. \<not> bit m n) [0..<32])"

definition pixelFormat_masks :: "u8 \<Rightarrow> u32 \<Rightarrow> u32 \<Rightarrow> u32 \<Rightarrow> u32 \<Rightarrow> pixelformat" where
  "pixelFormat_masks bpp rmask gmask bmask amask = \<lparr>
     redMax = ucast (drop_bit (countr_zero rmask) rmask),
     greenMax = ucast (drop_bit (countr_zero gmask) gmask),
     blueMax = ucast (drop_bit (countr_zero bmask) bmask),
     alphaMax = ucast (drop_bit (countr_zero amask) amask),
     redShift = of_nat (countr_zero rmask), greenShift = of_nat (countr_zero gmask),
     blueShift = of_nat (countr_zero bmask), alphaShift = of_nat (countr_zero amask),
     bitsPixel = bpp, bytePixel = drop_bit 3 bpp\<rparr>"

definition pixelFormat_max ::
  "u8 \<Rightarrow> u16 \<Rightarrow> u16 \<Rightarrow> u16 \<Rightarrow> u16 \<Rightarrow> u8 \<Rightarrow> u8 \<Rightarrow> u8 \<Rightarrow> u8 \<Rightarrow> pixelformat" where
  "pixelFormat_max bpp rmax gmax bmax amax rshift gshift bshift ashift = \<lparr>
     redMax = rmax, greenMax = gmax, blueMax = bmax, alphaMax = amax,
     redShift = rshift, greenShift = gshift, blueShift = bshift, alphaShift = ashift,
     bitsPixel = bpp, bytePixel = drop_bit 3 bpp\<rparr>"

definition pf_compare :: "pixelformat \<Rightarrow> pixelformat \<Rightarrow> bool \<Rightarrow> bool" where
  "pf_compare p pf skipAlpha \<longleftrightarrow> bitsPixel p = bitsPixel pf \<and>
     redMax p = redMax pf \<and> greenMax p = greenMax pf \<and> blueMax p = blueMax pf \<and>
     (if skipAlpha then True else alphaMax p = alphaMax pf) \<and>
     redShift p = redShift pf \<and> greenShift p = greenShift pf \<and> blueShift p = blueShift pf \<and>
     (if skipAlpha then True else alphaShift p = alphaShift pf)"

definition depth :: "pixelformat \<Rightarrow> nat" where
  "depth pf = pop_count (redMax pf) + pop_count (greenMax pf) + pop_count (blueMax pf) +
     pop_count (alphaMax pf)"

text \<open>A channel is a maximum and a shift; the four accessors of the class share their bodies.\<close>

definition chan_mask :: "u16 \<Rightarrow> u8 \<Rightarrow> u32" where
  "chan_mask m s = push_bit (unat s) (ucast m)"

definition chan_get :: "u16 \<Rightarrow> u8 \<Rightarrow> u32 \<Rightarrow> u16" where
  "chan_get m s pixel = ucast (drop_bit (unat s) pixel AND ucast m)"

definition rmask :: "pixelformat \<Rightarrow> u32" where
  "rmask pf = chan_mask (redMax pf) (redShift pf)"

definition gmask :: "pixelformat \<Rightarrow> u32" where
  "gmask pf = chan_mask (greenMax pf) (greenShift pf)"

definition bmask :: "pixelformat \<Rightarrow> u32" where
  "bmask pf = chan_mask (blueMax pf) (blueShift pf)"

definition amask :: "pixelformat \<Rightarrow> u32" where
  "amask pf = chan_mask (alphaMax pf) (alphaShift pf)"

definition leastSignificant :: "pixelformat \<Rightarrow> bool" where
  "leastSignificant pf \<longleftrightarrow> redShift pf = 0 \<or> blueShift pf = 0 \<or> greenShift pf = 0"

definition pf_red :: "pixelformat \<Rightarrow> u32 \<Rightarrow> u16" where
  "pf_red pf pixel = chan_get (redMax pf) (redShift pf) pixel"

definition pf_green :: "pixelformat \<Rightarrow> u32 \<Rightarrow> u16" where
  "pf_green pf pixel = chan_get (greenMax pf) (greenShift pf) pixel"

definition pf_blue :: "pixelformat \<Rightarrow> u32 \<Rightarrow> u16" where
  "pf_blue pf pixel = chan_get (blueMax pf) (blueShift pf) pixel"

definition pf_alpha :: "pixelformat \<Rightarrow> u32 \<Rightarrow> u16" where
  "pf_alpha pf pixel = chan_get (alphaMax pf) (alphaShift pf) pixel"

definition pf_color :: "pixelformat \<Rightarrow> u32 \<Rightarrow> color" where
  "pf_color pf pixel = \<lparr>col_r = ucast (pf_red pf pixel), col_g = ucast (pf_green pf pixel),
     col_b = ucast (pf_blue pf pixel), col_x = ucast (pf_alpha pf pixel)\<rparr>"

definition pf_pixel :: "pixelformat \<Rightarrow> color \<Rightarrow> u32" where
  "pf_pixel pf col =
     (let a = ucast (col_x col) :: u32;
          r = ucast (col_r col) :: u32;
          g = ucast (col_g col) :: u32;
          b = ucast (col_b col) :: u32;
          r = (if redMax pf = 0xFF then r else r * ucast (redMax pf) div 255);
          g = (if greenMax pf = 0xFF then g else g * ucast (greenMax pf) div 255);
          b = (if blueMax pf = 0xFF then b else b * ucast (blueMax pf) div 255)
      in if alphaMax pf \<noteq> 0 then
           let a = (if alphaMax pf = 0xFF then a else a * ucast (blueMax pf) div 255) in
           push_bit (unat (alphaShift pf)) a OR push_bit (unat (redShift pf)) r OR
           push_bit (unat (greenShift pf)) g OR push_bit (unat (blueShift pf)) b
         else push_bit (unat (redShift pf)) r OR push_bit (unat (greenShift pf)) g OR
           push_bit (unat (blueShift pf)) b)"

text \<open>
  The product is one of \<open>int\<close>s in the code: it does not overflow for channels of at most 15 bits,
  and the natural numbers compute the same value.
\<close>

definition convertMax :: "u16 \<Rightarrow> u16 \<Rightarrow> u16 \<Rightarrow> u32" where
  "convertMax col1 max1 max2 =
     (if max1 \<noteq> 0 then of_nat ((unat col1 * (unat max2 + 1)) div (unat max1 + 1)) else 0)"

definition convert_chan :: "u16 \<Rightarrow> u16 \<Rightarrow> u16 \<Rightarrow> u32" where
  "convert_chan col1 max1 max2 = (if max1 = max2 then ucast col1 else convertMax col1 max1 max2)"

definition convertPixelFromTo :: "u32 \<Rightarrow> pixelformat \<Rightarrow> pixelformat \<Rightarrow> u32" where
  "convertPixelFromTo pixel pf1 pf2 =
     (if pf_compare pf2 pf1 True \<and> alphaMax pf2 = alphaMax pf1 \<and> alphaShift pf2 = alphaShift pf1
      then pixel
      else if pf_compare pf2 pf1 True \<and> alphaMax pf2 = 0 \<and> alphaMax pf1 \<noteq> 0
      then NOT (amask pf1) AND pixel
      else if pf_compare pf2 pf1 True \<and> alphaMax pf2 \<noteq> 0 \<and> alphaMax pf1 = 0
      then amask pf2 OR pixel
      else
        let r = convert_chan (pf_red pf1 pixel) (redMax pf1) (redMax pf2);
            g = convert_chan (pf_green pf1 pixel) (greenMax pf1) (greenMax pf2);
            b = convert_chan (pf_blue pf1 pixel) (blueMax pf1) (blueMax pf2);
            a = convert_chan (pf_alpha pf1 pixel) (alphaMax pf1) (alphaMax pf2)
        in push_bit (unat (alphaShift pf2)) a OR push_bit (unat (redShift pf2)) r OR
           push_bit (unat (greenShift pf2)) g OR push_bit (unat (blueShift pf2)) b)"

definition convertFrom :: "pixelformat \<Rightarrow> pixelformat \<Rightarrow> u32 \<Rightarrow> u32" where
  "convertFrom self pf pixel = convertPixelFromTo pixel pf self"

definition convertTo :: "pixelformat \<Rightarrow> u32 \<Rightarrow> pixelformat \<Rightarrow> u32" where
  "convertTo self pixel pf = convertPixelFromTo pixel self pf"

subsection \<open>The formats the program names\<close>

text \<open>The masks of the little endian platform; the big endian ones mirror them.\<close>

definition RGB565 :: pixelformat where
  "RGB565 = pixelFormat_masks 16 0x0000001F 0x000007E0 0x0000F800 0"

definition RGB24 :: pixelformat where
  "RGB24 = pixelFormat_masks 24 0x000000FF 0x0000FF00 0x00FF0000 0"

definition RGB30 :: pixelformat where
  "RGB30 = pixelFormat_masks 32 0x000003FF 0x000FFC00 0x3FF00000 0"

definition RGBA32 :: pixelformat where
  "RGBA32 = pixelFormat_masks 32 0x000000FF 0x0000FF00 0x00FF0000 0xFF000000"

definition BGRX32 :: pixelformat where
  "BGRX32 = pixelFormat_masks 32 0x00FF0000 0x0000FF00 0x000000FF 0"

definition RGBX32 :: pixelformat where
  "RGBX32 = pixelFormat_masks 32 0x000000FF 0x0000FF00 0x00FF0000 0"

section \<open>Channels of a well formed format\<close>

text \<open>
  A format is well formed when every channel maximum is a block of ones, its mask fits into 32
  bits and the masks of different channels share no bit.
\<close>

definition full_max :: "u16 \<Rightarrow> bool" where
  "full_max m \<longleftrightarrow> list_ex (\<lambda>k. m = mask k) [0..<17]"

definition chan_ok :: "u16 \<Rightarrow> u8 \<Rightarrow> bool" where
  "chan_ok m s \<longleftrightarrow> full_max m \<and> drop_bit (unat s) (chan_mask m s) = ucast m"

definition pf_wf :: "pixelformat \<Rightarrow> bool" where
  "pf_wf pf \<longleftrightarrow>
     chan_ok (redMax pf) (redShift pf) \<and> chan_ok (greenMax pf) (greenShift pf) \<and>
     chan_ok (blueMax pf) (blueShift pf) \<and> chan_ok (alphaMax pf) (alphaShift pf) \<and>
     rmask pf AND gmask pf = 0 \<and> rmask pf AND bmask pf = 0 \<and> rmask pf AND amask pf = 0 \<and>
     gmask pf AND bmask pf = 0 \<and> gmask pf AND amask pf = 0 \<and> bmask pf AND amask pf = 0"

lemma unat_ucast_u32 [simp]:
  "unat (ucast (c :: u16) :: u32) = unat c" "unat (ucast (d :: u8) :: u32) = unat d"
  using unsigned_less [of c, where ?'a = nat] unsigned_less [of d, where ?'a = nat]
  by (simp_all add: unsigned_ucast_eq take_bit_nat_eq_self)

lemma full_maxE:
  assumes "full_max m"
  obtains k where "k \<le> 16" and "m = mask k" and "unat m + 1 = 2 ^ k"
proof -
  from assms obtain k where "k < 17" and m: "m = mask k"
    unfolding full_max_def list_ex_iff by auto
  then have k: "k \<le> 16" "m = mask k" by simp_all
  moreover have "unat (of_nat (mask k) :: u16) = 2 ^ k - 1"
    using k by (simp only: unsigned_of_nat take_bit_of_mask) (simp add: min_def mask_eq_exp_minus_1)
  then have "unat (mask k :: u16) = 2 ^ k - 1" by (simp only: of_nat_mask_eq)
  ultimately show thesis using that by simp
qed

text \<open>A value that fits into a channel of maximum \<open>m\<close>.\<close>

lemma fits_and:
  assumes "full_max m" and "unat (v :: u32) \<le> unat m"
  shows "v AND ucast m = v"
proof -
  obtain k where k: "k \<le> 16" "m = mask k" "unat m + 1 = 2 ^ k" using assms(1) by (rule full_maxE)
  have "unat v < 2 ^ k" using assms(2) k(3) by linarith
  then have "unat (take_bit k v) = unat v"
    by (simp add: unsigned_take_bit_eq take_bit_nat_eq_self)
  then have "take_bit k v = v" by (simp add: word_unat_eq_iff)
  moreover have "(ucast m :: u32) = mask k" using k by (simp add: ucast_mask_eq min_def)
  ultimately show ?thesis by (simp add: take_bit_eq_mask)
qed

lemma chan_get_le: "unat (chan_get m s p) \<le> unat m"
proof -
  have "unat (drop_bit (unat s) p AND ucast m) \<le> unat (ucast m :: u32)"
    using word_and_le1 [of "drop_bit (unat s) p" "ucast m"] by (simp add: word_le_nat_alt)
  then show ?thesis
    by (simp add: chan_get_def unsigned_ucast_eq take_bit_nat_eq_self_iff)
      (metis le_trans take_bit_nat_less_eq_self)
qed

lemma chan_get_pack:
  assumes "chan_ok m s" and "v AND ucast m = v" and "q AND chan_mask m s = 0"
  shows "chan_get m s (push_bit (unat s) v OR q) = ucast v"
proof -
  have "drop_bit (unat s) (push_bit (unat s) v OR q) AND ucast m = v"
  proof (rule bit_word_eqI)
    fix n assume n: "n < LENGTH(32)"
    have "bit (drop_bit (unat s) (chan_mask m s)) n = bit (ucast m :: u32) n"
      using assms(1) by (simp add: chan_ok_def)
    then have fit: "bit m n \<Longrightarrow> unat s + n < 32"
      using n by (auto simp: bit_simps chan_mask_def)
    have v: "bit v n \<Longrightarrow> bit m n"
      using assms(2) n by (metis bit_and_iff bit_unsigned_iff)
    have q: "bit m n \<Longrightarrow> \<not> bit q (unat s + n)"
    proof
      assume "bit m n" "bit q (unat s + n)"
      then have "bit (q AND chan_mask m s) (unat s + n)"
        using fit n by (auto simp: bit_simps chan_mask_def)
      with assms(3) show False by simp
    qed
    show "bit (drop_bit (unat s) (push_bit (unat s) v OR q) AND ucast m) n = bit v n"
      using n fit v q by (auto simp: bit_simps)
  qed
  then show ?thesis by (simp add: chan_get_def)
qed

lemma chan_mask_apart:
  assumes "chan_mask m s AND chan_mask m' s' = 0" and "v AND ucast m' = v"
  shows "push_bit (unat s') v AND chan_mask m s = 0"
proof (rule bit_word_eqI)
  fix n assume n: "n < LENGTH(32)"
  have "bit (chan_mask m s AND chan_mask m' s') n = False" using assms(1) by simp
  moreover have "bit v k \<Longrightarrow> bit (ucast m' :: u32) k" for k
    using assms(2) by (metis bit_and_iff)
  ultimately show "bit (push_bit (unat s') v AND chan_mask m s) n = bit 0 n"
    using n by (auto simp: bit_simps chan_mask_def)
qed

subsection \<open>Conversion of one channel\<close>

lemma convert_chan_le:
  assumes "unat c \<le> unat m1"
  shows "unat (convert_chan c m1 m2) \<le> unat m2"
proof (cases "m1 = m2 \<or> m1 = 0")
  case True
  with assms show ?thesis by (auto simp: convert_chan_def convertMax_def)
next
  case False
  have "unat c * (unat m2 + 1) \<le> unat m1 * (unat m2 + 1)"
    using assms by (rule mult_le_mono1)
  also have "\<dots> < (unat m2 + 1) * (unat m1 + 1)" by simp
  finally have "unat c * (unat m2 + 1) < (unat m2 + 1) * (unat m1 + 1)" .
  then have lt: "unat c * (unat m2 + 1) div (unat m1 + 1) < unat m2 + 1"
    by (rule less_mult_imp_div_less)
  have "unat m2 < 65536" using unsigned_less [of m2, where ?'a = nat] by simp
  with lt have "unat (of_nat (unat c * (unat m2 + 1) div (unat m1 + 1)) :: u32) =
      unat c * (unat m2 + 1) div (unat m1 + 1)"
    by (simp add: unsigned_of_nat take_bit_nat_eq_self)
  with lt False show ?thesis by (simp add: convert_chan_def convertMax_def)
qed

lemma convert_chan_fits:
  assumes "chan_ok m2 s2"
  shows "convert_chan (chan_get m1 s1 p) m1 m2 AND ucast m2 = convert_chan (chan_get m1 s1 p) m1 m2"
  using assms by (intro fits_and convert_chan_le chan_get_le) (simp add: chan_ok_def)

lemma chan_get_masked:
  assumes "q AND chan_mask m s = 0"
  shows "chan_get m s (NOT q AND p) = chan_get m s p" and "chan_get m s (q OR p) = chan_get m s p"
proof -
  have lt: "bit x k \<Longrightarrow> k < 32" for x :: u32 and k
    using bit_imp_le_length [of x k] by simp
  have q: "\<not> (bit q (unat s + n) \<and> bit m n)" for n
  proof
    assume "bit q (unat s + n) \<and> bit m n"
    then have "bit (q AND chan_mask m s) (unat s + n)"
      using lt [of q "unat s + n"] by (auto simp: bit_simps chan_mask_def)
    with assms show False by simp
  qed
  have "drop_bit (unat s) (NOT q AND p) AND ucast m = drop_bit (unat s) p AND ucast m"
    and "drop_bit (unat s) (q OR p) AND ucast m = drop_bit (unat s) p AND ucast m"
    using q by (auto intro!: bit_word_eqI simp: bit_simps dest: lt)
  then show "chan_get m s (NOT q AND p) = chan_get m s p" and "chan_get m s (q OR p) = chan_get m s p"
    by (simp_all add: chan_get_def)
qed

lemma convert_chan_same [simp]: "convert_chan c m m = ucast c"
  by (simp add: convert_chan_def)

lemma ucast_u16_u32 [simp]: "ucast (ucast (c :: u16) :: u32) = c"
  by (rule bit_word_eqI) (auto simp: bit_simps)

text \<open>The four channels packed by the conversion, whatever their order.\<close>

lemma packed_channel:
  assumes "chan_ok m s" and "v AND ucast m = v"
    and "chan_mask m s AND chan_mask m1 s1 = 0" and "v1 AND ucast m1 = v1"
    and "chan_mask m s AND chan_mask m2 s2 = 0" and "v2 AND ucast m2 = v2"
    and "chan_mask m s AND chan_mask m3 s3 = 0" and "v3 AND ucast m3 = v3"
  shows "chan_get m s (push_bit (unat s) v OR (push_bit (unat s1) v1 OR
    (push_bit (unat s2) v2 OR push_bit (unat s3) v3))) = ucast v"
  using assms
  by (intro chan_get_pack)
    (simp_all add: bit.conj_disj_distrib2 chan_mask_apart)

lemma pf_wf_apart:
  assumes "pf_wf pf"
  shows "chan_mask (redMax pf) (redShift pf) AND chan_mask (greenMax pf) (greenShift pf) = 0"
    and "chan_mask (redMax pf) (redShift pf) AND chan_mask (blueMax pf) (blueShift pf) = 0"
    and "chan_mask (redMax pf) (redShift pf) AND chan_mask (alphaMax pf) (alphaShift pf) = 0"
    and "chan_mask (greenMax pf) (greenShift pf) AND chan_mask (redMax pf) (redShift pf) = 0"
    and "chan_mask (greenMax pf) (greenShift pf) AND chan_mask (blueMax pf) (blueShift pf) = 0"
    and "chan_mask (greenMax pf) (greenShift pf) AND chan_mask (alphaMax pf) (alphaShift pf) = 0"
    and "chan_mask (blueMax pf) (blueShift pf) AND chan_mask (redMax pf) (redShift pf) = 0"
    and "chan_mask (blueMax pf) (blueShift pf) AND chan_mask (greenMax pf) (greenShift pf) = 0"
    and "chan_mask (blueMax pf) (blueShift pf) AND chan_mask (alphaMax pf) (alphaShift pf) = 0"
    and "chan_mask (alphaMax pf) (alphaShift pf) AND chan_mask (redMax pf) (redShift pf) = 0"
    and "chan_mask (alphaMax pf) (alphaShift pf) AND chan_mask (greenMax pf) (greenShift pf) = 0"
    and "chan_mask (alphaMax pf) (alphaShift pf) AND chan_mask (blueMax pf) (blueShift pf) = 0"
    and "chan_ok (redMax pf) (redShift pf)" and "chan_ok (greenMax pf) (greenShift pf)"
    and "chan_ok (blueMax pf) (blueShift pf)" and "chan_ok (alphaMax pf) (alphaShift pf)"
  using assms by (simp_all add: pf_wf_def rmask_def gmask_def bmask_def amask_def and.commute)

lemma convert_channels_each:
  assumes "pf_wf pf1" and "pf_wf pf2"
  shows "pf_red pf2 (convertPixelFromTo p pf1 pf2) =
      ucast (convert_chan (pf_red pf1 p) (redMax pf1) (redMax pf2)) \<and>
    pf_green pf2 (convertPixelFromTo p pf1 pf2) =
      ucast (convert_chan (pf_green pf1 p) (greenMax pf1) (greenMax pf2)) \<and>
    pf_blue pf2 (convertPixelFromTo p pf1 pf2) =
      ucast (convert_chan (pf_blue pf1 p) (blueMax pf1) (blueMax pf2))"
proof (cases "pf_compare pf2 pf1 True \<and>
    (alphaMax pf2 = alphaMax pf1 \<and> alphaShift pf2 = alphaShift pf1 \<or>
     (alphaMax pf2 = 0) \<noteq> (alphaMax pf1 = 0))")
  case True
  then show ?thesis
    using pf_wf_apart [OF assms(1)] pf_wf_apart [OF assms(2)]
    by (auto simp: convertPixelFromTo_def pf_red_def pf_green_def pf_blue_def pf_compare_def
        amask_def chan_get_masked)
next
  case False
  define r where "r = convert_chan (pf_red pf1 p) (redMax pf1) (redMax pf2)"
  define g where "g = convert_chan (pf_green pf1 p) (greenMax pf1) (greenMax pf2)"
  define b where "b = convert_chan (pf_blue pf1 p) (blueMax pf1) (blueMax pf2)"
  define a where "a = convert_chan (pf_alpha pf1 p) (alphaMax pf1) (alphaMax pf2)"
  have q: "convertPixelFromTo p pf1 pf2 = push_bit (unat (alphaShift pf2)) a OR
      (push_bit (unat (redShift pf2)) r OR (push_bit (unat (greenShift pf2)) g OR
        push_bit (unat (blueShift pf2)) b))"
    using False by (auto simp: convertPixelFromTo_def Let_def r_def g_def b_def a_def)
  note wf = pf_wf_apart [OF assms(2)]
  have fits: "r AND ucast (redMax pf2) = r" "g AND ucast (greenMax pf2) = g"
    "b AND ucast (blueMax pf2) = b" "a AND ucast (alphaMax pf2) = a"
    unfolding r_def g_def b_def a_def pf_red_def pf_green_def pf_blue_def pf_alpha_def
    using wf by (blast intro: convert_chan_fits)+
  have "pf_red pf2 (convertPixelFromTo p pf1 pf2) = ucast r"
    unfolding pf_red_def q or.left_commute [of "push_bit (unat (alphaShift pf2)) a"]
    using wf fits by (intro packed_channel)
  moreover have "pf_green pf2 (push_bit (unat (greenShift pf2)) g OR (push_bit (unat (alphaShift pf2)) a OR
      (push_bit (unat (redShift pf2)) r OR push_bit (unat (blueShift pf2)) b))) = ucast g"
    unfolding pf_green_def using wf fits by (intro packed_channel)
  moreover have "pf_blue pf2 (push_bit (unat (blueShift pf2)) b OR (push_bit (unat (alphaShift pf2)) a OR
      (push_bit (unat (redShift pf2)) r OR push_bit (unat (greenShift pf2)) g))) = ucast b"
    unfolding pf_blue_def using wf fits by (intro packed_channel)
  ultimately show ?thesis
    unfolding r_def [symmetric] g_def [symmetric] b_def [symmetric]
    by (simp add: q or.commute or.left_commute)
qed

text \<open>The fields of the named formats.\<close>

lemma formats:
  "RGB565 = \<lparr>redMax = 31, greenMax = 63, blueMax = 31, alphaMax = 0, redShift = 0,
     greenShift = 5, blueShift = 11, alphaShift = 32, bitsPixel = 16, bytePixel = 2\<rparr>"
  "RGB24 = \<lparr>redMax = 255, greenMax = 255, blueMax = 255, alphaMax = 0, redShift = 0,
     greenShift = 8, blueShift = 16, alphaShift = 32, bitsPixel = 24, bytePixel = 3\<rparr>"
  "RGB30 = \<lparr>redMax = 1023, greenMax = 1023, blueMax = 1023, alphaMax = 0, redShift = 0,
     greenShift = 10, blueShift = 20, alphaShift = 32, bitsPixel = 32, bytePixel = 4\<rparr>"
  "RGBA32 = \<lparr>redMax = 255, greenMax = 255, blueMax = 255, alphaMax = 255, redShift = 0,
     greenShift = 8, blueShift = 16, alphaShift = 24, bitsPixel = 32, bytePixel = 4\<rparr>"
  "BGRX32 = \<lparr>redMax = 255, greenMax = 255, blueMax = 255, alphaMax = 0, redShift = 16,
     greenShift = 8, blueShift = 0, alphaShift = 32, bitsPixel = 32, bytePixel = 4\<rparr>"
  "RGBX32 = \<lparr>redMax = 255, greenMax = 255, blueMax = 255, alphaMax = 0, redShift = 0,
     greenShift = 8, blueShift = 16, alphaShift = 32, bitsPixel = 32, bytePixel = 4\<rparr>"
  by (simp_all add: RGB565_def RGB24_def RGB30_def RGBA32_def BGRX32_def RGBX32_def pixelFormat_masks_def
      countr_zero_def upt_rec)

lemma formats_wf:
  "pf_wf RGB565" "pf_wf RGB24" "pf_wf RGB30" "pf_wf RGBA32" "pf_wf BGRX32" "pf_wf RGBX32"
  by (simp_all add: formats pf_wf_def chan_ok_def chan_mask_def full_max_def rmask_def gmask_def bmask_def
      amask_def upt_rec mask_eq_exp_minus_1)

text \<open>
  Converting a pixel between two well formed formats scales every colour channel on its own:
  red, green and blue of the result, read in the target format, are the source's channels
  scaled by \<open>convertMax\<close>, whichever of the shortcuts for formats that agree up to alpha is taken.
\<close>

theorem convert_channels:
  assumes "pf_wf pf1" and "pf_wf pf2"
  shows "pf_red pf2 (convertPixelFromTo p pf1 pf2) =
      ucast (convert_chan (pf_red pf1 p) (redMax pf1) (redMax pf2)) \<and>
    pf_green pf2 (convertPixelFromTo p pf1 pf2) =
      ucast (convert_chan (pf_green pf1 p) (greenMax pf1) (greenMax pf2)) \<and>
    pf_blue pf2 (convertPixelFromTo p pf1 pf2) =
      ucast (convert_chan (pf_blue pf1 p) (blueMax pf1) (blueMax pf2))"
  by (rule convert_channels_each [OF assms])

theorem convert_channels_witness:
  "pf_wf RGBX32 \<and> pf_wf RGB565 \<and>
   pf_red RGB565 (convertPixelFromTo 0x00C0FF40 RGBX32 RGB565) = 8 \<and>
   pf_green RGB565 (convertPixelFromTo 0x00C0FF40 RGBX32 RGB565) = 63 \<and>
   pf_blue RGB565 (convertPixelFromTo 0x00C0FF40 RGBX32 RGB565) = 24"
proof -
  have "ucast (convert_chan (pf_red RGBX32 0x00C0FF40) (redMax RGBX32) (redMax RGB565)) = (8 :: u16) \<and>
    ucast (convert_chan (pf_green RGBX32 0x00C0FF40) (greenMax RGBX32) (greenMax RGB565)) = (63 :: u16) \<and>
    ucast (convert_chan (pf_blue RGBX32 0x00C0FF40) (blueMax RGBX32) (blueMax RGB565)) = (24 :: u16)"
    by (simp add: formats pf_red_def pf_green_def pf_blue_def chan_get_def convert_chan_def convertMax_def)
  then show ?thesis
    using convert_channels [OF formats_wf(6) formats_wf(1), of "0x00C0FF40"] formats_wf by simp
qed

text \<open>Scaling up to a maximum at least as large and back again.\<close>

lemma convert_chan_back:
  assumes "full_max m1" and "full_max m2" and "m1 \<le> m2" and "unat c \<le> unat m1"
  shows "convert_chan (ucast (convert_chan c m1 m2)) m2 m1 = ucast c"
proof (cases "m1 = m2 \<or> m1 = 0")
  case True
  with assms(4) show ?thesis
    by (auto simp: convert_chan_def convertMax_def unat_eq_0)
next
  case False
  obtain k1 where k1: "k1 \<le> 16" "unat m1 + 1 = 2 ^ k1" using assms(1) by (rule full_maxE)
  obtain k2 where k2: "k2 \<le> 16" "unat m2 + 1 = 2 ^ k2" using assms(2) by (rule full_maxE)
  have "unat m1 \<le> unat m2" using assms(3) by (simp add: word_le_nat_alt)
  then have "(2::nat) ^ k1 \<le> 2 ^ k2" using k1(2) k2(2) by linarith
  then have "k1 \<le> k2" by simp
  then obtain d where d: "k2 = k1 + d" by (blast dest: le_Suc_ex)
  have up: "unat c * (unat m2 + 1) div (unat m1 + 1) = unat c * 2 ^ d"
    unfolding k1(2) k2(2) d power_add by (simp add: mult.left_commute)
  have "unat (convert_chan c m1 m2) \<le> unat m2" by (rule convert_chan_le) (rule assms(4))
  then have small: "unat (convert_chan c m1 m2) < 65536"
    using unsigned_less [of m2, where ?'a = nat] by simp
  have lt: "unat c * 2 ^ d < 2 ^ 32"
  proof -
    have "unat c * 2 ^ d \<le> unat m1 * 2 ^ d" using assms(4) by (rule mult_le_mono1)
    also have "\<dots> \<le> 2 ^ k1 * 2 ^ d" using k1(2) by (intro mult_le_mono1) linarith
    also have "\<dots> = 2 ^ k2" by (simp add: d power_add)
    also have "\<dots> < 2 ^ 32" using k2(1) by (intro power_strict_increasing) simp_all
    finally show ?thesis .
  qed
  have "unat (convert_chan c m1 m2) = unat c * 2 ^ d"
    using False lt up [THEN arg_cong, of "of_nat :: nat \<Rightarrow> u32"]
    by (simp only: convert_chan_def convertMax_def unsigned_of_nat of_nat_id take_bit_nat_eq_self_iff
        if_False if_True de_Morgan_disj simp_thms) (simp add: take_bit_nat_eq_self)
  moreover from small have "unat (ucast (convert_chan c m1 m2) :: u16) = unat (convert_chan c m1 m2)"
    by (simp add: unsigned_ucast_eq take_bit_nat_eq_self)
  moreover have "unat c * 2 ^ d * (unat m1 + 1) div (unat m2 + 1) = unat c"
    unfolding k1(2) k2(2) d power_add by (simp add: mult.assoc mult.commute)
  moreover have "m2 \<noteq> m1" using False by blast
  moreover have "m2 \<noteq> 0" using False assms(3) by (auto simp: word_le_nat_alt unat_eq_0)
  ultimately show ?thesis
    using False by (simp add: convert_chan_def convertMax_def)
qed

lemma chan_back:
  assumes "chan_ok m1 s1" and "chan_ok m2 s2" and "m1 \<le> m2"
  shows "ucast (convert_chan (ucast (convert_chan (chan_get m1 s1 p) m1 m2)) m2 m1) = chan_get m1 s1 p"
  using assms by (subst convert_chan_back) (auto simp: chan_ok_def chan_get_le)

text \<open>
  C36. A pixel converted to a format whose channels are at least as wide, and back, has its colour
  again: the conversion loses nothing on the way up.
\<close>

theorem convert_roundtrip:
  assumes "pf_wf pf1" and "pf_wf pf2"
    and "redMax pf1 \<le> redMax pf2" and "greenMax pf1 \<le> greenMax pf2" and "blueMax pf1 \<le> blueMax pf2"
  shows "pf_red pf1 (convertPixelFromTo (convertPixelFromTo p pf1 pf2) pf2 pf1) = pf_red pf1 p \<and>
    pf_green pf1 (convertPixelFromTo (convertPixelFromTo p pf1 pf2) pf2 pf1) = pf_green pf1 p \<and>
    pf_blue pf1 (convertPixelFromTo (convertPixelFromTo p pf1 pf2) pf2 pf1) = pf_blue pf1 p"
  using convert_channels_each [OF assms(1,2), of p] convert_channels_each [OF assms(2,1)]
    pf_wf_apart [OF assms(1)] pf_wf_apart [OF assms(2)] assms(3-5)
  by (simp add: chan_back pf_red_def pf_green_def pf_blue_def)

theorem convert_roundtrip_witness:
  "pf_red RGB565 (convertPixelFromTo (convertPixelFromTo 0xABCD RGB565 BGRX32) BGRX32 RGB565) = 13 \<and>
   pf_green RGB565 (convertPixelFromTo (convertPixelFromTo 0xABCD RGB565 BGRX32) BGRX32 RGB565) = 30 \<and>
   pf_blue RGB565 (convertPixelFromTo (convertPixelFromTo 0xABCD RGB565 BGRX32) BGRX32 RGB565) = 21"
proof -
  have "pf_red RGB565 0xABCD = 13 \<and> pf_green RGB565 0xABCD = 30 \<and> pf_blue RGB565 0xABCD = 21 \<and>
    redMax RGB565 \<le> redMax BGRX32 \<and> greenMax RGB565 \<le> greenMax BGRX32 \<and> blueMax RGB565 \<le> blueMax BGRX32"
    by (simp add: formats pf_red_def pf_green_def pf_blue_def chan_get_def convert_chan_def convertMax_def)
  then show ?thesis
    using convert_roundtrip [OF formats_wf(1) formats_wf(5), of "0xABCD"] by simp
qed

lemma u8_fits: "ucast (c :: u8) AND (0xFF :: u32) = ucast c"
proof -
  have "take_bit 8 (ucast c :: u32) = ucast c"
    by (rule bit_word_eqI) (use bit_imp_le_length [of c] in \<open>auto simp: bit_simps\<close>)
  then show ?thesis by (simp add: take_bit_eq_mask mask_eq_exp_minus_1)
qed

lemma ucast_u8_u32 [simp]: "ucast (ucast (ucast (c :: u8) :: u32) :: u16) = c"
  by (rule bit_word_eqI) (auto simp: bit_simps)

text \<open>
  \<open>PixelFormat::color\<close> inverts \<open>PixelFormat::pixel\<close> for formats of 8 bit channels; alpha
  comes back when the format has an alpha channel and is zero otherwise.
\<close>

theorem color_of_pixel:
  assumes "pf_wf pf" and "redMax pf = 0xFF" and "greenMax pf = 0xFF" and "blueMax pf = 0xFF"
    and "alphaMax pf \<in> {0, 0xFF}"
  shows "pf_color pf (pf_pixel pf c) = c\<lparr>col_x := if alphaMax pf = 0 then 0 else col_x c\<rparr>"
proof -
  define a :: u32 where "a = (if alphaMax pf = 0 then 0 else ucast (col_x c))"
  let ?r = "ucast (col_r c) :: u32" and ?g = "ucast (col_g c) :: u32" and ?b = "ucast (col_b c) :: u32"
  have q: "pf_pixel pf c = push_bit (unat (alphaShift pf)) a OR (push_bit (unat (redShift pf)) ?r OR
      (push_bit (unat (greenShift pf)) ?g OR push_bit (unat (blueShift pf)) ?b))"
    using assms by (auto simp: pf_pixel_def Let_def a_def)
  note wf = pf_wf_apart [OF assms(1)]
  have fits: "?r AND ucast (redMax pf) = ?r" "?g AND ucast (greenMax pf) = ?g"
    "?b AND ucast (blueMax pf) = ?b" "a AND ucast (alphaMax pf) = a"
    using assms(2-5) by (auto simp: u8_fits a_def)
  have "pf_red pf (pf_pixel pf c) = ucast ?r"
    unfolding pf_red_def q or.left_commute [of "push_bit (unat (alphaShift pf)) a"]
    using wf fits by (intro packed_channel)
  moreover have "pf_green pf (push_bit (unat (greenShift pf)) ?g OR (push_bit (unat (alphaShift pf)) a OR
      (push_bit (unat (redShift pf)) ?r OR push_bit (unat (blueShift pf)) ?b))) = ucast ?g"
    unfolding pf_green_def using wf fits by (intro packed_channel)
  moreover have "pf_blue pf (push_bit (unat (blueShift pf)) ?b OR (push_bit (unat (alphaShift pf)) a OR
      (push_bit (unat (redShift pf)) ?r OR push_bit (unat (greenShift pf)) ?g))) = ucast ?b"
    unfolding pf_blue_def using wf fits by (intro packed_channel)
  moreover have "pf_alpha pf (pf_pixel pf c) = ucast a"
    unfolding pf_alpha_def q using wf fits by (intro packed_channel)
  ultimately have "pf_red pf (pf_pixel pf c) = ucast ?r" "pf_green pf (pf_pixel pf c) = ucast ?g"
    "pf_blue pf (pf_pixel pf c) = ucast ?b" "pf_alpha pf (pf_pixel pf c) = ucast a"
    by (simp_all add: q or.commute or.left_commute)
  then show ?thesis by (cases c) (auto simp: pf_color_def a_def)
qed

theorem color_of_pixel_witness:
  "pf_color RGBA32 (pf_pixel RGBA32 \<lparr>col_r = 1, col_g = 2, col_b = 3, col_x = 4\<rparr>) =
   \<lparr>col_r = 1, col_g = 2, col_b = 3, col_x = 4\<rparr>"
proof -
  have "redMax RGBA32 = 0xFF \<and> greenMax RGBA32 = 0xFF \<and> blueMax RGBA32 = 0xFF \<and> alphaMax RGBA32 = 0xFF"
    by (simp add: formats pf_red_def pf_green_def pf_blue_def chan_get_def convert_chan_def convertMax_def)
  then show ?thesis
    using color_of_pixel [OF formats_wf(4), of "\<lparr>col_r = 1, col_g = 2, col_b = 3, col_x = 4\<rparr>"] by simp
qed

end
