(* ===== verification/Frame_Buffer.thy ===== *)
theory Frame_Buffer
  imports Region_Blocks Pixel_Format
begin

text \<open>
  \<^verbatim>\<open>src/src/common/ltsm_framebuffer.cpp\<close>: the pixel memory \<open>fbinfo_t\<close> and the operations of
  \<open>FrameBuffer\<close> on it. A pixel address is an offset into the block; an access outside it is
  \<open>MemoryFault\<close>, a failed \<open>assertm\<close> is \<open>AssertFailed\<close>. The parameter \<open>be\<close> is the platform's
  byte order, \<open>par\<close> says that the build has \<open>LTSM_WITH_FB_PARALLELS\<close> and the machine more than two
  threads, \<open>ord\<close> is the order in which the hash map of the build iterates over its keys.

  The block that frame buffers share through \<open>shared_ptr\<close> is a field of the model's frame buffer:
  an operation returns the frame buffer with the block it has written to. A job of \<open>ParallelsJobs\<close>
  runs to its end before the operation returns, and an exception it throws is lost.
\<close>

section \<open>fbinfo_t\<close>

record fbinfo =
  fb_format :: pixelformat
  fb_buffer :: bytes
  fb_pitch :: u32
  fb_allocated :: bool

definition fbinfo_pitch :: "xsize \<Rightarrow> pixelformat \<Rightarrow> u32 \<Rightarrow> u32" where
  "fbinfo_pitch sz fmt pitch2 =
     (let pitch1 = word_of_int (uint (bytePixel fmt) * uint (sz_width sz)) in max pitch1 pitch2)"

definition fbinfo_alloc :: "xsize \<Rightarrow> pixelformat \<Rightarrow> u32 \<Rightarrow> fbinfo" where
  "fbinfo_alloc sz fmt pitch2 =
     (let pitch = fbinfo_pitch sz fmt pitch2;
          len = unat (ucast pitch * ucast (sz_height sz) :: u64)
      in \<lparr>fb_format = fmt, fb_buffer = replicate len 0, fb_pitch = pitch, fb_allocated = True\<rparr>)"

definition fbinfo_wrap :: "bytes \<Rightarrow> xsize \<Rightarrow> pixelformat \<Rightarrow> u32 \<Rightarrow> fbinfo" where
  "fbinfo_wrap p sz fmt pitch2 = \<lparr>fb_format = fmt, fb_buffer = p,
     fb_pitch = fbinfo_pitch sz fmt pitch2, fb_allocated = False\<rparr>"

section \<open>FrameBuffer\<close>

record framebuffer =
  fb_ptr :: fbinfo
  fb_reg :: region
  fb_owner :: bool

definition frameBuffer_sub :: "region \<Rightarrow> framebuffer \<Rightarrow> framebuffer" where
  "frameBuffer_sub reg fb = \<lparr>fb_ptr = fb_ptr fb,
     fb_reg = region_of (point_add (topLeft reg) (topLeft (fb_reg fb))) (toSize reg), fb_owner = False\<rparr>"

definition frameBuffer_new :: "xsize \<Rightarrow> pixelformat \<Rightarrow> u16 \<Rightarrow> framebuffer" where
  "frameBuffer_new sz fmt pitch = \<lparr>fb_ptr = fbinfo_alloc sz fmt (ucast pitch),
     fb_reg = region_of (Point 0 0) sz, fb_owner = True\<rparr>"

definition frameBuffer_wrap :: "bytes \<Rightarrow> region \<Rightarrow> pixelformat \<Rightarrow> u16 \<Rightarrow> framebuffer" where
  "frameBuffer_wrap p reg fmt pitch = \<lparr>fb_ptr = fbinfo_wrap p (toSize reg) fmt (ucast pitch),
     fb_reg = reg, fb_owner = True\<rparr>"

definition fb_coordBegin :: "framebuffer \<Rightarrow> pointiterator" where
  "fb_coordBegin fb = pointIterator 0 0 (toSize (fb_reg fb))"

definition pixelFormat :: "framebuffer \<Rightarrow> pixelformat" where
  "pixelFormat fb = fb_format (fb_ptr fb)"

definition bitsPerPixel :: "framebuffer \<Rightarrow> nat" where
  "bitsPerPixel fb = unat (bitsPixel (pixelFormat fb))"

definition bytePerPixel :: "framebuffer \<Rightarrow> nat" where
  "bytePerPixel fb = unat (bytePixel (pixelFormat fb))"

definition fb_width :: "framebuffer \<Rightarrow> nat" where
  "fb_width fb = unat (rg_width (fb_reg fb))"

definition fb_height :: "framebuffer \<Rightarrow> nat" where
  "fb_height fb = unat (rg_height (fb_reg fb))"

text \<open>
  The address of a row, as an offset into the block. The row is a \<open>size_t\<close>: a negative \<open>int\<close> wraps
  to an offset outside of any block, and so does a negative column.
\<close>

definition pitchData :: "framebuffer \<Rightarrow> int \<Rightarrow> int" where
  "pitchData fb row =
     (let col = (if fb_owner fb then 0
                 else word_of_int (int (bytePerPixel fb) * sint (rg_x (fb_reg fb)))) :: u32;
          row = (if fb_owner fb then word_of_int row
                 else word_of_int (sint (rg_y (fb_reg fb)) + row)) :: u64
      in uint (ucast (fb_pitch (fb_ptr fb)) * row) + uint col)"

definition pitchSize :: "framebuffer \<Rightarrow> nat" where
  "pitchSize fb = (if fb_owner fb then unat (fb_pitch (fb_ptr fb)) else bytePerPixel fb * fb_width fb)"

definition fb_read :: "framebuffer \<Rightarrow> int \<Rightarrow> nat \<Rightarrow> bytes res" where
  "fb_read fb off n = (if off < 0 then Inl MemoryFault else read_mem (fb_buffer (fb_ptr fb)) (nat off) n)"

definition set_buffer :: "bytes \<Rightarrow> framebuffer \<Rightarrow> framebuffer" where
  "set_buffer m fb = fb\<lparr>fb_ptr := (fb_ptr fb)\<lparr>fb_buffer := m\<rparr>\<rparr>"

definition fb_write :: "framebuffer \<Rightarrow> int \<Rightarrow> bytes \<Rightarrow> framebuffer res" where
  "fb_write fb off bs = (if off < 0 then Inl MemoryFault
     else rbind (write_mem (fb_buffer (fb_ptr fb)) (nat off) bs) (\<lambda>m. Inr (set_buffer m fb)))"

definition fb_span :: "framebuffer \<Rightarrow> bytes res" where
  "fb_span fb = fb_read fb (pitchData fb 0) (pitchSize fb * fb_height fb)"

subsection \<open>One pixel\<close>

text \<open>The memory cell of a pixel, by bits per pixel; \<open>None\<close> for an unknown depth.\<close>

definition pixel_cell :: "bool \<Rightarrow> nat \<Rightarrow> u32 \<Rightarrow> bytes option" where
  "pixel_cell be bits pixel =
     (if bits = 32 then Some (native_bytes be 4 pixel)
      else if bits = 24 then
        Some (if be then [ucast (drop_bit 16 pixel), ucast (drop_bit 8 pixel), ucast pixel]
              else [ucast pixel, ucast (drop_bit 8 pixel), ucast (drop_bit 16 pixel)])
      else if bits = 16 then Some (native_bytes be 2 (ucast pixel :: u16))
      else if bits = 8 then Some (native_bytes be 1 (ucast pixel :: u8))
      else None)"

definition setPixelRow :: "bool \<Rightarrow> framebuffer \<Rightarrow> point \<Rightarrow> u32 \<Rightarrow> nat \<Rightarrow> framebuffer res" where
  "setPixelRow be fb pos pixel len =
     rbind (require (0 \<le> sint (pt_x pos) \<and> 0 \<le> sint (pt_y pos)) AssertFailed) (\<lambda>_.
     rbind (require (sint (pt_x pos) < int (fb_width fb) \<and> sint (pt_y pos) < int (fb_height fb)) AssertFailed) (\<lambda>_.
     let offset = pitchData fb (sint (pt_y pos)) + sint (pt_x pos) * int (bytePerPixel fb);
         len = min len (fb_width fb - nat (sint (pt_x pos)))
     in rbind (require (len \<le> fb_width fb - nat (sint (pt_x pos))) AssertFailed) (\<lambda>_.
     case pixel_cell be (bitsPerPixel fb) pixel of
       None \<Rightarrow> Inl InvalidArgument
     | Some cell \<Rightarrow> fb_write fb offset (concat (replicate len cell)))))"

definition raw_of :: "framebuffer \<Rightarrow> u32 \<Rightarrow> pixelformat option \<Rightarrow> u32" where
  "raw_of fb pixel fmt = (case fmt of None \<Rightarrow> pixel | Some pf \<Rightarrow> convertFrom (pixelFormat fb) pf pixel)"

definition setPixel :: "bool \<Rightarrow> framebuffer \<Rightarrow> point \<Rightarrow> u32 \<Rightarrow> pixelformat option \<Rightarrow> framebuffer res" where
  "setPixel be fb pos pixel fmt = setPixelRow be fb pos (raw_of fb pixel fmt) 1"

definition setColor :: "bool \<Rightarrow> framebuffer \<Rightarrow> point \<Rightarrow> color \<Rightarrow> framebuffer res" where
  "setColor be fb pos col = setPixelRow be fb pos (pf_pixel (pixelFormat fb) col) 1"

text \<open>\<open>rawPixel\<close>: \<open>rd\<close> reads bytes at the pointer, \<open>bigEndian\<close> is the function's flag.\<close>

definition rawPixel :: "bool \<Rightarrow> (nat \<Rightarrow> bytes res) \<Rightarrow> nat \<Rightarrow> bool \<Rightarrow> u32 res" where
  "rawPixel be rd bpp bigEndian =
     (if bpp = 32 then rbind (rd 4) (\<lambda>bs. Inr (native_val be bs))
      else if bpp = 24 then rbind (rd 3) (\<lambda>bs.
        let b = (\<lambda>i. ucast (bs ! i) :: u32) in
        Inr (if bigEndian
             then push_bit 8 (push_bit 8 (0 OR b 0) OR b 1) OR b 2
             else push_bit 8 (push_bit 8 (0 OR b 2) OR b 1) OR b 0))
      else if bpp = 16 then rbind (rd 2) (\<lambda>bs. Inr (ucast (native_val be bs :: u16)))
      else if bpp = 8 then rbind (rd 1) (\<lambda>bs. Inr (ucast (native_val be bs :: u8)))
      else Inl InvalidArgument)"

definition raw_at :: "bool \<Rightarrow> framebuffer \<Rightarrow> int \<Rightarrow> u32 res" where
  "raw_at be fb off = rawPixel be (fb_read fb off) (bitsPerPixel fb) be"

definition fb_pixel :: "bool \<Rightarrow> framebuffer \<Rightarrow> point \<Rightarrow> u32 res" where
  "fb_pixel be fb pos =
     rbind (require (0 \<le> sint (pt_x pos) \<and> 0 \<le> sint (pt_y pos)) AssertFailed) (\<lambda>_.
     rbind (require (sint (pt_x pos) < int (fb_width fb) \<and> sint (pt_y pos) < int (fb_height fb)) AssertFailed) (\<lambda>_.
     raw_at be fb (pitchData fb (sint (pt_y pos)) + sint (pt_x pos) * int (bytePerPixel fb))))"

definition fb_color :: "bool \<Rightarrow> framebuffer \<Rightarrow> point \<Rightarrow> color res" where
  "fb_color be fb pos = rbind (fb_pixel be fb pos) (\<lambda>p. Inr (pf_color (pixelFormat fb) p))"

subsection \<open>Regions of one colour\<close>

definition is_exception :: "error \<Rightarrow> bool" where
  "is_exception e \<longleftrightarrow> e \<notin> {AssertFailed, MemoryFault, Diverges}"

text \<open>A job whose exception is lost: it has written nothing when it throws.\<close>

definition job :: "(framebuffer \<Rightarrow> framebuffer res) \<Rightarrow> framebuffer \<Rightarrow> framebuffer res" where
  "job f fb = (case f fb of Inl e \<Rightarrow> if is_exception e then Inr fb else Inl e | Inr fb' \<Rightarrow> Inr fb')"

definition big :: "region \<Rightarrow> bool" where
  "big reg \<longleftrightarrow> 1024 < uint (rg_width reg) * uint (rg_height reg)"

definition row_of :: "region \<Rightarrow> int \<Rightarrow> int \<Rightarrow> point" where
  "row_of reg xx yy = point_add (topLeft reg) (Point (narrow16 xx) (narrow16 yy))"

definition fill_rows :: "bool \<Rightarrow> bool \<Rightarrow> framebuffer \<Rightarrow> region \<Rightarrow> u32 \<Rightarrow> framebuffer res" where
  "fill_rows be par fb reg raw =
     (let row = (\<lambda>yy fb. setPixelRow be fb (row_of reg 0 yy) raw (unat (rg_width reg)))
      in if par \<and> big reg
         then foldM (\<lambda>yy. job (row yy)) [0..uint (rg_height reg) - 1] fb
         else foldM row [0..uint (rg_height reg) - 1] fb)"

definition fillPixel ::
  "bool \<Rightarrow> bool \<Rightarrow> framebuffer \<Rightarrow> region \<Rightarrow> u32 \<Rightarrow> pixelformat option \<Rightarrow> framebuffer res" where
  "fillPixel be par fb reg0 pixel fmt =
     (case region_intersection (fb_reg fb) reg0 (Some region_default) of
        (True, Some reg) \<Rightarrow> fill_rows be par fb reg (raw_of fb pixel fmt)
      | _ \<Rightarrow> Inr fb)"

definition fillColor :: "bool \<Rightarrow> bool \<Rightarrow> framebuffer \<Rightarrow> region \<Rightarrow> color \<Rightarrow> framebuffer res" where
  "fillColor be par fb reg0 col =
     (case region_intersection (fb_reg fb) reg0 (Some region_default) of
        (True, Some reg) \<Rightarrow> fill_rows be par fb reg (pf_pixel (pixelFormat fb) col)
      | _ \<Rightarrow> Inr fb)"

definition drawRect :: "bool \<Rightarrow> bool \<Rightarrow> framebuffer \<Rightarrow> region \<Rightarrow> color \<Rightarrow> framebuffer res" where
  "drawRect be par fb reg0 col =
     (case region_intersection (fb_reg fb) reg0 (Some region_default) of
        (True, Some reg) \<Rightarrow>
          let raw = pf_pixel (pixelFormat fb) col;
              w = unat (rg_width reg);
              top = (\<lambda>fb. setPixelRow be fb (topLeft reg) raw w);
              bottom = (\<lambda>fb. setPixelRow be fb (row_of reg 0 (uint (rg_height reg) - 1)) raw w);
              sides = foldM (\<lambda>yy fb. rbind (setPixelRow be fb (row_of reg 0 yy) raw 1)
                  (\<lambda>fb. setPixelRow be fb (row_of reg (uint (rg_width reg) - 1) yy) raw 1))
                [1..uint (rg_height reg) - 2]
          in if par \<and> big reg
             then rbind (job top fb) (\<lambda>fb. rbind (job bottom fb) (job sides))
             else rbind (top fb) (\<lambda>fb. rbind (bottom fb) sides)
      | _ \<Rightarrow> Inr fb)"

subsection \<open>Copies\<close>

definition row_copy :: "framebuffer \<Rightarrow> region \<Rightarrow> region \<Rightarrow> int \<Rightarrow> framebuffer \<Rightarrow> framebuffer res" where
  "row_copy src reg dst row fb =
     (let ptr = pitchData src (sint (rg_y reg) + row) + sint (rg_x reg) * int (bytePerPixel src);
          len = unat (rg_width dst) * bytePerPixel src
      in rbind (fb_read src ptr len) (\<lambda>bs.
         fb_write fb (pitchData fb (sint (rg_y dst) + row) + sint (rg_x dst) * int (bytePerPixel fb)) bs))"

definition copy_pixels ::
  "bool \<Rightarrow> framebuffer \<Rightarrow> point \<Rightarrow> region \<Rightarrow> framebuffer \<Rightarrow> framebuffer res" where
  "copy_pixels be src from dst = foldM (\<lambda>coord fb.
     rbind (fb_pixel be src (point_add from coord)) (\<lambda>p.
     setPixel be fb (point_add (topLeft dst) coord) p (Some (pixelFormat src)))) (coordList (coordBegin dst))"

definition blitRegion ::
  "bool \<Rightarrow> bool \<Rightarrow> framebuffer \<Rightarrow> framebuffer \<Rightarrow> region \<Rightarrow> point \<Rightarrow> framebuffer res" where
  "blitRegion be par fb src reg pos =
     (case region_intersection (region_of pos (toSize reg)) (fb_reg fb) (Some region_default) of
        (True, Some dst) \<Rightarrow>
          let rows = [0..uint (rg_height dst) - 1] in
          if par \<and> big reg then
            if pixelFormat fb \<noteq> pixelFormat src then
              rbind (divideCounts dst 2 2) (\<lambda>subs.
              foldM (\<lambda>sub. job (copy_pixels be src
                 (point_add (topLeft reg) (point_sub (topLeft sub) (topLeft dst))) sub)) subs fb)
            else foldM (\<lambda>row. job (row_copy src reg dst row)) rows fb
          else if pixelFormat fb \<noteq> pixelFormat src then copy_pixels be src (topLeft reg) dst fb
          else foldM (row_copy src reg dst) rows fb
      | _ \<Rightarrow> Inr fb)"

definition copyRegionFormat :: "bool \<Rightarrow> bool \<Rightarrow> framebuffer \<Rightarrow> region \<Rightarrow> pixelformat \<Rightarrow> framebuffer res" where
  "copyRegionFormat be par fb reg pf =
     blitRegion be par (frameBuffer_new (toSize reg) pf 0) fb reg (Point 0 0)"

text \<open>The pitch of the source is passed as a \<open>uint16_t\<close>.\<close>

definition copyRegion :: "bool \<Rightarrow> bool \<Rightarrow> framebuffer \<Rightarrow> region \<Rightarrow> framebuffer res" where
  "copyRegion be par fb reg =
     blitRegion be par (frameBuffer_new (toSize reg) (pixelFormat fb)
       (if unat (rg_width reg) = fb_width fb then of_nat (pitchSize fb) else 0)) fb reg (Point 0 0)"

subsection \<open>Scans of a region\<close>

text \<open>The two nested loops over a region, and the pixel at a pair of counters.\<close>

definition loop_coords :: "region \<Rightarrow> (nat \<times> nat) list" where
  "loop_coords reg = concat (map (\<lambda>py. map (\<lambda>px. (px, py)) [0..<unat (rg_width reg)]) [0..<unat (rg_height reg)])"

definition scan_pixel :: "bool \<Rightarrow> framebuffer \<Rightarrow> region \<Rightarrow> nat \<times> nat \<Rightarrow> u32 res" where
  "scan_pixel be fb reg = (\<lambda>(px, py). raw_at be fb
     (pitchData fb (sint (rg_y reg) + int py) + (sint (rg_x reg) + int px) * int (bytePerPixel fb)))"

definition scan :: "bool \<Rightarrow> framebuffer \<Rightarrow> (u32 \<Rightarrow> 'a \<Rightarrow> 'a) \<Rightarrow> 'a \<Rightarrow> region \<Rightarrow> 'a res" where
  "scan be fb f a reg = foldM (\<lambda>c acc. rbind (scan_pixel be fb reg c) (\<lambda>p. Inr (f p acc))) (loop_coords reg) a"

text \<open>The bands the parallel scans cut a region into.\<close>

definition bands :: "region \<Rightarrow> region list res" where
  "bands reg = returning (divideBlocks reg (Size (rg_width reg) (rg_height reg div 4)))"

type_synonym pixellengths = "(u32 \<times> u32) list"

definition rle_push :: "u32 \<Rightarrow> pixellengths \<Rightarrow> pixellengths" where
  "rle_push p acc = (if acc \<noteq> [] \<and> fst (last acc) = p
     then butlast acc @ [(p, snd (last acc) + 1)] else acc @ [(p, 1)])"

definition toRLE :: "bool \<Rightarrow> bool \<Rightarrow> framebuffer \<Rightarrow> region \<Rightarrow> pixellengths res" where
  "toRLE be par fb reg =
     (if par \<and> big reg then rbind (bands reg) (concatM (scan be fb rle_push []))
      else scan be fb rle_push [] reg)"

definition colour_add :: "pixelformat \<Rightarrow> u32 \<Rightarrow> color set \<Rightarrow> color set" where
  "colour_add fmt p = insert \<lparr>col_r = ucast (pf_red fmt p), col_g = ucast (pf_green fmt p),
     col_b = ucast (pf_blue fmt p), col_x = 0\<rparr>"

definition colourMap :: "bool \<Rightarrow> bool \<Rightarrow> framebuffer \<Rightarrow> color set res" where
  "colourMap be par fb =
     (let scn = scan be fb (colour_add (pixelFormat fb)) {} in
      if par \<and> big (fb_reg fb)
      then rbind (bands (fb_reg fb)) (\<lambda>bs. rbind (mapM scn bs) (\<lambda>ms. Inr (\<Union> (set ms))))
      else scn (fb_reg fb))"

text \<open>
  A hash map is the list of its entries in insertion order; iterating over it visits the keys in
  the order \<open>ord\<close>.
\<close>

type_synonym pixelmap = "(u32 \<times> u32) list"

definition try_emplace :: "u32 \<Rightarrow> u32 \<Rightarrow> pixelmap \<Rightarrow> pixelmap" where
  "try_emplace k v m = (if k \<in> fst ` set m then m else m @ [(k, v)])"

definition iterate :: "(u32 list \<Rightarrow> u32 list) \<Rightarrow> pixelmap \<Rightarrow> pixelmap" where
  "iterate ord m = map (\<lambda>k. (k, the (map_of m k))) (ord (map fst m))"

definition palette_scan :: "bool \<Rightarrow> framebuffer \<Rightarrow> region \<Rightarrow> pixelmap res" where
  "palette_scan be fb = scan be fb (\<lambda>p. try_emplace p 0) []"

definition pixelMapPalette ::
  "(u32 list \<Rightarrow> u32 list) \<Rightarrow> bool \<Rightarrow> bool \<Rightarrow> framebuffer \<Rightarrow> region \<Rightarrow> pixelmap res" where
  "pixelMapPalette ord be par fb reg =
     rbind (if par \<and> big reg
            then rbind (bands reg) (\<lambda>bs. rbind (mapM (palette_scan be fb) bs) (\<lambda>ms.
              Inr (fold (\<lambda>m map. fold (\<lambda>(k, v). try_emplace k v) (iterate ord m) map) ms [])))
            else palette_scan be fb reg) (\<lambda>m.
     Inr (zip (ord (map fst m)) (map of_nat [0..<length m])))"

definition findColorIndex :: "pixelmap \<Rightarrow> u32 \<Rightarrow> u32" where
  "findColorIndex m col = (case map_of m col of Some i \<Rightarrow> i | None \<Rightarrow> - 1)"

fun add_weight :: "u32 \<Rightarrow> u32 \<Rightarrow> pixelmap \<Rightarrow> pixelmap" where
  "add_weight k n [] = [(k, n)]"
| "add_weight k n ((k', m) # ps) = (if k = k' then (k', m + n) # ps else (k', m) # add_weight k n ps)"

definition weight_scan :: "bool \<Rightarrow> framebuffer \<Rightarrow> region \<Rightarrow> pixelmap res" where
  "weight_scan be fb = scan be fb (\<lambda>p. add_weight p 1) []"

definition pixelMapWeight ::
  "(u32 list \<Rightarrow> u32 list) \<Rightarrow> bool \<Rightarrow> bool \<Rightarrow> framebuffer \<Rightarrow> region \<Rightarrow> pixelmap res" where
  "pixelMapWeight ord be par fb reg =
     rbind (if par \<and> big reg
            then rbind (bands reg) (\<lambda>bs. rbind (mapM (weight_scan be fb) bs) (\<lambda>ms.
              Inr (fold (\<lambda>m map. fold (\<lambda>(k, n). add_weight k n) (iterate ord m) map) ms [])))
            else weight_scan be fb reg) (\<lambda>m. Inr (iterate ord m))"

text \<open>\<open>std::max_element\<close>: the first of the heaviest entries.\<close>

definition maxWeightPixel :: "pixelmap \<Rightarrow> u32" where
  "maxWeightPixel m = (case m of [] \<Rightarrow> 0
     | e # es \<Rightarrow> fst (fold (\<lambda>x best. if snd best < snd x then x else best) es e))"

fun all_pixels :: "('c \<Rightarrow> u32 res) \<Rightarrow> u32 \<Rightarrow> 'c list \<Rightarrow> bool res" where
  "all_pixels rd pix [] = Inr True"
| "all_pixels rd pix (c # cs) =
     rbind (rd c) (\<lambda>p. if pix \<noteq> p then Inr False else all_pixels rd pix cs)"

text \<open>
  The fast check reads the pixels of the corners and the middle at their position in the region,
  not offset by the region's origin, and reads one corner twice.
\<close>

definition fast_points :: "region \<Rightarrow> point list" where
  "fast_points reg =
     (let w = uint (rg_width reg); h = uint (rg_height reg) in
      [Point (narrow16 (w - 1)) 0, Point (narrow16 (w - 1)) 0, Point 0 (narrow16 (h - 1)),
       Point (narrow16 (w - 1)) (narrow16 (h - 1)), Point (narrow16 (w div 2)) (narrow16 (h div 2))])"

definition allOfPixel :: "bool \<Rightarrow> framebuffer \<Rightarrow> u32 \<Rightarrow> region \<Rightarrow> bool res" where
  "allOfPixel be fb pix reg =
     rbind (if big reg then all_pixels (fb_pixel be fb) pix (fast_points reg) else Inr True) (\<lambda>b.
     if \<not> b then Inr False else all_pixels (scan_pixel be fb reg) pix (loop_coords reg))"

subsection \<open>Text\<close>

text \<open>The console font is generated data: its width, height and glyph bytes are a parameter.\<close>

record psf_font =
  font_width :: nat
  font_height :: nat
  font_data :: bytes

definition isprint :: "int \<Rightarrow> bool" where
  "isprint ch \<longleftrightarrow> 32 \<le> ch \<and> ch \<le> 126"

definition renderChar ::
  "psf_font \<Rightarrow> bool \<Rightarrow> framebuffer \<Rightarrow> int \<Rightarrow> color \<Rightarrow> point \<Rightarrow> (bool \<times> framebuffer) res" where
  "renderChar font be fb ch col pos =
     (if \<not> isprint ch then Inr (False, fb)
      else
        let offsetx = nat ch * font_width font * font_height font div 8;
            size = length (font_data font)
        in if size \<le> offsetx then Inr (False, fb)
           else foldM (\<lambda>yy (res, fb).
             let offsety = yy * font_width font div 8 in
             if sint (pt_y pos) + int yy < 0 then Inr (res, fb)
             else if size \<le> offsetx + offsety then Inr (res, fb)
             else
               let line = uint (font_data font ! (offsetx + offsety)) in
               foldM (\<lambda>xx (res, fb).
                 if sint (pt_x pos) + int xx < 0 then Inr (res, fb)
                 else if bit (push_bit xx line) 7
                 then rbind (setColor be fb (point_add pos (Point (of_nat xx) (of_nat yy))) col) (\<lambda>fb. Inr (True, fb))
                 else Inr (res, fb)) [0..<font_width font] (res, fb))
             [0..<font_height font] (False, fb))"

text \<open>
  With the parallel build every glyph is a job; a job that throws leaves the pixels it has set,
  and the only exception, an unknown depth, comes before the first.
\<close>

definition renderText ::
  "psf_font \<Rightarrow> bool \<Rightarrow> bool \<Rightarrow> framebuffer \<Rightarrow> int list \<Rightarrow> color \<Rightarrow> point \<Rightarrow> framebuffer res" where
  "renderText font be fbpar fb str col pos =
     (let glyph = (\<lambda>(k, ch) fb. rbind (renderChar font be fb ch col
            (Point (narrow16 (sint (pt_x pos) + int (k * font_width font))) (pt_y pos))) (\<lambda>(_, fb). Inr fb))
      in foldM (\<lambda>kc. if fbpar then job (glyph kc) else glyph kc) (zip [0..<length str] str) fb)"

end
