(* ===== verification/Encodings.thy ===== *)
theory Encodings
  imports Rfb_Common Frame_Buffer
begin

text \<open>
  \<^verbatim>\<open>src/src/librfb/server/librfb_encodings.cpp\<close>: the server's encoders Raw, RRE and CoRRE, HexTile,
  TRLE and ZRLE, ZLib, LZ4 and QOI. A \<open>send\<close> function of \<open>EncoderStream\<close> is the bytes it puts on
  the stream (\<open>Byte_Streams.put_wire\<close>: whatever the platform's byte order), so an encoder is a
  function to the bytes it sends or the exception it throws. The jobs of \<open>ParallelsJobs\<close> compute
  the encoded regions; they are awaited and sent in the order of the regions. The libraries zlib,
  lz4 and the turbo jpeg library are not part of the repository: \<open>deflate\<close> and \<open>lz4\<close> are parameters.
\<close>

section \<open>EncoderStream\<close>

text \<open>
  What an encoder asks its stream for, with the build and platform parameters of the frame buffer:
  \<open>es_be\<close> is the server's byte order, \<open>es_par\<close> and \<open>es_order\<close> are those of \<open>Frame_Buffer\<close>.
\<close>

record encoderstream =
  es_be :: bool
  es_par :: bool
  es_order :: "u32 list \<Rightarrow> u32 list"
  serverFormat :: pixelformat
  clientFormat :: pixelformat
  clientIsBigEndian :: bool
  displaySize :: xsize

definition sendHeader :: "int \<Rightarrow> region \<Rightarrow> bytes" where
  "sendHeader type reg = be_bytes 2 (rg_x reg) @ be_bytes 2 (rg_y reg) @
     be_bytes 2 (rg_width reg) @ be_bytes 2 (rg_height reg) @ be_bytes 4 (word_of_int type :: u32)"

definition sendPixelRaw :: "u32 \<Rightarrow> nat \<Rightarrow> bool \<Rightarrow> bytes res" where
  "sendPixelRaw pixel bpp be =
     (if bpp = 4 then Inr (if be then be_bytes 4 pixel else le_bytes 4 pixel)
      else if bpp = 2 then Inr (if be then be_bytes 2 (ucast pixel :: u16) else le_bytes 2 (ucast pixel :: u16))
      else if bpp = 1 then Inr [ucast pixel]
      else Inl RfbError)"

definition sendPixel :: "encoderstream \<Rightarrow> u32 \<Rightarrow> bytes res" where
  "sendPixel st pixel = sendPixelRaw (convertFrom (clientFormat st) (serverFormat st) pixel)
     (unat (bytePixel (clientFormat st))) (clientIsBigEndian st)"

definition sendCPixel :: "encoderstream \<Rightarrow> u32 \<Rightarrow> bytes res" where
  "sendCPixel st pixel =
     (if bitsPixel (clientFormat st) \<noteq> 32 then sendPixel st pixel
      else
        let pixel = (if \<not> pf_compare (serverFormat st) (clientFormat st) True
              then convertFrom (clientFormat st) (serverFormat st) pixel else pixel);
            ptr = native_bytes (es_be st) 4 pixel;
            ptr = (if es_be st then if leastSignificant (serverFormat st) then drop 1 ptr else ptr
                   else if \<not> leastSignificant (serverFormat st) then drop 1 ptr else ptr)
        in Inr (take 3 ptr))"

function run_length_bytes :: "u32 \<Rightarrow> bytes" where
  "run_length_bytes len =
     (if 255 < len then 255 # run_length_bytes (len - 255) else [ucast ((len - 1) mod 255)])"
  by pat_completeness auto
termination
  by (relation "measure unat") (auto simp: word_less_nat_alt unat_sub_if')

declare run_length_bytes.simps [simp del]

definition sendRunLength :: "u32 \<Rightarrow> bytes res" where
  "sendRunLength len = (if len = 0 then Inl RfbError else Inr (run_length_bytes len))"

text \<open>\<open>EncoderWrapper::sendRaw\<close> appends to the buffer of the job; its receiving side only throws.\<close>

definition wrapper_sendRaw :: "bytes put_raw" where
  "wrapper_sendRaw buffer bs = Inr (if bs = [] then buffer else buffer @ bs)"

definition wrapper_recvRaw :: "bytes get_raw" where
  "wrapper_recvRaw buffer len = Inl NetworkError"

section \<open>EncodingBase\<close>

definition sendRawRegionPixels :: "encoderstream \<Rightarrow> region \<Rightarrow> framebuffer \<Rightarrow> bytes res" where
  "sendRawRegionPixels st reg fb =
     concatM (\<lambda>c. rbind (scan_pixel (es_be st) fb reg c) (sendPixel st)) (loop_coords reg)"

type_synonym regionpixels = "(region \<times> u32) list"

text \<open>One block of a bad region: a good rectangle, maybe joined to the last one, or a bad region again.\<close>

definition rre_good :: "region \<Rightarrow> u32 \<Rightarrow> regionpixels \<Rightarrow> regionpixels" where
  "rre_good sub pixel goods =
     (if goods \<noteq> [] \<and> rg_y (fst (last goods)) = rg_y sub \<and> rg_height (fst (last goods)) = rg_height sub \<and>
         sint (rg_x (fst (last goods))) + uint (rg_width (fst (last goods))) = sint (rg_x sub) \<and>
         snd (last goods) = pixel
      then butlast goods @ [((fst (last goods))\<lparr>rg_width := rg_width (fst (last goods)) + rg_width sub\<rparr>,
             snd (last goods))]
      else goods @ [(sub, pixel)])"

definition rre_block ::
  "bool \<Rightarrow> framebuffer \<Rightarrow> u32 \<Rightarrow> region \<Rightarrow> regionpixels \<times> region list \<Rightarrow> (regionpixels \<times> region list) res" where
  "rre_block be fb skip sub = (\<lambda>(goods, bads).
     rbind (fb_pixel be fb (topLeft sub)) (\<lambda>pixel.
     rbind (if rg_width sub = 1 \<and> rg_height sub = 1 then Inr True else allOfPixel be fb pixel sub) (\<lambda>good.
       if good then Inr (if pixel \<noteq> skip then rre_good sub pixel goods else goods, bads)
       else Inr (goods, bads @ [sub]))))"

definition rre_region ::
  "bool \<Rightarrow> framebuffer \<Rightarrow> u32 \<Rightarrow> region \<Rightarrow> regionpixels \<times> region list \<Rightarrow> (regionpixels \<times> region list) res" where
  "rre_region be fb skip bad acc = rbind (divideCounts bad 2 2) (\<lambda>subs. foldM (rre_block be fb skip) subs acc)"

text \<open>
  The outer loop, with a bound on its rounds: every round at least halves the regions, and 16
  rounds are enough for the sizes of 16 bits.
\<close>

fun rre_rounds :: "nat \<Rightarrow> bool \<Rightarrow> framebuffer \<Rightarrow> u32 \<Rightarrow> regionpixels \<Rightarrow> region list \<Rightarrow> regionpixels res" where
  "rre_rounds 0 be fb skip goods bads = Inl Diverges"
| "rre_rounds (Suc n) be fb skip goods bads =
     rbind (foldM (rre_region be fb skip) bads (goods, [])) (\<lambda>(goods, bads).
       if bads = [] then Inr goods else rre_rounds n be fb skip goods bads)"

definition rreProcessing :: "bool \<Rightarrow> region \<Rightarrow> framebuffer \<Rightarrow> u32 \<Rightarrow> regionpixels res" where
  "rreProcessing be badreg fb skip = rre_rounds 17 be fb skip [] [badreg]"

type_synonym encodingret = "region \<times> bytes"

text \<open>The pattern of \<open>sendFrameBuffer\<close>: the number of regions, then every region's job in turn.\<close>

definition send_regions ::
  "(region \<Rightarrow> encodingret res) \<Rightarrow> (encodingret \<Rightarrow> bytes res) \<Rightarrow> point \<Rightarrow> region list \<Rightarrow> bytes res" where
  "send_regions sendRegion put orig regions =
     rbind (concatM (\<lambda>reg. rbind (sendRegion (region_sub reg orig)) put) regions) (\<lambda>out.
     Inr (be_bytes 2 (of_nat (length regions) :: u16) @ out))"

section \<open>EncodingRaw\<close>

definition raw_sendRegion :: "encoderstream \<Rightarrow> point \<Rightarrow> region \<Rightarrow> framebuffer \<Rightarrow> encodingret res" where
  "raw_sendRegion st orig reg fb =
     rbind (sendRawRegionPixels st reg fb) (\<lambda>buf. Inr (region_add reg orig, buf))"

definition raw_sendFrameBuffer :: "encoderstream \<Rightarrow> framebuffer \<Rightarrow> bytes res" where
  "raw_sendFrameBuffer st fb =
     (let reg0 = fb_reg fb; orig = topLeft reg0 in
      rbind (raw_sendRegion st orig (region_sub reg0 orig) fb) (\<lambda>(reg, buf).
      Inr (be_bytes 2 (1 :: u16) @ sendHeader ENCODING_RAW reg @ buf)))"

section \<open>EncodingRRE\<close>

text \<open>The coordinates of a rectangle, relative to the region: bytes for CoRRE.\<close>

definition rre_rect :: "bool \<Rightarrow> region \<Rightarrow> region \<Rightarrow> bytes" where
  "rre_rect corre reg r =
     (let x = narrow16 (sint (rg_x r) - sint (rg_x reg)); y = narrow16 (sint (rg_y r) - sint (rg_y reg)) in
      if corre then [ucast x, ucast y, ucast (rg_width r), ucast (rg_height r)]
      else be_bytes 2 x @ be_bytes 2 y @ be_bytes 2 (rg_width r) @ be_bytes 2 (rg_height r))"

definition rre_sendRects :: "encoderstream \<Rightarrow> bool \<Rightarrow> region \<Rightarrow> u32 \<Rightarrow> regionpixels \<Rightarrow> bytes res" where
  "rre_sendRects st corre reg back rreList =
     rbind (sendPixel st back) (\<lambda>bk.
     rbind (concatM (\<lambda>(r, p). rbind (sendPixel st p) (\<lambda>px. Inr (px @ rre_rect corre reg r))) rreList) (\<lambda>rs.
     Inr (be_bytes 4 (of_nat (length rreList) :: u32) @ bk @ rs)))"

definition rre_sendRegion :: "encoderstream \<Rightarrow> bool \<Rightarrow> point \<Rightarrow> region \<Rightarrow> framebuffer \<Rightarrow> encodingret res" where
  "rre_sendRegion st corre orig reg fb =
     rbind (pixelMapWeight (es_order st) (es_be st) (es_par st) fb reg) (\<lambda>map.
     if map = [] then Inl RfbError
     else if length map > 1 then
       let back = maxWeightPixel map in
       rbind (rreProcessing (es_be st) reg fb back) (\<lambda>goods.
       rbind (rre_sendRects st corre reg back goods) (\<lambda>bb. Inr (region_add reg orig, bb)))
     else
       rbind (fb_pixel (es_be st) fb (topLeft reg)) (\<lambda>back.
       rbind (sendPixel st back) (\<lambda>bk.
       Inr (region_add reg orig, be_bytes 4 (1 :: u32) @ bk @ bk @
         (if corre then [0, 0, 1, 1]
          else be_bytes 2 (0 :: u16) @ be_bytes 2 (0 :: u16) @ be_bytes 2 (1 :: u16) @ be_bytes 2 (1 :: u16))))))"

definition rre_sendFrameBuffer :: "encoderstream \<Rightarrow> bool \<Rightarrow> framebuffer \<Rightarrow> bytes res" where
  "rre_sendFrameBuffer st corre fb =
     (let reg0 = fb_reg fb; orig = topLeft reg0;
          bsz = (if corre then Size 64 64 else Size 128 128);
          type = (if corre then ENCODING_CORRE else ENCODING_RRE)
      in rbind (returning (divideBlocks reg0 bsz)) (\<lambda>regions.
         send_regions (\<lambda>reg. rre_sendRegion st corre orig reg fb)
           (\<lambda>(reg, bb). Inr (sendHeader type reg @ bb)) orig regions))"

section \<open>EncodingHexTile\<close>

definition hextile_rect :: "region \<Rightarrow> region \<Rightarrow> bytes" where
  "hextile_rect reg r =
     (let x = sint (rg_x r) - sint (rg_x reg); y = sint (rg_y r) - sint (rg_y reg);
          w = uint (rg_width r) - 1; h = uint (rg_height r) - 1
      in [word_of_int (0xFF AND (push_bit 4 x OR y)), word_of_int (0xFF AND (push_bit 4 w OR h))])"

definition hextile_sendRegionColored :: "encoderstream \<Rightarrow> region \<Rightarrow> u32 \<Rightarrow> regionpixels \<Rightarrow> bytes res" where
  "hextile_sendRegionColored st reg back rreList =
     rbind (sendPixel st back) (\<lambda>bk.
     rbind (concatM (\<lambda>(r, p). rbind (sendPixel st p) (\<lambda>px. Inr (px @ hextile_rect reg r))) rreList) (\<lambda>rs.
     Inr ((HEXTILE_BACKGROUND OR HEXTILE_COLOURED OR HEXTILE_SUBRECTS) # bk @ of_nat (length rreList) # rs)))"

definition hextile_sendRegionForeground :: "encoderstream \<Rightarrow> region \<Rightarrow> u32 \<Rightarrow> regionpixels \<Rightarrow> bytes res" where
  "hextile_sendRegionForeground st reg back rreList =
     rbind (sendPixel st back) (\<lambda>bk.
     rbind (if rreList = [] then Inl MemoryFault else sendPixel st (snd (hd rreList))) (\<lambda>fg.
     Inr ((HEXTILE_BACKGROUND OR HEXTILE_FOREGROUND OR HEXTILE_SUBRECTS) # bk @ fg @
       of_nat (length rreList) # concat (map (\<lambda>(r, p). hextile_rect reg r) rreList))))"

definition hextile_sendRegionRaw :: "encoderstream \<Rightarrow> region \<Rightarrow> framebuffer \<Rightarrow> bytes res" where
  "hextile_sendRegionRaw st reg fb = rbind (sendRawRegionPixels st reg fb) (\<lambda>px. Inr (HEXTILE_RAW # px))"

definition hextile_sendRegion :: "encoderstream \<Rightarrow> point \<Rightarrow> region \<Rightarrow> framebuffer \<Rightarrow> encodingret res" where
  "hextile_sendRegion st orig reg fb =
     rbind (pixelMapWeight (es_order st) (es_be st) (es_par st) fb reg) (\<lambda>map.
     rbind (if map = [] then Inl RfbError
       else if length map = 1 then
         rbind (fb_pixel (es_be st) fb (topLeft reg)) (\<lambda>back.
         rbind (sendPixel st back) (\<lambda>bk. Inr (HEXTILE_BACKGROUND # bk)))
       else
         let back = maxWeightPixel map in
         rbind (rreProcessing (es_be st) reg fb back) (\<lambda>goods.
         rbind (if goods = [] then Inl MemoryFault else Inr (snd (hd goods))) (\<lambda>col.
         let foreground = list_all (\<lambda>(r, p). p = col) goods;
             rawLength = 1 + unat (rg_width reg) * unat (rg_height reg) * bytePerPixel fb
         in if foreground then
              if rawLength < 2 + 2 * bytePerPixel fb + length goods * 2
              then hextile_sendRegionRaw st reg fb
              else hextile_sendRegionForeground st reg back goods
            else
              if rawLength < 2 + bytePerPixel fb + length goods * (2 + bytePerPixel fb)
              then hextile_sendRegionRaw st reg fb
              else hextile_sendRegionColored st reg back goods))) (\<lambda>bb.
     Inr (region_add reg orig, bb)))"

definition hextile_sendFrameBuffer :: "encoderstream \<Rightarrow> framebuffer \<Rightarrow> bytes res" where
  "hextile_sendFrameBuffer st fb =
     (let reg0 = fb_reg fb; orig = topLeft reg0 in
      rbind (returning (divideBlocks reg0 (Size 16 16))) (\<lambda>regions.
      send_regions (\<lambda>reg. hextile_sendRegion st orig reg fb)
        (\<lambda>(reg, bb). Inr (sendHeader ENCODING_HEXTILE reg @ bb)) orig regions))"

section \<open>EncodingTRLE\<close>

definition trle_pal :: "encoderstream \<Rightarrow> pixelmap \<Rightarrow> bytes res" where
  "trle_pal st pal = concatM (\<lambda>(p, i). sendCPixel st p) pal"

text \<open>
  \<open>findColorIndex\<close> answers a \<open>uint32_t\<close>, so the code's assertion that the index is not negative
  always holds.
\<close>

definition trle_sendRegionPacked ::
  "encoderstream \<Rightarrow> region \<Rightarrow> framebuffer \<Rightarrow> bits_field \<Rightarrow> pixelmap \<Rightarrow> bytes res" where
  "trle_sendRegionPacked st reg fb field pal =
     rbind (trle_pal st pal) (\<lambda>ps.
     rbind (foldM (\<lambda>py sb.
         rbind (foldM (\<lambda>px sb.
             rbind (scan_pixel (es_be st) fb reg (px, py)) (\<lambda>pix.
             Inr (pushValue (findColorIndex pal pix) field sb))) [0..<unat (rg_width reg)] sb) (\<lambda>sb.
         Inr (pushAlign sb))) [0..<unat (rg_height reg)] streamBitsPack) (\<lambda>sb.
     Inr (of_nat (length pal) # ps @ vecbuf sb)))"

definition trle_sendRegionPlain :: "encoderstream \<Rightarrow> pixellengths \<Rightarrow> bytes res" where
  "trle_sendRegionPlain st rle =
     rbind (concatM (\<lambda>(p, n). rbind (sendCPixel st p) (\<lambda>px. rbind (sendRunLength n) (\<lambda>ln. Inr (px @ ln)))) rle) (\<lambda>rs.
     Inr (128 # rs))"

definition trle_sendRegionPalette :: "encoderstream \<Rightarrow> pixelmap \<Rightarrow> pixellengths \<Rightarrow> bytes res" where
  "trle_sendRegionPalette st pal rle =
     rbind (trle_pal st pal) (\<lambda>ps.
     rbind (concatM (\<lambda>(p, n). let index = findColorIndex pal p in
       if n = 1 then Inr [ucast index]
       else rbind (sendRunLength n) (\<lambda>ln. Inr (ucast (index + 128) # ln))) rle) (\<lambda>rs.
     Inr (of_nat (length pal + 128) # ps @ rs)))"

definition trle_sendRegionRaw :: "encoderstream \<Rightarrow> region \<Rightarrow> framebuffer \<Rightarrow> bytes res" where
  "trle_sendRegionRaw st reg fb =
     rbind (concatM (\<lambda>c. rbind (scan_pixel (es_be st) fb reg c) (sendCPixel st)) (loop_coords reg)) (\<lambda>px.
     Inr (0 # px))"

text \<open>The length of a run's encoding, in bytes: \<open>floor((length - 1) / 255.0) + 1\<close>.\<close>

definition run_cost :: "u32 \<Rightarrow> nat" where
  "run_cost n = (unat (n - 1)) div 255 + 1"

definition trle_sendRegion :: "encoderstream \<Rightarrow> point \<Rightarrow> region \<Rightarrow> framebuffer \<Rightarrow> encodingret res" where
  "trle_sendRegion st orig reg fb =
     rbind (pixelMapPalette (es_order st) (es_be st) (es_par st) fb reg) (\<lambda>map.
     rbind (if length map = 1 then
         rbind (fb_pixel (es_be st) fb (topLeft reg)) (\<lambda>back.
         rbind (sendCPixel st back) (\<lambda>bk. Inr (1 # bk)))
       else if 2 \<le> length map \<and> length map \<le> 16 then
         let field = (if 4 < length map then Val4 else if 2 < length map then Val2 else Val1)
         in trle_sendRegionPacked st reg fb field map
       else
         rbind (toRLE (es_be st) (es_par st) fb reg) (\<lambda>rleList.
         let plain = fold (\<lambda>(p, n) v. v + 3 + run_cost n) rleList 1;
             palette = (if 1 < length rleList \<and> length rleList < 128
               then fold (\<lambda>(p, n) v. v + 1 + run_cost n) rleList (1 + 3 * length map) else 0xFFFF);
             raw = 1 + 3 * unat (rg_width reg) * unat (rg_height reg)
         in if plain < palette \<and> plain < raw then trle_sendRegionPlain st rleList
            else if palette < plain \<and> palette < raw then trle_sendRegionPalette st map rleList
            else trle_sendRegionRaw st reg fb)) (\<lambda>bb.
     Inr (region_add reg orig, bb)))"

text \<open>
  \<open>deflate\<close> is \<open>DeflateBase::deflateData\<close> with a sync flush, with the state of the zlib stream,
  which every region of a frame continues.
\<close>

definition trle_sendFrameBuffer ::
  "('z \<Rightarrow> bytes \<Rightarrow> (bytes \<times> 'z) res) \<Rightarrow> encoderstream \<Rightarrow> bool \<Rightarrow> 'z \<Rightarrow> framebuffer \<Rightarrow> (bytes \<times> 'z) res" where
  "trle_sendFrameBuffer deflate st zrle z fb =
     (let reg0 = fb_reg fb; orig = topLeft reg0;
          type = (if zrle then ENCODING_ZRLE else ENCODING_TRLE)
      in rbind (returning (divideBlocks reg0 (Size 64 64))) (\<lambda>regions.
         foldM (\<lambda>reg (out, z).
           rbind (trle_sendRegion st orig (region_sub reg orig) fb) (\<lambda>(reg, bb).
           if zrle then
             rbind (deflate z bb) (\<lambda>(zip, z).
             Inr (out @ sendHeader type reg @ be_bytes 4 (of_nat (length zip) :: u32) @ zip, z))
           else Inr (out @ sendHeader type reg @ bb, z)))
         regions (be_bytes 2 (of_nat (length regions) :: u16), z)))"

section \<open>EncodingZlib\<close>

record 'z encodingzlib =
  ez_zlib :: 'z
  ez_level :: int

text \<open>\<open>init\<close> is a fresh deflate stream of a compression level.\<close>

definition encodingZlib :: "(int \<Rightarrow> 'z) \<Rightarrow> int \<Rightarrow> 'z encodingzlib" where
  "encodingZlib init lev =
     (let lev = (if lev < 1 \<or> lev > 9 then 1 else lev) in \<lparr>ez_zlib = init lev, ez_level = lev\<rparr>)"

definition zlib_sendRegion ::
  "('z \<Rightarrow> bytes \<Rightarrow> (bytes \<times> 'z) res) \<Rightarrow> encoderstream \<Rightarrow> point \<Rightarrow> region \<Rightarrow> framebuffer \<Rightarrow>
   'z \<Rightarrow> (encodingret \<times> 'z) res" where
  "zlib_sendRegion deflate st orig reg fb z =
     rbind (sendRawRegionPixels st reg fb) (\<lambda>buf.
     rbind (deflate z buf) (\<lambda>(zip, z). Inr ((region_add reg orig, zip), z)))"

definition zlib_sendFrameBuffer ::
  "('z \<Rightarrow> bytes \<Rightarrow> (bytes \<times> 'z) res) \<Rightarrow> encoderstream \<Rightarrow> 'z encodingzlib \<Rightarrow> framebuffer \<Rightarrow>
   (bytes \<times> 'z encodingzlib) res" where
  "zlib_sendFrameBuffer deflate st ez fb =
     (let reg0 = fb_reg fb; orig = topLeft reg0 in
      rbind (zlib_sendRegion deflate st orig (region_sub reg0 orig) fb (ez_zlib ez)) (\<lambda>((reg, zip), z).
      Inr (be_bytes 2 (1 :: u16) @ sendHeader ENCODING_ZLIB reg @ be_bytes 4 (of_nat (length zip) :: u32) @ zip,
           ez\<lparr>ez_zlib := z\<rparr>)))"

text \<open>
  The options of an encoder: \<open>zlev:<level>\<close>. \<open>stoi\<close> is the library's number parser, \<open>None\<close> when it
  throws. An option without a number after the colon still restarts the stream.
\<close>

fun after_colon :: "string \<Rightarrow> string option" where
  "after_colon [] = None"
| "after_colon (c # cs) = (if c = CHR '':'' then Some cs else after_colon cs)"

definition startsWith :: "string \<Rightarrow> string \<Rightarrow> bool" where
  "startsWith str pref \<longleftrightarrow> take (length pref) str = pref"

definition zlib_option ::
  "(string \<Rightarrow> int option) \<Rightarrow> (int \<Rightarrow> 'z) \<Rightarrow> string \<Rightarrow> 'z encodingzlib \<Rightarrow> 'z encodingzlib" where
  "zlib_option stoi init str ez =
     (if startsWith str ''zlev'' then
        case after_colon str of
          None \<Rightarrow> ez
        | Some s \<Rightarrow>
            let lev = (case stoi s of None \<Rightarrow> ez_level ez
                  | Some l \<Rightarrow> if l < 1 \<or> l > 9 then 1 else l)
            in ez\<lparr>ez_level := lev, ez_zlib := init lev\<rparr>
      else ez)"

definition zlib_setEncodingOptions ::
  "(string \<Rightarrow> int option) \<Rightarrow> (int \<Rightarrow> 'z) \<Rightarrow> string list \<Rightarrow> 'z encodingzlib \<Rightarrow> bool \<times> 'z encodingzlib" where
  "zlib_setEncodingOptions stoi init encopts ez = (False, fold (zlib_option stoi init) encopts ez)"

section \<open>EncodingLZ4\<close>

text \<open>The block size LZ4, TJPG and QOI share.\<close>

definition frame_block_size :: "encoderstream \<Rightarrow> int \<Rightarrow> framebuffer \<Rightarrow> xsize" where
  "frame_block_size st threads fb =
     (if displaySize st = toSize (fb_reg fb) then
        if 1 < threads then Size (rg_width (fb_reg fb)) (narrow16 (int (fb_height fb) div threads))
        else toSize (fb_reg fb)
      else if fb_width fb * fb_height fb < 256 * 256 then toSize (fb_reg fb)
      else Size (rg_width (fb_reg fb)) (narrow16 (256 * 256 div int (fb_height fb))))"

definition block_regions :: "encoderstream \<Rightarrow> int \<Rightarrow> framebuffer \<Rightarrow> region list res" where
  "block_regions st threads fb =
     (let bsz = frame_block_size st threads fb in
      rbind (require (\<not> size_isEmpty bsz) AssertFailed) (\<lambda>_. returning (divideBlocks (fb_reg fb) bsz)))"

definition lz4_sendRegion ::
  "(bytes \<Rightarrow> bytes res) \<Rightarrow> encoderstream \<Rightarrow> point \<Rightarrow> region \<Rightarrow> framebuffer \<Rightarrow> encodingret res" where
  "lz4_sendRegion lz4 st orig reg fb =
     (if fb_width fb = unat (rg_width reg) then
        rbind (fb_read fb (pitchData fb (sint (rg_y reg))) (pitchSize fb * unat (rg_height reg))) (\<lambda>buf.
        rbind (lz4 buf) (\<lambda>bb. Inr (region_add reg orig, bb)))
      else
        rbind (copyRegion (es_be st) (es_par st) fb reg) (\<lambda>fb2.
        rbind (fb_read fb2 (pitchData fb2 0) (pitchSize fb2 * unat (rg_height reg))) (\<lambda>buf.
        rbind (lz4 buf) (\<lambda>bb. Inr (region_add reg orig, bb)))))"

definition lz4_sendFrameBuffer ::
  "(bytes \<Rightarrow> bytes res) \<Rightarrow> encoderstream \<Rightarrow> int \<Rightarrow> framebuffer \<Rightarrow> bytes res" where
  "lz4_sendFrameBuffer lz4 st threads fb =
     (let orig = topLeft (fb_reg fb) in
      rbind (block_regions st threads fb) (\<lambda>regions.
      send_regions (\<lambda>reg. lz4_sendRegion lz4 st orig reg fb)
        (\<lambda>(reg, bb). Inr (sendHeader ENCODING_LTSM_LZ4 reg @ be_bytes 4 (of_nat (length bb) :: u32) @ bb))
        orig regions))"

section \<open>EncodingQOI\<close>

definition hashIndex64RGB :: "color \<Rightarrow> nat" where
  "hashIndex64RGB col = (unat (col_r col) * 3 + unat (col_g col) * 5 + unat (col_b col) * 7) mod 64"

text \<open>The encoder's state: the 64 hashed pixels and the previous one (\<open>-1\<close>: none), the run, the output.\<close>

record qoi_encoder =
  qe_hashes :: "int list"
  qe_prev :: int
  qe_run :: u8
  qe_out :: bytes

definition qoi_encoder_init :: qoi_encoder where
  "qoi_encoder_init = \<lparr>qe_hashes = replicate 64 (- 1), qe_prev = - 1, qe_run = 0, qe_out = []\<rparr>"

definition qoi_write :: "bytes \<Rightarrow> qoi_encoder \<Rightarrow> qoi_encoder" where
  "qoi_write bs s = s\<lparr>qe_out := qe_out s @ bs\<rparr>"

definition qoi_rgb :: "color \<Rightarrow> bytes" where
  "qoi_rgb col = [0xFE, col_r col, col_g col, col_b col]"

definition qoi_flush :: "qoi_encoder \<Rightarrow> qoi_encoder" where
  "qoi_flush s = (if qe_run s \<noteq> 0 then (qoi_write [0xC0 OR (qe_run s - 1)] s)\<lparr>qe_run := 0\<rparr> else s)"

definition qoi_encode_pixel :: "pixelformat \<Rightarrow> u32 \<Rightarrow> bool \<Rightarrow> qoi_encoder \<Rightarrow> qoi_encoder" where
  "qoi_encode_pixel pf pixel pixelLast s =
     (if uint pixel = qe_prev s then
        let s = s\<lparr>qe_run := qe_run s + 1\<rparr> in
        if qe_run s = 62 \<or> pixelLast
        then (qoi_write [0xC0 OR (qe_run s - 1)] s)\<lparr>qe_run := 0\<rparr> else s
      else
        let s = qoi_flush s;
            col = pf_color pf pixel;
            index = hashIndex64RGB col
        in if qe_hashes s ! index = uint pixel
           then (qoi_write [0x00 OR of_nat index] s)\<lparr>qe_prev := uint pixel\<rparr>
           else
             let s = s\<lparr>qe_hashes := (qe_hashes s)[index := uint pixel]\<rparr> in
             if qe_prev s < 0 then (qoi_write (qoi_rgb col) s)\<lparr>qe_prev := uint pixel\<rparr>
             else
               let pcol = pf_color pf (word_of_int (qe_prev s));
                   vr = sint (col_r col - col_r pcol);
                   vg = sint (col_g col - col_g pcol);
                   vb = sint (col_b col - col_b pcol)
               in if vr > - 3 \<and> vr < 2 \<and> vg > - 3 \<and> vg < 2 \<and> vb > - 3 \<and> vb < 2
                  then (qoi_write [word_of_int (0x40 OR push_bit 4 (vr + 2) OR push_bit 2 (vg + 2) OR (vb + 2))] s)
                         \<lparr>qe_prev := uint pixel\<rparr>
                  else
                    let vg_r = sint (word_of_int (vr - vg) :: u8);
                        vg_b = sint (word_of_int (vb - vg) :: u8)
                    in if vg_r > - 9 \<and> vg_r < 8 \<and> vg > - 33 \<and> vg < 32 \<and> vg_b > - 9 \<and> vg_b < 8
                       then (qoi_write [word_of_int (0x80 OR (vg + 32)),
                               word_of_int (push_bit 4 (vg_r + 8) OR (vg_b + 8))] s)\<lparr>qe_prev := uint pixel\<rparr>
                       else (qoi_write (qoi_rgb col) s)\<lparr>qe_prev := uint pixel\<rparr>)"

definition encodeBGRx :: "bool \<Rightarrow> framebuffer \<Rightarrow> region \<Rightarrow> pixelformat \<Rightarrow> bytes res" where
  "encodeBGRx be fb reg clientPf =
     rbind (foldM (\<lambda>(px, py) s.
       let pixelLast = (int py = uint (rg_height reg) - 1 \<and> int px = uint (rg_width reg) - 1) in
       rbind (fb_color be fb (point_add (topLeft reg) (Point (of_nat px) (of_nat py)))) (\<lambda>col.
       Inr (qoi_encode_pixel clientPf (pf_pixel clientPf col) pixelLast s))) (loop_coords reg) qoi_encoder_init) (\<lambda>s.
     Inr (qe_out s @ [0, 0, 0, 0, 0, 0, 0, 1]))"

definition qoi_sendRegion :: "encoderstream \<Rightarrow> point \<Rightarrow> region \<Rightarrow> framebuffer \<Rightarrow> encodingret res" where
  "qoi_sendRegion st orig reg fb =
     rbind (encodeBGRx (es_be st) fb reg (clientFormat st)) (\<lambda>bb. Inr (region_add reg orig, bb))"

definition qoi_sendFrameBuffer ::
  "(bytes \<Rightarrow> bytes res) \<Rightarrow> encoderstream \<Rightarrow> bool \<Rightarrow> int \<Rightarrow> framebuffer \<Rightarrow> bytes res" where
  "qoi_sendFrameBuffer lz4 st zqoi threads fb =
     (let orig = topLeft (fb_reg fb);
          type = (if zqoi then ENCODING_LTSM_ZQOI else ENCODING_LTSM_QOI)
      in rbind (block_regions st threads fb) (\<lambda>regions.
         send_regions (\<lambda>reg. qoi_sendRegion st orig reg fb)
           (\<lambda>(reg, bb). rbind (if zqoi then lz4 bb else Inr bb) (\<lambda>bb.
              Inr (sendHeader type reg @ be_bytes 4 (of_nat (length bb) :: u32) @ bb)))
           orig regions))"

end
