(* ===== verification/Decodings.thy ===== *)
theory Decodings
  imports Rfb_Common Frame_Buffer
begin

text \<open>
  \<^verbatim>\<open>src/src/librfb/client/librfb_decodings.cpp\<close>: the client's decoders Raw, RRE and CoRRE, HexTile,
  TRLE and ZRLE, ZLib, LZ4 and QOI, over the receiving side of a stream (\<open>get\<close>, the virtual
  \<open>recvRaw\<close>) and the operations of a \<open>DecoderRender\<close>, which the record \<open>decoderrender\<close> collects.
  \<open>be\<close> is the client's byte order. \<open>inflate\<close> and \<open>lz4d\<close> stand for zlib and lz4.
\<close>

section \<open>DecoderStream\<close>

definition recvData :: "'s get_raw \<Rightarrow> nat \<Rightarrow> 's \<Rightarrow> (bytes \<times> 's) res" where
  "recvData get len s = (if len = 0 then Inr ([], s) else get s len)"

definition recvInt8 :: "'s get_raw \<Rightarrow> 's \<Rightarrow> (u8 \<times> 's) res" where
  "recvInt8 get = getInt8 get"

definition recvIntLE16 :: "bool \<Rightarrow> 's get_raw \<Rightarrow> 's \<Rightarrow> (u16 \<times> 's) res" where
  "recvIntLE16 be get = getIntLE16 be get"

definition recvIntLE32 :: "bool \<Rightarrow> 's get_raw \<Rightarrow> 's \<Rightarrow> (u32 \<times> 's) res" where
  "recvIntLE32 be get = getIntLE32 be get"

definition recvIntBE16 :: "bool \<Rightarrow> 's get_raw \<Rightarrow> 's \<Rightarrow> (u16 \<times> 's) res" where
  "recvIntBE16 be get = getIntBE16 be get"

definition recvIntBE32 :: "bool \<Rightarrow> 's get_raw \<Rightarrow> 's \<Rightarrow> (u32 \<times> 's) res" where
  "recvIntBE32 be get = getIntBE32 be get"

text \<open>
  The \<open>switch\<close> has no label for two bytes per pixel: the 16 bit read stands behind a \<open>return\<close>.
\<close>

definition recvPixel :: "bool \<Rightarrow> 's get_raw \<Rightarrow> pixelformat \<Rightarrow> 's \<Rightarrow> (u32 \<times> 's) res" where
  "recvPixel be get clientPf s =
     (if bytePixel clientPf = 4 then (if be then recvIntBE32 be get s else recvIntLE32 be get s)
      else if bytePixel clientPf = 1 then rbind (recvInt8 get s) (\<lambda>(v, s). Inr (ucast v, s))
      else Inl RfbError)"

definition recvCPixel :: "bool \<Rightarrow> 's get_raw \<Rightarrow> pixelformat \<Rightarrow> 's \<Rightarrow> (u32 \<times> 's) res" where
  "recvCPixel be get clientPf s =
     (if bitsPixel clientPf \<noteq> 32 then recvPixel be get clientPf s
      else
        let skip = (if be then leastSignificant clientPf else \<not> leastSignificant clientPf)
        in rbind (get s 3) (\<lambda>(bs, s).
           Inr (native_val be (if skip then 0 # bs else bs @ [0]), s)))"

text \<open>The loop ends at a byte other than 255; a stream of nothing else keeps it running.\<close>

partial_function (option) recv_run :: "'s get_raw \<Rightarrow> 's \<Rightarrow> u32 \<Rightarrow> (u32 \<times> 's) res option" where
  "recv_run get s len = (case getInt8 get s of
       Inl e \<Rightarrow> Some (Inl e)
     | Inr (val, s) \<Rightarrow>
         if val \<noteq> 255 then Some (Inr (len + ucast val + 1, s)) else recv_run get s (len + ucast val))"

definition recvRunLength :: "'s get_raw \<Rightarrow> 's \<Rightarrow> (u32 \<times> 's) res" where
  "recvRunLength get s = (case recv_run get s 0 of None \<Rightarrow> Inl Diverges | Some r \<Rightarrow> r)"

section \<open>DecoderRender\<close>

text \<open>
  \<open>postDecoderJob\<close> runs the decoding function it is given, on a pool or at once, and hands its
  result to \<open>updateRawPixels\<close>; the function's parameters are the buffer, the region, the pitch and
  the format.
\<close>

type_synonym decoder_job = "bytes \<Rightarrow> region \<Rightarrow> u32 \<Rightarrow> pixelformat \<Rightarrow> bytes res"

record 'r decoderrender =
  dr_serverFormat :: "'r \<Rightarrow> pixelformat"
  dr_clientFormat :: "'r \<Rightarrow> pixelformat"
  dr_setPixel :: "point \<Rightarrow> u32 \<Rightarrow> 'r \<Rightarrow> 'r res"
  dr_fillPixel :: "region \<Rightarrow> u32 \<Rightarrow> 'r \<Rightarrow> 'r res"
  dr_updateRawPixels :: "region \<Rightarrow> bytes \<Rightarrow> u32 \<Rightarrow> pixelformat \<Rightarrow> 'r \<Rightarrow> 'r res"
  dr_postDecoderJob :: "decoder_job \<Rightarrow> bytes \<Rightarrow> region \<Rightarrow> u32 \<Rightarrow> pixelformat \<Rightarrow> 'r \<Rightarrow> 'r res"

section \<open>DecodingRaw\<close>

definition region_pitch :: "region \<Rightarrow> pixelformat \<Rightarrow> u32" where
  "region_pitch reg pf = word_of_int (uint (rg_width reg) * uint (bytePixel pf))"

definition raw_updateRegionBuf :: "'r decoderrender \<Rightarrow> bytes \<Rightarrow> region \<Rightarrow> 'r \<Rightarrow> 'r res" where
  "raw_updateRegionBuf rend buf reg r =
     (let pitch = region_pitch reg (dr_clientFormat rend r)
      in dr_updateRawPixels rend reg buf pitch (dr_clientFormat rend r) r)"

section \<open>DecodingRRE\<close>

text \<open>The offset rectangle, and the check that it does not stick out at the right or bottom.\<close>

definition sub_region :: "region \<Rightarrow> region \<Rightarrow> region res" where
  "sub_region reg dst0 =
     (let dst = dst0\<lparr>rg_x := narrow16 (sint (rg_x dst0) + sint (rg_x reg)),
                     rg_y := narrow16 (sint (rg_y dst0) + sint (rg_y reg))\<rparr>
      in if sint (rg_x dst) + uint (rg_width dst) > sint (rg_x reg) + uint (rg_width reg) \<or>
            sint (rg_y dst) + uint (rg_height dst) > sint (rg_y reg) + uint (rg_height reg)
         then Inl RfbError else Inr dst)"

definition recv_rre_rect :: "bool \<Rightarrow> 's get_raw \<Rightarrow> bool \<Rightarrow> 's \<Rightarrow> (region \<times> 's) res" where
  "recv_rre_rect be get corre s =
     (if corre then
        rbind (recvInt8 get s) (\<lambda>(x, s). rbind (recvInt8 get s) (\<lambda>(y, s).
        rbind (recvInt8 get s) (\<lambda>(w, s). rbind (recvInt8 get s) (\<lambda>(h, s).
        Inr (Region (ucast x) (ucast y) (ucast w) (ucast h), s)))))
      else
        rbind (recvIntBE16 be get s) (\<lambda>(x, s). rbind (recvIntBE16 be get s) (\<lambda>(y, s).
        rbind (recvIntBE16 be get s) (\<lambda>(w, s). rbind (recvIntBE16 be get s) (\<lambda>(h, s).
        Inr (Region x y w h, s))))))"

fun rre_subrects ::
  "nat \<Rightarrow> bool \<Rightarrow> 's get_raw \<Rightarrow> 'r decoderrender \<Rightarrow> bool \<Rightarrow> region \<Rightarrow> 's \<Rightarrow> 'r \<Rightarrow> ('s \<times> 'r) res" where
  "rre_subrects 0 be get rend corre reg s r = Inr (s, r)"
| "rre_subrects (Suc n) be get rend corre reg s r =
     rbind (recvPixel be get (dr_clientFormat rend r) s) (\<lambda>(pixel, s).
     rbind (recv_rre_rect be get corre s) (\<lambda>(dst, s).
     rbind (sub_region reg dst) (\<lambda>dst.
     rbind (dr_fillPixel rend dst pixel r) (\<lambda>r.
     rre_subrects n be get rend corre reg s r))))"

definition rre_updateRegionStream ::
  "bool \<Rightarrow> 's get_raw \<Rightarrow> 'r decoderrender \<Rightarrow> bool \<Rightarrow> region \<Rightarrow> 's \<Rightarrow> 'r \<Rightarrow> ('s \<times> 'r) res" where
  "rre_updateRegionStream be get rend corre reg s r =
     rbind (recvIntBE32 be get s) (\<lambda>(subRects, s).
     rbind (recvPixel be get (dr_clientFormat rend r) s) (\<lambda>(bgColor, s).
     rbind (dr_fillPixel rend reg bgColor r) (\<lambda>r.
     rre_subrects (unat subRects) be get rend corre reg s r)))"

section \<open>DecodingHexTile\<close>

record hextilecolors =
  hx_bgColor :: u32
  hx_fgColor :: u32

definition hextile_init :: hextilecolors where
  "hextile_init = \<lparr>hx_bgColor = - 1, hx_fgColor = - 1\<rparr>"

fun hextile_subrects ::
  "nat \<Rightarrow> bool \<Rightarrow> 's get_raw \<Rightarrow> 'r decoderrender \<Rightarrow> u8 \<Rightarrow> u32 \<Rightarrow> region \<Rightarrow> 's \<Rightarrow> 'r \<Rightarrow> ('s \<times> 'r) res" where
  "hextile_subrects 0 be get rend flag fg reg s r = Inr (s, r)"
| "hextile_subrects (Suc n) be get rend flag fg reg s r =
     rbind (if flag AND HEXTILE_COLOURED \<noteq> 0 then recvPixel be get (dr_clientFormat rend r) s
            else Inr (fg, s)) (\<lambda>(pixel, s).
     rbind (recvInt8 get s) (\<lambda>(val1, s).
     rbind (recvInt8 get s) (\<lambda>(val2, s).
     rbind (sub_region reg (Region (ucast (0x0F AND drop_bit 4 val1)) (ucast (0x0F AND val1))
        (1 + ucast (0x0F AND drop_bit 4 val2)) (1 + ucast (0x0F AND val2)))) (\<lambda>dst.
     rbind (dr_fillPixel rend dst pixel r) (\<lambda>r.
     hextile_subrects n be get rend flag fg reg s r)))))"

definition hextile_updateRegionStreamColors ::
  "bool \<Rightarrow> 's get_raw \<Rightarrow> 'r decoderrender \<Rightarrow> region \<Rightarrow> hextilecolors \<Rightarrow> 's \<Rightarrow> 'r \<Rightarrow>
   (hextilecolors \<times> 's \<times> 'r) res" where
  "hextile_updateRegionStreamColors be get rend reg hx s r =
     rbind (recvInt8 get s) (\<lambda>(flag, s).
     if flag AND HEXTILE_RAW \<noteq> 0 then
       let pitch = region_pitch reg (dr_clientFormat rend r) in
       rbind (recvData get (unat pitch * unat (rg_height reg)) s) (\<lambda>(pixels, s).
       rbind (dr_updateRawPixels rend reg pixels pitch (dr_serverFormat rend r) r) (\<lambda>r.
       Inr (hx, s, r)))
     else
       rbind (if flag AND HEXTILE_BACKGROUND \<noteq> 0
              then rbind (recvPixel be get (dr_clientFormat rend r) s) (\<lambda>(p, s). Inr (hx\<lparr>hx_bgColor := p\<rparr>, s))
              else Inr (hx, s)) (\<lambda>(hx, s).
       rbind (dr_fillPixel rend reg (hx_bgColor hx) r) (\<lambda>r.
       rbind (if flag AND HEXTILE_FOREGROUND \<noteq> 0
              then rbind (recvPixel be get (dr_clientFormat rend r) s) (\<lambda>(p, s).
                Inr (flag AND NOT HEXTILE_COLOURED, hx\<lparr>hx_fgColor := p\<rparr>, s))
              else Inr (flag, hx, s)) (\<lambda>(flag, hx, s).
       if flag AND HEXTILE_SUBRECTS \<noteq> 0 then
         rbind (recvInt8 get s) (\<lambda>(subRects, s).
         rbind (hextile_subrects (unat subRects) be get rend flag (hx_fgColor hx) reg s r) (\<lambda>(s, r).
         Inr (hx, s, r)))
       else Inr (hx, s, r)))))"

definition hextile_updateRegionStream ::
  "bool \<Rightarrow> 's get_raw \<Rightarrow> 'r decoderrender \<Rightarrow> region \<Rightarrow> hextilecolors \<Rightarrow> 's \<Rightarrow> 'r \<Rightarrow>
   (hextilecolors \<times> 's \<times> 'r) res" where
  "hextile_updateRegionStream be get rend reg hx s r =
     (if 16 < rg_width reg \<or> 16 < rg_height reg then Inl RfbError
      else hextile_updateRegionStreamColors be get rend reg hx s r)"

section \<open>DecodingTRLE\<close>

text \<open>\<open>BufferWrapper\<close>: the inflated data as a stream.\<close>

definition bufferWrapper_recvRaw :: "streambufref get_raw" where
  "bufferWrapper_recvRaw sb len = ref_readTo sb len"

definition trle_raw ::
  "bool \<Rightarrow> 's get_raw \<Rightarrow> 'r decoderrender \<Rightarrow> region \<Rightarrow> 's \<Rightarrow> 'r \<Rightarrow> ('s \<times> 'r) res" where
  "trle_raw be get rend reg s r =
     foldM (\<lambda>coord (s, r).
       rbind (recvCPixel be get (dr_clientFormat rend r) s) (\<lambda>(pixel, s).
       rbind (dr_setPixel rend (point_add (topLeft reg) coord) pixel r) (\<lambda>r. Inr (s, r))))
     (coordList (pointIterator 0 0 (toSize reg))) (s, r)"

text \<open>A palette of \<open>n\<close> entries, from the first on.\<close>

fun recv_palette :: "nat \<Rightarrow> bool \<Rightarrow> 's get_raw \<Rightarrow> pixelformat \<Rightarrow> 's \<Rightarrow> (u32 list \<times> 's) res" where
  "recv_palette 0 be get pf s = Inr ([], s)"
| "recv_palette (Suc n) be get pf s =
     rbind (recvCPixel be get pf s) (\<lambda>(p, s). rbind (recv_palette n be get pf s) (\<lambda>(ps, s). Inr (p # ps, s)))"

definition trle_packed_row ::
  "'r decoderrender \<Rightarrow> region \<Rightarrow> u32 list \<Rightarrow> nat \<Rightarrow> nat \<Rightarrow> streambits \<Rightarrow> 'r \<Rightarrow> (streambits \<times> 'r) res" where
  "trle_packed_row rend reg palette field oy sb r =
     foldM (\<lambda>ox (sb, r).
       rbind (popValue field sb) (\<lambda>(index, sb).
       if index \<ge> length palette then Inl RfbError
       else rbind (dr_setPixel rend (point_add (topLeft reg) (Point (of_nat ox) (of_nat oy))) (palette ! index) r) (\<lambda>r.
            Inr (sb, r)))) (rev [0..<unat (rg_width reg)]) (sb, r)"

definition trle_packed ::
  "bool \<Rightarrow> 's get_raw \<Rightarrow> 'r decoderrender \<Rightarrow> region \<Rightarrow> nat \<Rightarrow> 's \<Rightarrow> 'r \<Rightarrow> ('s \<times> 'r) res" where
  "trle_packed be get rend reg type s r =
     (let field = (if 4 < type then 4 else if 2 < type then 2 else 1);
          bits = field * unat (rg_width reg);
          rowsz = bits div 8;
          rowsz = (if rowsz * 8 < bits then rowsz + 1 else rowsz)
      in rbind (recv_palette type be get (dr_clientFormat rend r) s) (\<lambda>(palette, s).
         foldM (\<lambda>oy (s, r).
           rbind (recvData get rowsz s) (\<lambda>(row, s).
           rbind (streamBitsUnpack row (unat (rg_width reg)) field) (\<lambda>sb.
           rbind (trle_packed_row rend reg palette field oy sb r) (\<lambda>(sb, r). Inr (s, r)))))
         [0..<unat (rg_height reg)] (s, r)))"

text \<open>One run: set a pixel and step on, as long as pixels are left.\<close>

fun set_run ::
  "'r decoderrender \<Rightarrow> region \<Rightarrow> u32 \<Rightarrow> nat \<Rightarrow> pointiterator \<Rightarrow> 'r \<Rightarrow> (pointiterator \<times> 'r) res" where
  "set_run rend reg pixel 0 coord r = Inr (coord, r)"
| "set_run rend reg pixel (Suc n) coord r =
     rbind (dr_setPixel rend (point_add (topLeft reg) (it_point coord)) pixel r) (\<lambda>r.
     rbind (it_inc coord) (\<lambda>coord.
     if \<not> it_isValid coord \<and> n \<noteq> 0 then Inl RfbError else set_run rend reg pixel n coord r))"

definition plain_step ::
  "bool \<Rightarrow> 's get_raw \<Rightarrow> 'r decoderrender \<Rightarrow> region \<Rightarrow> pointiterator \<Rightarrow> 's \<Rightarrow> 'r \<Rightarrow>
   (pointiterator \<times> 's \<times> 'r) res" where
  "plain_step be get rend reg coord s r =
     rbind (recvCPixel be get (dr_clientFormat rend r) s) (\<lambda>(pixel, s).
     rbind (recvRunLength get s) (\<lambda>(runLength, s).
     rbind (set_run rend reg pixel (unat runLength) coord r) (\<lambda>(coord, r). Inr (coord, s, r))))"

definition palette_step ::
  "'s get_raw \<Rightarrow> 'r decoderrender \<Rightarrow> region \<Rightarrow> u32 list \<Rightarrow> pointiterator \<Rightarrow> 's \<Rightarrow> 'r \<Rightarrow>
   (pointiterator \<times> 's \<times> 'r) res" where
  "palette_step get rend reg palette coord s r =
     rbind (recvInt8 get s) (\<lambda>(index, s).
     if index < 128 then
       if unat index \<ge> length palette then Inl RfbError
       else rbind (dr_setPixel rend (point_add (topLeft reg) (it_point coord)) (palette ! unat index) r) (\<lambda>r.
            rbind (it_inc coord) (\<lambda>coord. Inr (coord, s, r)))
     else
       let index = index - 128 in
       if unat index \<ge> length palette then Inl RfbError
       else rbind (recvRunLength get s) (\<lambda>(runLength, s).
            rbind (set_run rend reg (palette ! unat index) (unat runLength) coord r) (\<lambda>(coord, r).
            Inr (coord, s, r))))"

text \<open>The loop over the runs; a run whose length wraps to zero makes no progress.\<close>

partial_function (option) run_loop ::
  "(pointiterator \<Rightarrow> 's \<Rightarrow> 'r \<Rightarrow> (pointiterator \<times> 's \<times> 'r) res) \<Rightarrow> pointiterator \<Rightarrow> 's \<Rightarrow> 'r \<Rightarrow>
   ('s \<times> 'r) res option" where
  "run_loop step coord s r =
     (if it_isValid coord then
        case step coord s r of
          Inl e \<Rightarrow> Some (Inl e)
        | Inr (coord, s, r) \<Rightarrow> run_loop step coord s r
      else Some (Inr (s, r)))"

definition loop_runs ::
  "(pointiterator \<Rightarrow> 's \<Rightarrow> 'r \<Rightarrow> (pointiterator \<times> 's \<times> 'r) res) \<Rightarrow> region \<Rightarrow> 's \<Rightarrow> 'r \<Rightarrow> ('s \<times> 'r) res" where
  "loop_runs step reg s r = (case run_loop step (pointIterator 0 0 (toSize reg)) s r of
     None \<Rightarrow> Inl Diverges | Some x \<Rightarrow> x)"

definition trle_updateSubRegion ::
  "bool \<Rightarrow> 's get_raw \<Rightarrow> 'r decoderrender \<Rightarrow> region \<Rightarrow> 's \<Rightarrow> 'r \<Rightarrow> ('s \<times> 'r) res" where
  "trle_updateSubRegion be get rend reg s r =
     rbind (recvInt8 get s) (\<lambda>(type, s).
     if type = 0 then trle_raw be get rend reg s r
     else if type = 1 then
       rbind (recvCPixel be get (dr_clientFormat rend r) s) (\<lambda>(solid, s).
       rbind (dr_fillPixel rend reg solid r) (\<lambda>r. Inr (s, r)))
     else if 2 \<le> type \<and> type \<le> 16 then trle_packed be get rend reg (unat type) s r
     else if 17 \<le> type \<and> type \<le> 127 \<or> type = 129 then Inl RfbError
     else if type = 128 then loop_runs (plain_step be get rend reg) reg s r
     else
       rbind (recv_palette (unat type - 128) be get (dr_clientFormat rend r) s) (\<lambda>(palette, s).
       loop_runs (palette_step get rend reg palette) reg s r))"

definition trle_updateRegionStream ::
  "('z \<Rightarrow> bytes \<Rightarrow> (bytes \<times> 'z) res) \<Rightarrow> bool \<Rightarrow> 's get_raw \<Rightarrow> 'r decoderrender \<Rightarrow> bool \<Rightarrow> region \<Rightarrow>
   'z \<Rightarrow> 's \<Rightarrow> 'r \<Rightarrow> ('z \<times> 's \<times> 'r) res" where
  "trle_updateRegionStream inflate be get rend zrle reg z s r =
     (if zrle then
        rbind (recvIntBE32 be get s) (\<lambda>(len, s).
        rbind (recvData get (unat len) s) (\<lambda>(zip, s).
        rbind (inflate z zip) (\<lambda>(buf, z).
        rbind (returning (divideBlocks reg (Size 64 64))) (\<lambda>regs.
        rbind (foldM (\<lambda>reg0 (w, r). trle_updateSubRegion be bufferWrapper_recvRaw rend reg0 w r) regs
          (streamBufRef (Some buf) (length buf), r)) (\<lambda>(w, r). Inr (z, s, r))))))
      else
        rbind (returning (divideBlocks reg (Size 64 64))) (\<lambda>regs.
        rbind (foldM (\<lambda>reg0 (s, r). trle_updateSubRegion be get rend reg0 s r) regs (s, r)) (\<lambda>(s, r).
        Inr (z, s, r))))"

section \<open>DecodingZlib and DecodingLZ4\<close>

definition zlib_updateRegionBuf ::
  "('z \<Rightarrow> bytes \<Rightarrow> (bytes \<times> 'z) res) \<Rightarrow> 'r decoderrender \<Rightarrow> bytes \<Rightarrow> region \<Rightarrow> 'z \<Rightarrow> 'r \<Rightarrow> ('z \<times> 'r) res" where
  "zlib_updateRegionBuf inflate rend buf reg z r =
     (let pitch = region_pitch reg (dr_clientFormat rend r) in
      rbind (inflate z buf) (\<lambda>(pixels, z).
      rbind (require (length pixels \<ge> unat pitch * unat (rg_height reg)) AssertFailed) (\<lambda>_.
      rbind (dr_updateRawPixels rend reg pixels pitch (dr_serverFormat rend r) r) (\<lambda>r. Inr (z, r)))))"

definition decodeLZ4 :: "(bytes \<Rightarrow> nat \<Rightarrow> bytes res) \<Rightarrow> decoder_job" where
  "decodeLZ4 lz4d buf reg pitch pf = lz4d buf (unat pitch * unat (rg_height reg))"

definition lz4_updateRegionBuf ::
  "(bytes \<Rightarrow> nat \<Rightarrow> bytes res) \<Rightarrow> 'r decoderrender \<Rightarrow> bytes \<Rightarrow> region \<Rightarrow> 'r \<Rightarrow> 'r res" where
  "lz4_updateRegionBuf lz4d rend buf reg r =
     (let pitch = region_pitch reg (dr_serverFormat rend r)
      in dr_postDecoderJob rend (decodeLZ4 lz4d) buf reg pitch (dr_serverFormat rend r) r)"

section \<open>DecodingQOI\<close>

definition packBGRx :: "color \<Rightarrow> pixelformat \<Rightarrow> u32" where
  "packBGRx col pf = push_bit (unat (blueShift pf)) (ucast (col_b col)) OR
     push_bit (unat (greenShift pf)) (ucast (col_g col)) OR push_bit (unat (redShift pf)) (ucast (col_r col))"

definition unpackBGRx :: "u32 \<Rightarrow> pixelformat \<Rightarrow> color" where
  "unpackBGRx pixel pf = \<lparr>col_r = ucast (drop_bit (unat (redShift pf)) (pixel AND rmask pf)),
     col_g = ucast (drop_bit (unat (greenShift pf)) (pixel AND gmask pf)),
     col_b = ucast (drop_bit (unat (blueShift pf)) (pixel AND bmask pf)), col_x = 0\<rparr>"

definition qoi_hash :: "color \<Rightarrow> nat" where
  "qoi_hash col = (unat (col_r col) * 3 + unat (col_g col) * 5 + unat (col_b col) * 7) mod 64"

record qoi_decoder =
  qd_hashes :: "int list"
  qd_prev :: int
  qd_run :: u8
  qd_sb :: streambufref

definition qoi_decoder_init :: "bytes \<Rightarrow> qoi_decoder" where
  "qoi_decoder_init buf = \<lparr>qd_hashes = replicate 64 (- 1), qd_prev = - 1, qd_run = 0,
     qd_sb = streamBufRef (Some buf) (length buf)\<rparr>"

definition qoi_literal :: "pixelformat \<Rightarrow> color \<Rightarrow> qoi_decoder \<Rightarrow> qoi_decoder" where
  "qoi_literal pf col s = (let p = uint (packBGRx col pf) in
     s\<lparr>qd_prev := p, qd_hashes := (qd_hashes s)[qoi_hash col := p]\<rparr>)"

text \<open>One pixel: the state afterwards; the pixel set is the previous pixel of that state.\<close>

definition qoi_decode_pixel :: "pixelformat \<Rightarrow> qoi_decoder \<Rightarrow> qoi_decoder res" where
  "qoi_decode_pixel pf s =
     (if qd_run s \<noteq> 0 then Inr (s\<lparr>qd_run := qd_run s - 1\<rparr>)
      else if ref_last (qd_sb s) = 0 then Inl RfbError
      else rbind (getInt8 ref_getRaw (qd_sb s)) (\<lambda>(type, sb).
        let s = s\<lparr>qd_sb := sb\<rparr> in
        if type = 0xFE then
          rbind (getInt8 ref_getRaw sb) (\<lambda>(r, sb). rbind (getInt8 ref_getRaw sb) (\<lambda>(g, sb).
          rbind (getInt8 ref_getRaw sb) (\<lambda>(b, sb).
          Inr (qoi_literal pf \<lparr>col_r = r, col_g = g, col_b = b, col_x = 0\<rparr> (s\<lparr>qd_sb := sb\<rparr>)))))
        else if type AND 0xC0 = 0x00 then
          if 64 \<le> unat type then Inl RfbError
          else if qd_hashes s ! unat type < 0 then Inl RfbError
          else Inr (s\<lparr>qd_prev := qd_hashes s ! unat type\<rparr>)
        else if type AND 0xC0 = 0x40 then
          let col = unpackBGRx (word_of_int (qd_prev s)) pf
          in Inr (qoi_literal pf (col\<lparr>col_r := col_r col + (drop_bit 4 type AND 3) - 2,
               col_g := col_g col + (drop_bit 2 type AND 3) - 2, col_b := col_b col + (type AND 3) - 2\<rparr>) s)
        else if type AND 0xC0 = 0x80 then
          rbind (getInt8 ref_getRaw sb) (\<lambda>(lm, sb).
          let vg = (type AND 0x3F) - 32; col = unpackBGRx (word_of_int (qd_prev s)) pf
          in Inr (qoi_literal pf (col\<lparr>col_r := col_r col + (vg - 8 + (drop_bit 4 lm AND 0x0F)),
               col_g := col_g col + vg, col_b := col_b col + (vg - 8 + (lm AND 0x0F))\<rparr>) (s\<lparr>qd_sb := sb\<rparr>)))
        else if type AND 0xC0 = 0xC0 then Inr (s\<lparr>qd_run := type AND 0x3F\<rparr>)
        else Inl RfbError))"

text \<open>
  The pixels go to a frame buffer over the result; its constructor takes the pitch as a
  \<open>uint16_t\<close>.
\<close>

definition decodeBGRx :: "bool \<Rightarrow> decoder_job" where
  "decodeBGRx be buf rsz pitch pf =
     rbind (foldM (\<lambda>(px, py) (s, fb).
         rbind (qoi_decode_pixel pf s) (\<lambda>s.
         rbind (setPixel be fb (Point (of_nat px) (of_nat py)) (word_of_int (qd_prev s)) None) (\<lambda>fb.
         Inr (s, fb)))) (loop_coords rsz)
       (qoi_decoder_init buf, frameBuffer_wrap (replicate (unat pitch * unat (rg_height rsz)) 0)
          (Region 0 0 (rg_width rsz) (rg_height rsz)) pf (ucast pitch))) (\<lambda>(s, fb).
     Inr (fb_buffer (fb_ptr fb)))"

definition decodeZQOI :: "(bytes \<Rightarrow> nat \<Rightarrow> bytes res) \<Rightarrow> bool \<Rightarrow> decoder_job" where
  "decodeZQOI lz4d be buf rsz pitch pf =
     rbind (lz4d buf (unat pitch * unat (rg_height rsz))) (\<lambda>buf. decodeBGRx be buf rsz pitch pf)"

definition qoi_updateRegionBuf ::
  "(bytes \<Rightarrow> nat \<Rightarrow> bytes res) \<Rightarrow> bool \<Rightarrow> 'r decoderrender \<Rightarrow> bool \<Rightarrow> bytes \<Rightarrow> region \<Rightarrow> 'r \<Rightarrow> 'r res" where
  "qoi_updateRegionBuf lz4d be rend zqoi buf reg r =
     (let pitch = region_pitch reg (dr_serverFormat rend r);
          run = (if zqoi then decodeZQOI lz4d be else decodeBGRx be)
      in dr_postDecoderJob rend run buf reg pitch (dr_serverFormat rend r) r)"

section \<open>A render: vnc2image\<close>

text \<open>
  \<^verbatim>\<open>src/src/tools/vnc2image/ltsm_vnc2image.cpp\<close>: the render that keeps a frame buffer. The server's
  format comes with the connection.
\<close>

record vnc2image =
  vi_serverFormat :: pixelformat
  vi_fb :: framebuffer

definition vi_setPixel :: "bool \<Rightarrow> point \<Rightarrow> u32 \<Rightarrow> vnc2image \<Rightarrow> vnc2image res" where
  "vi_setPixel be dst pixel v = rbind (setPixel be (vi_fb v) dst pixel None) (\<lambda>fb. Inr (v\<lparr>vi_fb := fb\<rparr>))"

definition vi_fillPixel :: "bool \<Rightarrow> bool \<Rightarrow> region \<Rightarrow> u32 \<Rightarrow> vnc2image \<Rightarrow> vnc2image res" where
  "vi_fillPixel be par dst pixel v =
     rbind (fillPixel be par (vi_fb v) dst pixel None) (\<lambda>fb. Inr (v\<lparr>vi_fb := fb\<rparr>))"

definition vi_updateRawPixels ::
  "bool \<Rightarrow> bool \<Rightarrow> region \<Rightarrow> bytes \<Rightarrow> u32 \<Rightarrow> pixelformat \<Rightarrow> vnc2image \<Rightarrow> vnc2image res" where
  "vi_updateRawPixels be par reg buf pitch pf v =
     (let fb = frameBuffer_wrap buf (Region 0 0 (rg_width reg) (rg_height reg)) pf (ucast pitch) in
      rbind (blitRegion be par (vi_fb v) fb (fb_reg fb) (topLeft reg)) (\<lambda>fb. Inr (v\<lparr>vi_fb := fb\<rparr>)))"

definition vi_postDecoderJob ::
  "bool \<Rightarrow> bool \<Rightarrow> decoder_job \<Rightarrow> bytes \<Rightarrow> region \<Rightarrow> u32 \<Rightarrow> pixelformat \<Rightarrow> vnc2image \<Rightarrow> vnc2image res" where
  "vi_postDecoderJob be par func buf1 reg pitch pf v =
     rbind (func buf1 reg pitch pf) (\<lambda>buf2.
     rbind (require (length buf2 = unat pitch * unat (rg_height reg)) AssertFailed) (\<lambda>_.
     vi_updateRawPixels be par reg buf2 pitch pf v))"

definition vi_render :: "bool \<Rightarrow> bool \<Rightarrow> vnc2image decoderrender" where
  "vi_render be par = \<lparr>dr_serverFormat = vi_serverFormat, dr_clientFormat = (\<lambda>v. pixelFormat (vi_fb v)),
     dr_setPixel = vi_setPixel be, dr_fillPixel = vi_fillPixel be par,
     dr_updateRawPixels = vi_updateRawPixels be par, dr_postDecoderJob = vi_postDecoderJob be par\<rparr>"

end
