(* ===== verification/Frame_Buffer_Image.thy ===== *)
theory Frame_Buffer_Image
  imports Frame_Buffer "HOL-Library.Multiset"
begin

text \<open>
  The pixel memory of \<open>FrameBuffer\<close> refines an image, a function from positions to pixels:
  \<open>setPixelRow\<close>, \<open>fillPixel\<close>, \<open>blitRegion\<close> and the region copies change exactly the positions
  they name, whatever the byte order, the pitch, the parallel jobs and their schedule.
\<close>

section \<open>Geometry\<close>

definition fb_ox :: "framebuffer \<Rightarrow> nat" where
  "fb_ox fb = (if fb_owner fb then 0 else nat (sint (rg_x (fb_reg fb))))"

definition fb_oy :: "framebuffer \<Rightarrow> nat" where
  "fb_oy fb = (if fb_owner fb then 0 else nat (sint (rg_y (fb_reg fb))))"

text \<open>
  A well formed frame buffer: a depth the code knows, and every pixel of its region inside a row
  and every row inside the block. A view into another frame buffer has its region's origin in
  the block; the owner starts at the block's first byte.
\<close>

definition fb_wf :: "framebuffer \<Rightarrow> bool" where
  "fb_wf fb \<longleftrightarrow> bitsPerPixel fb \<in> {8, 16, 24, 32} \<and> 8 * bytePerPixel fb = bitsPerPixel fb \<and>
     (fb_owner fb \<or> 0 \<le> sint (rg_x (fb_reg fb)) \<and> 0 \<le> sint (rg_y (fb_reg fb))) \<and>
     bytePerPixel fb * (fb_ox fb + fb_width fb) \<le> unat (fb_pitch (fb_ptr fb)) \<and>
     unat (fb_pitch (fb_ptr fb)) * (fb_oy fb + fb_height fb) \<le> length (fb_buffer (fb_ptr fb))"

definition pix_off :: "framebuffer \<Rightarrow> nat \<Rightarrow> nat \<Rightarrow> nat" where
  "pix_off fb x y = unat (fb_pitch (fb_ptr fb)) * (fb_oy fb + y) + bytePerPixel fb * (fb_ox fb + x)"

text \<open>The abstract frame buffer: the pixel value at every position.\<close>

definition fb_image :: "bool \<Rightarrow> framebuffer \<Rightarrow> nat \<Rightarrow> nat \<Rightarrow> u32" where
  "fb_image be fb x y = (case raw_at be fb (int (pix_off fb x y)) of Inr p \<Rightarrow> p | Inl _ \<Rightarrow> 0)"

text \<open>\<open>paints be fb g fb'\<close>: \<open>fb'\<close> is \<open>fb\<close> with pixels that show the image \<open>g\<close>.\<close>

definition same_frame :: "framebuffer \<Rightarrow> framebuffer \<Rightarrow> bool" where
  "same_frame fb fb' \<longleftrightarrow> (\<exists>m. length m = length (fb_buffer (fb_ptr fb)) \<and> fb' = set_buffer m fb)"

definition paints :: "bool \<Rightarrow> framebuffer \<Rightarrow> (nat \<Rightarrow> nat \<Rightarrow> u32) \<Rightarrow> framebuffer \<Rightarrow> bool" where
  "paints be fb g fb' \<longleftrightarrow> same_frame fb fb' \<and>
     (\<forall>x y. x < fb_width fb \<and> y < fb_height fb \<longrightarrow> fb_image be fb' x y = g x y)"

lemma set_buffer_simps [simp]:
  "bitsPerPixel (set_buffer m fb) = bitsPerPixel fb" "bytePerPixel (set_buffer m fb) = bytePerPixel fb"
  "pixelFormat (set_buffer m fb) = pixelFormat fb" "fb_width (set_buffer m fb) = fb_width fb"
  "fb_height (set_buffer m fb) = fb_height fb" "fb_reg (set_buffer m fb) = fb_reg fb"
  "fb_owner (set_buffer m fb) = fb_owner fb" "fb_pitch (fb_ptr (set_buffer m fb)) = fb_pitch (fb_ptr fb)"
  "fb_buffer (fb_ptr (set_buffer m fb)) = m" "pitchData (set_buffer m fb) r = pitchData fb r"
  "fb_ox (set_buffer m fb) = fb_ox fb" "fb_oy (set_buffer m fb) = fb_oy fb"
  "pix_off (set_buffer m fb) x y = pix_off fb x y" "set_buffer m (set_buffer m' fb) = set_buffer m fb"
  by (simp_all add: set_buffer_def bitsPerPixel_def bytePerPixel_def pixelFormat_def fb_width_def
      fb_height_def pitchData_def fb_ox_def fb_oy_def pix_off_def)

lemma same_frame_simps:
  assumes "same_frame fb fb'"
  shows "bitsPerPixel fb' = bitsPerPixel fb" "bytePerPixel fb' = bytePerPixel fb"
    "pixelFormat fb' = pixelFormat fb" "fb_width fb' = fb_width fb" "fb_height fb' = fb_height fb"
    "fb_reg fb' = fb_reg fb" "fb_owner fb' = fb_owner fb" "pix_off fb' x y = pix_off fb x y"
    "pitchData fb' r = pitchData fb r" "fb_wf fb' = fb_wf fb"
  using assms by (auto simp: same_frame_def fb_wf_def)

lemma same_frame_refl [simp]: "same_frame fb fb"
  unfolding same_frame_def by (rule exI [of _ "fb_buffer (fb_ptr fb)"]) (simp add: set_buffer_def)

lemma same_frame_trans: "same_frame a b \<Longrightarrow> same_frame b c \<Longrightarrow> same_frame a c"
  by (auto simp: same_frame_def)

lemma pitchData_wf:
  assumes "fb_wf fb" and "y < fb_height fb"
  shows "pitchData fb (int y) = int (pix_off fb 0 y)"
proof -
  have y: "y < 65536" using assms(2) unsigned_less [of "rg_height (fb_reg fb)", where ?'a = nat]
    by (simp add: fb_height_def)
  have oy: "fb_oy fb < 65536" using u16_bounds(2) [of "rg_y (fb_reg fb)"] by (auto simp: fb_oy_def)
  have pitch: "unat (fb_pitch (fb_ptr fb)) < 2 ^ 32"
    using unsigned_less [of "fb_pitch (fb_ptr fb)", where ?'a = nat] by simp
  have col: "bytePerPixel fb * fb_ox fb < 2 ^ 32"
    using assms(1) pitch by (auto simp: fb_wf_def distrib_left)
  have "(if fb_owner fb then word_of_int (int y) else word_of_int (sint (rg_y (fb_reg fb)) + int y) :: u64)
      = of_nat (fb_oy fb + y)"
    using assms(1) by (auto simp: fb_oy_def fb_wf_def)
  moreover have "(if fb_owner fb then 0 else word_of_int (int (bytePerPixel fb) * sint (rg_x (fb_reg fb))) :: u32)
      = of_nat (bytePerPixel fb * fb_ox fb)"
    using assms(1) by (auto simp: fb_ox_def fb_wf_def)
  moreover have "uint (ucast (fb_pitch (fb_ptr fb)) * of_nat (fb_oy fb + y) :: u64) =
      int (unat (fb_pitch (fb_ptr fb)) * (fb_oy fb + y))"
  proof -
    have "unat (fb_pitch (fb_ptr fb)) * (fb_oy fb + y) < 2 ^ 32 * 2 ^ 17"
      using pitch y oy by (intro mult_strict_mono) auto
    then have "unat (of_nat (unat (fb_pitch (fb_ptr fb)) * (fb_oy fb + y)) :: u64) =
        unat (fb_pitch (fb_ptr fb)) * (fb_oy fb + y)"
      by (simp only: unsigned_of_nat) (simp add: take_bit_nat_eq_self)
    moreover have "ucast (fb_pitch (fb_ptr fb)) * of_nat (fb_oy fb + y) =
        (of_nat (unat (fb_pitch (fb_ptr fb)) * (fb_oy fb + y)) :: u64)"
      by simp
    ultimately show ?thesis by (metis of_nat_unat)
  qed
  moreover have "uint (of_nat (bytePerPixel fb * fb_ox fb) :: u32) = int (bytePerPixel fb * fb_ox fb)"
    using col by (simp only: unsigned_of_nat) (simp add: take_bit_nat_eq_self flip: of_nat_mult)
  ultimately show ?thesis by (simp add: pitchData_def pix_off_def Let_def del: of_nat_mult of_nat_add)
qed

lemma pix_off_x: "pix_off fb x y = pix_off fb 0 y + bytePerPixel fb * x"
  by (simp add: pix_off_def distrib_left)

lemma pix_addr:
  assumes "fb_wf fb" and "y < fb_height fb"
  shows "pitchData fb (int y) + int x * int (bytePerPixel fb) = int (pix_off fb x y)"
  by (simp add: pitchData_wf [OF assms] pix_off_x [of fb x] mult.commute)

lemma pix_room:
  assumes "fb_wf fb" and "y < fb_height fb" and "x + n \<le> fb_width fb"
  shows "pix_off fb x y + bytePerPixel fb * n \<le> length (fb_buffer (fb_ptr fb))"
    and "y < y' \<Longrightarrow> pix_off fb x y + bytePerPixel fb * n \<le> pix_off fb x' y'"
proof -
  let ?p = "unat (fb_pitch (fb_ptr fb))"
  have "bytePerPixel fb * (fb_ox fb + x + n) \<le> bytePerPixel fb * (fb_ox fb + fb_width fb)"
    using assms(3) by (intro mult_le_mono2) simp
  also have "\<dots> \<le> ?p" using assms(1) by (simp add: fb_wf_def)
  finally have "pix_off fb x y + bytePerPixel fb * n \<le> ?p * (fb_oy fb + y) + ?p"
    by (simp add: pix_off_def distrib_left)
  also have "\<dots> = ?p * (fb_oy fb + y + 1)" by (simp add: distrib_left)
  finally have row: "pix_off fb x y + bytePerPixel fb * n \<le> ?p * (fb_oy fb + y + 1)" .
  also have "\<dots> \<le> ?p * (fb_oy fb + fb_height fb)" using assms(2) by (intro mult_le_mono2) simp
  also have "\<dots> \<le> length (fb_buffer (fb_ptr fb))" using assms(1) by (simp add: fb_wf_def)
  finally show "pix_off fb x y + bytePerPixel fb * n \<le> length (fb_buffer (fb_ptr fb))" .
  assume "y < y'"
  then have "?p * (fb_oy fb + y + 1) \<le> ?p * (fb_oy fb + y')" by (intro mult_le_mono2) simp
  with row show "pix_off fb x y + bytePerPixel fb * n \<le> pix_off fb x' y'"
    by (simp add: pix_off_def)
qed

section \<open>Reading and writing cells\<close>

lemma pixel_cell_length: "pixel_cell be bits p = Some c \<Longrightarrow> 8 * length c = bits"
  by (auto simp: pixel_cell_def split: if_splits)

lemma pixel_cell_Some: "bits \<in> {8, 16, 24, 32} \<Longrightarrow> \<exists>c. pixel_cell be bits p = Some c"
  by (auto simp: pixel_cell_def)

lemma rawPixel_cong:
  "(\<And>n. 8 * n = bpp \<Longrightarrow> rd n = rd' n) \<Longrightarrow> rawPixel be rd bpp e = rawPixel be rd' bpp e"
  by (simp add: rawPixel_def)

lemma rawPixel_cell:
  assumes "pixel_cell be bits p = Some c" and "\<And>n. 8 * n = bits \<Longrightarrow> rd n = Inr c"
  shows "rawPixel be rd bits be = Inr (take_bit bits p)"
proof -
  have 24: "push_bit 8 (push_bit 8 (ucast (ucast (drop_bit 16 p) :: u8)) OR ucast (ucast (drop_bit 8 p) :: u8))
      OR ucast (ucast p :: u8) = take_bit 24 p" (is "?l = ?r")
  proof (rule bit_word_eqI)
    fix n assume "n < LENGTH(32)"
    then show "bit ?l n = bit ?r n"
      by (cases "n < 16") (auto simp: bit_simps not_less)
  qed
  have 16: "ucast (ucast p :: u16) = take_bit 16 p" and 8: "ucast (ucast p :: u8) = take_bit 8 p"
    by (rule bit_word_eqI, auto simp: bit_simps)+
  have "native_val be (native_bytes be 1 (ucast p :: u8)) = (ucast p :: u8)"
    by simp
  with 24 16 8 show ?thesis
    using assms by (auto simp: pixel_cell_def rawPixel_def split: if_splits)
qed

lemma rawPixel_total:
  assumes "bits \<in> {8, 16, 24, 32}" and "\<And>n. 8 * n = bits \<Longrightarrow> \<exists>c. rd n = Inr c"
  shows "\<exists>p. rawPixel be rd bits e = Inr p"
  using assms by (fastforce simp: rawPixel_def Let_def)

lemma fb_read_room:
  "off + n \<le> length (fb_buffer (fb_ptr fb)) \<Longrightarrow>
   fb_read fb (int off) n = Inr (take n (drop off (fb_buffer (fb_ptr fb))))"
  by (simp add: fb_read_def read_mem_def)

lemma raw_at_image:
  assumes "fb_wf fb" and "x < fb_width fb" and "y < fb_height fb"
  shows "raw_at be fb (int (pix_off fb x y)) = Inr (fb_image be fb x y)"
proof -
  have "pix_off fb x y + bytePerPixel fb * 1 \<le> length (fb_buffer (fb_ptr fb))"
    using assms by (intro pix_room) auto
  then have "\<exists>p. raw_at be fb (int (pix_off fb x y)) = Inr p"
    using assms(1) unfolding raw_at_def fb_wf_def
    by (intro rawPixel_total) (auto simp: fb_read_room)
  then show ?thesis by (auto simp: fb_image_def)
qed

lemma image_cong:
  assumes "fb_wf fb" and "same_frame fb fb'"
    and "fb_read fb' (int (pix_off fb x y)) (bytePerPixel fb) = fb_read fb (int (pix_off fb x y)) (bytePerPixel fb)"
  shows "fb_image be fb' x y = fb_image be fb x y"
proof -
  have "rawPixel be (fb_read fb' (int (pix_off fb x y))) (bitsPerPixel fb) be =
      rawPixel be (fb_read fb (int (pix_off fb x y))) (bitsPerPixel fb) be"
    using assms(1,3) by (intro rawPixel_cong) (auto simp: fb_wf_def)
  then show ?thesis by (simp add: fb_image_def raw_at_def same_frame_simps [OF assms(2)])
qed

lemma read_written:
  assumes "write_mem m off bs = Inr m'" and "k + n \<le> length bs"
  shows "read_mem m' (off + k) n = Inr (take n (drop k bs))"
  using assms by (auto simp: write_mem_def read_mem_def split: if_splits)

text \<open>Writing \<open>n\<close> cells from a pixel on, row by row: what every reader sees afterwards.\<close>

lemma fb_write_row:
  assumes wf: "fb_wf fb" and y: "y < fb_height fb" and x: "x + n \<le> fb_width fb"
    and bs: "length bs = bytePerPixel fb * n"
  shows "\<exists>fb'. fb_write fb (int (pix_off fb x y)) bs = Inr fb' \<and> same_frame fb fb' \<and>
    (\<forall>i < n. fb_read fb' (int (pix_off fb (x + i) y)) (bytePerPixel fb) =
       Inr (take (bytePerPixel fb) (drop (bytePerPixel fb * i) bs))) \<and>
    (\<forall>x' y'. x' < fb_width fb \<and> y' < fb_height fb \<and> \<not> (y' = y \<and> x \<le> x' \<and> x' < x + n) \<longrightarrow>
       fb_image be fb' x' y' = fb_image be fb x' y')"
proof -
  let ?b = "bytePerPixel fb" and ?off = "pix_off fb x y" and ?mem = "fb_buffer (fb_ptr fb)"
  have room: "?off + length bs \<le> length ?mem" using pix_room(1) [OF wf y x] bs by simp
  then obtain m where m: "write_mem ?mem ?off bs = Inr m" by (auto simp: write_mem_def)
  define fb' where "fb' = set_buffer m fb"
  have w: "fb_write fb (int ?off) bs = Inr fb'" by (simp add: fb_write_def m fb'_def)
  have frame: "same_frame fb fb'"
    unfolding fb'_def same_frame_def by (rule exI [of _ m]) (simp add: length_write_mem [OF m])
  have "fb_read fb' (int (pix_off fb (x + i) y)) ?b = Inr (take ?b (drop (?b * i) bs))" if "i < n" for i
  proof -
    have "?b * i + ?b \<le> length bs" using that bs mult_le_mono2 [of "Suc i" n ?b] by simp
    moreover have "pix_off fb (x + i) y = ?off + ?b * i"
      by (simp add: pix_off_def distrib_left)
    ultimately show ?thesis
      using read_written [OF m, of "?b * i" ?b] by (simp add: fb_read_def fb'_def flip: of_nat_mult of_nat_add)
  qed
  moreover have "fb_image be fb' x' y' = fb_image be fb x' y'"
    if "x' < fb_width fb" "y' < fb_height fb" "\<not> (y' = y \<and> x \<le> x' \<and> x' < x + n)" for x' y'
  proof (rule image_cong [OF wf frame])
    note out = that
    have one: "x' + 1 \<le> fb_width fb" using out(1) by simp
    consider "y' < y" | "y < y'" | "y' = y" "x' < x" | "y' = y" "x + n \<le> x'"
      using out(3) by (metis linorder_less_linear not_less)
    then have "pix_off fb x' y' + ?b \<le> ?off \<or> ?off + length bs \<le> pix_off fb x' y'"
    proof cases
      case 1 then show ?thesis using pix_room(2) [OF wf out(2) one 1, of x] by simp
    next
      case 2 then show ?thesis using pix_room(2) [OF wf y x 2, of x'] bs by simp
    next
      case 3
      then show ?thesis using mult_le_mono2 [of "Suc x'" x ?b]
        by (simp add: pix_off_x [of fb x'] pix_off_x [of fb x])
    next
      case 4
      then show ?thesis using mult_le_mono2 [of "x + n" x' ?b] bs
        by (simp add: pix_off_x [of fb x'] pix_off_x [of fb x] distrib_left)
    qed
    with read_write_other [OF m, of "pix_off fb x' y'" ?b]
    show "fb_read fb' (int (pix_off fb x' y')) ?b = fb_read fb (int (pix_off fb x' y')) ?b"
      by (simp add: fb_read_def fb'_def)
  qed
  ultimately show ?thesis using w frame by blast
qed

lemma cell_of_row:
  "i < n \<Longrightarrow> take (length c) (drop (length c * i) (concat (replicate n c))) = c"
proof (induction n arbitrary: i)
  case 0
  then show ?case by simp
next
  case (Suc n)
  then show ?case by (cases i) (simp_all flip: drop_drop)
qed

lemma length_row: "length (concat (replicate n c)) = length c * n"
  by (induction n) simp_all

section \<open>Pixels and rows\<close>

lemma setPixelRow_paints:
  assumes wf: "fb_wf fb" and x: "0 \<le> sint (pt_x p)" "sint (pt_x p) < int (fb_width fb)"
    and y: "0 \<le> sint (pt_y p)" "sint (pt_y p) < int (fb_height fb)"
  shows "\<exists>fb'. setPixelRow be fb p raw n = Inr fb' \<and>
    paints be fb (\<lambda>i j. if int j = sint (pt_y p) \<and> sint (pt_x p) \<le> int i \<and> int i < sint (pt_x p) + int n
       then take_bit (bitsPerPixel fb) raw else fb_image be fb i j) fb'"
proof -
  let ?X = "nat (sint (pt_x p))" and ?Y = "nat (sint (pt_y p))" and ?b = "bytePerPixel fb"
  define k where "k = min n (fb_width fb - ?X)"
  obtain c where c: "pixel_cell be (bitsPerPixel fb) raw = Some c"
    using pixel_cell_Some [of "bitsPerPixel fb"] wf by (auto simp: fb_wf_def)
  then have len: "length c = ?b" using pixel_cell_length [OF c] wf by (simp add: fb_wf_def)
  have Y: "?Y < fb_height fb" and X: "?X + k \<le> fb_width fb" using x y by (auto simp: k_def)
  obtain fb' where w: "fb_write fb (int (pix_off fb ?X ?Y)) (concat (replicate k c)) = Inr fb'"
    and frame: "same_frame fb fb'"
    and cells: "\<And>i. i < k \<Longrightarrow> fb_read fb' (int (pix_off fb (?X + i) ?Y)) ?b =
        Inr (take ?b (drop (?b * i) (concat (replicate k c))))"
    and other: "\<And>i j. i < fb_width fb \<Longrightarrow> j < fb_height fb \<Longrightarrow> \<not> (j = ?Y \<and> ?X \<le> i \<and> i < ?X + k) \<Longrightarrow>
        fb_image be fb' i j = fb_image be fb i j"
    using fb_write_row [OF wf Y X, of "concat (replicate k c)" be] by (auto simp: length_row len)
  have "setPixelRow be fb p raw n = Inr fb'"
    using x y c w pix_addr [OF wf Y, of ?X]
    by (simp add: setPixelRow_def Let_def k_def)
  moreover have "fb_image be fb' i j = (if int j = sint (pt_y p) \<and> sint (pt_x p) \<le> int i \<and> int i < sint (pt_x p) + int n
       then take_bit (bitsPerPixel fb) raw else fb_image be fb i j)"
    if ij: "i < fb_width fb" "j < fb_height fb" for i j
  proof (cases "j = ?Y \<and> ?X \<le> i \<and> i < ?X + k")
    case True
    then obtain l where l: "i = ?X + l" "l < k" by (metis le_Suc_ex nat_add_left_cancel_less)
    with cells [of l] have "fb_read fb' (int (pix_off fb i j)) ?b = Inr c"
      using cell_of_row [of l k c] True by (simp add: len)
    then have "raw_at be fb' (int (pix_off fb i j)) = Inr (take_bit (bitsPerPixel fb) raw)"
      using c wf unfolding raw_at_def same_frame_simps [OF frame] fb_wf_def
      by (intro rawPixel_cell [OF c]) auto
    then have "fb_image be fb' i j = take_bit (bitsPerPixel fb) raw"
      by (simp add: fb_image_def same_frame_simps [OF frame])
    with True x y show ?thesis by (auto simp: k_def)
  next
    case False
    with other [OF ij] x y ij show ?thesis by (auto simp: k_def)
  qed
  ultimately show ?thesis using frame by (auto simp: paints_def)
qed

lemma fb_pixel_image:
  assumes "fb_wf fb" and "0 \<le> sint (pt_x p)" "sint (pt_x p) < int (fb_width fb)"
    and "0 \<le> sint (pt_y p)" "sint (pt_y p) < int (fb_height fb)"
  shows "fb_pixel be fb p = Inr (fb_image be fb (nat (sint (pt_x p))) (nat (sint (pt_y p))))"
proof -
  let ?X = "nat (sint (pt_x p))" and ?Y = "nat (sint (pt_y p))"
  have "?X < fb_width fb" "?Y < fb_height fb" using assms by auto
  then show ?thesis
    using assms raw_at_image [of fb ?X ?Y be] pix_addr [of fb ?Y ?X] by (simp add: fb_pixel_def)
qed

text \<open>
  A row of pixels set by \<open>setPixelRow\<close> is read back by \<open>pixel\<close>: every position inside the
  clipped row has the low bits of the pixel that the depth keeps, every other position of the
  frame buffer what it had before, on either byte order, for the owner of the memory and for
  views into it.
\<close>

theorem setPixelRow_pixel:
  assumes "fb_wf fb" and "0 \<le> sint (pt_x p)" "sint (pt_x p) < int (fb_width fb)"
    and "0 \<le> sint (pt_y p)" "sint (pt_y p) < int (fb_height fb)"
  shows "\<exists>fb'. setPixelRow be fb p raw n = Inr fb' \<and> fb_wf fb' \<and>
    (\<forall>q. 0 \<le> sint (pt_x q) \<and> sint (pt_x q) < int (fb_width fb) \<and>
         0 \<le> sint (pt_y q) \<and> sint (pt_y q) < int (fb_height fb) \<longrightarrow>
       fb_pixel be fb' q =
         (if pt_y q = pt_y p \<and> sint (pt_x p) \<le> sint (pt_x q) \<and> sint (pt_x q) < sint (pt_x p) + int n
          then Inr (take_bit (bitsPerPixel fb) raw) else fb_pixel be fb q))"
proof -
  obtain fb' where set: "setPixelRow be fb p raw n = Inr fb'" and frame: "same_frame fb fb'"
    and img: "\<And>i j. i < fb_width fb \<Longrightarrow> j < fb_height fb \<Longrightarrow> fb_image be fb' i j =
      (if int j = sint (pt_y p) \<and> sint (pt_x p) \<le> int i \<and> int i < sint (pt_x p) + int n
       then take_bit (bitsPerPixel fb) raw else fb_image be fb i j)"
    using setPixelRow_paints [OF assms, of be raw n] by (auto simp: paints_def)
  have "fb_pixel be fb' q =
      (if pt_y q = pt_y p \<and> sint (pt_x p) \<le> sint (pt_x q) \<and> sint (pt_x q) < sint (pt_x p) + int n
       then Inr (take_bit (bitsPerPixel fb) raw) else fb_pixel be fb q)"
    if "0 \<le> sint (pt_x q) \<and> sint (pt_x q) < int (fb_width fb) \<and>
        0 \<le> sint (pt_y q) \<and> sint (pt_y q) < int (fb_height fb)" for q
  proof -
    have "pt_y q = pt_y p \<longleftrightarrow> sint (pt_y q) = sint (pt_y p)" by (metis signed_word_eqI)
    then show ?thesis
    using that assms(1) img [of "nat (sint (pt_x q))" "nat (sint (pt_y q))"]
      fb_pixel_image [of fb q be] fb_pixel_image [of fb' q be] same_frame_simps [OF frame]
    by auto
  qed
  with set frame assms(1) show ?thesis by (auto simp: same_frame_simps)
qed

text \<open>A format of a depth the frame buffer knows.\<close>

definition fmt_ok :: "pixelformat \<Rightarrow> bool" where
  "fmt_ok fmt \<longleftrightarrow> unat (bitsPixel fmt) \<in> {8, 16, 24, 32} \<and> 8 * unat (bytePixel fmt) = unat (bitsPixel fmt)"

lemma formats_ok [simp]:
  "fmt_ok RGB565" "fmt_ok RGB24" "fmt_ok RGB30" "fmt_ok RGBA32" "fmt_ok BGRX32" "fmt_ok RGBX32"
  by (simp_all add: fmt_ok_def formats)

lemma frameBuffer_new_simps [simp]:
  "fb_width (frameBuffer_new sz fmt pitch) = unat (sz_width sz)"
  "fb_height (frameBuffer_new sz fmt pitch) = unat (sz_height sz)"
  "pixelFormat (frameBuffer_new sz fmt pitch) = fmt"
  "fb_reg (frameBuffer_new sz fmt pitch) = region_of (Point 0 0) sz"
  "fb_owner (frameBuffer_new sz fmt pitch)" "fb_pitch (fb_ptr (frameBuffer_new sz fmt pitch)) = fbinfo_pitch sz fmt (ucast pitch)"
  "length (fb_buffer (fb_ptr (frameBuffer_new sz fmt pitch))) =
     unat (ucast (fbinfo_pitch sz fmt (ucast pitch)) * ucast (sz_height sz) :: u64)"
  "bitsPerPixel (frameBuffer_new sz fmt pitch) = unat (bitsPixel fmt)"
  "bytePerPixel (frameBuffer_new sz fmt pitch) = unat (bytePixel fmt)"
  by (simp_all add: fb_width_def fb_height_def frameBuffer_new_def region_of_def pixelFormat_def
      fbinfo_alloc_def Let_def bitsPerPixel_def bytePerPixel_def)

lemma unat_ucast_u64 [simp]:
  "unat (ucast (c :: u32) :: u64) = unat c" "unat (ucast (d :: u16) :: u64) = unat d"
  using unsigned_less [of c, where ?'a = nat] unsigned_less [of d, where ?'a = nat]
  by (simp_all add: unsigned_ucast_eq take_bit_nat_eq_self)

lemma frameBuffer_new_wf:
  assumes "fmt_ok fmt"
  shows "fb_wf (frameBuffer_new sz fmt pitch)"
proof -
  have w: "unat (sz_width sz) < 2 ^ 16" "unat (sz_height sz) < 2 ^ 16" "unat pitch < 2 ^ 16"
    using unsigned_less [of "sz_width sz", where ?'a = nat] unsigned_less [of "sz_height sz", where ?'a = nat]
      unsigned_less [of pitch, where ?'a = nat] by simp_all
  have b: "unat (bytePixel fmt) \<le> 4" using assms by (auto simp: fmt_ok_def)
  then have small: "unat (bytePixel fmt) * unat (sz_width sz) < 4 * 2 ^ 16 + 1"
    using w(1) mult_le_mono [of "unat (bytePixel fmt)" 4 "unat (sz_width sz)" "2 ^ 16"] by simp
  have "(word_of_int (uint (bytePixel fmt) * uint (sz_width sz)) :: u32)
      = of_nat (unat (bytePixel fmt) * unat (sz_width sz))" by simp
  moreover have "unat (of_nat (unat (bytePixel fmt) * unat (sz_width sz)) :: u32) =
      unat (bytePixel fmt) * unat (sz_width sz)"
    using small by (simp only: unsigned_of_nat) (simp add: take_bit_nat_eq_self)
  ultimately have p: "unat (fbinfo_pitch sz fmt (ucast pitch)) =
      max (unat (bytePixel fmt) * unat (sz_width sz)) (unat pitch)"
    by (simp add: fbinfo_pitch_def max_def word_le_nat_alt)
  have "unat (fbinfo_pitch sz fmt (ucast pitch)) * unat (sz_height sz) < 2 ^ 20 * 2 ^ 16"
    unfolding p using small w by (intro mult_strict_mono) auto
  then have "unat (ucast (fbinfo_pitch sz fmt (ucast pitch)) * ucast (sz_height sz) :: u64) =
      unat (fbinfo_pitch sz fmt (ucast pitch)) * unat (sz_height sz)"
    by (simp add: unat_word_ariths)
  then show ?thesis
    using assms p
    by (simp add: fb_wf_def fmt_ok_def fb_ox_def fb_oy_def)
qed

theorem setPixelRow_pixel_witness:
  "\<exists>fb'. setPixelRow False (frameBuffer_new (Size 3 2) RGB24 0) (Point 1 1) 0xFF112233 9 = Inr fb' \<and>
    fb_pixel False fb' (Point 2 1) = Inr 0x112233 \<and> fb_pixel False fb' (Point 2 0) =
      fb_pixel False (frameBuffer_new (Size 3 2) RGB24 0) (Point 2 0)"
proof -
  let ?fb = "frameBuffer_new (Size 3 2) RGB24 0"
  have "fb_wf ?fb" by (rule frameBuffer_new_wf) simp
  from setPixelRow_pixel [OF this, of "Point 1 1" False "0xFF112233" 9]
  obtain fb' where f: "setPixelRow False ?fb (Point 1 1) 0xFF112233 9 = Inr fb'" and
    q: "\<And>q. 0 \<le> sint (pt_x q) \<Longrightarrow> sint (pt_x q) < 3 \<Longrightarrow> 0 \<le> sint (pt_y q) \<Longrightarrow> sint (pt_y q) < 2 \<Longrightarrow>
      fb_pixel False fb' q = (if pt_y q = 1 \<and> 1 \<le> sint (pt_x q) \<and> sint (pt_x q) < 10
          then Inr (take_bit 24 0xFF112233) else fb_pixel False ?fb q)"
    by (auto simp: formats)
  have "take_bit 24 (0xFF112233 :: u32) = 0x112233" by (simp add: take_bit_eq_mod)
  with f q [of "Point 2 1"] q [of "Point 2 0"] show ?thesis by simp
qed

section \<open>Painting several parts\<close>

lemma paints_id: "fb_wf fb \<Longrightarrow> paints be fb (fb_image be fb) fb"
  by (simp add: paints_def)

lemma paints_cong:
  "paints be fb g fb' \<Longrightarrow> (\<And>x y. x < fb_width fb \<Longrightarrow> y < fb_height fb \<Longrightarrow> g x y = h x y) \<Longrightarrow> paints be fb h fb'"
  by (simp add: paints_def)

lemma paints_trans:
  assumes "paints be a g b" and "paints be b h c"
    and "\<And>x y. x < fb_width a \<Longrightarrow> y < fb_height a \<Longrightarrow> h x y = k x y"
  shows "paints be a k c"
  using assms by (auto simp: paints_def same_frame_simps intro: same_frame_trans)

text \<open>
  A loop whose body paints the part \<open>P c\<close> of the frame buffer with the pixels of one image \<open>v\<close>
  paints the union of the parts, whatever the order of the iterations.
\<close>

lemma foldM_paints:
  assumes "\<And>c fb. c \<in> set cs \<Longrightarrow> same_frame fb0 fb \<Longrightarrow>
      \<exists>fb'. f c fb = Inr fb' \<and> paints be fb (\<lambda>x y. if P c x y then v x y else fb_image be fb x y) fb'"
    and "same_frame fb0 fb"
  shows "\<exists>fb'. foldM f cs fb = Inr fb' \<and>
    paints be fb (\<lambda>x y. if \<exists>c \<in> set cs. P c x y then v x y else fb_image be fb x y) fb'"
  using assms
proof (induction cs arbitrary: fb)
  case Nil
  then show ?case by (simp add: paints_def)
next
  case (Cons c cs)
  obtain fb1 where fb1: "f c fb = Inr fb1"
    "paints be fb (\<lambda>x y. if P c x y then v x y else fb_image be fb x y) fb1"
    using Cons.prems(1) [of c fb] Cons.prems(2) by auto
  then have "same_frame fb0 fb1"
    using Cons.prems(2) by (auto simp: paints_def intro: same_frame_trans)
  then obtain fb2 where fb2: "foldM f cs fb1 = Inr fb2"
    "paints be fb1 (\<lambda>x y. if \<exists>c \<in> set cs. P c x y then v x y else fb_image be fb1 x y) fb2"
    using Cons.IH [of fb1] Cons.prems(1) by auto
  have "paints be fb (\<lambda>x y. if \<exists>c \<in> set (c # cs). P c x y then v x y else fb_image be fb x y) fb2"
    using fb1(2) by (intro paints_trans [OF fb1(2) fb2(2)]) (auto simp: paints_def)
  with fb1(1) fb2(1) show ?case by auto
qed

lemma job_Inr [simp]: "f fb = Inr fb' \<Longrightarrow> job f fb = Inr fb'"
  by (simp add: job_def)

section \<open>Filling\<close>

text \<open>A region inside the frame buffer, within the range of the coordinates.\<close>

definition inside :: "region \<Rightarrow> framebuffer \<Rightarrow> bool" where
  "inside reg fb \<longleftrightarrow> 0 \<le> sint (rg_x reg) \<and> 0 \<le> sint (rg_y reg) \<and>
     sint (rg_x reg) + uint (rg_width reg) \<le> min (int (fb_width fb)) 32767 \<and>
     sint (rg_y reg) + uint (rg_height reg) \<le> min (int (fb_height fb)) 32767"

lemma row_of_fields:
  assumes "inside reg fb" and "0 \<le> xx" "xx < uint (rg_width reg)" and "0 \<le> yy" "yy < uint (rg_height reg)"
  shows "sint (pt_x (row_of reg xx yy)) = sint (rg_x reg) + xx"
    and "sint (pt_y (row_of reg xx yy)) = sint (rg_y reg) + yy"
  using assms u16_bounds(4) [of "rg_width reg"] u16_bounds(4) [of "rg_height reg"]
  by (simp_all add: row_of_def point_add_def topLeft_def inside_def)

lemma same_frame_inside: "same_frame fb fb' \<Longrightarrow> inside reg fb' = inside reg fb"
  by (simp add: inside_def same_frame_simps)

definition fill_row :: "bool \<Rightarrow> region \<Rightarrow> u32 \<Rightarrow> int \<Rightarrow> framebuffer \<Rightarrow> framebuffer res" where
  "fill_row be reg raw yy fb = setPixelRow be fb (row_of reg 0 yy) raw (unat (rg_width reg))"

lemma fill_row_paints:
  assumes "fb_wf fb" and "inside reg fb" and "\<not> region_isEmpty reg" and "0 \<le> yy" "yy < uint (rg_height reg)"
  shows "\<exists>fb'. fill_row be reg raw yy fb = Inr fb' \<and>
    paints be fb (\<lambda>i j. if int j = sint (rg_y reg) + yy \<and> (int i, int j) \<in> pixels reg
       then take_bit (bitsPerPixel fb) raw else fb_image be fb i j) fb'"
proof -
  have w: "0 < uint (rg_width reg)" using assms(3) by (auto simp: isEmpty_iff uint_pos_iff)
  note r = row_of_fields [OF assms(2) _ w assms(4,5), simplified]
  have "0 \<le> sint (pt_x (row_of reg 0 yy))" "sint (pt_x (row_of reg 0 yy)) < int (fb_width fb)"
    "0 \<le> sint (pt_y (row_of reg 0 yy))" "sint (pt_y (row_of reg 0 yy)) < int (fb_height fb)"
    using assms(2,4,5) w by (auto simp: r inside_def)
  from setPixelRow_paints [OF assms(1) this, of be raw "unat (rg_width reg)"]
  obtain fb' where fb': "fill_row be reg raw yy fb = Inr fb'"
    "paints be fb (\<lambda>i j. if int j = sint (rg_y reg) + yy \<and> sint (rg_x reg) \<le> int i \<and> int i < sint (rg_x reg) + uint (rg_width reg)
       then take_bit (bitsPerPixel fb) raw else fb_image be fb i j) fb'"
    by (auto simp: fill_row_def r)
  moreover have "int j = sint (rg_y reg) + yy \<Longrightarrow> (int i, int j) \<in> pixels reg \<longleftrightarrow>
      sint (rg_x reg) \<le> int i \<and> int i < sint (rg_x reg) + uint (rg_width reg)" for i j
    using assms(4,5) by auto
  ultimately show ?thesis by (auto simp: paints_def)
qed

text \<open>The rows of a fill may be written in any order, and more than once.\<close>

lemma fill_rows_any_order:
  assumes "fb_wf fb" and "inside reg fb" and "\<not> region_isEmpty reg"
    and "set ys = {0..<uint (rg_height reg)}"
  shows "\<exists>fb'. foldM (fill_row be reg raw) ys fb = Inr fb' \<and>
    paints be fb (\<lambda>i j. if (int i, int j) \<in> pixels reg
       then take_bit (bitsPerPixel fb) raw else fb_image be fb i j) fb'"
proof -
  have "\<exists>fb'. foldM (fill_row be reg raw) ys fb = Inr fb' \<and>
    paints be fb (\<lambda>i j. if \<exists>yy \<in> set ys. int j = sint (rg_y reg) + yy \<and> (int i, int j) \<in> pixels reg
       then take_bit (bitsPerPixel fb) raw else fb_image be fb i j) fb'"
  proof (rule foldM_paints [where ?fb0.0 = fb])
    fix yy fb1 assume "yy \<in> set ys" and f: "same_frame fb fb1"
    then have "0 \<le> yy" "yy < uint (rg_height reg)" using assms(4) by auto
    with fill_row_paints [of fb1 reg yy be raw] assms(1-3) f
    show "\<exists>fb'. fill_row be reg raw yy fb1 = Inr fb' \<and> paints be fb1 (\<lambda>i j.
        if int j = sint (rg_y reg) + yy \<and> (int i, int j) \<in> pixels reg
        then take_bit (bitsPerPixel fb) raw else fb_image be fb1 i j) fb'"
      by (simp add: same_frame_simps [OF f] same_frame_inside [OF f] cong: if_cong)
  qed simp
  moreover have "(\<exists>yy \<in> set ys. int j = sint (rg_y reg) + yy \<and> (int i, int j) \<in> pixels reg) \<longleftrightarrow>
      (int i, int j) \<in> pixels reg" for i j
    unfolding assms(4) by (auto intro!: bexI [of _ "int j - sint (rg_y reg)"])
  ultimately show ?thesis by simp
qed

lemma job_foldM:
  "\<exists>fb'. foldM f cs fb = Inr fb' \<and> Q fb' \<Longrightarrow> \<exists>fb'. foldM (\<lambda>c. job (f c)) cs fb = Inr fb' \<and> Q fb'"
proof (induction cs arbitrary: fb)
  case Nil
  then show ?case by simp
next
  case (Cons c cs)
  then show ?case by (cases "f c fb") (auto simp: job_def)
qed

lemma fill_rows_paints:
  assumes "fb_wf fb" and "inside reg fb" and "\<not> region_isEmpty reg"
  shows "\<exists>fb'. fill_rows be par fb reg raw = Inr fb' \<and>
    paints be fb (\<lambda>i j. if (int i, int j) \<in> pixels reg
       then take_bit (bitsPerPixel fb) raw else fb_image be fb i j) fb'"
proof -
  have e: "\<exists>fb'. foldM (fill_row be reg raw) [0..uint (rg_height reg) - 1] fb = Inr fb' \<and>
    paints be fb (\<lambda>i j. if (int i, int j) \<in> pixels reg
       then take_bit (bitsPerPixel fb) raw else fb_image be fb i j) fb'"
    using assms by (intro fill_rows_any_order) auto
  show ?thesis
    using e job_foldM [OF e]
    by (simp add: fill_rows_def Let_def fill_row_def [abs_def])
qed

text \<open>A frame buffer whose region starts at the origin.\<close>

definition at_origin :: "framebuffer \<Rightarrow> bool" where
  "at_origin fb \<longleftrightarrow> rg_x (fb_reg fb) = 0 \<and> rg_y (fb_reg fb) = 0 \<and> fb_width fb \<le> 32767 \<and> fb_height fb \<le> 32767"

lemma at_origin_pixels:
  assumes "at_origin fb"
  shows "(i, j) \<in> pixels (fb_reg fb) \<longleftrightarrow> 0 \<le> i \<and> i < int (fb_width fb) \<and> 0 \<le> j \<and> j < int (fb_height fb)"
  using assms by (simp add: at_origin_def fb_width_def fb_height_def)

lemma subset_inside:
  assumes "at_origin fb" and "pixels r \<subseteq> pixels (fb_reg fb)" and "\<not> region_isEmpty r"
  shows "inside r fb"
proof -
  have "0 < uint (rg_width r)" "0 < uint (rg_height r)"
    using assms(3) by (auto simp: isEmpty_iff uint_pos_iff)
  then have "(sint (rg_x r), sint (rg_y r)) \<in> pixels r"
    "(sint (rg_x r) + uint (rg_width r) - 1, sint (rg_y r) + uint (rg_height r) - 1) \<in> pixels r"
    by auto
  then have "(sint (rg_x r), sint (rg_y r)) \<in> pixels (fb_reg fb)"
    "(sint (rg_x r) + uint (rg_width r) - 1, sint (rg_y r) + uint (rg_height r) - 1) \<in> pixels (fb_reg fb)"
    using assms(2) by blast+
  then show ?thesis
    using assms(1) unfolding at_origin_pixels [OF assms(1)] by (auto simp: inside_def at_origin_def)
qed

lemma intersection_cases:
  obtains (some) r where "region_intersection r1 r2 (Some r0) = (True, Some r)"
      "pixels r = pixels r1 \<inter> pixels r2" "\<not> region_isEmpty r"
      "sint (rg_x r) = max (sint (rg_x r1)) (sint (rg_x r2))"
      "sint (rg_y r) = max (sint (rg_y r1)) (sint (rg_y r2))"
  | (none) "region_intersection r1 r2 (Some r0) = (False, Some r0)" "pixels r1 \<inter> pixels r2 = {}"
proof (cases "region_intersects r1 r2")
  case True
  let ?r = "the (snd (region_intersection r1 r2 (Some r0)))"
  have "pixels ?r = pixels r1 \<inter> pixels r2" by (rule intersection_pixels [OF True])
  moreover from True this have "\<not> region_isEmpty ?r" by (simp add: isEmpty_pixels intersects_iff)
  ultimately show thesis
    using some intersection_simps(1) [OF True] intersection_fields(1,2) [OF True] by blast
next
  case False
  then show thesis using none intersection_simps(2) [OF False] by (simp add: intersects_iff)
qed

lemma fillPixel_paints:
  assumes "fb_wf fb" and "at_origin fb"
  shows "\<exists>fb'. fillPixel be par fb reg p fmt = Inr fb' \<and>
    paints be fb (\<lambda>i j. if (int i, int j) \<in> pixels reg
      then take_bit (bitsPerPixel fb) (raw_of fb p fmt) else fb_image be fb i j) fb'"
proof (cases rule: intersection_cases [of "fb_reg fb" reg region_default])
  case (some r)
  have "inside r fb"
    using some(2) by (intro subset_inside [OF assms(2) _ some(3)]) (simp del: in_pixels)
  from fill_rows_paints [OF assms(1) this some(3), of be par "raw_of fb p fmt"]
  obtain fb' where fb': "fill_rows be par fb r (raw_of fb p fmt) = Inr fb'" "same_frame fb fb'"
    "\<And>i j. i < fb_width fb \<Longrightarrow> j < fb_height fb \<Longrightarrow> fb_image be fb' i j = (if (int i, int j) \<in> pixels r
       then take_bit (bitsPerPixel fb) (raw_of fb p fmt) else fb_image be fb i j)"
    unfolding paints_def by blast
  have "(int i, int j) \<in> pixels r \<longleftrightarrow> (int i, int j) \<in> pixels reg"
    if "i < fb_width fb" "j < fb_height fb" for i j
    using some(2) that at_origin_pixels [OF assms(2), of "int i" "int j"] by (simp del: in_pixels)
  with fb'(2,3) have "paints be fb (\<lambda>i j. if (int i, int j) \<in> pixels reg
      then take_bit (bitsPerPixel fb) (raw_of fb p fmt) else fb_image be fb i j) fb'"
    unfolding paints_def by presburger
  with fb'(1) some(1) show ?thesis by (auto simp: fillPixel_def)
next
  case none
  have "(int i, int j) \<notin> pixels reg" if "i < fb_width fb" "j < fb_height fb" for i j
  proof -
    have "(int i, int j) \<in> pixels (fb_reg fb)"
      using that by (simp add: at_origin_pixels [OF assms(2)] del: in_pixels)
    with none(2) show ?thesis by blast
  qed
  then have "paints be fb (\<lambda>i j. if (int i, int j) \<in> pixels reg
      then take_bit (bitsPerPixel fb) (raw_of fb p fmt) else fb_image be fb i j) fb"
    unfolding paints_def by (metis same_frame_refl)
  moreover have "fillPixel be par fb reg p fmt = Inr fb"
    by (simp only: fillPixel_def none(1) prod.case bool.case)
  ultimately show ?thesis by blast
qed

text \<open>
  \<open>fillPixel\<close> on a frame buffer at the origin, with and without the parallel jobs: exactly
  the pixels of the frame buffer that lie in the region take the (converted) pixel, all others
  keep their value, and the region may stick out of the frame buffer on any side.
\<close>

theorem fillPixel_correct:
  assumes "fb_wf fb" and "at_origin fb"
  shows "\<exists>fb'. fillPixel be par fb reg p fmt = Inr fb' \<and> fb_wf fb' \<and> fb_reg fb' = fb_reg fb \<and>
    (\<forall>i j. i < fb_width fb \<and> j < fb_height fb \<longrightarrow> fb_image be fb' i j =
      (if (int i, int j) \<in> pixels reg then take_bit (bitsPerPixel fb) (raw_of fb p fmt)
       else fb_image be fb i j))"
proof -
  obtain fb' where "fillPixel be par fb reg p fmt = Inr fb'" and "same_frame fb fb'" and
    "\<And>i j. i < fb_width fb \<Longrightarrow> j < fb_height fb \<Longrightarrow> fb_image be fb' i j =
      (if (int i, int j) \<in> pixels reg then take_bit (bitsPerPixel fb) (raw_of fb p fmt)
       else fb_image be fb i j)"
    using fillPixel_paints [OF assms, of be par reg p fmt] unfolding paints_def by blast
  with assms(1) same_frame_simps [OF this(2)] show ?thesis by blast
qed

lemma sample_frame:
  "fb_wf (frameBuffer_new (Size 3 2) RGB24 0)" "at_origin (frameBuffer_new (Size 3 2) RGB24 0)"
  "fb_wf (frameBuffer_new (Size 3 2) RGB565 0)" "at_origin (frameBuffer_new (Size 3 2) RGB565 0)"
  by (simp_all add: frameBuffer_new_wf at_origin_def region_of_def)

theorem fillPixel_correct_witness:
  "\<exists>fb'. fillPixel False True (frameBuffer_new (Size 3 2) RGB24 0) (Region 1 (- 1) 9 2) 0x112233 None = Inr fb' \<and>
    fb_image False fb' 2 0 = 0x112233 \<and>
    fb_image False fb' 2 1 = fb_image False (frameBuffer_new (Size 3 2) RGB24 0) 2 1"
proof -
  let ?fb = "frameBuffer_new (Size 3 2) RGB24 0"
  obtain fb' where f: "fillPixel False True ?fb (Region 1 (- 1) 9 2) 0x112233 None = Inr fb'"
    and img: "\<And>i j. i < 3 \<Longrightarrow> j < 2 \<Longrightarrow> fb_image False fb' i j =
      (if (int i, int j) \<in> pixels (Region 1 (- 1) 9 2) then take_bit 24 0x112233 else fb_image False ?fb i j)"
    using fillPixel_correct [OF sample_frame(1,2), of False True "Region 1 (- 1) 9 2" "0x112233" None]
    by (auto simp: formats raw_of_def simp del: in_pixels)
  have "take_bit 24 (0x112233 :: u32) = 0x112233" by (simp add: take_bit_eq_mod)
  with f img [of 2 0] img [of 2 1] show ?thesis by simp
qed

text \<open>
  The rows a parallel fill hands to its jobs may run in any order: every schedule of the
  jobs ends and leaves the same image.
\<close>

theorem fill_schedules:
  assumes "fb_wf fb" and "inside reg fb" and "\<not> region_isEmpty reg"
    and "mset ys = mset [0..uint (rg_height reg) - 1]"
  shows "\<exists>fb1 fb2. foldM (\<lambda>yy. job (\<lambda>fb. setPixelRow be fb (row_of reg 0 yy) raw (unat (rg_width reg)))) ys fb = Inr fb1 \<and>
    fill_rows be par fb reg raw = Inr fb2 \<and>
    (\<forall>i j. i < fb_width fb \<and> j < fb_height fb \<longrightarrow> fb_image be fb1 i j = fb_image be fb2 i j)"
proof -
  have "set ys = set [0..uint (rg_height reg) - 1]" using assms(4) by (rule mset_eq_setD)
  moreover have "set [0..k - 1] = {0..<k}" for k :: int by auto
  ultimately have "set ys = {0..<uint (rg_height reg)}" by simp
  from job_foldM [OF fill_rows_any_order [OF assms(1-3) this, of be raw]]
  obtain fb1 where 1: "foldM (\<lambda>yy. job (fill_row be reg raw yy)) ys fb = Inr fb1"
    "paints be fb (\<lambda>i j. if (int i, int j) \<in> pixels reg
       then take_bit (bitsPerPixel fb) raw else fb_image be fb i j) fb1" by blast
  from fill_rows_paints [OF assms(1-3), of be par raw]
  obtain fb2 where 2: "fill_rows be par fb reg raw = Inr fb2"
    "paints be fb (\<lambda>i j. if (int i, int j) \<in> pixels reg
       then take_bit (bitsPerPixel fb) raw else fb_image be fb i j) fb2" by blast
  have "fb_image be fb1 i j = fb_image be fb2 i j" if "i < fb_width fb \<and> j < fb_height fb" for i j
    using 1(2) 2(2) that by (simp add: paints_def)
  with 1(1) 2(1) show ?thesis unfolding fill_row_def [abs_def] by blast
qed

theorem fill_schedules_witness:
  "\<exists>fb1 fb2. foldM (\<lambda>yy. job (\<lambda>fb. setPixelRow False fb (row_of (Region 0 0 3 2) 0 yy) 7 3)) [1, 0]
      (frameBuffer_new (Size 3 2) RGB24 0) = Inr fb1 \<and>
    fill_rows False True (frameBuffer_new (Size 3 2) RGB24 0) (Region 0 0 3 2) 7 = Inr fb2 \<and>
    fb_image False fb1 2 1 = fb_image False fb2 2 1"
proof -
  have "mset [1, 0] = mset [0..uint (rg_height (Region 0 0 3 2)) - 1]" by (simp add: upto.simps)
  moreover have "inside (Region 0 0 3 2) (frameBuffer_new (Size 3 2) RGB24 0)" by (simp add: inside_def)
  moreover have "\<not> region_isEmpty (Region 0 0 3 2)" by (simp add: isEmpty_iff)
  ultimately have "\<exists>fb1 fb2. foldM (\<lambda>yy. job (\<lambda>fb. setPixelRow False fb (row_of (Region 0 0 3 2) 0 yy) 7
        (unat (rg_width (Region 0 0 3 2))))) [1, 0] (frameBuffer_new (Size 3 2) RGB24 0) = Inr fb1 \<and>
    fill_rows False True (frameBuffer_new (Size 3 2) RGB24 0) (Region 0 0 3 2) 7 = Inr fb2 \<and>
    (\<forall>i j. i < fb_width (frameBuffer_new (Size 3 2) RGB24 0) \<and> j < fb_height (frameBuffer_new (Size 3 2) RGB24 0) \<longrightarrow>
      fb_image False fb1 i j = fb_image False fb2 i j)"
    by (intro fill_schedules [OF sample_frame(1)])
  then show ?thesis by auto
qed

section \<open>Copying\<close>

text \<open>
  \<open>shifted src r ax ay\<close>: the source has a pixel for every pixel of \<open>r\<close>, \<open>(ax, ay)\<close> further.
\<close>

definition shifted :: "framebuffer \<Rightarrow> region \<Rightarrow> int \<Rightarrow> int \<Rightarrow> bool" where
  "shifted src r ax ay \<longleftrightarrow> 0 \<le> sint (rg_x r) + ax \<and> 0 \<le> sint (rg_y r) + ay \<and>
     sint (rg_x r) + ax + uint (rg_width r) \<le> min (int (fb_width src)) 32767 \<and>
     sint (rg_y r) + ay + uint (rg_height r) \<le> min (int (fb_height src)) 32767"

definition copied :: "bool \<Rightarrow> framebuffer \<Rightarrow> framebuffer \<Rightarrow> int \<Rightarrow> int \<Rightarrow> nat \<Rightarrow> nat \<Rightarrow> u32" where
  "copied be fb src ax ay i j =
     (let p = fb_image be src (nat (int i + ax)) (nat (int j + ay)) in
      if pixelFormat fb = pixelFormat src then p
      else take_bit (bitsPerPixel fb) (convertFrom (pixelFormat fb) (pixelFormat src) p))"

lemma copied_frame: "same_frame fb fb' \<Longrightarrow> copied be fb' src = copied be fb src"
  by (intro ext) (simp add: copied_def Let_def same_frame_simps [of fb fb'])

lemma image_decode:
  assumes "fb_read fb (int (pix_off fb x y)) (bytePerPixel fb) = fb_read fb' (int (pix_off fb' x' y')) (bytePerPixel fb')"
    and "pixelFormat fb = pixelFormat fb'" and "fb_wf fb"
  shows "fb_image be fb x y = fb_image be fb' x' y'"
proof -
  have b: "bitsPerPixel fb = bitsPerPixel fb'" "bytePerPixel fb = bytePerPixel fb'"
    using assms(2) by (simp_all add: bitsPerPixel_def bytePerPixel_def)
  have "rawPixel be (fb_read fb (int (pix_off fb x y))) (bitsPerPixel fb) be =
      rawPixel be (fb_read fb' (int (pix_off fb' x' y'))) (bitsPerPixel fb) be"
    using assms(1,3) b by (intro rawPixel_cong) (auto simp: fb_wf_def)
  then show ?thesis by (simp add: fb_image_def raw_at_def b)
qed

lemma row_copy_paints:
  assumes wf: "fb_wf fb" "fb_wf src" and fmt: "pixelFormat fb = pixelFormat src"
    and dst: "inside dst fb" and sh: "shifted src dst ax ay"
    and reg: "sint (rg_x reg) = sint (rg_x dst) + ax" "sint (rg_y reg) = sint (rg_y dst) + ay"
    and row: "0 \<le> row" "row < uint (rg_height dst)"
  shows "\<exists>fb'. row_copy src reg dst row fb = Inr fb' \<and>
    paints be fb (\<lambda>i j. if int j = sint (rg_y dst) + row \<and> (int i, int j) \<in> pixels dst
       then copied be fb src ax ay i j else fb_image be fb i j) fb'"
proof -
  let ?b = "bytePerPixel fb"
  have b: "bytePerPixel src = ?b" using fmt by (simp add: bytePerPixel_def)
  define n where "n = unat (rg_width dst)"
  define sx where "sx = nat (sint (rg_x reg))"
  define sy where "sy = nat (sint (rg_y reg) + row)"
  define dx where "dx = nat (sint (rg_x dst))"
  define dy where "dy = nat (sint (rg_y dst) + row)"
  have n: "uint (rg_width dst) = int n" by (simp add: n_def)
  have ints: "sint (rg_x reg) = int sx" "sint (rg_y reg) + row = int sy"
    "sint (rg_x dst) = int dx" "sint (rg_y dst) + row = int dy"
    using dst sh reg row by (simp_all add: sx_def sy_def dx_def dy_def shifted_def inside_def)
  have S: "sy < fb_height src" "sx + n \<le> fb_width src" and D: "dy < fb_height fb" "dx + n \<le> fb_width fb"
    using dst sh reg row n ints by (auto simp: shifted_def inside_def)
  have room: "pix_off src sx sy + ?b * n \<le> length (fb_buffer (fb_ptr src))"
    using pix_room(1) [OF wf(2) S] by (simp add: b)
  define bs where "bs = take (?b * n) (drop (pix_off src sx sy) (fb_buffer (fb_ptr src)))"
  have len: "length bs = ?b * n" using room by (simp add: bs_def)
  obtain fb' where w: "fb_write fb (int (pix_off fb dx dy)) bs = Inr fb'" and frame: "same_frame fb fb'"
    and cells: "\<And>i. i < n \<Longrightarrow> fb_read fb' (int (pix_off fb (dx + i) dy)) ?b = Inr (take ?b (drop (?b * i) bs))"
    and other: "\<And>i j. i < fb_width fb \<Longrightarrow> j < fb_height fb \<Longrightarrow> \<not> (j = dy \<and> dx \<le> i \<and> i < dx + n) \<Longrightarrow>
        fb_image be fb' i j = fb_image be fb i j"
    using fb_write_row [OF wf(1) D len, of be] by blast
  have "fb_read src (int (pix_off src sx sy)) (?b * n) = Inr bs"
    using room by (simp add: fb_read_room bs_def)
  then have "row_copy src reg dst row fb = Inr fb'"
    using w pix_addr [OF wf(2) S(1), of sx] pix_addr [OF wf(1) D(1), of dx] ints
    by (simp add: row_copy_def Let_def b n_def mult.commute)
  moreover have "fb_image be fb' i j = (if int j = sint (rg_y dst) + row \<and> (int i, int j) \<in> pixels dst
       then copied be fb src ax ay i j else fb_image be fb i j)"
    if ij: "i < fb_width fb" "j < fb_height fb" for i j
  proof (cases "j = dy \<and> dx \<le> i \<and> i < dx + n")
    case True
    then obtain l where l: "i = dx + l" "l < n" by (metis le_Suc_ex nat_add_left_cancel_less)
    have "?b * l + ?b \<le> ?b * n" using mult_le_mono2 [of "Suc l" n ?b] l(2) by simp
    moreover have "pix_off src (sx + l) sy = pix_off src sx sy + ?b * l"
      by (simp add: pix_off_def distrib_left b)
    ultimately have "fb_read src (int (pix_off src (sx + l) sy)) ?b = Inr (take ?b (drop (?b * l) bs))"
      using room unfolding bs_def
      by (subst fb_read_room) (simp_all add: drop_take min_def add.commute)
    with cells [OF l(2)] True l(1) have "fb_image be fb' i j = fb_image be src (sx + l) sy"
      using wf(1) fmt by (intro image_decode) (simp_all add: same_frame_simps [OF frame] b)
    moreover have "int i + ax = int (sx + l)" "int j + ay = int sy"
      using ints reg l(1) True by linarith+
    then have "nat (int i + ax) = sx + l" "nat (int j + ay) = sy" by (simp_all only: nat_int)
    moreover have "int j = sint (rg_y dst) + row \<and> (int i, int j) \<in> pixels dst"
      using True l ints n row by auto
    ultimately show ?thesis using fmt by (simp add: copied_def Let_def)
  next
    case False
    then have "\<not> (int j = sint (rg_y dst) + row \<and> (int i, int j) \<in> pixels dst)"
      using ints n by auto
    with other [OF ij False] show ?thesis by auto
  qed
  ultimately show ?thesis using frame by (auto simp: paints_def)
qed

lemma rows_paint:
  assumes "fb_wf fb" "fb_wf src" and "pixelFormat fb = pixelFormat src"
    and "inside dst fb" and "shifted src dst ax ay"
    and "sint (rg_x reg) = sint (rg_x dst) + ax" "sint (rg_y reg) = sint (rg_y dst) + ay"
  shows "\<exists>fb'. foldM (row_copy src reg dst) [0..uint (rg_height dst) - 1] fb = Inr fb' \<and>
    paints be fb (\<lambda>i j. if (int i, int j) \<in> pixels dst
       then copied be fb src ax ay i j else fb_image be fb i j) fb'"
proof -
  have "\<exists>fb'. foldM (row_copy src reg dst) [0..uint (rg_height dst) - 1] fb = Inr fb' \<and>
    paints be fb (\<lambda>i j. if \<exists>row \<in> set [0..uint (rg_height dst) - 1].
        int j = sint (rg_y dst) + row \<and> (int i, int j) \<in> pixels dst
       then copied be fb src ax ay i j else fb_image be fb i j) fb'"
  proof (rule foldM_paints [where ?fb0.0 = fb])
    fix row fb1 assume "row \<in> set [0..uint (rg_height dst) - 1]" and f: "same_frame fb fb1"
    then have "0 \<le> row" "row < uint (rg_height dst)" by auto
    with row_copy_paints [of fb1 src dst ax ay reg row be] assms
    show "\<exists>fb'. row_copy src reg dst row fb1 = Inr fb' \<and> paints be fb1 (\<lambda>i j.
        if int j = sint (rg_y dst) + row \<and> (int i, int j) \<in> pixels dst
        then copied be fb src ax ay i j else fb_image be fb1 i j) fb'"
      by (simp add: same_frame_simps [OF f] same_frame_inside [OF f] copied_frame [OF f] cong: if_cong)
  qed simp
  moreover have "(\<exists>row \<in> set [0..uint (rg_height dst) - 1].
      int j = sint (rg_y dst) + row \<and> (int i, int j) \<in> pixels dst) \<longleftrightarrow> (int i, int j) \<in> pixels dst" for i j
    by (auto intro!: bexI [of _ "int j - sint (rg_y dst)"])
  ultimately show ?thesis by simp
qed

lemma copy_pixels_paints:
  assumes wf: "fb_wf fb" "fb_wf src" and fmt: "pixelFormat fb \<noteq> pixelFormat src"
    and dst: "inside dst fb" and sh: "shifted src dst ax ay"
    and origin: "sint (pt_x from) = sint (rg_x dst) + ax" "sint (pt_y from) = sint (rg_y dst) + ay"
  shows "\<exists>fb'. copy_pixels be src from dst fb = Inr fb' \<and>
    paints be fb (\<lambda>i j. if (int i, int j) \<in> pixels dst
       then copied be fb src ax ay i j else fb_image be fb i j) fb'"
proof -
  let ?P = "\<lambda>c i j. int i = sint (rg_x dst) + sint (pt_x c) \<and> int j = sint (rg_y dst) + sint (pt_y c)"
  have fits: "size_fits (toSize dst)" using dst by (auto simp: size_fits_def inside_def toSize_def)
  then have cs: "coordList (coordBegin dst) = row_major (toSize dst)"
    by (simp add: coordBegin_def coordList_row_major)
  have "\<exists>fb'. copy_pixels be src from dst fb = Inr fb' \<and>
    paints be fb (\<lambda>i j. if \<exists>c \<in> set (row_major (toSize dst)). ?P c i j
       then copied be fb src ax ay i j else fb_image be fb i j) fb'"
    unfolding copy_pixels_def cs
  proof (rule foldM_paints [where ?fb0.0 = fb])
    fix c fb1 assume "c \<in> set (row_major (toSize dst))" and f: "same_frame fb fb1"
    then have c: "0 \<le> sint (pt_x c)" "sint (pt_x c) < uint (rg_width dst)"
      "0 \<le> sint (pt_y c)" "sint (pt_y c) < uint (rg_height dst)"
      using set_row_major [OF fits] by (auto simp: toSize_def)
    let ?s = "point_add from c" and ?d = "point_add (topLeft dst) c"
    have s: "sint (pt_x ?s) = sint (rg_x dst) + ax + sint (pt_x c)"
      "sint (pt_y ?s) = sint (rg_y dst) + ay + sint (pt_y c)"
      using sh c by (simp_all add: point_add_def origin shifted_def)
    have d: "sint (pt_x ?d) = sint (rg_x dst) + sint (pt_x c)"
      "sint (pt_y ?d) = sint (rg_y dst) + sint (pt_y c)"
      using dst c by (simp_all add: point_add_def topLeft_def inside_def)
    have "fb_pixel be src ?s = Inr (fb_image be src (nat (sint (pt_x ?s))) (nat (sint (pt_y ?s))))"
      using sh c by (intro fb_pixel_image [OF wf(2)]) (auto simp: s shifted_def)
    moreover define raw where "raw = fb_image be src (nat (sint (pt_x ?s))) (nat (sint (pt_y ?s)))"
    moreover have wf1: "fb_wf fb1" using wf(1) by (simp add: same_frame_simps [OF f])
    have "\<exists>fb'. setPixelRow be fb1 ?d (raw_of fb1 raw (Some (pixelFormat src))) 1 = Inr fb' \<and>
        paints be fb1 (\<lambda>i j. if int j = sint (pt_y ?d) \<and> sint (pt_x ?d) \<le> int i \<and> int i < sint (pt_x ?d) + int 1
          then take_bit (bitsPerPixel fb1) (raw_of fb1 raw (Some (pixelFormat src))) else fb_image be fb1 i j) fb'"
      using dst c by (intro setPixelRow_paints [OF wf1]) (auto simp: d inside_def same_frame_simps [OF f])
    then obtain fb' where set: "setPixelRow be fb1 ?d (raw_of fb1 raw (Some (pixelFormat src))) 1 = Inr fb'"
      and p: "paints be fb1 (\<lambda>i j. if int j = sint (pt_y ?d) \<and> sint (pt_x ?d) \<le> int i \<and> int i < sint (pt_x ?d) + int 1
          then take_bit (bitsPerPixel fb1) (raw_of fb1 raw (Some (pixelFormat src))) else fb_image be fb1 i j) fb'"
      by blast
    have "paints be fb1 (\<lambda>i j. if ?P c i j then copied be fb src ax ay i j else fb_image be fb1 i j) fb'"
    proof -
      have "(int j = sint (pt_y ?d) \<and> sint (pt_x ?d) \<le> int i \<and> int i < sint (pt_x ?d) + int 1) \<longleftrightarrow> ?P c i j"
        for i j unfolding d by auto
      moreover have "take_bit (bitsPerPixel fb1) (raw_of fb1 raw (Some (pixelFormat src))) =
          copied be fb src ax ay i j" if "?P c i j" for i j
      proof -
        have "int i + ax = sint (pt_x ?s)" "int j + ay = sint (pt_y ?s)" using that s by auto
        then show ?thesis
          using fmt by (simp add: copied_def raw_def raw_of_def same_frame_simps [OF f])
      qed
      ultimately show ?thesis using p unfolding paints_def by presburger
    qed
    with set show "\<exists>fb'. rbind (fb_pixel be src ?s) (\<lambda>p. setPixel be fb1 ?d p (Some (pixelFormat src))) = Inr fb' \<and>
        paints be fb1 (\<lambda>i j. if ?P c i j then copied be fb src ax ay i j else fb_image be fb1 i j) fb'"
      by (simp add: setPixel_def calculation raw_def)
  qed simp
  moreover have "(\<exists>c \<in> set (row_major (toSize dst)). ?P c i j) \<longleftrightarrow> (int i, int j) \<in> pixels dst" for i j
  proof
    assume "(int i, int j) \<in> pixels dst"
    then have "Point (narrow16 (int i - sint (rg_x dst))) (narrow16 (int j - sint (rg_y dst))) \<in> set (row_major (toSize dst))"
      unfolding set_row_major [OF fits] using dst by (simp add: toSize_def inside_def)
    with \<open>(int i, int j) \<in> pixels dst\<close> show "\<exists>c \<in> set (row_major (toSize dst)). ?P c i j"
      using dst by (intro bexI) (auto simp: inside_def)
  qed (use set_row_major [OF fits] in \<open>auto simp: toSize_def\<close>)
  ultimately show ?thesis by simp
qed

text \<open>The four parallel parts of a converting copy.\<close>

lemma divideCounts_halves:
  assumes "region_fits r" and "\<not> region_isEmpty r" and "uint (rg_width r) \<le> 32767" "uint (rg_height r) \<le> 32767"
  obtains ts where "divideCounts r 2 2 = Inr ts" and "tiles ts r" and "\<And>t. t \<in> set ts \<Longrightarrow> \<not> region_isEmpty t"
    and "\<And>t. t \<in> set ts \<Longrightarrow> uint (rg_width t) \<le> max 1 (uint (rg_width r) div 2)"
    and "\<And>t. t \<in> set ts \<Longrightarrow> uint (rg_height t) \<le> max 1 (uint (rg_height r) div 2)"
proof -
  define bw where "bw = (if rg_width r \<le> 2 then 1 else rg_width r div 2)"
  define bh where "bh = (if rg_height r \<le> 2 then 1 else rg_height r div 2)"
  have half: "uint (if w \<le> 2 then 1 else w div 2) \<noteq> 0 \<and> uint (if w \<le> 2 then 1 else w div 2) \<le> 32767 \<and>
      uint (if w \<le> 2 then 1 else w div 2) \<le> max 1 (uint w div 2)"
    if "uint w \<le> 32767" for w :: u16
  proof (cases "w \<le> 2")
    case False
    then have "2 < uint w" by (simp add: word_le_def)
    moreover from this that have "uint w div 2 \<noteq> 0 \<and> uint w div 2 \<le> 32767" by presburger
    ultimately show ?thesis using False by (simp add: uint_div)
  qed simp
  note w = half [OF assms(3), folded bw_def] and h = half [OF assms(4), folded bh_def]
  have e: "blocks_end r (Size bw bh)"
    using assms(2-4) w h
    by (auto simp: blocks_end_def size_isEmpty_def u16_eq_0_iff block_w_def block_h_def)
  have d: "divideCounts r 2 2 = Inr (blocks r (Size bw bh))"
    using e by (simp add: divideCounts_def Let_def bw_def bh_def divideBlocks_blocks)
  have "uint (rg_width t) \<le> max 1 (uint (rg_width r) div 2)" "uint (rg_height t) \<le> max 1 (uint (rg_height r) div 2)"
    if "t \<in> set (blocks r (Size bw bh))" for t
    using block_size(2,3) [OF e that] w h by (auto simp: word_le_def simp del: max.absorb_iff1 max.absorb_iff2)
  then show thesis using that [OF d blocks_tile [OF assms(1) e]] block_size(1) [OF e] by blast
qed

lemma blit_parts:
  assumes wf: "fb_wf fb" "fb_wf src" and fmt: "pixelFormat fb \<noteq> pixelFormat src"
    and dst: "inside dst fb" "\<not> region_isEmpty dst" and sh: "shifted src dst ax ay"
    and reg: "sint (rg_x reg) = sint (rg_x dst) + ax" "sint (rg_y reg) = sint (rg_y dst) + ay"
  shows "\<exists>fb'. rbind (divideCounts dst 2 2) (\<lambda>subs. foldM (\<lambda>sub. job (copy_pixels be src
        (point_add (topLeft reg) (point_sub (topLeft sub) (topLeft dst))) sub)) subs fb) = Inr fb' \<and>
    paints be fb (\<lambda>i j. if (int i, int j) \<in> pixels dst
       then copied be fb src ax ay i j else fb_image be fb i j) fb'"
proof -
  have fits: "region_fits dst" "uint (rg_width dst) \<le> 32767" "uint (rg_height dst) \<le> 32767"
    using dst(1) by (auto simp: region_fits_def inside_def)
  obtain ts where ts: "divideCounts dst 2 2 = Inr ts" "tiles ts dst"
      "\<And>t. t \<in> set ts \<Longrightarrow> \<not> region_isEmpty t"
    using divideCounts_halves [OF fits(1) dst(2) fits(2,3)] by metis
  let ?f = "\<lambda>sub. copy_pixels be src (point_add (topLeft reg) (point_sub (topLeft sub) (topLeft dst))) sub"
  have "\<exists>fb'. foldM ?f ts fb = Inr fb' \<and> paints be fb (\<lambda>i j. if \<exists>t \<in> set ts. (int i, int j) \<in> pixels t
       then copied be fb src ax ay i j else fb_image be fb i j) fb'"
  proof (rule foldM_paints [where ?fb0.0 = fb])
    fix t fb1 assume t: "t \<in> set ts" and f: "same_frame fb fb1"
    have "pixels t \<subseteq> pixels dst" using ts(2) t by (auto simp: tiles_def simp del: in_pixels)
    moreover have "0 < uint (rg_width t)" "0 < uint (rg_height t)"
      using ts(3) [OF t] by (auto simp: isEmpty_iff uint_pos_iff)
    moreover from this have "(sint (rg_x t), sint (rg_y t)) \<in> pixels t"
      "(sint (rg_x t) + uint (rg_width t) - 1, sint (rg_y t) + uint (rg_height t) - 1) \<in> pixels t" by auto
    ultimately have "(sint (rg_x t), sint (rg_y t)) \<in> pixels dst"
      "(sint (rg_x t) + uint (rg_width t) - 1, sint (rg_y t) + uint (rg_height t) - 1) \<in> pixels dst"
      by blast+
    then have le: "sint (rg_x dst) \<le> sint (rg_x t)" "sint (rg_y dst) \<le> sint (rg_y t)"
      "sint (rg_x t) + uint (rg_width t) \<le> sint (rg_x dst) + uint (rg_width dst)"
      "sint (rg_y t) + uint (rg_height t) \<le> sint (rg_y dst) + uint (rg_height dst)"
      "sint (rg_x t) < sint (rg_x dst) + uint (rg_width dst)"
      "sint (rg_y t) < sint (rg_y dst) + uint (rg_height dst)" by auto
    then have "inside t fb1" and "shifted src t ax ay"
      using dst(1) sh by (auto simp: inside_def shifted_def same_frame_simps [OF f])
    moreover have "sint (narrow16 (sint (rg_x t) - sint (rg_x dst))) = sint (rg_x t) - sint (rg_x dst)"
      "sint (narrow16 (sint (rg_y t) - sint (rg_y dst))) = sint (rg_y t) - sint (rg_y dst)"
      using le dst(1) by (auto simp: inside_def)
    then have "sint (pt_x (point_add (topLeft reg) (point_sub (topLeft t) (topLeft dst)))) = sint (rg_x t) + ax"
      "sint (pt_y (point_add (topLeft reg) (point_sub (topLeft t) (topLeft dst)))) = sint (rg_y t) + ay"
      using le sh by (simp_all add: point_add_def point_sub_def topLeft_def reg shifted_def)
    moreover have "fb_wf fb1" "pixelFormat fb1 \<noteq> pixelFormat src"
      using wf fmt by (simp_all add: same_frame_simps [OF f])
    ultimately show "\<exists>fb'. ?f t fb1 = Inr fb' \<and> paints be fb1 (\<lambda>i j. if (int i, int j) \<in> pixels t
       then copied be fb src ax ay i j else fb_image be fb1 i j) fb'"
      using copy_pixels_paints [OF _ wf(2), of fb1 t ax ay _ be] unfolding copied_frame [OF f] by blast
  qed simp
  moreover have "(\<exists>t \<in> set ts. (int i, int j) \<in> pixels t) \<longleftrightarrow> (int i, int j) \<in> pixels dst" for i j
    using ts(2) by (auto simp: tiles_def simp del: in_pixels)
  ultimately have "\<exists>fb'. foldM ?f ts fb = Inr fb' \<and> paints be fb (\<lambda>i j. if (int i, int j) \<in> pixels dst
       then copied be fb src ax ay i j else fb_image be fb i j) fb'" by (simp del: in_pixels)
  from job_foldM [OF this] ts(1) show ?thesis by simp
qed

lemma blitRegion_paints:
  assumes wf: "fb_wf fb" "fb_wf src" and orig: "at_origin fb"
    and reg: "inside reg src" and pos: "0 \<le> sint (pt_x pos)" "0 \<le> sint (pt_y pos)"
  shows "\<exists>fb'. blitRegion be par fb src reg pos = Inr fb' \<and>
    paints be fb (\<lambda>i j. if (int i, int j) \<in> pixels (region_of pos (toSize reg))
       then copied be fb src (sint (rg_x reg) - sint (pt_x pos)) (sint (rg_y reg) - sint (pt_y pos)) i j
       else fb_image be fb i j) fb'"
proof (cases rule: intersection_cases [of "region_of pos (toSize reg)" "fb_reg fb" region_default])
  case (some dst)
  let ?ax = "sint (rg_x reg) - sint (pt_x pos)" and ?ay = "sint (rg_y reg) - sint (pt_y pos)"
  have ins: "inside dst fb"
    using some(2) by (intro subset_inside [OF orig _ some(3)]) (simp del: in_pixels)
  have xy: "sint (rg_x dst) = sint (pt_x pos)" "sint (rg_y dst) = sint (pt_y pos)"
    using some(4,5) orig pos by (simp_all add: region_of_def at_origin_def)
  have "(sint (rg_x dst) + uint (rg_width dst) - 1, sint (rg_y dst) + uint (rg_height dst) - 1) \<in> pixels dst"
    using some(3) by (auto simp: isEmpty_iff uint_pos_iff)
  then have "(sint (rg_x dst) + uint (rg_width dst) - 1, sint (rg_y dst) + uint (rg_height dst) - 1)
      \<in> pixels (region_of pos (toSize reg))" unfolding some(2) by blast
  then have "uint (rg_width dst) \<le> uint (rg_width reg)" "uint (rg_height dst) \<le> uint (rg_height reg)"
    by (simp_all add: region_of_def toSize_def xy)
  then have sh: "shifted src dst ?ax ?ay" using reg by (simp add: shifted_def inside_def xy)
  have r: "sint (rg_x reg) = sint (rg_x dst) + ?ax" "sint (rg_y reg) = sint (rg_y dst) + ?ay"
    by (simp_all add: xy)
  then have t: "sint (pt_x (topLeft reg)) = sint (rg_x dst) + ?ax" "sint (pt_y (topLeft reg)) = sint (rg_y dst) + ?ay"
    by (simp_all add: topLeft_def)
  have "\<exists>fb'. blitRegion be par fb src reg pos = Inr fb' \<and>
    paints be fb (\<lambda>i j. if (int i, int j) \<in> pixels dst
       then copied be fb src ?ax ?ay i j else fb_image be fb i j) fb'"
  proof (cases "pixelFormat fb = pixelFormat src")
    case True
    note e = rows_paint [OF wf True ins sh r, of be]
    show ?thesis using e job_foldM [OF e] True some(1) by (simp add: blitRegion_def Let_def)
  next
    case False
    show ?thesis
      using blit_parts [OF wf False ins some(3) sh r, of be] copy_pixels_paints [OF wf False ins sh t, of be]
        False some(1) by (simp add: blitRegion_def Let_def)
  qed
  moreover have "(int i, int j) \<in> pixels dst \<longleftrightarrow> (int i, int j) \<in> pixels (region_of pos (toSize reg))"
    if "i < fb_width fb" "j < fb_height fb" for i j
    using some(2) that at_origin_pixels [OF orig, of "int i" "int j"] by (simp del: in_pixels)
  ultimately show ?thesis
    by (elim exE conjE) (intro exI conjI, assumption, erule paints_cong, simp)
next
  case none
  have "(int i, int j) \<notin> pixels (region_of pos (toSize reg))" if "i < fb_width fb" "j < fb_height fb" for i j
  proof -
    have "(int i, int j) \<in> pixels (fb_reg fb)"
      using that by (simp add: at_origin_pixels [OF orig] del: in_pixels)
    with none(2) show ?thesis by blast
  qed
  then have "paints be fb (\<lambda>i j. if (int i, int j) \<in> pixels (region_of pos (toSize reg))
       then copied be fb src (sint (rg_x reg) - sint (pt_x pos)) (sint (rg_y reg) - sint (pt_y pos)) i j
       else fb_image be fb i j) fb"
    unfolding paints_def by (metis same_frame_refl)
  moreover have "blitRegion be par fb src reg pos = Inr fb"
    by (simp only: blitRegion_def none(1) prod.case bool.case)
  ultimately show ?thesis by blast
qed

text \<open>
  C37. \<open>blitRegion\<close> copies a rectangle of one frame buffer to a position in another one: the
  pixels of the target the rectangle covers take the source's pixels, converted when the formats
  differ, all others stay; the rectangle may stick out at the right and bottom, and the
  sequential copy, the parallel row copy and the parallel converting copy agree.
\<close>

theorem blitRegion_correct:
  assumes "fb_wf fb" "fb_wf src" and "at_origin fb"
    and "inside reg src" and "0 \<le> sint (pt_x pos)" "0 \<le> sint (pt_y pos)"
  shows "\<exists>fb'. blitRegion be par fb src reg pos = Inr fb' \<and> fb_wf fb' \<and> fb_reg fb' = fb_reg fb \<and>
    (\<forall>i j. i < fb_width fb \<and> j < fb_height fb \<longrightarrow> fb_image be fb' i j =
      (if (int i, int j) \<in> pixels (region_of pos (toSize reg))
       then copied be fb src (sint (rg_x reg) - sint (pt_x pos)) (sint (rg_y reg) - sint (pt_y pos)) i j
       else fb_image be fb i j))"
proof -
  obtain fb' where "blitRegion be par fb src reg pos = Inr fb'" and "same_frame fb fb'" and
    "\<And>i j. i < fb_width fb \<Longrightarrow> j < fb_height fb \<Longrightarrow> fb_image be fb' i j =
      (if (int i, int j) \<in> pixels (region_of pos (toSize reg))
       then copied be fb src (sint (rg_x reg) - sint (pt_x pos)) (sint (rg_y reg) - sint (pt_y pos)) i j
       else fb_image be fb i j)"
    using blitRegion_paints [OF assms, of be par] unfolding paints_def by blast
  with assms(1) same_frame_simps [OF this(2)] show ?thesis by blast
qed

theorem blitRegion_correct_witness:
  "\<exists>fb'. blitRegion False True (frameBuffer_new (Size 3 2) RGB24 0) (frameBuffer_new (Size 3 2) RGB565 0)
      (Region 0 0 2 2) (Point 1 0) = Inr fb' \<and>
    fb_image False fb' 0 1 = fb_image False (frameBuffer_new (Size 3 2) RGB24 0) 0 1"
proof -
  have "inside (Region 0 0 2 2) (frameBuffer_new (Size 3 2) RGB565 0)" by (simp add: inside_def)
  from blitRegion_correct [OF sample_frame(1,3,2) this, of "Point 1 0" False True]
  obtain fb' where f: "blitRegion False True (frameBuffer_new (Size 3 2) RGB24 0)
      (frameBuffer_new (Size 3 2) RGB565 0) (Region 0 0 2 2) (Point 1 0) = Inr fb'"
    and img: "\<And>i j. i < 3 \<Longrightarrow> j < 2 \<Longrightarrow> (int i, int j) \<notin> pixels (region_of (Point 1 0) (Size 2 2)) \<Longrightarrow>
      fb_image False fb' i j = fb_image False (frameBuffer_new (Size 3 2) RGB24 0) i j"
    by (auto simp: toSize_def simp del: in_pixels)
  show ?thesis using f img [of 0 1] by (auto simp: region_of_def)
qed

lemma int_less_uint: "int i < uint w \<longleftrightarrow> i < unat w"
  by (simp add: zless_nat_eq_int_zless flip: nat_uint_eq)

text \<open>
  \<open>copyRegion\<close> and \<open>copyRegionFormat\<close> deliver a frame buffer of the region's size that shows
  the region's pixels: as they are, or converted to the format asked for.
\<close>

theorem copyRegion_correct:
  assumes "fb_wf fb" and "fmt_ok (pixelFormat fb)" and "fmt_ok pf" and "inside reg fb"
  shows "\<exists>cp cpf. copyRegion be par fb reg = Inr cp \<and> copyRegionFormat be par fb reg pf = Inr cpf \<and>
    fb_wf cp \<and> fb_wf cpf \<and> fb_reg cp = region_of (Point 0 0) (toSize reg) \<and> fb_reg cpf = fb_reg cp \<and>
    (\<forall>i j. i < unat (rg_width reg) \<and> j < unat (rg_height reg) \<longrightarrow>
       fb_image be cp i j = fb_image be fb (nat (sint (rg_x reg)) + i) (nat (sint (rg_y reg)) + j) \<and>
       fb_image be cpf i j =
         (if pf = pixelFormat fb then fb_image be cp i j
          else take_bit (unat (bitsPixel pf)) (convertFrom pf (pixelFormat fb) (fb_image be cp i j))))"
proof -
  have copy: "\<exists>cp. blitRegion be par (frameBuffer_new (toSize reg) f pitch) fb reg (Point 0 0) = Inr cp \<and>
      fb_wf cp \<and> fb_reg cp = region_of (Point 0 0) (toSize reg) \<and>
      (\<forall>i j. i < unat (rg_width reg) \<and> j < unat (rg_height reg) \<longrightarrow> fb_image be cp i j =
         copied be (frameBuffer_new (toSize reg) f pitch) fb (sint (rg_x reg)) (sint (rg_y reg)) i j)"
    if "fmt_ok f" for f pitch
  proof -
    have "at_origin (frameBuffer_new (toSize reg) f pitch)"
      using assms(4) by (auto simp: at_origin_def inside_def region_of_def toSize_def nat_le_iff simp flip: nat_uint_eq)
    from blitRegion_correct [OF frameBuffer_new_wf [OF that] assms(1) this assms(4), of "Point 0 0" be par]
    show ?thesis by (auto simp: toSize_def region_of_def int_less_uint)
  qed
  have pos: "0 \<le> sint (rg_x reg)" "0 \<le> sint (rg_y reg)" using assms(4) by (auto simp: inside_def)
  have img: "nat (int i + sint (rg_x reg)) = nat (sint (rg_x reg)) + i"
    "nat (int i + sint (rg_y reg)) = nat (sint (rg_y reg)) + i" for i
    using pos by (simp_all add: nat_add_distrib)
  let ?pitch = "if unat (rg_width reg) = fb_width fb then of_nat (pitchSize fb) else 0 :: u16"
  obtain cp where cp: "copyRegion be par fb reg = Inr cp" "fb_wf cp" "fb_reg cp = region_of (Point 0 0) (toSize reg)"
    "\<And>i j. i < unat (rg_width reg) \<Longrightarrow> j < unat (rg_height reg) \<Longrightarrow>
       fb_image be cp i j = fb_image be fb (nat (sint (rg_x reg)) + i) (nat (sint (rg_y reg)) + j)"
    using copy [OF assms(2), of ?pitch]
    by (auto simp: copyRegion_def copied_def Let_def img)
  obtain cpf where cpf: "copyRegionFormat be par fb reg pf = Inr cpf" "fb_wf cpf"
    "fb_reg cpf = region_of (Point 0 0) (toSize reg)"
    "\<And>i j. i < unat (rg_width reg) \<Longrightarrow> j < unat (rg_height reg) \<Longrightarrow>
       fb_image be cpf i j = (let p = fb_image be fb (nat (sint (rg_x reg)) + i) (nat (sint (rg_y reg)) + j) in
         if pf = pixelFormat fb then p else take_bit (unat (bitsPixel pf)) (convertFrom pf (pixelFormat fb) p))"
    using copy [OF assms(3), of 0]
    by (auto simp: copyRegionFormat_def copied_def Let_def img)
  show ?thesis using cp cpf by (intro exI [of _ cp] exI [of _ cpf]) (simp add: Let_def)
qed

theorem copyRegion_correct_witness:
  "\<exists>cp. copyRegion False False (frameBuffer_new (Size 3 2) RGB24 0) (Region 1 0 2 2) = Inr cp \<and>
    fb_image False cp 1 1 = fb_image False (frameBuffer_new (Size 3 2) RGB24 0) 2 1"
proof -
  have "inside (Region 1 0 2 2) (frameBuffer_new (Size 3 2) RGB24 0)" by (simp add: inside_def)
  from copyRegion_correct [OF sample_frame(1) _ formats_ok(1) this, of False False]
  obtain cp where "copyRegion False False (frameBuffer_new (Size 3 2) RGB24 0) (Region 1 0 2 2) = Inr cp"
    "\<forall>i j. i < 2 \<and> j < 2 \<longrightarrow> fb_image False cp i j =
       fb_image False (frameBuffer_new (Size 3 2) RGB24 0) (1 + i) j" by auto
  then show ?thesis by (intro exI [of _ cp]) (simp add: numeral_2_eq_2)
qed

end
