(* ===== verification/Frame_Buffer_Scans.thy ===== *)
theory Frame_Buffer_Scans
  imports Frame_Buffer_Image
begin

text \<open>
  The scans of \<open>FrameBuffer\<close>: run lengths, pixel weights, palettes, the colour set and the test
  for a single pixel. Each is a function of the region's pixels, row by row; the parallel bands
  change neither the counts nor the sets, and a region too flat for them makes the code loop.
\<close>

section \<open>Scans\<close>

text \<open>The pixels of a region, row by row.\<close>

definition region_image :: "bool \<Rightarrow> framebuffer \<Rightarrow> region \<Rightarrow> u32 list" where
  "region_image be fb reg = map (\<lambda>(px, py). fb_image be fb (nat (sint (rg_x reg)) + px) (nat (sint (rg_y reg)) + py))
     (loop_coords reg)"

lemma set_loop_coords:
  "(px, py) \<in> set (loop_coords reg) \<longleftrightarrow> px < unat (rg_width reg) \<and> py < unat (rg_height reg)"
  by (auto simp: loop_coords_def image_iff)

lemma length_loop_coords: "length (loop_coords reg) = unat (rg_width reg) * unat (rg_height reg)"
  by (simp add: loop_coords_def length_concat comp_def sum_list_triv mult.commute)

lemma scan_pixel_image:
  assumes "fb_wf fb" and "inside reg fb" and "c \<in> set (loop_coords reg)"
  shows "scan_pixel be fb reg c =
    Inr (fb_image be fb (nat (sint (rg_x reg)) + fst c) (nat (sint (rg_y reg)) + snd c))"
proof -
  obtain px py where c: "c = (px, py)" by (cases c)
  let ?X = "nat (sint (rg_x reg)) + px" and ?Y = "nat (sint (rg_y reg)) + py"
  have p: "px < unat (rg_width reg)" "py < unat (rg_height reg)" using assms(3) c by (simp_all add: set_loop_coords)
  then have "int px < uint (rg_width reg)" "int py < uint (rg_height reg)" by (simp_all add: int_less_uint)
  then have X: "sint (rg_x reg) + int px = int ?X" "sint (rg_y reg) + int py = int ?Y"
    and "?X < fb_width fb" and "?Y < fb_height fb"
    using assms(2) by (auto simp: inside_def)
  then show ?thesis
    using pix_addr [OF assms(1), of ?Y ?X] raw_at_image [OF assms(1), of ?X ?Y be]
    by (simp add: scan_pixel_def c del: of_nat_add)
qed

lemma foldM_Inr: "(\<And>x t. x \<in> set xs \<Longrightarrow> f x t = Inr (g x t)) \<Longrightarrow> foldM f xs s = Inr (fold g xs s)"
  by (induction xs arbitrary: s) auto

lemma scan_image:
  assumes "fb_wf fb" and "inside reg fb"
  shows "scan be fb f a reg = Inr (fold f (region_image be fb reg) a)"
proof -
  have "scan be fb f a reg = Inr (fold (\<lambda>c. f (fb_image be fb (nat (sint (rg_x reg)) + fst c)
      (nat (sint (rg_y reg)) + snd c))) (loop_coords reg) a)"
    unfolding scan_def by (rule foldM_Inr) (simp add: scan_pixel_image [OF assms])
  then show ?thesis by (simp add: region_image_def fold_map comp_def split_beta')
qed

subsection \<open>Bands\<close>

text \<open>The parallel scans cut a region of at least four rows into bands, top to bottom.\<close>

definition bands_end :: "region \<Rightarrow> bool" where
  "bands_end reg \<longleftrightarrow> 0 < uint (rg_width reg) \<and> 4 \<le> uint (rg_height reg)"

lemma upt_split: "a \<le> b \<Longrightarrow> b \<le> c \<Longrightarrow> [a..<b] @ [b..<c] = [a..<c]"
  by (metis le_Suc_ex upt_add_eq_append)

lemma upt_cuts:
  assumes "0 < c" and "0 \<le> k"
  shows "concat (map (\<lambda>y. [nat y..<nat (min (y + c) n)]) (cuts c n k)) = [nat k..<nat n]"
  using assms
proof (induction c n k rule: cuts.induct)
  case (1 c n k)
  show ?case
  proof (cases "k < n")
    case True
    then have "concat (map (\<lambda>y. [nat y..<nat (min (y + c) n)]) (cuts c n k)) =
        [nat k..<nat (min (k + c) n)] @ [nat (k + c)..<nat n]"
      using 1 by (subst cuts.simps) simp
    also have "\<dots> = [nat k..<nat n]"
    proof (cases "k + c \<le> n")
      case True
      with 1 show ?thesis by (simp add: min_def upt_split)
    qed (simp add: min_def)
    finally show ?thesis .
  qed simp
qed

lemma concat_map_concat: "concat (map (\<lambda>y. concat (g y)) ys) = concat (concat (map g ys))"
  by (induction ys) auto

definition image_row :: "bool \<Rightarrow> framebuffer \<Rightarrow> region \<Rightarrow> nat \<Rightarrow> u32 list" where
  "image_row be fb reg j = map (\<lambda>i. fb_image be fb (nat (sint (rg_x reg)) + i) (nat (sint (rg_y reg)) + j))
     [0..<unat (rg_width reg)]"

lemma region_image_rows: "region_image be fb reg = concat (map (image_row be fb reg) [0..<unat (rg_height reg)])"
  by (simp add: region_image_def loop_coords_def image_row_def [abs_def] map_concat comp_def)

definition band_list :: "region \<Rightarrow> region list" where
  "band_list reg = map (\<lambda>y. block reg (uint (rg_width reg)) (uint (rg_height reg div 4)) y 0)
     (cuts (uint (rg_height reg div 4)) (uint (rg_height reg)) 0)"

lemma bands_band_list:
  assumes "inside reg fb" and "bands_end reg"
  shows "bands reg = Inr (band_list reg)"
proof -
  have d: "uint (rg_height reg div 4) = uint (rg_height reg) div 4" by (simp add: uint_div)
  have w: "0 < uint (rg_width reg)" "uint (rg_width reg) \<le> 32767" "4 \<le> uint (rg_height reg)"
    "uint (rg_height reg) \<le> 32767"
    using assms by (auto simp: inside_def bands_end_def)
  then have h: "0 < uint (rg_height reg) div 4" "uint (rg_height reg) div 4 \<le> uint (rg_height reg)" by presburger+
  let ?sz = "Size (rg_width reg) (rg_height reg div 4)"
  have bw: "block_w reg ?sz = uint (rg_width reg)" "block_h reg ?sz = uint (rg_height reg div 4)"
    using h by (simp_all add: block_w_def block_h_def d)
  then have "blocks_end reg ?sz"
    using w h by (auto simp: blocks_end_def isEmpty_iff size_isEmpty_def u16_eq_0_iff d)
  then have "bands reg = Inr (blocks reg ?sz)" by (simp add: bands_def divideBlocks_blocks)
  moreover have "cuts (uint (rg_width reg)) (uint (rg_width reg)) 0 = [0]"
    using w by (subst cuts.simps) simp
  ultimately show ?thesis by (simp add: blocks_def bw band_list_def comp_def)
qed

lemma band_list_image:
  assumes "inside reg fb" and "bands_end reg"
  shows "\<forall>b \<in> set (band_list reg). inside b fb"
    and "concat (map (region_image be fb) (band_list reg)) = region_image be fb reg"
proof -
  have fits: "region_fits reg" using assms(1) by (auto simp: region_fits_def inside_def)
  have "4 \<le> uint (rg_height reg)" and w: "0 < uint (rg_width reg)"
    using assms(2) by (simp_all add: bands_end_def)
  then have "0 < uint (rg_height reg) div 4" by presburger
  then have ch: "0 < uint (rg_height reg div 4)" by (simp add: uint_div)
  let ?W = "uint (rg_width reg)" and ?C = "uint (rg_height reg div 4)" and ?H = "uint (rg_height reg)"
  have f: "sint (rg_x (block reg ?W ?C y 0)) = sint (rg_x reg)"
      "sint (rg_y (block reg ?W ?C y 0)) = sint (rg_y reg) + y"
      "uint (rg_width (block reg ?W ?C y 0)) = ?W"
      "uint (rg_height (block reg ?W ?C y 0)) = min (?H - y) ?C"
      "0 \<le> y" "y < ?H" if "y \<in> set (cuts ?C ?H 0)" for y
    using block_fields [OF fits w ch, of 0 y] cuts_range [OF that] w by auto
  show "\<forall>b \<in> set (band_list reg). inside b fb"
    using assms(1) f by (auto simp: band_list_def inside_def)
  have "region_image be fb (block reg ?W ?C y 0) = concat (map (image_row be fb reg) [nat y..<nat (min (y + ?C) ?H)])"
    if y: "y \<in> set (cuts ?C ?H 0)" for y
  proof -
    let ?b = "block reg ?W ?C y 0"
    have wd: "rg_width ?b = rg_width reg" using f(3) [OF y] by (simp add: word_uint_eq_iff)
    have ht: "unat (rg_height ?b) = nat (min (?H - y) ?C)" using f(4) [OF y] by (metis nat_uint_eq)
    have sx: "nat (sint (rg_x ?b)) = nat (sint (rg_x reg))" using f(1) [OF y] by simp
    have sy: "nat (sint (rg_y ?b)) = nat (sint (rg_y reg)) + nat y"
      using f(2,5) [OF y] assms(1) by (simp add: inside_def nat_add_distrib)
    have "image_row be fb ?b = (\<lambda>j. image_row be fb reg (j + nat y))"
      by (intro ext) (simp add: image_row_def wd sx sy add_ac)
    moreover have shift: "map (\<lambda>j. j + nat y) [0..<unat (rg_height ?b)] = [nat y..<nat (min (y + ?C) ?H)]"
    proof -
      have "min (?H - y) ?C + y = min (y + ?C) ?H" by (auto simp: min_def)
      then have "nat (min (?H - y) ?C) + nat y = nat (min (y + ?C) ?H)"
        using f(5,6) [OF y] ch by (subst nat_add_distrib [symmetric]) auto
      then show ?thesis unfolding map_add_upt ht by simp
    qed
    ultimately have "map (image_row be fb ?b) [0..<unat (rg_height ?b)] =
        map (image_row be fb reg) [nat y..<nat (min (y + ?C) ?H)]"
      by (simp only: map_map comp_def flip: shift)
    then show ?thesis unfolding region_image_rows by (rule arg_cong)
  qed
  then have "concat (map (region_image be fb) (band_list reg)) =
      concat (map (\<lambda>y. concat (map (image_row be fb reg) [nat y..<nat (min (y + ?C) ?H)])) (cuts ?C ?H 0))"
    by (simp add: band_list_def comp_def cong: map_cong)
  also have "\<dots> = concat (map (image_row be fb reg)
      (concat (map (\<lambda>y. [nat y..<nat (min (y + ?C) ?H)]) (cuts ?C ?H 0))))"
    by (simp add: map_concat comp_def concat_map_concat)
  also have "\<dots> = region_image be fb reg"
    unfolding upt_cuts [OF ch order_refl] region_image_rows by simp
  finally show "concat (map (region_image be fb) (band_list reg)) = region_image be fb reg" .
qed

subsection \<open>Run lengths\<close>

definition expand :: "pixellengths \<Rightarrow> u32 list" where
  "expand rs = concat (map (\<lambda>(p, n). replicate (unat n) p) rs)"

lemma expand_append [simp]: "expand (as @ bs) = expand as @ expand bs"
  by (simp add: expand_def)

text \<open>No run is empty and neighbouring runs differ.\<close>

definition runs_ok :: "pixellengths \<Rightarrow> bool" where
  "runs_ok rs \<longleftrightarrow> (\<forall>r \<in> set rs. snd r \<noteq> 0) \<and> (\<forall>i. Suc i < length rs \<longrightarrow> fst (rs ! i) \<noteq> fst (rs ! Suc i))"

lemma runs_ok_snoc:
  "runs_ok (rs @ [r]) \<longleftrightarrow> runs_ok rs \<and> snd r \<noteq> 0 \<and> (rs = [] \<or> fst (last rs) \<noteq> fst r)"
proof (cases rs rule: rev_cases)
  case (snoc ys y)
  have "(\<forall>i. Suc i < Suc (length rs) \<longrightarrow> fst ((rs @ [r]) ! i) \<noteq> fst ((rs @ [r]) ! Suc i)) \<longleftrightarrow>
      (\<forall>i. Suc i < length rs \<longrightarrow> fst (rs ! i) \<noteq> fst (rs ! Suc i)) \<and> fst y \<noteq> fst r"
    by (auto simp: snoc nth_append less_Suc_eq)
  then show ?thesis by (auto simp: runs_ok_def snoc)
qed (simp add: runs_ok_def)

lemma expand_length_ge: "runs_ok rs \<Longrightarrow> rs \<noteq> [] \<Longrightarrow> unat (snd (last rs)) \<le> length (expand rs)"
  by (cases rs rule: rev_cases) (auto simp: expand_def split: prod.split)

lemma rle_push_expand:
  assumes "runs_ok rs" and "length (expand rs) < 2 ^ 32 - 1"
  shows "expand (rle_push p rs) = expand rs @ [p] \<and> runs_ok (rle_push p rs)"
proof (cases "rs \<noteq> [] \<and> fst (last rs) = p")
  case True
  then obtain ys n where rs: "rs = ys @ [(p, n)]" by (metis append_butlast_last_id prod.collapse)
  then have "unat n < 2 ^ 32 - 1" using expand_length_ge [OF assms(1)] assms(2) by auto
  then have n: "unat (n + 1) = unat n + 1" by (simp add: unat_word_ariths)
  then have "n + 1 \<noteq> 0" by (metis Suc_eq_plus1 nat.distinct(1) unat_0)
  with n assms(1) rs show ?thesis
    by (simp add: rle_push_def runs_ok_snoc expand_def replicate_append_same)
next
  case False
  then show ?thesis using assms(1) by (auto simp: rle_push_def runs_ok_snoc expand_def)
qed

lemma rle_fold:
  "runs_ok rs \<Longrightarrow> length (expand rs) + length ps < 2 ^ 32 \<Longrightarrow>
   expand (fold rle_push ps rs) = expand rs @ ps \<and> runs_ok (fold rle_push ps rs)"
proof (induction ps arbitrary: rs)
  case (Cons p ps)
  with rle_push_expand [of rs p] show ?case by simp
qed simp

lemma length_region_image: "length (region_image be fb reg) = unat (rg_width reg) * unat (rg_height reg)"
  by (simp add: region_image_def length_loop_coords)

lemma region_image_small: "length (region_image be fb reg) < 2 ^ 32"
proof -
  have "unat (rg_width reg) \<le> 2 ^ 16 - 1" "unat (rg_height reg) \<le> 2 ^ 16 - 1"
    using unsigned_less [of "rg_width reg", where ?'a = nat] unsigned_less [of "rg_height reg", where ?'a = nat]
    by simp_all
  then have "unat (rg_width reg) * unat (rg_height reg) \<le> (2 ^ 16 - 1) * (2 ^ 16 - 1)"
    by (rule mult_le_mono)
  then show ?thesis by (simp add: length_region_image)
qed

text \<open>Every parallel scan is the sequential scan of its bands; it ends unless a big region is flat.\<close>

definition scan_ends :: "bool \<Rightarrow> region \<Rightarrow> bool" where
  "scan_ends par reg \<longleftrightarrow> \<not> (par \<and> big reg) \<or> bands_end reg"

lemma toRLE_runs:
  assumes "fb_wf fb" and "inside reg fb" and "scan_ends par reg"
  shows "\<exists>rs. toRLE be par fb reg = Inr rs \<and> expand rs = region_image be fb reg \<and>
    (\<forall>r \<in> set rs. snd r \<noteq> 0) \<and> (\<not> (par \<and> big reg) \<longrightarrow> runs_ok rs)"
proof (cases "par \<and> big reg")
  case False
  have "runs_ok []" by (simp add: runs_ok_def)
  with rle_fold [of "[]" "region_image be fb reg"] region_image_small [of be fb reg]
  have "expand (fold rle_push (region_image be fb reg) []) = region_image be fb reg \<and>
      runs_ok (fold rle_push (region_image be fb reg) [])" by (simp add: expand_def)
  with False show ?thesis
    by (auto simp: toRLE_def scan_image [OF assms(1,2)] runs_ok_def)
next
  case True
  then have e: "bands_end reg" using assms(3) by (simp add: scan_ends_def)
  let ?rle = "\<lambda>b. fold rle_push (region_image be fb b) []"
  have rle: "expand (?rle b) = region_image be fb b \<and> runs_ok (?rle b)" for b
    using rle_fold [of "[]" "region_image be fb b"] region_image_small [of be fb b]
    by (simp add: expand_def runs_ok_def)
  have "toRLE be par fb reg = Inr (concat (map ?rle (band_list reg)))"
    using True bands_band_list [OF assms(2) e] band_list_image(1) [OF assms(2) e]
    by (simp add: toRLE_def concatM_Inr scan_image [OF assms(1)])
  moreover have "expand (concat (map ?rle bs)) = concat (map (region_image be fb) bs)" for bs
    by (induction bs) (simp_all add: rle, simp add: expand_def)
  moreover have "\<forall>r \<in> set (concat (map ?rle (band_list reg))). snd r \<noteq> 0"
    using rle by (auto simp: runs_ok_def)
  ultimately show ?thesis using True band_list_image(2) [OF assms(2) e] by auto
qed

text \<open>
  \<open>toRLE\<close> loses nothing: the runs it returns, sequential or computed band by band, expand to
  the pixels of the region row by row, and no run is empty. Without the parallel bands
  neighbouring runs have different pixels, so the encoding is the shortest one.
\<close>

theorem toRLE_expands:
  assumes "fb_wf fb" and "inside reg fb" and "scan_ends par reg"
  shows "\<exists>rs. toRLE be par fb reg = Inr rs \<and> expand rs = region_image be fb reg \<and>
    (\<forall>r \<in> set rs. snd r \<noteq> 0) \<and> (\<not> (par \<and> big reg) \<longrightarrow> runs_ok rs)"
  by (rule toRLE_runs [OF assms])

subsection \<open>Weights\<close>

lemma map_of_add_weight:
  "map_of (add_weight k n m) q = (if q = k then Some (case map_of m k of None \<Rightarrow> n | Some x \<Rightarrow> x + n) else map_of m q)"
  by (induction k n m rule: add_weight.induct) auto

lemma keys_add_weight: "fst ` set (add_weight k n m) = insert k (fst ` set m)"
  by (induction k n m rule: add_weight.induct) auto

lemma distinct_add_weight: "distinct (map fst m) \<Longrightarrow> distinct (map fst (add_weight k n m))"
  by (induction k n m rule: add_weight.induct) (auto simp: keys_add_weight)

text \<open>The order of iteration is a permutation of the keys.\<close>

definition perm_order :: "(u32 list \<Rightarrow> u32 list) \<Rightarrow> bool" where
  "perm_order ord \<longleftrightarrow> (\<forall>ks. distinct ks \<longrightarrow> mset (ord ks) = mset ks)"

lemma perm_orderD:
  assumes "perm_order ord" and "distinct ks"
  shows "distinct (ord ks)" and "set (ord ks) = set ks" and "length (ord ks) = length ks"
proof -
  have m: "mset (ord ks) = mset ks" using assms by (simp add: perm_order_def)
  then show "distinct (ord ks)" using assms(2) by (metis mset_eq_imp_distinct_iff)
  show "set (ord ks) = set ks" using m by (rule mset_eq_setD)
  show "length (ord ks) = length ks" using m by (metis size_mset)
qed

lemma map_of_iterate:
  assumes "perm_order ord" and "distinct (map fst m)"
  shows "map_of (iterate ord m) = map_of m" and "distinct (map fst (iterate ord m))"
proof -
  note o = perm_orderD [OF assms]
  show "map_of (iterate ord m) = map_of m"
  proof
    fix q
    have "map_of (iterate ord m) q = (if q \<in> fst ` set m then Some (the (map_of m q)) else None)"
      using o(2) by (simp add: iterate_def map_of_map_restrict restrict_map_def)
    also have "\<dots> = map_of m q" using map_of_eq_None_iff [of m q] by (cases "map_of m q") auto
    finally show "map_of (iterate ord m) q = map_of m q" .
  qed
  show "distinct (map fst (iterate ord m))" using o(1) by (simp add: iterate_def comp_def)
qed

text \<open>\<open>weighs m ps\<close>: the map holds how often every pixel occurs in the list.\<close>

definition weighs :: "pixelmap \<Rightarrow> u32 list \<Rightarrow> bool" where
  "weighs m ps \<longleftrightarrow> distinct (map fst m) \<and>
     (\<forall>q. map_of m q = (if q \<in> set ps then Some (of_nat (count_list ps q)) else None))"

lemma weighs_scan: "weighs m ps \<Longrightarrow> weighs (fold (\<lambda>p. add_weight p 1) qs m) (ps @ qs)"
proof (induction qs arbitrary: m ps)
  case Nil
  then show ?case by simp
next
  case (Cons q qs)
  have "weighs (add_weight q 1 m) (ps @ [q])"
    using Cons.prems by (auto simp: weighs_def distinct_add_weight map_of_add_weight count_list_append)
  from Cons.IH [OF this] show ?case by simp
qed

lemma map_of_merge:
  "distinct (map fst es) \<Longrightarrow> distinct (map fst m) \<Longrightarrow>
   distinct (map fst (fold (\<lambda>(k, n). add_weight k n) es m)) \<and>
   map_of (fold (\<lambda>(k, n). add_weight k n) es m) q = (case map_of es q of None \<Rightarrow> map_of m q
     | Some n \<Rightarrow> Some (case map_of m q of None \<Rightarrow> n | Some x \<Rightarrow> x + n))"
proof (induction es arbitrary: m)
  case Nil
  then show ?case by simp
next
  case (Cons e es)
  then have "map_of es (fst e) = None" by (simp add: map_of_eq_None_iff)
  with Cons show ?case
    by (cases e) (simp add: distinct_add_weight map_of_add_weight split: option.split)
qed

lemma weighs_merge:
  assumes "perm_order ord" and "weighs m ps" and "weighs e qs"
  shows "weighs (fold (\<lambda>(k, n). add_weight k n) (iterate ord e) m) (ps @ qs)"
proof -
  have d: "distinct (map fst e)" "distinct (map fst m)" using assms by (simp_all add: weighs_def)
  note it = map_of_iterate [OF assms(1) d(1)]
  show ?thesis
    using map_of_merge [OF it(2) d(2)] assms(2,3) unfolding it(1) weighs_def
    by (simp add: count_list_append)
qed

lemma weighs_fold_merge:
  assumes "perm_order ord"
  shows "weighs m ps \<Longrightarrow> (\<And>b. b \<in> set bs \<Longrightarrow> weighs (f b) (g b)) \<Longrightarrow>
    weighs (fold (\<lambda>e map. fold (\<lambda>(k, n). add_weight k n) (iterate ord e) map) (map f bs) m)
      (ps @ concat (map g bs))"
proof (induction bs arbitrary: m ps)
  case Nil
  then show ?case by simp
next
  case (Cons b bs)
  have "weighs (fold (\<lambda>(k, n). add_weight k n) (iterate ord (f b)) m) (ps @ g b)"
    by (rule weighs_merge [OF assms Cons.prems(1)]) (simp add: Cons.prems(2))
  from Cons.IH [OF this] Cons.prems(2) show ?case by simp
qed

lemma pixelMapWeight_weighs:
  assumes "fb_wf fb" and "inside reg fb" and "scan_ends par reg" and "perm_order ord"
  shows "\<exists>m. pixelMapWeight ord be par fb reg = Inr m \<and> weighs m (region_image be fb reg)"
proof -
  have empty: "weighs [] []" by (simp add: weighs_def)
  have seq: "\<exists>m. weight_scan be fb b = Inr m \<and> m = fold (\<lambda>p. add_weight p 1) (region_image be fb b) [] \<and>
      weighs m (region_image be fb b)" if "inside b fb" for b
    using weighs_scan [OF empty, of "region_image be fb b"] by (simp add: weight_scan_def scan_image [OF assms(1) that])
  have iter: "weighs (iterate ord m) ps" if "weighs m ps" for m ps
    using that map_of_iterate [OF assms(4), of m] by (simp add: weighs_def)
  show ?thesis
  proof (cases "par \<and> big reg")
    case False
    with seq [OF assms(2)] iter show ?thesis by (auto simp: pixelMapWeight_def)
  next
    case True
    then have e: "bands_end reg" using assms(3) by (simp add: scan_ends_def)
    let ?w = "\<lambda>b. fold (\<lambda>p. add_weight p 1) (region_image be fb b) []"
    have "mapM (weight_scan be fb) (band_list reg) = Inr (map ?w (band_list reg))"
      using band_list_image(1) [OF assms(2) e] seq by (intro mapM_Inr) blast
    moreover have "weighs (fold (\<lambda>e map. fold (\<lambda>(k, n). add_weight k n) (iterate ord e) map)
        (map ?w (band_list reg)) []) (region_image be fb reg)"
      using weighs_fold_merge [OF assms(4) empty, of "band_list reg" ?w "region_image be fb"]
        weighs_scan [OF empty] band_list_image(2) [OF assms(2) e, of be] by simp
    ultimately show ?thesis
      using True iter bands_band_list [OF assms(2) e] by (auto simp: pixelMapWeight_def)
  qed
qed

lemma heaviest:
  "let b = fold (\<lambda>x best. if snd best < snd x then x else best) es e in
   b \<in> set (e # es) \<and> (\<forall>x \<in> set (e # es). snd x \<le> (snd b :: u32))"
proof (induction es arbitrary: e)
  case Nil
  then show ?case by simp
next
  case (Cons x es)
  from Cons.IH [of "if snd e < snd x then x else e"] show ?case
    by (cases "snd e < snd x") (auto simp: Let_def)
qed

lemma pixelMapWeight_region:
  assumes "fb_wf fb" and "inside reg fb" and "\<not> region_isEmpty reg" and "scan_ends par reg" and "perm_order ord"
  shows "\<exists>m. pixelMapWeight ord be par fb reg = Inr m \<and> distinct (map fst m) \<and>
    (\<forall>q. map_of m q = (if q \<in> set (region_image be fb reg)
       then Some (of_nat (count_list (region_image be fb reg) q)) else None)) \<and>
    maxWeightPixel m \<in> set (region_image be fb reg) \<and>
    (\<forall>q. count_list (region_image be fb reg) q \<le> count_list (region_image be fb reg) (maxWeightPixel m))"
proof -
  let ?ps = "region_image be fb reg"
  obtain m where m: "pixelMapWeight ord be par fb reg = Inr m" "weighs m ?ps"
    using pixelMapWeight_weighs [OF assms(1,2,4,5)] by blast
  have small: "count_list ?ps q < 2 ^ 32" for q
    using count_le_length [of ?ps q] region_image_small [of be fb reg] by simp
  have "?ps \<noteq> []" using assms(3) length_region_image [of be fb reg]
    by (auto simp: isEmpty_iff unat_eq_0 simp flip: length_0_conv)
  then obtain p where "p \<in> set ?ps" by (cases ?ps) auto
  then have "map_of m p \<noteq> None" using m(2) by (simp add: weighs_def)
  then obtain e es where es: "m = e # es" by (cases m) auto
  define b where "b = fold (\<lambda>x best. if snd best < snd x then x else best) es e"
  have b: "b \<in> set m" "\<And>x. x \<in> set m \<Longrightarrow> snd x \<le> snd b"
    using heaviest [of es e] by (auto simp: es b_def Let_def)
  have max: "maxWeightPixel m = fst b" by (simp add: maxWeightPixel_def es b_def)
  have "map_of m (fst b) = Some (snd b)" using b(1) m(2) unfolding weighs_def by (metis map_of_is_SomeI prod.collapse)
  then have bw: "fst b \<in> set ?ps" "snd b = of_nat (count_list ?ps (fst b))"
    using m(2) by (auto simp: weighs_def split: if_splits)
  have "count_list ?ps q \<le> count_list ?ps (fst b)" for q
  proof (cases "q \<in> set ?ps")
    case True
    then have "map_of m q = Some (of_nat (count_list ?ps q))" using m(2) by (simp add: weighs_def)
    then have "(of_nat (count_list ?ps q) :: u32) \<le> of_nat (count_list ?ps (fst b))"
      using b(2) [of "(q, of_nat (count_list ?ps q))"] bw(2) by (simp add: map_of_SomeD)
    then show ?thesis
      using small [of q] small [of "fst b"]
      by (simp add: word_le_nat_alt unsigned_of_nat take_bit_nat_eq_self)
  qed (simp add: count_notin)
  with m bw(1) show ?thesis by (auto simp: max weighs_def)
qed

text \<open>
  \<open>pixelMapWeight\<close> counts: the map it returns, sequential or merged from the parallel bands,
  holds every pixel of the region with the number of its occurrences, and \<open>maxWeightPixel\<close>
  picks a pixel no other one of the region outnumbers, in whatever order the hash map iterates.
\<close>

theorem pixelMapWeight_counts:
  assumes "fb_wf fb" and "inside reg fb" and "\<not> region_isEmpty reg" and "scan_ends par reg" and "perm_order ord"
  shows "\<exists>m. pixelMapWeight ord be par fb reg = Inr m \<and> distinct (map fst m) \<and>
    (\<forall>q. map_of m q = (if q \<in> set (region_image be fb reg)
       then Some (of_nat (count_list (region_image be fb reg) q)) else None)) \<and>
    maxWeightPixel m \<in> set (region_image be fb reg) \<and>
    (\<forall>q. count_list (region_image be fb reg) q \<le> count_list (region_image be fb reg) (maxWeightPixel m))"
  by (rule pixelMapWeight_region [OF assms])

theorem pixelMapWeight_counts_witness:
  "\<exists>m. pixelMapWeight rev False True (frameBuffer_new (Size 3 2) RGB24 0) (Region 1 0 2 2) = Inr m \<and>
    distinct (map fst m)"
proof -
  have "inside (Region 1 0 2 2) (frameBuffer_new (Size 3 2) RGB24 0)" by (simp add: inside_def)
  moreover have "\<not> region_isEmpty (Region 1 0 2 2)" by (simp add: isEmpty_iff)
  moreover have "scan_ends True (Region 1 0 2 2)" by (simp add: scan_ends_def big_def)
  moreover have "perm_order rev" by (simp add: perm_order_def)
  ultimately show ?thesis
    using pixelMapWeight_counts [OF sample_frame(1), of "Region 1 0 2 2" True rev False] by blast
qed

theorem toRLE_expands_witness:
  "\<exists>rs. toRLE False True (frameBuffer_new (Size 3 2) RGB24 0) (Region 1 0 2 2) = Inr rs \<and>
    length (expand rs) = 4"
proof -
  have "inside (Region 1 0 2 2) (frameBuffer_new (Size 3 2) RGB24 0)" by (simp add: inside_def)
  moreover have "scan_ends True (Region 1 0 2 2)" by (simp add: scan_ends_def big_def)
  ultimately obtain rs where "toRLE False True (frameBuffer_new (Size 3 2) RGB24 0) (Region 1 0 2 2) = Inr rs"
    and "expand rs = region_image False (frameBuffer_new (Size 3 2) RGB24 0) (Region 1 0 2 2)"
    using toRLE_expands [OF sample_frame(1), of "Region 1 0 2 2" True False] by blast
  then show ?thesis by (simp add: length_region_image)
qed

subsection \<open>Palette and colours\<close>

lemma keys_try_emplace: "fst ` set (try_emplace k v m) = insert k (fst ` set m)"
  by (auto simp: try_emplace_def)

lemma distinct_try_emplace: "distinct (map fst m) \<Longrightarrow> distinct (map fst (try_emplace k v m))"
  by (simp add: try_emplace_def)

lemma try_emplace_fold:
  "distinct (map fst m) \<Longrightarrow> distinct (map fst (fold (\<lambda>x. try_emplace (k x) (v x)) xs m)) \<and>
   fst ` set (fold (\<lambda>x. try_emplace (k x) (v x)) xs m) = fst ` set m \<union> k ` set xs"
proof (induction xs arbitrary: m)
  case (Cons x xs)
  from Cons.IH [of "try_emplace (k x) (v x) m"] Cons.prems show ?case
    by (auto simp: distinct_try_emplace keys_try_emplace)
qed simp

lemma keys_iterate:
  "perm_order ord \<Longrightarrow> distinct (map fst m) \<Longrightarrow> fst ` set (iterate ord m) = fst ` set m"
  by (simp add: iterate_def image_image perm_orderD)

lemma palette_merge:
  assumes "perm_order ord" and "\<And>b. b \<in> set bs \<Longrightarrow> distinct (map fst (f b))"
  shows "distinct (map fst m) \<Longrightarrow>
    distinct (map fst (fold (\<lambda>e map. fold (\<lambda>(k, v). try_emplace k v) (iterate ord e) map) (map f bs) m)) \<and>
    fst ` set (fold (\<lambda>e map. fold (\<lambda>(k, v). try_emplace k v) (iterate ord e) map) (map f bs) m) =
      fst ` set m \<union> (\<Union>b \<in> set bs. fst ` set (f b))"
  using assms(2)
proof (induction bs arbitrary: m)
  case (Cons b bs)
  let ?m = "fold (\<lambda>(k, v). try_emplace k v) (iterate ord (f b)) m"
  have "distinct (map fst ?m)" "fst ` set ?m = fst ` set m \<union> fst ` set (f b)"
    using try_emplace_fold [of m fst snd "iterate ord (f b)"] keys_iterate [OF assms(1)] Cons.prems
    by (simp_all add: case_prod_beta')
  with Cons.IH [of ?m] Cons.prems(2) show ?case by auto
qed simp

lemma pixelMapPalette_region:
  assumes "fb_wf fb" and "inside reg fb" and "scan_ends par reg" and "perm_order ord"
  shows "\<exists>m. pixelMapPalette ord be par fb reg = Inr m \<and> length m = card (set (region_image be fb reg)) \<and>
    (\<forall>p \<in> set (region_image be fb reg). unat (findColorIndex m p) < length m \<and>
       fst (m ! unat (findColorIndex m p)) = p) \<and>
    (\<forall>p. p \<notin> set (region_image be fb reg) \<longrightarrow> findColorIndex m p = - 1)"
proof -
  let ?ps = "region_image be fb reg"
  have seq: "\<exists>m. palette_scan be fb b = Inr m \<and> m = fold (\<lambda>p. try_emplace p 0) (region_image be fb b) [] \<and>
      distinct (map fst m) \<and> fst ` set m = set (region_image be fb b)" if "inside b fb" for b
    using try_emplace_fold [of "[]" "\<lambda>p. p" "\<lambda>p. 0" "region_image be fb b"]
    by (simp add: palette_scan_def scan_image [OF assms(1) that])
  have "\<exists>m :: pixelmap. pixelMapPalette ord be par fb reg = Inr (zip (ord (map fst m)) (map of_nat [0..<length m])) \<and>
      distinct (map fst m) \<and> fst ` set m = set ?ps"
  proof (cases "par \<and> big reg")
    case False
    obtain m where "palette_scan be fb reg = Inr m" "distinct (map fst m)" "fst ` set m = set ?ps"
      using seq [OF assms(2)] by blast
    with False show ?thesis by (intro exI [of _ m]) (auto simp: pixelMapPalette_def)
  next
    case True
    then have e: "bands_end reg" using assms(3) by (simp add: scan_ends_def)
    let ?w = "\<lambda>b. fold (\<lambda>p. try_emplace p 0) (region_image be fb b) []"
    have each: "b \<in> set (band_list reg) \<Longrightarrow> palette_scan be fb b = Inr (?w b) \<and> distinct (map fst (?w b)) \<and>
        fst ` set (?w b) = set (region_image be fb b)" for b
      using band_list_image(1) [OF assms(2) e] seq by blast
    then have "mapM (palette_scan be fb) (band_list reg) = Inr (map ?w (band_list reg))"
      by (intro mapM_Inr) blast
    moreover have "(\<Union>b \<in> set (band_list reg). fst ` set (?w b)) = set ?ps"
      using each band_list_image(2) [OF assms(2) e, of be, THEN arg_cong, of set] by simp
    ultimately show ?thesis
      using True palette_merge [OF assms(4), of "band_list reg" ?w "[]"] each bands_band_list [OF assms(2) e]
      by (simp add: pixelMapPalette_def) blast
  qed
  then obtain m :: pixelmap where m: "pixelMapPalette ord be par fb reg = Inr (zip (ord (map fst m)) (map of_nat [0..<length m]))"
    "distinct (map fst m)" "fst ` set m = set ?ps" by blast
  define ks where "ks = ord (map fst m)"
  have ks: "distinct ks" "set ks = set ?ps" "length ks = length m"
    using perm_orderD [OF assms(4) m(2)] m(3) by (simp_all add: ks_def)
  define pal :: pixelmap where "pal = zip ks (map of_nat [0..<length m])"
  have len: "length pal = card (set ?ps)" using ks by (simp add: pal_def distinct_card flip: ks(2))
  have "card (set ?ps) < 2 ^ 32"
    using card_length [of ?ps] region_image_small [of be fb reg] by simp
  then have small: "i < length m \<Longrightarrow> unat (of_nat i :: u32) = i" for i
    using len ks by (simp add: pal_def unsigned_of_nat take_bit_nat_eq_self)
  have idx: "map_of pal (ks ! i) = Some (of_nat i)" if "i < length m" for i
    using ks that unfolding pal_def by (simp add: map_of_zip_nth)
  have "unat (findColorIndex pal p) < length pal \<and> fst (pal ! unat (findColorIndex pal p)) = p"
    if "p \<in> set ?ps" for p
  proof -
    from that ks obtain i where i: "i < length m" "p = ks ! i" by (metis in_set_conv_nth)
    then have "findColorIndex pal p = of_nat i" by (simp only: findColorIndex_def idx option.case)
    with i small ks show ?thesis by (simp add: pal_def)
  qed
  moreover have "findColorIndex pal p = - 1" if "p \<notin> set ?ps" for p
  proof -
    have "map_of pal p = None"
      using that ks unfolding map_of_eq_None_iff pal_def by (auto dest: set_zip_leftD)
    then show ?thesis by (simp only: findColorIndex_def option.case)
  qed
  moreover have "pixelMapPalette ord be par fb reg = Inr pal" using m(1) by (simp only: pal_def ks_def)
  ultimately show ?thesis using len by (intro exI [of _ pal]) blast
qed

text \<open>
  \<open>pixelMapPalette\<close> numbers the different pixels of a region: every pixel of the region has an
  index below the size of the palette, different pixels have different indexes, the entry at an
  index is the pixel itself, and \<open>findColorIndex\<close> of any other value is \<open>-1\<close>.
\<close>

theorem pixelMapPalette_indexes:
  assumes "fb_wf fb" and "inside reg fb" and "scan_ends par reg" and "perm_order ord"
  shows "\<exists>m. pixelMapPalette ord be par fb reg = Inr m \<and> length m = card (set (region_image be fb reg)) \<and>
    (\<forall>p \<in> set (region_image be fb reg). unat (findColorIndex m p) < length m \<and>
       fst (m ! unat (findColorIndex m p)) = p) \<and>
    (\<forall>p. p \<notin> set (region_image be fb reg) \<longrightarrow> findColorIndex m p = - 1)"
  by (rule pixelMapPalette_region [OF assms])

theorem pixelMapPalette_indexes_witness:
  "\<exists>m. pixelMapPalette rev False True (frameBuffer_new (Size 3 2) RGB24 0) (Region 1 0 2 2) = Inr m \<and>
    length m = card (set (region_image False (frameBuffer_new (Size 3 2) RGB24 0) (Region 1 0 2 2)))"
proof -
  have "inside (Region 1 0 2 2) (frameBuffer_new (Size 3 2) RGB24 0)" by (simp add: inside_def)
  moreover have "scan_ends True (Region 1 0 2 2)" by (simp add: scan_ends_def big_def)
  moreover have "perm_order rev" by (simp add: perm_order_def)
  ultimately show ?thesis
    using pixelMapPalette_indexes [OF sample_frame(1), of "Region 1 0 2 2" True rev False] by blast
qed

subsection \<open>The parallel scans of flat regions do not end\<close>

text \<open>
  C38. A region of more than 1024 pixels and fewer than four rows makes the parallel \<open>toRLE\<close>,
  \<open>pixelMapPalette\<close> and \<open>pixelMapWeight\<close> divide it into bands of no rows: the loop of
  \<open>divideBlocks\<close> never ends, and neither does the call.
\<close>

theorem flat_region_diverges:
  assumes "big reg" and "uint (rg_height reg) < 4"
  shows "toRLE be True fb reg = Inl Diverges \<and> pixelMapPalette ord be True fb reg = Inl Diverges \<and>
    pixelMapWeight ord be True fb reg = Inl Diverges"
proof -
  have "uint (rg_height reg) div 4 = 0" using assms(2) u16_bounds(3) [of "rg_height reg"] by presburger
  then have "rg_height reg div 4 = 0" by (simp add: u16_eq_0_iff uint_div)
  moreover have "\<not> region_isEmpty reg" using assms(1) by (auto simp: big_def isEmpty_iff)
  ultimately have "bands reg = Inl Diverges"
    by (simp add: bands_def divideBlocks_empty_block size_isEmpty_def)
  with assms(1) show ?thesis by (simp add: toRLE_def pixelMapPalette_def pixelMapWeight_def)
qed

theorem flat_region_diverges_witness:
  "toRLE False True (frameBuffer_new (Size 1100 1) RGB24 0) (Region 0 0 1100 1) = Inl Diverges"
  using flat_region_diverges [of "Region 0 0 1100 1"] by (simp add: big_def)

subsection \<open>Colours of a frame buffer, and regions of one pixel\<close>

lemma colour_fold: "fold (colour_add fmt) ps c = c \<union> (\<lambda>p. (pf_color fmt p)\<lparr>col_x := 0\<rparr>) ` set ps"
  by (induction ps arbitrary: c) (auto simp: colour_add_def pf_color_def)

text \<open>
  \<open>colourMap\<close> of a frame buffer at the origin is the set of the colours of its pixels, alpha
  left out, also when it is merged from the parallel bands.
\<close>

theorem colourMap_colours:
  assumes "fb_wf fb" and "at_origin fb" and "scan_ends par (fb_reg fb)"
  shows "colourMap be par fb = Inr ((\<lambda>p. (pf_color (pixelFormat fb) p)\<lparr>col_x := 0\<rparr>) ` set (region_image be fb (fb_reg fb)))"
proof -
  have ins: "inside (fb_reg fb) fb"
    using assms(2) by (auto simp: inside_def at_origin_def fb_width_def fb_height_def nat_le_iff simp flip: nat_uint_eq)
  have scan: "scan be fb (colour_add (pixelFormat fb)) {} b =
      Inr ((\<lambda>p. (pf_color (pixelFormat fb) p)\<lparr>col_x := 0\<rparr>) ` set (region_image be fb b))" if "inside b fb" for b
    by (simp add: scan_image [OF assms(1) that] colour_fold)
  show ?thesis
  proof (cases "par \<and> big (fb_reg fb)")
    case False
    then show ?thesis by (auto simp: colourMap_def Let_def scan [OF ins])
  next
    case True
    then have e: "bands_end (fb_reg fb)" using assms(3) by (simp add: scan_ends_def)
    have "mapM (scan be fb (colour_add (pixelFormat fb)) {}) (band_list (fb_reg fb)) =
        Inr (map (\<lambda>b. (\<lambda>p. (pf_color (pixelFormat fb) p)\<lparr>col_x := 0\<rparr>) ` set (region_image be fb b)) (band_list (fb_reg fb)))"
      using scan band_list_image(1) [OF ins e] by (intro mapM_Inr) blast
    moreover have "(\<Union>b \<in> set (band_list (fb_reg fb)). set (region_image be fb b)) = set (region_image be fb (fb_reg fb))"
      using band_list_image(2) [OF ins e, of be, THEN arg_cong, of set] by simp
    ultimately show ?thesis
      using True bands_band_list [OF ins e] by (simp add: colourMap_def Let_def flip: image_UN)
  qed
qed

theorem colourMap_colours_witness:
  "colourMap False True (frameBuffer_new (Size 3 2) RGB24 0) =
    Inr ((\<lambda>p. (pf_color RGB24 p)\<lparr>col_x := 0\<rparr>) `
      set (region_image False (frameBuffer_new (Size 3 2) RGB24 0) (Region 0 0 3 2)))"
proof -
  have "scan_ends True (fb_reg (frameBuffer_new (Size 3 2) RGB24 0))"
    by (simp add: scan_ends_def big_def region_of_def)
  from colourMap_colours [OF sample_frame(1,2) this, of False] show ?thesis by (simp add: region_of_def)
qed

lemma all_pixels_Inr:
  "(\<And>c. c \<in> set cs \<Longrightarrow> rd c = Inr (g c)) \<Longrightarrow> all_pixels rd pix cs = Inr (\<forall>c \<in> set cs. g c = pix)"
  by (induction cs) auto

text \<open>
  \<open>allOfPixel\<close> of a region at the origin answers whether every pixel of the region is the
  given one; its look at the corners and the middle of a big region changes no answer.
\<close>

theorem allOfPixel_correct:
  assumes "fb_wf fb" and "inside reg fb" and "rg_x reg = 0" and "rg_y reg = 0"
  shows "allOfPixel be fb pix reg = Inr (\<forall>p \<in> set (region_image be fb reg). p = pix)"
proof -
  let ?g = "\<lambda>(i, j). fb_image be fb i j"
  have "all_pixels (scan_pixel be fb reg) pix (loop_coords reg) = Inr (\<forall>c \<in> set (loop_coords reg). ?g c = pix)"
    by (rule all_pixels_Inr) (simp add: scan_pixel_image [OF assms(1,2)] assms(3,4) case_prod_beta')
  then have slow: "all_pixels (scan_pixel be fb reg) pix (loop_coords reg) = Inr (\<forall>p \<in> set (region_image be fb reg). p = pix)"
    by (simp add: region_image_def assms(3,4))
  have "all_pixels (fb_pixel be fb) pix (fast_points reg) \<in> {Inr True, Inr (\<forall>p \<in> set (region_image be fb reg). p = pix)}"
    if big: "big reg"
  proof -
    have pos: "0 < uint (rg_width reg)" "0 < uint (rg_height reg)"
      using big by (auto simp: big_def uint_pos_iff)
    have le: "uint (rg_width reg) \<le> int (fb_width fb)" "uint (rg_width reg) \<le> 32767"
      "uint (rg_height reg) \<le> int (fb_height fb)" "uint (rg_height reg) \<le> 32767"
      using assms(2-4) by (auto simp: inside_def)
    have half: "uint (rg_width reg) div 2 < uint (rg_width reg)" "uint (rg_height reg) div 2 < uint (rg_height reg)"
      "0 \<le> uint (rg_width reg) div 2" "0 \<le> uint (rg_height reg) div 2"
      using pos by auto
    have pt: "0 \<le> sint (pt_x p) \<and> sint (pt_x p) < uint (rg_width reg) \<and> 0 \<le> sint (pt_y p) \<and>
        sint (pt_y p) < uint (rg_height reg)" if "p \<in> set (fast_points reg)" for p
      using that pos le half by (auto simp: fast_points_def Let_def)
    let ?at = "\<lambda>p. fb_image be fb (nat (sint (pt_x p))) (nat (sint (pt_y p)))"
    have "all_pixels (fb_pixel be fb) pix (fast_points reg) = Inr (\<forall>p \<in> set (fast_points reg). ?at p = pix)"
      using pt le by (intro all_pixels_Inr fb_pixel_image [OF assms(1)]) force+
    moreover have "?at p \<in> set (region_image be fb reg)" if "p \<in> set (fast_points reg)" for p
    proof -
      have "(nat (sint (pt_x p)), nat (sint (pt_y p))) \<in> set (loop_coords reg)"
        using pt [OF that] by (simp add: set_loop_coords flip: int_less_uint)
      then show ?thesis unfolding region_image_def by (force simp: assms(3,4))
    qed
    ultimately show ?thesis by auto
  qed
  with slow show ?thesis by (auto simp: allOfPixel_def)
qed

theorem allOfPixel_correct_witness:
  "allOfPixel False (frameBuffer_new (Size 3 2) RGB24 0) 5 (Region 0 0 2 2) =
    Inr (\<forall>p \<in> set (region_image False (frameBuffer_new (Size 3 2) RGB24 0) (Region 0 0 2 2)). p = 5)"
proof -
  have "inside (Region 0 0 2 2) (frameBuffer_new (Size 3 2) RGB24 0)" by (simp add: inside_def)
  then show ?thesis by (rule allOfPixel_correct [OF sample_frame(1)]) simp_all
qed

end
