(* ===== verification/Pixel_Codec.thy ===== *)
theory Pixel_Codec
  imports Encodings Decodings Frame_Buffer_Scans
begin

text \<open>
  What one side puts on the stream for a pixel, a compact pixel or a run length is what the other
  side reads.
\<close>

section \<open>Run lengths\<close>

lemma run_bytes_step: "255 < n \<Longrightarrow> run_length_bytes n = 255 # run_length_bytes (n - 255)"
  by (subst run_length_bytes.simps) simp

lemma run_bytes_last:
  assumes "n \<le> 255" and "n \<noteq> 0"
  shows "run_length_bytes n = [ucast (n - 1)]" and "ucast (n - 1) \<noteq> (255 :: u8)"
    and "ucast (ucast (n - 1) :: u8) = n - 1"
proof -
  have n: "0 < unat n" "unat n \<le> 255" using assms by (simp_all add: word_le_nat_alt unat_gt_0)
  then have n1: "unat (n - 1) = unat n - 1" by (simp add: unat_sub_if' )
  then have m: "unat ((n - 1) mod 255) = unat (n - 1)" using n by (simp add: unat_mod)
  then have "(n - 1) mod 255 = n - 1" by (simp add: word_unat_eq_iff)
  then show "run_length_bytes n = [ucast (n - 1)]"
    using assms(1) by (subst run_length_bytes.simps) (simp add: leD)
  have u: "unat (ucast (n - 1) :: u8) = unat (n - 1)"
    using n n1 by (simp add: unsigned_ucast_eq take_bit_nat_eq_self)
  show "ucast (n - 1) \<noteq> (255 :: u8)"
  proof
    assume "ucast (n - 1) = (255 :: u8)"
    then have "unat (n - 1) = 255" using u by simp
    with n n1 show False by simp
  qed
  show "ucast (ucast (n - 1) :: u8) = n - 1" using u by (simp add: word_unat_eq_iff)
qed

context byte_source
begin

lemma reads_run:
  assumes "n \<noteq> 0"
  shows "pending s = run_length_bytes n @ rest \<Longrightarrow>
    \<exists>s'. recv_run get s len = Some (Inr (len + n, s')) \<and> pending s' = rest"
  using assms
proof (induction n arbitrary: s len rule: run_length_bytes.induct)
  case (1 n)
  show ?case
  proof (cases "255 < n")
    case True
    from 1(2) have "pending s = [255] @ run_length_bytes (n - 255) @ rest"
      by (simp add: run_bytes_step [OF True])
    then obtain s1 where s1: "getInt8 get s = Inr (255, s1)" "pending s1 = run_length_bytes (n - 255) @ rest"
      using readsE [OF reads_int8] by blast
    have "n - 255 \<noteq> 0" using True by auto
    from 1(1) [OF True s1(2) this, of "len + 255"]
    obtain s' where "recv_run get s1 (len + 255) = Some (Inr (len + 255 + (n - 255), s'))" "pending s' = rest"
      by blast
    then show ?thesis by (subst recv_run.simps) (simp add: s1)
  next
    case False
    then have "n \<le> 255" by simp
    note l = run_bytes_last [OF this 1(3)]
    from 1(2) have "pending s = [ucast (n - 1)] @ rest" by (simp add: l)
    then obtain s1 where s1: "getInt8 get s = Inr (ucast (n - 1), s1)" "pending s1 = rest"
      using readsE [OF reads_int8] by blast
    then show ?thesis by (subst recv_run.simps) (simp add: l)
  qed
qed

lemma reads_run_length: "n \<noteq> 0 \<Longrightarrow> reads pending (recvRunLength get) (run_length_bytes n) n"
  using reads_run [where len = 0] by (intro readsI) (fastforce simp: recvRunLength_def)

end

section \<open>Pixels\<close>

text \<open>The pixel values the client knows after \<open>sendPixel\<close> and \<open>sendCPixel\<close> of a pixel of the server.\<close>

definition wire_pixel :: "encoderstream \<Rightarrow> u32 \<Rightarrow> u32" where
  "wire_pixel st p = take_bit (8 * unat (bytePixel (clientFormat st))) (convertFrom (clientFormat st) (serverFormat st) p)"

definition wire_cpixel :: "encoderstream \<Rightarrow> u32 \<Rightarrow> u32" where
  "wire_cpixel st p =
     (if bitsPixel (clientFormat st) \<noteq> 32 then wire_pixel st p
      else
        let v = (if \<not> pf_compare (serverFormat st) (clientFormat st) True
              then convertFrom (clientFormat st) (serverFormat st) p else p)
        in if leastSignificant (clientFormat st) then v AND 0x00FFFFFF else v AND 0xFFFFFF00)"

text \<open>
  A stream and the client on its other side: a client that reads 8 or 32 bit pixels in the byte
  order it asked for; for compact pixels both platforms have one byte order and both formats keep
  their unused byte at the same end.
\<close>

definition pixels_agree :: "encoderstream \<Rightarrow> bool \<Rightarrow> bool" where
  "pixels_agree st be \<longleftrightarrow> bytePixel (clientFormat st) \<in> {1, 4} \<and> clientIsBigEndian st = be"

definition cpixels_agree :: "encoderstream \<Rightarrow> bool \<Rightarrow> bool" where
  "cpixels_agree st be \<longleftrightarrow> pixels_agree st be \<and> es_be st = be \<and>
     leastSignificant (serverFormat st) = leastSignificant (clientFormat st)"

definition pixel_bytes :: "encoderstream \<Rightarrow> u32 \<Rightarrow> bytes" where
  "pixel_bytes st p = (case sendPixel st p of Inl e \<Rightarrow> [] | Inr bs \<Rightarrow> bs)"

definition cpixel_bytes :: "encoderstream \<Rightarrow> u32 \<Rightarrow> bytes" where
  "cpixel_bytes st p = (case sendCPixel st p of Inl e \<Rightarrow> [] | Inr bs \<Rightarrow> bs)"

lemma sendPixel_Inr: "pixels_agree st be \<Longrightarrow> sendPixel st p = Inr (pixel_bytes st p)"
  by (auto simp: pixels_agree_def pixel_bytes_def sendPixel_def sendPixelRaw_def)

lemma sendCPixel_Inr: "pixels_agree st be \<Longrightarrow> sendCPixel st p = Inr (cpixel_bytes st p)"
  using sendPixel_Inr [of st be p] by (auto simp: cpixel_bytes_def sendCPixel_def Let_def)

lemma length_pixel_bytes:
  "pixels_agree st be \<Longrightarrow> length (pixel_bytes st p) = unat (bytePixel (clientFormat st))"
  by (auto simp: pixels_agree_def pixel_bytes_def sendPixel_def sendPixelRaw_def)

lemma low_bytes: "le_val [ucast v, ucast (drop_bit 8 v), ucast (drop_bit 16 v), 0] = (v :: u32) AND 0x00FFFFFF"
proof -
  have "(0x00FFFFFF :: u32) = mask 24" by (simp add: mask_eq_exp_minus_1)
  moreover have "le_val [ucast v, ucast (drop_bit 8 v), ucast (drop_bit 16 v), 0] = take_bit 24 v"
  proof (rule bit_word_eqI)
    fix n assume "n < LENGTH(32)"
    then show "bit (le_val [ucast v, ucast (drop_bit 8 v), ucast (drop_bit 16 v), 0] :: u32) n = bit (take_bit 24 v) n"
      by (cases "n < 8"; cases "n < 16"; cases "n < 24") (auto simp: bit_simps not_less)
  qed
  ultimately show ?thesis by (simp only: take_bit_eq_mask)
qed

lemma high_bytes: "le_val [0, ucast (drop_bit 8 v), ucast (drop_bit 16 v), ucast (drop_bit 24 v)] = (v :: u32) AND 0xFFFFFF00"
proof -
  have "(0xFFFFFF00 :: u32) = NOT (mask 8)" by (simp add: mask_eq_exp_minus_1)
  moreover have "le_val [0, ucast (drop_bit 8 v), ucast (drop_bit 16 v), ucast (drop_bit 24 v)] = v AND NOT (mask 8)"
  proof (rule bit_word_eqI)
    fix n assume "n < LENGTH(32)"
    then show "bit (le_val [0, ucast (drop_bit 8 v), ucast (drop_bit 16 v), ucast (drop_bit 24 v)] :: u32) n =
        bit (v AND NOT (mask 8)) n"
      by (cases "n < 8"; cases "n < 16"; cases "n < 24") (auto simp: bit_simps not_less)
  qed
  ultimately show ?thesis by simp
qed

text \<open>The three bytes both sides keep of a pixel in memory.\<close>

definition kept_bytes :: "bool \<Rightarrow> bool \<Rightarrow> u32 \<Rightarrow> bytes" where
  "kept_bytes be ls v = take 3 (if be = ls then drop 1 (native_bytes be 4 v) else native_bytes be 4 v)"

lemma kept_value:
  "native_val be (if be = ls then 0 # kept_bytes be ls v else kept_bytes be ls v @ [0]) =
    (if ls then v AND 0x00FFFFFF else v AND 0xFFFFFF00)"
  by (cases be; cases ls)
    (simp_all add: kept_bytes_def native_bytes_def native_val_def be_bytes_def be_val_def numeral_eq_Suc
      drop_bit_drop_bit flip: low_bytes high_bytes)

context byte_source
begin

lemma reads_pixel:
  assumes "pixels_agree st be"
  shows "reads pending (recvPixel be get (clientFormat st)) (pixel_bytes st p) (wire_pixel st p)"
proof (cases "bytePixel (clientFormat st) = 4")
  case True
  let ?v = "convertFrom (clientFormat st) (serverFormat st) p"
  have "pixel_bytes st p = (if be then be_bytes 4 ?v else le_bytes 4 ?v)"
    using assms True by (simp add: pixels_agree_def pixel_bytes_def sendPixel_def sendPixelRaw_def)
  moreover have "wire_pixel st p = ?v" by (simp add: wire_pixel_def True)
  moreover have "recvPixel be get (clientFormat st) = (if be then getIntBE32 be get else getIntLE32 be get)"
    by (auto simp: recvPixel_def True recvIntBE32_def recvIntLE32_def)
  ultimately show ?thesis using reads_LE(2) reads_BE(2) by simp
next
  case False
  then have 1: "bytePixel (clientFormat st) = 1" using assms by (simp add: pixels_agree_def)
  let ?v = "convertFrom (clientFormat st) (serverFormat st) p"
  have "pixel_bytes st p = [ucast ?v]"
    using 1 by (simp add: pixel_bytes_def sendPixel_def sendPixelRaw_def)
  moreover have "wire_pixel st p = ucast (ucast ?v :: u8)"
    unfolding wire_pixel_def 1 by (rule bit_word_eqI) (auto simp: bit_simps)
  moreover have "recvPixel be get (clientFormat st) = (\<lambda>s. rbind (getInt8 get s) (\<lambda>(v, s). Inr (ucast v, s)))"
    by (simp add: fun_eq_iff recvPixel_def 1 recvInt8_def)
  ultimately show ?thesis using reads_map [OF reads_int8] by metis
qed

lemma reads_cpixel:
  assumes "cpixels_agree st be"
  shows "reads pending (recvCPixel be get (clientFormat st)) (cpixel_bytes st p) (wire_cpixel st p)"
proof (cases "bitsPixel (clientFormat st) = 32")
  case True
  let ?ls = "leastSignificant (clientFormat st)"
  let ?v = "if \<not> pf_compare (serverFormat st) (clientFormat st) True
              then convertFrom (clientFormat st) (serverFormat st) p else p"
  have bytes: "cpixel_bytes st p = kept_bytes be ?ls ?v"
    using assms True by (simp add: cpixel_bytes_def sendCPixel_def kept_bytes_def cpixels_agree_def Let_def)
  have v: "wire_cpixel st p = native_val be (if be = ?ls then 0 # cpixel_bytes st p else cpixel_bytes st p @ [0])"
    unfolding bytes kept_value by (simp add: wire_cpixel_def True Let_def)
  have get: "recvCPixel be get (clientFormat st) = (\<lambda>s. rbind (get s 3) (\<lambda>(bs, s).
      Inr (native_val be (if be = ?ls then 0 # bs else bs @ [0]), s)))"
    by (auto simp: fun_eq_iff recvCPixel_def True Let_def)
  have "3 = length (cpixel_bytes st p)" by (simp add: bytes kept_bytes_def)
  from reads_map [OF reads_raw [OF this], of _ "\<lambda>bs. native_val be (if be = ?ls then 0 # bs else bs @ [0])", OF v]
  show ?thesis unfolding get .
next
  case False
  then have "recvCPixel be get (clientFormat st) = recvPixel be get (clientFormat st)"
    and "cpixel_bytes st p = pixel_bytes st p" and "wire_cpixel st p = wire_pixel st p"
    by (simp_all add: fun_eq_iff recvCPixel_def cpixel_bytes_def sendCPixel_def pixel_bytes_def wire_cpixel_def)
  moreover have "pixels_agree st be" using assms by (simp add: cpixels_agree_def)
  ultimately show ?thesis using reads_pixel by metis
qed

text \<open>Whatever the other side sends: every round of the loop consumes a byte, so the loop ends.\<close>

lemma get_consumes: "get s n = Inr (bs, s') \<Longrightarrow> pending s = bs @ pending s' \<and> length bs = n"
  using get_enough [of n s] get_short [of s n] by (cases "n \<le> length (pending s)") (auto simp: not_le)

lemma getInt8_consumes: "getInt8 get s = Inr (v, s') \<Longrightarrow> length (pending s) = Suc (length (pending s'))"
  by (auto simp: getInt8_def rbind_eq_Inr dest!: get_consumes)

lemma getInt8_error: "getInt8 get s = Inl e \<Longrightarrow> e \<noteq> Diverges"
  using get_enough [of 1 s] get_short [of s 1]
  by (cases "1 \<le> length (pending s)") (auto simp: getInt8_def not_le)

lemma recv_run_returns:
  "\<exists>x. recv_run get s len = Some x \<and> x \<noteq> Inl Diverges \<and>
     (\<forall>n s'. x = Inr (n, s') \<longrightarrow> length (pending s') < length (pending s))"
proof (induction "length (pending s)" arbitrary: s len rule: less_induct)
  case less
  show ?case
  proof (cases "getInt8 get s")
    case (Inl e)
    then show ?thesis by (subst recv_run.simps) (simp add: getInt8_error)
  next
    case (Inr vs)
    then obtain v s1 where g: "getInt8 get s = Inr (v, s1)" by (cases vs) auto
    then have lt: "length (pending s1) < length (pending s)" by (auto dest: getInt8_consumes)
    with less [OF lt, of "len + ucast v"] obtain x where
      x: "recv_run get s1 (len + ucast v) = Some x" "x \<noteq> Inl Diverges"
      "\<forall>n s'. x = Inr (n, s') \<longrightarrow> length (pending s') < length (pending s1)" by blast
    with g lt show ?thesis by (subst recv_run.simps) force
  qed
qed

lemma recvRunLength_returns:
  "recvRunLength get s \<noteq> Inl Diverges"
  "recvRunLength get s = Inr (n, s') \<Longrightarrow> length (pending s') < length (pending s)"
  using recv_run_returns [of s 0] by (auto simp: recvRunLength_def)

end

lemma length_run_bytes: "n \<noteq> 0 \<Longrightarrow> length (run_length_bytes n) = run_cost n"
proof (induction n rule: run_length_bytes.induct)
  case (1 n)
  show ?case
  proof (cases "255 < n")
    case True
    then have n: "255 < unat n" by (simp add: word_less_nat_alt)
    have "n - 255 \<noteq> 0" using True by auto
    then have "length (run_length_bytes (n - 255)) = run_cost (n - 255)" using 1 True by blast
    moreover have "unat (n - 255 - 1) = unat (n - 1) - 255" "255 \<le> unat (n - 1)"
      using n by (simp_all add: unat_sub_if')
    ultimately show ?thesis
      by (simp add: run_bytes_step [OF True] run_cost_def le_div_geq)
  next
    case False
    then have "n \<le> 255" by simp
    moreover have "0 < unat n" using 1(2) by (simp add: unat_gt_0)
    ultimately have "unat (n - 1) < 255" by (simp add: word_le_nat_alt unat_sub_if')
    with \<open>n \<le> 255\<close>
    show ?thesis using run_bytes_last(1) [of n] 1(2) by (simp add: run_cost_def)
  qed
qed

text \<open>
  Round trip of run lengths: for every length but zero \<open>sendRunLength\<close> puts out exactly the
  number of bytes the choice between the TRLE encodings counts on, and \<open>recvRunLength\<close> reads the
  length back and stops in front of the next byte, whatever that is.
\<close>

theorem run_length_roundtrip:
  assumes "n \<noteq> 0"
  shows "\<exists>bs. sendRunLength n = Inr bs \<and> length bs = run_cost n \<and>
    (\<forall>s rest. ref_pending s = bs @ rest \<longrightarrow>
      (\<exists>s'. recvRunLength ref_getRaw s = Inr (n, s') \<and> ref_pending s' = rest))"
  using assms sbref.reads_run_length [OF assms] length_run_bytes [OF assms]
  by (simp add: sendRunLength_def reads_def)

theorem run_length_roundtrip_witness:
  "\<exists>s'. recvRunLength ref_getRaw (streamBufRef (Some [255, 255, 89, 7]) 4) = Inr (600, s') \<and> ref_pending s' = [7]"
proof -
  obtain bs where bs: "sendRunLength 600 = Inr bs"
    "\<forall>s rest. ref_pending s = bs @ rest \<longrightarrow>
      (\<exists>s'. recvRunLength ref_getRaw s = Inr (600, s') \<and> ref_pending s' = rest)"
    using run_length_roundtrip [of 600] by auto
  have "run_length_bytes 600 = [255, 255, 89]"
    by (simp add: run_length_bytes.simps)
  then have "bs = [255, 255, 89]" using bs(1) by (simp add: sendRunLength_def)
  moreover have "ref_pending (streamBufRef (Some [255, 255, 89, 7]) 4) = [255, 255, 89] @ [7]"
    using ref_pending_new [of "[255, 255, 89, 7]"] by (simp add: eval_nat_numeral)
  ultimately show ?thesis using bs(2) by blast
qed

text \<open>
  C40. A client that draws 8 or 32 bit pixels reads what the server's \<open>sendPixel\<close> puts on the
  stream: the pixel converted to the client's format. A client of 16 bit pixels cannot: the server
  sends two bytes, \<open>recvPixel\<close> throws on every stream.
\<close>

theorem pixel_roundtrip:
  assumes "clientIsBigEndian st = be" and "bytePixel (clientFormat st) \<in> {1, 2, 4}"
  shows "\<exists>bs. sendPixel st p = Inr bs \<and> length bs = unat (bytePixel (clientFormat st)) \<and>
    (\<forall>s rest. ref_pending s = bs @ rest \<longrightarrow>
      (if bytePixel (clientFormat st) = 2 then recvPixel be ref_getRaw (clientFormat st) s = Inl RfbError
       else \<exists>s'. ref_pending s' = rest \<and> recvPixel be ref_getRaw (clientFormat st) s =
         Inr (take_bit (8 * unat (bytePixel (clientFormat st))) (convertFrom (clientFormat st) (serverFormat st) p), s')))"
proof (cases "bytePixel (clientFormat st) = 2")
  case True
  then show ?thesis by (simp add: sendPixel_def sendPixelRaw_def recvPixel_def)
next
  case False
  with assms have a: "pixels_agree st be" by (auto simp: pixels_agree_def)
  show ?thesis
    using sbref.reads_pixel [OF a, of p] length_pixel_bytes [OF a, of p] sendPixel_Inr [OF a, of p] False
    by (fastforce simp: reads_def wire_pixel_def)
qed

definition sample_stream :: "pixelformat \<Rightarrow> encoderstream" where
  "sample_stream pf = \<lparr>es_be = False, es_par = False, es_order = id, serverFormat = BGRX32, clientFormat = pf,
     clientIsBigEndian = False, displaySize = Size 8 8\<rparr>"

theorem pixel_roundtrip_witness:
  "\<exists>bs. sendPixel (sample_stream RGB565) 0x00C0FF40 = Inr bs \<and> length bs = 2 \<and>
    recvPixel False ref_getRaw RGB565 (streamBufRef (Some bs) (length bs)) = Inl RfbError"
proof -
  obtain bs where bs: "sendPixel (sample_stream RGB565) 0x00C0FF40 = Inr bs \<and> length bs = 2 \<and>
    (\<forall>s rest. ref_pending s = bs @ rest \<longrightarrow> recvPixel False ref_getRaw RGB565 s = Inl RfbError)"
    using pixel_roundtrip [of "sample_stream RGB565" False "0x00C0FF40"]
    by (auto simp: sample_stream_def formats)
  moreover have "ref_pending (streamBufRef (Some bs) (length bs)) = bs @ []" by simp
  ultimately show ?thesis by blast
qed

text \<open>
  Compact pixels: for 32 bit pixels whose colour channels lie in the three bytes that are
  kept, the three bytes \<open>sendCPixel\<close> sends are read back by \<open>recvCPixel\<close> as a pixel with the red,
  green and blue of the converted pixel; other depths are sent as whole pixels.
\<close>

theorem cpixel_roundtrip:
  assumes "cpixels_agree st be" and "pf_wf (serverFormat st)" and "pf_wf (clientFormat st)"
    and "bitsPixel (clientFormat st) = 32"
    and "(rmask (clientFormat st) OR gmask (clientFormat st) OR bmask (clientFormat st)) AND
      (if leastSignificant (clientFormat st) then 0xFF000000 else 0x000000FF) = 0"
  shows "\<exists>bs v. sendCPixel st p = Inr bs \<and> length bs = 3 \<and>
    (\<forall>s rest. ref_pending s = bs @ rest \<longrightarrow>
      (\<exists>s'. recvCPixel be ref_getRaw (clientFormat st) s = Inr (v, s') \<and> ref_pending s' = rest)) \<and>
    pf_red (clientFormat st) v = pf_red (clientFormat st) (convertFrom (clientFormat st) (serverFormat st) p) \<and>
    pf_green (clientFormat st) v = pf_green (clientFormat st) (convertFrom (clientFormat st) (serverFormat st) p) \<and>
    pf_blue (clientFormat st) v = pf_blue (clientFormat st) (convertFrom (clientFormat st) (serverFormat st) p)"
proof -
  let ?cf = "clientFormat st" and ?sf = "serverFormat st"
  let ?q = "if leastSignificant ?cf then 0xFF000000 else 0x000000FF :: u32"
  let ?w = "if \<not> pf_compare ?sf ?cf True then convertFrom ?cf ?sf p else p"
  have m: "(- 4278190081 :: u32) = 16777215" "(- 256 :: u32) = 4294967040" by simp_all
  have "wire_cpixel st p = NOT ?q AND ?w"
    using assms(4) by (simp add: wire_cpixel_def Let_def and.commute m)
  moreover have "?q AND chan_mask (redMax ?cf) (redShift ?cf) = 0" "?q AND chan_mask (greenMax ?cf) (greenShift ?cf) = 0"
    "?q AND chan_mask (blueMax ?cf) (blueShift ?cf) = 0"
    using assms(5) by (auto simp: rmask_def gmask_def bmask_def bit.conj_disj_distrib2 and.commute
      or_eq_0_iff split: if_splits)
  ultimately have "pf_red ?cf (wire_cpixel st p) = pf_red ?cf ?w" "pf_green ?cf (wire_cpixel st p) = pf_green ?cf ?w"
    "pf_blue ?cf (wire_cpixel st p) = pf_blue ?cf ?w"
    by (simp_all add: pf_red_def pf_green_def pf_blue_def chan_get_masked)
  moreover have "pf_red ?cf ?w = pf_red ?cf (convertFrom ?cf ?sf p) \<and> pf_green ?cf ?w = pf_green ?cf (convertFrom ?cf ?sf p) \<and>
    pf_blue ?cf ?w = pf_blue ?cf (convertFrom ?cf ?sf p)"
    using convert_channels_each [OF assms(2,3), of p]
    by (auto simp: convertFrom_def pf_compare_def pf_red_def pf_green_def pf_blue_def)
  moreover have "pixels_agree st be" using assms(1) by (simp add: cpixels_agree_def)
  moreover have "length (cpixel_bytes st p) = 3"
    using assms(4) by (simp add: cpixel_bytes_def sendCPixel_def Let_def)
  ultimately show ?thesis
    using sbref.reads_cpixel [OF assms(1), of p] sendCPixel_Inr [of st be p]
    by (intro exI [of _ "cpixel_bytes st p"] exI [of _ "wire_cpixel st p"]) (auto simp: reads_def)
qed

theorem cpixel_roundtrip_witness:
  "\<exists>bs v. sendCPixel (sample_stream RGBX32) 0x00C0FF40 = Inr bs \<and> length bs = 3 \<and>
    (\<exists>s'. recvCPixel False ref_getRaw RGBX32 (streamBufRef (Some bs) (length bs)) = Inr (v, s')) \<and>
    pf_red RGBX32 v = 0xC0"
proof -
  have st: "clientFormat (sample_stream RGBX32) = RGBX32" "serverFormat (sample_stream RGBX32) = BGRX32"
    by (simp_all add: sample_stream_def)
  have a: "cpixels_agree (sample_stream RGBX32) False"
    by (simp add: cpixels_agree_def pixels_agree_def sample_stream_def formats leastSignificant_def)
  have m: "(rmask RGBX32 OR gmask RGBX32 OR bmask RGBX32) AND
      (if leastSignificant RGBX32 then 0xFF000000 else 0x000000FF) = 0"
    by (simp add: formats rmask_def gmask_def bmask_def chan_mask_def leastSignificant_def)
  have b: "bitsPixel RGBX32 = 32" by (simp add: formats)
  have r: "pf_red RGBX32 (convertFrom RGBX32 BGRX32 0x00C0FF40) = 0xC0"
    using convert_channels_each [OF formats_wf(5) formats_wf(6), of "0x00C0FF40"]
    by (simp add: convertFrom_def formats pf_red_def chan_get_def)
  obtain bs v where *: "sendCPixel (sample_stream RGBX32) 0x00C0FF40 = Inr bs" "length bs = 3"
    "\<forall>s rest. ref_pending s = bs @ rest \<longrightarrow>
      (\<exists>s'. recvCPixel False ref_getRaw RGBX32 s = Inr (v, s') \<and> ref_pending s' = rest)" "pf_red RGBX32 v = 0xC0"
    using cpixel_roundtrip [OF a, unfolded st, OF formats_wf(5) formats_wf(6) b m, of "0x00C0FF40"] r by auto
  moreover have "ref_pending (streamBufRef (Some bs) (length bs)) = bs @ []" by simp
  ultimately show ?thesis by blast
qed

end
