(* ===== verification/Rre_Rectangles.thy ===== *)
theory Rre_Rectangles
  imports Frame_Buffer_Scans Encodings
begin

text \<open>
  \<open>EncodingBase::rreProcessing\<close>: cutting a region into rectangles of one colour.
\<close>

lemma inside_subset:
  assumes "inside reg fb" and "pixels r \<subseteq> pixels reg" and "\<not> region_isEmpty r"
  shows "inside r fb"
proof -
  have "0 < uint (rg_width r)" "0 < uint (rg_height r)"
    using assms(3) by (auto simp: isEmpty_iff uint_pos_iff)
  then have "(sint (rg_x r), sint (rg_y r)) \<in> pixels r"
    "(sint (rg_x r) + uint (rg_width r) - 1, sint (rg_y r) + uint (rg_height r) - 1) \<in> pixels r"
    by auto
  then have "(sint (rg_x r), sint (rg_y r)) \<in> pixels reg"
    "(sint (rg_x r) + uint (rg_width r) - 1, sint (rg_y r) + uint (rg_height r) - 1) \<in> pixels reg"
    using assms(2) by blast+
  then show ?thesis using assms(1) by (auto simp: inside_def)
qed

lemma inside_fits: "inside r fb \<Longrightarrow> region_fits r \<and> uint (rg_width r) \<le> 32767 \<and> uint (rg_height r) \<le> 32767"
  by (auto simp: inside_def region_fits_def)

text \<open>The pixel of a frame buffer at a position of the plane.\<close>

definition image_at :: "bool \<Rightarrow> framebuffer \<Rightarrow> int \<times> int \<Rightarrow> u32" where
  "image_at be fb = (\<lambda>(i, j). fb_image be fb (nat i) (nat j))"

lemma region_image_pixels:
  assumes "inside reg fb"
  shows "set (region_image be fb reg) = image_at be fb ` pixels reg"
proof -
  have 1: "0 \<le> sint (rg_x reg)" "0 \<le> sint (rg_y reg)" using assms by (simp_all add: inside_def)
  show ?thesis
  proof (intro set_eqI iffI)
    fix p assume "p \<in> set (region_image be fb reg)"
    then obtain px py where "px < unat (rg_width reg)" "py < unat (rg_height reg)"
      and p: "p = fb_image be fb (nat (sint (rg_x reg)) + px) (nat (sint (rg_y reg)) + py)"
      by (auto simp: region_image_def set_loop_coords)
    then have "(sint (rg_x reg) + int px, sint (rg_y reg) + int py) \<in> pixels reg"
      by (simp flip: int_less_uint)
    moreover have "p = image_at be fb (sint (rg_x reg) + int px, sint (rg_y reg) + int py)"
      using 1 by (simp add: p image_at_def nat_add_distrib)
    ultimately show "p \<in> image_at be fb ` pixels reg" by blast
  next
    fix p assume "p \<in> image_at be fb ` pixels reg"
    then obtain i j where ij: "(i, j) \<in> pixels reg" and p: "p = fb_image be fb (nat i) (nat j)"
      by (auto simp: image_at_def simp del: in_pixels)
    let ?c = "(nat (i - sint (rg_x reg)), nat (j - sint (rg_y reg)))"
    have "?c \<in> set (loop_coords reg)" using ij by (auto simp: set_loop_coords simp flip: int_less_uint)
    moreover have "p = fb_image be fb (nat (sint (rg_x reg)) + fst ?c) (nat (sint (rg_y reg)) + snd ?c)"
      using ij 1 by (simp add: p flip: nat_add_distrib)
    ultimately show "p \<in> set (region_image be fb reg)" unfolding region_image_def by force
  qed
qed

text \<open>
  For a region anywhere in the frame buffer, the fast check may miss a region of one colour; a
  positive answer is always right.
\<close>

lemma allOfPixel_sound:
  assumes "fb_wf fb" and "inside reg fb"
  obtains b where "allOfPixel be fb pix reg = Inr b" and "b \<Longrightarrow> \<forall>q \<in> pixels reg. image_at be fb q = pix"
proof -
  have slow: "all_pixels (scan_pixel be fb reg) pix (loop_coords reg) = Inr (\<forall>p \<in> set (region_image be fb reg). p = pix)"
    unfolding region_image_def set_map ball_simps
    by (rule all_pixels_Inr) (simp add: scan_pixel_image [OF assms] case_prod_beta')
  have "\<exists>b. all_pixels (fb_pixel be fb) pix (fast_points reg) = Inr b" if big: "big reg"
  proof -
    have pos: "0 < uint (rg_width reg)" "0 < uint (rg_height reg)"
      using big by (auto simp: big_def uint_pos_iff)
    have le: "uint (rg_width reg) \<le> int (fb_width fb)" "uint (rg_width reg) \<le> 32767"
      "uint (rg_height reg) \<le> int (fb_height fb)" "uint (rg_height reg) \<le> 32767"
      using assms(2) by (auto simp: inside_def)
    have half: "uint (rg_width reg) div 2 < uint (rg_width reg)" "uint (rg_height reg) div 2 < uint (rg_height reg)"
      "0 \<le> uint (rg_width reg) div 2" "0 \<le> uint (rg_height reg) div 2"
      using pos by auto
    have "0 \<le> sint (pt_x p) \<and> sint (pt_x p) < int (fb_width fb) \<and> 0 \<le> sint (pt_y p) \<and>
        sint (pt_y p) < int (fb_height fb)" if "p \<in> set (fast_points reg)" for p
      using that pos le half by (auto simp: fast_points_def Let_def)
    then have "all_pixels (fb_pixel be fb) pix (fast_points reg) =
        Inr (\<forall>p \<in> set (fast_points reg). fb_image be fb (nat (sint (pt_x p))) (nat (sint (pt_y p))) = pix)"
      by (intro all_pixels_Inr fb_pixel_image [OF assms(1)]) blast+
    then show ?thesis by blast
  qed
  then obtain b where "allOfPixel be fb pix reg = Inr b" "b \<Longrightarrow> \<forall>p \<in> set (region_image be fb reg). p = pix"
    using slow unfolding allOfPixel_def by (cases "big reg") (force split: if_splits)+
  then show thesis using that by (simp add: region_image_pixels [OF assms(2)])
qed

section \<open>rreProcessing\<close>

text \<open>The pixels of a region that differ from the background.\<close>

definition marks :: "bool \<Rightarrow> framebuffer \<Rightarrow> u32 \<Rightarrow> region \<Rightarrow> (int \<times> int) set" where
  "marks be fb skip r = {q \<in> pixels r. image_at be fb q \<noteq> skip}"

definition area :: "region \<Rightarrow> nat" where
  "area r = card (pixels r)"

text \<open>A good rectangle of a region: not empty, inside it and of one colour, not the background.\<close>

definition good_in :: "bool \<Rightarrow> framebuffer \<Rightarrow> u32 \<Rightarrow> region \<Rightarrow> region \<times> u32 \<Rightarrow> bool" where
  "good_in be fb skip reg g \<longleftrightarrow> pixels (fst g) \<subseteq> pixels reg \<and> \<not> region_isEmpty (fst g) \<and> snd g \<noteq> skip \<and>
     (\<forall>q \<in> pixels (fst g). image_at be fb q = snd g)"

definition rre_inv ::
  "bool \<Rightarrow> framebuffer \<Rightarrow> u32 \<Rightarrow> region \<Rightarrow> regionpixels \<Rightarrow> region list \<Rightarrow> bool" where
  "rre_inv be fb skip reg goods bads \<longleftrightarrow>
     (\<forall>g \<in> set goods. good_in be fb skip reg g) \<and>
     (\<forall>b \<in> set bads. pixels b \<subseteq> pixels reg \<and> \<not> region_isEmpty b) \<and>
     (\<Union>g \<in> set goods. pixels (fst g)) \<union> (\<Union>b \<in> set bads. marks be fb skip b) = marks be fb skip reg \<and>
     (\<Sum>g \<leftarrow> goods. area (fst g)) + (\<Sum>b \<leftarrow> bads. card (marks be fb skip b)) = card (marks be fb skip reg)"

lemma finite_pixels [simp]: "finite (pixels r)"
proof -
  have "pixels r \<subseteq> {sint (rg_x r)..<sint (rg_x r) + uint (rg_width r)} \<times> {sint (rg_y r)..<sint (rg_y r) + uint (rg_height r)}"
    by auto
  then show ?thesis by (rule finite_subset) simp
qed

lemma area_sides: "area r = unat (rg_width r) * unat (rg_height r)"
proof -
  have "pixels r = {sint (rg_x r)..<sint (rg_x r) + uint (rg_width r)} \<times> {sint (rg_y r)..<sint (rg_y r) + uint (rg_height r)}"
    by auto
  then show ?thesis by (simp add: area_def)
qed

lemma finite_marks [simp]: "finite (marks be fb skip r)"
  by (rule finite_subset [of _ "pixels r"]) (auto simp: marks_def simp del: in_pixels)

lemma marks_good: "good_in be fb skip reg (r, p) \<Longrightarrow> marks be fb skip r = pixels r"
  by (auto simp: good_in_def marks_def simp del: in_pixels)

lemma marks_tiles:
  assumes "tiles ts r"
  shows "(\<Union>t \<in> set ts. marks be fb skip t) = marks be fb skip r"
    and "(\<Sum>t \<leftarrow> ts. card (marks be fb skip t)) = card (marks be fb skip r)"
proof -
  show u: "(\<Union>t \<in> set ts. marks be fb skip t) = marks be fb skip r"
    using assms by (auto simp: tiles_def marks_def simp del: in_pixels)
  have "card (\<Union>t \<in> set us. marks be fb skip t) = (\<Sum>t \<leftarrow> us. card (marks be fb skip t))"
    if "sorted_wrt (\<lambda>a b. pixels a \<inter> pixels b = {}) us" for us
    using that
  proof (induction us)
    case (Cons t us)
    have "marks be fb skip t \<inter> (\<Union>t \<in> set us. marks be fb skip t) = {}"
      using Cons.prems by (auto simp: marks_def simp del: in_pixels)
    with Cons show ?case by (simp add: card_Un_disjoint)
  qed simp
  with assms u show "(\<Sum>t \<leftarrow> ts. card (marks be fb skip t)) = card (marks be fb skip r)"
    unfolding tiles_def by metis
qed

text \<open>Joining a good rectangle with the last one on its left.\<close>

lemma rre_good_joins:
  assumes "inside reg fb" and "\<forall>g \<in> set goods. good_in be fb skip reg g" and "good_in be fb skip reg (sub, p)"
  shows "(\<forall>g \<in> set (rre_good sub p goods). good_in be fb skip reg g) \<and>
    (\<Union>g \<in> set (rre_good sub p goods). pixels (fst g)) = (\<Union>g \<in> set goods. pixels (fst g)) \<union> pixels sub \<and>
    (\<Sum>g \<leftarrow> rre_good sub p goods. area (fst g)) = (\<Sum>g \<leftarrow> goods. area (fst g)) + area sub"
proof (cases "goods \<noteq> [] \<and> rg_y (fst (last goods)) = rg_y sub \<and> rg_height (fst (last goods)) = rg_height sub \<and>
         sint (rg_x (fst (last goods))) + uint (rg_width (fst (last goods))) = sint (rg_x sub) \<and>
         snd (last goods) = p")
  case True
  then obtain gs l where goods: "goods = gs @ [(l, p)]"
    by (metis append_butlast_last_id prod.collapse)
  with True have l: "rg_y l = rg_y sub" "rg_height l = rg_height sub" "sint (rg_x l) + uint (rg_width l) = sint (rg_x sub)"
    by auto
  let ?j = "l\<lparr>rg_width := rg_width l + rg_width sub\<rparr>"
  have g: "good_in be fb skip reg (l, p)" using assms(2) goods by simp
  have "inside l fb" "inside sub fb"
    using g assms by (auto simp: good_in_def intro: inside_subset simp del: in_pixels)
  then have w: "uint (rg_width l + rg_width sub) = uint (rg_width l) + uint (rg_width sub)"
    using l by (simp add: inside_def uint_word_ariths mod_pos_pos_trivial)
  define wl ws where "wl = uint (rg_width l)" and "ws = uint (rg_width sub)"
  then have "0 \<le> wl" "0 \<le> ws" by simp_all
  with l have px: "pixels ?j = pixels l \<union> pixels sub" "pixels l \<inter> pixels sub = {}"
    by (auto simp: w simp flip: wl_def ws_def)
  have "good_in be fb skip reg (?j, p)"
    using g assms(3) px by (auto simp: good_in_def isEmpty_pixels simp del: in_pixels)
  moreover have "area ?j = area l + area sub"
    unfolding area_def px(1) by (rule card_Un_disjoint) (simp_all add: px(2))
  moreover have "rre_good sub p goods = gs @ [(?j, p)]"
    using True by (simp add: rre_good_def goods)
  ultimately show ?thesis using assms(2) px(1) by (auto simp: goods simp del: in_pixels)
next
  case False
  have "rre_good sub p goods = goods @ [(sub, p)]" by (simp only: rre_good_def if_not_P [OF False])
  then show ?thesis using assms by auto
qed

text \<open>The region is within \<open>2 ^ k\<close> on both sides.\<close>

definition within :: "nat \<Rightarrow> region \<Rightarrow> bool" where
  "within k r \<longleftrightarrow> uint (rg_width r) < 2 ^ k \<and> uint (rg_height r) < 2 ^ k"

lemma rre_block_step:
  assumes fb: "fb_wf fb" "inside reg fb" and inv: "rre_inv be fb skip reg goods (bads @ sub # ys)"
  shows "\<exists>goods' bads'. rre_block be fb skip sub (goods, bads) = Inr (goods', bads') \<and>
    rre_inv be fb skip reg goods' (bads' @ ys) \<and>
    (bads' = bads \<or> bads' = bads @ [sub] \<and> \<not> within 1 sub)"
proof -
  have sub: "pixels sub \<subseteq> pixels reg" "\<not> region_isEmpty sub"
    using inv by (auto simp: rre_inv_def simp del: in_pixels)
  then have ins: "inside sub fb" using fb(2) inside_subset by blast
  let ?q = "(sint (rg_x sub), sint (rg_y sub))" and ?one = "rg_width sub = 1 \<and> rg_height sub = 1"
  have pos: "0 < uint (rg_width sub)" "0 < uint (rg_height sub)"
    using sub(2) by (auto simp: isEmpty_iff uint_pos_iff)
  then have q: "?q \<in> pixels sub" by simp
  have px: "fb_pixel be fb (topLeft sub) = Inr (image_at be fb ?q)"
    using ins pos fb_pixel_image [OF fb(1), of "topLeft sub" be]
    by (simp add: inside_def topLeft_def image_at_def)
  obtain b where b: "(if ?one then Inr True else allOfPixel be fb (image_at be fb ?q) sub) = Inr b"
    "b \<Longrightarrow> \<forall>r \<in> pixels sub. image_at be fb r = image_at be fb ?q" "\<not> b \<Longrightarrow> \<not> ?one"
  proof (cases ?one)
    case True
    then have "pixels sub = {?q}" by (auto simp: pixels_def)
    with True that [of True] show thesis by simp
  next
    case False
    obtain b where a: "allOfPixel be fb (image_at be fb ?q) sub = Inr b"
      and u: "b \<Longrightarrow> \<forall>r \<in> pixels sub. image_at be fb r = image_at be fb ?q"
      using allOfPixel_sound [OF fb(1) ins, of be "image_at be fb ?q"] by blast
    have "(if ?one then Inr True else allOfPixel be fb (image_at be fb ?q) sub) = Inr b"
      by (simp only: if_not_P [OF False] a)
    then show thesis using that [of b] u False by blast
  qed
  show ?thesis
  proof (cases b)
    case False
    have "\<not> within 1 sub"
    proof
      assume "within 1 sub"
      with pos have "uint (rg_width sub) = 1" "uint (rg_height sub) = 1" by (simp_all add: within_def)
      with b(3) [OF False] show False by (metis uint_1 word_uint_eq_iff)
    qed
    with False b(1) px inv show ?thesis by (auto simp: rre_block_def)
  next
    case True
    note uni = b(2) [OF True]
    show ?thesis
    proof (cases "image_at be fb ?q = skip")
      case skip: True
      then have "marks be fb skip sub = {}" using uni by (auto simp: marks_def simp del: in_pixels)
      then have "rre_inv be fb skip reg goods (bads @ ys)" using inv by (auto simp: rre_inv_def simp del: in_pixels)
      with skip True b(1) px show ?thesis by (auto simp: rre_block_def)
    next
      case False
      let ?goods = "rre_good sub (image_at be fb ?q) goods"
      have g: "good_in be fb skip reg (sub, image_at be fb ?q)"
        using sub uni False by (simp add: good_in_def del: in_pixels)
      note m = marks_good [OF g]
      have gs: "\<forall>g \<in> set goods. good_in be fb skip reg g" using inv by (simp add: rre_inv_def)
      note j = rre_good_joins [OF fb(2) gs g]
      have "rre_inv be fb skip reg ?goods (bads @ ys)"
        using inv j by (simp add: rre_inv_def m area_def Un_ac del: in_pixels)
      with False True b(1) px show ?thesis by (auto simp: rre_block_def)
    qed
  qed
qed

lemma rre_blocks_step:
  assumes fb: "fb_wf fb" "inside reg fb"
  shows "rre_inv be fb skip reg goods (bads @ subs @ ys) \<Longrightarrow>
    \<exists>goods' bads'. foldM (rre_block be fb skip) subs (goods, bads) = Inr (goods', bads') \<and>
      rre_inv be fb skip reg goods' (bads' @ ys) \<and>
      (\<forall>b \<in> set bads' - set bads. b \<in> set subs \<and> \<not> within 1 b)"
proof (induction subs arbitrary: goods bads)
  case Nil
  then show ?case by simp
next
  case (Cons sub subs)
  obtain gs bs where s: "rre_block be fb skip sub (goods, bads) = Inr (gs, bs)"
    "rre_inv be fb skip reg gs (bs @ subs @ ys)" "bs = bads \<or> bs = bads @ [sub] \<and> \<not> within 1 sub"
    using rre_block_step [OF fb, of be skip goods bads sub "subs @ ys"] Cons.prems by auto
  obtain gs' bs' where "foldM (rre_block be fb skip) subs (gs, bs) = Inr (gs', bs')"
    "rre_inv be fb skip reg gs' (bs' @ ys)" "\<forall>b \<in> set bs' - set bs. b \<in> set subs \<and> \<not> within 1 b"
    using Cons.IH [OF s(2)] by blast
  with s(1,3) show ?case by (intro exI [of _ gs'] exI [of _ bs']) auto
qed

lemma rre_region_step:
  assumes fb: "fb_wf fb" "inside reg fb" and inv: "rre_inv be fb skip reg goods (bads @ bad # ys)"
    and k: "within (Suc k) bad"
  shows "\<exists>goods' bads'. rre_region be fb skip bad (goods, bads) = Inr (goods', bads') \<and>
    rre_inv be fb skip reg goods' (bads' @ ys) \<and>
    (\<forall>b \<in> set bads' - set bads. within (max 1 k) b \<and> \<not> within 1 b)"
proof -
  have bad: "pixels bad \<subseteq> pixels reg" "\<not> region_isEmpty bad"
    using inv by (auto simp: rre_inv_def simp del: in_pixels)
  then have ins: "inside bad fb" using fb(2) inside_subset by blast
  note f = inside_fits [OF ins]
  obtain ts where ts: "divideCounts bad 2 2 = Inr ts" "tiles ts bad" "\<And>t. t \<in> set ts \<Longrightarrow> \<not> region_isEmpty t"
    "\<And>t. t \<in> set ts \<Longrightarrow> uint (rg_width t) \<le> max 1 (uint (rg_width bad) div 2)"
    "\<And>t. t \<in> set ts \<Longrightarrow> uint (rg_height t) \<le> max 1 (uint (rg_height bad) div 2)"
    using divideCounts_halves [of bad] f bad(2) by blast
  have "rre_inv be fb skip reg goods (bads @ ts @ ys)"
  proof -
    have "pixels t \<subseteq> pixels reg" if "t \<in> set ts" for t
      using ts(2) that bad(1) by (auto simp: tiles_def simp del: in_pixels)
    moreover have "(\<Union>b \<in> set (bads @ ts @ ys). marks be fb skip b) = (\<Union>b \<in> set (bads @ bad # ys). marks be fb skip b)"
      using marks_tiles(1) [OF ts(2), of be fb skip] by auto
    ultimately show ?thesis
      using inv ts(3) marks_tiles(2) [OF ts(2), of be fb skip] by (auto simp: rre_inv_def simp del: in_pixels)
  qed
  from rre_blocks_step [OF fb this] obtain gs bs where
    g: "foldM (rre_block be fb skip) ts (goods, bads) = Inr (gs, bs)" "rre_inv be fb skip reg gs (bs @ ys)"
    "\<forall>b \<in> set bs - set bads. b \<in> set ts \<and> \<not> within 1 b" by blast
  have half: "max 1 (n div 2) < 2 ^ max 1 k" if "n < 2 ^ Suc k" for n :: int
  proof -
    have "1 < (2 :: int) ^ max 1 k" by (rule one_less_power) simp_all
    moreover have "n div 2 < 2 ^ k" using that by simp
    moreover have "(2 :: int) ^ k \<le> 2 ^ max 1 k" by (rule power_increasing) simp_all
    ultimately show ?thesis by linarith
  qed
  have "within (max 1 k) t" if "t \<in> set ts" for t
    using k ts(4,5) [OF that] half [of "uint (rg_width bad)"] half [of "uint (rg_height bad)"]
    unfolding within_def by linarith
  with g ts(1) show ?thesis by (auto simp: rre_region_def)
qed

lemma rre_round_step:
  assumes fb: "fb_wf fb" "inside reg fb"
  shows "rre_inv be fb skip reg goods (bads @ bs) \<Longrightarrow> \<forall>b \<in> set bs. within (Suc k) b \<Longrightarrow>
    \<exists>goods' bads'. foldM (rre_region be fb skip) bs (goods, bads) = Inr (goods', bads') \<and>
      rre_inv be fb skip reg goods' bads' \<and>
      (\<forall>b \<in> set bads' - set bads. within (max 1 k) b \<and> \<not> within 1 b)"
proof (induction bs arbitrary: goods bads)
  case Nil
  then show ?case by simp
next
  case (Cons b bs)
  obtain gs cs where s: "rre_region be fb skip b (goods, bads) = Inr (gs, cs)"
    "rre_inv be fb skip reg gs (cs @ bs)" "\<forall>b \<in> set cs - set bads. within (max 1 k) b \<and> \<not> within 1 b"
    using rre_region_step [OF fb, of be skip goods bads b bs k] Cons.prems by auto
  obtain gs' cs' where "foldM (rre_region be fb skip) bs (gs, cs) = Inr (gs', cs')"
    "rre_inv be fb skip reg gs' cs'" "\<forall>b \<in> set cs' - set cs. within (max 1 k) b \<and> \<not> within 1 b"
    using Cons.IH [OF s(2)] Cons.prems(2) by auto
  with s(1,3) show ?case by (intro exI [of _ gs'] exI [of _ cs']) auto
qed

lemma rre_rounds_end:
  assumes fb: "fb_wf fb" "inside reg fb"
  shows "rre_inv be fb skip reg goods bads \<Longrightarrow> \<forall>b \<in> set bads. within (Suc k) b \<Longrightarrow> k < n \<Longrightarrow>
    \<exists>goods'. rre_rounds n be fb skip goods bads = Inr goods' \<and> rre_inv be fb skip reg goods' []"
proof (induction n arbitrary: k goods bads)
  case 0
  then show ?case by simp
next
  case (Suc n)
  obtain gs bs where s: "foldM (rre_region be fb skip) bads (goods, []) = Inr (gs, bs)"
    "rre_inv be fb skip reg gs bs" "\<forall>b \<in> set bs. within (max 1 k) b \<and> \<not> within 1 b"
    using rre_round_step [OF fb, of be skip goods "[]" bads k] Suc.prems by auto
  show ?case
  proof (cases "bs = []")
    case True
    with s show ?thesis by auto
  next
    case False
    then obtain b where "b \<in> set bs" by (meson last_in_set)
    with s(3) have "within (max 1 k) b" "\<not> within 1 b" by blast+
    then have "k \<noteq> 0" by (cases "k = 0") simp_all
    then obtain k' where "k = Suc k'" by (cases k) auto
    with Suc.IH [OF s(2), of k'] Suc.prems(3) s(1,3) False show ?thesis by (auto simp: max_def)
  qed
qed

lemma rreProcessing_inv:
  assumes "fb_wf fb" and "inside reg fb" and "\<not> region_isEmpty reg"
  obtains goods where "rreProcessing be reg fb skip = Inr goods" and "rre_inv be fb skip reg goods []"
proof -
  have "rre_inv be fb skip reg [] [reg]" using assms(3) by (simp add: rre_inv_def)
  moreover have "\<forall>b \<in> set [reg]. within (Suc 15) b"
    using u16_bounds(4) [of "rg_width reg"] u16_bounds(4) [of "rg_height reg"] by (simp add: within_def)
  ultimately show thesis
    using that rre_rounds_end [OF assms(1,2), of be skip "[]" "[reg]" 15 17] by (auto simp: rreProcessing_def)
qed

text \<open>
  C33. \<open>rreProcessing\<close> ends, for every region of a frame buffer: the rectangles it returns lie in
  the region, each has one colour, none has the background's, and together they hold every pixel
  that differs from the background. Their areas add up to the number of those pixels, so no two
  of them overlap. Seventeen rounds of the outer loop are enough.
\<close>

theorem rreProcessing_correct:
  assumes "fb_wf fb" and "inside reg fb" and "\<not> region_isEmpty reg"
  shows "\<exists>goods. rreProcessing be reg fb skip = Inr goods \<and>
    (\<forall>(r, p) \<in> set goods. p \<noteq> skip \<and> \<not> region_isEmpty r \<and> pixels r \<subseteq> pixels reg \<and>
       (\<forall>(i, j) \<in> pixels r. fb_image be fb (nat i) (nat j) = p)) \<and>
    (\<Union>(r, p) \<in> set goods. pixels r) = {(i, j) \<in> pixels reg. fb_image be fb (nat i) (nat j) \<noteq> skip} \<and>
    (\<Sum>(r, p) \<leftarrow> goods. unat (rg_width r) * unat (rg_height r)) =
      card {(i, j) \<in> pixels reg. fb_image be fb (nat i) (nat j) \<noteq> skip}"
proof -
  obtain goods where g: "rreProcessing be reg fb skip = Inr goods" "rre_inv be fb skip reg goods []"
    using rreProcessing_inv [OF assms] by blast
  have m: "marks be fb skip reg = {(i, j) \<in> pixels reg. fb_image be fb (nat i) (nat j) \<noteq> skip}"
    by (auto simp: marks_def image_at_def)
  have "good_in be fb skip reg (r, p)" if "(r, p) \<in> set goods" for r p using g(2) that by (auto simp: rre_inv_def)
  then have "p \<noteq> skip \<and> \<not> region_isEmpty r \<and> pixels r \<subseteq> pixels reg \<and>
       (\<forall>(i, j) \<in> pixels r. fb_image be fb (nat i) (nat j) = p)" if "(r, p) \<in> set goods" for r p
    using that unfolding good_in_def image_at_def by (simp add: case_prod_unfold del: in_pixels)
  then have "\<forall>(r, p) \<in> set goods. p \<noteq> skip \<and> \<not> region_isEmpty r \<and> pixels r \<subseteq> pixels reg \<and>
       (\<forall>(i, j) \<in> pixels r. fb_image be fb (nat i) (nat j) = p)" by blast
  moreover have "(\<Union>(r, p) \<in> set goods. pixels r) = marks be fb skip reg"
    "(\<Sum>(r, p) \<leftarrow> goods. unat (rg_width r) * unat (rg_height r)) = card (marks be fb skip reg)"
    using g(2) by (simp_all add: rre_inv_def area_sides case_prod_beta')
  ultimately show ?thesis using g(1) unfolding m by blast
qed

theorem rreProcessing_correct_witness:
  "\<exists>goods. rreProcessing False (Region 0 0 3 2) (frameBuffer_new (Size 3 2) RGB24 0) 5 = Inr goods \<and>
    (\<Sum>(r, p) \<leftarrow> goods. unat (rg_width r) * unat (rg_height r)) =
      card {(i, j) \<in> pixels (Region 0 0 3 2). fb_image False (frameBuffer_new (Size 3 2) RGB24 0) (nat i) (nat j) \<noteq> 5}"
proof -
  have "inside (Region 0 0 3 2) (frameBuffer_new (Size 3 2) RGB24 0)" "\<not> region_isEmpty (Region 0 0 3 2)"
    by (simp_all add: inside_def isEmpty_iff)
  from rreProcessing_correct [OF sample_frame(1) this, of False 5] show ?thesis by blast
qed

end
