(* ===== verification/Decoder_Render.thy ===== *)
theory Decoder_Render
  imports Frame_Buffer_Image Decodings
begin

text \<open>
  The contract between the decoders and a \<open>DecoderRender\<close>: an operation of the render changes the
  pixels it names on the render's picture and no other. The render of \<^verbatim>\<open>vnc2image\<close>, a frame
  buffer, keeps it.
\<close>

section \<open>Drawing on a picture\<close>

text \<open>
  \<open>draws ok img W H S g r r'\<close>: \<open>r'\<close> is a render whose picture, \<open>W\<close> by \<open>H\<close> pixels, shows \<open>g\<close> on the
  positions of \<open>S\<close> and everywhere else what \<open>r\<close> shows.
\<close>

definition draws ::
  "('r \<Rightarrow> bool) \<Rightarrow> ('r \<Rightarrow> nat \<Rightarrow> nat \<Rightarrow> u32) \<Rightarrow> nat \<Rightarrow> nat \<Rightarrow> (int \<times> int) set \<Rightarrow> (int \<times> int \<Rightarrow> u32) \<Rightarrow> 'r \<Rightarrow> 'r \<Rightarrow> bool" where
  "draws ok img W H S g r r' \<longleftrightarrow> ok r' \<and>
     (\<forall>i j. i < W \<and> j < H \<longrightarrow> img r' i j = (if (int i, int j) \<in> S then g (int i, int j) else img r i j))"

lemma draws_none: "ok r \<Longrightarrow> draws ok img W H {} g r r"
  by (simp add: draws_def)

lemma draws_ok: "draws ok img W H S g r r' \<Longrightarrow> ok r'"
  by (simp add: draws_def)

lemma draws_trans:
  assumes "draws ok img W H S g r r'" and "draws ok img W H T h r' r''"
    and "\<And>q. q \<in> T \<Longrightarrow> k q = h q" and "\<And>q. q \<in> S \<Longrightarrow> q \<notin> T \<Longrightarrow> k q = g q"
  shows "draws ok img W H (S \<union> T) k r r''"
  using assms by (simp add: draws_def)

lemma draws_cong:
  assumes "draws ok img W H S g r r'" and "S = T" and "\<And>q. q \<in> S \<Longrightarrow> g q = h q"
  shows "draws ok img W H T h r r'"
  using assms by (simp add: draws_def)

text \<open>Over a list of steps, each drawing its part of a picture.\<close>

lemma foldM_draws:
  assumes "ok (snd s)" and "\<And>x t. x \<in> set xs \<Longrightarrow> ok (snd t) \<Longrightarrow>
      \<exists>t'. f x t = Inr t' \<and> draws ok img W H (S x) g (snd t) (snd t')"
  shows "\<exists>s'. foldM f xs s = Inr s' \<and> draws ok img W H (\<Union>x \<in> set xs. S x) g (snd s) (snd s')"
  using assms
proof (induction xs arbitrary: s)
  case Nil
  then show ?case by (simp add: draws_none)
next
  case (Cons x xs)
  obtain t where t: "f x s = Inr t" "draws ok img W H (S x) g (snd s) (snd t)"
    using Cons.prems(2) [of x s] Cons.prems(1) by auto
  obtain s' where s': "foldM f xs t = Inr s'" "draws ok img W H (\<Union>x \<in> set xs. S x) g (snd t) (snd s')"
    using Cons.IH [OF draws_ok [OF t(2)]] Cons.prems(2) by auto
  from draws_trans [OF t(2) s'(2), of g] t(1) s'(1) show ?case by simp
qed

section \<open>The contract\<close>

locale decoder_render =
  fixes rend :: "'r decoderrender" and ok :: "'r \<Rightarrow> bool" and img :: "'r \<Rightarrow> nat \<Rightarrow> nat \<Rightarrow> u32"
    and sf pf :: pixelformat and be :: bool and W H :: nat
  assumes render_server: "ok r \<Longrightarrow> dr_serverFormat rend r = sf"
    and render_client: "ok r \<Longrightarrow> dr_clientFormat rend r = pf"
    and render_set: "ok r \<Longrightarrow> 0 \<le> sint (pt_x p) \<Longrightarrow> sint (pt_x p) < int W \<Longrightarrow>
      0 \<le> sint (pt_y p) \<Longrightarrow> sint (pt_y p) < int H \<Longrightarrow>
      \<exists>r'. dr_setPixel rend p v r = Inr r' \<and>
        draws ok img W H {(sint (pt_x p), sint (pt_y p))} (\<lambda>q. take_bit (unat (bitsPixel pf)) v) r r'"
    and render_fill: "ok r \<Longrightarrow> \<exists>r'. dr_fillPixel rend reg v r = Inr r' \<and>
      draws ok img W H (pixels reg) (\<lambda>q. take_bit (unat (bitsPixel pf)) v) r r'"
    and render_raw: "ok r \<Longrightarrow> fmt_ok pf' \<Longrightarrow> 0 \<le> sint (rg_x reg) \<Longrightarrow> 0 \<le> sint (rg_y reg) \<Longrightarrow>
      uint (rg_width reg) \<le> 32767 \<Longrightarrow> uint (rg_height reg) \<le> 32767 \<Longrightarrow>
      unat (bytePixel pf') * unat (rg_width reg) * unat (rg_height reg) \<le> length buf \<Longrightarrow>
      \<exists>r'. dr_updateRawPixels rend reg buf (region_pitch reg pf') pf' r = Inr r' \<and>
        draws ok img W H (pixels reg) (\<lambda>(i, j).
          let p = fb_image be (frameBuffer_wrap buf (Region 0 0 (rg_width reg) (rg_height reg)) pf'
                (ucast (region_pitch reg pf'))) (nat (i - sint (rg_x reg))) (nat (j - sint (rg_y reg)))
          in if pf = pf' then p else take_bit (unat (bitsPixel pf)) (convertFrom pf pf' p)) r r'"

section \<open>vnc2image\<close>

text \<open>The state of the render after \<open>clientRecvPixelFormatEvent\<close>: a frame buffer at the origin.\<close>

definition vi_ok :: "pixelformat \<Rightarrow> pixelformat \<Rightarrow> nat \<Rightarrow> nat \<Rightarrow> vnc2image \<Rightarrow> bool" where
  "vi_ok sf pf W H v \<longleftrightarrow> vi_serverFormat v = sf \<and> fb_wf (vi_fb v) \<and> at_origin (vi_fb v) \<and>
     pixelFormat (vi_fb v) = pf \<and> fb_width (vi_fb v) = W \<and> fb_height (vi_fb v) = H"

definition vi_image :: "bool \<Rightarrow> vnc2image \<Rightarrow> nat \<Rightarrow> nat \<Rightarrow> u32" where
  "vi_image be v = fb_image be (vi_fb v)"

lemma paints_draws:
  assumes "vi_ok sf pf W H v" and "paints be (vi_fb v) (\<lambda>i j. if (int i, int j) \<in> S then g (int i, int j) else fb_image be (vi_fb v) i j) fb'"
  shows "draws (vi_ok sf pf W H) (vi_image be) W H S g v (v\<lparr>vi_fb := fb'\<rparr>)"
proof -
  have f: "same_frame (vi_fb v) fb'" using assms(2) by (simp add: paints_def)
  have "at_origin fb' = at_origin (vi_fb v)" by (simp add: at_origin_def same_frame_simps [OF f])
  with assms show ?thesis
    by (simp add: draws_def vi_ok_def vi_image_def paints_def same_frame_simps [OF f])
qed

lemma frameBuffer_wrap_simps [simp]:
  "fb_reg (frameBuffer_wrap p reg fmt pitch) = reg" "pixelFormat (frameBuffer_wrap p reg fmt pitch) = fmt"
  "fb_width (frameBuffer_wrap p reg fmt pitch) = unat (rg_width reg)"
  "fb_height (frameBuffer_wrap p reg fmt pitch) = unat (rg_height reg)"
  "fb_owner (frameBuffer_wrap p reg fmt pitch)" "fb_buffer (fb_ptr (frameBuffer_wrap p reg fmt pitch)) = p"
  "bitsPerPixel (frameBuffer_wrap p reg fmt pitch) = unat (bitsPixel fmt)"
  "bytePerPixel (frameBuffer_wrap p reg fmt pitch) = unat (bytePixel fmt)"
  "fb_ox (frameBuffer_wrap p reg fmt pitch) = 0" "fb_oy (frameBuffer_wrap p reg fmt pitch) = 0"
  by (simp_all add: frameBuffer_wrap_def fbinfo_wrap_def pixelFormat_def fb_width_def fb_height_def
      bitsPerPixel_def bytePerPixel_def fb_ox_def fb_oy_def)

lemma ucast_back_le: "(ucast (ucast (w :: u32) :: u16) :: u32) \<le> w"
proof -
  have "unat (ucast w :: u16) = take_bit 16 (unat w)" by (subst unsigned_ucast_eq) simp
  also have "\<dots> \<le> unat w" by (rule take_bit_nat_less_eq_self)
  finally have "unat (ucast (ucast w :: u16) :: u32) \<le> unat w" by (simp only: unat_ucast_u32)
  then show ?thesis by (simp only: word_le_nat_alt)
qed

text \<open>A buffer of pixels, row after row, is a frame buffer.\<close>

lemma wrap_pitch:
  assumes "fmt_ok pf"
  shows "unat (fb_pitch (fb_ptr (frameBuffer_wrap buf (Region 0 0 (rg_width reg) (rg_height reg)) pf
      (ucast (region_pitch reg pf))))) = unat (bytePixel pf) * unat (rg_width reg)"
proof -
  have "unat (bytePixel pf) \<le> 4" using assms by (auto simp: fmt_ok_def)
  with uint_nat [of "bytePixel pf"] have "uint (bytePixel pf) \<le> 4" by linarith
  moreover have "0 \<le> uint (bytePixel pf)" "0 \<le> uint (rg_width reg)" "uint (rg_width reg) < 65536"
    using u16_bounds(4) by simp_all
  ultimately have lt: "uint (bytePixel pf) * uint (rg_width reg) < 2 ^ 32" "0 \<le> uint (bytePixel pf) * uint (rg_width reg)"
    using mult_mono [of "uint (bytePixel pf)" 4 "uint (rg_width reg)" 65536] by simp_all
  let ?w = "word_of_int (uint (bytePixel pf) * uint (rg_width reg)) :: u32"
  have u: "uint ?w = uint (bytePixel pf) * uint (rg_width reg)"
    using lt by (subst uint_word_of_int) (simp add: mod_pos_pos_trivial)
  have "(ucast (ucast ?w :: u16) :: u32) \<le> ?w"
    by (rule ucast_back_le)
  then have "max ?w (ucast (ucast ?w :: u16)) = ?w" by (rule max_absorb1)
  then have "unat (fb_pitch (fb_ptr (frameBuffer_wrap buf (Region 0 0 (rg_width reg) (rg_height reg)) pf
      (ucast (region_pitch reg pf))))) = unat ?w"
    by (simp add: frameBuffer_wrap_def fbinfo_wrap_def fbinfo_pitch_def toSize_def region_pitch_def mult.commute)
  also have "int (unat ?w) = int (unat (bytePixel pf) * unat (rg_width reg))"
    using u by (simp only: uint_nat of_nat_mult)
  then have "unat ?w = unat (bytePixel pf) * unat (rg_width reg)" by (simp only: of_nat_eq_iff)
  finally show ?thesis .
qed

lemma wrap_wf:
  assumes "fmt_ok pf" and "unat (bytePixel pf) * unat (rg_width reg) * unat (rg_height reg) \<le> length buf"
  shows "fb_wf (frameBuffer_wrap buf (Region 0 0 (rg_width reg) (rg_height reg)) pf (ucast (region_pitch reg pf)))"
  using assms by (simp add: fb_wf_def wrap_pitch fmt_ok_def)

interpretation vi: decoder_render "vi_render be par" "vi_ok sf pf W H" "vi_image be" sf pf be W H
  for be par sf pf W H
proof
  fix v p x reg and pf' :: pixelformat and buf :: bytes
  assume ok: "vi_ok sf pf W H v"
  then have wf: "fb_wf (vi_fb v)" and orig: "at_origin (vi_fb v)" and fmt: "pixelFormat (vi_fb v) = pf"
    and sz: "fb_width (vi_fb v) = W" "fb_height (vi_fb v) = H"
    by (simp_all add: vi_ok_def)
  have bits: "bitsPerPixel (vi_fb v) = unat (bitsPixel pf)" by (simp add: bitsPerPixel_def fmt)
  show "dr_clientFormat (vi_render be par) v = pf" by (simp add: vi_render_def fmt)
  show "dr_serverFormat (vi_render be par) v = sf" using ok by (simp add: vi_render_def vi_ok_def)
  show "\<exists>v'. dr_fillPixel (vi_render be par) reg x v = Inr v' \<and>
      draws (vi_ok sf pf W H) (vi_image be) W H (pixels reg) (\<lambda>q. take_bit (unat (bitsPixel pf)) x) v v'"
  proof -
    obtain fb' where "fillPixel be par (vi_fb v) reg x None = Inr fb'"
      and "paints be (vi_fb v) (\<lambda>i j. if (int i, int j) \<in> pixels reg
        then take_bit (unat (bitsPixel pf)) x else fb_image be (vi_fb v) i j) fb'"
      using fillPixel_paints [OF wf orig, of be par reg x None] by (auto simp: raw_of_def bits simp del: in_pixels cong: if_cong)
    with paints_draws [OF ok this(2)] show ?thesis by (simp add: vi_render_def vi_fillPixel_def)
  qed
  show "\<exists>v'. dr_setPixel (vi_render be par) p x v = Inr v' \<and>
      draws (vi_ok sf pf W H) (vi_image be) W H {(sint (pt_x p), sint (pt_y p))} (\<lambda>q. take_bit (unat (bitsPixel pf)) x) v v'"
    if p: "0 \<le> sint (pt_x p)" "sint (pt_x p) < int W" "0 \<le> sint (pt_y p)" "sint (pt_y p) < int H"
  proof -
    obtain fb' where "setPixel be (vi_fb v) p x None = Inr fb'" and "paints be (vi_fb v)
        (\<lambda>i j. if int j = sint (pt_y p) \<and> sint (pt_x p) \<le> int i \<and> int i < sint (pt_x p) + int 1
         then take_bit (unat (bitsPixel pf)) x else fb_image be (vi_fb v) i j) fb'"
      using setPixelRow_paints [OF wf, of p be x 1] p by (auto simp: setPixel_def raw_of_def bits sz cong: if_cong)
    moreover have "int j = sint (pt_y p) \<and> sint (pt_x p) \<le> int i \<and> int i < sint (pt_x p) + int 1 \<longleftrightarrow>
        (int i, int j) \<in> {(sint (pt_x p), sint (pt_y p))}" for i j by auto
    ultimately have "setPixel be (vi_fb v) p x None = Inr fb'" and "paints be (vi_fb v)
        (\<lambda>i j. if (int i, int j) \<in> {(sint (pt_x p), sint (pt_y p))}
         then take_bit (unat (bitsPixel pf)) x else fb_image be (vi_fb v) i j) fb'" by simp_all
    with paints_draws [OF ok this(2)] show ?thesis by (simp add: vi_render_def vi_setPixel_def)
  qed
  let ?src = "frameBuffer_wrap buf (Region 0 0 (rg_width reg) (rg_height reg)) pf' (ucast (region_pitch reg pf'))"
  show "\<exists>v'. dr_updateRawPixels (vi_render be par) reg buf (region_pitch reg pf') pf' v = Inr v' \<and>
      draws (vi_ok sf pf W H) (vi_image be) W H (pixels reg) (\<lambda>(i, j).
        let p = fb_image be ?src (nat (i - sint (rg_x reg))) (nat (j - sint (rg_y reg)))
        in if pf = pf' then p else take_bit (unat (bitsPixel pf)) (convertFrom pf pf' p)) v v'"
    if p: "fmt_ok pf'" "0 \<le> sint (rg_x reg)" "0 \<le> sint (rg_y reg)"
      "uint (rg_width reg) \<le> 32767" "uint (rg_height reg) \<le> 32767"
      "unat (bytePixel pf') * unat (rg_width reg) * unat (rg_height reg) \<le> length buf"
  proof -
    have ins: "inside (fb_reg ?src) ?src" using p(4,5) by (simp add: inside_def)
    have eq: "region_of (topLeft reg) (toSize (fb_reg ?src)) = reg"
      by (cases reg) (simp add: region_of_def topLeft_def toSize_def)
    obtain fb' where f: "blitRegion be par (vi_fb v) ?src (fb_reg ?src) (topLeft reg) = Inr fb'"
      "paints be (vi_fb v) (\<lambda>i j. if (int i, int j) \<in> pixels reg
         then copied be (vi_fb v) ?src (- sint (rg_x reg)) (- sint (rg_y reg)) i j
         else fb_image be (vi_fb v) i j) fb'"
      using blitRegion_paints [OF wf wrap_wf [OF p(1,6)] orig ins, of "topLeft reg" be par, unfolded eq] p(2,3)
      by (auto simp: topLeft_def simp del: in_pixels cong: if_cong)
    have "paints be (vi_fb v) (\<lambda>i j. if (int i, int j) \<in> pixels reg then (\<lambda>(i, j).
        let p = fb_image be ?src (nat (i - sint (rg_x reg))) (nat (j - sint (rg_y reg)))
        in if pf = pf' then p else take_bit (unat (bitsPixel pf)) (convertFrom pf pf' p)) (int i, int j)
      else fb_image be (vi_fb v) i j) fb'"
      using f(2) by (simp add: copied_def fmt bits del: in_pixels cong: if_cong)
    from paints_draws [OF ok this] f(1) show ?thesis
      by (simp add: vi_render_def vi_updateRawPixels_def Let_def del: in_pixels)
  qed
qed

end
