(* ===== verification/Codec_Link.thy ===== *)
theory Codec_Link
  imports Pixel_Codec Rre_Rectangles Decoder_Render
begin

text \<open>
  An encoder of the server and a decoder of the client on the two ends of a connection: the regions
  the encoders take, their position on the client, and the stream and the render a decoder works
  with.
\<close>

section \<open>What the encoder sends\<close>

text \<open>A region of the encoders: small enough that its parallel scans have rows for all bands.\<close>

definition tile_ok :: "region \<Rightarrow> framebuffer \<Rightarrow> bool" where
  "tile_ok reg fb \<longleftrightarrow> inside reg fb \<and> \<not> region_isEmpty reg \<and> uint (rg_width reg) \<le> 255 \<and> uint (rg_height reg) \<le> 255"

lemma tile_scan_ends: "tile_ok reg fb \<Longrightarrow> scan_ends par reg"
proof -
  assume a: "tile_ok reg fb"
  then have w: "uint (rg_width reg) \<le> 255" "0 < uint (rg_width reg)"
    by (auto simp: tile_ok_def isEmpty_iff uint_pos_iff)
  have "4 \<le> uint (rg_height reg)" if "1024 < uint (rg_width reg) * uint (rg_height reg)"
  proof (rule ccontr)
    assume "\<not> 4 \<le> uint (rg_height reg)"
    then have "uint (rg_width reg) * uint (rg_height reg) \<le> 255 * 3"
      using w by (intro mult_mono) auto
    with that show False by simp
  qed
  with w show ?thesis by (auto simp: scan_ends_def bands_end_def big_def)
qed

text \<open>The pixels of a tile: one colour, or more and the heaviest of them.\<close>

lemma tile_weights:
  assumes "fb_wf fb" and "tile_ok reg fb" and "perm_order ord"
  obtains m where "pixelMapWeight ord be par fb reg = Inr m" and "m \<noteq> []"
    and "length m = card (image_at be fb ` pixels reg)"
    and "maxWeightPixel m \<in> image_at be fb ` pixels reg"
proof -
  have ins: "inside reg fb" "\<not> region_isEmpty reg" using assms(2) by (simp_all add: tile_ok_def)
  note img = region_image_pixels [OF ins(1)]
  obtain m where m: "pixelMapWeight ord be par fb reg = Inr m" "distinct (map fst m)"
    "\<forall>q. map_of m q = (if q \<in> set (region_image be fb reg)
       then Some (of_nat (count_list (region_image be fb reg) q)) else None)"
    "maxWeightPixel m \<in> set (region_image be fb reg)"
    using pixelMapWeight_region [OF assms(1) ins tile_scan_ends [OF assms(2)] assms(3)] by blast
  have "fst ` set m = image_at be fb ` pixels reg"
    using m(3) unfolding img [symmetric] by (auto simp flip: dom_map_of_conv_image_fst split: if_splits)
  moreover have "length m = card (fst ` set m)"
    using m(2) by (metis distinct_card length_map list.set_map)
  moreover have "pixels reg \<noteq> {}" using ins(2) by (simp add: isEmpty_pixels)
  ultimately show thesis using that [OF m(1)] m(4) img by fastforce
qed

lemma one_image:
  assumes "card (f ` S) = 1" and "a \<in> S" and "q \<in> S"
  shows "f q = f a"
proof -
  obtain b where "f ` S = {b}" using assms(1) by (auto simp: card_1_singleton_iff)
  with assms(2,3) show ?thesis by (metis imageI singletonD)
qed

lemma corner_pixel:
  assumes "fb_wf fb" and "inside reg fb" and "\<not> region_isEmpty reg"
  shows "fb_pixel be fb (topLeft reg) = Inr (image_at be fb (sint (rg_x reg), sint (rg_y reg)))"
    and "(sint (rg_x reg), sint (rg_y reg)) \<in> pixels reg"
proof -
  have "0 < uint (rg_width reg)" "0 < uint (rg_height reg)"
    using assms(3) by (auto simp: isEmpty_iff uint_pos_iff)
  with assms(2) fb_pixel_image [OF assms(1), of "topLeft reg" be]
  show "fb_pixel be fb (topLeft reg) = Inr (image_at be fb (sint (rg_x reg), sint (rg_y reg)))"
    and "(sint (rg_x reg), sint (rg_y reg)) \<in> pixels reg"
    by (simp_all add: inside_def topLeft_def image_at_def)
qed

section \<open>What the decoder draws\<close>

text \<open>Positions on the client: the encoders send a region of the frame buffer moved by its origin.\<close>

definition shift :: "point \<Rightarrow> (int \<times> int) set \<Rightarrow> (int \<times> int) set" where
  "shift d S = (\<lambda>(i, j). (i + sint (pt_x d), j + sint (pt_y d))) ` S"

definition unshift :: "point \<Rightarrow> int \<times> int \<Rightarrow> int \<times> int" where
  "unshift d = (\<lambda>(i, j). (i - sint (pt_x d), j - sint (pt_y d)))"

definition room :: "region \<Rightarrow> point \<Rightarrow> bool" where
  "room reg d \<longleftrightarrow> 0 \<le> sint (rg_x reg) \<and> 0 \<le> sint (rg_y reg) \<and> 0 \<le> sint (pt_x d) \<and> 0 \<le> sint (pt_y d) \<and>
     sint (rg_x reg) + sint (pt_x d) + uint (rg_width reg) \<le> 32767 \<and>
     sint (rg_y reg) + sint (pt_y d) + uint (rg_height reg) \<le> 32767"

lemma in_shift: "q \<in> shift d S \<longleftrightarrow> unshift d q \<in> S"
  by (cases q) (force simp: shift_def unshift_def)

lemma moved_fields:
  assumes "room reg d"
  shows "sint (rg_x (region_add reg d)) = sint (rg_x reg) + sint (pt_x d)"
    and "sint (rg_y (region_add reg d)) = sint (rg_y reg) + sint (pt_y d)"
    and "rg_width (region_add reg d) = rg_width reg" and "rg_height (region_add reg d) = rg_height reg"
proof -
  have r: "region_add reg d = Region (narrow16 (sint (rg_x reg) + sint (pt_x d))) (narrow16 (sint (rg_y reg) + sint (pt_y d)))
      (rg_width reg) (rg_height reg)"
    by (simp add: region_add_def region_of_def point_add_def topLeft_def toSize_def)
  have "sint (rg_x reg) + sint (pt_x d) \<le> 32767" "sint (rg_y reg) + sint (pt_y d) \<le> 32767"
    using assms u16_bounds(3) [of "rg_width reg"] u16_bounds(3) [of "rg_height reg"]
    unfolding room_def by linarith+
  with assms show "sint (rg_x (region_add reg d)) = sint (rg_x reg) + sint (pt_x d)"
    and "sint (rg_y (region_add reg d)) = sint (rg_y reg) + sint (pt_y d)"
    and "rg_width (region_add reg d) = rg_width reg" and "rg_height (region_add reg d) = rg_height reg"
    unfolding r by (simp_all add: room_def)
qed

lemma moved_pixels: "room reg d \<Longrightarrow> pixels (region_add reg d) = shift d (pixels reg)"
  by (rule set_eqI) (auto simp: in_shift unshift_def moved_fields)

text \<open>A rectangle inside a region, by its coordinates relative to the region.\<close>

definition rel_rect :: "region \<Rightarrow> region \<Rightarrow> region" where
  "rel_rect reg r = Region (narrow16 (sint (rg_x r) - sint (rg_x reg))) (narrow16 (sint (rg_y r) - sint (rg_y reg)))
     (rg_width r) (rg_height r)"

lemma subset_sides:
  assumes "pixels r \<subseteq> pixels reg" and "\<not> region_isEmpty r"
  shows "sint (rg_x reg) \<le> sint (rg_x r)" "sint (rg_y reg) \<le> sint (rg_y r)"
    "sint (rg_x r) + uint (rg_width r) \<le> sint (rg_x reg) + uint (rg_width reg)"
    "sint (rg_y r) + uint (rg_height r) \<le> sint (rg_y reg) + uint (rg_height reg)"
    "0 < uint (rg_width r)" "0 < uint (rg_height r)"
proof -
  show p: "0 < uint (rg_width r)" "0 < uint (rg_height r)"
    using assms(2) by (auto simp: isEmpty_iff uint_pos_iff)
  then have "(sint (rg_x r), sint (rg_y r)) \<in> pixels r"
    "(sint (rg_x r) + uint (rg_width r) - 1, sint (rg_y r) + uint (rg_height r) - 1) \<in> pixels r"
    by auto
  then have "(sint (rg_x r), sint (rg_y r)) \<in> pixels reg"
    "(sint (rg_x r) + uint (rg_width r) - 1, sint (rg_y r) + uint (rg_height r) - 1) \<in> pixels reg"
    using assms(1) by blast+
  then show "sint (rg_x reg) \<le> sint (rg_x r)" "sint (rg_y reg) \<le> sint (rg_y r)"
    "sint (rg_x r) + uint (rg_width r) \<le> sint (rg_x reg) + uint (rg_width reg)"
    "sint (rg_y r) + uint (rg_height r) \<le> sint (rg_y reg) + uint (rg_height reg)"
    by auto
qed

lemma sub_region_rel:
  assumes "room reg d" and "pixels r \<subseteq> pixels reg" and "\<not> region_isEmpty r"
  shows "\<exists>dst. sub_region (region_add reg d) (rel_rect reg r) = Inr dst \<and> pixels dst = shift d (pixels r)"
proof -
  note m = moved_fields [OF assms(1)] and s = subset_sides [OF assms(2,3)]
  note b = u16_bounds(1,2)
  define dst where "dst = (rel_rect reg r)\<lparr>rg_x := narrow16 (sint (rg_x (rel_rect reg r)) + sint (rg_x (region_add reg d))),
      rg_y := narrow16 (sint (rg_y (rel_rect reg r)) + sint (rg_y (region_add reg d)))\<rparr>"
  have x: "sint (narrow16 (sint (rg_x r) - sint (rg_x reg))) = sint (rg_x r) - sint (rg_x reg)"
    "sint (narrow16 (sint (rg_y r) - sint (rg_y reg))) = sint (rg_y r) - sint (rg_y reg)"
    using s b [of "rg_x r"] b [of "rg_y r"] assms(1) by (simp_all add: room_def)
  have f: "sint (rg_x dst) = sint (rg_x r) + sint (pt_x d)" "sint (rg_y dst) = sint (rg_y r) + sint (pt_y d)"
    "rg_width dst = rg_width r" "rg_height dst = rg_height r"
    using s assms(1) by (simp_all add: dst_def rel_rect_def x m room_def)
  have "\<not> (sint (rg_x dst) + uint (rg_width dst) > sint (rg_x (region_add reg d)) + uint (rg_width (region_add reg d)) \<or>
      sint (rg_y dst) + uint (rg_height dst) > sint (rg_y (region_add reg d)) + uint (rg_height (region_add reg d)))"
    unfolding f m using s by linarith
  then have "sub_region (region_add reg d) (rel_rect reg r) = Inr dst"
    unfolding sub_region_def Let_def dst_def by (rule if_not_P)
  moreover have "pixels dst = shift d (pixels r)"
    unfolding set_eq_iff in_shift unshift_def by (auto simp: pixels_def f)
  ultimately show ?thesis by blast
qed

text \<open>The picture a region of the server's frame buffer makes on the client, and the sides of a link.\<close>

definition sent_picture :: "encoderstream \<Rightarrow> framebuffer \<Rightarrow> point \<Rightarrow> int \<times> int \<Rightarrow> u32" where
  "sent_picture st fb d = (\<lambda>q. wire_pixel st (image_at (es_be st) fb (unshift d q)))"

definition link_ok :: "encoderstream \<Rightarrow> pixelformat \<Rightarrow> bool \<Rightarrow> bool" where
  "link_ok st pf be \<longleftrightarrow> pixels_agree st be \<and> clientFormat st = pf \<and> fmt_ok pf"

lemma wire_trunc: "link_ok st pf be \<Longrightarrow> take_bit (unat (bitsPixel pf)) (wire_pixel st p) = wire_pixel st p"
  by (auto simp: link_ok_def fmt_ok_def wire_pixel_def)

text \<open>A decoder between a stream it reads from and a render it draws on.\<close>

locale decoder_link = byte_source get pending + decoder_render rend ok img sf pf be W H
  for get :: "'s get_raw" and pending :: "'s \<Rightarrow> bytes" and rend :: "'r decoderrender" and ok :: "'r \<Rightarrow> bool"
    and img :: "'r \<Rightarrow> nat \<Rightarrow> nat \<Rightarrow> u32" and sf pf :: pixelformat and be :: bool and W H :: nat
begin

lemma reads_recvData: "n = length bs \<Longrightarrow> reads pending (recvData get n) bs bs"
  using reads_raw [of n bs] by (auto simp: recvData_def reads_def)

lemma link_pixel:
  assumes "link_ok st pf be" and "ok r" and "pending s = pixel_bytes st p @ rest"
  obtains s' where "recvPixel be get (dr_clientFormat rend r) s = Inr (wire_pixel st p, s')" and "pending s' = rest"
  using assms reads_pixel [of st be p] readsE by (metis link_ok_def render_client)

end

interpretation link: decoder_link ref_getRaw ref_pending "vi_render be par" "vi_ok sf pf W H" "vi_image be" sf pf be W H
  for be par sf pf W H
  by unfold_locales

lemma goods_count:
  assumes "rre_inv be fb skip reg goods []"
  shows "length goods \<le> card (marks be fb skip reg)"
proof -
  have "(\<Sum>g \<leftarrow> goods. 1) \<le> (\<Sum>g \<leftarrow> goods. area (fst g))"
  proof (rule sum_list_mono)
    fix g assume "g \<in> set goods"
    then have "pixels (fst g) \<noteq> {}" using assms by (auto simp: rre_inv_def good_in_def isEmpty_pixels)
    then show "1 \<le> area (fst g)" by (simp add: area_def Suc_le_eq card_gt_0_iff)
  qed
  with assms show ?thesis by (simp add: rre_inv_def sum_list_triv)
qed

lemma marks_le: "card (marks be fb skip reg) \<le> area reg"
  unfolding area_def by (rule card_mono) (auto simp: marks_def)

lemma tile_area: "tile_ok reg fb \<Longrightarrow> area reg \<le> 255 * 255"
proof -
  assume "tile_ok reg fb"
  then have "unat (rg_width reg) \<le> 255" "unat (rg_height reg) \<le> 255"
    using uint_nat [of "rg_width reg"] uint_nat [of "rg_height reg"] unfolding tile_ok_def by linarith+
  then show ?thesis unfolding area_sides by (rule mult_le_mono)
qed

section \<open>A sample\<close>

definition sample_client :: "pixelformat \<Rightarrow> vnc2image" where
  "sample_client pf = \<lparr>vi_serverFormat = BGRX32, vi_fb = frameBuffer_new (Size 16 16) pf 0\<rparr>"

lemma sample_link:
  "vi_ok BGRX32 RGBX32 16 16 (sample_client RGBX32)" "link_ok (sample_stream RGBX32) RGBX32 False"
  "perm_order (es_order (sample_stream pf))"
  "fb_wf (frameBuffer_new (Size 8 8) BGRX32 0)" "tile_ok (Region 1 2 6 5) (frameBuffer_new (Size 8 8) BGRX32 0)"
  "room (Region 1 2 6 5) (Point 3 4)"
  by (simp_all add: vi_ok_def sample_client_def frameBuffer_new_wf at_origin_def region_of_def link_ok_def
      pixels_agree_def sample_stream_def formats fmt_ok_def perm_order_def tile_ok_def inside_def isEmpty_iff room_def)

end
