(* ===== verification/Rre_Codec.thy ===== *)
theory Rre_Codec
  imports Codec_Link
begin

text \<open>
  RRE and CoRRE from end to end: what \<open>EncodingRRE::sendRegion\<close> sends for a region of the server's
  frame buffer, \<open>DecodingRRE::updateRegionStream\<close> draws on the client.
\<close>

context decoder_link
begin

lemma reads_rre_rect:
  assumes "corre \<Longrightarrow> uint (rg_width reg) \<le> 255 \<and> uint (rg_height reg) \<le> 255"
    and "pixels r \<subseteq> pixels reg" and "\<not> region_isEmpty r" and "room reg d"
  shows "reads pending (recv_rre_rect be get corre) (rre_rect corre reg r) (rel_rect reg r)"
proof (cases corre)
  case False
  let ?q = "rel_rect reg r"
  have "reads pending (recv_rre_rect be get False)
      (be_bytes 2 (rg_x ?q) @ be_bytes 2 (rg_y ?q) @ be_bytes 2 (rg_width ?q) @ be_bytes 2 (rg_height ?q) @ [])
      (Region (rg_x ?q) (rg_y ?q) (rg_width ?q) (rg_height ?q))"
    unfolding recv_rre_rect_def recvIntBE16_def if_False
    by (rule reads_bind, rule reads_BE)+ (rule reads_return)
  then show ?thesis using False by (simp add: rre_rect_def rel_rect_def Let_def)
next
  case True
  note s = subset_sides [OF assms(2,3)]
  have low: "ucast (ucast w :: u8) = w" if "uint w \<le> 255" for w :: u16
  proof -
    have "take_bit 8 w = w" using that by (simp add: word_uint_eq_iff unsigned_take_bit_eq take_bit_int_eq_self)
    moreover have "ucast (ucast w :: u8) = take_bit 8 w" by (rule bit_word_eqI) (auto simp: bit_simps)
    ultimately show ?thesis by simp
  qed
  let ?q = "rel_rect reg r"
  have wh: "uint (rg_width reg) \<le> 255" "uint (rg_height reg) \<le> 255"
    using assms(1) [OF True] by simp_all
  have q: "uint (rg_x ?q) \<le> 255" "uint (rg_y ?q) \<le> 255" "uint (rg_width ?q) \<le> 255" "uint (rg_height ?q) \<le> 255"
    using s wh by (simp_all add: rel_rect_def)
  have "reads pending (recv_rre_rect be get True)
      ([ucast (rg_x ?q)] @ [ucast (rg_y ?q)] @ [ucast (rg_width ?q)] @ [ucast (rg_height ?q)] @ [])
      (Region (ucast (ucast (rg_x ?q) :: u8)) (ucast (ucast (rg_y ?q) :: u8)) (ucast (ucast (rg_width ?q) :: u8))
        (ucast (ucast (rg_height ?q) :: u8)))"
    unfolding recv_rre_rect_def recvInt8_def if_True
    by (rule reads_bind, rule reads_int8)+ (rule reads_return)
  then show ?thesis using True by (simp add: rre_rect_def low [OF q(1)] low [OF q(2)] low [OF q(3)] low [OF q(4)] Let_def)
     (simp add: rel_rect_def)
qed

lemma rre_subrects_draw:
  assumes link: "link_ok st pf be" and reg: "room reg d"
    and corre: "corre \<Longrightarrow> uint (rg_width reg) \<le> 255 \<and> uint (rg_height reg) \<le> 255"
  shows "\<forall>g \<in> set goods. good_in (es_be st) fb skip reg g \<Longrightarrow> ok r \<Longrightarrow>
    pending s = concat (map (\<lambda>(r, p). pixel_bytes st p @ rre_rect corre reg r) goods) @ rest \<Longrightarrow>
    \<exists>s' r'. rre_subrects (length goods) be get rend corre (region_add reg d) s r = Inr (s', r') \<and> pending s' = rest \<and>
      draws ok img W H (shift d (\<Union>g \<in> set goods. pixels (fst g))) (sent_picture st fb d) r r'"
proof (induction goods arbitrary: s r)
  case Nil
  then show ?case by (auto simp: draws_none in_shift shift_def)
next
  case (Cons g goods)
  obtain q p where g: "g = (q, p)" by (cases g)
  then have good: "pixels q \<subseteq> pixels reg" "\<not> region_isEmpty q" "\<And>x. x \<in> pixels q \<Longrightarrow> image_at (es_be st) fb x = p"
    using Cons.prems(1) by (auto simp: good_in_def simp del: in_pixels)
  let ?rest = "concat (map (\<lambda>(r, p). pixel_bytes st p @ rre_rect corre reg r) goods) @ rest"
  have "pending s = pixel_bytes st p @ (rre_rect corre reg q @ ?rest)" using Cons.prems(3) by (simp add: g)
  then obtain s1 where s1: "recvPixel be get (dr_clientFormat rend r) s = Inr (wire_pixel st p, s1)"
    "pending s1 = rre_rect corre reg q @ ?rest"
    using link_pixel [OF link Cons.prems(2)] by blast
  obtain s2 where s2: "recv_rre_rect be get corre s1 = Inr (rel_rect reg q, s2)" "pending s2 = ?rest"
    using readsE [OF reads_rre_rect [OF corre good(1,2) reg] s1(2)] by blast
  obtain dst where dst: "sub_region (region_add reg d) (rel_rect reg q) = Inr dst" "pixels dst = shift d (pixels q)"
    using sub_region_rel [OF reg good(1,2)] by blast
  obtain r1 where r1: "dr_fillPixel rend dst (wire_pixel st p) r = Inr r1"
    "draws ok img W H (shift d (pixels q)) (\<lambda>_. wire_pixel st p) r r1"
    using render_fill [OF Cons.prems(2), of dst "wire_pixel st p"] by (auto simp: dst(2) wire_trunc [OF link])
  obtain s' r' where r': "rre_subrects (length goods) be get rend corre (region_add reg d) s2 r1 = Inr (s', r')"
    "pending s' = rest" "draws ok img W H (shift d (\<Union>g \<in> set goods. pixels (fst g))) (sent_picture st fb d) r1 r'"
    using Cons.IH [OF _ draws_ok [OF r1(2)] s2(2)] Cons.prems(1) by auto
  have "draws ok img W H (shift d (pixels q) \<union> shift d (\<Union>g \<in> set goods. pixels (fst g))) (sent_picture st fb d) r r'"
    by (rule draws_trans [OF r1(2) r'(3)]) (auto simp: sent_picture_def in_shift good(3))
  moreover have "shift d (pixels q) \<union> shift d (\<Union>g \<in> set goods. pixels (fst g)) = shift d (\<Union>g \<in> set (g # goods). pixels (fst g))"
    by (auto simp: g shift_def image_Un)
  ultimately show ?case using s1(1) s2(1) dst(1) r1(1) r'(1,2) by (simp add: g)
qed

lemma rre_stream_draw:
  assumes link: "link_ok st pf be" and reg: "room reg d"
    and corre: "corre \<Longrightarrow> uint (rg_width reg) \<le> 255 \<and> uint (rg_height reg) \<le> 255"
    and goods: "\<forall>g \<in> set goods. good_in (es_be st) fb skip reg g" "length goods < 2 ^ 32"
    and rest_bg: "\<And>q. q \<in> pixels reg \<Longrightarrow> q \<notin> (\<Union>g \<in> set goods. pixels (fst g)) \<Longrightarrow> image_at (es_be st) fb q = bg"
    and ok: "ok r"
    and s: "pending s = be_bytes 4 (of_nat (length goods) :: u32) @ pixel_bytes st bg @
      concat (map (\<lambda>(r, p). pixel_bytes st p @ rre_rect corre reg r) goods) @ rest"
  shows "\<exists>s' r'. rre_updateRegionStream be get rend corre (region_add reg d) s r = Inr (s', r') \<and> pending s' = rest \<and>
    draws ok img W H (shift d (pixels reg)) (sent_picture st fb d) r r'"
proof -
  let ?tail = "concat (map (\<lambda>(r, p). pixel_bytes st p @ rre_rect corre reg r) goods) @ rest"
  obtain s1 where s1: "getIntBE32 be get s = Inr (of_nat (length goods), s1)" "pending s1 = pixel_bytes st bg @ ?tail"
    using readsE [OF reads_BE(2) s] by blast
  obtain s2 where s2: "recvPixel be get (dr_clientFormat rend r) s1 = Inr (wire_pixel st bg, s2)" "pending s2 = ?tail"
    using link_pixel [OF link ok s1(2)] by blast
  obtain r1 where r1: "dr_fillPixel rend (region_add reg d) (wire_pixel st bg) r = Inr r1"
    "draws ok img W H (shift d (pixels reg)) (\<lambda>_. wire_pixel st bg) r r1"
    using render_fill [OF ok, of "region_add reg d" "wire_pixel st bg"]
    by (auto simp: moved_pixels [OF reg] wire_trunc [OF link])
  obtain s' r' where r': "rre_subrects (length goods) be get rend corre (region_add reg d) s2 r1 = Inr (s', r')"
    "pending s' = rest" "draws ok img W H (shift d (\<Union>g \<in> set goods. pixels (fst g))) (sent_picture st fb d) r1 r'"
    using rre_subrects_draw [OF link reg corre goods(1) draws_ok [OF r1(2)] s2(2)] by blast
  have "draws ok img W H (shift d (pixels reg) \<union> shift d (\<Union>g \<in> set goods. pixels (fst g))) (sent_picture st fb d) r r'"
    by (rule draws_trans [OF r1(2) r'(3)]) (auto simp: sent_picture_def in_shift rest_bg)
  moreover have "shift d (pixels reg) \<union> shift d (\<Union>g \<in> set goods. pixels (fst g)) = shift d (pixels reg)"
    using goods(1) by (fastforce simp: in_shift good_in_def simp del: in_pixels)
  moreover have "unat (of_nat (length goods) :: u32) = length goods"
    using goods(2) by (simp only: unsigned_of_nat) (simp add: take_bit_nat_eq_self)
  ultimately show ?thesis
    using s1(1) s2(1) r1(1) r'(1,2) by (simp add: rre_updateRegionStream_def recvIntBE32_def)
qed

end

text \<open>The bytes of a region: one background, and a list of rectangles that holds every other pixel.\<close>

lemma rre_sendRegion_bytes:
  assumes fb: "fb_wf fb" "tile_ok reg fb" and ord: "perm_order (es_order st)" and link: "link_ok st pf be"
  obtains goods bg skip where "rre_sendRegion st corre d reg fb = Inr (region_add reg d,
      be_bytes 4 (of_nat (length goods) :: u32) @ pixel_bytes st bg @
      concat (map (\<lambda>(r, p). pixel_bytes st p @ rre_rect corre reg r) goods))"
    and "\<forall>g \<in> set goods. good_in (es_be st) fb skip reg g" and "length goods < 2 ^ 32"
    and "\<And>q. q \<in> pixels reg \<Longrightarrow> q \<notin> (\<Union>g \<in> set goods. pixels (fst g)) \<Longrightarrow> image_at (es_be st) fb q = bg"
proof -
  have ins: "inside reg fb" "\<not> region_isEmpty reg" using fb(2) by (simp_all add: tile_ok_def)
  have px: "sendPixel st p = Inr (pixel_bytes st p)" for p
    using link sendPixel_Inr by (auto simp: link_ok_def)
  obtain m where m: "pixelMapWeight (es_order st) (es_be st) (es_par st) fb reg = Inr m" "m \<noteq> []"
    "length m = card (image_at (es_be st) fb ` pixels reg)"
    using tile_weights [OF fb ord] by metis
  show thesis
  proof (cases "length m > 1")
    case True
    let ?bg = "maxWeightPixel m"
    obtain goods where g: "rreProcessing (es_be st) reg fb ?bg = Inr goods" "rre_inv (es_be st) fb ?bg reg goods []"
      using rreProcessing_inv [OF fb(1) ins] by blast
    have "concatM (\<lambda>(r, p). rbind (sendPixel st p) (\<lambda>px. Inr (px @ rre_rect corre reg r))) goods =
        Inr (concat (map (\<lambda>(r, p). pixel_bytes st p @ rre_rect corre reg r) goods))"
      by (rule concatM_Inr) (auto simp: px)
    then have "rre_sendRegion st corre d reg fb = Inr (region_add reg d,
      be_bytes 4 (of_nat (length goods) :: u32) @ pixel_bytes st ?bg @
      concat (map (\<lambda>(r, p). pixel_bytes st p @ rre_rect corre reg r) goods))"
      using True g(1) by (simp add: rre_sendRegion_def m(1) m(2) rre_sendRects_def px Let_def)
    moreover have "\<forall>g \<in> set goods. good_in (es_be st) fb ?bg reg g" using g(2) by (simp add: rre_inv_def)
    moreover have "length goods < 2 ^ 32"
      using goods_count [OF g(2)] marks_le [of "es_be st" fb ?bg reg] tile_area [OF fb(2)] by simp
    moreover have "image_at (es_be st) fb q = ?bg"
      if "q \<in> pixels reg" "q \<notin> (\<Union>g \<in> set goods. pixels (fst g))" for q
      using g(2) that by (auto simp: rre_inv_def marks_def simp del: in_pixels)
    ultimately show thesis by (rule that)
  next
    case False
    let ?q = "(sint (rg_x reg), sint (rg_y reg))"
    let ?bg = "image_at (es_be st) fb ?q" and ?r = "reg\<lparr>rg_width := 1, rg_height := 1\<rparr>"
    note c = corner_pixel [OF fb(1) ins]
    have one: "image_at (es_be st) fb q = ?bg" if "q \<in> pixels reg" for q
      using False m(2,3) by (intro one_image [OF _ c(2) that]) (cases m; auto)
    have "pixels ?r = {?q}" by (auto simp: pixels_def)
    moreover have "\<not> region_isEmpty ?r" by (simp add: isEmpty_iff)
    ultimately have "good_in (es_be st) fb (?bg + 1) reg (?r, ?bg)"
      using c(2) unfolding good_in_def by simp
    moreover have "rre_sendRegion st corre d reg fb = Inr (region_add reg d,
      be_bytes 4 (of_nat (length [(?r, ?bg)]) :: u32) @ pixel_bytes st ?bg @
      concat (map (\<lambda>(r, p). pixel_bytes st p @ rre_rect corre reg r) [(?r, ?bg)]))"
      using False by (simp add: rre_sendRegion_def m(1) m(2) px c(1) rre_rect_def Let_def narrow16_def)
    ultimately show thesis using one by (intro that [of "[(?r, ?bg)]" ?bg "?bg + 1"]) simp_all
  qed
qed


text \<open>
  C5. RRE and CoRRE end to end: what \<open>sendRegion\<close> sends for a region is a header with the moved region
  and a stream that \<open>updateRegionStream\<close>, whatever follows it, reads to its last byte; the render is
  changed in the moved region only, where every pixel is that of the server in the format of the
  client.
\<close>

theorem rre_roundtrip:
  assumes "fb_wf fb" and "tile_ok reg fb" and "room reg d" and "perm_order (es_order st)" and "link_ok st pf be"
    and "vi_ok sf pf W H v"
  shows "\<exists>bs. rre_sendRegion st corre d reg fb = Inr (region_add reg d, bs) \<and>
    (\<forall>s rest. ref_pending s = bs @ rest \<longrightarrow>
      (\<exists>s' v'. rre_updateRegionStream be ref_getRaw (vi_render be par) corre (region_add reg d) s v = Inr (s', v') \<and>
        ref_pending s' = rest \<and>
        draws (vi_ok sf pf W H) (vi_image be) W H (shift d (pixels reg)) (sent_picture st fb d) v v'))"
proof -
  obtain goods bg skip where g: "rre_sendRegion st corre d reg fb = Inr (region_add reg d,
      be_bytes 4 (of_nat (length goods) :: u32) @ pixel_bytes st bg @
      concat (map (\<lambda>(r, p). pixel_bytes st p @ rre_rect corre reg r) goods))"
    "\<forall>g \<in> set goods. good_in (es_be st) fb skip reg g" "length goods < 2 ^ 32"
    "\<And>q. q \<in> pixels reg \<Longrightarrow> q \<notin> (\<Union>g \<in> set goods. pixels (fst g)) \<Longrightarrow> image_at (es_be st) fb q = bg"
    using rre_sendRegion_bytes [OF assms(1,2,4,5)] by metis
  have c: "corre \<Longrightarrow> uint (rg_width reg) \<le> 255 \<and> uint (rg_height reg) \<le> 255"
    using assms(2) by (simp add: tile_ok_def)
  show ?thesis
    by (rule exI, rule conjI [OF g(1)], intro allI impI,
      rule link.rre_stream_draw [OF assms(5,3) c g(2-4) assms(6)]) simp_all
qed


theorem rre_roundtrip_witness:
  "\<exists>bs s' v'. rre_sendRegion (sample_stream RGBX32) True (Point 3 4) (Region 1 2 6 5) (frameBuffer_new (Size 8 8) BGRX32 0) =
      Inr (region_add (Region 1 2 6 5) (Point 3 4), bs) \<and>
    rre_updateRegionStream False ref_getRaw (vi_render False True) True (region_add (Region 1 2 6 5) (Point 3 4))
      (streamBufRef (Some bs) (length bs)) (sample_client RGBX32) = Inr (s', v') \<and> ref_pending s' = []"
proof -
  obtain bs where bs: "rre_sendRegion (sample_stream RGBX32) True (Point 3 4) (Region 1 2 6 5) (frameBuffer_new (Size 8 8) BGRX32 0) =
      Inr (region_add (Region 1 2 6 5) (Point 3 4), bs)"
    "\<And>s rest. ref_pending s = bs @ rest \<Longrightarrow>
      \<exists>s' v'. rre_updateRegionStream False ref_getRaw (vi_render False True) True (region_add (Region 1 2 6 5) (Point 3 4)) s
        (sample_client RGBX32) = Inr (s', v') \<and> ref_pending s' = rest"
    using rre_roundtrip [OF sample_link(4,5,6,3,2,1), of True True] by blast
  from bs(2) [of "streamBufRef (Some bs) (length bs)" "[]"] bs(1) show ?thesis by auto
qed

end
