(* ===== verification/Raw_Codec.thy ===== *)
theory Raw_Codec
  imports Codec_Link
begin

text \<open>
  Raw pixels from end to end: the pixels of a region in the client's format, row by row.
\<close>

section \<open>What the encoder sends\<close>

definition raw_bytes :: "encoderstream \<Rightarrow> u32 \<Rightarrow> bytes" where
  "raw_bytes st p = native_bytes (clientIsBigEndian st) (unat (bytePixel (clientFormat st)))
     (convertFrom (clientFormat st) (serverFormat st) p)"

definition raw_link :: "encoderstream \<Rightarrow> pixelformat \<Rightarrow> bool \<Rightarrow> bool" where
  "raw_link st pf be \<longleftrightarrow> bytePixel pf \<in> {1, 2, 4} \<and> clientIsBigEndian st = be \<and> clientFormat st = pf \<and> fmt_ok pf"

lemma le_bytes_ucast: "le_bytes 2 (ucast (p :: u32) :: u16) = le_bytes 2 p"
  by (intro nth_equalityI) (auto simp: nth_le_bytes less_Suc_eq numeral_eq_Suc intro!: bit_word_eqI simp: bit_simps)

lemma narrow_back:
  "ucast (ucast (p :: u32) :: u8) = take_bit 8 p" "ucast (le_val (le_bytes 2 p) :: u16) = take_bit 16 (p :: u32)"
proof -
  show "ucast (ucast p :: u8) = take_bit 8 p" by (rule bit_word_eqI) (auto simp: bit_simps)
  have "le_val (le_bytes 2 p) = (ucast p :: u16)" by (simp flip: le_bytes_ucast)
  moreover have "ucast (ucast p :: u16) = take_bit 16 p" by (rule bit_word_eqI) (auto simp: bit_simps)
  ultimately show "ucast (le_val (le_bytes 2 p) :: u16) = take_bit 16 p" by simp
qed

lemma sendPixel_raw: "raw_link st pf be \<Longrightarrow> sendPixel st p = Inr (raw_bytes st p)"
  by (auto simp: raw_link_def sendPixel_def sendPixelRaw_def raw_bytes_def native_bytes_def be_bytes_def le_bytes_ucast)

lemma sendRawRegionPixels_bytes:
  assumes "fb_wf fb" and "inside reg fb" and "raw_link st pf be"
  shows "sendRawRegionPixels st reg fb = Inr (concat (map (raw_bytes st) (region_image (es_be st) fb reg)))"
  unfolding sendRawRegionPixels_def region_image_def
  by (subst concatM_Inr [where g = "\<lambda>c. raw_bytes st (fb_image (es_be st) fb (nat (sint (rg_x reg)) + fst c)
        (nat (sint (rg_y reg)) + snd c))"])
    (simp_all add: scan_pixel_image [OF assms(1,2)] sendPixel_raw [OF assms(3)] comp_def case_prod_beta')

section \<open>What the decoder draws\<close>

lemma take_drop_blocks:
  assumes "\<And>x. length (f x) = n" and "k < length xs"
  shows "take n (drop (k * n) (concat (map f xs))) = f (xs ! k)"
  using assms(2)
proof (induction xs arbitrary: k)
  case Nil
  then show ?case by simp
next
  case (Cons x xs)
  then show ?case by (cases k) (simp_all add: assms(1))
qed

lemma read_block:
  "off + n \<le> length (fb_buffer (fb_ptr fb)) \<Longrightarrow>
   fb_read fb (int off) n = Inr (take n (drop off (fb_buffer (fb_ptr fb))))"
  by (simp add: fb_read_def read_mem_def)

lemma loop_coords_nth:
  assumes "i < unat (rg_width reg)" and "j < unat (rg_height reg)"
  shows "loop_coords reg ! (j * unat (rg_width reg) + i) = (i, j)"
    and "j * unat (rg_width reg) + i < length (loop_coords reg)"
proof -
  let ?w = "unat (rg_width reg)" and ?h = "unat (rg_height reg)"
  have "j * ?w + i < (j + 1) * ?w" using assms(1) by simp
  also have "\<dots> \<le> ?h * ?w" using assms(2) by (intro mult_le_mono1) simp
  finally show l: "j * ?w + i < length (loop_coords reg)" by (simp add: length_loop_coords mult.commute)
  have "loop_coords reg = map prod.swap (List.product [0..<?h] [0..<?w])"
    by (simp add: loop_coords_def product_concat_map map_concat comp_def)
  with l show "loop_coords reg ! (j * ?w + i) = (i, j)"
    using assms by (simp add: product_nth length_loop_coords mult.commute)
qed

text \<open>A buffer of cells, one for every pixel, is a frame buffer that shows the pixels.\<close>

lemma wrapped_image:
  assumes pf: "fmt_ok pf" "bytePixel pf \<in> {1, 2, 4}" and buf: "length ps = unat (rg_width reg) * unat (rg_height reg)"
    and ij: "i < unat (rg_width reg)" "j < unat (rg_height reg)"
  shows "fb_image be (frameBuffer_wrap (concat (map (native_bytes be (unat (bytePixel pf))) ps))
      (Region 0 0 (rg_width reg) (rg_height reg)) pf (ucast (region_pitch reg pf))) i j =
    take_bit (unat (bitsPixel pf)) (ps ! (j * unat (rg_width reg) + i))"
proof -
  let ?n = "unat (bytePixel pf)" and ?k = "j * unat (rg_width reg) + i"
  let ?buf = "concat (map (native_bytes be ?n) ps)"
  let ?fb = "frameBuffer_wrap ?buf (Region 0 0 (rg_width reg) (rg_height reg)) pf (ucast (region_pitch reg pf))"
  have k: "?k < length ps" using loop_coords_nth(2) [OF ij] by (simp add: buf length_loop_coords)
  have len: "length ?buf = length ps * ?n" by (simp add: length_concat comp_def sum_list_triv)
  have "pix_off ?fb i j = ?k * ?n" by (simp add: pix_off_def wrap_pitch [OF pf(1)] algebra_simps)
  moreover have "?k * ?n + ?n \<le> length ?buf"
  proof -
    have "Suc ?k * ?n \<le> length ps * ?n" using k by (intro mult_le_mono1) simp
    then show ?thesis by (simp only: len mult_Suc add.commute)
  qed
  ultimately have "fb_read ?fb (int (pix_off ?fb i j)) ?n = Inr (take ?n (drop (?k * ?n) ?buf))"
    using read_block [of "pix_off ?fb i j" ?n ?fb] by (simp only: frameBuffer_wrap_simps)
  then have "fb_read ?fb (int (pix_off ?fb i j)) ?n = Inr (native_bytes be ?n (ps ! ?k))"
    by (simp only: take_drop_blocks [OF length_native_bytes k])
  then show ?thesis
    using pf by (auto simp: fb_image_def raw_at_def rawPixel_def fmt_ok_def native_bytes_def native_val_def
        le_val_le_bytes be_val_def be_bytes_def narrow_back)
qed


lemma raw_bytes_map:
  "raw_link st pf be \<Longrightarrow> map (raw_bytes st) ps =
    map (native_bytes be (unat (bytePixel pf))) (map (convertFrom pf (serverFormat st)) ps)"
  by (auto simp: raw_bytes_def raw_link_def)

lemma sent_raw:
  assumes "raw_link st pf be" and "inside reg fb" and "room reg d" and "q \<in> shift d (pixels reg)"
  shows "(\<lambda>(i, j). fb_image be (frameBuffer_wrap (concat (map (raw_bytes st) (region_image (es_be st) fb reg)))
      (Region 0 0 (rg_width reg) (rg_height reg)) pf (ucast (region_pitch reg pf)))
      (nat (i - sint (rg_x (region_add reg d)))) (nat (j - sint (rg_y (region_add reg d))))) q = sent_picture st fb d q"
proof -
  obtain a b where q: "q = (a, b)" by (cases q)
  note m = moved_fields [OF assms(3)]
  define i where "i = nat (a - sint (rg_x (region_add reg d)))"
  define j where "j = nat (b - sint (rg_y (region_add reg d)))"
  have "(a - sint (pt_x d), b - sint (pt_y d)) \<in> pixels reg" using assms(4) by (simp add: q in_shift unshift_def)
  then have le: "sint (rg_x reg) + sint (pt_x d) \<le> a" "a < sint (rg_x reg) + sint (pt_x d) + uint (rg_width reg)"
    "sint (rg_y reg) + sint (pt_y d) \<le> b" "b < sint (rg_y reg) + sint (pt_y d) + uint (rg_height reg)" by auto
  then have ij: "int i < uint (rg_width reg)" "int j < uint (rg_height reg)"
    "a = sint (rg_x reg) + sint (pt_x d) + int i" "b = sint (rg_y reg) + sint (pt_y d) + int j"
    unfolding i_def j_def m by simp_all
  then have lt: "i < unat (rg_width reg)" "j < unat (rg_height reg)" by (simp_all add: int_less_uint)
  let ?ps = "map (convertFrom pf (serverFormat st)) (region_image (es_be st) fb reg)"
  let ?k = "j * unat (rg_width reg) + i"
  have pf: "fmt_ok pf" "bytePixel pf \<in> {1, 2, 4}" using assms(1) by (simp_all add: raw_link_def)
  note k = loop_coords_nth [OF lt]
  have org: "0 \<le> sint (rg_x reg)" "0 \<le> sint (rg_y reg)" using assms(3) by (simp_all add: room_def)
  have "?ps ! ?k = convertFrom pf (serverFormat st) (fb_image (es_be st) fb (nat (sint (rg_x reg)) + i) (nat (sint (rg_y reg)) + j))"
    using k by (simp add: region_image_def)
  moreover have "unshift d q = (sint (rg_x reg) + int i, sint (rg_y reg) + int j)" by (simp add: unshift_def q ij(3,4))
  moreover have "8 * unat (bytePixel pf) = unat (bitsPixel pf)" using pf by (simp add: fmt_ok_def)
  moreover have "clientFormat st = pf" using assms(1) by (simp add: raw_link_def)
  ultimately show ?thesis
    using wrapped_image [OF pf, of ?ps reg i j be] lt org
    by (simp add: raw_bytes_map [OF assms(1)] length_region_image q i_def [symmetric] j_def [symmetric]
        sent_picture_def image_at_def wire_pixel_def nat_add_distrib)
qed

context decoder_link
begin

lemma raw_draw:
  assumes "raw_link st pf be" and "inside reg fb" and "room reg d" and "ok r"
  shows "\<exists>r'. dr_updateRawPixels rend (region_add reg d) (concat (map (raw_bytes st) (region_image (es_be st) fb reg)))
      (region_pitch (region_add reg d) pf) pf r = Inr r' \<and>
    draws ok img W H (shift d (pixels reg)) (sent_picture st fb d) r r'"
proof -
  let ?buf = "concat (map (raw_bytes st) (region_image (es_be st) fb reg))" and ?reg = "region_add reg d"
  note m = moved_fields [OF assms(3)]
  have "length ?buf = unat (bytePixel pf) * (unat (rg_width reg) * unat (rg_height reg))"
    using assms(1) by (simp add: length_concat comp_def raw_bytes_def raw_link_def sum_list_triv length_region_image)
  moreover have "uint (rg_width reg) \<le> 32767" "uint (rg_height reg) \<le> 32767"
    "0 \<le> sint (rg_x ?reg)" "0 \<le> sint (rg_y ?reg)"
    using assms(3) unfolding room_def m by linarith+
  moreover have "fmt_ok pf" using assms(1) by (simp add: raw_link_def)
  ultimately obtain r' where r': "dr_updateRawPixels rend ?reg ?buf (region_pitch ?reg pf) pf r = Inr r'"
    "draws ok img W H (pixels ?reg) (\<lambda>(i, j).
          fb_image be (frameBuffer_wrap ?buf (Region 0 0 (rg_width ?reg) (rg_height ?reg)) pf
                (ucast (region_pitch ?reg pf))) (nat (i - sint (rg_x ?reg))) (nat (j - sint (rg_y ?reg)))) r r'"
    using render_raw [OF assms(4), of pf ?reg ?buf] by (auto simp: m Let_def algebra_simps)
  have "region_pitch ?reg pf = region_pitch reg pf" by (simp add: region_pitch_def m)
  with r'(2) have "draws ok img W H (pixels ?reg) (\<lambda>(i, j).
          fb_image be (frameBuffer_wrap ?buf (Region 0 0 (rg_width reg) (rg_height reg)) pf
                (ucast (region_pitch reg pf))) (nat (i - sint (rg_x ?reg))) (nat (j - sint (rg_y ?reg)))) r r'"
    by (simp only: m)
  from draws_cong [OF this moved_pixels [OF assms(3)], of "sent_picture st fb d"]
  have "draws ok img W H (shift d (pixels reg)) (sent_picture st fb d) r r'"
    using sent_raw [OF assms(1-3)] by (simp add: moved_pixels [OF assms(3)] del: in_pixels)
  with r'(1) show ?thesis by blast
qed

end


text \<open>
  C9. Raw end to end: for clients of 8, 16 or 32 bit pixels, the bytes \<open>EncodingRaw::sendRegion\<close> makes
  of a region are as many as its pixels take, and \<open>DecodingRaw::updateRegionBuf\<close> draws them as the
  region of the server in the client's format, on the moved region and nowhere else.
\<close>

theorem raw_roundtrip:
  assumes "fb_wf fb" and "inside reg fb" and "room reg d" and "raw_link st pf be" and "vi_ok sf pf W H v"
  shows "\<exists>bs v'. raw_sendRegion st d reg fb = Inr (region_add reg d, bs) \<and>
    length bs = unat (bytePixel pf) * (unat (rg_width reg) * unat (rg_height reg)) \<and>
    raw_updateRegionBuf (vi_render be par) bs (region_add reg d) v = Inr v' \<and>
    draws (vi_ok sf pf W H) (vi_image be) W H (shift d (pixels reg)) (sent_picture st fb d) v v'"
proof -
  let ?bs = "concat (map (raw_bytes st) (region_image (es_be st) fb reg))"
  have "raw_sendRegion st d reg fb = Inr (region_add reg d, ?bs)"
    using sendRawRegionPixels_bytes [OF assms(1,2,4)] by (simp add: raw_sendRegion_def)
  moreover have "length ?bs = unat (bytePixel pf) * (unat (rg_width reg) * unat (rg_height reg))"
    using assms(4) by (simp add: length_concat comp_def raw_bytes_def raw_link_def sum_list_triv length_region_image)
  moreover obtain v' where "dr_updateRawPixels (vi_render be par) (region_add reg d) ?bs (region_pitch (region_add reg d) pf) pf v = Inr v'"
    and "draws (vi_ok sf pf W H) (vi_image be) W H (shift d (pixels reg)) (sent_picture st fb d) v v'"
    using link.raw_draw [OF assms(4,2,3,5)] by blast
  ultimately show ?thesis
    by (auto simp: raw_updateRegionBuf_def vi.render_client [OF assms(5)])
qed

lemma sample_raw:
  "raw_link (sample_stream RGB565) RGB565 False" "vi_ok BGRX32 RGB565 16 16 (sample_client RGB565)"
  by (simp_all add: raw_link_def sample_stream_def vi_ok_def sample_client_def frameBuffer_new_wf at_origin_def
      region_of_def fmt_ok_def formats)

theorem raw_roundtrip_witness:
  "\<exists>bs v'. raw_sendRegion (sample_stream RGB565) (Point 3 4) (Region 1 2 6 5) (frameBuffer_new (Size 8 8) BGRX32 0) =
      Inr (region_add (Region 1 2 6 5) (Point 3 4), bs) \<and> length bs = 60 \<and>
    raw_updateRegionBuf (vi_render False True) bs (region_add (Region 1 2 6 5) (Point 3 4)) (sample_client RGB565) = Inr v'"
proof -
  have "inside (Region 1 2 6 5) (frameBuffer_new (Size 8 8) BGRX32 0)"
    using sample_link(5) by (simp add: tile_ok_def)
  from raw_roundtrip [OF sample_link(4) this sample_link(6) sample_raw, of True] show ?thesis
    by (auto simp: formats)
qed

end
