(* ===== verification/HexTile_Codec.thy ===== *)
theory HexTile_Codec
  imports Raw_Codec
begin

text \<open>
  HexTile from end to end: the four kinds of tile \<open>EncodingHexTile::sendRegion\<close> sends.
\<close>

section \<open>The nibbles of a rectangle\<close>

lemma nibbles:
  fixes x y :: int
  assumes "0 \<le> x" "x < 16" "0 \<le> y" "y < 16"
  defines "v \<equiv> word_of_int (0xFF AND (push_bit 4 x OR y)) :: u8"
  shows "(ucast (0x0F AND drop_bit 4 v) :: u16) = word_of_int x" and "(ucast (0x0F AND v) :: u16) = word_of_int y"
proof -
  have f: "(0x0F :: u8) = mask 4" "(0xFF :: int) = mask 8" by (simp_all add: mask_eq_exp_minus_1)
  have "take_bit 4 x = x" "take_bit 4 y = y" using assms by (simp_all add: take_bit_int_eq_self)
  then have b: "bit x n \<Longrightarrow> n < 4" "bit y n \<Longrightarrow> n < 4" for n
    by (metis bit_take_bit_iff)+
  show "(ucast (0x0F AND drop_bit 4 v) :: u16) = word_of_int x"
  proof (rule bit_word_eqI)
    fix n assume "n < LENGTH(16)"
    then show "bit (ucast (0x0F AND drop_bit 4 v) :: u16) n = bit (word_of_int x :: u16) n"
      using b(1) [of n] b(2) [of "4 + n"] by (auto simp: v_def f bit_simps)
  qed
  show "(ucast (0x0F AND v) :: u16) = word_of_int y"
  proof (rule bit_word_eqI)
    fix n assume "n < LENGTH(16)"
    then show "bit (ucast (0x0F AND v) :: u16) n = bit (word_of_int y :: u16) n"
      using b(2) [of n] by (auto simp: v_def f bit_simps)
  qed
qed

lemma hextile_rect_bytes:
  assumes "uint (rg_width reg) \<le> 16" and "uint (rg_height reg) \<le> 16" and "pixels r \<subseteq> pixels reg" and "\<not> region_isEmpty r"
  obtains v1 v2 where "hextile_rect reg r = [v1, v2]"
    and "Region (ucast (0x0F AND drop_bit 4 v1)) (ucast (0x0F AND v1)) (1 + ucast (0x0F AND drop_bit 4 v2))
      (1 + ucast (0x0F AND v2)) = rel_rect reg r"
proof -
  note s = subset_sides [OF assms(3,4)]
  let ?x = "sint (rg_x r) - sint (rg_x reg)" and ?y = "sint (rg_y r) - sint (rg_y reg)"
  let ?w = "uint (rg_width r) - 1" and ?h = "uint (rg_height r) - 1"
  have lt: "0 \<le> ?x" "?x < 16" "0 \<le> ?y" "?y < 16" "0 \<le> ?w" "?w < 16" "0 \<le> ?h" "?h < 16"
    using s assms(1,2) by linarith+
  have one: "1 + word_of_int (uint k - 1) = (k :: u16)" for k by (simp add: word_of_int_minus)
  show thesis
    by (rule that, unfold hextile_rect_def Let_def, rule refl)
      (simp add: nibbles [OF lt(1-4)] nibbles [OF lt(5-8)] rel_rect_def narrow16_def one)
qed


section \<open>What the decoder draws\<close>

lemma pitch_size:
  assumes "fmt_ok pf"
  shows "unat (region_pitch reg pf) = unat (bytePixel pf) * unat (rg_width reg)"
proof -
  have "unat (bytePixel pf) \<le> 4" using assms by (auto simp: fmt_ok_def)
  then have lt: "unat (rg_width reg) * unat (bytePixel pf) < 2 ^ 32"
    using mult_le_mono [of "unat (rg_width reg)" 65535 "unat (bytePixel pf)" 4] unsigned_less [of "rg_width reg", where ?'a = nat]
    by simp
  have "region_pitch reg pf = of_nat (unat (rg_width reg) * unat (bytePixel pf))"
    unfolding region_pitch_def uint_nat [of "rg_width reg"] uint_nat [of "bytePixel pf"] by (simp only: of_nat_mult of_int_mult of_int_of_nat_eq)
  then have "unat (region_pitch reg pf) = unat (rg_width reg) * unat (bytePixel pf)"
    using lt by (simp only: unsigned_of_nat) (simp add: take_bit_nat_eq_self)
  then show ?thesis by (simp add: mult.commute)
qed

definition small_tile :: "region \<Rightarrow> framebuffer \<Rightarrow> bool" where
  "small_tile reg fb \<longleftrightarrow> tile_ok reg fb \<and> uint (rg_width reg) \<le> 16 \<and> uint (rg_height reg) \<le> 16"

definition hex_rects :: "encoderstream \<Rightarrow> bool \<Rightarrow> region \<Rightarrow> regionpixels \<Rightarrow> bytes" where
  "hex_rects st coloured reg goods =
     concat (map (\<lambda>(r, p). (if coloured then pixel_bytes st p else []) @ hextile_rect reg r) goods)"

lemma hextile_flags:
  "(HEXTILE_BACKGROUND OR HEXTILE_COLOURED OR HEXTILE_SUBRECTS) = 26"
  "(HEXTILE_BACKGROUND OR HEXTILE_FOREGROUND OR HEXTILE_SUBRECTS) = 14"
  "(14 :: u8) AND NOT HEXTILE_COLOURED = 14"
  "26 AND HEXTILE_RAW = 0" "14 AND HEXTILE_RAW = 0" "HEXTILE_BACKGROUND AND HEXTILE_RAW = 0"
  "26 AND HEXTILE_BACKGROUND \<noteq> 0" "14 AND HEXTILE_BACKGROUND \<noteq> 0" "HEXTILE_BACKGROUND AND HEXTILE_BACKGROUND \<noteq> 0"
  "26 AND HEXTILE_FOREGROUND = 0" "14 AND HEXTILE_FOREGROUND \<noteq> 0" "HEXTILE_BACKGROUND AND HEXTILE_FOREGROUND = 0"
  "26 AND HEXTILE_SUBRECTS \<noteq> 0" "14 AND HEXTILE_SUBRECTS \<noteq> 0" "HEXTILE_BACKGROUND AND HEXTILE_SUBRECTS = 0"
  "HEXTILE_RAW \<noteq> 0" "26 AND HEXTILE_COLOURED \<noteq> 0" "14 AND HEXTILE_COLOURED = 0" "HEXTILE_RAW AND HEXTILE_RAW \<noteq> 0"
  by (simp_all add: hextile_defs)

context decoder_link
begin

lemma hextile_subrects_draw:
  assumes link: "link_ok st pf be" and reg: "room reg d" "uint (rg_width reg) \<le> 16" "uint (rg_height reg) \<le> 16"
    and flag: "flag AND HEXTILE_COLOURED \<noteq> 0 \<longleftrightarrow> coloured"
  shows "\<forall>g \<in> set goods. good_in (es_be st) fb skip reg g \<and> (coloured \<or> wire_pixel st (snd g) = fg) \<Longrightarrow> ok r \<Longrightarrow>
    pending s = hex_rects st coloured reg goods @ rest \<Longrightarrow>
    \<exists>s' r'. hextile_subrects (length goods) be get rend flag fg (region_add reg d) s r = Inr (s', r') \<and> pending s' = rest \<and>
      draws ok img W H (shift d (\<Union>g \<in> set goods. pixels (fst g))) (sent_picture st fb d) r r'"
proof (induction goods arbitrary: s r)
  case Nil
  then show ?case by (auto simp: draws_none in_shift shift_def hex_rects_def)
next
  case (Cons g goods)
  obtain q p where g: "g = (q, p)" by (cases g)
  then have good: "pixels q \<subseteq> pixels reg" "\<not> region_isEmpty q" "\<And>x. x \<in> pixels q \<Longrightarrow> image_at (es_be st) fb x = p"
    and fg: "coloured \<or> wire_pixel st p = fg"
    using Cons.prems(1) by (auto simp: good_in_def simp del: in_pixels)
  let ?rest = "hex_rects st coloured reg goods @ rest"
  obtain v1 v2 where v: "hextile_rect reg q = [v1, v2]"
    "Region (ucast (0x0F AND drop_bit 4 v1)) (ucast (0x0F AND v1)) (1 + ucast (0x0F AND drop_bit 4 v2))
      (1 + ucast (0x0F AND v2)) = rel_rect reg q"
    by (rule hextile_rect_bytes [OF reg(2,3) good(1,2)])
  have "\<exists>s1. (if flag AND HEXTILE_COLOURED \<noteq> 0 then recvPixel be get (dr_clientFormat rend r) s else Inr (fg, s)) =
      Inr (wire_pixel st p, s1) \<and> pending s1 = [v1] @ [v2] @ ?rest"
  proof (cases coloured)
    case True
    then have "pending s = pixel_bytes st p @ [v1] @ [v2] @ ?rest" using Cons.prems(3) by (simp add: g v hex_rects_def)
    from link_pixel [OF link Cons.prems(2) this] True flag show ?thesis by metis
  next
    case False
    then show ?thesis using Cons.prems(3) fg flag by (simp add: g v hex_rects_def)
  qed
  then obtain s1 where s1: "(if flag AND HEXTILE_COLOURED \<noteq> 0 then recvPixel be get (dr_clientFormat rend r) s else Inr (fg, s)) =
      Inr (wire_pixel st p, s1)" "pending s1 = [v1] @ [v2] @ ?rest" by blast
  obtain s2 where s2: "getInt8 get s1 = Inr (v1, s2)" "pending s2 = [v2] @ ?rest"
    by (rule readsE [OF reads_int8 s1(2)])
  obtain s3 where s3: "getInt8 get s2 = Inr (v2, s3)" "pending s3 = ?rest"
    by (rule readsE [OF reads_int8 s2(2)])
  obtain dst where dst: "sub_region (region_add reg d) (rel_rect reg q) = Inr dst" "pixels dst = shift d (pixels q)"
    using sub_region_rel [OF reg(1) good(1,2)] by blast
  obtain r1 where r1: "dr_fillPixel rend dst (wire_pixel st p) r = Inr r1"
    "draws ok img W H (shift d (pixels q)) (\<lambda>_. wire_pixel st p) r r1"
    using render_fill [OF Cons.prems(2), of dst "wire_pixel st p"] by (auto simp: dst(2) wire_trunc [OF link])
  obtain s' r' where r': "hextile_subrects (length goods) be get rend flag fg (region_add reg d) s3 r1 = Inr (s', r')"
    "pending s' = rest" "draws ok img W H (shift d (\<Union>g \<in> set goods. pixels (fst g))) (sent_picture st fb d) r1 r'"
    using Cons.IH [OF _ draws_ok [OF r1(2)] s3(2)] Cons.prems(1) by auto
  have "draws ok img W H (shift d (pixels q) \<union> shift d (\<Union>g \<in> set goods. pixels (fst g))) (sent_picture st fb d) r r'"
    by (rule draws_trans [OF r1(2) r'(3)]) (auto simp: sent_picture_def in_shift good(3))
  moreover have "shift d (pixels q) \<union> shift d (\<Union>g \<in> set goods. pixels (fst g)) = shift d (\<Union>g \<in> set (g # goods). pixels (fst g))"
    by (auto simp: g shift_def image_Un)
  ultimately show ?case
    using s1(1) s2(1) s3(1) dst(1) r1(1) r'(1,2) by (simp add: recvInt8_def v(2))
qed

lemma hextile_background:
  assumes link: "link_ok st pf be" and reg: "room reg d" and ok: "ok r"
    and flag: "flag AND HEXTILE_RAW = 0" "flag AND HEXTILE_BACKGROUND \<noteq> 0"
    and s: "pending s = flag # pixel_bytes st bg @ rest"
  obtains s' r' where "pending s' = rest" and "draws ok img W H (shift d (pixels reg)) (\<lambda>_. wire_pixel st bg) r r'"
    and "hextile_updateRegionStreamColors be get rend (region_add reg d) hx s r =
       rbind (if flag AND HEXTILE_FOREGROUND \<noteq> 0
              then rbind (recvPixel be get (dr_clientFormat rend r') s') (\<lambda>(p, s).
                Inr (flag AND NOT HEXTILE_COLOURED, hx\<lparr>hx_bgColor := wire_pixel st bg, hx_fgColor := p\<rparr>, s))
              else Inr (flag, hx\<lparr>hx_bgColor := wire_pixel st bg\<rparr>, s')) (\<lambda>(flag, hx, s).
       if flag AND HEXTILE_SUBRECTS \<noteq> 0 then
         rbind (recvInt8 get s) (\<lambda>(subRects, s).
         rbind (hextile_subrects (unat subRects) be get rend flag (hx_fgColor hx) (region_add reg d) s r') (\<lambda>(s, r).
         Inr (hx, s, r)))
       else Inr (hx, s, r'))"
proof -
  have "pending s = [flag] @ (pixel_bytes st bg @ rest)" using s by simp
  then obtain s1 where s1: "getInt8 get s = Inr (flag, s1)" "pending s1 = pixel_bytes st bg @ rest"
    by (rule readsE [OF reads_int8])
  obtain s2 where s2: "recvPixel be get (dr_clientFormat rend r) s1 = Inr (wire_pixel st bg, s2)" "pending s2 = rest"
    by (rule link_pixel [OF link ok s1(2)])
  obtain r1 where r1: "dr_fillPixel rend (region_add reg d) (wire_pixel st bg) r = Inr r1"
    "draws ok img W H (shift d (pixels reg)) (\<lambda>_. wire_pixel st bg) r r1"
    using render_fill [OF ok, of "region_add reg d" "wire_pixel st bg"]
    by (auto simp: moved_pixels [OF reg] wire_trunc [OF link])
  show thesis
    by (rule that [OF s2(2) r1(2)])
      (simp add: hextile_updateRegionStreamColors_def recvInt8_def s1(1) flag s2(1) r1(1) cong: if_cong)
qed

lemma hextile_rects_draw:
  assumes link: "link_ok st pf be" and reg: "room reg d" "uint (rg_width reg) \<le> 16" "uint (rg_height reg) \<le> 16"
    and goods: "\<forall>g \<in> set goods. good_in (es_be st) fb skip reg g \<and> (coloured \<or> snd g = fg)" "length goods < 256"
    and rest_bg: "\<And>q. q \<in> pixels reg \<Longrightarrow> q \<notin> (\<Union>g \<in> set goods. pixels (fst g)) \<Longrightarrow> image_at (es_be st) fb q = bg"
    and ok: "ok r"
    and s: "pending s = (if coloured then 26 else 14) # pixel_bytes st bg @ (if coloured then [] else pixel_bytes st fg) @
      of_nat (length goods) # hex_rects st coloured reg goods @ rest"
  shows "\<exists>hx' s' r'. hextile_updateRegionStreamColors be get rend (region_add reg d) hx s r = Inr (hx', s', r') \<and>
    pending s' = rest \<and> draws ok img W H (shift d (pixels reg)) (sent_picture st fb d) r r'"
proof -
  let ?flag = "if coloured then 26 else 14 :: u8"
  have flag: "?flag AND HEXTILE_RAW = 0" "?flag AND HEXTILE_BACKGROUND \<noteq> 0" "?flag AND HEXTILE_COLOURED \<noteq> 0 \<longleftrightarrow> coloured"
    by (simp_all add: hextile_flags)
  obtain s1 r1 where 1: "pending s1 = (if coloured then [] else pixel_bytes st fg) @
      of_nat (length goods) # hex_rects st coloured reg goods @ rest"
    and r1: "draws ok img W H (shift d (pixels reg)) (\<lambda>_. wire_pixel st bg) r r1"
    and step: "hextile_updateRegionStreamColors be get rend (region_add reg d) hx s r =
       rbind (if ?flag AND HEXTILE_FOREGROUND \<noteq> 0
              then rbind (recvPixel be get (dr_clientFormat rend r1) s1) (\<lambda>(p, s).
                Inr (?flag AND NOT HEXTILE_COLOURED, hx\<lparr>hx_bgColor := wire_pixel st bg, hx_fgColor := p\<rparr>, s))
              else Inr (?flag, hx\<lparr>hx_bgColor := wire_pixel st bg\<rparr>, s1)) (\<lambda>(flag, hx, s).
       if flag AND HEXTILE_SUBRECTS \<noteq> 0 then
         rbind (recvInt8 get s) (\<lambda>(subRects, s).
         rbind (hextile_subrects (unat subRects) be get rend flag (hx_fgColor hx) (region_add reg d) s r1) (\<lambda>(s, r).
         Inr (hx, s, r)))
       else Inr (hx, s, r1))"
    by (rule hextile_background [OF link reg(1) ok flag(1,2) s])
  obtain s2 hx2 where 2: "(if ?flag AND HEXTILE_FOREGROUND \<noteq> 0
              then rbind (recvPixel be get (dr_clientFormat rend r1) s1) (\<lambda>(p, s).
                Inr (?flag AND NOT HEXTILE_COLOURED, hx\<lparr>hx_bgColor := wire_pixel st bg, hx_fgColor := p\<rparr>, s))
              else Inr (?flag, hx\<lparr>hx_bgColor := wire_pixel st bg\<rparr>, s1)) = Inr (?flag, hx2, s2)"
    and s2: "pending s2 = [of_nat (length goods)] @ (hex_rects st coloured reg goods @ rest)"
    and hx2: "coloured \<or> hx_fgColor hx2 = wire_pixel st fg"
  proof (cases coloured)
    case True
    show thesis by (rule that [of "hx\<lparr>hx_bgColor := wire_pixel st bg\<rparr>" s1]) (use True 1 in \<open>simp_all add: hextile_flags\<close>)
  next
    case False
    with 1 have "pending s1 = pixel_bytes st fg @ of_nat (length goods) # hex_rects st coloured reg goods @ rest" by simp
    then obtain s2 where "recvPixel be get (dr_clientFormat rend r1) s1 = Inr (wire_pixel st fg, s2)"
      "pending s2 = of_nat (length goods) # hex_rects st coloured reg goods @ rest"
      by (rule link_pixel [OF link draws_ok [OF r1]])
    with False show thesis
      by (intro that [of "hx\<lparr>hx_bgColor := wire_pixel st bg, hx_fgColor := wire_pixel st fg\<rparr>" s2])
        (simp_all add: hextile_flags)
  qed
  obtain s3 where s3: "getInt8 get s2 = Inr (of_nat (length goods), s3)" "pending s3 = hex_rects st coloured reg goods @ rest"
    by (rule readsE [OF reads_int8 s2])
  have n: "unat (of_nat (length goods) :: u8) = length goods"
    using goods(2) by (simp only: unsigned_of_nat) (simp add: take_bit_nat_eq_self)
  have "\<forall>g \<in> set goods. good_in (es_be st) fb skip reg g \<and> (coloured \<or> wire_pixel st (snd g) = hx_fgColor hx2)"
    using goods(1) hx2 by auto
  then obtain s' r' where r': "hextile_subrects (length goods) be get rend ?flag (hx_fgColor hx2) (region_add reg d) s3 r1 = Inr (s', r')"
    "pending s' = rest" "draws ok img W H (shift d (\<Union>g \<in> set goods. pixels (fst g))) (sent_picture st fb d) r1 r'"
    using hextile_subrects_draw [OF link reg flag(3) _ draws_ok [OF r1] s3(2)] by blast
  have "draws ok img W H (shift d (pixels reg) \<union> shift d (\<Union>g \<in> set goods. pixels (fst g))) (sent_picture st fb d) r r'"
    by (rule draws_trans [OF r1 r'(3)]) (auto simp: sent_picture_def in_shift rest_bg)
  moreover have "shift d (pixels reg) \<union> shift d (\<Union>g \<in> set goods. pixels (fst g)) = shift d (pixels reg)"
    using goods(1) by (fastforce simp: in_shift good_in_def simp del: in_pixels)
  moreover have "?flag AND HEXTILE_SUBRECTS \<noteq> 0" by (simp add: hextile_flags)
  ultimately show ?thesis
    unfolding step 2 using s3(1) r'(1,2) by (simp add: recvInt8_def n)
qed

end

lemma marks_less:
  assumes "skip \<in> image_at be fb ` pixels reg"
  shows "card (marks be fb skip reg) < area reg"
  unfolding area_def using assms by (intro psubset_card_mono finite_pixels) (auto simp: marks_def simp del: in_pixels)

lemma hextile_sendRegion_bytes:
  assumes fb: "fb_wf fb" "small_tile reg fb" and ord: "perm_order (es_order st)" and link: "link_ok st pf be"
  obtains (solid) bg where "hextile_sendRegion st d reg fb = Inr (region_add reg d, HEXTILE_BACKGROUND # pixel_bytes st bg)"
      and "\<And>q. q \<in> pixels reg \<Longrightarrow> image_at (es_be st) fb q = bg"
  | (raw) "hextile_sendRegion st d reg fb =
      Inr (region_add reg d, HEXTILE_RAW # concat (map (raw_bytes st) (region_image (es_be st) fb reg)))"
  | (rects) goods bg fg skip coloured where "hextile_sendRegion st d reg fb = Inr (region_add reg d,
      (if coloured then 26 else 14) # pixel_bytes st bg @ (if coloured then [] else pixel_bytes st fg) @
      of_nat (length goods) # hex_rects st coloured reg goods)"
      and "\<forall>g \<in> set goods. good_in (es_be st) fb skip reg g \<and> (coloured \<or> snd g = fg)" and "length goods < 256"
      and "\<And>q. q \<in> pixels reg \<Longrightarrow> q \<notin> (\<Union>g \<in> set goods. pixels (fst g)) \<Longrightarrow> image_at (es_be st) fb q = bg"
proof -
  have tile: "tile_ok reg fb" using fb(2) by (simp add: small_tile_def)
  then have ins: "inside reg fb" "\<not> region_isEmpty reg" by (simp_all add: tile_ok_def)
  have px: "sendPixel st p = Inr (pixel_bytes st p)" for p
    using link sendPixel_Inr by (auto simp: link_ok_def)
  have rl: "raw_link st pf be" using link by (auto simp: link_ok_def raw_link_def pixels_agree_def)
  obtain m where m: "pixelMapWeight (es_order st) (es_be st) (es_par st) fb reg = Inr m" "m \<noteq> []"
    "length m = card (image_at (es_be st) fb ` pixels reg)" "maxWeightPixel m \<in> image_at (es_be st) fb ` pixels reg"
    using tile_weights [OF fb(1) tile ord] by metis
  show thesis
  proof (cases "length m = 1")
    case True
    note c = corner_pixel [OF fb(1) ins]
    show thesis
    proof (rule solid)
      show "hextile_sendRegion st d reg fb = Inr (region_add reg d,
          HEXTILE_BACKGROUND # pixel_bytes st (image_at (es_be st) fb (sint (rg_x reg), sint (rg_y reg))))"
        using True by (simp add: hextile_sendRegion_def m(1,2) c(1) px)
      show "image_at (es_be st) fb q = image_at (es_be st) fb (sint (rg_x reg), sint (rg_y reg))" if "q \<in> pixels reg" for q
        using one_image [OF _ c(2) that] True m(3) by simp
    qed
  next
    case False
    let ?bg = "maxWeightPixel m"
    obtain goods where g: "rreProcessing (es_be st) reg fb ?bg = Inr goods" "rre_inv (es_be st) fb ?bg reg goods []"
      using rreProcessing_inv [OF fb(1) ins] by blast
    have out: "image_at (es_be st) fb q = ?bg" if "q \<in> pixels reg" "q \<notin> (\<Union>g \<in> set goods. pixels (fst g))" for q
      using g(2) that by (auto simp: rre_inv_def marks_def simp del: in_pixels)
    have "image_at (es_be st) fb ` pixels reg \<noteq> {?bg}" using False m(3) by auto
    moreover have "image_at (es_be st) fb ` pixels reg = {?bg}" if "goods = []"
    proof -
      have "\<And>q. q \<in> pixels reg \<Longrightarrow> image_at (es_be st) fb q = ?bg" using out by (simp add: that del: in_pixels)
      then have "image_at (es_be st) fb ` pixels reg \<subseteq> {?bg}" by (simp add: image_subset_iff del: in_pixels)
      with m(4) show ?thesis by blast
    qed
    ultimately have ne: "goods \<noteq> []" by blast
    have "area reg \<le> 16 * 16" unfolding area_sides
      using fb(2) uint_nat [of "rg_width reg"] uint_nat [of "rg_height reg"] unfolding small_tile_def
      by (intro mult_le_mono) linarith+
    then have len: "length goods < 256" using goods_count [OF g(2)] marks_less [OF m(4)] by simp
    define fg where "fg = snd (hd goods)"
    define coloured where "coloured \<longleftrightarrow> \<not> list_all (\<lambda>(r, p). p = fg) goods"
    have good: "\<forall>g \<in> set goods. good_in (es_be st) fb ?bg reg g \<and> (coloured \<or> snd g = fg)"
      using g(2) by (auto simp: rre_inv_def coloured_def list_all_iff)
    have cc: "concatM (\<lambda>(r, p). rbind (sendPixel st p) (\<lambda>px. Inr (px @ hextile_rect reg r))) goods =
        Inr (concat (map (\<lambda>(r, p). pixel_bytes st p @ hextile_rect reg r) goods))"
      by (rule concatM_Inr) (auto simp: px)
    have "hextile_sendRegionColored st reg ?bg goods = Inr (26 # pixel_bytes st ?bg @ of_nat (length goods) # hex_rects st True reg goods)"
      "hextile_sendRegionForeground st reg ?bg goods =
        Inr (14 # pixel_bytes st ?bg @ pixel_bytes st fg @ of_nat (length goods) # hex_rects st False reg goods)"
      "hextile_sendRegionRaw st reg fb = Inr (HEXTILE_RAW # concat (map (raw_bytes st) (region_image (es_be st) fb reg)))"
      using cc ne sendRawRegionPixels_bytes [OF fb(1) ins(1) rl]
      by (simp_all add: hextile_sendRegionColored_def hextile_sendRegionForeground_def hextile_sendRegionRaw_def px
          hex_rects_def hextile_flags fg_def)
    then have "hextile_sendRegion st d reg fb =
        Inr (region_add reg d, HEXTILE_RAW # concat (map (raw_bytes st) (region_image (es_be st) fb reg)))
      \<or> hextile_sendRegion st d reg fb = Inr (region_add reg d,
      (if coloured then 26 else 14) # pixel_bytes st ?bg @ (if coloured then [] else pixel_bytes st fg) @
      of_nat (length goods) # hex_rects st coloured reg goods)"
      using False ne coloured_def unfolding fg_def
      by (cases coloured) (auto simp: hextile_sendRegion_def m(1,2) g(1) Let_def split: if_splits)
    then show thesis using raw rects [OF _ good len out] by (elim disjE)
  qed
qed

context decoder_link
begin

lemma hextile_tile_draw:
  assumes fb: "fb_wf fb" "small_tile reg fb" and ord: "perm_order (es_order st)" and link: "link_ok st pf be"
    and reg: "room reg d" and sf: "sf = pf"
  obtains bs where "hextile_sendRegion st d reg fb = Inr (region_add reg d, bs)"
    and "\<And>s rest hx r. pending s = bs @ rest \<Longrightarrow> ok r \<Longrightarrow>
      \<exists>hx' s' r'. hextile_updateRegionStream be get rend (region_add reg d) hx s r = Inr (hx', s', r') \<and> pending s' = rest \<and>
        draws ok img W H (shift d (pixels reg)) (sent_picture st fb d) r r'"
proof -
  note m = moved_fields [OF reg]
  have wh: "uint (rg_width reg) \<le> 16" "uint (rg_height reg) \<le> 16" and ins: "inside reg fb"
    using fb(2) by (simp_all add: small_tile_def tile_ok_def)
  then have "\<not> (16 < rg_width (region_add reg d) \<or> 16 < rg_height (region_add reg d))"
    by (simp add: m word_less_def)
  then have colors: "hextile_updateRegionStream be get rend (region_add reg d) = hextile_updateRegionStreamColors be get rend (region_add reg d)"
    by (simp add: hextile_updateRegionStream_def fun_eq_iff)
  have rl: "raw_link st pf be" using link by (auto simp: link_ok_def raw_link_def pixels_agree_def)
  show thesis
  proof (cases rule: hextile_sendRegion_bytes [OF fb ord link, of d, case_names solid raw rects])
    case (solid bg)
    show thesis
    proof (rule that [OF solid(1)], unfold colors)
      fix s rest hx r assume s: "pending s = (HEXTILE_BACKGROUND # pixel_bytes st bg) @ rest" and ok: "ok r"
      from s have s': "pending s = HEXTILE_BACKGROUND # pixel_bytes st bg @ rest" by simp
      obtain s1 r1 where 1: "pending s1 = rest" "draws ok img W H (shift d (pixels reg)) (\<lambda>_. wire_pixel st bg) r r1"
        "hextile_updateRegionStreamColors be get rend (region_add reg d) hx s r =
          Inr (hx\<lparr>hx_bgColor := wire_pixel st bg\<rparr>, s1, r1)"
        by (rule hextile_background [OF link reg ok _ _ s', where hx = hx]) (simp_all add: hextile_flags, simp add: hextile_defs)
      have "draws ok img W H (shift d (pixels reg)) (sent_picture st fb d) r r1"
        by (rule draws_cong [OF 1(2) refl]) (simp add: sent_picture_def in_shift solid(2) del: in_pixels)
      with 1 show "\<exists>hx' s' r'. hextile_updateRegionStreamColors be get rend (region_add reg d) hx s r = Inr (hx', s', r') \<and>
        pending s' = rest \<and> draws ok img W H (shift d (pixels reg)) (sent_picture st fb d) r r'" by blast
    qed
  next
    case raw
    let ?buf = "concat (map (raw_bytes st) (region_image (es_be st) fb reg))"
    show thesis
    proof (rule that [OF raw], unfold colors)
      fix s rest hx r assume s: "pending s = (HEXTILE_RAW # ?buf) @ rest" and ok: "ok r"
      then have "pending s = [HEXTILE_RAW] @ (?buf @ rest)" by simp
      then obtain s1 where s1: "getInt8 get s = Inr (HEXTILE_RAW, s1)" "pending s1 = ?buf @ rest"
        by (rule readsE [OF reads_int8])
      have "unat (region_pitch (region_add reg d) pf) * unat (rg_height (region_add reg d)) = length ?buf"
        using pitch_size [of pf reg] rl
        by (simp add: length_concat comp_def raw_bytes_def raw_link_def sum_list_triv length_region_image
            region_pitch_def m)
      then obtain s2 where s2: "recvData get (unat (region_pitch (region_add reg d) pf) * unat (rg_height (region_add reg d))) s1 = Inr (?buf, s2)"
        "pending s2 = rest" using readsE [OF reads_recvData s1(2)] by metis
      obtain r' where "dr_updateRawPixels rend (region_add reg d) ?buf (region_pitch (region_add reg d) pf) pf r = Inr r'"
        "draws ok img W H (shift d (pixels reg)) (sent_picture st fb d) r r'"
        using raw_draw [OF rl ins reg ok] by blast
      with s1(1) s2 show "\<exists>hx' s' r'. hextile_updateRegionStreamColors be get rend (region_add reg d) hx s r = Inr (hx', s', r') \<and>
        pending s' = rest \<and> draws ok img W H (shift d (pixels reg)) (sent_picture st fb d) r r'"
        by (simp add: hextile_updateRegionStreamColors_def recvInt8_def hextile_flags render_client [OF ok]
            render_server [OF ok] sf)
    qed
  next
    case (rects goods bg fg skip coloured)
    show thesis
    proof (rule that [OF rects(1)], unfold colors)
      fix s rest hx r assume s: "pending s = ((if coloured then 26 else 14) # pixel_bytes st bg @
        (if coloured then [] else pixel_bytes st fg) @ of_nat (length goods) # hex_rects st coloured reg goods) @ rest" and ok: "ok r"
      then have s': "pending s = (if coloured then 26 else 14) # pixel_bytes st bg @
        (if coloured then [] else pixel_bytes st fg) @ of_nat (length goods) # hex_rects st coloured reg goods @ rest" by simp
      show "\<exists>hx' s' r'. hextile_updateRegionStreamColors be get rend (region_add reg d) hx s r = Inr (hx', s', r') \<and>
        pending s' = rest \<and> draws ok img W H (shift d (pixels reg)) (sent_picture st fb d) r r'"
        by (rule hextile_rects_draw [OF link reg wh rects(2,3) rects(4) ok s'])
    qed
  qed
qed

end

text \<open>
  C8. HexTile end to end: every tile \<open>sendRegion\<close> sends, solid, raw, of rectangles of one or of many
  colours, \<open>updateRegionStream\<close> reads to its last byte, whatever colours earlier tiles left behind,
  and draws as the tile of the server, when the client keeps the server's format.
\<close>

theorem hextile_roundtrip:
  assumes "fb_wf fb" and "small_tile reg fb" and "room reg d" and "perm_order (es_order st)" and "link_ok st pf be"
    and "vi_ok pf pf W H v"
  shows "\<exists>bs. hextile_sendRegion st d reg fb = Inr (region_add reg d, bs) \<and>
    (\<forall>s rest hx. ref_pending s = bs @ rest \<longrightarrow>
      (\<exists>hx' s' v'. hextile_updateRegionStream be ref_getRaw (vi_render be par) (region_add reg d) hx s v = Inr (hx', s', v') \<and>
        ref_pending s' = rest \<and>
        draws (vi_ok pf pf W H) (vi_image be) W H (shift d (pixels reg)) (sent_picture st fb d) v v'))"
proof -
  obtain bs where "hextile_sendRegion st d reg fb = Inr (region_add reg d, bs)"
    "\<And>s rest hx r. ref_pending s = bs @ rest \<Longrightarrow> vi_ok pf pf W H r \<Longrightarrow>
      \<exists>hx' s' v'. hextile_updateRegionStream be ref_getRaw (vi_render be par) (region_add reg d) hx s r = Inr (hx', s', v') \<and>
        ref_pending s' = rest \<and>
        draws (vi_ok pf pf W H) (vi_image be) W H (shift d (pixels reg)) (sent_picture st fb d) r v'"
    by (rule link.hextile_tile_draw [OF assms(1,2,4,5,3) refl, where par = par and W = W and H = H]) (rule that)
  with assms(6) show ?thesis by blast
qed

lemma sample_hextile:
  "vi_ok BGRX32 BGRX32 16 16 (sample_client BGRX32)" "link_ok (sample_stream BGRX32) BGRX32 False"
  "small_tile (Region 1 2 6 5) (frameBuffer_new (Size 8 8) BGRX32 0)"
  using sample_link(5)
  by (simp_all add: vi_ok_def sample_client_def frameBuffer_new_wf at_origin_def region_of_def link_ok_def
      pixels_agree_def sample_stream_def formats fmt_ok_def small_tile_def)

theorem hextile_roundtrip_witness:
  "\<exists>bs hx' s' v'. hextile_sendRegion (sample_stream BGRX32) (Point 3 4) (Region 1 2 6 5) (frameBuffer_new (Size 8 8) BGRX32 0) =
      Inr (region_add (Region 1 2 6 5) (Point 3 4), bs) \<and>
    hextile_updateRegionStream False ref_getRaw (vi_render False True) (region_add (Region 1 2 6 5) (Point 3 4)) hextile_init
      (streamBufRef (Some bs) (length bs)) (sample_client BGRX32) = Inr (hx', s', v') \<and> ref_pending s' = []"
proof -
  obtain bs where bs: "hextile_sendRegion (sample_stream BGRX32) (Point 3 4) (Region 1 2 6 5) (frameBuffer_new (Size 8 8) BGRX32 0) =
      Inr (region_add (Region 1 2 6 5) (Point 3 4), bs)"
    "\<And>s rest. ref_pending s = bs @ rest \<Longrightarrow>
      \<exists>hx' s' v'. hextile_updateRegionStream False ref_getRaw (vi_render False True) (region_add (Region 1 2 6 5) (Point 3 4))
        hextile_init s (sample_client BGRX32) = Inr (hx', s', v') \<and> ref_pending s' = rest"
    using hextile_roundtrip [OF sample_link(4) sample_hextile(3) sample_link(6,3) sample_hextile(2,1), of True] by blast
  from bs(2) [of "streamBufRef (Some bs) (length bs)" "[]"] bs(1) show ?thesis by auto
qed

end
