(* ===== verification/Tile_Cells.thy ===== *)
theory Tile_Cells
  imports Codec_Link
begin

text \<open>
  Drawing a tile pixel by pixel: the cells a \<open>PointIterator\<close> visits, a run of one colour, the loop
  over runs, and the pixels that compact pixels make of the server's picture.
\<close>

section \<open>The cells of a tile\<close>

definition pos :: "region \<Rightarrow> point \<Rightarrow> int \<times> int" where
  "pos R c = (sint (rg_x R) + sint (pt_x c), sint (rg_y R) + sint (pt_y c))"

definition canvas :: "nat \<Rightarrow> nat \<Rightarrow> region \<Rightarrow> bool" where
  "canvas W H R \<longleftrightarrow> 0 \<le> sint (rg_x R) \<and> 0 \<le> sint (rg_y R) \<and>
     sint (rg_x R) + uint (rg_width R) \<le> min (int W) 32767 \<and> sint (rg_y R) + uint (rg_height R) \<le> min (int H) 32767"

lemma canvas_fits: "canvas W H R \<Longrightarrow> size_fits (toSize R)"
  by (auto simp: canvas_def size_fits_def toSize_def)

lemma row_major_coords:
  "row_major (toSize reg) = map (\<lambda>(px, py). Point (of_nat px) (of_nat py)) (loop_coords reg)"
proof -
  have up: "map f [0..uint (n :: u16) - 1] = map (\<lambda>k. f (int k)) [0..<unat n]" for f :: "int \<Rightarrow> 'b" and n
  proof -
    have "map int [0..<unat n] = [0..uint n - 1]"
      by (rule nth_equalityI) (auto simp: int_less_uint)
    then have "map f [0..uint n - 1] = map f (map int [0..<unat n])" by (simp only:)
    then show ?thesis by (simp add: comp_def)
  qed
  show ?thesis
    unfolding row_major_def loop_coords_def
    by (simp add: toSize_def up map_concat comp_def narrow16_def)
qed

lemma pos_cells:
  assumes "canvas W H R"
  shows "pos R ` set (row_major (toSize R)) = pixels R"
proof -
  note rm = set_row_major [OF canvas_fits [OF assms]]
  have "q \<in> pos R ` set (row_major (toSize R))" if "q \<in> pixels R" for q
  proof -
    obtain a b where q: "q = (a, b)" by (cases q)
    let ?c = "Point (narrow16 (a - sint (rg_x R))) (narrow16 (b - sint (rg_y R)))"
    have "sint (narrow16 (a - sint (rg_x R))) = a - sint (rg_x R)" "sint (narrow16 (b - sint (rg_y R))) = b - sint (rg_y R)"
      using that assms by (auto simp: q canvas_def)
    then have "?c \<in> set (row_major (toSize R))" "pos R ?c = q"
      using that unfolding rm by (auto simp: pos_def q toSize_def)
    then show ?thesis by force
  qed
  moreover have "pos R c \<in> pixels R" if "c \<in> set (row_major (toSize R))" for c
    using that unfolding rm by (auto simp: pos_def toSize_def)
  ultimately show ?thesis by auto
qed

section \<open>Iterators\<close>

lemma coordList_Cons:
  assumes "coordList i = c # cs"
  shows "it_isValid i" "it_point i = c" "it_inc i = Inr (it_next i)" "coordList (it_next i) = cs"
proof -
  show v: "it_isValid i" using assms by (subst (asm) coordList.simps) (auto split: if_splits)
  with assms show "it_point i = c" "coordList (it_next i) = cs" by (subst (asm) coordList.simps, simp)+
  from v show "it_inc i = Inr (it_next i)" by (simp add: it_next_def it_inc_def Let_def)
qed

lemma coordList_Nil: "coordList i = [] \<longleftrightarrow> \<not> it_isValid i"
  by (subst coordList.simps) simp

context decoder_link
begin

lemma set_pixel_draw:
  assumes "canvas W H R" and "c \<in> set (row_major (toSize R))" and "ok r"
  shows "\<exists>r'. dr_setPixel rend (point_add (topLeft R) c) v r = Inr r' \<and>
    draws ok img W H {pos R c} (\<lambda>_. take_bit (unat (bitsPixel pf)) v) r r'"
proof -
  let ?p = "point_add (topLeft R) c"
  have c: "0 \<le> sint (pt_x c)" "sint (pt_x c) < uint (rg_width R)" "0 \<le> sint (pt_y c)" "sint (pt_y c) < uint (rg_height R)"
    using assms(2) set_row_major [OF canvas_fits [OF assms(1)]] by (simp_all add: toSize_def)
  then have p: "sint (pt_x ?p) = sint (rg_x R) + sint (pt_x c)" "sint (pt_y ?p) = sint (rg_y R) + sint (pt_y c)"
    using assms(1) by (simp_all add: point_add_def topLeft_def canvas_def)
  then have "0 \<le> sint (pt_x ?p)" "sint (pt_x ?p) < int W" "0 \<le> sint (pt_y ?p)" "sint (pt_y ?p) < int H"
    using c assms(1) by (auto simp: canvas_def)
  from render_set [OF assms(3) this] show ?thesis by (simp add: p pos_def)
qed

lemma set_run_draw:
  assumes R: "canvas W H R" and v: "take_bit (unat (bitsPixel pf)) v = v"
  shows "coordList coord = cs \<Longrightarrow> set cs \<subseteq> set (row_major (toSize R)) \<Longrightarrow> n \<le> length cs \<Longrightarrow> ok r \<Longrightarrow>
    \<forall>c \<in> set (take n cs). g (pos R c) = v \<Longrightarrow>
    \<exists>coord' r'. set_run rend R v n coord r = Inr (coord', r') \<and> coordList coord' = drop n cs \<and>
      draws ok img W H (pos R ` set (take n cs)) g r r'"
proof (induction n arbitrary: coord cs r)
  case 0
  then show ?case by (simp add: draws_none)
next
  case (Suc n)
  then obtain c cs' where cs: "cs = c # cs'" by (cases cs) auto
  note step = coordList_Cons [OF Suc.prems(1) [unfolded cs]]
  obtain r1 where r1: "dr_setPixel rend (point_add (topLeft R) c) v r = Inr r1" "draws ok img W H {pos R c} (\<lambda>_. v) r r1"
    using set_pixel_draw [OF R, of c r v] Suc.prems(2,4) by (auto simp: cs v)
  have "\<exists>coord' r'. set_run rend R v n (it_next coord) r1 = Inr (coord', r') \<and> coordList coord' = drop n cs' \<and>
      draws ok img W H (pos R ` set (take n cs')) g r1 r'"
    using Suc.prems(2,3,5) by (intro Suc.IH [OF step(4) _ _ draws_ok [OF r1(2)]]) (auto simp: cs)
  then obtain coord' r' where r': "set_run rend R v n (it_next coord) r1 = Inr (coord', r')" "coordList coord' = drop n cs'"
    "draws ok img W H (pos R ` set (take n cs')) g r1 r'" by blast
  have "it_isValid (it_next coord) \<or> n = 0" using coordList_Nil [of "it_next coord"] step(4) Suc.prems(3) by (auto simp: cs)
  moreover have "draws ok img W H ({pos R c} \<union> pos R ` set (take n cs')) g r r'"
    by (rule draws_trans [OF r1(2) r'(3)]) (use Suc.prems(5) in \<open>auto simp: cs\<close>)
  ultimately show ?case using r1(1) r'(1,2) step(2,3) by (auto simp: cs)
qed

lemma run_loop_draw:
  assumes step: "\<And>p n cs coord s rest r. (p, n) \<in> set rle0 \<Longrightarrow> coordList coord = cs \<Longrightarrow>
      set cs \<subseteq> set (row_major (toSize R)) \<Longrightarrow> unat n \<le> length cs \<Longrightarrow> ok r \<Longrightarrow>
      \<forall>c \<in> set (take (unat n) cs). g (pos R c) = val p \<Longrightarrow> pending s = enc p n @ rest \<Longrightarrow>
      \<exists>coord' s' r'. step coord s r = Inr (coord', s', r') \<and> coordList coord' = drop (unat n) cs \<and> pending s' = rest \<and>
        draws ok img W H (pos R ` set (take (unat n) cs)) g r r'"
    and runs: "\<forall>x \<in> set rle0. snd x \<noteq> 0"
  shows "set rle \<subseteq> set rle0 \<Longrightarrow> coordList coord = cs \<Longrightarrow> set cs \<subseteq> set (row_major (toSize R)) \<Longrightarrow>
    list_all2 (\<lambda>c p. g (pos R c) = val p) cs (expand rle) \<Longrightarrow> ok r \<Longrightarrow>
    pending s = concat (map (\<lambda>(p, n). enc p n) rle) @ rest \<Longrightarrow>
    \<exists>s' r'. run_loop step coord s r = Some (Inr (s', r')) \<and> pending s' = rest \<and> draws ok img W H (pos R ` set cs) g r r'"
proof (induction rle arbitrary: coord cs s r)
  case Nil
  then have "cs = []" by (simp add: expand_def)
  moreover have "\<not> it_isValid coord" using Nil.prems(2) calculation coordList_Nil by blast
  ultimately show ?case using Nil.prems by (subst run_loop.simps) (simp add: draws_none)
next
  case (Cons x rle)
  obtain p n where x: "x = (p, n)" by (cases x)
  have ex: "expand (x # rle) = replicate (unat n) p @ expand rle" by (simp add: expand_def x)
  have len: "unat n \<le> length cs" using Cons.prems(4) by (simp add: ex list_all2_lengthD)
  have all: "list_all2 (\<lambda>c p. g (pos R c) = val p) (take (unat n) cs @ drop (unat n) cs) (replicate (unat n) p @ expand rle)"
    using Cons.prems(4) by (simp add: ex)
  then have parts: "list_all2 (\<lambda>c p. g (pos R c) = val p) (take (unat n) cs) (replicate (unat n) p)"
    "list_all2 (\<lambda>c p. g (pos R c) = val p) (drop (unat n) cs) (expand rle)"
    using len by (subst (asm) list_all2_append; simp)+
  have vals: "\<forall>c \<in> set (take (unat n) cs). g (pos R c) = val p"
    using parts(1) by (auto simp: list_all2_conv_all_nth in_set_conv_nth)
  have sub: "set (drop (unat n) cs) \<subseteq> set (row_major (toSize R))"
    using Cons.prems(3) set_drop_subset [of "unat n" cs] by blast
  have pen: "pending s = enc p n @ (concat (map (\<lambda>(p, n). enc p n) rle) @ rest)" using Cons.prems(6) by (simp add: x)
  obtain coord1 s1 r1 where 1: "step coord s r = Inr (coord1, s1, r1)" "coordList coord1 = drop (unat n) cs"
    "pending s1 = concat (map (\<lambda>(p, n). enc p n) rle) @ rest"
    "draws ok img W H (pos R ` set (take (unat n) cs)) g r r1"
    using step [OF _ Cons.prems(2,3) len Cons.prems(5) vals pen] Cons.prems(1) by (auto simp: x)
  obtain s' r' where 2: "run_loop step coord1 s1 r1 = Some (Inr (s', r'))" "pending s' = rest"
    "draws ok img W H (pos R ` set (drop (unat n) cs)) g r1 r'"
    using Cons.IH [OF _ 1(2) sub parts(2) draws_ok [OF 1(4)] 1(3)] Cons.prems(1) by auto
  have "n \<noteq> 0" using runs Cons.prems(1) by (auto simp: x)
  then have "cs \<noteq> []" using len by (auto simp: unat_eq_0)
  then have "it_isValid coord" using Cons.prems(2) coordList_Nil by blast
  moreover have "pos R ` set (take (unat n) cs) \<union> pos R ` set (drop (unat n) cs) = pos R ` set cs"
    by (metis append_take_drop_id image_Un set_append)
  moreover have "draws ok img W H (pos R ` set (take (unat n) cs) \<union> pos R ` set (drop (unat n) cs)) g r r'"
    by (rule draws_trans [OF 1(4) 2(3)]) simp_all
  ultimately show ?case using 1(1) 2 by (subst run_loop.simps) simp
qed

end

section \<open>Compact pixels on the two sides\<close>

definition clink_ok :: "encoderstream \<Rightarrow> pixelformat \<Rightarrow> bool \<Rightarrow> bool" where
  "clink_ok st pf be \<longleftrightarrow> cpixels_agree st be \<and> clientFormat st = pf \<and> fmt_ok pf"

definition sent_cpicture :: "encoderstream \<Rightarrow> framebuffer \<Rightarrow> point \<Rightarrow> int \<times> int \<Rightarrow> u32" where
  "sent_cpicture st fb d = (\<lambda>q. wire_cpixel st (image_at (es_be st) fb (unshift d q)))"

lemma wire_ctrunc: "clink_ok st pf be \<Longrightarrow> take_bit (unat (bitsPixel pf)) (wire_cpixel st p) = wire_cpixel st p"
proof -
  assume a: "clink_ok st pf be"
  show ?thesis
  proof (cases "bitsPixel pf = 32")
    case False
    then have "wire_cpixel st p = wire_pixel st p" using a by (simp add: clink_ok_def wire_cpixel_def)
    with a show ?thesis by (auto simp: clink_ok_def fmt_ok_def wire_pixel_def)
  qed simp
qed

lemma cell_picture:
  assumes "room reg d" and "(px, py) \<in> set (loop_coords reg)"
  shows "sent_cpicture st fb d (pos (region_add reg d) (Point (of_nat px) (of_nat py))) =
    wire_cpixel st (fb_image (es_be st) fb (nat (sint (rg_x reg)) + px) (nat (sint (rg_y reg)) + py))"
proof -
  note m = moved_fields [OF assms(1)]
  have org: "0 \<le> sint (rg_x reg)" "0 \<le> sint (rg_y reg)" using assms(1) by (simp_all add: room_def)
  have "int px < uint (rg_width reg)" "int py < uint (rg_height reg)"
    using assms(2) by (simp_all add: set_loop_coords int_less_uint)
  moreover have "uint (rg_width reg) \<le> 32767" "uint (rg_height reg) \<le> 32767"
    using assms(1) unfolding room_def by linarith+
  ultimately have "sint (of_nat px :: u16) = int px" "sint (of_nat py :: u16) = int py"
    using sint_narrow16 [of "int px"] sint_narrow16 [of "int py"] by (simp_all add: narrow16_def)
  then show ?thesis
    using org by (simp add: sent_cpicture_def pos_def m unshift_def image_at_def algebra_simps nat_add_distrib)
qed

lemma loop_coords_moved: "room reg d \<Longrightarrow> loop_coords (region_add reg d) = loop_coords reg"
  by (simp add: loop_coords_def moved_fields)

lemma region_cells:
  assumes "room reg d"
  shows "list_all2 (\<lambda>c p. sent_cpicture st fb d (pos (region_add reg d) c) = wire_cpixel st p)
    (row_major (toSize (region_add reg d))) (region_image (es_be st) fb reg)"
  unfolding row_major_coords loop_coords_moved [OF assms] region_image_def
  by (auto simp: list_all2_map1 list_all2_map2 list_all2_same cell_picture [OF assms])

context decoder_link
begin

lemma link_cpixel:
  assumes "clink_ok st pf be" and "ok r" and "pending s = cpixel_bytes st p @ rest"
  obtains s' where "recvCPixel be get (dr_clientFormat rend r) s = Inr (wire_cpixel st p, s')" and "pending s' = rest"
  using assms reads_cpixel [of st be p] readsE by (metis clink_ok_def render_client)

lemma foldM_reads_draws:
  assumes "\<And>x s r rest. x \<in> set xs0 \<Longrightarrow> ok r \<Longrightarrow> pending s = enc x @ rest \<Longrightarrow>
      \<exists>s' r'. f x (s, r) = Inr (s', r') \<and> pending s' = rest \<and> draws ok img W H (S x) g r r'"
  shows "set xs \<subseteq> set xs0 \<Longrightarrow> ok r \<Longrightarrow> pending s = concat (map enc xs) @ rest \<Longrightarrow>
    \<exists>s' r'. foldM f xs (s, r) = Inr (s', r') \<and> pending s' = rest \<and> draws ok img W H (\<Union>x \<in> set xs. S x) g r r'"
proof (induction xs arbitrary: s r)
  case Nil
  then show ?case by (simp add: draws_none)
next
  case (Cons x xs)
  have "pending s = enc x @ (concat (map enc xs) @ rest)" using Cons.prems(3) by simp
  then obtain s1 r1 where 1: "f x (s, r) = Inr (s1, r1)" "pending s1 = concat (map enc xs) @ rest"
    "draws ok img W H (S x) g r r1"
    using assms Cons.prems(1,2) by (metis list.set_intros(1) subsetD)
  obtain s' r' where 2: "foldM f xs (s1, r1) = Inr (s', r')" "pending s' = rest"
    "draws ok img W H (\<Union>x \<in> set xs. S x) g r1 r'"
    using Cons.IH [OF _ draws_ok [OF 1(3)] 1(2)] Cons.prems(1) by auto
  from draws_trans [OF 1(3) 2(3), of g] 1(1) 2 show ?case by simp
qed

lemma plain_step_draw:
  assumes link: "clink_ok st pf be" and R: "canvas W H R" and n: "n \<noteq> 0"
    and cs: "coordList coord = cs" "set cs \<subseteq> set (row_major (toSize R))" "unat n \<le> length cs" and ok: "ok r"
    and g: "\<forall>c \<in> set (take (unat n) cs). g (pos R c) = wire_cpixel st p"
    and s: "pending s = (cpixel_bytes st p @ run_length_bytes n) @ rest"
  shows "\<exists>coord' s' r'. plain_step be get rend R coord s r = Inr (coord', s', r') \<and> coordList coord' = drop (unat n) cs \<and>
    pending s' = rest \<and> draws ok img W H (pos R ` set (take (unat n) cs)) g r r'"
proof -
  have "pending s = cpixel_bytes st p @ (run_length_bytes n @ rest)" using s by simp
  then obtain s1 where s1: "recvCPixel be get (dr_clientFormat rend r) s = Inr (wire_cpixel st p, s1)"
    "pending s1 = run_length_bytes n @ rest" by (rule link_cpixel [OF link ok])
  obtain s2 where s2: "recvRunLength get s1 = Inr (n, s2)" "pending s2 = rest"
    by (rule readsE [OF reads_run_length [OF n] s1(2)])
  from set_run_draw [OF R wire_ctrunc [OF link] cs ok g] s1(1) s2 show ?thesis
    by (auto simp: plain_step_def)
qed

end

end
