(* ===== verification/Trle_Codec.thy ===== *)
theory Trle_Codec
  imports Tile_Cells
begin

text \<open>
  TRLE and ZRLE from end to end: raw tiles, solid tiles, packed palettes and the two kinds of run
  lengths that \<open>EncodingTRLE::sendRegion\<close> chooses from.
\<close>

section \<open>Palettes\<close>

definition palette_ok :: "pixelmap \<Rightarrow> u32 set \<Rightarrow> bool" where
  "palette_ok pal P \<longleftrightarrow> (\<forall>p \<in> P. unat (findColorIndex pal p) < length pal \<and> fst (pal ! unat (findColorIndex pal p)) = p)"

definition palette_bytes :: "encoderstream \<Rightarrow> pixelmap \<Rightarrow> bytes" where
  "palette_bytes st pal = concat (map (\<lambda>(p, i). cpixel_bytes st p) pal)"

definition palette_values :: "encoderstream \<Rightarrow> pixelmap \<Rightarrow> u32 list" where
  "palette_values st pal = map (\<lambda>(p, i). wire_cpixel st p) pal"

definition index_run :: "pixelmap \<Rightarrow> u32 \<Rightarrow> u32 \<Rightarrow> bytes" where
  "index_run pal p n = (let index = findColorIndex pal p
     in if n = 1 then [ucast index] else ucast (index + 128) # run_length_bytes n)"

lemma palette_value:
  "palette_ok pal P \<Longrightarrow> p \<in> P \<Longrightarrow> unat (findColorIndex pal p) < length (palette_values st pal) \<and>
   palette_values st pal ! unat (findColorIndex pal p) = wire_cpixel st p"
  by (auto simp: palette_ok_def palette_values_def case_prod_beta')

lemma trle_pal_bytes: "clink_ok st pf be \<Longrightarrow> trle_pal st pal = Inr (palette_bytes st pal)"
  unfolding trle_pal_def palette_bytes_def
  by (rule concatM_Inr) (auto simp: sendCPixel_Inr [of st be] clink_ok_def cpixels_agree_def)

lemma small_index:
  fixes w :: u32 assumes "unat w < 128"
  shows "(ucast w :: u8) < 128" "unat (ucast w :: u8) = unat w"
    "\<not> (ucast (w + 128) :: u8) < 128" "unat ((ucast (w + 128) :: u8) - 128) = unat w"
proof -
  have u: "unat (ucast w :: u8) = unat w" using assms by (subst unsigned_ucast_eq) (simp add: take_bit_nat_eq_self)
  have "unat (w + 128) = unat w + 128" using assms by (simp add: unat_word_ariths)
  then have v: "unat (ucast (w + 128) :: u8) = unat w + 128"
    using assms by (subst unsigned_ucast_eq) (simp add: take_bit_nat_eq_self)
  show "(ucast w :: u8) < 128" "unat (ucast w :: u8) = unat w" using u assms by (simp_all add: word_less_nat_alt)
  show "\<not> (ucast (w + 128) :: u8) < 128" using v by (simp add: word_less_nat_alt)
  then have "unat ((ucast (w + 128) :: u8) - 128) = unat (ucast (w + 128) :: u8) - unat (128 :: u8)"
    by (intro unat_sub) (simp add: not_less)
  with v show "unat ((ucast (w + 128) :: u8) - 128) = unat w" by simp
qed

context decoder_link
begin

lemma reads_palette:
  assumes "cpixels_agree st be"
  shows "reads pending (recv_palette (length pal) be get (clientFormat st)) (palette_bytes st pal) (palette_values st pal)"
proof (induction pal)
  case Nil
  then show ?case using reads_return by (simp add: palette_bytes_def palette_values_def)
next
  case (Cons x pal)
  have eq: "recv_palette (length (x # pal)) be get (clientFormat st) =
      (\<lambda>s. rbind (recvCPixel be get (clientFormat st) s) (\<lambda>(p, s).
        rbind (recv_palette (length pal) be get (clientFormat st) s) (\<lambda>(ps, s). Inr (p # ps, s))))"
    by (simp add: fun_eq_iff)
  have "reads pending (recv_palette (length (x # pal)) be get (clientFormat st))
      (cpixel_bytes st (fst x) @ palette_bytes st pal @ []) (wire_cpixel st (fst x) # palette_values st pal)"
    unfolding eq by (rule reads_bind [OF reads_cpixel [OF assms]], rule reads_bind [OF Cons.IH], rule reads_return)
  moreover have "palette_bytes st (x # pal) = cpixel_bytes st (fst x) @ palette_bytes st pal @ []"
    "palette_values st (x # pal) = wire_cpixel st (fst x) # palette_values st pal"
    by (simp_all add: palette_bytes_def palette_values_def case_prod_beta')
  ultimately show ?case by (simp only:)
qed

lemma link_palette:
  assumes "clink_ok st pf be" and "ok r" and "pending s = palette_bytes st pal @ rest"
  obtains s' where "recv_palette (length pal) be get (dr_clientFormat rend r) s = Inr (palette_values st pal, s')" and "pending s' = rest"
  using assms reads_palette [of st pal] readsE by (metis clink_ok_def render_client)

lemma palette_step_draw:
  assumes link: "clink_ok st pf be" and R: "canvas W H R" and n: "n \<noteq> 0" and pal: "palette_ok pal P" "p \<in> P" "length pal < 128"
    and cs: "coordList coord = cs" "set cs \<subseteq> set (row_major (toSize R))" "unat n \<le> length cs" and ok: "ok r"
    and g: "\<forall>c \<in> set (take (unat n) cs). g (pos R c) = wire_cpixel st p"
    and s: "pending s = index_run pal p n @ rest"
  shows "\<exists>coord' s' r'. palette_step get rend R (palette_values st pal) coord s r = Inr (coord', s', r') \<and>
    coordList coord' = drop (unat n) cs \<and> pending s' = rest \<and> draws ok img W H (pos R ` set (take (unat n) cs)) g r r'"
proof -
  let ?i = "findColorIndex pal p"
  note val = palette_value [OF pal(1,2), of st]
  have "unat ?i < 128" using pal by (auto simp: palette_ok_def)
  note i = small_index [OF this]
  note v = wire_ctrunc [OF link]
  show ?thesis
  proof (cases "n = 1")
    case True
    then have "pending s = [ucast ?i] @ rest" using s by (simp add: index_run_def)
    then obtain s1 where s1: "getInt8 get s = Inr (ucast ?i, s1)" "pending s1 = rest"
      by (rule readsE [OF reads_int8])
    have "cs \<noteq> []" using cs(3) True by auto
    then obtain c cs' where cs': "cs = c # cs'" by (cases cs) auto
    note step = coordList_Cons [OF cs(1) [unfolded cs']]
    obtain r1 where r1: "dr_setPixel rend (point_add (topLeft R) c) (wire_cpixel st p) r = Inr r1"
      "draws ok img W H {pos R c} (\<lambda>_. wire_cpixel st p) r r1"
      using set_pixel_draw [OF R, of c r "wire_cpixel st p"] cs(2) ok by (auto simp: cs' v)
    have "draws ok img W H {pos R c} g r r1" by (rule draws_cong [OF r1(2)]) (use g True in \<open>simp_all add: cs'\<close>)
    with s1 r1(1) val i(1,2) step True show ?thesis by (simp add: palette_step_def recvInt8_def cs')
  next
    case False
    then have "pending s = [ucast (?i + 128)] @ (run_length_bytes n @ rest)" using s by (simp add: index_run_def Let_def)
    then obtain s1 where s1: "getInt8 get s = Inr (ucast (?i + 128), s1)" "pending s1 = run_length_bytes n @ rest"
      by (rule readsE [OF reads_int8])
    obtain s2 where s2: "recvRunLength get s1 = Inr (n, s2)" "pending s2 = rest"
      by (rule readsE [OF reads_run_length [OF n] s1(2)])
    from set_run_draw [OF R v cs ok g] s1(1) s2 val i(3,4) show ?thesis
      by (auto simp: palette_step_def recvInt8_def Let_def)
  qed
qed

end

section \<open>Packed tiles\<close>

definition index_row :: "bool \<Rightarrow> framebuffer \<Rightarrow> region \<Rightarrow> pixelmap \<Rightarrow> nat \<Rightarrow> u32 list" where
  "index_row be fb reg pal py = map (\<lambda>px. findColorIndex pal
     (fb_image be fb (nat (sint (rg_x reg)) + px) (nat (sint (rg_y reg)) + py))) [0..<unat (rg_width reg)]"

lemma trle_packed_bytes:
  assumes "fb_wf fb" and "inside reg fb" and "clink_ok st pf be"
  obtains vs where "trle_sendRegionPacked st reg fb field pal = Inr (of_nat (length pal) # palette_bytes st pal @ concat vs)"
    and "list_all2 (\<lambda>v row. packs v (row_bits (field_bits field) row)) vs
      (map (index_row (es_be st) fb reg pal) [0..<unat (rg_height reg)])"
proof -
  let ?rows = "map (index_row (es_be st) fb reg pal) [0..<unat (rg_height reg)]"
  let ?f = "\<lambda>py sb. rbind (foldM (\<lambda>px sb.
             rbind (scan_pixel (es_be st) fb reg (px, py)) (\<lambda>pix.
             Inr (pushValue (findColorIndex pal pix) field sb))) [0..<unat (rg_width reg)] sb) (\<lambda>sb.
         Inr (pushAlign sb))"
  have row: "?f py sb = Inr (push_row field (index_row (es_be st) fb reg pal py) sb)"
    if "py \<in> set [0..<unat (rg_height reg)]" for py sb
  proof -
    have "foldM (\<lambda>px sb. rbind (scan_pixel (es_be st) fb reg (px, py)) (\<lambda>pix.
        Inr (pushValue (findColorIndex pal pix) field sb))) [0..<unat (rg_width reg)] sb =
      Inr (fold (\<lambda>px. pushValue (findColorIndex pal (fb_image (es_be st) fb (nat (sint (rg_x reg)) + px)
        (nat (sint (rg_y reg)) + py))) field) [0..<unat (rg_width reg)] sb)"
      by (rule foldM_Inr) (use that in \<open>simp add: scan_pixel_image [OF assms(1,2)] set_loop_coords\<close>)
    then show ?thesis by (simp add: push_row_def index_row_def fold_map comp_def)
  qed
  have "foldM ?f [0..<unat (rg_height reg)] streamBitsPack = Inr (fold (push_row field) ?rows streamBitsPack)"
    using foldM_Inr [of "[0..<unat (rg_height reg)]" ?f, OF row] by (simp add: fold_map comp_def)
  moreover obtain vs where "vecbuf (fold (push_row field) ?rows streamBitsPack) = concat vs"
    "list_all2 (\<lambda>v row. packs v (row_bits (field_bits field) row)) vs ?rows"
    using push_rows_packs [of streamBitsPack field ?rows] by (auto simp: streamBitsPack_def)
  ultimately show thesis
    by (intro that [of vs]) (simp_all add: trle_sendRegionPacked_def trle_pal_bytes [OF assms(3)])
qed

context decoder_link
begin

lemma packed_row_draw:
  assumes R: "canvas W H R" and oy: "oy < unat (rg_height R)"
    and pal: "\<forall>v \<in> set palette. take_bit (unat (bitsPixel pf)) v = v"
  shows "holds sb (row_bits n row) \<Longrightarrow> \<forall>v \<in> set row. unat v < 2 ^ n \<and> unat v < length palette \<Longrightarrow>
    length row \<le> unat (rg_width R) \<Longrightarrow>
    \<forall>k < length row. g (pos R (Point (of_nat k) (of_nat oy))) = palette ! unat (row ! k) \<Longrightarrow> ok r \<Longrightarrow>
    \<exists>sb' r'. foldM (\<lambda>ox (sb, r).
       rbind (popValue n sb) (\<lambda>(index, sb).
       if index \<ge> length palette then Inl RfbError
       else rbind (dr_setPixel rend (point_add (topLeft R) (Point (of_nat ox) (of_nat oy))) (palette ! index) r) (\<lambda>r.
            Inr (sb, r)))) (rev [0..<length row]) (sb, r) = Inr (sb', r') \<and>
      draws ok img W H ((\<lambda>k. pos R (Point (of_nat k) (of_nat oy))) ` {..<length row}) g r r'"
proof (induction row arbitrary: sb r rule: rev_induct)
  case Nil
  then show ?case by (simp add: draws_none)
next
  case (snoc v row)
  let ?c = "\<lambda>k. Point (of_nat k) (of_nat oy) :: point"
  have v: "unat v < 2 ^ n" "unat v < length palette" using snoc.prems(2) by simp_all
  have "holds sb (row_bits n row @ value_bits n (unat v))" using snoc.prems(1) by (simp add: row_bits_def)
  then obtain sb1 where sb1: "popValue n sb = Inr (unat v, sb1)" "holds sb1 (row_bits n row)"
    using popValue_holds v(1) by blast
  have "(length row, oy) \<in> set (loop_coords R)" using snoc.prems(3) oy by (simp add: set_loop_coords)
  then have "?c (length row) \<in> set (row_major (toSize R))" unfolding row_major_coords by force
  then obtain r1 where r1: "dr_setPixel rend (point_add (topLeft R) (?c (length row))) (palette ! unat v) r = Inr r1"
    "draws ok img W H {pos R (?c (length row))} (\<lambda>_. palette ! unat v) r r1"
    using set_pixel_draw [OF R _ snoc.prems(5), of "?c (length row)" "palette ! unat v"] pal v(2) by auto
  have "\<forall>k < length row. g (pos R (?c k)) = palette ! unat (row ! k)"
    using snoc.prems(4) by (auto simp: nth_append less_Suc_eq)
  with snoc.IH [OF sb1(2) _ _ _ draws_ok [OF r1(2)]] snoc.prems(2,3) obtain sb' r' where
    r': "foldM (\<lambda>ox (sb, r).
       rbind (popValue n sb) (\<lambda>(index, sb).
       if index \<ge> length palette then Inl RfbError
       else rbind (dr_setPixel rend (point_add (topLeft R) (Point (of_nat ox) (of_nat oy))) (palette ! index) r) (\<lambda>r.
            Inr (sb, r)))) (rev [0..<length row]) (sb1, r1) = Inr (sb', r')"
    "draws ok img W H ((\<lambda>k. pos R (?c k)) ` {..<length row}) g r1 r'" by auto
  have "draws ok img W H ({pos R (?c (length row))} \<union> (\<lambda>k. pos R (?c k)) ` {..<length row}) g r r'"
    by (rule draws_trans [OF r1(2) r'(2)]) (use snoc.prems(4) in \<open>auto simp: nth_append\<close>)
  moreover have "{pos R (?c (length row))} \<union> (\<lambda>k. pos R (?c k)) ` {..<length row} = (\<lambda>k. pos R (?c k)) ` {..<Suc (length row)}"
    by (simp add: lessThan_Suc)
  ultimately show ?case using r'(1) sb1(1) r1(1) v(2) by simp
qed

end

context decoder_link
begin

lemma trle_packed_draw:
  assumes link: "clink_ok st pf be" and reg: "room reg d" "canvas W H (region_add reg d)"
    and pal: "palette_ok pal (set (region_image (es_be st) fb reg))" "length pal \<le> 16"
    and field: "field = (if 4 < length pal then Val4 else if 2 < length pal then Val2 else Val1)"
    and vs: "list_all2 (\<lambda>v row. packs v (row_bits (field_bits field) row)) vs
      (map (index_row (es_be st) fb reg pal) [0..<unat (rg_height reg)])"
    and ok: "ok r" and s: "pending s = (palette_bytes st pal @ concat vs) @ rest"
  shows "\<exists>s' r'. trle_packed be get rend (region_add reg d) (length pal) s r = Inr (s', r') \<and> pending s' = rest \<and>
    draws ok img W H (shift d (pixels reg)) (sent_cpicture st fb d) r r'"
proof -
  let ?R = "region_add reg d" and ?w = "unat (rg_width reg)" and ?h = "unat (rg_height reg)"
  let ?n = "field_bits field" and ?palette = "palette_values st pal" and ?row = "index_row (es_be st) fb reg pal"
  note m = moved_fields [OF reg(1)]
  have n: "(if 4 < length pal then 4 else if 2 < length pal then 2 else 1) = ?n" "length pal \<le> 2 ^ ?n"
    using pal(2) by (auto simp: field field_bits_def)
  have palv: "\<forall>v \<in> set ?palette. take_bit (unat (bitsPixel pf)) v = v"
    by (auto simp: palette_values_def wire_ctrunc [OF link])
  have vals: "unat v < length pal" if "v \<in> set (?row oy)" "oy < ?h" for v oy
  proof -
    from that(1) obtain px where px: "px < ?w" "v = findColorIndex pal (fb_image (es_be st) fb (nat (sint (rg_x reg)) + px) (nat (sint (rg_y reg)) + oy))"
      by (auto simp: index_row_def)
    then have "fb_image (es_be st) fb (nat (sint (rg_x reg)) + px) (nat (sint (rg_y reg)) + oy) \<in> set (region_image (es_be st) fb reg)"
      using that(2) by (force simp: region_image_def set_loop_coords)
    with pal(1) px(2) show ?thesis by (auto simp: palette_ok_def)
  qed
  have cell: "sent_cpicture st fb d (pos ?R (Point (of_nat k) (of_nat oy))) = ?palette ! unat (?row oy ! k)"
    if "k < ?w" "oy < ?h" for k oy
  proof -
    have "(k, oy) \<in> set (loop_coords reg)" using that by (simp add: set_loop_coords)
    moreover from this have "fb_image (es_be st) fb (nat (sint (rg_x reg)) + k) (nat (sint (rg_y reg)) + oy) \<in> set (region_image (es_be st) fb reg)"
      by (force simp: region_image_def)
    ultimately show ?thesis
      using palette_value [OF pal(1), of _ st] that by (simp add: cell_picture [OF reg(1)] index_row_def)
  qed
  define S where "S = (\<lambda>oy. (\<lambda>k. pos ?R (Point (of_nat k) (of_nat oy))) ` {..<?w})"
  have len: "length vs = ?h" using vs by (simp add: list_all2_lengthD)
  then have cv: "concat vs = concat (map (\<lambda>oy. vs ! oy) [0..<?h])" by (metis map_nth)
  have pen: "pending s = palette_bytes st pal @ (concat (map (\<lambda>oy. vs ! oy) [0..<?h]) @ rest)" using s cv by simp
  obtain s1 where s1: "recv_palette (length pal) be get (dr_clientFormat rend r) s = Inr (?palette, s1)"
    "pending s1 = concat (map (\<lambda>oy. vs ! oy) [0..<?h]) @ rest" by (rule link_palette [OF link ok pen])
  define rowsz where "rowsz = (let b = ?n * ?w; z = b div 8 in if z * 8 < b then z + 1 else z)"
  have rowsz: "rowsz = (?n * ?w + 7) div 8" unfolding rowsz_def Let_def by presburger
  let ?f = "\<lambda>oy (s, r). rbind (recvData get rowsz s) (\<lambda>(row, s).
           rbind (streamBitsUnpack row ?w ?n) (\<lambda>sb.
           rbind (trle_packed_row rend ?R ?palette ?n oy sb r) (\<lambda>(sb, r). Inr (s, r))))"
  have row: "\<exists>s' r'. ?f oy (s, r) = Inr (s', r') \<and> pending s' = rest \<and> draws ok img W H (S oy) (sent_cpicture st fb d) r r'"
    if oy: "oy \<in> set [0..<?h]" and ok: "ok r" and s: "pending s = vs ! oy @ rest" for oy s r rest
  proof -
    have p: "packs (vs ! oy) (row_bits ?n (?row oy))" using list_all2_nthD [OF vs, of oy] oy len by simp
    have lr: "length (?row oy) = ?w" by (simp add: index_row_def)
    then have "length (vs ! oy) = rowsz" using p by (simp add: packs_def rowsz)
    then obtain s1 where s1: "recvData get rowsz s = Inr (vs ! oy, s1)" "pending s1 = rest"
      using readsE [OF reads_recvData s] by metis
    obtain sb where sb: "streamBitsUnpack (vs ! oy) ?w ?n = Inr sb" "holds sb (row_bits ?n (?row oy))"
      using unpack_holds [OF p, of ?n ?w] lr by auto
    have "\<forall>v \<in> set (?row oy). unat v < 2 ^ ?n \<and> unat v < length ?palette"
      using vals oy n(2) by (force simp: palette_values_def)
    from packed_row_draw [OF reg(2) _ palv sb(2) this _ _ ok, of oy "sent_cpicture st fb d"] oy cell lr
    obtain sb' r' where "trle_packed_row rend ?R ?palette ?n oy sb r = Inr (sb', r')"
      "draws ok img W H (S oy) (sent_cpicture st fb d) r r'"
      by (auto simp: m trle_packed_row_def S_def)
    with s1 sb(1) show ?thesis by simp
  qed
  obtain s' r' where 2: "foldM ?f [0..<?h] (s1, r) = Inr (s', r')" "pending s' = rest"
    "draws ok img W H (\<Union>oy \<in> set [0..<?h]. S oy) (sent_cpicture st fb d) r r'"
    using foldM_reads_draws [of "[0..<?h]" "\<lambda>oy. vs ! oy" ?f S, OF row subset_refl ok s1(2)] by blast
  have "(\<Union>oy \<in> set [0..<?h]. S oy) = pos ?R ` set (row_major (toSize ?R))"
  proof -
    have "set (loop_coords reg) = {..<?w} \<times> {..<?h}" by (auto simp: set_loop_coords)
    then show ?thesis
      unfolding row_major_coords loop_coords_moved [OF reg(1)] S_def by (force simp: image_image)
  qed
  then have "(\<Union>oy \<in> set [0..<?h]. S oy) = shift d (pixels reg)"
    by (simp only: pos_cells [OF reg(2)] moved_pixels [OF reg(1)])
  with 2 s1(1) show ?thesis
    unfolding trle_packed_def n Let_def m by (simp add: rowsz_def Let_def)
qed

end

section \<open>What the encoder sends\<close>

definition trle_tile :: "region \<Rightarrow> framebuffer \<Rightarrow> bool" where
  "trle_tile reg fb \<longleftrightarrow> tile_ok reg fb \<and> uint (rg_width reg) \<le> 64 \<and> uint (rg_height reg) \<le> 64"

lemma one_block:
  assumes "\<not> region_isEmpty reg" and "uint (rg_width reg) \<le> uint (sz_width sz)" and "uint (rg_height reg) \<le> uint (sz_height sz)"
    and "uint (rg_width reg) \<le> 32767" and "uint (rg_height reg) \<le> 32767"
  shows "divideBlocks reg sz = Some [reg]"
proof -
  have pos: "0 < uint (rg_width reg)" "0 < uint (rg_height reg)" using assms(1) by (auto simp: isEmpty_iff uint_pos_iff)
  have bw: "block_w reg sz = uint (rg_width reg)" "block_h reg sz = uint (rg_height reg)"
    using assms(2,3) by (simp_all add: block_w_def block_h_def)
  have "\<not> size_isEmpty sz" using pos assms(2,3) by (auto simp: size_isEmpty_def u16_eq_0_iff)
  then have "blocks_end reg sz" using assms by (simp add: blocks_end_def bw)
  moreover have "cuts (uint (rg_width reg)) (uint (rg_width reg)) 0 = [0]" "cuts (uint (rg_height reg)) (uint (rg_height reg)) 0 = [0]"
    using pos by (simp_all add: cuts.simps)
  then have "blocks reg sz = [reg]" by (simp add: blocks_def bw block_def)
  ultimately show ?thesis by (simp add: divideBlocks_blocks)
qed

lemma expand_set: "\<forall>r \<in> set rs. snd r \<noteq> 0 \<Longrightarrow> set (expand rs) = fst ` set rs"
  by (induction rs) (auto simp: expand_def unat_eq_0)

lemma fold_cost: "fold (\<lambda>(p, n) v. v + c + run_cost n) rs v = v + (\<Sum>(p, n) \<leftarrow> rs. c + run_cost n)"
  by (induction rs arbitrary: v) auto

lemma trle_sendRegion_bytes:
  assumes fb: "fb_wf fb" "trle_tile reg fb" and ord: "perm_order (es_order st)" and link: "clink_ok st pf be"
  obtains (solid) bg where "trle_sendRegion st d reg fb = Inr (region_add reg d, 1 # cpixel_bytes st bg)"
      and "\<And>q. q \<in> pixels reg \<Longrightarrow> image_at (es_be st) fb q = bg"
  | (packed) pal field vs where "trle_sendRegion st d reg fb =
      Inr (region_add reg d, of_nat (length pal) # palette_bytes st pal @ concat vs)"
      and "2 \<le> length pal" and "length pal \<le> 16" and "palette_ok pal (set (region_image (es_be st) fb reg))"
      and "field = (if 4 < length pal then Val4 else if 2 < length pal then Val2 else Val1)"
      and "list_all2 (\<lambda>v row. packs v (row_bits (field_bits field) row)) vs
        (map (index_row (es_be st) fb reg pal) [0..<unat (rg_height reg)])"
  | (plain) rle where "trle_sendRegion st d reg fb =
      Inr (region_add reg d, 128 # concat (map (\<lambda>(p, n). cpixel_bytes st p @ run_length_bytes n) rle))"
      and "expand rle = region_image (es_be st) fb reg" and "\<forall>x \<in> set rle. snd x \<noteq> 0"
  | (palette) pal rle where "trle_sendRegion st d reg fb = Inr (region_add reg d,
      of_nat (length pal + 128) # palette_bytes st pal @ concat (map (\<lambda>(p, n). index_run pal p n) rle))"
      and "17 \<le> length pal" and "length pal < 128" and "palette_ok pal (set (region_image (es_be st) fb reg))"
      and "expand rle = region_image (es_be st) fb reg" and "\<forall>x \<in> set rle. snd x \<noteq> 0"
  | (raw) "trle_sendRegion st d reg fb =
      Inr (region_add reg d, 0 # concat (map (cpixel_bytes st) (region_image (es_be st) fb reg)))"
proof -
  let ?im = "region_image (es_be st) fb reg"
  have tile: "tile_ok reg fb" using fb(2) by (simp add: trle_tile_def)
  then have ins: "inside reg fb" "\<not> region_isEmpty reg" by (simp_all add: tile_ok_def)
  have px: "sendCPixel st p = Inr (cpixel_bytes st p)" for p
    using link sendCPixel_Inr [of st be] by (simp add: clink_ok_def cpixels_agree_def)
  obtain pal where pal: "pixelMapPalette (es_order st) (es_be st) (es_par st) fb reg = Inr pal"
    "length pal = card (set ?im)" "palette_ok pal (set ?im)"
    using pixelMapPalette_region [OF fb(1) ins(1) tile_scan_ends [OF tile] ord] unfolding palette_ok_def by blast
  obtain rle where rle: "toRLE (es_be st) (es_par st) fb reg = Inr rle" "expand rle = ?im" "\<forall>x \<in> set rle. snd x \<noteq> 0"
    using toRLE_runs [OF fb(1) ins(1) tile_scan_ends [OF tile]] by blast
  note set = region_image_pixels [OF ins(1), of "es_be st"]
  note c = corner_pixel [OF fb(1) ins]
  have "set ?im \<noteq> {}" using c(2) unfolding set by blast
  then have "card (set ?im) \<noteq> 0" by simp
  then consider "length pal = 1" | "2 \<le> length pal" "length pal \<le> 16" | "17 \<le> length pal" using pal(2) by linarith
  then show thesis
  proof cases
    case 1
    show thesis
    proof (rule solid)
      show "trle_sendRegion st d reg fb = Inr (region_add reg d, 1 # cpixel_bytes st (image_at (es_be st) fb (sint (rg_x reg), sint (rg_y reg))))"
        using 1 by (simp add: trle_sendRegion_def pal(1) c(1) px)
      show "image_at (es_be st) fb q = image_at (es_be st) fb (sint (rg_x reg), sint (rg_y reg))" if "q \<in> pixels reg" for q
        using one_image [OF _ c(2) that] 1 pal(2) set by simp
    qed
  next
    case 2
    let ?field = "if 4 < length pal then Val4 else if 2 < length pal then Val2 else Val1"
    obtain vs where vs: "trle_sendRegionPacked st reg fb ?field pal = Inr (of_nat (length pal) # palette_bytes st pal @ concat vs)"
      "list_all2 (\<lambda>v row. packs v (row_bits (field_bits ?field) row)) vs
        (map (index_row (es_be st) fb reg pal) [0..<unat (rg_height reg)])"
      by (rule trle_packed_bytes [OF fb(1) ins(1) link])
    have "trle_sendRegion st d reg fb = Inr (region_add reg d, of_nat (length pal) # palette_bytes st pal @ concat vs)"
      using 2 by (simp add: trle_sendRegion_def pal(1) vs(1) Let_def)
    then show thesis using 2 pal(3) vs(2) by (intro packed [OF _ _ _ _ refl]) simp_all
  next
    case 3
    have run: "sendRunLength n = Inr (run_length_bytes n)" if "(p, n) \<in> set rle" for p n
      using rle(3) that by (auto simp: sendRunLength_def)
    have plain': "trle_sendRegionPlain st rle = Inr (128 # concat (map (\<lambda>(p, n). cpixel_bytes st p @ run_length_bytes n) rle))"
      unfolding trle_sendRegionPlain_def
      by (subst concatM_Inr [where g = "\<lambda>(p, n). cpixel_bytes st p @ run_length_bytes n"]) (auto simp: px run)
    have palette': "trle_sendRegionPalette st pal rle = Inr (of_nat (length pal + 128) # palette_bytes st pal @
        concat (map (\<lambda>(p, n). index_run pal p n) rle))"
      unfolding trle_sendRegionPalette_def trle_pal_bytes [OF link]
      by (subst concatM_Inr [where g = "\<lambda>(p, n). index_run pal p n"]) (auto simp: run index_run_def Let_def)
    have raw': "trle_sendRegionRaw st reg fb = Inr (0 # concat (map (cpixel_bytes st) ?im))"
      unfolding trle_sendRegionRaw_def region_image_def
      by (subst concatM_Inr [where g = "\<lambda>c. cpixel_bytes st (fb_image (es_be st) fb (nat (sint (rg_x reg)) + fst c)
        (nat (sint (rg_y reg)) + snd c))"])
        (simp_all add: scan_pixel_image [OF fb(1) ins(1)] px comp_def case_prod_beta')
    have "unat (rg_width reg) * unat (rg_height reg) \<le> 64 * 64"
      using fb(2) uint_nat [of "rg_width reg"] uint_nat [of "rg_height reg"] unfolding trle_tile_def
      by (intro mult_le_mono) linarith+
    then have rawsz: "1 + 3 * unat (rg_width reg) * unat (rg_height reg) < 0xFFFF" by simp
    have "length pal \<le> length rle"
      using card_image_le [of "set rle" fst] card_length [of rle] pal(2) rle(2) expand_set [OF rle(3)] by simp
    with 3 rawsz have "trle_sendRegion st d reg fb = Inr (region_add reg d, 128 # concat (map (\<lambda>(p, n). cpixel_bytes st p @ run_length_bytes n) rle)) \<or>
       length pal < 128 \<and> trle_sendRegion st d reg fb = Inr (region_add reg d, of_nat (length pal + 128) # palette_bytes st pal @
        concat (map (\<lambda>(p, n). index_run pal p n) rle)) \<or>
       trle_sendRegion st d reg fb = Inr (region_add reg d, 0 # concat (map (cpixel_bytes st) ?im))"
      by (auto simp: trle_sendRegion_def pal(1) rle(1) plain' palette' raw' Let_def)
    then show thesis using plain [OF _ rle(2,3)] palette [OF _ 3 _ pal(3) rle(2,3)] raw by blast
  qed
qed

section \<open>A tile from end to end\<close>

lemma foldM_map: "foldM f (map h xs) s = foldM (\<lambda>x. f (h x)) xs s"
  by (induction xs arbitrary: s) (simp_all cong: rbind_cong)

context decoder_link
begin

lemma runs_draw:
  assumes R: "room reg d" "canvas W H (region_add reg d)" and ok: "ok r"
    and rle: "expand rle = region_image (es_be st) fb reg" "\<forall>x \<in> set rle. snd x \<noteq> 0"
    and s: "pending s = concat (map (\<lambda>(p, n). enc p n) rle) @ rest"
    and step: "\<And>p n cs coord s rest r. (p, n) \<in> set rle \<Longrightarrow> n \<noteq> 0 \<Longrightarrow> coordList coord = cs \<Longrightarrow>
      set cs \<subseteq> set (row_major (toSize (region_add reg d))) \<Longrightarrow> unat n \<le> length cs \<Longrightarrow> ok r \<Longrightarrow>
      \<forall>c \<in> set (take (unat n) cs). sent_cpicture st fb d (pos (region_add reg d) c) = wire_cpixel st p \<Longrightarrow>
      pending s = enc p n @ rest \<Longrightarrow>
      \<exists>coord' s' r'. step coord s r = Inr (coord', s', r') \<and> coordList coord' = drop (unat n) cs \<and> pending s' = rest \<and>
        draws ok img W H (pos (region_add reg d) ` set (take (unat n) cs)) (sent_cpicture st fb d) r r'"
  shows "\<exists>s' r'. loop_runs step (region_add reg d) s r = Inr (s', r') \<and> pending s' = rest \<and>
    draws ok img W H (shift d (pixels reg)) (sent_cpicture st fb d) r r'"
proof -
  let ?R = "region_add reg d"
  have cl: "coordList (pointIterator 0 0 (toSize ?R)) = row_major (toSize ?R)"
    by (rule coordList_row_major [OF canvas_fits [OF R(2)]])
  have step': "\<exists>coord' s' r'. step coord s r = Inr (coord', s', r') \<and> coordList coord' = drop (unat n) cs \<and> pending s' = rest \<and>
      draws ok img W H (pos ?R ` set (take (unat n) cs)) (sent_cpicture st fb d) r r'"
    if "(p, n) \<in> set rle" "coordList coord = cs" "set cs \<subseteq> set (row_major (toSize ?R))" "unat n \<le> length cs" "ok r"
      "\<forall>c \<in> set (take (unat n) cs). sent_cpicture st fb d (pos ?R c) = wire_cpixel st p" "pending s = enc p n @ rest"
    for p n cs coord s rest r
    using that rle(2) by (intro step) auto
  have cells: "list_all2 (\<lambda>c p. sent_cpicture st fb d (pos ?R c) = wire_cpixel st p) (row_major (toSize ?R)) (expand rle)"
    unfolding rle(1) by (rule region_cells [OF R(1)])
  have "\<exists>s' r'. run_loop step (pointIterator 0 0 (toSize ?R)) s r = Some (Inr (s', r')) \<and> pending s' = rest \<and>
    draws ok img W H (pos ?R ` set (row_major (toSize ?R))) (sent_cpicture st fb d) r r'"
    by (rule run_loop_draw [where enc = enc and val = "wire_cpixel st" and R = ?R and rle = rle,
        OF _ rle(2) subset_refl cl subset_refl cells ok s]) (rule step')
  then show ?thesis
    by (auto simp: loop_runs_def pos_cells [OF R(2)] moved_pixels [OF R(1)])
qed

lemma trle_raw_draw:
  assumes link: "clink_ok st pf be" and R: "room reg d" "canvas W H (region_add reg d)" and ok: "ok r"
    and s: "pending s = concat (map (cpixel_bytes st) (region_image (es_be st) fb reg)) @ rest"
  shows "\<exists>s' r'. trle_raw be get rend (region_add reg d) s r = Inr (s', r') \<and> pending s' = rest \<and>
    draws ok img W H (shift d (pixels reg)) (sent_cpicture st fb d) r r'"
proof -
  let ?R = "region_add reg d"
  let ?img = "\<lambda>(px, py). fb_image (es_be st) fb (nat (sint (rg_x reg)) + px) (nat (sint (rg_y reg)) + py)"
  let ?at = "\<lambda>(px, py). Point (of_nat px) (of_nat py) :: point"
  let ?f = "\<lambda>coord (s, r).
       rbind (recvCPixel be get (dr_clientFormat rend r) s) (\<lambda>(pixel, s).
       rbind (dr_setPixel rend (point_add (topLeft ?R) coord) pixel r) (\<lambda>r. Inr (s, r)))"
  have step: "\<exists>s' r'. ?f (?at c) (s, r) = Inr (s', r') \<and> pending s' = rest \<and>
      draws ok img W H {pos ?R (?at c)} (sent_cpicture st fb d) r r'"
    if c: "c \<in> set (loop_coords reg)" and ok: "ok r" and s: "pending s = cpixel_bytes st (?img c) @ rest" for c s r rest
  proof -
    have pic: "sent_cpicture st fb d (pos ?R (?at c)) = wire_cpixel st (?img c)"
      using cell_picture [OF R(1), of "fst c" "snd c" st fb] c by (simp add: case_prod_beta')
    obtain s1 where s1: "recvCPixel be get (dr_clientFormat rend r) s = Inr (wire_cpixel st (?img c), s1)" "pending s1 = rest"
      by (rule link_cpixel [OF link ok s])
    have "?at c \<in> set (row_major (toSize ?R))" using c unfolding row_major_coords loop_coords_moved [OF R(1)] by simp
    then obtain r1 where r1: "dr_setPixel rend (point_add (topLeft ?R) (?at c)) (wire_cpixel st (?img c)) r = Inr r1"
      "draws ok img W H {pos ?R (?at c)} (\<lambda>_. wire_cpixel st (?img c)) r r1"
      using set_pixel_draw [OF R(2) _ ok, of "?at c" "wire_cpixel st (?img c)"] by (auto simp: wire_ctrunc [OF link])
    have "draws ok img W H {pos ?R (?at c)} (sent_cpicture st fb d) r r1"
      by (rule draws_cong [OF r1(2) refl]) (simp add: pic)
    with s1 r1(1) show ?thesis by simp
  qed
  have "pending s = concat (map (\<lambda>c. cpixel_bytes st (?img c)) (loop_coords reg)) @ rest"
    using s by (simp add: region_image_def comp_def)
  then obtain s' r' where "foldM (\<lambda>c. ?f (?at c)) (loop_coords reg) (s, r) = Inr (s', r')" "pending s' = rest"
    "draws ok img W H (\<Union>c \<in> set (loop_coords reg). {pos ?R (?at c)}) (sent_cpicture st fb d) r r'"
    using foldM_reads_draws [of "loop_coords reg" "\<lambda>c. cpixel_bytes st (?img c)" "\<lambda>c. ?f (?at c)" "\<lambda>c. {pos ?R (?at c)}",
        OF step subset_refl ok] by blast
  moreover have "(\<Union>c \<in> set (loop_coords reg). {pos ?R (?at c)}) = shift d (pixels reg)"
  proof -
    have "(\<Union>c \<in> set (loop_coords reg). {pos ?R (?at c)}) = pos ?R ` set (row_major (toSize ?R))"
      unfolding row_major_coords loop_coords_moved [OF R(1)] by auto
    then show ?thesis by (simp only: pos_cells [OF R(2)] moved_pixels [OF R(1)])
  qed
  moreover have "foldM ?f (map ?at (loop_coords reg)) (s, r) = foldM (\<lambda>c. ?f (?at c)) (loop_coords reg) (s, r)" for s r
    by (rule foldM_map)
  ultimately show ?thesis
    unfolding trle_raw_def coordList_row_major [OF canvas_fits [OF R(2)]] row_major_coords loop_coords_moved [OF R(1)]
    by simp
qed

end

lemma type_byte:
  assumes "unat (t :: u8) = n"
  shows "t = 0 \<longleftrightarrow> n = 0" "t = 1 \<longleftrightarrow> n = 1" "t \<le> 16 \<longleftrightarrow> n \<le> 16" "t \<le> 127 \<longleftrightarrow> n \<le> 127" "t = 129 \<longleftrightarrow> n = 129"
    "t = 128 \<longleftrightarrow> n = 128"
  using assms by (simp_all add: word_le_nat_alt word_unat_eq_iff)

context decoder_link
begin

lemma trle_tile_draw:
  assumes fb: "fb_wf fb" "trle_tile reg fb" and ord: "perm_order (es_order st)" and link: "clink_ok st pf be"
    and R: "room reg d" "canvas W H (region_add reg d)"
  obtains bs where "trle_sendRegion st d reg fb = Inr (region_add reg d, bs)"
    and "\<And>s rest r. pending s = bs @ rest \<Longrightarrow> ok r \<Longrightarrow>
      \<exists>s' r'. trle_updateSubRegion be get rend (region_add reg d) s r = Inr (s', r') \<and> pending s' = rest \<and>
        draws ok img W H (shift d (pixels reg)) (sent_cpicture st fb d) r r'"
proof -
  have type: "\<exists>s1. recvInt8 get s = Inr (t, s1) \<and> pending s1 = bs" if "pending s = t # bs" for s t bs
    using readsE [OF reads_int8, of s t bs] that by (auto simp: recvInt8_def)
  show thesis
  proof (cases rule: trle_sendRegion_bytes [OF fb ord link, of d, case_names solid packed plain palette raw])
    case (solid bg)
    show thesis
    proof (rule that [OF solid(1)])
      fix s rest r assume "pending s = (1 # cpixel_bytes st bg) @ rest" and ok: "ok r"
      then obtain s1 where s1: "recvInt8 get s = Inr (1, s1)" "pending s1 = cpixel_bytes st bg @ rest"
        using type by (metis append_Cons)
      obtain s2 where s2: "recvCPixel be get (dr_clientFormat rend r) s1 = Inr (wire_cpixel st bg, s2)" "pending s2 = rest"
        by (rule link_cpixel [OF link ok s1(2)])
      obtain r1 where r1: "dr_fillPixel rend (region_add reg d) (wire_cpixel st bg) r = Inr r1"
        "draws ok img W H (shift d (pixels reg)) (\<lambda>_. wire_cpixel st bg) r r1"
        using render_fill [OF ok, of "region_add reg d" "wire_cpixel st bg"]
        by (auto simp: moved_pixels [OF R(1)] wire_ctrunc [OF link])
      have "draws ok img W H (shift d (pixels reg)) (sent_cpicture st fb d) r r1"
        by (rule draws_cong [OF r1(2) refl]) (simp add: sent_cpicture_def in_shift solid(2) del: in_pixels)
      with s1(1) s2 r1(1) show "\<exists>s' r'. trle_updateSubRegion be get rend (region_add reg d) s r = Inr (s', r') \<and> pending s' = rest \<and>
        draws ok img W H (shift d (pixels reg)) (sent_cpicture st fb d) r r'"
        by (simp add: trle_updateSubRegion_def)
    qed
  next
    case (packed pal field vs)
    have u: "unat (of_nat (length pal) :: u8) = length pal"
      using packed(3) by (simp only: unsigned_of_nat) (simp add: take_bit_nat_eq_self)
    have n: "(of_nat (length pal) :: u8) \<noteq> 0" "(of_nat (length pal) :: u8) \<noteq> 1" "2 \<le> (of_nat (length pal) :: u8)"
      "(of_nat (length pal) :: u8) \<le> 16"
      using u packed(2,3) unfolding word_le_nat_alt by auto
    show thesis
    proof (rule that [OF packed(1)])
      fix s rest r assume s: "pending s = (of_nat (length pal) # palette_bytes st pal @ concat vs) @ rest" and ok: "ok r"
      then obtain s1 where s1: "recvInt8 get s = Inr (of_nat (length pal), s1)"
        "pending s1 = (palette_bytes st pal @ concat vs) @ rest"
        using type by (metis append_Cons)
      from trle_packed_draw [OF link R packed(4,3,5,6) ok s1(2)]
      show "\<exists>s' r'. trle_updateSubRegion be get rend (region_add reg d) s r = Inr (s', r') \<and> pending s' = rest \<and>
        draws ok img W H (shift d (pixels reg)) (sent_cpicture st fb d) r r'"
        using s1(1) n u by (simp add: trle_updateSubRegion_def)
    qed
  next
    case (plain rle)
    show thesis
    proof (rule that [OF plain(1)])
      fix s rest r assume "pending s = (128 # concat (map (\<lambda>(p, n). cpixel_bytes st p @ run_length_bytes n) rle)) @ rest" and ok: "ok r"
      then obtain s1 where s1: "recvInt8 get s = Inr (128, s1)"
        "pending s1 = concat (map (\<lambda>(p, n). cpixel_bytes st p @ run_length_bytes n) rle) @ rest"
        using type by (metis append_Cons)
      have "\<exists>s' r'. loop_runs (plain_step be get rend (region_add reg d)) (region_add reg d) s1 r = Inr (s', r') \<and> pending s' = rest \<and>
          draws ok img W H (shift d (pixels reg)) (sent_cpicture st fb d) r r'"
        by (rule runs_draw [OF R ok plain(2,3) s1(2)]) (rule plain_step_draw [OF link R(2)])
      then show "\<exists>s' r'. trle_updateSubRegion be get rend (region_add reg d) s r = Inr (s', r') \<and> pending s' = rest \<and>
        draws ok img W H (shift d (pixels reg)) (sent_cpicture st fb d) r r'"
        using s1(1) by (simp add: trle_updateSubRegion_def)
    qed
  next
    case (palette pal rle)
    have u: "unat (of_nat (length pal + 128) :: u8) = length pal + 128"
      using palette(3) by (simp only: unsigned_of_nat) (simp add: take_bit_nat_eq_self)
    have n: "(of_nat (length pal + 128) :: u8) \<noteq> 0" "(of_nat (length pal + 128) :: u8) \<noteq> 1" "\<not> (of_nat (length pal + 128) :: u8) \<le> 16"
      "\<not> (of_nat (length pal + 128) :: u8) \<le> 127" "(of_nat (length pal + 128) :: u8) \<noteq> 129" "(of_nat (length pal + 128) :: u8) \<noteq> 128"
      using type_byte [OF u] palette(2) by auto
    show thesis
    proof (rule that [OF palette(1)])
      fix s rest r assume "pending s = (of_nat (length pal + 128) # palette_bytes st pal @
          concat (map (\<lambda>(p, n). index_run pal p n) rle)) @ rest" and ok: "ok r"
      then obtain s1 where s1: "recvInt8 get s = Inr (of_nat (length pal + 128), s1)"
        "pending s1 = palette_bytes st pal @ concat (map (\<lambda>(p, n). index_run pal p n) rle) @ rest"
        using type by (metis append_Cons append_assoc)
      obtain s2 where s2: "recv_palette (length pal) be get (dr_clientFormat rend r) s1 = Inr (palette_values st pal, s2)"
        "pending s2 = concat (map (\<lambda>(p, n). index_run pal p n) rle) @ rest"
        by (rule link_palette [OF link ok s1(2)])
      have img: "p \<in> set (region_image (es_be st) fb reg)" if "(p, n) \<in> set rle" for p n
        using expand_set [OF palette(6)] palette(5) that by force
      have "\<exists>s' r'. loop_runs (palette_step get rend (region_add reg d) (palette_values st pal)) (region_add reg d) s2 r =
          Inr (s', r') \<and> pending s' = rest \<and> draws ok img W H (shift d (pixels reg)) (sent_cpicture st fb d) r r'"
        by (rule runs_draw [OF R ok palette(5,6) s2(2)]) (rule palette_step_draw [OF link R(2) _ palette(4) img palette(3)])
      then show "\<exists>s' r'. trle_updateSubRegion be get rend (region_add reg d) s r = Inr (s', r') \<and> pending s' = rest \<and>
        draws ok img W H (shift d (pixels reg)) (sent_cpicture st fb d) r r'"
        using s1(1) s2(1) n u by (simp add: trle_updateSubRegion_def del: of_nat_add)
    qed
  next
    case raw
    show thesis
    proof (rule that [OF raw])
      fix s rest r assume "pending s = (0 # concat (map (cpixel_bytes st) (region_image (es_be st) fb reg))) @ rest" and ok: "ok r"
      then obtain s1 where s1: "recvInt8 get s = Inr (0, s1)"
        "pending s1 = concat (map (cpixel_bytes st) (region_image (es_be st) fb reg)) @ rest"
        using type by (metis append_Cons)
      from trle_raw_draw [OF link R ok s1(2)] s1(1)
      show "\<exists>s' r'. trle_updateSubRegion be get rend (region_add reg d) s r = Inr (s', r') \<and> pending s' = rest \<and>
        draws ok img W H (shift d (pixels reg)) (sent_cpicture st fb d) r r'"
        by (simp add: trle_updateSubRegion_def)
    qed
  qed
qed

end

lemma foldM_Nil_fun: "foldM f [] = Inr"
  by (simp add: fun_eq_iff)

lemma trle_stream:
  assumes "trle_tile reg fb" and "room reg d"
  shows "trle_updateRegionStream inflate be get rend False (region_add reg d) z s r =
      rbind (trle_updateSubRegion be get rend (region_add reg d) s r) (\<lambda>(s, r). Inr (z, s, r))"
    and "trle_updateRegionStream inflate be get rend True (region_add reg d) z s r =
      rbind (recvIntBE32 be get s) (\<lambda>(len, s). rbind (recvData get (unat len) s) (\<lambda>(zip, s).
      rbind (inflate z zip) (\<lambda>(buf, z).
      rbind (trle_updateSubRegion be bufferWrapper_recvRaw rend (region_add reg d) (streamBufRef (Some buf) (length buf)) r) (\<lambda>(w, r).
        Inr (z, s, r)))))"
proof -
  have "divideBlocks (region_add reg d) (Size 64 64) = Some [region_add reg d]"
    using assms by (intro one_block) (auto simp: trle_tile_def tile_ok_def isEmpty_iff moved_fields)
  then show "trle_updateRegionStream inflate be get rend False (region_add reg d) z s r =
      rbind (trle_updateSubRegion be get rend (region_add reg d) s r) (\<lambda>(s, r). Inr (z, s, r))"
    "trle_updateRegionStream inflate be get rend True (region_add reg d) z s r =
      rbind (recvIntBE32 be get s) (\<lambda>(len, s). rbind (recvData get (unat len) s) (\<lambda>(zip, s).
      rbind (inflate z zip) (\<lambda>(buf, z).
      rbind (trle_updateSubRegion be bufferWrapper_recvRaw rend (region_add reg d) (streamBufRef (Some buf) (length buf)) r) (\<lambda>(w, r).
        Inr (z, s, r)))))"
    by (simp_all add: trle_updateRegionStream_def foldM_Nil_fun)
qed

interpretation linkzip: decoder_link bufferWrapper_recvRaw ref_pending "vi_render be par" "vi_ok sf pf W H" "vi_image be" sf pf be W H
  for be par sf pf W H
proof -
  have "bufferWrapper_recvRaw = ref_readTo" by (simp add: fun_eq_iff bufferWrapper_recvRaw_def)
  then show "decoder_link bufferWrapper_recvRaw ref_pending (vi_render be par) (vi_ok sf pf W H) (vi_image be) sf pf be W H"
    using sbto.byte_source_axioms vi.decoder_render_axioms by (simp add: decoder_link_def)
qed

text \<open>
  C6. TRLE end to end: whichever of the five tile types \<open>sendRegion\<close> picks, raw, solid, packed
  palette, plain runs or palette runs, \<open>updateRegionStream\<close> reads its bytes to the last one and draws
  the tile of the server, every pixel through the three bytes of a compact pixel.
\<close>

theorem trle_roundtrip:
  assumes "fb_wf fb" and "trle_tile reg fb" and "room reg d" and "perm_order (es_order st)" and "clink_ok st pf be"
    and "vi_ok sf pf W H v" and "canvas W H (region_add reg d)"
  shows "\<exists>bs. trle_sendRegion st d reg fb = Inr (region_add reg d, bs) \<and>
    (\<forall>s rest. ref_pending s = bs @ rest \<longrightarrow>
      (\<exists>s' v'. trle_updateRegionStream inflate be ref_getRaw (vi_render be par) False (region_add reg d) z s v = Inr (z, s', v') \<and>
        ref_pending s' = rest \<and>
        draws (vi_ok sf pf W H) (vi_image be) W H (shift d (pixels reg)) (sent_cpicture st fb d) v v'))"
proof -
  obtain bs where bs: "trle_sendRegion st d reg fb = Inr (region_add reg d, bs)"
    "\<And>s rest r. ref_pending s = bs @ rest \<Longrightarrow> vi_ok sf pf W H r \<Longrightarrow>
      \<exists>s' r'. trle_updateSubRegion be ref_getRaw (vi_render be par) (region_add reg d) s r = Inr (s', r') \<and> ref_pending s' = rest \<and>
        draws (vi_ok sf pf W H) (vi_image be) W H (shift d (pixels reg)) (sent_cpicture st fb d) r r'"
    by (rule link.trle_tile_draw [OF assms(1,2,4,5,3,7), where par = par and sf = sf]) (rule that)
  have "\<exists>s' v'. trle_updateRegionStream inflate be ref_getRaw (vi_render be par) False (region_add reg d) z s v = Inr (z, s', v') \<and>
        ref_pending s' = rest \<and>
        draws (vi_ok sf pf W H) (vi_image be) W H (shift d (pixels reg)) (sent_cpicture st fb d) v v'"
    if "ref_pending s = bs @ rest" for s rest
    using bs(2) [OF that assms(6)] by (auto simp: trle_stream [OF assms(2,3)])
  with bs(1) show ?thesis by blast
qed

text \<open>
  C7. ZRLE end to end: with a deflate and an inflate stream that are in step, which deflating on the
  one side and inflating on the other keep, the client inflates the tile, reads it and draws it; the
  streams are in step for the next tile.
\<close>

theorem zrle_roundtrip:
  assumes "fb_wf fb" and "trle_tile reg fb" and "room reg d" and "perm_order (es_order st)" and "clink_ok st pf be"
    and "vi_ok sf pf W H v" and "canvas W H (region_add reg d)"
    and zip: "\<And>z w b zp z'. in_step z w \<Longrightarrow> deflate z b = Inr (zp, z') \<Longrightarrow> \<exists>w'. inflate w zp = Inr (b, w') \<and> in_step z' w'"
    and "in_step z w"
  shows "\<exists>bs. trle_sendRegion st d reg fb = Inr (region_add reg d, bs) \<and>
    (\<forall>zp z'. deflate z bs = Inr (zp, z') \<and> length zp < 2 ^ 32 \<longrightarrow>
    (\<forall>s rest. ref_pending s = be_bytes 4 (of_nat (length zp) :: u32) @ zp @ rest \<longrightarrow>
      (\<exists>w' s' v'. trle_updateRegionStream inflate be ref_getRaw (vi_render be par) True (region_add reg d) w s v = Inr (w', s', v') \<and>
        in_step z' w' \<and> ref_pending s' = rest \<and>
        draws (vi_ok sf pf W H) (vi_image be) W H (shift d (pixels reg)) (sent_cpicture st fb d) v v')))"
proof -
  obtain bs where bs: "trle_sendRegion st d reg fb = Inr (region_add reg d, bs)"
    "\<And>s rest r. ref_pending s = bs @ rest \<Longrightarrow> vi_ok sf pf W H r \<Longrightarrow>
      \<exists>s' r'. trle_updateSubRegion be bufferWrapper_recvRaw (vi_render be par) (region_add reg d) s r = Inr (s', r') \<and>
        ref_pending s' = rest \<and>
        draws (vi_ok sf pf W H) (vi_image be) W H (shift d (pixels reg)) (sent_cpicture st fb d) r r'"
    by (rule linkzip.trle_tile_draw [OF assms(1,2,4,5,3,7), where par = par and sf = sf]) (rule that)
  have "\<exists>w' s' v'. trle_updateRegionStream inflate be ref_getRaw (vi_render be par) True (region_add reg d) w s v = Inr (w', s', v') \<and>
        in_step z' w' \<and> ref_pending s' = rest \<and>
        draws (vi_ok sf pf W H) (vi_image be) W H (shift d (pixels reg)) (sent_cpicture st fb d) v v'"
    if d: "deflate z bs = Inr (zp, z')" "length zp < 2 ^ 32"
      and s: "ref_pending s = be_bytes 4 (of_nat (length zp) :: u32) @ zp @ rest" for zp z' s rest
  proof -
    have n: "unat (of_nat (length zp) :: u32) = length zp"
      using d(2) by (simp only: unsigned_of_nat) (simp add: take_bit_nat_eq_self)
    obtain s1 where s1: "getIntBE32 be ref_getRaw s = Inr (of_nat (length zp), s1)" "ref_pending s1 = zp @ rest"
      by (rule readsE [OF sbref.reads_BE(2) s])
    obtain s2 where s2: "recvData ref_getRaw (length zp) s1 = Inr (zp, s2)" "ref_pending s2 = rest"
      by (rule readsE [OF link.reads_recvData [OF refl] s1(2)])
    obtain w' where w': "inflate w zp = Inr (bs, w')" "in_step z' w'" using zip [OF assms(9) d(1)] by blast
    have "ref_pending (streamBufRef (Some bs) (length bs)) = bs @ []" by simp
    from bs(2) [OF this assms(6)] s1(1) s2 w' show ?thesis
      by (auto simp: trle_stream [OF assms(2,3)] recvIntBE32_def n)
  qed
  with bs(1) show ?thesis by blast
qed

lemma sample_trle:
  "vi_ok BGRX32 BGRX32 16 16 (sample_client BGRX32)" "clink_ok (sample_stream BGRX32) BGRX32 False"
  "trle_tile (Region 1 2 6 5) (frameBuffer_new (Size 8 8) BGRX32 0)"
  "canvas 16 16 (region_add (Region 1 2 6 5) (Point 3 4))"
  using sample_link(5)
  by (simp_all add: vi_ok_def sample_client_def frameBuffer_new_wf at_origin_def region_of_def clink_ok_def
      cpixels_agree_def pixels_agree_def sample_stream_def formats fmt_ok_def trle_tile_def canvas_def
      region_add_def topLeft_def toSize_def point_add_def leastSignificant_def)

theorem trle_roundtrip_witness:
  "\<exists>bs s' v'. trle_sendRegion (sample_stream BGRX32) (Point 3 4) (Region 1 2 6 5) (frameBuffer_new (Size 8 8) BGRX32 0) =
      Inr (region_add (Region 1 2 6 5) (Point 3 4), bs) \<and>
    trle_updateRegionStream (\<lambda>z b. Inr (b, z)) False ref_getRaw (vi_render False True) False
      (region_add (Region 1 2 6 5) (Point 3 4)) () (streamBufRef (Some bs) (length bs)) (sample_client BGRX32) =
      Inr ((), s', v') \<and> ref_pending s' = []"
proof -
  obtain bs where bs: "trle_sendRegion (sample_stream BGRX32) (Point 3 4) (Region 1 2 6 5) (frameBuffer_new (Size 8 8) BGRX32 0) =
      Inr (region_add (Region 1 2 6 5) (Point 3 4), bs)"
    "\<And>s rest. ref_pending s = bs @ rest \<Longrightarrow>
      \<exists>s' v'. trle_updateRegionStream (\<lambda>z b. Inr (b, z)) False ref_getRaw (vi_render False True) False
        (region_add (Region 1 2 6 5) (Point 3 4)) () s (sample_client BGRX32) = Inr ((), s', v') \<and> ref_pending s' = rest"
    using trle_roundtrip [OF sample_link(4) sample_trle(3) sample_link(6,3) sample_trle(2,1,4),
        of "\<lambda>z b. Inr (b, z)" True "()"] by blast
  from bs(2) [of "streamBufRef (Some bs) (length bs)" "[]"] bs(1) show ?thesis by auto
qed

theorem zrle_roundtrip_witness:
  "\<exists>s' v'. trle_sendRegion (sample_stream BGRX32) (Point 3 4) (Region 1 2 2 1) (frameBuffer_new (Size 4 4) BGRX32 0) =
      Inr (region_add (Region 1 2 2 1) (Point 3 4), [1, 0, 0, 0]) \<and>
    trle_updateRegionStream (\<lambda>w b. Inr (rev (butlast b), w + 1)) False ref_getRaw (vi_render False True) True
      (region_add (Region 1 2 2 1) (Point 3 4)) (0 :: nat)
      (streamBufRef (Some [0, 0, 0, 5, 0, 0, 0, 1, 7]) 9) (sample_client BGRX32) = Inr (1, s', v') \<and> ref_pending s' = []"
proof -
  let ?deflate = "\<lambda>(z :: nat) (b :: bytes). Inr (rev b @ [7], z + 1) :: (bytes \<times> nat) res"
  let ?inflate = "\<lambda>(w :: nat) (b :: bytes). Inr (rev (butlast b), w + 1) :: (bytes \<times> nat) res"
  have zip: "\<exists>w'. ?inflate w zp = Inr (b, w') \<and> z' = w'" if "z = w" "?deflate z b = Inr (zp, z')" for z w b zp z'
    using that by auto
  have t: "trle_tile (Region 1 2 2 1) (frameBuffer_new (Size 4 4) BGRX32 0)" "room (Region 1 2 2 1) (Point 3 4)"
    "canvas 16 16 (region_add (Region 1 2 2 1) (Point 3 4))" "fb_wf (frameBuffer_new (Size 4 4) BGRX32 0)"
    by (simp_all add: trle_tile_def tile_ok_def inside_def isEmpty_iff room_def canvas_def
      region_add_def region_of_def topLeft_def toSize_def point_add_def narrow16_def frameBuffer_new_wf formats fmt_ok_def)
  have bs: "trle_sendRegion (sample_stream BGRX32) (Point 3 4) (Region 1 2 2 1) (frameBuffer_new (Size 4 4) BGRX32 0) =
      Inr (region_add (Region 1 2 2 1) (Point 3 4), [1, 0, 0, 0])"
    by code_simp
  let ?s = "streamBufRef (Some [0, 0, 0, 5, 0, 0, 0, 1, 7]) 9"
  have "ref_pending ?s = be_bytes 4 (of_nat (length [0, 0, 0, 1, 7 :: u8]) :: u32) @ [0, 0, 0, 1, 7] @ []"
    by code_simp
  with zrle_roundtrip [OF t(4,1,2) sample_link(3) sample_trle(2,1) t(3), of "(=)" ?deflate ?inflate 0 0 True, OF zip refl]
  show ?thesis unfolding bs by force
qed

end
