(* ===== verification/Exc_State.thy ===== *)
theory Exc_State
  imports Byte_Streams
begin

text \<open>
  State and exceptions together: a method of an object that may throw returns its result or the
  exception with the state of the object at that point. An exception does not undo what the method
  has sent, logged or assigned before.
\<close>

type_synonym ('s, 'a) exc = "'s \<Rightarrow> 'a res \<times> 's"

definition ereturn :: "'a \<Rightarrow> ('s, 'a) exc" where
  "ereturn a s = (Inr a, s)"

definition ethrow :: "error \<Rightarrow> ('s, 'a) exc" where
  "ethrow e s = (Inl e, s)"

definition ebind :: "('s, 'a) exc \<Rightarrow> ('a \<Rightarrow> ('s, 'b) exc) \<Rightarrow> ('s, 'b) exc" where
  "ebind m f s = (case m s of (Inl e, s) \<Rightarrow> (Inl e, s) | (Inr a, s) \<Rightarrow> f a s)"

abbreviation eseq :: "('s, 'a) exc \<Rightarrow> ('s, 'b) exc \<Rightarrow> ('s, 'b) exc" where
  "eseq m n \<equiv> ebind m (\<lambda>_. n)"

definition egets :: "('s \<Rightarrow> 'a) \<Rightarrow> ('s, 'a) exc" where
  "egets f s = (Inr (f s), s)"

definition emodify :: "('s \<Rightarrow> 's) \<Rightarrow> ('s, unit) exc" where
  "emodify f s = (Inr (), f s)"

definition ewhen :: "bool \<Rightarrow> ('s, unit) exc \<Rightarrow> ('s, unit) exc" where
  "ewhen b m = (if b then m else ereturn ())"

definition elift :: "'a res \<Rightarrow> ('s, 'a) exc" where
  "elift r s = (r, s)"

definition ecatch :: "('s, 'a) exc \<Rightarrow> (error \<Rightarrow> ('s, 'a) exc) \<Rightarrow> ('s, 'a) exc" where
  "ecatch m h s = (case m s of (Inl e, s) \<Rightarrow> h e s | (Inr a, s) \<Rightarrow> (Inr a, s))"

text \<open>The readers and writers of a stream that is the object itself.\<close>

definition ereader :: "('s \<Rightarrow> ('a \<times> 's) res) \<Rightarrow> ('s, 'a) exc" where
  "ereader g s = (case g s of Inl e \<Rightarrow> (Inl e, s) | Inr (a, t) \<Rightarrow> (Inr a, t))"

definition ewriter :: "('s \<Rightarrow> 's res) \<Rightarrow> ('s, unit) exc" where
  "ewriter g s = (case g s of Inl e \<Rightarrow> (Inl e, s) | Inr t \<Rightarrow> (Inr (), t))"

text \<open>Running a method for every element of a list, and a number of times for its results.\<close>

primrec eeach :: "('a \<Rightarrow> ('s, unit) exc) \<Rightarrow> 'a list \<Rightarrow> ('s, unit) exc" where
  "eeach f [] = ereturn ()"
| "eeach f (x # xs) = ebind (f x) (\<lambda>_. eeach f xs)"

primrec etimes :: "nat \<Rightarrow> ('s, 'a) exc \<Rightarrow> ('s, 'a list) exc" where
  "etimes 0 m = ereturn []"
| "etimes (Suc n) m = ebind m (\<lambda>a. ebind (etimes n m) (\<lambda>as. ereturn (a # as)))"

named_theorems exc_simps "evaluation of methods"

lemma ereturn_simps [simp, exc_simps]: "ereturn a s = (Inr a, s)"
  by (simp add: ereturn_def)

lemma ethrow_simps [simp, exc_simps]: "ethrow e s = (Inl e, s)"
  by (simp add: ethrow_def)

lemma egets_simps [simp, exc_simps]: "egets f s = (Inr (f s), s)"
  by (simp add: egets_def)

lemma emodify_simps [simp, exc_simps]: "emodify f s = (Inr (), f s)"
  by (simp add: emodify_def)

lemma ewhen_simps [simp, exc_simps]: "ewhen True m = m" "ewhen False m = ereturn ()"
  by (simp_all add: ewhen_def)

lemma elift_simps [simp, exc_simps]: "elift (Inr a) s = (Inr a, s)" "elift (Inl e) s = (Inl e, s)"
  by (simp_all add: elift_def)

lemma elift_method [simp, exc_simps]: "elift (Inr a) = ereturn a" "elift (Inl e) = ethrow e"
  by (simp_all add: fun_eq_iff)

lemma ebind_Inr [exc_simps]: "m s = (Inr a, t) \<Longrightarrow> ebind m f s = f a t"
  by (simp add: ebind_def)

lemma ebind_Inl [exc_simps]: "m s = (Inl e, t) \<Longrightarrow> ebind m f s = (Inl e, t)"
  by (simp add: ebind_def)

lemma ebind_simps [simp, exc_simps]:
  "ebind (ereturn a) f s = f a s" "ebind (ethrow e) f s = (Inl e, s)" "ebind (egets g) f s = f (g s) s"
  "ebind (emodify h) k s = k () (h s)"
  by (simp_all add: ebind_def)

lemma ebind_pair [simp, exc_simps]:
  "ebind (Pair (Inr a)) f s = f a s" "ebind (Pair (Inl e)) f s = (Inl e, s)"
  by (simp_all add: ebind_def)

lemma ebind_assoc: "ebind (ebind m f) g s = ebind m (\<lambda>a. ebind (f a) g) s"
  by (simp add: ebind_def split: prod.splits sum.splits)

lemma ebind_cong [fundef_cong]:
  "s = s' \<Longrightarrow> m s' = m' s' \<Longrightarrow> (\<And>a t. m' s' = (Inr a, t) \<Longrightarrow> f a t = f' a t) \<Longrightarrow> ebind m f s = ebind m' f' s'"
  by (simp add: ebind_def split: prod.splits sum.splits)

text \<open>
  \<open>keeps P m\<close>: the method \<open>m\<close> keeps the property \<open>P\<close> of the state, whether it returns or throws.
  \<open>steps R m\<close>: it relates the states before and after, for a relation that composes.
\<close>

definition keeps :: "('s \<Rightarrow> bool) \<Rightarrow> ('s, 'a) exc \<Rightarrow> bool" where
  "keeps P m \<longleftrightarrow> (\<forall>s. P s \<longrightarrow> P (snd (m s)))"

definition steps :: "('s \<Rightarrow> 's \<Rightarrow> bool) \<Rightarrow> ('s, 'a) exc \<Rightarrow> bool" where
  "steps R m \<longleftrightarrow> (\<forall>s. R s (snd (m s)))"

named_theorems keeps_intros "methods that keep a property"
named_theorems steps_intros "methods that relate states"

lemma keeps_basic [keeps_intros]:
  "keeps P (ereturn a)" "keeps P (ethrow e)" "keeps P (egets f)" "keeps P (elift r)"
  "keeps P (Pair r)"
  by (simp_all add: keeps_def elift_def)

lemma keepsI: "(\<And>s. P s \<Longrightarrow> P (snd (m s))) \<Longrightarrow> keeps P m"
  by (simp add: keeps_def)

lemma keeps_app: "keeps P m \<Longrightarrow> P s \<Longrightarrow> P (snd (m s))"
  by (simp add: keeps_def)

lemma keepsD:
  assumes "keeps P m" and "P s" and "m s = (r, t)"
  shows "P t"
proof -
  have "P s \<longrightarrow> P (snd (m s))" using assms(1) unfolding keeps_def by (rule spec)
  then have "P (snd (m s))" using assms(2) by (rule mp)
  with assms(3) show ?thesis by simp
qed

lemma keeps_bind [keeps_intros]:
  assumes "keeps P m" and "\<And>a. keeps P (f a)"
  shows "keeps P (ebind m f)"
  unfolding keeps_def
proof (intro allI impI)
  fix s assume "P s"
  obtain r t where m: "m s = (r, t)" by (cases "m s")
  from assms(1) \<open>P s\<close> m have "P t" by (rule keepsD)
  with assms(2) m show "P (snd (ebind m f s))"
    by (cases r) (simp_all add: ebind_def keeps_def)
qed

lemma keeps_if [keeps_intros]: "keeps P m \<Longrightarrow> keeps P n \<Longrightarrow> keeps P (if b then m else n)"
  by simp

lemma keeps_when [keeps_intros]: "keeps P m \<Longrightarrow> keeps P (ewhen b m)"
  by (simp add: ewhen_def keeps_basic)

lemma keeps_catch [keeps_intros]:
  assumes "keeps P m" and "\<And>e. keeps P (h e)"
  shows "keeps P (ecatch m h)"
  unfolding keeps_def
proof (intro allI impI)
  fix s assume "P s"
  obtain r t where m: "m s = (r, t)" by (cases "m s")
  from assms(1) \<open>P s\<close> m have "P t" by (rule keepsD)
  with assms(2) m show "P (snd (ecatch m h s))"
    by (cases r) (simp_all add: ecatch_def keeps_def)
qed

lemma keeps_each [keeps_intros]: "(\<And>x. keeps P (f x)) \<Longrightarrow> keeps P (eeach f xs)"
  by (induction xs) (simp_all add: keeps_basic keeps_bind)

lemma keeps_times [keeps_intros]: "keeps P m \<Longrightarrow> keeps P (etimes n m)"
  by (induction n) (simp_all add: keeps_basic keeps_bind)

text \<open>A relation between states is kept as the property of being related to the first one.\<close>

lemma steps_keeps: "(\<And>s. R s s) \<Longrightarrow> (\<And>s0. keeps (R s0) m) \<Longrightarrow> steps R m"
  by (simp add: steps_def keeps_def)

lemma keeps_steps: "steps R m \<Longrightarrow> (\<And>a b c. R a b \<Longrightarrow> R b c \<Longrightarrow> R a c) \<Longrightarrow> keeps (R s0) m"
  unfolding steps_def keeps_def by blast

lemma keeps_modify: "(\<And>s. P s \<Longrightarrow> P (f s)) \<Longrightarrow> keeps P (emodify f)"
  by (rule keepsI) simp

lemma steps_app: "steps R m \<Longrightarrow> R s (snd (m s))"
  by (simp add: steps_def)

lemma keeps_of_steps: "steps R m \<Longrightarrow> (\<And>s t. R s t \<Longrightarrow> P s \<Longrightarrow> P t) \<Longrightarrow> keeps P m"
  unfolding steps_def keeps_def by blast

end
