(* ===== verification/Ext_Clip.thy ===== *)
theory Ext_Clip
  imports Exc_State Xcb_Types
begin

text \<open>
  \<^verbatim>\<open>src/src/librfb/librfb_extclip.cpp\<close>: the extended clipboard that the server and the client inherit.
  Its members are the fields of the record \<open>extclip\<close>, which the records of the derived classes
  extend; its pure virtual methods are the record \<open>clip_virtuals\<close> of methods of the derived object.
  zlib itself is the parameter \<open>zlib\<close>.
\<close>


section \<open>Flags\<close>

definition "TypeText = (1 :: u32)"
definition "TypeRtf = (2 :: u32)"
definition "TypeHtml = (4 :: u32)"
definition "TypeDib = (8 :: u32)"
definition "TypeFiles = (16 :: u32)"
definition "OpCaps = (0x1000000 :: u32)"
definition "OpRequest = (0x2000000 :: u32)"
definition "OpPeek = (0x4000000 :: u32)"
definition "OpNotify = (0x8000000 :: u32)"
definition "OpProvide = (0x10000000 :: u32)"

lemmas clip_types = TypeText_def TypeRtf_def TypeHtml_def TypeDib_def TypeFiles_def
lemmas clip_ops = OpCaps_def OpRequest_def OpPeek_def OpNotify_def OpProvide_def

text \<open>A flag test \<open>flags & flag\<close> in a condition.\<close>

abbreviation has :: "u32 \<Rightarrow> u32 \<Rightarrow> bool" where
  "has flags flag \<equiv> flags AND flag \<noteq> 0"

section \<open>X11 atoms of the clipboard types\<close>

record x11_atoms =
  atomUtf8String :: u32
  atomText :: u32
  atomString :: u32
  atomTextPlain :: u32
  atomTextPlainUtf8 :: u32
  atomTextRtf :: u32
  atomTextRichText :: u32
  atomTextHtml :: u32
  atomTextHtmlUtf8 :: u32
  atomImagePng :: u32
  atomImageGif :: u32
  atomImageJpg :: u32
  atomImageBmp :: u32
  atomListFiles1 :: u32
  atomListFiles2 :: u32
  atomListFiles3 :: u32

definition x11AtomsUpdate :: "(string \<Rightarrow> u32) \<Rightarrow> x11_atoms" where
  "x11AtomsUpdate getAtom =
     \<lparr>atomUtf8String = getAtom ''UTF8_STRING'', atomText = getAtom ''TEXT'',
      atomString = getAtom ''STRING'', atomTextPlain = getAtom ''text/plain'',
      atomTextPlainUtf8 = getAtom ''text/plain;charset=utf-8'',
      atomTextRtf = getAtom ''text/rtf'', atomTextRichText = getAtom ''text/richtext'',
      atomTextHtml = getAtom ''text/html'', atomTextHtmlUtf8 = getAtom ''text/html;charset=utf-8'',
      atomImagePng = getAtom ''image/png'', atomImageGif = getAtom ''image/gif'',
      atomImageJpg = getAtom ''image/jpeg'', atomImageBmp = getAtom ''image/bmp'',
      atomListFiles1 = getAtom ''text/uri-list'', atomListFiles2 = getAtom ''x-special/gnome-copied-files'',
      atomListFiles3 = getAtom ''x-special/mate-copied-files''\<rparr>"

definition typesToX11Atoms :: "x11_atoms \<Rightarrow> u16 \<Rightarrow> u32 list" where
  "typesToX11Atoms x types =
     (if has (ucast types) TypeText
      then [atomUtf8String x, atomTextPlain x, atomTextPlainUtf8 x, atomText x, atomString x] else []) @
     (if has (ucast types) TypeRtf then [atomTextRtf x, atomTextRichText x] else []) @
     (if has (ucast types) TypeHtml then [atomTextHtml x, atomTextHtmlUtf8 x] else []) @
     (if has (ucast types) TypeDib
      then [atomImagePng x, atomImageGif x, atomImageJpg x, atomImageBmp x] else []) @
     (if has (ucast types) TypeFiles
      then [atomListFiles1 x, atomListFiles2 x, atomListFiles3 x] else [])"

definition x11AtomToType :: "x11_atoms \<Rightarrow> u32 \<Rightarrow> u16" where
  "x11AtomToType x atom =
     (if atom = atomUtf8String x \<or> atom = atomTextPlain x \<or> atom = atomTextPlainUtf8 x \<or>
         atom = atomText x \<or> atom = atomString x then ucast TypeText
      else if atom = atomTextRtf x \<or> atom = atomTextRichText x then ucast TypeRtf
      else if atom = atomTextHtml x \<or> atom = atomTextHtmlUtf8 x then ucast TypeHtml
      else if atom = atomImagePng x \<or> atom = atomImageGif x \<or> atom = atomImageJpg x \<or>
              atom = atomImageBmp x then ucast TypeDib
      else if atom = atomListFiles1 x \<or> atom = atomListFiles2 x \<or> atom = atomListFiles3 x
      then ucast TypeFiles
      else 0)"

section \<open>The state and its virtual methods\<close>

text \<open>The \<open>int\<close> members that hold flags are kept as the 32 bits that the code reads of them.\<close>

record extclip =
  remoteExtClipboardFlags :: u32
  remoteExtClipTypeTextSz :: u32
  remoteExtClipTypeRtfSz :: u32
  remoteExtClipTypeHtmlSz :: u32
  remoteExtClipTypeDibSz :: u32
  remoteExtClipTypeFilesSz :: u32
  localExtClipboardFlags :: u32
  localExtClipTypeTextSz :: u32
  localExtClipTypeRtfSz :: u32
  localExtClipTypeHtmlSz :: u32
  localExtClipTypeDibSz :: u32
  localExtClipTypeFilesSz :: u32
  localProvideTypes :: u32

definition extclip_init :: extclip where
  "extclip_init = \<lparr>remoteExtClipboardFlags = 0, remoteExtClipTypeTextSz = 0, remoteExtClipTypeRtfSz = 0,
     remoteExtClipTypeHtmlSz = 0, remoteExtClipTypeDibSz = 0, remoteExtClipTypeFilesSz = 0,
     localExtClipboardFlags = 0, localExtClipTypeTextSz = 0, localExtClipTypeRtfSz = 0,
     localExtClipTypeHtmlSz = 0, localExtClipTypeDibSz = 0, localExtClipTypeFilesSz = 0,
     localProvideTypes = 0\<rparr>"

record 's clip_virtuals =
  extClipboardLocalTypes :: "'s \<Rightarrow> u16"
  extClipboardLocalData :: "u16 \<Rightarrow> ('s, bytes) exc"
  extClipboardRemoteTypesEvent :: "u16 \<Rightarrow> ('s, unit) exc"
  extClipboardRemoteDataEvent :: "u16 \<Rightarrow> bytes \<Rightarrow> ('s, unit) exc"
  extClipboardSendEvent :: "bytes \<Rightarrow> ('s, unit) exc"

text \<open>
  \<open>ZLib::deflate\<close> and \<open>ZLib::inflate\<close> on a stream of their own; the calls of zlib on input that is
  not empty are the parameters, for their result or the exception after a failed call.
\<close>

record zlib =
  zlib_compress :: "bytes \<Rightarrow> bytes res"
  zlib_uncompress :: "bytes \<Rightarrow> bytes res"

definition zl_deflate :: "zlib \<Rightarrow> bytes \<Rightarrow> bytes res" where
  "zl_deflate z bs = (if length bs = 0 then Inr [] else zlib_compress z bs)"

definition zl_inflate :: "zlib \<Rightarrow> bytes \<Rightarrow> bytes res" where
  "zl_inflate z bs = (if length bs = 0 then Inr [] else zlib_uncompress z bs)"

section \<open>Sending\<close>

text \<open>A 32 bit integer appended to a stream buffer, and appended when a condition holds.\<close>

definition writeIntBE32 :: "bool \<Rightarrow> u32 \<Rightarrow> streambuf \<Rightarrow> streambuf res" where
  "writeIntBE32 be v sb = putIntBE32 be buf_putRaw v sb"

definition write_size :: "bool \<Rightarrow> bool \<Rightarrow> u32 \<Rightarrow> streambuf \<Rightarrow> streambuf res" where
  "write_size be b sz sb = (if b then writeIntBE32 be sz sb else Inr sb)"

definition sendExtClipboardCapsEvent ::
    "'a extclip_scheme clip_virtuals \<Rightarrow> bool \<Rightarrow> ('a extclip_scheme, unit) exc" where
  "sendExtClipboardCapsEvent v be s =
     (let allowFlags = TypeText OR TypeRtf OR TypeHtml OR TypeDib OR OpRequest OR OpPeek OR OpNotify OR OpProvide;
          serverAllow = localExtClipboardFlags s AND allowFlags
      in ebind (elift
           (rbind (writeIntBE32 be (OpCaps OR serverAllow) streamBuf) (\<lambda>sb.
            rbind (write_size be (has serverAllow TypeText) (localExtClipTypeTextSz s) sb) (\<lambda>sb.
            rbind (write_size be (has serverAllow TypeRtf) (localExtClipTypeRtfSz s) sb) (\<lambda>sb.
            rbind (write_size be (has serverAllow TypeHtml) (localExtClipTypeHtmlSz s) sb) (\<lambda>sb.
            rbind (write_size be (has serverAllow TypeDib) (localExtClipTypeDibSz s) sb) (\<lambda>sb.
                   write_size be (has serverAllow TypeFiles) (localExtClipTypeFilesSz s) sb)))))))
         (\<lambda>sb. extClipboardSendEvent v (buf_rawbuf sb)) s)"

text \<open>A message of one word of flags.\<close>

definition send_flags ::
    "'a extclip_scheme clip_virtuals \<Rightarrow> bool \<Rightarrow> u32 \<Rightarrow> ('a extclip_scheme, unit) exc" where
  "send_flags v be flags =
     ebind (elift (writeIntBE32 be flags streamBuf)) (\<lambda>sb. extClipboardSendEvent v (buf_rawbuf sb))"

definition sendExtClipboardRequest ::
    "'a extclip_scheme clip_virtuals \<Rightarrow> bool \<Rightarrow> u16 \<Rightarrow> ('a extclip_scheme, unit) exc" where
  "sendExtClipboardRequest v be types s =
     (if types = 0 then (Inr (), s)
      else if localProvideTypes s AND ucast types = ucast types then (Inr (), s)
      else let allowTypes = remoteExtClipboardFlags s AND ucast types in
        eseq (send_flags v be (OpRequest OR allowTypes))
          (emodify (\<lambda>s. s\<lparr>localProvideTypes := localProvideTypes s OR allowTypes\<rparr>)) s)"

definition sendExtClipboardPeek ::
    "'a extclip_scheme clip_virtuals \<Rightarrow> bool \<Rightarrow> ('a extclip_scheme, unit) exc" where
  "sendExtClipboardPeek v be = send_flags v be OpPeek"

definition sendExtClipboardNotify ::
    "'a extclip_scheme clip_virtuals \<Rightarrow> bool \<Rightarrow> u16 \<Rightarrow> ('a extclip_scheme, unit) exc" where
  "sendExtClipboardNotify v be types s =
     (let allowTypes = remoteExtClipboardFlags s AND ucast types
      in send_flags v be (OpNotify OR allowTypes) s)"

definition write_block :: "bool \<Rightarrow> bytes \<Rightarrow> streambuf \<Rightarrow> streambuf res" where
  "write_block be bs sb = rbind (writeIntBE32 be (of_nat (length bs)) sb) (writeBytes buf_putRaw bs)"

primrec provide_blocks ::
    "'a extclip_scheme clip_virtuals \<Rightarrow> bool \<Rightarrow> u16 \<Rightarrow> u32 list \<Rightarrow> streambuf \<Rightarrow>
     ('a extclip_scheme, streambuf) exc" where
  "provide_blocks v be types [] sb = ereturn sb"
| "provide_blocks v be types (type # ts) sb =
     (if has (ucast types) type then
        ebind (extClipboardLocalData v (ucast type)) (\<lambda>buf.
        ebind (elift (write_block be buf sb)) (\<lambda>sb.
        provide_blocks v be types ts sb))
      else provide_blocks v be types ts sb)"

definition sendExtClipboardProvide ::
    "'a extclip_scheme clip_virtuals \<Rightarrow> zlib \<Rightarrow> bool \<Rightarrow> u16 \<Rightarrow> ('a extclip_scheme, unit) exc" where
  "sendExtClipboardProvide v z be types =
     ebind (provide_blocks v be types [TypeText, TypeRtf, TypeHtml, TypeDib, TypeFiles] streamBuf) (\<lambda>sb.
     ebind (elift (zl_deflate z (buf_rawbuf sb))) (\<lambda>zip.
     ebind (elift (write_block be zip (buf_reset sb))) (\<lambda>sb.
     extClipboardSendEvent v (buf_rawbuf sb))))"

section \<open>Receiving\<close>

definition readIntBE32 :: "bool \<Rightarrow> streambuf \<Rightarrow> ('s, u32 \<times> streambuf) exc" where
  "readIntBE32 be sb = elift (getIntBE32 be buf_getRaw sb)"

definition read_size ::
    "bool \<Rightarrow> bool \<Rightarrow> ((u32 \<Rightarrow> u32) \<Rightarrow> 's \<Rightarrow> 's) \<Rightarrow> streambuf \<Rightarrow> ('s, streambuf) exc" where
  "read_size be b upd sb =
     (if b then ebind (readIntBE32 be sb) (\<lambda>(sz, sb). eseq (emodify (upd (\<lambda>_. sz))) (ereturn sb))
      else ereturn sb)"

definition recvExtClipboardCapsContinue ::
    "bool \<Rightarrow> u32 \<Rightarrow> streambuf \<Rightarrow> ('a extclip_scheme, unit) exc" where
  "recvExtClipboardCapsContinue be flags sb =
     eseq (emodify (\<lambda>s. s\<lparr>remoteExtClipTypeTextSz := 0, remoteExtClipTypeRtfSz := 0,
             remoteExtClipTypeHtmlSz := 0, remoteExtClipTypeDibSz := 0, remoteExtClipTypeFilesSz := 0\<rparr>))
     (eseq (if pop_count (flags AND 0xFFFF) \<noteq> 0 then
           ebind (read_size be (has TypeText flags) remoteExtClipTypeTextSz_update sb) (\<lambda>sb.
           ebind (read_size be (has TypeRtf flags) remoteExtClipTypeRtfSz_update sb) (\<lambda>sb.
           ebind (read_size be (has TypeHtml flags) remoteExtClipTypeHtmlSz_update sb) (\<lambda>sb.
           ebind (read_size be (has TypeDib flags) remoteExtClipTypeDibSz_update sb) (\<lambda>sb.
                  read_size be (has TypeFiles flags) remoteExtClipTypeFilesSz_update sb))))
         else ereturn sb)
     (emodify (\<lambda>s. s\<lparr>remoteExtClipboardFlags := flags AND NOT OpCaps\<rparr>)))"

definition recvExtClipboardRequest ::
    "'a extclip_scheme clip_virtuals \<Rightarrow> zlib \<Rightarrow> bool \<Rightarrow> u32 \<Rightarrow> ('a extclip_scheme, unit) exc" where
  "recvExtClipboardRequest v z be flags s =
     (if has (localExtClipboardFlags s) OpRequest
      then sendExtClipboardProvide v z be (ucast (0xFFFF AND localExtClipboardFlags s AND flags)) s
      else (Inl RfbError, s))"

definition recvExtClipboardPeek ::
    "'a extclip_scheme clip_virtuals \<Rightarrow> bool \<Rightarrow> ('a extclip_scheme, unit) exc" where
  "recvExtClipboardPeek v be s =
     (if has (localExtClipboardFlags s) OpPeek
      then sendExtClipboardNotify v be
             (ucast (0xFFFF AND localExtClipboardFlags s AND ucast (extClipboardLocalTypes v s))) s
      else (Inl RfbError, s))"

definition recvExtClipboardNotify ::
    "'a extclip_scheme clip_virtuals \<Rightarrow> u32 \<Rightarrow> ('a extclip_scheme, unit) exc" where
  "recvExtClipboardNotify v flags s =
     (if has (localExtClipboardFlags s) OpNotify
      then extClipboardRemoteTypesEvent v (ucast (0xFFFF AND remoteExtClipboardFlags s AND flags)) s
      else (Inl RfbError, s))"

primrec provided_types ::
    "'a extclip_scheme clip_virtuals \<Rightarrow> bool \<Rightarrow> u32 list \<Rightarrow> streambufref \<Rightarrow> ('a extclip_scheme, unit) exc" where
  "provided_types v be [] sbr = ereturn ()"
| "provided_types v be (type # ts) sbr =
     ebind (egets localProvideTypes) (\<lambda>provide.
     if has provide type then
       ebind (elift (getIntBE32 be ref_getRaw sbr)) (\<lambda>(len, sbr).
       ebind (elift (ref_read (unat len) sbr)) (\<lambda>(raw, sbr).
       eseq (extClipboardRemoteDataEvent v (ucast type) raw)
       (eseq (emodify (\<lambda>s. s\<lparr>localProvideTypes := localProvideTypes s AND NOT type\<rparr>))
       (provided_types v be ts sbr))))
     else provided_types v be ts sbr)"

definition recvExtClipboardProvide ::
    "'a extclip_scheme clip_virtuals \<Rightarrow> zlib \<Rightarrow> bool \<Rightarrow> streambuf \<Rightarrow> ('a extclip_scheme, unit) exc" where
  "recvExtClipboardProvide v z be sb s =
     (if has (localExtClipboardFlags s) OpProvide then
        ebind (readIntBE32 be sb) (\<lambda>(len, sb).
        if len \<noteq> 0 then
          ebind (elift (buf_read (unat len) sb)) (\<lambda>(raw, sb).
          ebind (elift (zl_inflate z raw)) (\<lambda>buf.
          provided_types v be (map (\<lambda>i. push_bit i 1) [0..<32]) (streamBufRef (Some buf) (length buf))))
        else ereturn ()) s
      else (Inl RfbError, s))"

definition recvExtClipboardCapsEvent ::
    "'a extclip_scheme clip_virtuals \<Rightarrow> zlib \<Rightarrow> bool \<Rightarrow> bytes \<Rightarrow> ('a extclip_scheme, unit) exc" where
  "recvExtClipboardCapsEvent v z be buf =
     (let sb = streamBuf_of buf in
      if 4 > buf_last sb then ethrow RfbError
      else ebind (readIntBE32 be sb) (\<lambda>(flags, sb).
        if has flags OpCaps then
          let typesCount = pop_count (flags AND 0xFFFF) in
          if typesCount * 4 > buf_last sb then ethrow RfbError
          else recvExtClipboardCapsContinue be flags sb
        else
          let allop = OpRequest OR OpPeek OR OpNotify OR OpProvide;
              opCount = pop_count (flags AND allop) in
          if 1 \<noteq> opCount then ereturn ()
          else if flags AND allop = OpRequest then recvExtClipboardRequest v z be flags
          else if flags AND allop = OpPeek then recvExtClipboardPeek v be
          else if flags AND allop = OpNotify then recvExtClipboardNotify v flags
          else if flags AND allop = OpProvide then recvExtClipboardProvide v z be sb
          else ereturn ()))"

definition extClipboardLocalCaps :: "'a extclip_scheme \<Rightarrow> u32" where
  "extClipboardLocalCaps s = localExtClipboardFlags s"

definition setExtClipboardLocalCaps :: "u32 \<Rightarrow> ('a extclip_scheme, unit) exc" where
  "setExtClipboardLocalCaps flags = emodify (\<lambda>s. s\<lparr>localExtClipboardFlags := flags\<rparr>)"

definition extClipboardRemoteCaps :: "'a extclip_scheme \<Rightarrow> u32" where
  "extClipboardRemoteCaps s = remoteExtClipboardFlags s"

definition setExtClipboardRemoteCaps :: "u32 \<Rightarrow> ('a extclip_scheme, unit) exc" where
  "setExtClipboardRemoteCaps flags = emodify (\<lambda>s. s\<lparr>remoteExtClipboardFlags := flags\<rparr>)"


section \<open>Population counts and flags\<close>

lemma popcount_mask:
  assumes "n \<le> LENGTH('a)"
  shows "pop_count (w AND mask n :: 'a::len word) = length (filter (bit w) [0..<n])"
proof -
  have "[0..<LENGTH('a)] = [0..<n] @ [n..<LENGTH('a)]"
    using assms by (metis le_add_diff_inverse upt_add_eq_append zero_le)
  moreover have "filter (bit (w AND mask n)) [0..<n] = filter (bit w) [0..<n]"
    by (rule filter_cong) (use assms in \<open>auto simp: bit_simps\<close>)
  moreover have "filter (bit (w AND mask n)) [n..<LENGTH('a)] = []"
    by (auto simp: filter_empty_conv bit_simps)
  ultimately show ?thesis by (simp add: pop_count_def)
qed

lemma has_bit: "has w (push_bit i 1) \<longleftrightarrow> bit w i" "has (push_bit i 1) w \<longleftrightarrow> bit w i"
proof -
  show "has w (push_bit i 1) \<longleftrightarrow> bit w i"
    by (simp add: push_bit_of_1 and_exp_eq_0_iff_not_bit)
  then show "has (push_bit i 1) w \<longleftrightarrow> bit w i"
    by (simp add: and.commute)
qed

lemma has_type:
  "has TypeText w \<longleftrightarrow> bit w 0" "has TypeRtf w \<longleftrightarrow> bit w 1" "has TypeHtml w \<longleftrightarrow> bit w 2"
  "has TypeDib w \<longleftrightarrow> bit w 3" "has TypeFiles w \<longleftrightarrow> bit w 4"
  "has w TypeText \<longleftrightarrow> bit w 0" "has w TypeRtf \<longleftrightarrow> bit w 1" "has w TypeHtml \<longleftrightarrow> bit w 2"
  "has w TypeDib \<longleftrightarrow> bit w 3" "has w TypeFiles \<longleftrightarrow> bit w 4"
  using has_bit [where w = w and i = 0] has_bit [where w = w and i = 1] has_bit [where w = w and i = 2]
    has_bit [where w = w and i = 3] has_bit [where w = w and i = 4]
  by (simp_all add: clip_types)

lemma has_op: "has w OpCaps \<longleftrightarrow> bit w 24" "has w OpRequest \<longleftrightarrow> bit w 25" "has w OpPeek \<longleftrightarrow> bit w 26"
  "has w OpNotify \<longleftrightarrow> bit w 27" "has w OpProvide \<longleftrightarrow> bit w 28"
  by (simp_all flip: has_bit(1) add: clip_ops)


lemma bit_OpCaps: "bit OpCaps i \<longleftrightarrow> i = 24"
proof -
  have "OpCaps = push_bit 24 1" by (simp add: clip_ops)
  then have "bit OpCaps i = bit (push_bit 24 1 :: u32) i" by simp
  also have "\<dots> \<longleftrightarrow> i = 24" unfolding bit_simps by auto
  finally show ?thesis .
qed

lemma popcount_types: "pop_count (w AND 0xFFFF :: u32) = length (filter (bit w) [0..<16])"
proof -
  have "(0xFFFF :: u32) = mask 16" by (simp add: mask_eq_exp_minus_1)
  then show ?thesis by (simp only: popcount_mask [of 16, where 'a = 32, simplified])
qed

lemma filter_upt_mono: "i \<le> j \<Longrightarrow> length (filter P [0..<i]) \<le> length (filter P [0..<j])"
  using upt_add_eq_append [of 0 i "j - i"] by simp

section \<open>Messages\<close>

lemma write_simps [wire_simps]:
  "writeIntBE32 be v sb = Inr (sb\<lparr>buf_vec := buf_vec sb @ be_bytes 4 v, buf_it := min (buf_it sb) (length (buf_vec sb) + 4)\<rparr>)"
  by (simp add: writeIntBE32_def put_wire buf_putRaw_def Let_def)


text \<open>What the capabilities message holds, and the state that it leaves on the other side.\<close>

definition caps_allowed :: "'a extclip_scheme \<Rightarrow> u32" where
  "caps_allowed s = localExtClipboardFlags s AND 0x1E00000F"

definition caps_message :: "'a extclip_scheme \<Rightarrow> bytes" where
  "caps_message s = be_bytes 4 (OpCaps OR caps_allowed s) @
     (if bit (caps_allowed s) 0 then be_bytes 4 (localExtClipTypeTextSz s) else []) @
     (if bit (caps_allowed s) 1 then be_bytes 4 (localExtClipTypeRtfSz s) else []) @
     (if bit (caps_allowed s) 2 then be_bytes 4 (localExtClipTypeHtmlSz s) else []) @
     (if bit (caps_allowed s) 3 then be_bytes 4 (localExtClipTypeDibSz s) else [])"

text \<open>The size of a type is the entry of the array that as many types of the flags precede.\<close>

definition caps_size :: "u32 \<Rightarrow> bytes \<Rightarrow> nat \<Rightarrow> u32" where
  "caps_size flags sizes i =
     (if bit flags i then be_val (take 4 (drop (4 * pop_count (flags AND mask i)) sizes)) else 0)"

definition accept_caps :: "u32 \<Rightarrow> bytes \<Rightarrow> 'a extclip_scheme \<Rightarrow> 'a extclip_scheme" where
  "accept_caps flags sizes s = s\<lparr>
     remoteExtClipboardFlags := flags AND NOT OpCaps,
     remoteExtClipTypeTextSz := caps_size flags sizes 0,
     remoteExtClipTypeRtfSz := caps_size flags sizes 1,
     remoteExtClipTypeHtmlSz := caps_size flags sizes 2,
     remoteExtClipTypeDibSz := caps_size flags sizes 3,
     remoteExtClipTypeFilesSz := caps_size flags sizes 4\<rparr>"

lemma sendCaps_message:
  "sendExtClipboardCapsEvent v be s = extClipboardSendEvent v (caps_message s) s"
proof -
  have "TypeText OR TypeRtf OR TypeHtml OR TypeDib OR OpRequest OR OpPeek OR OpNotify OR OpProvide = 0x1E00000F"
    by (simp add: clip_types clip_ops)
  moreover have "\<not> bit (caps_allowed s) 4"
    by (simp add: caps_allowed_def bit_simps)
  ultimately show ?thesis
    unfolding sendExtClipboardCapsEvent_def caps_message_def Let_def caps_allowed_def [symmetric]
    by (simp add: caps_allowed_def [symmetric] has_type write_size_def wire_simps streamBuf_def buf_rawbuf_def)
qed

lemma readIntBE32_Inr:
  assumes "4 \<le> buf_last sb"
  shows "readIntBE32 be sb = ereturn (be_val (take 4 (buf_pending sb)), sb\<lparr>buf_it := buf_it sb + 4\<rparr>)"
proof -
  have "native_val be bs = (if be then be_val bs else le_val bs)" for bs
    by (simp add: native_val_def)
  with assms show ?thesis
    by (auto simp: readIntBE32_def getIntBE32_def buf_getRaw_def read_mem_def buf_last_def Let_def
        swap_native_val buf_pending_def)
      (simp add: native_val_def be_val_def)+
qed

lemma caps_size_upt:
  "i \<le> 16 \<Longrightarrow> caps_size flags sizes i =
     (if bit flags i then be_val (take 4 (drop (4 * length (filter (bit flags) [0..<i])) sizes)) else 0)"
  by (simp add: caps_size_def popcount_mask)

text \<open>One entry of the array of sizes: the cursor stands behind the entries of the types before it.\<close>

lemma read_size_step:
  fixes sb :: streambuf and flags :: u32
  defines "at i \<equiv> sb\<lparr>buf_it := buf_it sb + 4 * length (filter (bit flags) [0..<i])\<rparr>"
  assumes "4 * pop_count (flags AND 0xFFFF) \<le> buf_last sb" and "i < 16"
    and "\<not> bit flags i \<Longrightarrow> upd (\<lambda>_. 0) s = s"
  shows "read_size be (bit flags i) upd (at i) s =
     (Inr (at (Suc i)), upd (\<lambda>_. caps_size flags (buf_pending sb) i) s)"
proof (cases "bit flags i")
  case True
  have "4 * length (filter (bit flags) [0..<Suc i]) \<le> buf_last sb"
    using filter_upt_mono [of "Suc i" 16 "bit flags"] assms(2,3) by (simp add: popcount_types)
  with True have "4 \<le> buf_last (at i)"
    by (simp add: at_def buf_last_def)
  moreover have "buf_pending (at i) = drop (4 * length (filter (bit flags) [0..<i])) (buf_pending sb)"
    by (simp add: at_def buf_pending_def add.commute)
  ultimately show ?thesis
    using True assms(3)
    by (simp add: read_size_def readIntBE32_Inr caps_size_upt) (simp add: at_def)
next
  case False
  with assms(3,4) show ?thesis
    by (simp add: read_size_def caps_size_upt) (simp add: at_def)
qed

lemma recvCapsContinue_accepts:
  assumes "4 * pop_count (flags AND 0xFFFF) \<le> buf_last sb"
  shows "recvExtClipboardCapsContinue be flags sb s = (Inr (), accept_caps flags (buf_pending sb) s)"
proof (cases "pop_count (flags AND 0xFFFF) = 0")
  case True
  then have "\<not> bit flags i" if "i < 16" for i
    using that by (simp add: popcount_types filter_empty_conv)
  with True show ?thesis
    by (simp add: recvExtClipboardCapsContinue_def accept_caps_def caps_size_def)
next
  case False
  define at where "at i = sb\<lparr>buf_it := buf_it sb + 4 * length (filter (bit flags) [0..<i])\<rparr>" for i
  have step: "read_size be (bit flags i) upd (at i) t =
      (Inr (at (Suc i)), upd (\<lambda>_. caps_size flags (buf_pending sb) i) t)"
    if "i < 16" and "upd (\<lambda>_. 0) t = t" for i t and upd :: "(u32 \<Rightarrow> u32) \<Rightarrow> 'a extclip_scheme \<Rightarrow> _"
    unfolding at_def using assms that by (rule read_size_step)
  have nums: "Suc 0 = 1" "Suc 1 = 2" "Suc 2 = 3" "Suc 3 = 4" by simp_all
  have "read_size be (bit flags 0) upd sb t = (Inr (at 1), upd (\<lambda>_. caps_size flags (buf_pending sb) 0) t)"
    if "upd (\<lambda>_. 0) t = t" for t and upd :: "(u32 \<Rightarrow> u32) \<Rightarrow> 'a extclip_scheme \<Rightarrow> _"
    using step [of 0 upd t] that by (simp add: at_def)
  with False step [of 1] step [of 2] step [of 3] step [of 4] show ?thesis
    by (simp add: recvExtClipboardCapsContinue_def accept_caps_def has_type ebind_Inr nums del: One_nat_def)
qed

text \<open>How any message with the capabilities flag is received.\<close>

lemma recvCaps_total:
  fixes s :: "'a extclip_scheme"
  assumes "has (be_val (take 4 buf)) OpCaps"
  shows "recvExtClipboardCapsEvent v z be buf s =
     (let flags = be_val (take 4 buf) in
      if length buf < 4 + 4 * pop_count (flags AND 0xFFFF) then (Inl RfbError, s)
      else (Inr (), accept_caps flags (drop 4 buf) s))"
proof (cases "length buf < 4")
  case True
  then show ?thesis by (simp add: recvExtClipboardCapsEvent_def buf_last_def streamBuf_of_def Let_def)
next
  case False
  define sb where "sb = (streamBuf_of buf)\<lparr>buf_it := 4\<rparr>"
  have "buf_last (streamBuf_of buf) = length buf" by (simp add: buf_last_def streamBuf_of_def)
  moreover from this False
  have "readIntBE32 be (streamBuf_of buf) = (ereturn (be_val (take 4 buf), sb) :: ('a extclip_scheme, _) exc)"
    by (subst readIntBE32_Inr) (simp_all add: sb_def streamBuf_of_def buf_pending_def)
  moreover have "buf_last sb = length buf - 4" "buf_pending sb = drop 4 buf"
    by (simp_all add: sb_def streamBuf_of_def buf_last_def buf_pending_def)
  ultimately show ?thesis
    using False assms recvCapsContinue_accepts [of "be_val (take 4 buf)" sb be s]
    by (auto simp: recvExtClipboardCapsEvent_def Let_def)
qed

text \<open>
  What a side announces: the operations it allows, the types among them with their sizes.
\<close>

definition announced_size :: "u32 \<Rightarrow> nat \<Rightarrow> u32 \<Rightarrow> u32" where
  "announced_size flags i sz = (if bit flags i then sz else 0)"

definition know_remote :: "'b extclip_scheme \<Rightarrow> 'a extclip_scheme \<Rightarrow> 'a extclip_scheme" where
  "know_remote peer s = s\<lparr>
     remoteExtClipboardFlags := caps_allowed peer,
     remoteExtClipTypeTextSz := announced_size (caps_allowed peer) 0 (localExtClipTypeTextSz peer),
     remoteExtClipTypeRtfSz := announced_size (caps_allowed peer) 1 (localExtClipTypeRtfSz peer),
     remoteExtClipTypeHtmlSz := announced_size (caps_allowed peer) 2 (localExtClipTypeHtmlSz peer),
     remoteExtClipTypeDibSz := announced_size (caps_allowed peer) 3 (localExtClipTypeDibSz peer),
     remoteExtClipTypeFilesSz := 0\<rparr>"

lemma bit_caps_allowed:
  "bit (caps_allowed s) i \<longleftrightarrow> bit (localExtClipboardFlags s) i \<and> (i < 4 \<or> 25 \<le> i \<and> i < 29)"
proof -
  have "(0x1E00000F :: u32) = mask 4 OR push_bit 25 (mask 4)" by (simp add: mask_eq_exp_minus_1)
  then have "bit (caps_allowed s) i \<longleftrightarrow> bit (localExtClipboardFlags s AND (mask 4 OR push_bit 25 (mask 4))) i"
    by (simp add: caps_allowed_def)
  also have "\<dots> \<longleftrightarrow> bit (localExtClipboardFlags s) i \<and> (i < 4 \<or> 25 \<le> i \<and> i < 29)"
    unfolding bit_simps by (auto dest: bit_imp_le_length)
  finally show ?thesis .
qed

lemma recv_caps_message:
  fixes peer :: "'b extclip_scheme" and s :: "'a extclip_scheme"
  shows "recvExtClipboardCapsEvent v z be (caps_message peer) s = (Inr (), know_remote peer s)"
proof -
  define a where "a = caps_allowed peer"
  define f where "f = (OpCaps OR a)"
  define n where "n i = length (filter (bit f) [0..<i])" for i
  have f: "be_val (take 4 (caps_message peer)) = f" 
    by (simp add: caps_message_def f_def a_def)
  have bits: "bit f i \<longleftrightarrow> bit a i \<or> i = 24" for i
    by (auto simp: f_def bit_simps bit_OpCaps)
  have a: "bit a i \<Longrightarrow> i < 4 \<or> 24 < i" for i
    by (auto simp: a_def bit_caps_allowed)
  have "\<not> bit a 24" using a [of 24] by auto
  then have "f AND NOT OpCaps = a"
    by (intro bit_word_eqI) (auto simp: bits bit_simps bit_OpCaps)
  moreover have "has f OpCaps"
    by (simp add: has_op bits)
  moreover have n: "n 0 = 0" "n 1 = of_bool (bit a 0)" "n 2 = of_bool (bit a 0) + of_bool (bit a 1)"
    "n 3 = of_bool (bit a 0) + of_bool (bit a 1) + of_bool (bit a 2)"
    "n 4 = of_bool (bit a 0) + of_bool (bit a 1) + of_bool (bit a 2) + of_bool (bit a 3)"
    unfolding n_def by (simp_all add: upt_rec numeral_eq_Suc bits)
  moreover have "pop_count (f AND 0xFFFF) = n 4"
  proof -
    have "[0..<16] = [0..<4] @ [4..<(16::nat)]" by (simp add: upt_rec)
    moreover have "filter (bit f) [4..<16] = []" by (rule filter_False, rule ballI, unfold set_upt bits) (auto dest: a)
    ultimately show ?thesis by (simp add: popcount_types n_def)
  qed
  moreover have "\<not> bit a 4" using a [of 4] by auto
  ultimately show ?thesis
    using recvCaps_total [of "caps_message peer" v z be s]
    by (simp add: f Let_def) (simp add: accept_caps_def know_remote_def caps_size_upt announced_size_def
        n_def [symmetric] bits f_def [symmetric] a_def [symmetric] caps_message_def)
qed

section \<open>Clipboard data\<close>

definition provide_message :: "bytes \<Rightarrow> bytes" where
  "provide_message packed = be_bytes 4 (of_nat (length packed) :: u32) @ packed"

lemma write_block_simps [wire_simps]:
  "write_block be bs sb = Inr (sb\<lparr>buf_vec := buf_vec sb @ be_bytes 4 (of_nat (length bs) :: u32) @ bs,
     buf_it := min (buf_it sb) (length (buf_vec sb) + 4)\<rparr>)"
  by (simp add: write_block_def wire_simps writeBytes_def buf_putRaw_def Let_def)

lemma sendProvide_message:
  assumes "provide_blocks v be types [TypeText, TypeRtf, TypeHtml, TypeDib, TypeFiles] streamBuf s = (Inr sb, t)"
    and "zl_deflate z (buf_rawbuf sb) = Inr packed"
  shows "sendExtClipboardProvide v z be types s = extClipboardSendEvent v (provide_message packed) t"
  using assms
  by (simp add: sendExtClipboardProvide_def ebind_Inr wire_simps buf_rawbuf_def buf_reset_def provide_message_def)

text \<open>Without a word of flags before it, the length of the data is read as the flags.\<close>

lemma recv_provide_message:
  assumes "length packed < 2 ^ 24"
  shows "recvExtClipboardCapsEvent w z be (provide_message packed) s = (Inr (), s)"
proof -
  define f where "f = (of_nat (length packed) :: u32)"
  have "unat f = length packed"
    using assms unfolding f_def by (simp only: unsigned_of_nat) (simp add: take_bit_nat_eq_self)
  then have "f < 2 ^ 24"
    using assms by (simp add: word_less_nat_alt)
  then have f: "f AND mask 24 = f" by (rule less_mask_eq)
  have high: "\<not> bit f i" if "24 \<le> i" for i
    using that by (subst f [symmetric]) (simp add: bit_simps)
  have "has f OpCaps = False" by (simp add: has_op high)
  moreover have "f AND OpRequest = 0" "f AND OpPeek = 0" "f AND OpNotify = 0" "f AND OpProvide = 0"
    using has_op(2-5) [of f] by (simp_all add: high)
  moreover have "readIntBE32 be (streamBuf_of (provide_message packed)) s =
     (Inr (f, (streamBuf_of (provide_message packed))\<lparr>buf_it := 4\<rparr>), s)" for s :: "'a extclip_scheme"
    by (subst readIntBE32_Inr)
      (simp_all add: buf_last_def streamBuf_of_def buf_pending_def provide_message_def f_def)
  ultimately show ?thesis
    by (simp add: recvExtClipboardCapsEvent_def ebind_Inr Let_def bit.conj_disj_distrib buf_last_def streamBuf_of_def
       provide_message_def pop_count_def)
qed


text \<open>The types of a word, lowest first, and the blocks of a data message.\<close>

definition types_of :: "u32 \<Rightarrow> u32 list" where
  "types_of w = filter (has w) (map (\<lambda>i. push_bit i 1) [0..<32])"

definition block_bytes :: "bytes list \<Rightarrow> bytes" where
  "block_bytes blocks = concat (map (\<lambda>b. be_bytes 4 (of_nat (length b) :: u32) @ b) blocks)"

text \<open>
  Who gets which block: the first requested type the first block, and so on. A block of length 0 takes all that is
  left of the message with it. The flag tells whether there was a block for every requested type.
\<close>

fun dealt :: "u32 list \<Rightarrow> bytes list \<Rightarrow> (u32 \<times> bytes) list \<times> bool" where
  "dealt [] blocks = ([], True)"
| "dealt (t # ts) [] = ([], False)"
| "dealt (t # ts) (b # blocks) =
     (if b = [] then ([(t, block_bytes blocks)], ts = [])
      else case dealt ts blocks of (ps, ok) \<Rightarrow> ((t, b) # ps, ok))"

definition handed ::
    "(u16 \<Rightarrow> bytes \<Rightarrow> 'a extclip_scheme \<Rightarrow> 'a extclip_scheme) \<Rightarrow> (u32 \<times> bytes) list \<Rightarrow> 'a extclip_scheme \<Rightarrow> 'a extclip_scheme" where
  "handed dev =
     fold (\<lambda>(t, bs) s. let s' = dev (ucast t) bs s in s'\<lparr>localProvideTypes := localProvideTypes s' AND NOT t\<rparr>)"

lemma dealt_own:
  "list_all (\<lambda>t. data t \<noteq> []) ts \<Longrightarrow> dealt ts (map data ts) = (map (\<lambda>t. (t, data t)) ts, True)"
  by (induction ts) simp_all

lemma dealt_none: "dealt ts [] = ([], ts = [])"
  by (cases ts) simp_all

lemma has_clear: "i \<noteq> j \<Longrightarrow> has (p AND NOT (push_bit i 1)) (push_bit j 1) \<longleftrightarrow> has p (push_bit j 1)"
  unfolding has_bit bit_simps by (auto dest: bit_imp_le_length)

text \<open>Reading one block from a stream that ends with its memory.\<close>

lemma take_block:
  assumes "ref_pending sbr = be_bytes 4 (of_nat (length b) :: u32) @ b @ rest" "length b < 2 ^ 32"
    and "ref_it2 sbr \<le> length (ref_mem sbr)"
  obtains sbr1 sbr2 where "getIntBE32 be ref_getRaw sbr = Inr (of_nat (length b), sbr1)"
    and "ref_read (unat (of_nat (length b) :: u32)) sbr1 = Inr (if b = [] then rest else b, sbr2)"
    and "ref_pending sbr2 = (if b = [] then [] else rest)" and "ref_it2 sbr2 \<le> length (ref_mem sbr2)"
proof -
  have len: "unat (of_nat (length b) :: u32) = length b"
    using assms(2) by (simp only: unsigned_of_nat) (simp add: take_bit_nat_eq_self)
  obtain sbr1 where 1: "getIntBE32 be ref_getRaw sbr = Inr (of_nat (length b), sbr1)" "ref_pending sbr1 = b @ rest"
    using assms(1) by (rule readsE [OF sbref.reads_BE(2)])
  have st: "sbr1 = sbr\<lparr>ref_it1 := ref_it1 sbr + 4\<rparr>" by (rule ref_getInt_state(4) [OF 1(1)])
  have fits: "ref_it2 sbr1 \<le> length (ref_mem sbr1)" using assms(3) by (simp add: st)
  then have last: "ref_last sbr1 = length (b @ rest)"
    using arg_cong [OF 1(2), of length] by (simp add: ref_pending_def ref_last_def)
  have take: "read_mem (ref_mem sbr1) (ref_it1 sbr1) n = Inr (take n (b @ rest))" if "n \<le> length (b @ rest)" for n
    using that last fits unfolding 1(2) [symmetric]
    by (auto simp: read_mem_def ref_pending_def ref_last_def min_def)
  let ?n = "if b = [] then length rest else length b"
  let ?sbr2 = "sbr1\<lparr>ref_it1 := ref_it1 sbr1 + ?n\<rparr>"
  have "ref_read (unat (of_nat (length b) :: u32)) sbr1 = Inr (if b = [] then rest else b, ?sbr2)"
    unfolding len using take [of ?n] last by (auto simp: ref_read_def Let_def)
  moreover have "ref_pending ?sbr2 = (if b = [] then [] else rest)"
    unfolding ref_pending_step 1(2) by simp
  ultimately show thesis using that 1(1) fits by simp
qed

lemma block_bytes_simps: "block_bytes [] = []" "block_bytes (b # bs) = be_bytes 4 (of_nat (length b) :: u32) @ b @ block_bytes bs"
  by (simp_all add: block_bytes_def)

lemma provided_types_dealt:
  fixes s :: "'a extclip_scheme"
  assumes "\<And>b. b \<in> set blocks \<Longrightarrow> length b < 2 ^ 32"
    and "ref_pending sbr = block_bytes blocks" and "ref_it2 sbr \<le> length (ref_mem sbr)"
    and "types = map (\<lambda>i. push_bit i 1) js" and "distinct js"
    and dev: "\<And>t bs s. extClipboardRemoteDataEvent v t bs s = (Inr (), dev t bs s)"
    and "\<And>t bs s. localProvideTypes (dev t bs s) = localProvideTypes s"
  shows "provided_types v be types sbr s = (case dealt (filter (has (localProvideTypes s)) types) blocks of
     (ps, ok) \<Rightarrow> (if ok then Inr () else Inl InvalidArgument, handed dev ps s))"
  using assms(1-5)
proof (induction js arbitrary: types sbr s blocks)
  case Nil
  then show ?case by (simp add: handed_def)
next
  case (Cons i js)
  let ?t = "push_bit i 1 :: u32"
  let ?ts = "map (\<lambda>i. push_bit i (1 :: u32)) js"
  show ?case
  proof (cases "has (localProvideTypes s) ?t")
    case True
    note asked = True
    let ?p = "localProvideTypes s"
    have same: "filter (has (?p AND NOT ?t)) ?ts = filter (has ?p) ?ts"
    proof (rule filter_cong [OF refl])
      fix x :: u32 assume "x \<in> set ?ts"
      then obtain j where "j \<in> set js" and x: "x = push_bit j 1" by (auto simp del: push_bit_of_1)
      with Cons.prems(5) have "i \<noteq> j" by auto
      then show "has (?p AND NOT ?t) x \<longleftrightarrow> has ?p x" unfolding x by (rule has_clear)
    qed
    show ?thesis
    proof (cases blocks)
      case Nil
      then have "ref_last sbr = 0"
        using Cons.prems(2,3) by (auto simp: block_bytes_def ref_pending_def ref_last_def)
      then have "getIntBE32 be ref_getRaw sbr = Inl InvalidArgument" by (simp add: getIntBE32_def ref_getRaw_def)
      with True Nil show ?thesis by (simp add: Cons.prems(4) handed_def ebind_def del: push_bit_of_1)
    next
      case (Cons b bs)
      let ?given = "if b = [] then block_bytes bs else b"
      let ?s = "(dev (ucast ?t) ?given s)\<lparr>localProvideTypes := ?p AND NOT ?t\<rparr>"
      have pending: "ref_pending sbr = be_bytes 4 (of_nat (length b) :: u32) @ b @ block_bytes bs"
        using Cons.prems(2) Cons by (simp add: block_bytes_simps)
      have "length b < 2 ^ 32" using Cons.prems(1) Cons by simp
      from take_block [OF pending this Cons.prems(3), of be] obtain sbr1 sbr2 where
        1: "getIntBE32 be ref_getRaw sbr = Inr (of_nat (length b), sbr1)"
          "ref_read (unat (of_nat (length b) :: u32)) sbr1 = Inr (?given, sbr2)"
        and 2: "ref_pending sbr2 = (if b = [] then [] else block_bytes bs)" "ref_it2 sbr2 \<le> length (ref_mem sbr2)" by metis
      have "provided_types v be ?ts sbr2 ?s = (case dealt (filter (has (localProvideTypes ?s)) ?ts) (if b = [] then [] else bs) of
          (ps, ok) \<Rightarrow> (if ok then Inr () else Inl InvalidArgument, handed dev ps ?s))"
        by (rule Cons.IH) (use Cons.prems Cons 2 in \<open>auto simp: block_bytes_simps split: if_splits\<close>)
      then have rest: "provided_types v be ?ts sbr2 ?s = (case dealt (filter (has ?p) ?ts) (if b = [] then [] else bs) of
          (ps, ok) \<Rightarrow> (if ok then Inr () else Inl InvalidArgument, handed dev ps ?s))"
        using same by simp
      have "provided_types v be types sbr s = provided_types v be ?ts sbr2 ?s"
        using asked 1 by (simp add: Cons.prems(4) dev assms(7) ebind_Inr del: push_bit_of_1)
      with rest asked show ?thesis
        by (auto simp: Cons Cons.prems(4) dealt_none handed_def assms(7) Let_def split: prod.split simp del: push_bit_of_1)
    qed
  next
    case False
    with Cons.prems Cons.IH [of blocks sbr ?ts s] show ?thesis by simp
  qed
qed

text \<open>A message with one operation flag goes to the handler of that operation.\<close>

lemma popcount_bits: "pop_count (w :: u32) = card {i. i < 32 \<and> bit w i}"
  by (simp add: pop_count_def flip: distinct_card)

lemma popcount_one: "i < 32 \<Longrightarrow> pop_count (push_bit i 1 :: u32) = 1"
proof -
  assume "i < 32"
  then have "{j. j < 32 \<and> bit (push_bit i 1 :: u32) j} = {i}" by (auto simp: bit_simps)
  then show ?thesis by (simp add: popcount_bits)
qed

lemma recv_op_message:
  fixes s :: "'a extclip_scheme" and flags :: u32 and rest :: bytes
  assumes "\<not> has flags OpCaps" and "flags AND (OpRequest OR OpPeek OR OpNotify OR OpProvide) = op"
  defines "sb \<equiv> (streamBuf_of (be_bytes 4 flags @ rest))\<lparr>buf_it := 4\<rparr>"
  shows "op = OpRequest \<Longrightarrow> recvExtClipboardCapsEvent v z be (be_bytes 4 flags @ rest) s = recvExtClipboardRequest v z be flags s"
    and "op = OpPeek \<Longrightarrow> recvExtClipboardCapsEvent v z be (be_bytes 4 flags @ rest) s = recvExtClipboardPeek v be s"
    and "op = OpNotify \<Longrightarrow> recvExtClipboardCapsEvent v z be (be_bytes 4 flags @ rest) s = recvExtClipboardNotify v flags s"
    and "op = OpProvide \<Longrightarrow> recvExtClipboardCapsEvent v z be (be_bytes 4 flags @ rest) s = recvExtClipboardProvide v z be sb s"
proof -
  have "readIntBE32 be (streamBuf_of (be_bytes 4 flags @ rest)) = (ereturn (flags, sb) :: ('a extclip_scheme, _) exc)"
    by (subst readIntBE32_Inr) (simp_all add: sb_def buf_last_def streamBuf_of_def buf_pending_def)
  moreover have "buf_last (streamBuf_of (be_bytes 4 flags @ rest)) = length rest + 4"
    by (simp add: buf_last_def streamBuf_of_def)
  moreover have "pop_count op = 1"
    if "op = OpRequest \<or> op = OpPeek \<or> op = OpNotify \<or> op = OpProvide"
    using that popcount_one [of 25] popcount_one [of 26] popcount_one [of 27] popcount_one [of 28]
    by (auto simp: clip_ops)
  moreover have "OpRequest \<noteq> OpPeek" "OpRequest \<noteq> OpNotify" "OpRequest \<noteq> OpProvide"
    "OpPeek \<noteq> OpNotify" "OpPeek \<noteq> OpProvide" "OpNotify \<noteq> OpProvide"
    by (simp_all add: clip_ops)
  ultimately show
    "op = OpRequest \<Longrightarrow> recvExtClipboardCapsEvent v z be (be_bytes 4 flags @ rest) s = recvExtClipboardRequest v z be flags s"
    "op = OpPeek \<Longrightarrow> recvExtClipboardCapsEvent v z be (be_bytes 4 flags @ rest) s = recvExtClipboardPeek v be s"
    "op = OpNotify \<Longrightarrow> recvExtClipboardCapsEvent v z be (be_bytes 4 flags @ rest) s = recvExtClipboardNotify v flags s"
    "op = OpProvide \<Longrightarrow> recvExtClipboardCapsEvent v z be (be_bytes 4 flags @ rest) s = recvExtClipboardProvide v z be sb s"
    using assms(1,2) by (simp_all add: recvExtClipboardCapsEvent_def Let_def)
qed

lemma recvProvide_dealt:
  fixes s :: "'a extclip_scheme"
  assumes "has (localExtClipboardFlags s) OpProvide"
    and "buf_pending sb = be_bytes 4 (of_nat (length packed) :: u32) @ packed" and "packed \<noteq> []" and "length packed < 2 ^ 32"
    and "zlib_uncompress z packed = Inr (block_bytes blocks)" and "\<And>b. b \<in> set blocks \<Longrightarrow> length b < 2 ^ 32"
    and dev: "\<And>t bs s. extClipboardRemoteDataEvent v t bs s = (Inr (), dev t bs s)"
    and "\<And>t bs s. localProvideTypes (dev t bs s) = localProvideTypes s"
  shows "recvExtClipboardProvide v z be sb s = (case dealt (types_of (localProvideTypes s)) blocks of
     (ps, ok) \<Rightarrow> (if ok then Inr () else Inl InvalidArgument, handed dev ps s))"
proof -
  have len: "unat (of_nat (length packed) :: u32) = length packed"
    using assms(4) by (simp only: unsigned_of_nat) (simp add: take_bit_nat_eq_self)
  with assms(3) have ne: "(of_nat (length packed) :: u32) \<noteq> 0" by (metis length_0_conv unsigned_0)
  have "length (buf_pending sb) = 4 + length packed" by (simp only: assms(2)) simp
  then have last: "buf_last sb = 4 + length packed" by simp
  define sb' where "sb' = sb\<lparr>buf_it := buf_it sb + 4\<rparr>"
  have sb': "buf_last sb' = length packed" "drop (buf_it sb') (buf_vec sb') = packed"
    using last arg_cong [OF assms(2), of "drop 4"]
    by (simp_all add: sb'_def buf_last_def buf_pending_def add.commute)
  have "readIntBE32 be sb = (ereturn (of_nat (length packed), sb') :: ('a extclip_scheme, _) exc)"
    by (subst readIntBE32_Inr) (simp_all add: last assms(2) sb'_def)
  moreover have "\<exists>sb''. buf_read (length packed) sb' = Inr (packed, sb'')"
    using sb' assms(3) by (auto simp: buf_read_def read_mem_def buf_last_def Let_def)
  moreover have "provided_types v be (map (\<lambda>i. push_bit i (1 :: u32)) [0..<32])
      (streamBufRef (Some (block_bytes blocks)) (length (block_bytes blocks))) s =
      (case dealt (types_of (localProvideTypes s)) blocks of
         (ps, ok) \<Rightarrow> (if ok then Inr () else Inl InvalidArgument, handed dev ps s))"
    unfolding types_of_def
    by (rule provided_types_dealt [where js = "[0..<32]"]) (use assms in \<open>auto simp: streamBufRef_def ref_pending_def ref_last_def\<close>)
  ultimately show ?thesis
    using assms(1,3,5) len ne by (auto simp: recvExtClipboardProvide_def zl_inflate_def simp del: push_bit_of_1)
qed


section \<open>The interface to the derived class\<close>

text \<open>
  What the virtual methods of a derived class keep, the protocol keeps (\<open>clip_keeps\<close>); methods that
  leave the members of the extended clipboard alone (\<open>clip_methods\<close>) are an instance.
\<close>

definition same_clip :: "'a extclip_scheme \<Rightarrow> 'a extclip_scheme \<Rightarrow> bool" where
  "same_clip s t \<longleftrightarrow> extclip.truncate t = extclip.truncate s"

definition provide_bounded :: "'a extclip_scheme \<Rightarrow> bool" where
  "provide_bounded s \<longleftrightarrow> localProvideTypes s AND 0xFFFF = localProvideTypes s"

lemma same_clip_simps:
  "same_clip s t \<Longrightarrow> localProvideTypes t = localProvideTypes s"
  "same_clip s t \<Longrightarrow> localExtClipboardFlags t = localExtClipboardFlags s"
  "same_clip s t \<Longrightarrow> remoteExtClipboardFlags t = remoteExtClipboardFlags s"
  by (simp_all add: same_clip_def extclip.truncate_def)

lemma provide_bounded_and: "p AND 0xFFFF = p \<Longrightarrow> (p AND q) AND 0xFFFF = p AND (q :: u32)"
  by (metis and.assoc and.commute)

lemma provide_bounded_or:
  "p AND 0xFFFF = p \<Longrightarrow> (p OR (q AND ucast (types :: u16))) AND 0xFFFF = p OR (q AND ucast types :: u32)"
proof -
  assume "p AND 0xFFFF = p"
  moreover have "(ucast types :: u32) AND 0xFFFF = ucast types"
  proof -
    have "(0xFFFF :: u32) = mask 16" by (simp add: mask_eq_exp_minus_1)
    then show ?thesis unfolding \<open>0xFFFF = mask 16\<close> by (intro bit_word_eqI) (auto simp: bit_simps dest: bit_imp_le_length)
  qed
  ultimately show ?thesis
    by (metis (no_types) and.assoc bit.conj_disj_distrib2)
qed

locale clip_keeps =
  fixes v :: "'a extclip_scheme clip_virtuals" and P :: "'a extclip_scheme \<Rightarrow> bool"
  assumes methods_keep: "keeps P (extClipboardLocalData v t)" "keeps P (extClipboardRemoteTypesEvent v t)"
    "keeps P (extClipboardRemoteDataEvent v t bs)" "keeps P (extClipboardSendEvent v bs)"
begin

lemma provide_blocks_keep: "keeps P (provide_blocks v be types ts sb)"
  by (induction ts arbitrary: sb) (auto intro!: keeps_intros methods_keep)

lemma flags_keep: "keeps P (send_flags v be flags)"
  unfolding send_flags_def by (intro keeps_intros methods_keep)

lemma sends_keep:
  "keeps P (sendExtClipboardCapsEvent v be)" "keeps P (sendExtClipboardPeek v be)"
  "keeps P (sendExtClipboardNotify v be types)" "keeps P (sendExtClipboardProvide v z be types)"
proof -
  show "keeps P (sendExtClipboardPeek v be)" "keeps P (sendExtClipboardProvide v z be types)"
    unfolding sendExtClipboardPeek_def sendExtClipboardProvide_def
    by (intro keeps_intros methods_keep provide_blocks_keep flags_keep)+
  show "keeps P (sendExtClipboardCapsEvent v be)"
    by (rule keepsI) (auto simp: sendCaps_message intro: keeps_app methods_keep)
  show "keeps P (sendExtClipboardNotify v be types)"
    by (rule keepsI) (auto simp: sendExtClipboardNotify_def Let_def intro: keeps_app flags_keep)
qed

lemma request_keep:
  assumes "\<And>p. keeps P (emodify (\<lambda>s. s\<lparr>localProvideTypes := localProvideTypes s OR (p AND ucast types)\<rparr>))"
  shows "keeps P (sendExtClipboardRequest v be types)"
proof (rule keepsI)
  fix s assume s: "P s"
  have "keeps P (eseq (send_flags v be flags)
      (emodify (\<lambda>s. s\<lparr>localProvideTypes := localProvideTypes s OR (p AND ucast types)\<rparr>)))" for p flags
    by (intro keeps_bind flags_keep assms)
  from keeps_app [OF this s] s show "P (snd (sendExtClipboardRequest v be types s))"
    by (simp add: sendExtClipboardRequest_def Let_def)
qed

lemma provided_types_keep:
  assumes "\<And>s t. P s \<Longrightarrow> P (s\<lparr>localProvideTypes := localProvideTypes s AND NOT t\<rparr>)"
  shows "keeps P (provided_types v be ts sbr)"
proof (induction ts arbitrary: sbr)
  case Nil
  then show ?case by (simp add: keeps_intros)
next
  case (Cons t ts)
  have "keeps P (emodify (\<lambda>s. s\<lparr>localProvideTypes := localProvideTypes s AND NOT t\<rparr>))"
    by (rule keeps_modify) (rule assms)
  then show ?case
    unfolding provided_types.simps split_beta by (intro keeps_intros methods_keep Cons.IH)
qed

text \<open>What a received message cannot change: anything but the remote side and the requests.\<close>

lemma recv_keep:
  assumes clear: "\<And>s t. P s \<Longrightarrow> P (s\<lparr>localProvideTypes := localProvideTypes s AND NOT t\<rparr>)"
    and remote: "\<And>s flags sizes. P s \<Longrightarrow> P (accept_caps flags sizes s)"
  shows "keeps P (recvExtClipboardCapsEvent v z be buf)"
proof (rule keepsI)
  fix s assume P: "P s"
  have provide: "keeps P (recvExtClipboardProvide v z be sb)" for sb
  proof (rule keepsI)
    fix s assume "P s"
    have "keeps P (ebind (readIntBE32 be sb) (\<lambda>(len, sb).
        if len \<noteq> 0 then
          ebind (elift (buf_read (unat len) sb)) (\<lambda>(raw, sb).
          ebind (elift (zl_inflate z raw)) (\<lambda>buf.
          provided_types v be (map (\<lambda>i. push_bit i 1) [0..<32]) (streamBufRef (Some buf) (length buf))))
        else ereturn ()))"
      unfolding readIntBE32_def split_beta by (intro keeps_intros provided_types_keep clear)
    with \<open>P s\<close> show "P (snd (recvExtClipboardProvide v z be sb s))"
      by (simp add: recvExtClipboardProvide_def keeps_app)
  qed
  have "keeps P (recvExtClipboardRequest v z be flags)" "keeps P (recvExtClipboardPeek v be)"
    "keeps P (recvExtClipboardNotify v flags)" for flags
    by (rule keepsI, simp add: recvExtClipboardRequest_def recvExtClipboardPeek_def
        recvExtClipboardNotify_def keeps_app [OF sends_keep(4)] keeps_app [OF sends_keep(3)]
        keeps_app [OF methods_keep(2)])+
  note ops = this provide
  show "P (snd (recvExtClipboardCapsEvent v z be buf s))"
  proof (cases "has (be_val (take 4 buf)) OpCaps")
    case True
    with P show ?thesis by (simp add: recvCaps_total Let_def remote)
  next
    case False
    show ?thesis
    proof (cases "length buf < 4")
      case True
      with P show ?thesis by (simp add: recvExtClipboardCapsEvent_def buf_last_def streamBuf_of_def Let_def)
    next
      case short: False
      then have "readIntBE32 be (streamBuf_of buf) = (ereturn (be_val (take 4 buf), (streamBuf_of buf)\<lparr>buf_it := 4\<rparr>) :: ('a extclip_scheme, _) exc)"
        by (subst readIntBE32_Inr) (simp_all add: buf_last_def streamBuf_of_def buf_pending_def)
      with False P show ?thesis
        by (simp add: recvExtClipboardCapsEvent_def Let_def ops [THEN keeps_app])
    qed
  qed
qed

end

locale clip_methods =
  fixes v :: "'a extclip_scheme clip_virtuals"
  assumes methods_clip: "steps same_clip (extClipboardLocalData v t)"
    "steps same_clip (extClipboardRemoteTypesEvent v t)"
    "steps same_clip (extClipboardRemoteDataEvent v t bs)"
    "steps same_clip (extClipboardSendEvent v bs)"
begin

lemma keeps_clip: "(\<And>s t. same_clip s t \<Longrightarrow> P s \<Longrightarrow> P t) \<Longrightarrow> clip_keeps v P"
  by unfold_locales (rule keeps_of_steps, rule methods_clip, blast)+

lemma request_bounded: "keeps provide_bounded (sendExtClipboardRequest v be types)"
proof (rule clip_keeps.request_keep)
  show "clip_keeps v provide_bounded"
    by (rule keeps_clip) (simp add: provide_bounded_def same_clip_simps)
  show "keeps provide_bounded (emodify (\<lambda>s. s\<lparr>localProvideTypes := localProvideTypes s OR (p AND ucast types)\<rparr>))" for p
    by (rule keeps_modify) (simp add: provide_bounded_def provide_bounded_or)
qed

lemma recv_bounded: "keeps provide_bounded (recvExtClipboardCapsEvent v z be buf)"
proof (rule clip_keeps.recv_keep)
  show "clip_keeps v provide_bounded"
    by (rule keeps_clip) (simp add: provide_bounded_def same_clip_simps)
qed (auto simp: provide_bounded_def accept_caps_def intro: provide_bounded_and)

lemma recv_local_caps: "keeps (\<lambda>s. localExtClipboardFlags s = flags) (recvExtClipboardCapsEvent v z be buf)"
proof (rule clip_keeps.recv_keep)
  show "clip_keeps v (\<lambda>s. localExtClipboardFlags s = flags)"
    by (rule keeps_clip) (simp add: same_clip_simps)
qed (auto simp: accept_caps_def)

end

section \<open>Properties\<close>

text \<open>
  C30. The capabilities that one side sends, the other side takes over: the flags that the sender
  allows and the maximal size of every type among them, whatever its state was before.
\<close>

theorem caps_exchange:
  "sendExtClipboardCapsEvent v be peer = extClipboardSendEvent v (caps_message peer) peer \<and>
   recvExtClipboardCapsEvent w z be' (caps_message peer) s = (Inr (), know_remote peer s)"
  by (simp add: sendCaps_message [of v be peer] recv_caps_message)

text \<open>
  C31. Any message with the capabilities flag is answered in one of two ways: with an array too
  short for its types it raises \<open>rfb_error\<close> and changes nothing, otherwise it is accepted, and
  no read runs past its end.
\<close>

theorem caps_checked:
  assumes "has (be_val (take 4 buf)) OpCaps"
  shows "recvExtClipboardCapsEvent v z be buf s =
     (let flags = be_val (take 4 buf) in
      if length buf < 4 + 4 * pop_count (flags AND 0xFFFF) then (Inl RfbError, s)
      else (Inr (), accept_caps flags (drop 4 buf) s))"
  using assms by (rule recvCaps_total)

text \<open>A class that keeps what it is handed, for the witnesses.\<close>

definition keep_virtuals :: "(u16 \<times> bytes) list extclip_ext clip_virtuals" where
  "keep_virtuals =
     \<lparr>extClipboardLocalTypes = (\<lambda>_. 1), extClipboardLocalData = (\<lambda>_. ereturn [65]),
      extClipboardRemoteTypesEvent = (\<lambda>_. ereturn ()),
      extClipboardRemoteDataEvent = (\<lambda>t bs. emodify (extclip.more_update (\<lambda>d. d @ [(t, bs)]))),
      extClipboardSendEvent = (\<lambda>_. ereturn ())\<rparr>"

definition keep_state :: "u32 \<Rightarrow> (u16 \<times> bytes) list extclip_ext" where
  "keep_state types = extclip.extend
     (extclip_init\<lparr>localExtClipboardFlags := OpProvide, localProvideTypes := types\<rparr>) []"

definition stored_zlib :: zlib where
  "stored_zlib = \<lparr>zlib_compress = Inr, zlib_uncompress = Inr\<rparr>"

theorem caps_checked_witness:
  "recvExtClipboardCapsEvent keep_virtuals stored_zlib False [1, 0, 0, 3, 0, 0, 0, 9] (keep_state 0) =
     (Inl RfbError, keep_state 0)"
  by (subst caps_checked; code_simp)

text \<open>
  The data message that one side sends for a request carries no word of flags, so the other side
  reads the length of its data as the flags: whatever state it is in, it ignores the message.
\<close>

theorem provided_data_lost:
  assumes "provide_blocks v be types [TypeText, TypeRtf, TypeHtml, TypeDib, TypeFiles] streamBuf s = (Inr sb, t)"
    and "zl_deflate z (buf_rawbuf sb) = Inr packed" and "length packed < 2 ^ 24"
  shows "sendExtClipboardProvide v z be types s = extClipboardSendEvent v (provide_message packed) t \<and>
     recvExtClipboardCapsEvent w z' be' (provide_message packed) r = (Inr (), r)"
  using assms by (auto intro: sendProvide_message recv_provide_message)

theorem provided_data_lost_witness:
  "sendExtClipboardProvide keep_virtuals stored_zlib False 1 (keep_state 0) =
     extClipboardSendEvent keep_virtuals (provide_message [0, 0, 0, 1, 65]) (keep_state 0) \<and>
   recvExtClipboardCapsEvent keep_virtuals stored_zlib False (provide_message [0, 0, 0, 1, 65]) (keep_state 1) =
     (Inr (), keep_state 1)"
proof -
  have *: "provide_blocks keep_virtuals False 1 [TypeText, TypeRtf, TypeHtml, TypeDib, TypeFiles] streamBuf
      (keep_state 0) = (Inr \<lparr>buf_vec = [0, 0, 0, 1, 65], buf_it = 0\<rparr>, keep_state 0)"
    by code_simp
  have "zl_deflate stored_zlib (buf_rawbuf \<lparr>buf_vec = [0, 0, 0, 1, 65], buf_it = 0\<rparr>) = Inr [0, 0, 0, 1, 65]"
    by code_simp
  from provided_data_lost [OF * this] show ?thesis by simp
qed

text \<open>
  C29. What becomes of a data message that holds a block for each type of its flags, whatever these types are: the first requested
  type is handed the first block, the second one the second, and a request is settled when it is served. The types of the
  flags are not looked at. So every requested type gets its own data when they are exactly the requested ones and no block is
  empty; otherwise a type gets the data of another one, an empty block swallows the blocks after it, blocks that are left
  over are dropped, and a request for which none is left makes the handler throw after the others were served.
\<close>

theorem provided_data_handed:
  fixes s :: "'a extclip_scheme"
  assumes "has (localExtClipboardFlags s) OpProvide"
    and "flags AND (OpRequest OR OpPeek OR OpNotify OR OpProvide) = OpProvide" and "\<not> has flags OpCaps"
    and "packed \<noteq> []" and "length packed < 2 ^ 32"
    and "zlib_uncompress z packed = Inr (block_bytes (map data (types_of (flags AND 0xFFFF))))"
    and "\<And>t. length (data t) < 2 ^ 32"
    and "\<And>t bs s. extClipboardRemoteDataEvent v t bs s = (Inr (), dev t bs s)"
    and "\<And>t bs s. localProvideTypes (dev t bs s) = localProvideTypes s"
  shows "\<exists>ps ok. dealt (types_of (localProvideTypes s)) (map data (types_of (flags AND 0xFFFF))) = (ps, ok) \<and>
     recvExtClipboardCapsEvent v z be (be_bytes 4 flags @ provide_message packed) s =
       (if ok then Inr () else Inl InvalidArgument, handed dev ps s) \<and>
     (localProvideTypes s = flags AND 0xFFFF \<and> (\<forall>t. data t \<noteq> []) \<longrightarrow>
       ok \<and> ps = map (\<lambda>t. (t, data t)) (types_of (localProvideTypes s)))"
proof -
  let ?sb = "(streamBuf_of (be_bytes 4 flags @ provide_message packed))\<lparr>buf_it := 4\<rparr>"
  obtain ps ok where d: "dealt (types_of (localProvideTypes s)) (map data (types_of (flags AND 0xFFFF))) = (ps, ok)"
    by (cases "dealt (types_of (localProvideTypes s)) (map data (types_of (flags AND 0xFFFF)))")
  have "recvExtClipboardCapsEvent v z be (be_bytes 4 flags @ provide_message packed) s =
      recvExtClipboardProvide v z be ?sb s"
    by (rule recv_op_message(4)) (use assms in auto)
  also have "\<dots> = (case dealt (types_of (localProvideTypes s)) (map data (types_of (flags AND 0xFFFF))) of
      (ps, ok) \<Rightarrow> (if ok then Inr () else Inl InvalidArgument, handed dev ps s))"
    by (rule recvProvide_dealt)
      (use assms in \<open>auto simp: provide_message_def buf_pending_def streamBuf_of_def\<close>)
  finally have run: "recvExtClipboardCapsEvent v z be (be_bytes 4 flags @ provide_message packed) s =
      (if ok then Inr () else Inl InvalidArgument, handed dev ps s)" by (simp add: d)
  have "ok \<and> ps = map (\<lambda>t. (t, data t)) (types_of (localProvideTypes s))"
    if "localProvideTypes s = flags AND 0xFFFF \<and> (\<forall>t. data t \<noteq> [])"
    using dealt_own [of data "types_of (localProvideTypes s)"] that d by (simp add: list_all_iff)
  with d run show ?thesis by blast
qed

text \<open>The text and the HTML were requested, the peer sends the text, the RTF and the HTML: the RTF is taken for the HTML.\<close>

definition typed_data :: "u32 \<Rightarrow> bytes" where
  "typed_data t = (if t = TypeText then [65] else if t = TypeRtf then [66] else [67])"

theorem provided_data_handed_witness:
  "recvExtClipboardCapsEvent keep_virtuals stored_zlib False
     (be_bytes 4 (OpProvide OR TypeText OR TypeRtf OR TypeHtml) @
      provide_message [0, 0, 0, 1, 65, 0, 0, 0, 1, 66, 0, 0, 0, 1, 67]) (keep_state (TypeText OR TypeHtml)) =
   (Inr (), extclip.extend (extclip_init\<lparr>localExtClipboardFlags := OpProvide\<rparr>) [(ucast TypeText, [65]), (ucast TypeHtml, [66])])"
proof -
  let ?flags = "OpProvide OR TypeText OR TypeRtf OR TypeHtml"
  let ?packed = "[0, 0, 0, 1, 65, 0, 0, 0, 1, 66, 0, 0, 0, 1, 67] :: bytes"
  let ?s = "keep_state (TypeText OR TypeHtml)"
  let ?dev = "\<lambda>t bs. extclip.more_update (\<lambda>d. d @ [(t, bs)])"
  have "\<exists>ps ok. dealt (types_of (localProvideTypes ?s)) (map typed_data (types_of (?flags AND 0xFFFF))) = (ps, ok) \<and>
     recvExtClipboardCapsEvent keep_virtuals stored_zlib False (be_bytes 4 ?flags @ provide_message ?packed) ?s =
       (if ok then Inr () else Inl InvalidArgument, handed ?dev ps ?s) \<and>
     (localProvideTypes ?s = ?flags AND 0xFFFF \<and> (\<forall>t. typed_data t \<noteq> []) \<longrightarrow>
       ok \<and> ps = map (\<lambda>t. (t, typed_data t)) (types_of (localProvideTypes ?s)))"
  proof (rule provided_data_handed)
    show "has (localExtClipboardFlags ?s) OpProvide" "\<not> has ?flags OpCaps"
      "?flags AND (OpRequest OR OpPeek OR OpNotify OR OpProvide) = OpProvide"
      "zlib_uncompress stored_zlib ?packed = Inr (block_bytes (map typed_data (types_of (?flags AND 0xFFFF))))"
      by code_simp+
  qed (simp_all add: keep_virtuals_def fun_eq_iff typed_data_def)
  moreover have "dealt (types_of (localProvideTypes ?s)) (map typed_data (types_of (?flags AND 0xFFFF))) =
      ([(TypeText, [65]), (TypeHtml, [66])], True)" by code_simp
  moreover have "handed ?dev [(TypeText, [65]), (TypeHtml, [66])] ?s =
      extclip.extend (extclip_init\<lparr>localExtClipboardFlags := OpProvide\<rparr>) [(ucast TypeText, [65]), (ucast TypeHtml, [66])]"
    by code_simp
  ultimately show ?thesis by auto
qed

end
