(* ===== verification/Rfb_Stream.thy ===== *)
theory Rfb_Stream
  imports Ext_Clip Encodings Decodings
begin

text \<open>
  The state of \<^verbatim>\<open>RFB::ServerEncoder\<close> (\<^verbatim>\<open>src/src/librfb/server/librfb_server.h\<close>) and its stream interface:
  the receiving and sending methods of \<^verbatim>\<open>NetworkStream\<close> over the server's own \<open>recvRaw\<close> and
  \<open>sendRaw\<close>, which turn every exception of the socket into the end of the session.

  The socket is seen from the server: \<open>sv_input\<close> are the bytes the client sends until it closes the
  connection, \<open>sv_output\<close> the bytes it has been sent, \<open>sv_room\<close> how many more the socket takes before
  it fails (\<open>None\<close> when it never does). Waiting, logging and locks have no model.
\<close>

section \<open>State\<close>

record screeninfo = region +
  si_id :: u32
  si_flags :: u32

text \<open>
  A stream of zlib is what it has been fed since its creation, with its compression level; the
  output of the library for the next block is a parameter of the encoders.
\<close>

type_synonym zstream = "int \<times> bytes list"

datatype encoder_kind =
    EncodingRaw
  | EncodingRRE bool
  | EncodingHexTile
  | EncodingTRLE bool zstream
  | EncodingZlib "zstream encodingzlib"
  | EncodingLZ4
  | EncodingTJPG
  | EncodingQOI bool
  | EncodingFFmpeg int

record encoder =
  enc_kind :: encoder_kind
  enc_threads :: int

text \<open>What the virtual event methods of the server are called with.\<close>

datatype server_event =
    RecvPixelFormat pixelformat bool
  | RecvSetEncodings "int list"
  | RecvKey bool u32 u16
  | RecvPointer u8 u16 u16
  | RecvCutText bytes
  | RecvFBUpdate bool region
  | RecvSetContinuousUpdates bool region
  | RecvDesktopSize "screeninfo list"
  | RecvLtsm u8 bytes
  | SendFBUpdate region
  | EncoderInit
  | EncodingSelected
  | ChannelsShutdown

record server = extclip +
  rfbMessages :: bool
  sv_input :: bytes
  sv_junk :: bytes
  sv_output :: bytes
  sv_room :: "nat option"
  sv_log :: "server_event list"
  clientEncodings :: "int list"
  cursorSended :: "u32 list"
  sv_encoder :: "encoder option"
  clientPf :: pixelformat
  colourMap :: "color list"
  fbUpdateProcessing :: bool
  clientLtsmSupported :: bool
  clientLtsmKeyboard :: bool
  clientTrueColor :: bool
  clientBigEndian :: bool
  continueUpdatesProcessed :: bool
  clientAuthName :: string
  clientAuthDomain :: string

text \<open>\<open>sv_log\<close> records the calls of event methods, in their order.\<close>

definition note_event :: "server_event \<Rightarrow> ('a server_scheme, unit) exc" where
  "note_event e = emodify (\<lambda>s. s\<lparr>sv_log := sv_log s @ [e]\<rparr>)"

definition rfbMessagesShutdown :: "('a server_scheme, unit) exc" where
  "rfbMessagesShutdown = eseq (note_event ChannelsShutdown) (emodify (\<lambda>s. s\<lparr>rfbMessages := False\<rparr>))"

definition rfbMessagesRunning :: "'a server_scheme \<Rightarrow> bool" where
  "rfbMessagesRunning s = rfbMessages s"

section \<open>Receiving\<close>

text \<open>
  \<open>recvRaw\<close> fills a buffer that the caller provides: what is in it when the socket fails stays, behind
  the bytes that had arrived. The buffers of vectors and strings are zeroed, those of integers are
  not: they hold the next bytes of \<open>sv_junk\<close>.
\<close>

definition zeroed :: "'a server_scheme \<Rightarrow> nat \<Rightarrow> bytes \<times> 'a server_scheme" where
  "zeroed s n = (replicate n 0, s)"

definition uninitialized :: "'a server_scheme \<Rightarrow> nat \<Rightarrow> bytes \<times> 'a server_scheme" where
  "uninitialized s n = (take n (sv_junk s @ replicate n 0), s\<lparr>sv_junk := drop n (sv_junk s)\<rparr>)"

definition server_recvRaw ::
    "('a server_scheme \<Rightarrow> nat \<Rightarrow> bytes \<times> 'a server_scheme) \<Rightarrow> 'a server_scheme get_raw" where
  "server_recvRaw buffer s len =
     (if rfbMessages s then
        if len \<le> length (sv_input s)
        then Inr (take len (sv_input s), s\<lparr>sv_input := drop len (sv_input s)\<rparr>)
        else let got = sv_input s; (old, s) = buffer s len
             in Inr (got @ drop (length got) old, snd (rfbMessagesShutdown (s\<lparr>sv_input := []\<rparr>)))
      else Inr (buffer s len))"

definition rd8 :: "('a server_scheme, u8) exc" where
  "rd8 = ereader (getInt8 (server_recvRaw uninitialized))"

definition rd16 :: "bool \<Rightarrow> ('a server_scheme, u16) exc" where
  "rd16 be = ereader (getIntBE16 be (server_recvRaw uninitialized))"

definition rd32 :: "bool \<Rightarrow> ('a server_scheme, u32) exc" where
  "rd32 be = ereader (getIntBE32 be (server_recvRaw uninitialized))"

definition rdData :: "nat \<Rightarrow> ('a server_scheme, bytes) exc" where
  "rdData len = ereader (recvData (server_recvRaw zeroed) len)"

primrec rdSkip :: "nat \<Rightarrow> ('a server_scheme, unit) exc" where
  "rdSkip 0 = ereturn ()"
| "rdSkip (Suc n) = ebind rd8 (\<lambda>_. rdSkip n)"

section \<open>Sending\<close>

definition server_sendRaw :: "'a server_scheme put_raw" where
  "server_sendRaw s bs =
     (if rfbMessages s then
        case sv_room s of
          None \<Rightarrow> Inr (s\<lparr>sv_output := sv_output s @ bs\<rparr>)
        | Some room \<Rightarrow>
            if length bs \<le> room
            then Inr (s\<lparr>sv_output := sv_output s @ bs, sv_room := Some (room - length bs)\<rparr>)
            else Inr (snd (rfbMessagesShutdown
                   (s\<lparr>sv_output := sv_output s @ take room bs, sv_room := Some 0\<rparr>)))
      else Inr s)"

definition wr8 :: "u8 \<Rightarrow> ('a server_scheme, unit) exc" where
  "wr8 v = ewriter (putInt8 server_sendRaw v)"

definition wr16 :: "bool \<Rightarrow> u16 \<Rightarrow> ('a server_scheme, unit) exc" where
  "wr16 be v = ewriter (putIntBE16 be server_sendRaw v)"

definition wr32 :: "bool \<Rightarrow> u32 \<Rightarrow> ('a server_scheme, unit) exc" where
  "wr32 be v = ewriter (putIntBE32 be server_sendRaw v)"

definition wrData :: "bytes \<Rightarrow> ('a server_scheme, unit) exc" where
  "wrData bs = ewriter (\<lambda>s. server_sendRaw s bs)"

primrec wrZero :: "nat \<Rightarrow> ('a server_scheme, unit) exc" where
  "wrZero 0 = ereturn ()"
| "wrZero (Suc n) = eseq (wr8 0) (wrZero n)"

section \<open>Reading from a running session\<close>

text \<open>
  \<open>takes m bs v\<close>: while the session runs and the input starts with \<open>bs\<close>, the method \<open>m\<close> returns \<open>v\<close>
  and consumes just \<open>bs\<close>.
\<close>

definition takes :: "('a server_scheme, 'b) exc \<Rightarrow> bytes \<Rightarrow> 'b \<Rightarrow> bool" where
  "takes m bs v \<longleftrightarrow> (\<forall>s rest. rfbMessages s \<longrightarrow> sv_input s = bs @ rest \<longrightarrow> m s = (Inr v, s\<lparr>sv_input := rest\<rparr>))"

lemma takesI:
  "(\<And>s rest. rfbMessages s \<Longrightarrow> sv_input s = bs @ rest \<Longrightarrow> m s = (Inr v, s\<lparr>sv_input := rest\<rparr>)) \<Longrightarrow> takes m bs v"
  by (simp add: takes_def)

lemma takesD: "takes m bs v \<Longrightarrow> rfbMessages s \<Longrightarrow> sv_input s = bs @ rest \<Longrightarrow> m s = (Inr v, s\<lparr>sv_input := rest\<rparr>)"
  by (simp add: takes_def)

lemma takes_bind: "takes m bs v \<Longrightarrow> takes (f v) cs w \<Longrightarrow> takes (ebind m f) (bs @ cs) w"
  by (rule takesI) (simp add: ebind_Inr takesD)

lemma takes_step:
  "takes m bs v \<Longrightarrow> rfbMessages s \<Longrightarrow> sv_input s = bs @ rest \<Longrightarrow> ebind m f s = f v (s\<lparr>sv_input := rest\<rparr>)"
  by (simp add: ebind_Inr takesD)

lemma takes_return: "takes (ereturn v) [] v" "takes (Pair (Inr v)) [] v"
  by (rule takesI; simp)+

lemma recvRaw_enough:
  "rfbMessages s \<Longrightarrow> sv_input s = bs @ rest \<Longrightarrow> n = length bs \<Longrightarrow>
   server_recvRaw buffer s n = Inr (bs, s\<lparr>sv_input := rest\<rparr>)"
  by (simp add: server_recvRaw_def)

lemma getInt_wire:
  "get s 1 = Inr ([a], t) \<Longrightarrow> getInt8 get s = Inr (a, t)"
  "get s 2 = Inr (be_bytes 2 b, t) \<Longrightarrow> getIntBE16 be get s = Inr (b, t)"
  "get s 4 = Inr (be_bytes 4 c, t) \<Longrightarrow> getIntBE32 be get s = Inr (c, t)"
  by (simp_all add: getInt8_def getIntBE16_def getIntBE32_def Let_def swap_native_val)
    (simp_all add: native_val_def)

lemma takes_ints: "takes rd8 [a] a" "takes (rd16 be) (be_bytes 2 b) b" "takes (rd32 be) (be_bytes 4 c) c"
proof -
  show "takes rd8 [a] a" unfolding rd8_def
    by (rule takesI) (simp add: ereader_def getInt_wire(1) [OF recvRaw_enough [where bs = "[a]"]])
  show "takes (rd16 be) (be_bytes 2 b) b" unfolding rd16_def
    by (rule takesI) (simp add: ereader_def getInt_wire(2) [OF recvRaw_enough [where bs = "be_bytes 2 b"]])
  show "takes (rd32 be) (be_bytes 4 c) c" unfolding rd32_def
    by (rule takesI) (simp add: ereader_def getInt_wire(3) [OF recvRaw_enough [where bs = "be_bytes 4 c"]])
qed

lemma takes_data: "n = length bs \<Longrightarrow> takes (rdData n) bs bs"
  unfolding rdData_def by (rule takesI) (auto simp: ereader_def recvData_def recvRaw_enough)

lemma takes_skip: "n = length bs \<Longrightarrow> takes (rdSkip n :: ('a server_scheme, unit) exc) bs ()"
proof (induction bs arbitrary: n)
  case Nil
  then show ?case by (simp add: takes_return)
next
  case (Cons b bs)
  then have "takes (ebind rd8 (\<lambda>_. rdSkip (length bs)) :: ('a server_scheme, unit) exc) ([b] @ bs) ()"
    by (intro takes_bind [OF takes_ints(1)]) auto
  with Cons.prems show ?case by simp
qed

section \<open>Sends as bytes\<close>

lemma wr_bytes [wire_simps]:
  "wr8 a = wrData [a]" "wr16 be b = wrData (be_bytes 2 b)" "wr32 be c = wrData (be_bytes 4 c)"
  by (simp_all add: fun_eq_iff wr8_def wr16_def wr32_def wrData_def ewriter_def put_wire)

lemma wrData_Inr: "\<exists>t. wrData bs s = (Inr (), t)"
  by (auto simp: wrData_def ewriter_def server_sendRaw_def split: option.splits)

lemma ebind_wrData: "ebind (wrData bs) f s = f () (snd (wrData bs s))"
  using wrData_Inr [of bs s] by (auto simp: ebind_def)

lemma wrData_append [wire_simps]: "eseq (wrData as) (wrData bs) = wrData (as @ bs)"
proof
  fix s
  show "eseq (wrData as) (wrData bs) s = wrData (as @ bs) s"
    unfolding ebind_wrData
    by (cases "sv_room s") (auto simp: wrData_def ewriter_def server_sendRaw_def rfbMessagesShutdown_def note_event_def)
qed

lemma wrData_seq [wire_simps]: "eseq (wrData as) (eseq (wrData bs) m) = eseq (wrData (as @ bs)) m"
  by (simp flip: wrData_append add: fun_eq_iff ebind_assoc)

lemma wrZero_bytes [wire_simps]:
  "(wrZero (Suc n) :: ('a server_scheme, unit) exc) = wrData (replicate (Suc n) 0)"
proof (induction n)
  case 0
  have "ebind (wrData [0]) (\<lambda>_. ereturn ()) s = wrData [0] s" for s :: "'a server_scheme"
    using wrData_Inr [of "[0]" s] by (auto simp: ebind_wrData)
  then show ?case by (simp add: wr_bytes fun_eq_iff)
next
  case (Suc n)
  then show ?case by (simp add: wire_simps)
qed

lemma wrData_running: "rfbMessages s \<Longrightarrow> sv_room s = None \<Longrightarrow> wrData bs s = (Inr (), s\<lparr>sv_output := sv_output s @ bs\<rparr>)"
  by (simp add: wrData_def ewriter_def server_sendRaw_def)

lemma wrData_stopped: "\<not> rfbMessages s \<Longrightarrow> wrData bs s = (Inr (), s)"
  by (simp add: wrData_def ewriter_def server_sendRaw_def)

section \<open>What every method of the server keeps\<close>

text \<open>
  Between two states of a session: bytes are consumed from the input in order, sent bytes and events
  are never taken back, a session that has been shut down stays so, and then it neither reads nor
  sends.
\<close>

definition session_step :: "'a server_scheme \<Rightarrow> 'a server_scheme \<Rightarrow> bool" where
  "session_step s t \<longleftrightarrow>
     (rfbMessages t \<longrightarrow> rfbMessages s) \<and>
     (\<exists>n. sv_input t = drop n (sv_input s)) \<and>
     (\<exists>bs. sv_output t = sv_output s @ bs) \<and>
     (\<exists>es. sv_log t = sv_log s @ es) \<and>
     (\<not> rfbMessages s \<longrightarrow> sv_input t = sv_input s \<and> sv_output t = sv_output s)"

lemma session_step_refl [simp]: "session_step s s"
  by (simp add: session_step_def) (metis append_Nil2 drop0)

lemma session_step_trans: "session_step s t \<Longrightarrow> session_step t u \<Longrightarrow> session_step s u"
  unfolding session_step_def by (metis append.assoc drop_drop)

named_theorems session_intros "methods whose states are a session"

abbreviation sessional :: "'a server_scheme \<Rightarrow> ('a server_scheme, 'b) exc \<Rightarrow> bool" where
  "sessional s0 m \<equiv> keeps (session_step s0) m"

text \<open>A change of any other member is a step of a session.\<close>

lemma session_update:
  assumes "\<And>s. rfbMessages (f s) = rfbMessages s" "\<And>s. sv_input (f s) = sv_input s"
    "\<And>s. sv_output (f s) = sv_output s" "\<And>s. sv_log (f s) = sv_log s"
  shows "sessional s0 (emodify f)"
  by (rule keeps_modify) (simp add: session_step_def assms)

lemma session_basic [session_intros]:
  "sessional s0 (note_event e)" "sessional s0 rfbMessagesShutdown"
proof -
  show event: "sessional s0 (note_event e)" for e
    unfolding note_event_def by (rule keeps_modify) (auto simp: session_step_def)
  have "sessional s0 (emodify (\<lambda>s. s\<lparr>rfbMessages := False\<rparr>))"
    by (rule keeps_modify) (simp add: session_step_def)
  with event show "sessional s0 rfbMessagesShutdown"
    unfolding rfbMessagesShutdown_def by (intro keeps_bind)
qed

lemma session_recvRaw:
  assumes "\<And>s n. rfbMessages (snd (buffer s n)) = rfbMessages s" "\<And>s n. sv_input (snd (buffer s n)) = sv_input s"
    "\<And>s n. sv_output (snd (buffer s n)) = sv_output s" "\<And>s n. sv_log (snd (buffer s n)) = sv_log s"
    and "server_recvRaw buffer s len = Inr (bs, t)"
  shows "session_step s t"
proof -
  have buf: "session_step s (snd (buffer s len))"
    by (simp add: session_step_def assms(1-4)) (metis drop0)
  show ?thesis
  proof (cases "rfbMessages s")
    case True
    show ?thesis
    proof (cases "len \<le> length (sv_input s)")
      case True
      with \<open>rfbMessages s\<close> assms(5) show ?thesis
        by (simp add: server_recvRaw_def) (auto simp: session_step_def)
    next
      case False
      obtain old u where b: "buffer s len = (old, u)" by (cases "buffer s len")
      have u: "rfbMessages u = rfbMessages s" "sv_output u = sv_output s" "sv_log u = sv_log s"
        using assms(1,3,4) [of s len] b by simp_all
      from False True assms(5) b show ?thesis
        by (auto simp: server_recvRaw_def Let_def session_step_def rfbMessagesShutdown_def note_event_def u
            intro: exI [of _ "length (sv_input s)"])
    qed
  next
    case False
    with assms(5) buf show ?thesis by (simp add: server_recvRaw_def)
  qed
qed

lemma session_rds [session_intros]:
  "sessional s0 rd8" "sessional s0 (rd16 be)" "sessional s0 (rd32 be)" "sessional s0 (rdData n)" "sessional s0 (rdSkip n)"
proof -
  have u: "session_step s t" if "server_recvRaw uninitialized s len = Inr (bs, t)" for s t :: "'a server_scheme" and len bs
    using that by (rule session_recvRaw [rotated -1]) (simp_all add: uninitialized_def)
  have z: "session_step s t" if "server_recvRaw zeroed s len = Inr (bs, t)" for s t :: "'a server_scheme" and len bs
    using that by (rule session_recvRaw [rotated -1]) (simp_all add: zeroed_def)
  show 8: "sessional s0 rd8" unfolding rd8_def
    by (rule keepsI) (auto simp: ereader_def getInt8_def rbind_def intro: session_step_trans u split: sum.split)
  show "sessional s0 (rd16 be)" unfolding rd16_def
    by (rule keepsI) (auto simp: ereader_def getIntBE16_def Let_def rbind_def intro: session_step_trans u split: sum.split)
  show "sessional s0 (rd32 be)" unfolding rd32_def
    by (rule keepsI) (auto simp: ereader_def getIntBE32_def Let_def rbind_def intro: session_step_trans u split: sum.split)
  show "sessional s0 (rdData n)" unfolding rdData_def
    by (rule keepsI) (auto simp: ereader_def recvData_def intro: session_step_trans z split: sum.split)
  show "sessional s0 (rdSkip n)"
    by (induction n) (auto intro!: keeps_intros 8)
qed

lemma session_wrs [session_intros]:
  "sessional s0 (wrData bs)" "sessional s0 (wr8 a)" "sessional s0 (wr16 be b)" "sessional s0 (wr32 be c)" "sessional s0 (wrZero n)"
proof -
  have "session_step s t" if "server_sendRaw s bs = Inr t" for s t :: "'a server_scheme" and bs
    using that
    by (auto simp: server_sendRaw_def session_step_def rfbMessagesShutdown_def note_event_def
        split: option.splits if_splits) (auto intro: exI [of _ 0])
  then show *: "sessional s0 (wrData bs)" for bs unfolding wrData_def
    by (intro keepsI) (auto simp: ewriter_def intro: session_step_trans split: sum.split)
  show "sessional s0 (wr8 a)" "sessional s0 (wr16 be b)" "sessional s0 (wr32 be c)"
    using * by (simp_all add: wr_bytes)
  from * have "sessional s0 (wr8 a)" for a
    by (simp add: wr_bytes)
  then show "sessional s0 (wrZero n)" by (induction n) (auto intro!: keeps_intros)
qed

end
