(* ===== verification/Rfb_Server.thy ===== *)
theory Rfb_Server
  imports Rfb_Stream
begin

text \<open>
  \<^verbatim>\<open>src/src/librfb/server/librfb_server.cpp\<close>: the messages of the client, the loop that dispatches
  them, and the messages and pseudo encodings that the server sends. The virtual methods that a
  derived class provides are the record \<open>server_class\<close>, with the platform, the options of the build
  and the zlib library; \<open>fire\<close> records the call of an event method and makes it.
\<close>

record 's server_class =
  sv_be :: bool
  sv_format :: pixelformat
  sv_event :: "server_event \<Rightarrow> ('s, unit) exc"
  sv_clip :: "'s clip_virtuals"
  sv_disabled :: "'s \<Rightarrow> string list"
  sv_zlib :: zlib
  sv_compress :: "bytes \<Rightarrow> bytes res"
  with_ltsm_encoding :: bool
  with_ffmpeg_encoding :: bool

definition fire :: "'a server_scheme server_class \<Rightarrow> server_event \<Rightarrow> ('a server_scheme, unit) exc" where
  "fire c e = eseq (note_event e) (sv_event c e)"

definition "PROTOCOL_LTSM = (119 :: u8)"
definition "LtsmProtocolVersion = (3 :: u8)"
definition "CLIENT_SET_PIXEL_FORMAT = (0 :: u8)"
definition "CLIENT_SET_ENCODINGS = (2 :: u8)"
definition "CLIENT_REQUEST_FB_UPDATE = (3 :: u8)"
definition "CLIENT_EVENT_KEY = (4 :: u8)"
definition "CLIENT_EVENT_POINTER = (5 :: u8)"
definition "CLIENT_CUT_TEXT = (6 :: u8)"
definition "CLIENT_CONTINUOUS_UPDATES = (150 :: u8)"
definition "CLIENT_SET_DESKTOP_SIZE = (251 :: u8)"
definition "SERVER_FB_UPDATE = (0 :: u8)"
definition "SERVER_SET_COLOURMAP = (1 :: u8)"
definition "SERVER_BELL = (2 :: u8)"
definition "SERVER_CUT_TEXT = (3 :: u8)"
definition "SERVER_CONTINUOUS_UPDATES = (150 :: u8)"

lemmas message_types = PROTOCOL_LTSM_def CLIENT_SET_PIXEL_FORMAT_def CLIENT_SET_ENCODINGS_def
  CLIENT_REQUEST_FB_UPDATE_def CLIENT_EVENT_KEY_def CLIENT_EVENT_POINTER_def CLIENT_CUT_TEXT_def
  CLIENT_CONTINUOUS_UPDATES_def CLIENT_SET_DESKTOP_SIZE_def SERVER_FB_UPDATE_def
  SERVER_SET_COLOURMAP_def SERVER_BELL_def SERVER_CUT_TEXT_def SERVER_CONTINUOUS_UPDATES_def

section \<open>ClientEncodings\<close>

definition setPriority :: "int list \<Rightarrow> int list \<Rightarrow> int list" where
  "setPriority priorities encs =
     priorities @ filter (\<lambda>enc. \<not> list_ex (\<lambda>val. val = enc) priorities) encs"

definition isPresent :: "int \<Rightarrow> int list \<Rightarrow> bool" where
  "isPresent type encs = list_ex (\<lambda>val. val = type) encs"

definition findPriorityFrom :: "int list \<Rightarrow> int list \<Rightarrow> int" where
  "findPriorityFrom priorities encs =
     (case List.find (\<lambda>enc. list_ex (\<lambda>val. val = enc) priorities) encs of
        Some enc \<Rightarrow> enc | None \<Rightarrow> ENCODING_RAW)"

definition isClientSupportedEncoding :: "int \<Rightarrow> 'a server_scheme \<Rightarrow> bool" where
  "isClientSupportedEncoding enc s = isPresent enc (clientEncodings s)"

section \<open>Sending messages\<close>

definition sendColourMap :: "bool \<Rightarrow> u16 \<Rightarrow> ('a server_scheme, unit) exc" where
  "sendColourMap be first =
     eseq (wr8 SERVER_SET_COLOURMAP) (eseq (wr8 0) (eseq (wr16 be first)
     (ebind (egets colourMap) (\<lambda>colours.
      eseq (wr16 be (of_nat (length colours)))
      (eeach (\<lambda>col. eseq (wr16 be (ucast (col_r col))) (eseq (wr16 be (ucast (col_g col)))
         (wr16 be (ucast (col_b col))))) colours)))))"

definition sendBellEvent :: "('a server_scheme, unit) exc" where
  "sendBellEvent = wr8 SERVER_BELL"

definition sendCutTextEvent :: "bool \<Rightarrow> bytes \<Rightarrow> bool \<Rightarrow> ('a server_scheme, unit) exc" where
  "sendCutTextEvent be buf ext =
     eseq (wr8 SERVER_CUT_TEXT) (eseq (wr8 0) (eseq (wr8 0) (eseq (wr8 0)
     (ebind (egets extClipboardRemoteCaps) (\<lambda>caps.
      eseq (if ext then
              if caps = 0 then ethrow RfbError
              else wr32 be (0xFFFFFFFF - of_nat (length buf) + 1)
            else wr32 be (of_nat (length buf)))
      (wrData buf))))))"

definition sendContinuousUpdates :: "bool \<Rightarrow> ('a server_scheme, unit) exc" where
  "sendContinuousUpdates enable =
     eseq (wr8 SERVER_CONTINUOUS_UPDATES) (emodify (\<lambda>s. s\<lparr>continueUpdatesProcessed := enable\<rparr>))"

text \<open>The head of an update of one rectangle.\<close>

definition send_rect_head :: "bool \<Rightarrow> u16 \<Rightarrow> u16 \<Rightarrow> u16 \<Rightarrow> u16 \<Rightarrow> int \<Rightarrow> ('a server_scheme, unit) exc" where
  "send_rect_head be x y w h type =
     eseq (wr8 SERVER_FB_UPDATE) (eseq (wr8 0) (eseq (wr16 be 1)
     (eseq (wr16 be x) (eseq (wr16 be y) (eseq (wr16 be w) (eseq (wr16 be h)
     (wr32 be (word_of_int type))))))))"

definition sendEncodingDesktopResize ::
    "bool \<Rightarrow> desktop_resize_status \<Rightarrow> desktop_resize_error \<Rightarrow> xsize \<Rightarrow> ('a server_scheme, unit) exc" where
  "sendEncodingDesktopResize be status error desktopSize s =
     (if \<not> isClientSupportedEncoding ENCODING_EXT_DESKTOP_SIZE s then (Inl RfbError, s)
      else (eseq (send_rect_head be (word_of_int (desktopResizeStatusCode status))
              (word_of_int (desktopResizeErrorCode error)) (sz_width desktopSize) (sz_height desktopSize)
              ENCODING_EXT_DESKTOP_SIZE)
            (eseq (wr8 1) (eseq (wrZero 3) (eseq (wr32 be 0) (eseq (wr16 be 0) (eseq (wr16 be 0)
            (eseq (wr16 be (sz_width desktopSize)) (eseq (wr16 be (sz_height desktopSize)) (wr32 be 0))))))))) s)"

text \<open>\<open>Tools::crc32b\<close>: the accumulator is 32 bits wide between the bytes, 64 bits within one.\<close>

primrec crc32b_bits :: "nat \<Rightarrow> u64 \<Rightarrow> u64" where
  "crc32b_bits 0 crc = crc"
| "crc32b_bits (Suc n) crc =
     (let mask = (if crc AND 1 \<noteq> 0 then 0xFFFFFFFF else 0) in crc32b_bits n (drop_bit 1 crc XOR (0xEDB88320 AND mask)))"

definition crc32b :: "bytes \<Rightarrow> u32" where
  "crc32b cont = NOT (fold (\<lambda>val crc. ucast (crc32b_bits 8 (ucast crc XOR ucast val))) cont 0xFFFFFFFF)"

text \<open>\<open>Tools::zlibCompress\<close>; \<open>compress\<close> is the call of zlib or the exception after its failure.\<close>

definition zlibCompress :: "(bytes \<Rightarrow> bytes res) \<Rightarrow> bytes \<Rightarrow> bytes res" where
  "zlibCompress compress cont = (if cont = [] then Inr [] else compress cont)"

definition sendEncodingLtsmCursor ::
    "'a server_scheme server_class \<Rightarrow> framebuffer \<Rightarrow> u16 \<Rightarrow> u16 \<Rightarrow> ('a server_scheme, unit) exc" where
  "sendEncodingLtsmCursor c fb xhot yhot =
     (let be = sv_be c in
      eseq (send_rect_head be xhot yhot (rg_width (fb_reg fb)) (rg_height (fb_reg fb)) ENCODING_LTSM_CURSOR)
      (ebind (elift (fb_span fb)) (\<lambda>fbSpan. let cursorId = crc32b fbSpan in
      eseq (wr32 be cursorId)
      (ebind (egets cursorSended) (\<lambda>sended.
        if \<not> list_ex (\<lambda>curid. curid = cursorId) sended then
          case zlibCompress (sv_compress c) fbSpan of
            Inr data \<Rightarrow>
              eseq (wr32 be (of_nat (length fbSpan))) (eseq (wr32 be (of_nat (length data)))
              (eseq (wrData data) (emodify (\<lambda>s. s\<lparr>cursorSended := cursorId # cursorSended s\<rparr>))))
          | Inl e \<Rightarrow> wr32 be 0
        else wr32 be 0)))))"

text \<open>The pixels of the cursor in the client's format, then the mask of its opaque pixels.\<close>

definition cursor_pixel ::
    "'a server_scheme server_class \<Rightarrow> pixelformat \<Rightarrow> framebuffer \<Rightarrow> point \<Rightarrow> streambits \<Rightarrow>
     ('a server_scheme, streambits) exc" where
  "cursor_pixel c pfa fb pos bitmask =
     ebind (elift (fb_pixel (sv_be c) fb pos)) (\<lambda>pixel.
     ebind (egets clientPf) (\<lambda>pf.
     ebind (egets clientBigEndian) (\<lambda>big.
     ebind (elift (sendPixelRaw (convertTo (pixelFormat fb) pixel pfa) (unat (bytePixel pf)) big)) (\<lambda>px.
     eseq (wrData px)
     (ereturn (pushBit (pf_alpha (pixelFormat fb) pixel = alphaMax (pixelFormat fb)) bitmask))))))"

primrec cursor_row ::
    "'a server_scheme server_class \<Rightarrow> pixelformat \<Rightarrow> framebuffer \<Rightarrow> nat \<Rightarrow> nat list \<Rightarrow> streambits \<Rightarrow>
     ('a server_scheme, streambits) exc" where
  "cursor_row c pfa fb oy [] bitmask = ereturn bitmask"
| "cursor_row c pfa fb oy (ox # xs) bitmask =
     ebind (cursor_pixel c pfa fb \<lparr>pt_x = of_nat ox, pt_y = of_nat oy\<rparr> bitmask) (cursor_row c pfa fb oy xs)"

primrec cursor_rows ::
    "'a server_scheme server_class \<Rightarrow> pixelformat \<Rightarrow> framebuffer \<Rightarrow> nat list \<Rightarrow> streambits \<Rightarrow>
     ('a server_scheme, streambits) exc" where
  "cursor_rows c pfa fb [] bitmask = ereturn bitmask"
| "cursor_rows c pfa fb (oy # ys) bitmask =
     ebind (cursor_row c pfa fb oy [0..<unat (rg_width (fb_reg fb))] bitmask) (\<lambda>bitmask.
     cursor_rows c pfa fb ys (pushAlign bitmask))"

definition sendEncodingRichCursor ::
    "'a server_scheme server_class \<Rightarrow> framebuffer \<Rightarrow> u16 \<Rightarrow> u16 \<Rightarrow> ('a server_scheme, unit) exc" where
  "sendEncodingRichCursor c fb xhot yhot s =
     (if isClientSupportedEncoding ENCODING_LTSM_CURSOR s then sendEncodingLtsmCursor c fb xhot yhot s
      else
        let pf = clientPf s; reg = fb_reg fb;
            clientAMask = NOT (rmask pf OR gmask pf OR bmask pf);
            pfa = pixelFormat_masks (bitsPixel pf) (rmask pf) (gmask pf) (bmask pf) clientAMask
        in eseq (send_rect_head (sv_be c) xhot yhot (rg_width reg) (rg_height reg) ENCODING_RICH_CURSOR)
           (ebind (cursor_rows c pfa fb [0..<unat (rg_height reg)] streamBitsPack) (\<lambda>bitmask.
            let bitmaskSize = ((unat (rg_width reg) + 7) div 8) * unat (rg_height reg)
            in if bitmaskSize \<noteq> length (vecbuf bitmask) then ethrow RfbError
               else wrData (vecbuf bitmask))) s)"

definition "service_version = (20260610 :: u32)"

definition sendEncodingLtsmSupported :: "bool \<Rightarrow> ('a server_scheme, unit) exc" where
  "sendEncodingLtsmSupported be =
     eseq (send_rect_head be 0 0 0 0 ENCODING_LTSM) (eseq (wr32 be 0) (wr32 be service_version))"

definition sendEncodingLtsmData :: "bool \<Rightarrow> bytes \<Rightarrow> ('a server_scheme, unit) exc" where
  "sendEncodingLtsmData be buf =
     eseq (send_rect_head be 0 0 0 0 ENCODING_LTSM)
     (eseq (wr32 be 1) (eseq (wr32 be (of_nat (length buf))) (wrData buf)))"

definition sendLtsmChannel :: "bool \<Rightarrow> u8 \<Rightarrow> bytes \<Rightarrow> ('a server_scheme, unit) exc" where
  "sendLtsmChannel be channel buf s =
     (if \<not> clientLtsmSupported s then (Inr (), s)
      else if buf = [] then (Inr (), s)
      else if \<not> length buf \<le> 0xFFFF then (Inl AssertFailed, s)
      else eseq (wr8 PROTOCOL_LTSM) (eseq (wr8 LtsmProtocolVersion) (eseq (wr8 channel)
           (eseq (wr16 be (of_nat (length buf))) (wrData buf)))) s)"

section \<open>Receiving messages\<close>

text \<open>The handlers wait until the thread that sends updates is done with one.\<close>

definition waitUpdateProcess :: "('a server_scheme, unit) exc" where
  "waitUpdateProcess s = (if fbUpdateProcessing s then (Inl Diverges, s) else (Inr (), s))"

definition recvPixelFormat :: "'a server_scheme server_class \<Rightarrow> ('a server_scheme, unit) exc" where
  "recvPixelFormat c =
     (let be = sv_be c in
      eseq waitUpdateProcess
      (eseq (rdSkip 3)
      (ebind rd8 (\<lambda>bitsPerPixel. ebind rd8 (\<lambda>depth. ebind rd8 (\<lambda>bigEndian. ebind rd8 (\<lambda>trueColor.
       ebind (rd16 be) (\<lambda>redMax. ebind (rd16 be) (\<lambda>greenMax. ebind (rd16 be) (\<lambda>blueMax.
       ebind rd8 (\<lambda>redShift. ebind rd8 (\<lambda>greenShift. ebind rd8 (\<lambda>blueShift.
       eseq (rdSkip 3)
       (if bitsPerPixel \<noteq> 32 \<and> bitsPerPixel \<noteq> 16 \<and> bitsPerPixel \<noteq> 8 then ethrow RfbError
        else if trueColor = 0 \<or> redMax = 0 \<or> greenMax = 0 \<or> blueMax = 0 then ethrow RfbError
        else
          let pf = pixelFormat_max bitsPerPixel redMax greenMax blueMax 0 redShift greenShift blueShift 0
          in eseq (emodify (\<lambda>s. s\<lparr>clientTrueColor := (trueColor \<noteq> 0), clientBigEndian := (bigEndian \<noteq> 0),
                    clientPf := pf, colourMap := []\<rparr>))
             (fire c (RecvPixelFormat pf (bigEndian \<noteq> 0)))))))))))))))))"

definition note_encoding :: "int \<Rightarrow> ('a server_scheme, unit) exc" where
  "note_encoding encoding =
     (if list_ex (\<lambda>e. e = encoding) [ENCODING_LTSM, ENCODING_LTSM_ZQOI, ENCODING_LTSM_QOI, ENCODING_LTSM_LZ4,
           ENCODING_LTSM_TJPG, ENCODING_LTSM_H264, ENCODING_LTSM_MPEG4, ENCODING_LTSM_CURSOR]
      then emodify (\<lambda>s. s\<lparr>clientLtsmSupported := True\<rparr>)
      else if encoding = ENCODING_LTSM_KEYB
      then emodify (\<lambda>s. s\<lparr>clientLtsmSupported := True, clientLtsmKeyboard := True\<rparr>)
      else ereturn ())"

definition is_disabled :: "string list \<Rightarrow> int \<Rightarrow> bool" where
  "is_disabled disabled encoding =
     (disabled \<noteq> [] \<and> list_ex (\<lambda>str. lower (encodingName encoding) = lower str) disabled)"

primrec recv_encodings ::
    "'a server_scheme server_class \<Rightarrow> string list \<Rightarrow> nat \<Rightarrow> int list \<Rightarrow> bool \<Rightarrow> bool \<Rightarrow>
     ('a server_scheme, int list \<times> bool \<times> bool) exc" where
  "recv_encodings c disabled 0 encs continueUpdates extendedClipboard =
     ereturn (encs, continueUpdates, extendedClipboard)"
| "recv_encodings c disabled (Suc n) encs continueUpdates extendedClipboard =
     ebind (rd32 (sv_be c)) (\<lambda>w. let encoding = sint w in
       if is_disabled disabled encoding
       then recv_encodings c disabled n encs continueUpdates extendedClipboard
       else eseq (note_encoding encoding)
         (recv_encodings c disabled n (encs @ [encoding])
           (continueUpdates \<or> encoding = ENCODING_CONTINUOUS_UPDATES)
           (extendedClipboard \<or> encoding = ENCODING_EXT_CLIPBOARD)))"

definition recvSetEncodings :: "'a server_scheme server_class \<Rightarrow> ('a server_scheme, unit) exc" where
  "recvSetEncodings c =
     eseq waitUpdateProcess
     (eseq (rdSkip 1)
     (ebind (rd16 (sv_be c)) (\<lambda>numEncodings.
      ebind (egets (sv_disabled c)) (\<lambda>disabledEncodings.
      ebind (recv_encodings c disabledEncodings (unat numEncodings) [] False False)
        (\<lambda>(recvEncodings, continueUpdates, extendedClipboard).
      eseq (emodify (\<lambda>s. s\<lparr>clientEncodings := setPriority recvEncodings (clientEncodings s)\<rparr>))
      (eseq (ewhen continueUpdates (sendContinuousUpdates True))
      (eseq (ewhen extendedClipboard
         (let caps = TypeText OR TypeRtf OR TypeHtml OR OpRequest OR OpNotify OR OpProvide in
          eseq (setExtClipboardRemoteCaps caps)
          (eseq (setExtClipboardLocalCaps caps)
          (eseq (emodify (\<lambda>s. s\<lparr>remoteExtClipTypeTextSz := 20 * 1024 * 1024\<rparr>))
          (sendExtClipboardCapsEvent (sv_clip c) (sv_be c))))))
      (fire c (RecvSetEncodings recvEncodings)))))))))"

definition rdRegion :: "bool \<Rightarrow> ('a server_scheme, region) exc" where
  "rdRegion be =
     ebind (rd16 be) (\<lambda>x. ebind (rd16 be) (\<lambda>y. ebind (rd16 be) (\<lambda>w. ebind (rd16 be) (\<lambda>h.
     ereturn \<lparr>rg_x = x, rg_y = y, rg_width = w, rg_height = h\<rparr>))))"

definition recvFramebufferUpdate :: "'a server_scheme server_class \<Rightarrow> ('a server_scheme, unit) exc" where
  "recvFramebufferUpdate c =
     ebind rd8 (\<lambda>incremental. ebind (rdRegion (sv_be c)) (\<lambda>reg.
     fire c (RecvFBUpdate (incremental \<noteq> 0) reg)))"

definition recvKeyCode :: "'a server_scheme server_class \<Rightarrow> ('a server_scheme, unit) exc" where
  "recvKeyCode c =
     ebind (egets clientLtsmKeyboard) (\<lambda>ltsm.
     if ltsm then
       ebind rd8 (\<lambda>pressed. ebind (rd16 (sv_be c)) (\<lambda>scancode. ebind (rd32 (sv_be c)) (\<lambda>keycode.
       fire c (RecvKey (pressed \<noteq> 0) keycode scancode))))
     else
       ebind rd8 (\<lambda>pressed. eseq (rdSkip 2) (ebind (rd32 (sv_be c)) (\<lambda>keycode.
       fire c (RecvKey (pressed \<noteq> 0) keycode 0)))))"

definition recvPointer :: "'a server_scheme server_class \<Rightarrow> ('a server_scheme, unit) exc" where
  "recvPointer c =
     ebind rd8 (\<lambda>buttons. ebind (rd16 (sv_be c)) (\<lambda>posx. ebind (rd16 (sv_be c)) (\<lambda>posy.
     fire c (RecvPointer buttons posx posy))))"

text \<open>
  The length is signed. \<open>std::abs\<close> of the smallest integer is undefined behaviour.
\<close>

definition recvCutText :: "'a server_scheme server_class \<Rightarrow> ('a server_scheme, unit) exc" where
  "recvCutText c =
     eseq (rdSkip 3)
     (ebind (rd32 (sv_be c)) (\<lambda>length.
      if 0 < sint length then
        ebind (egets localExtClipTypeTextSz) (\<lambda>limit.
        let recv = (if limit \<noteq> 0 then min length limit else length) in
        ebind (rdData (unat recv)) (\<lambda>buffer.
        eseq (rdSkip (unat (length - recv)))
        (fire c (RecvCutText buffer))))
      else if sint length < 0 then
        ebind (egets extClipboardLocalCaps) (\<lambda>caps.
        if caps = 0 then ethrow RfbError
        else if sint length = - (2 ^ 31) then ethrow MemoryFault
        else ebind (rdData (nat \<bar>sint length\<bar>)) (\<lambda>buffer.
             recvExtClipboardCapsEvent (sv_clip c) (sv_zlib c) (sv_be c) buffer))
      else ereturn ()))"

definition recvSetContinuousUpdates :: "'a server_scheme server_class \<Rightarrow> ('a server_scheme, unit) exc" where
  "recvSetContinuousUpdates c =
     ebind rd8 (\<lambda>enable. ebind (rdRegion (sv_be c)) (\<lambda>reg.
     eseq (emodify (\<lambda>s. s\<lparr>continueUpdatesProcessed := (enable \<noteq> 0)\<rparr>))
     (fire c (RecvSetContinuousUpdates (enable \<noteq> 0) reg))))"

definition rdScreen :: "bool \<Rightarrow> ('a server_scheme, screeninfo) exc" where
  "rdScreen be =
     ebind (rd32 be) (\<lambda>id. ebind (rd16 be) (\<lambda>x. ebind (rd16 be) (\<lambda>y. ebind (rd16 be) (\<lambda>w.
     ebind (rd16 be) (\<lambda>h. ebind (rd32 be) (\<lambda>flags.
     ereturn \<lparr>rg_x = x, rg_y = y, rg_width = w, rg_height = h, si_id = id, si_flags = flags\<rparr>))))))"

definition recvSetDesktopSize :: "'a server_scheme server_class \<Rightarrow> ('a server_scheme, unit) exc" where
  "recvSetDesktopSize c =
     eseq (rdSkip 1)
     (ebind (rd16 (sv_be c)) (\<lambda>width. ebind (rd16 (sv_be c)) (\<lambda>height.
      ebind rd8 (\<lambda>numOfScreens. eseq (rdSkip 1)
      (ebind (etimes (unat numOfScreens) (rdScreen (sv_be c))) (\<lambda>screens.
       fire c (RecvDesktopSize screens)))))))"

text \<open>The event stands for \<open>ChannelListener::recvLtsmEvent\<close>.\<close>

definition recvLtsmProto :: "'a server_scheme server_class \<Rightarrow> ('a server_scheme, unit) exc" where
  "recvLtsmProto c =
     ebind rd8 (\<lambda>version.
     if version \<noteq> LtsmProtocolVersion then ethrow RuntimeError
     else ebind rd8 (\<lambda>channel. ebind (rd16 (sv_be c)) (\<lambda>length.
          ebind (rdData (unat length)) (\<lambda>buf. fire c (RecvLtsm channel buf)))))"

section \<open>The message loop\<close>

text \<open>
  One round returns whether the loop goes on. \<open>hasInput\<close> only delays a round: the socket reports
  input when a byte has arrived and when the client has closed the connection.
\<close>

definition dispatch :: "'a server_scheme server_class \<Rightarrow> u8 \<Rightarrow> ('a server_scheme, bool) exc" where
  "dispatch c msgType =
     (if msgType = PROTOCOL_LTSM then
       ebind (egets clientLtsmSupported) (\<lambda>ltsm.
       if \<not> ltsm then eseq rfbMessagesShutdown (ereturn False)
       else ecatch (eseq (recvLtsmProto c) (ereturn True))
              (\<lambda>e. if is_exception e then eseq rfbMessagesShutdown (ereturn False) else ethrow e))
     else
       eseq (if msgType = CLIENT_SET_PIXEL_FORMAT then recvPixelFormat c
             else if msgType = CLIENT_SET_ENCODINGS then recvSetEncodings c
             else if msgType = CLIENT_REQUEST_FB_UPDATE then recvFramebufferUpdate c
             else if msgType = CLIENT_EVENT_KEY then recvKeyCode c
             else if msgType = CLIENT_EVENT_POINTER then recvPointer c
             else if msgType = CLIENT_CUT_TEXT then recvCutText c
             else if msgType = CLIENT_SET_DESKTOP_SIZE then recvSetDesktopSize c
             else if msgType = CLIENT_CONTINUOUS_UPDATES then recvSetContinuousUpdates c
             else rfbMessagesShutdown)
         (ereturn True))"

definition messages_round :: "'a server_scheme server_class \<Rightarrow> ('a server_scheme, bool) exc" where
  "messages_round c = ebind rd8 (dispatch c)"

primrec messages_rounds :: "nat \<Rightarrow> 'a server_scheme server_class \<Rightarrow> ('a server_scheme, unit) exc" where
  "messages_rounds 0 c = ethrow Diverges"
| "messages_rounds (Suc n) c =
     ebind (egets rfbMessages) (\<lambda>running.
     if running then ebind (messages_round c) (\<lambda>more. if more then messages_rounds n c else ereturn ())
     else ereturn ())"

definition rfbMessagesLoop :: "'a server_scheme server_class \<Rightarrow> ('a server_scheme, unit) exc" where
  "rfbMessagesLoop c s = messages_rounds (length (sv_input s) + 2) c s"

end
