(* ===== verification/Rfb_Loop.thy ===== *)
theory Rfb_Loop
  imports Rfb_Server
begin

text \<open>
  What the message handling of \<open>Rfb_Server\<close> keeps and that it ends. A property of the server's
  state that the stream methods, the updates of members and the methods of the derived class keep is
  kept by every handler and by the loop (the locales \<open>server_frame\<close> and \<open>server_events\<close>); its
  instances are the steps of a session, the pixel format that the encoders rely on, and the types of
  the extended clipboard.
\<close>

section \<open>Properties that the handlers keep\<close>

text \<open>The formats that the server accepts from a client.\<close>

definition valid_client_format :: "pixelformat \<Rightarrow> bool" where
  "valid_client_format pf \<longleftrightarrow> (bitsPixel pf = 32 \<or> bitsPixel pf = 16 \<or> bitsPixel pf = 8) \<and>
     redMax pf \<noteq> 0 \<and> greenMax pf \<noteq> 0 \<and> blueMax pf \<noteq> 0 \<and> bytePixel pf = drop_bit 3 (bitsPixel pf)"

named_theorems frame_intros "methods that keep the property of a locale"

locale server_frame =
  fixes P :: "'a server_scheme \<Rightarrow> bool"
  assumes reads: "keeps P rd8" "keeps P (rd16 be)" "keeps P (rd32 be)" "keeps P (rdData n)"
    and writes: "keeps P (wrData bs)"
    and ends: "keeps P (note_event e)" "keeps P rfbMessagesShutdown"
    and members: "keeps P (emodify (\<lambda>s. s\<lparr>continueUpdatesProcessed := b\<rparr>))"
      "keeps P (emodify (\<lambda>s. s\<lparr>cursorSended := cursors s\<rparr>))"
      "keeps P (emodify (\<lambda>s. s\<lparr>clientLtsmSupported := b\<rparr>))"
      "keeps P (emodify (\<lambda>s. s\<lparr>clientLtsmSupported := b, clientLtsmKeyboard := k\<rparr>))"
      "keeps P (emodify (\<lambda>s. s\<lparr>clientEncodings := encs s\<rparr>))"
      "keeps P (emodify (\<lambda>s. s\<lparr>remoteExtClipTypeTextSz := x\<rparr>))"
      "keeps P (setExtClipboardRemoteCaps y)" "keeps P (setExtClipboardLocalCaps y)"
    and format_member: "valid_client_format pf \<Longrightarrow>
      keeps P (emodify (\<lambda>s. s\<lparr>clientTrueColor := b, clientBigEndian := d, clientPf := pf, colourMap := cm\<rparr>))"
    and clip_clear: "P s \<Longrightarrow> P (s\<lparr>localProvideTypes := localProvideTypes s AND NOT t\<rparr>)"
    and clip_caps: "P s \<Longrightarrow> P (accept_caps flags sizes s)"
begin

lemmas [frame_intros] = keeps_basic keeps_bind keeps_if keeps_when keeps_catch keeps_each keeps_times
  reads writes ends members

lemma read_skip [frame_intros]: "keeps P (rdSkip n)"
  by (induction n) (auto intro!: frame_intros)

lemma write_ints [frame_intros]: "keeps P (wr8 a)" "keeps P (wr16 be x)" "keeps P (wr32 be y)"
  by (simp_all add: wr_bytes writes)

lemma write_zeros [frame_intros]: "keeps P (wrZero n)"
  by (induction n) (auto intro!: frame_intros)

lemma waiting [frame_intros]: "keeps P waitUpdateProcess"
  by (rule keepsI) (simp add: waitUpdateProcess_def)

lemma rects_keep [frame_intros]:
  "keeps P (rdRegion be)" "keeps P (rdScreen be)" "keeps P (send_rect_head be x y w h type)"
  unfolding rdRegion_def rdScreen_def send_rect_head_def by (intro frame_intros)+

lemma sends_keep [frame_intros]:
  "keeps P (sendColourMap be first)" "keeps P sendBellEvent" "keeps P (sendCutTextEvent be buf ext)"
  "keeps P (sendContinuousUpdates b)" "keeps P (sendEncodingLtsmSupported be)"
  "keeps P (sendEncodingLtsmData be buf)"
  unfolding sendColourMap_def sendBellEvent_def sendCutTextEvent_def sendContinuousUpdates_def
    sendEncodingLtsmSupported_def sendEncodingLtsmData_def
  by (intro frame_intros)+

lemma resize_keeps: "keeps P (sendEncodingDesktopResize be status error sz)"
proof -
  have "keeps P (eseq (send_rect_head be x y w h t) (eseq (wr8 1) (eseq (wrZero 3) (eseq (wr32 be 0)
     (eseq (wr16 be 0) (eseq (wr16 be 0) (eseq (wr16 be w) (eseq (wr16 be h) (wr32 be 0)))))))))" for x y w h t
    by (intro frame_intros)
  then show ?thesis
    by (intro keepsI) (auto simp: sendEncodingDesktopResize_def intro: keeps_app)
qed

lemma channel_keeps: "keeps P (sendLtsmChannel be ch buf)"
proof -
  have "keeps P (eseq (wr8 PROTOCOL_LTSM) (eseq (wr8 LtsmProtocolVersion) (eseq (wr8 ch)
     (eseq (wr16 be n) (wrData buf)))))" for n
    by (intro frame_intros)
  then show ?thesis
    by (intro keepsI) (auto simp: sendLtsmChannel_def intro: keeps_app)
qed

lemma keeps_case_sum:
  "(\<And>a. keeps P (f a)) \<Longrightarrow> (\<And>b. keeps P (g b)) \<Longrightarrow> keeps P (case r of Inl a \<Rightarrow> f a | Inr b \<Rightarrow> g b)"
  by (cases r) simp_all

lemma cursor_keeps: "keeps P (sendEncodingLtsmCursor c fb xhot yhot)"
  unfolding sendEncodingLtsmCursor_def Let_def by (intro frame_intros keeps_case_sum)

lemma note_keeps [frame_intros]: "keeps P (note_encoding enc)"
  unfolding note_encoding_def by (intro frame_intros)

lemma recv_encodings_keeps [frame_intros]: "keeps P (recv_encodings c disabled n encs cu ec)"
  by (induction n arbitrary: encs cu ec) (auto intro!: frame_intros simp: Let_def)

end

section \<open>The interface to the derived class\<close>

locale server_events = server_frame P for P :: "'a server_scheme \<Rightarrow> bool" +
  fixes c :: "'a server_scheme server_class"
  assumes event_keeps: "keeps P (sv_event c e)"
    and clip_methods_keep: "clip_keeps (sv_clip c) P"
begin

lemma fire_keeps [frame_intros]: "keeps P (fire c e)"
  unfolding fire_def by (intro frame_intros event_keeps)

lemma caps_keeps: "keeps P (sendExtClipboardCapsEvent (sv_clip c) be)"
  by (rule clip_keeps.sends_keep [OF clip_methods_keep])

lemma clip_recv_keeps: "keeps P (recvExtClipboardCapsEvent (sv_clip c) z be buf)"
  by (rule clip_keeps.recv_keep [OF clip_methods_keep clip_clear clip_caps])

lemma keeps_if_else: "(\<not> b \<Longrightarrow> keeps P n) \<Longrightarrow> keeps P (if b then ethrow e else n)"
  by (simp add: keeps_basic)

lemma pixelFormat_keeps: "keeps P (recvPixelFormat c)"
  unfolding recvPixelFormat_def Let_def
  by (intro keeps_bind keeps_if_else frame_intros format_member)
    (auto simp: valid_client_format_def pixelFormat_max_def)

lemma setEncodings_keeps: "keeps P (recvSetEncodings c)"
  unfolding recvSetEncodings_def Let_def split_beta by (intro frame_intros caps_keeps)

lemma cutText_keeps: "keeps P (recvCutText c)"
  unfolding recvCutText_def Let_def by (intro frame_intros clip_recv_keeps)

lemma others_keep:
  "keeps P (recvFramebufferUpdate c)" "keeps P (recvKeyCode c)" "keeps P (recvPointer c)"
  "keeps P (recvSetContinuousUpdates c)" "keeps P (recvSetDesktopSize c)" "keeps P (recvLtsmProto c)"
  unfolding recvFramebufferUpdate_def recvKeyCode_def recvPointer_def recvSetContinuousUpdates_def
    recvSetDesktopSize_def recvLtsmProto_def
  by (intro frame_intros)+

lemma dispatch_keeps: "keeps P (dispatch c m)"
  unfolding dispatch_def by (intro frame_intros pixelFormat_keeps setEncodings_keeps cutText_keeps others_keep)

lemma round_keeps: "keeps P (messages_round c)"
  unfolding messages_round_def by (intro frame_intros dispatch_keeps)

lemma rounds_keep: "keeps P (messages_rounds n c)"
proof (induction n)
  case (Suc n)
  show ?case unfolding messages_rounds.simps by (intro frame_intros round_keeps Suc.IH)
qed (simp add: keeps_basic)

lemma loop_keeps: "keeps P (rfbMessagesLoop c)"
  by (rule keepsI) (simp only: rfbMessagesLoop_def keeps_app [OF rounds_keep])

end

section \<open>Sessions\<close>

interpretation session: server_frame "session_step s0" for s0 :: "'a server_scheme"
  by (unfold_locales; (rule session_rds session_wrs session_basic)?;
      (unfold setExtClipboardRemoteCaps_def setExtClipboardLocalCaps_def)?; (rule session_update; simp)?)
    (simp_all add: session_step_def accept_caps_def)

text \<open>The classes whose methods are steps of a session.\<close>

locale session_class =
  fixes c :: "'a server_scheme server_class"
  assumes event_session: "sessional s0 (sv_event c e)"
    and clip_session: "clip_keeps (sv_clip c) (session_step s0)"

sublocale session_class \<subseteq> sessions: server_events "session_step s0" c for s0
  by (intro server_events.intro server_events_axioms.intro session.server_frame_axioms event_session clip_session)

section \<open>The loop ends\<close>

lemma rd8_Inr:
  "\<exists>m u. rd8 s = (Inr m, u) \<and> (rfbMessages s \<longrightarrow> length (sv_input u) < length (sv_input s) \<or> \<not> rfbMessages u)"
proof -
  have "\<exists>p. server_recvRaw uninitialized s 1 = Inr p"
    unfolding server_recvRaw_def Let_def split_beta by simp
  then obtain bs u where get: "server_recvRaw uninitialized s 1 = Inr (bs, u)" by auto
  then have "rd8 s = (Inr (le_val bs), u)"
    by (simp add: rd8_def ereader_def getInt8_def)
  moreover have "length (sv_input u) < length (sv_input s) \<or> \<not> rfbMessages u" if "rfbMessages s"
    using get that
    by (auto simp: server_recvRaw_def Let_def split_beta uninitialized_def rfbMessagesShutdown_def note_event_def
        split: if_splits)
  ultimately show ?thesis by blast
qed

lemma shutdown_stops: "\<not> rfbMessages (snd (rfbMessagesShutdown s))" "fst (rfbMessagesShutdown s) = Inr ()"
  by (simp_all add: rfbMessagesShutdown_def note_event_def)

lemma eseq_return: "eseq m (ereturn b) s = (Inr r, t) \<Longrightarrow> r = b \<and> (\<exists>a. m s = (Inr a, t))"
  by (cases "m s"; cases "fst (m s)") (auto simp: ebind_def)

lemma dispatch_returns:
  fixes u :: "'a server_scheme"
  assumes "dispatch c m u = (Inr False, t)"
  shows "\<not> rfbMessages t"
proof -
  have stop: "eseq rfbMessagesShutdown (ereturn False) w = (Inr False, t) \<Longrightarrow> \<not> rfbMessages t" for w :: "'a server_scheme"
    by (simp add: rfbMessagesShutdown_def note_event_def ebind_assoc) auto
  have "m = PROTOCOL_LTSM"
    using assms by (auto simp: dispatch_def dest: eseq_return split: if_splits)
  show ?thesis
  proof (cases "clientLtsmSupported u")
    case False
    with assms \<open>m = PROTOCOL_LTSM\<close> have "eseq rfbMessagesShutdown (ereturn False) u = (Inr False, t)"
      by (simp add: dispatch_def)
    then show ?thesis by (rule stop)
  next
    case True
    obtain r w where r: "eseq (recvLtsmProto c) (ereturn True) u = (r, w)"
      by (cases "eseq (recvLtsmProto c) (ereturn True) u")
    with assms True \<open>m = PROTOCOL_LTSM\<close> have "eseq rfbMessagesShutdown (ereturn False) w = (Inr False, t)"
      by (cases r) (auto simp: dispatch_def ecatch_def dest: eseq_return split: if_splits)
    then show ?thesis by (rule stop)
  qed
qed

context session_class begin

text \<open>A round of a running session takes a byte from the input or ends the session.\<close>

lemma round_progress:
  assumes "rfbMessages s" and "messages_round c s = (r, t)"
  shows "length (sv_input t) < length (sv_input s) \<or> \<not> rfbMessages t"
proof -
  obtain m u where m: "rd8 s = (Inr m, u)"
    and u: "length (sv_input u) < length (sv_input s) \<or> \<not> rfbMessages u"
    using rd8_Inr [of s] assms(1) by blast
  from m assms(2) have "dispatch c m u = (r, t)"
    by (simp add: messages_round_def ebind_Inr)
  then have "session_step u t"
    using keepsD [OF sessions.dispatch_keeps [of u m], of u r t] by simp
  with u show ?thesis by (auto simp: session_step_def)
qed

definition fuel :: "'a server_scheme \<Rightarrow> nat" where
  "fuel s = (if rfbMessages s then length (sv_input s) + 2 else 1)"

lemma rounds_enough: "fuel s \<le> n \<Longrightarrow> fuel s \<le> k \<Longrightarrow> messages_rounds n c s = messages_rounds k c s"
proof (induction n arbitrary: k s)
  case 0
  then show ?case by (simp add: fuel_def split: if_splits)
next
  case (Suc n)
  then obtain j where k: "k = Suc j" by (cases k) (auto simp: fuel_def split: if_splits)
  show ?case
  proof (cases "rfbMessages s")
    case True
    obtain r t where r: "messages_round c s = (r, t)" by (cases "messages_round c s")
    have "fuel t \<le> n" "fuel t \<le> j"
      using round_progress [OF True r] Suc.prems True by (auto simp: fuel_def k)
    then have "messages_rounds n c t = messages_rounds j c t" by (rule Suc.IH)
    with True r show ?thesis by (cases r) (simp_all add: k ebind_Inr ebind_Inl)
  qed (simp add: k)
qed

lemma loop_rounds: "length (sv_input s) + 2 \<le> n \<Longrightarrow> messages_rounds n c s = rfbMessagesLoop c s"
  unfolding rfbMessagesLoop_def by (rule rounds_enough) (simp_all add: fuel_def)

lemma rounds_end_session: "messages_rounds n c s = (Inr (), t) \<Longrightarrow> \<not> rfbMessages t"
proof (induction n arbitrary: s)
  case (Suc n)
  show ?case
  proof (cases "rfbMessages s")
    case True
    obtain r u where r: "messages_round c s = (r, u)" by (cases "messages_round c s")
    show ?thesis
    proof (cases r)
      case (Inr more)
      with Suc.prems True r have *: "(if more then messages_rounds n c u else (Inr (), u)) = (Inr (), t)"
        by (simp add: ebind_Inr split: if_splits)
      show ?thesis
      proof (cases more)
        case False
        obtain m v where "rd8 s = (Inr m, v)" using rd8_Inr [of s] by blast
        with r Inr False have "dispatch c m v = (Inr False, u)"
          by (simp add: messages_round_def ebind_Inr)
        with * False show ?thesis by (auto dest: dispatch_returns)
      qed (use * Suc.IH in simp)
    qed (use Suc.prems True r in \<open>simp add: ebind_Inl\<close>)
  qed (use Suc.prems in simp)
qed simp

end

section \<open>Properties of the members other than the stream\<close>

definition same_members :: "'a server_scheme \<Rightarrow> 'a server_scheme \<Rightarrow> bool" where
  "same_members s t \<longleftrightarrow> t = s\<lparr>rfbMessages := rfbMessages t, sv_input := sv_input t, sv_junk := sv_junk t,
     sv_output := sv_output t, sv_room := sv_room t, sv_log := sv_log t\<rparr>"

lemma same_members_refl: "same_members s s"
  by (simp add: same_members_def)

lemma same_members_trans: "same_members s t \<Longrightarrow> same_members t u \<Longrightarrow> same_members s u"
  unfolding same_members_def by (erule ssubst, erule ssubst, simp)

lemma same_members_stream: "steps same_members rd8" "steps same_members (rd16 be)" "steps same_members (rd32 be)"
  "steps same_members (rdData n)" "steps same_members (wrData bs)" "steps same_members (note_event e)"
  "steps same_members rfbMessagesShutdown"
  unfolding steps_def rd8_def rd16_def rd32_def rdData_def wrData_def
  by (auto simp: same_members_def note_event_def rfbMessagesShutdown_def ereader_def ewriter_def getInt8_def
      getIntBE16_def getIntBE32_def recvData_def server_recvRaw_def server_sendRaw_def uninitialized_def zeroed_def
      Let_def rbind_def split: option.splits sum.splits)

lemma same_members_simps:
  "same_members s t \<Longrightarrow> clientPf t = clientPf s"
  "same_members u v \<Longrightarrow> localProvideTypes v = localProvideTypes u"
  unfolding same_members_def by (erule ssubst, simp)+

interpretation format: server_frame "\<lambda>s. valid_client_format (clientPf s)"
  by (unfold_locales; (rule keeps_of_steps, rule same_members_stream, simp add: same_members_simps)?)
    (auto intro!: keeps_modify simp: setExtClipboardRemoteCaps_def setExtClipboardLocalCaps_def accept_caps_def)

interpretation types: server_frame provide_bounded
  by (unfold_locales; (rule keeps_of_steps, rule same_members_stream, simp add: provide_bounded_def same_members_simps)?)
    (auto intro!: keeps_modify simp: provide_bounded_def provide_bounded_and setExtClipboardRemoteCaps_def
      setExtClipboardLocalCaps_def accept_caps_def)

end
