(* ===== verification/Rfb_Client.thy ===== *)
theory Rfb_Client
  imports Rfb_Server
begin

text \<open>
  \<^verbatim>\<open>src/src/librfb/client/librfb_client.cpp\<close>: the client's side of the protocol after the handshake:
  the messages it sends, the messages of the server with their pseudo encodings, the choice of the
  decoder of a rectangle, and the message loop. Asynchronous reads and writes are reads and writes
  of the socket (\<open>cl_input\<close>, \<open>cl_output\<close>, \<open>cl_room\<close> as on the server), whose failure is the
  exception of the stream; a spawned coroutine is an entry of \<open>cl_spawned\<close> that \<open>run_spawned\<close> runs.
  A message that the code collects in a stream buffer is its bytes (\<open>Byte_Streams.put_wire\<close>).
\<close>

section \<open>State\<close>

text \<open>An inflating stream is what it has been fed since its creation.\<close>

datatype decoder =
    DecodingRaw
  | DecodingRRE bool
  | DecodingHexTile hextilecolors
  | DecodingTRLE bool "bytes list"
  | DecodingZlib "bytes list"
  | DecodingLZ4
  | DecodingTJPG
  | DecodingQOI bool
  | DecodingFFmpeg int

definition decoder_type :: "decoder \<Rightarrow> int" where
  "decoder_type d = (case d of
       DecodingRaw \<Rightarrow> ENCODING_RAW
     | DecodingRRE corre \<Rightarrow> (if corre then ENCODING_CORRE else ENCODING_RRE)
     | DecodingHexTile _ \<Rightarrow> ENCODING_HEXTILE
     | DecodingTRLE zrle _ \<Rightarrow> (if zrle then ENCODING_ZRLE else ENCODING_TRLE)
     | DecodingZlib _ \<Rightarrow> ENCODING_ZLIB
     | DecodingLZ4 \<Rightarrow> ENCODING_LTSM_LZ4
     | DecodingTJPG \<Rightarrow> ENCODING_LTSM_TJPG
     | DecodingQOI zqoi \<Rightarrow> (if zqoi then ENCODING_LTSM_ZQOI else ENCODING_LTSM_QOI)
     | DecodingFFmpeg type \<Rightarrow> type)"

datatype client_event =
    ClPixelFormat pixelformat xsize
  | ClFBUpdate
  | ClSetColorMap "color list"
  | ClBell
  | ClCutText bytes
  | ClRichCursor region bytes bytes
  | ClLtsmCursor region u32 bytes
  | ClLtsmHandshake
  | ClLtsmData bytes
  | ClDesktopSize int int xsize "screeninfo list"
  | ClLtsm u8 bytes
  | ClDecoderInit

datatype client_job =
    JobContinuousUpdates bool region
  | JobCutText bytes bool
  | JobChannel u8 bytes

record client = extclip +
  cl_input :: bytes
  cl_output :: bytes
  cl_room :: "nat option"
  cl_log :: "client_event list"
  cl_spawned :: "client_job list"
  cl_decoder :: "decoder option"
  cl_serverPf :: pixelformat
  cl_ltsmVersion :: u32
  cl_serverTrueColor :: bool
  cl_serverBigEndian :: bool
  cl_continueSupport :: bool
  cl_continueProcessed :: bool

text \<open>The virtual methods, the build and the libraries. \<open>cl_render\<close> is the \<open>DecoderRender\<close> interface.\<close>

record 's client_class =
  cl_be :: bool
  cl_event :: "client_event \<Rightarrow> ('s, unit) exc"
  cl_clip :: "'s clip_virtuals"
  cl_zlib :: zlib
  cl_inflate :: "bytes list \<Rightarrow> bytes \<Rightarrow> bytes res"
  cl_lz4d :: "bytes \<Rightarrow> nat \<Rightarrow> bytes res"
  cl_uncompress :: "bytes \<Rightarrow> nat \<Rightarrow> bytes res"
  cl_video :: "decoder \<Rightarrow> bytes \<Rightarrow> region \<Rightarrow> ('s, unit) exc"
  cl_render :: "'s decoderrender"
  cl_clientSize :: "'s \<Rightarrow> xsize"
  cl_ltsmSupported :: bool
  cl_videoEncoding :: int
  cl_audioEncoding :: int
  decoding_ltsm :: bool
  decoding_lz4 :: bool
  decoding_tjpg :: bool
  decoding_ffmpeg :: bool
  decoding_h264 :: bool
  decoding_mpeg4 :: bool
  decoding_opus :: bool

definition cl_fire :: "'a client_scheme client_class \<Rightarrow> client_event \<Rightarrow> ('a client_scheme, unit) exc" where
  "cl_fire c e = eseq (emodify (\<lambda>s. s\<lparr>cl_log := cl_log s @ [e]\<rparr>)) (cl_event c e)"

definition client_recvRaw :: "'a client_scheme get_raw" where
  "client_recvRaw s len =
     (if len \<le> length (cl_input s)
      then Inr (take len (cl_input s), s\<lparr>cl_input := drop len (cl_input s)\<rparr>)
      else Inl NetworkError)"

definition cr8 :: "('a client_scheme, u8) exc" where
  "cr8 = ereader (getInt8 client_recvRaw)"

definition cr16 :: "bool \<Rightarrow> ('a client_scheme, u16) exc" where
  "cr16 be = ereader (getIntBE16 be client_recvRaw)"

definition cr32 :: "bool \<Rightarrow> ('a client_scheme, u32) exc" where
  "cr32 be = ereader (getIntBE32 be client_recvRaw)"

definition crData :: "nat \<Rightarrow> ('a client_scheme, bytes) exc" where
  "crData len = ereader (\<lambda>s. client_recvRaw s len)"

definition cl_send :: "bytes \<Rightarrow> ('a client_scheme, unit) exc" where
  "cl_send bs s =
     (case cl_room s of
        None \<Rightarrow> (Inr (), s\<lparr>cl_output := cl_output s @ bs\<rparr>)
      | Some room \<Rightarrow>
          if length bs \<le> room
          then (Inr (), s\<lparr>cl_output := cl_output s @ bs, cl_room := Some (room - length bs)\<rparr>)
          else (Inl NetworkError, s\<lparr>cl_output := cl_output s @ take room bs, cl_room := Some 0\<rparr>))"

definition cl_spawn :: "client_job \<Rightarrow> ('a client_scheme, unit) exc" where
  "cl_spawn j = emodify (\<lambda>s. s\<lparr>cl_spawned := cl_spawned s @ [j]\<rparr>)"

section \<open>Sending messages\<close>

definition bool8 :: "bool \<Rightarrow> u8" where
  "bool8 b = (if b then 1 else 0)"

definition pixelFormat_message :: "bool \<Rightarrow> pixelformat \<Rightarrow> bytes" where
  "pixelFormat_message be pf =
     [CLIENT_SET_PIXEL_FORMAT] @ [0, 0, 0] @ [bitsPixel pf, 24, bool8 be, 1] @
     be_bytes 2 (redMax pf) @ be_bytes 2 (greenMax pf) @ be_bytes 2 (blueMax pf) @
     [redShift pf, greenShift pf, blueShift pf] @ [0, 0, 0]"

definition sendPixelFormatAwait :: "'a client_scheme client_class \<Rightarrow> ('a client_scheme, unit) exc" where
  "sendPixelFormatAwait c s = cl_send (pixelFormat_message (cl_be c) (dr_clientFormat (cl_render c) s)) s"

definition sendEncodingsAwait :: "int list \<Rightarrow> ('a client_scheme, unit) exc" where
  "sendEncodingsAwait encodings =
     cl_send ([CLIENT_SET_ENCODINGS, 0] @ be_bytes 2 (of_nat (length encodings) :: u16) @
       concat (map (\<lambda>val. be_bytes 4 (word_of_int val :: u32)) encodings))"

definition region_bytes :: "region \<Rightarrow> bytes" where
  "region_bytes reg = be_bytes 2 (rg_x reg) @ be_bytes 2 (rg_y reg) @
     be_bytes 2 (rg_width reg) @ be_bytes 2 (rg_height reg)"

definition sendFrameBufferUpdateAwait :: "region \<Rightarrow> bool \<Rightarrow> ('a client_scheme, unit) exc" where
  "sendFrameBufferUpdateAwait reg incr = cl_send ([CLIENT_REQUEST_FB_UPDATE, bool8 incr] @ region_bytes reg)"

definition sendFullUpdateAwait :: "'a client_scheme client_class \<Rightarrow> bool \<Rightarrow> ('a client_scheme, unit) exc" where
  "sendFullUpdateAwait c incr s =
     (let csz = cl_clientSize c s in sendFrameBufferUpdateAwait (Region 0 0 (sz_width csz) (sz_height csz)) incr s)"

definition sendContinuousUpdatesAwait :: "bool \<Rightarrow> region \<Rightarrow> ('a client_scheme, unit) exc" where
  "sendContinuousUpdatesAwait enable reg =
     eseq (cl_send ([CLIENT_CONTINUOUS_UPDATES, bool8 enable] @ region_bytes reg))
       (emodify (\<lambda>s. s\<lparr>cl_continueProcessed := enable\<rparr>))"

definition sendSetDesktopSizeAwait :: "xsize \<Rightarrow> ('a client_scheme, unit) exc" where
  "sendSetDesktopSizeAwait wsz =
     cl_send ([CLIENT_SET_DESKTOP_SIZE, 0] @ be_bytes 2 (sz_width wsz) @ be_bytes 2 (sz_height wsz) @ [1, 0] @
       be_bytes 4 (0 :: u32) @ be_bytes 4 (0 :: u32) @ be_bytes 2 (sz_width wsz) @ be_bytes 2 (sz_height wsz) @
       be_bytes 4 (0 :: u32))"

definition sendKeyEventAwait :: "bool \<Rightarrow> u32 \<Rightarrow> u16 \<Rightarrow> ('a client_scheme, unit) exc" where
  "sendKeyEventAwait pressed keysym scancode =
     (let ltsmKeybSupport = True in
      if ltsmKeybSupport
      then cl_send ([CLIENT_EVENT_KEY, bool8 pressed] @ be_bytes 2 scancode @ be_bytes 4 keysym)
      else cl_send ([CLIENT_EVENT_KEY, bool8 pressed] @ [0, 0] @ be_bytes 4 keysym))"

definition sendPointerEventAwait :: "u8 \<Rightarrow> u16 \<Rightarrow> u16 \<Rightarrow> ('a client_scheme, unit) exc" where
  "sendPointerEventAwait buttons posx posy =
     cl_send ([CLIENT_EVENT_POINTER, buttons] @ be_bytes 2 posx @ be_bytes 2 posy)"

definition sendCutTextEventAwait :: "bytes \<Rightarrow> bool \<Rightarrow> ('a client_scheme, unit) exc" where
  "sendCutTextEventAwait buf ext s =
     (if ext \<and> extClipboardRemoteCaps s = 0 then (Inl RfbError, s)
      else let len = (if ext then 0xFFFFFFFF - of_nat (length buf) + 1 else of_nat (length buf)) :: u32
           in cl_send ([CLIENT_CUT_TEXT, 0, 0, 0] @ be_bytes 4 len @ buf) s)"

definition sendLtsmChannelAwait :: "u8 \<Rightarrow> bytes \<Rightarrow> ('a client_scheme, unit) exc" where
  "sendLtsmChannelAwait channel buf =
     cl_send ([PROTOCOL_LTSM, LtsmProtocolVersion, channel] @ be_bytes 2 (of_nat (length buf) :: u16) @ buf)"

definition cl_sendCutText :: "bytes \<Rightarrow> bool \<Rightarrow> ('a client_scheme, unit) exc" where
  "cl_sendCutText buf ext = (if buf \<noteq> [] then cl_spawn (JobCutText buf ext) else ereturn ())"

definition sendLtsmChannelData :: "u8 \<Rightarrow> bytes \<Rightarrow> ('a client_scheme, unit) exc" where
  "sendLtsmChannelData channel buf =
     (if buf \<noteq> [] then
        if \<not> length buf \<le> 0xFFFF then ethrow AssertFailed else cl_spawn (JobChannel channel buf)
      else ereturn ())"

definition run_job :: "client_job \<Rightarrow> ('a client_scheme, unit) exc" where
  "run_job j = (case j of
       JobContinuousUpdates enable reg \<Rightarrow> sendContinuousUpdatesAwait enable reg
     | JobCutText buf ext \<Rightarrow> sendCutTextEventAwait buf ext
     | JobChannel channel buf \<Rightarrow> sendLtsmChannelAwait channel buf)"

definition run_spawned :: "('a client_scheme, unit) exc" where
  "run_spawned s = (case cl_spawned s of
       [] \<Rightarrow> (Inr (), s)
     | j # jobs \<Rightarrow> run_job j (s\<lparr>cl_spawned := jobs\<rparr>))"

text \<open>One expiry of the update timer.\<close>

definition rfbRequestIncrUpdate :: "'a client_scheme client_class \<Rightarrow> ('a client_scheme, unit) exc" where
  "rfbRequestIncrUpdate c s =
     (if \<not> (cl_continueSupport s \<and> cl_continueProcessed s) then sendFullUpdateAwait c True s else (Inr (), s))"

section \<open>Decoding a rectangle\<close>

text \<open>\<open>AsioDecoderStream::recvRaw\<close> on the bytes still to come.\<close>

definition decoderStream_recvRaw :: "bytes get_raw" where
  "decoderStream_recvRaw bs len =
     (if len \<le> length bs then Inr (take len bs, drop len bs) else Inl NetworkError)"

definition inflate_next :: "'a client_scheme client_class \<Rightarrow> bytes list \<Rightarrow> bytes \<Rightarrow> (bytes \<times> bytes list) res" where
  "inflate_next c fed bs = rbind (cl_inflate c fed bs) (\<lambda>out. Inr (out, fed @ [bs]))"

definition new_decoder :: "'a client_scheme client_class \<Rightarrow> int \<Rightarrow> decoder res" where
  "new_decoder c type =
     (if type = ENCODING_RAW then Inr DecodingRaw
      else if type = ENCODING_RRE then Inr (DecodingRRE False)
      else if type = ENCODING_CORRE then Inr (DecodingRRE True)
      else if type = ENCODING_HEXTILE then Inr (DecodingHexTile hextile_init)
      else if type = ENCODING_TRLE then Inr (DecodingTRLE False [])
      else if type = ENCODING_ZRLE then Inr (DecodingTRLE True [])
      else if type = ENCODING_ZLIB then Inr (DecodingZlib [])
      else if decoding_ltsm c \<and> type = ENCODING_LTSM_QOI then Inr (DecodingQOI False)
      else if decoding_ltsm c \<and> decoding_lz4 c \<and> type = ENCODING_LTSM_ZQOI then Inr (DecodingQOI True)
      else if decoding_ltsm c \<and> decoding_lz4 c \<and> type = ENCODING_LTSM_LZ4 then Inr DecodingLZ4
      else if decoding_ltsm c \<and> decoding_tjpg c \<and> type = ENCODING_LTSM_TJPG then Inr DecodingTJPG
      else if decoding_ffmpeg c \<and> (type = ENCODING_LTSM_H264 \<or> type = ENCODING_LTSM_MPEG4)
      then Inr (DecodingFFmpeg type)
      else Inl RfbError)"

text \<open>\<open>updateRegionStream\<close> of the decoder, with what it takes of the stream and its new state.\<close>

definition updateRegionStream ::
    "'a client_scheme client_class \<Rightarrow> decoder \<Rightarrow> region \<Rightarrow> ('a client_scheme, unit) exc" where
  "updateRegionStream c d reg s =
     (case (case d of
         DecodingRRE corre \<Rightarrow>
           rbind (rre_updateRegionStream (cl_be c) decoderStream_recvRaw (cl_render c) corre reg (cl_input s) s)
             (\<lambda>(i, t). Inr (d, i, t))
       | DecodingHexTile hx \<Rightarrow>
           rbind (hextile_updateRegionStream (cl_be c) decoderStream_recvRaw (cl_render c) reg hx (cl_input s) s)
             (\<lambda>(hx, i, t). Inr (DecodingHexTile hx, i, t))
       | DecodingTRLE zrle z \<Rightarrow>
           rbind (trle_updateRegionStream (inflate_next c) (cl_be c) decoderStream_recvRaw (cl_render c) zrle reg z
                    (cl_input s) s)
             (\<lambda>(z, i, t). Inr (DecodingTRLE zrle z, i, t))
       | _ \<Rightarrow> Inr (d, cl_input s, s)) of
       Inl e \<Rightarrow> (Inl e, s)
     | Inr (d, i, t) \<Rightarrow> (Inr (), t\<lparr>cl_decoder := Some d, cl_input := i\<rparr>))"

text \<open>\<open>updateRegionBuf\<close> of the decoder; \<open>cl_video\<close> stands for the jpeg and video libraries.\<close>

definition updateRegionBuf ::
    "'a client_scheme client_class \<Rightarrow> decoder \<Rightarrow> bytes \<Rightarrow> region \<Rightarrow> ('a client_scheme, unit) exc" where
  "updateRegionBuf c d buf reg s =
     (case d of
        DecodingRaw \<Rightarrow> ewriter (raw_updateRegionBuf (cl_render c) buf reg) s
      | DecodingZlib z \<Rightarrow>
          (case zlib_updateRegionBuf (inflate_next c) (cl_render c) buf reg z s of
             Inl e \<Rightarrow> (Inl e, s)
           | Inr (z, t) \<Rightarrow> (Inr (), t\<lparr>cl_decoder := Some (DecodingZlib z)\<rparr>))
      | DecodingLZ4 \<Rightarrow> ewriter (lz4_updateRegionBuf (cl_lz4d c) (cl_render c) buf reg) s
      | DecodingQOI zqoi \<Rightarrow> ewriter (qoi_updateRegionBuf (cl_lz4d c) (cl_be c) (cl_render c) zqoi buf reg) s
      | DecodingTJPG \<Rightarrow> cl_video c d buf reg s
      | DecodingFFmpeg type \<Rightarrow> cl_video c d buf reg s
      | _ \<Rightarrow> (Inr (), s))"

definition select_decoder :: "'a client_scheme client_class \<Rightarrow> int \<Rightarrow> ('a client_scheme, decoder) exc" where
  "select_decoder c type s =
     (case cl_decoder s of
        Some d \<Rightarrow> if type = decoder_type d then (Inr d, s)
                  else ebind (elift (new_decoder c type)) (\<lambda>d.
                    eseq (emodify (\<lambda>s. s\<lparr>cl_decoder := Some d\<rparr>)) (eseq (cl_fire c ClDecoderInit) (ereturn d))) s
      | None \<Rightarrow> ebind (elift (new_decoder c type)) (\<lambda>d.
                    eseq (emodify (\<lambda>s. s\<lparr>cl_decoder := Some d\<rparr>)) (eseq (cl_fire c ClDecoderInit) (ereturn d))) s)"

definition recvDecodingUpdateRegion ::
    "'a client_scheme client_class \<Rightarrow> int \<Rightarrow> region \<Rightarrow> ('a client_scheme, unit) exc" where
  "recvDecodingUpdateRegion c type reg =
     ebind (select_decoder c type) (\<lambda>d.
     case d of
       DecodingRaw \<Rightarrow>
         ebind (egets (dr_clientFormat (cl_render c))) (\<lambda>pf.
         let len = word_of_int (uint (rg_width reg) * uint (rg_height reg) * uint (bytePixel pf)) :: u32 in
         ebind (crData (unat len)) (\<lambda>buf. updateRegionBuf c d buf reg))
     | DecodingRRE _ \<Rightarrow> updateRegionStream c d reg
     | DecodingHexTile _ \<Rightarrow> updateRegionStream c d reg
     | DecodingTRLE _ _ \<Rightarrow> updateRegionStream c d reg
     | _ \<Rightarrow>
         ebind (cr32 (cl_be c)) (\<lambda>len. ebind (crData (unat len)) (\<lambda>buf. updateRegionBuf c d buf reg)))"

section \<open>Pseudo encodings\<close>

definition recvDecodingLtsm :: "'a client_scheme client_class \<Rightarrow> region \<Rightarrow> ('a client_scheme, unit) exc" where
  "recvDecodingLtsm c reg =
     ebind (cr32 (cl_be c)) (\<lambda>type.
     if type = 0 then
       ebind (cr32 (cl_be c)) (\<lambda>version.
       eseq (emodify (\<lambda>s. s\<lparr>cl_ltsmVersion := version\<rparr>)) (cl_fire c ClLtsmHandshake))
     else if type = 1 then
       ebind (cr32 (cl_be c)) (\<lambda>len. ebind (crData (unat len)) (\<lambda>buf. cl_fire c (ClLtsmData buf)))
     else ethrow RfbError)"

text \<open>\<open>Tools::zlibUncompress\<close> with the size the server announced.\<close>

definition zlibUncompress :: "(bytes \<Rightarrow> nat \<Rightarrow> bytes res) \<Rightarrow> bytes \<Rightarrow> nat \<Rightarrow> bytes res" where
  "zlibUncompress uncompress cont real = (if cont = [] then Inr [] else uncompress cont real)"

definition recvDecodingLtsmCursor :: "'a client_scheme client_class \<Rightarrow> region \<Rightarrow> ('a client_scheme, unit) exc" where
  "recvDecodingLtsmCursor c reg =
     ebind (cr32 (cl_be c)) (\<lambda>cursorId. ebind (cr32 (cl_be c)) (\<lambda>rawsz.
     ebind (if rawsz \<noteq> 0 then
              ebind (cr32 (cl_be c)) (\<lambda>zipsz.
              if zipsz \<noteq> 0 then
                ebind (crData (unat zipsz)) (\<lambda>packed. elift (zlibUncompress (cl_uncompress c) packed (unat rawsz)))
              else crData (unat rawsz))
            else ereturn [])
       (\<lambda>buf. cl_fire c (ClLtsmCursor reg cursorId buf))))"

definition recvDecodingRichCursor :: "'a client_scheme client_class \<Rightarrow> region \<Rightarrow> ('a client_scheme, unit) exc" where
  "recvDecodingRichCursor c reg =
     ebind (egets (dr_clientFormat (cl_render c))) (\<lambda>pf.
     let bufsz = word_of_int (uint (rg_width reg) * uint (rg_height reg) * uint (bytePixel pf)) :: u32;
         masksz = ((unat (rg_width reg) + 7) div 8) * unat (rg_height reg) in
     ebind (crData (unat bufsz)) (\<lambda>buf. ebind (crData masksz) (\<lambda>mask.
     cl_fire c (ClRichCursor reg buf mask))))"

definition ref_rd16 :: "bool \<Rightarrow> streambufref \<Rightarrow> ('s, u16 \<times> streambufref) exc" where
  "ref_rd16 be sb = elift (getIntBE16 be ref_getRaw sb)"

definition ref_rd32 :: "bool \<Rightarrow> streambufref \<Rightarrow> ('s, u32 \<times> streambufref) exc" where
  "ref_rd32 be sb = elift (getIntBE32 be ref_getRaw sb)"

definition ref_rd8 :: "streambufref \<Rightarrow> ('s, u8 \<times> streambufref) exc" where
  "ref_rd8 sb = elift (getInt8 ref_getRaw sb)"

text \<open>Only the id and the size of a screen are kept.\<close>

primrec read_screens :: "bool \<Rightarrow> nat \<Rightarrow> streambufref \<Rightarrow> ('s, screeninfo list) exc" where
  "read_screens be 0 sb = ereturn []"
| "read_screens be (Suc n) sb =
     ebind (ref_rd32 be sb) (\<lambda>(id, sb). ebind (ref_rd16 be sb) (\<lambda>(posx, sb). ebind (ref_rd16 be sb) (\<lambda>(posy, sb).
     ebind (ref_rd16 be sb) (\<lambda>(w, sb). ebind (ref_rd16 be sb) (\<lambda>(h, sb). ebind (ref_rd32 be sb) (\<lambda>(flags, sb).
     ebind (read_screens be n sb) (\<lambda>screens.
     ereturn (\<lparr>rg_x = 0, rg_y = 0, rg_width = w, rg_height = h, si_id = id, si_flags = 0\<rparr> # screens))))))))"

definition recvDecodingExtDesktopSize ::
    "'a client_scheme client_class \<Rightarrow> int \<Rightarrow> int \<Rightarrow> xsize \<Rightarrow> ('a client_scheme, unit) exc" where
  "recvDecodingExtDesktopSize c status err sz =
     ebind cr8 (\<lambda>numOfScreens. ebind cr8 (\<lambda>pad1. ebind cr8 (\<lambda>pad2. ebind cr8 (\<lambda>pad3.
     ebind (crData (unat numOfScreens * 16)) (\<lambda>buf.
     ebind (read_screens (cl_be c) (unat numOfScreens) (streamBufRef (Some buf) (length buf))) (\<lambda>screens.
     cl_fire c (ClDesktopSize status err sz screens)))))))"

section \<open>Receiving messages\<close>

definition recvFBUpdateRegion :: "'a client_scheme client_class \<Rightarrow> ('a client_scheme, unit) exc" where
  "recvFBUpdateRegion c =
     ebind (cr16 (cl_be c)) (\<lambda>x. ebind (cr16 (cl_be c)) (\<lambda>y. ebind (cr16 (cl_be c)) (\<lambda>w.
     ebind (cr16 (cl_be c)) (\<lambda>h. ebind (cr32 (cl_be c)) (\<lambda>enc.
     let reg = Region x y w h; encodingType = sint enc in
     if encodingType = ENCODING_LTSM then recvDecodingLtsm c reg
     else if encodingType = ENCODING_LAST_RECT then ethrow RuntimeError
     else if encodingType = ENCODING_LTSM_CURSOR then recvDecodingLtsmCursor c reg
     else if encodingType = ENCODING_RICH_CURSOR then recvDecodingRichCursor c reg
     else if encodingType = ENCODING_EXT_DESKTOP_SIZE
     then recvDecodingExtDesktopSize c (sint x) (sint y) (toSize reg)
     else if encodingType = ENCODING_DESKTOP_SIZE then ereturn ()
     else recvDecodingUpdateRegion c encodingType reg)))))"

definition recvFBUpdateEvent :: "'a client_scheme client_class \<Rightarrow> ('a client_scheme, unit) exc" where
  "recvFBUpdateEvent c =
     ebind cr8 (\<lambda>pad. ebind (cr16 (cl_be c)) (\<lambda>numRects.
     eseq (eeach (\<lambda>_. recvFBUpdateRegion c) (replicate (unat numRects) ()))
       (cl_fire c ClFBUpdate)))"

primrec read_colors :: "nat \<Rightarrow> streambufref \<Rightarrow> ('s, color list) exc" where
  "read_colors 0 sb = ereturn []"
| "read_colors (Suc n) sb =
     ebind (ref_rd8 sb) (\<lambda>(r, sb). ebind (ref_rd8 sb) (\<lambda>(g, sb). ebind (ref_rd8 sb) (\<lambda>(b, sb).
     ebind (read_colors n sb) (\<lambda>cols.
     ereturn (color_default\<lparr>col_r := r, col_g := g, col_b := b\<rparr> # cols)))))"

definition recvColorMapEvent :: "'a client_scheme client_class \<Rightarrow> ('a client_scheme, unit) exc" where
  "recvColorMapEvent c =
     ebind cr8 (\<lambda>pad. ebind (cr16 (cl_be c)) (\<lambda>firstColor. ebind (cr16 (cl_be c)) (\<lambda>numColors.
     ebind (crData (unat numColors * 3)) (\<lambda>buf.
     ebind (read_colors (unat numColors) (streamBufRef (Some buf) (length buf))) (\<lambda>colors.
     cl_fire c (ClSetColorMap colors))))))"

definition recvBellEvent :: "'a client_scheme client_class \<Rightarrow> ('a client_scheme, unit) exc" where
  "recvBellEvent c = cl_fire c ClBell"

text \<open>\<open>std::abs\<close> of the smallest integer is undefined behaviour.\<close>

definition recvCutTextEvent :: "'a client_scheme client_class \<Rightarrow> ('a client_scheme, unit) exc" where
  "recvCutTextEvent c =
     ebind cr8 (\<lambda>pad1. ebind cr8 (\<lambda>pad2. ebind cr8 (\<lambda>pad3. ebind (cr32 (cl_be c)) (\<lambda>length.
     ebind (egets extClipboardLocalCaps) (\<lambda>caps.
     if sint length < 0 \<and> caps = 0 then ethrow RfbError
     else if sint length = - (2 ^ 31) then ethrow MemoryFault
     else ebind (crData (nat \<bar>sint length\<bar>)) (\<lambda>buf.
       if length = 0 then ereturn ()
       else if 0 < sint length then cl_fire c (ClCutText buf)
       else recvExtClipboardCapsEvent (cl_clip c) (cl_zlib c) (cl_be c) buf))))))"

definition recvContinuousUpdatesEvent :: "'a client_scheme client_class \<Rightarrow> ('a client_scheme, unit) exc" where
  "recvContinuousUpdatesEvent c =
     eseq (emodify (\<lambda>s. s\<lparr>cl_continueSupport := True\<rparr>))
     (ebind (egets (cl_clientSize c)) (\<lambda>csz.
      cl_spawn (JobContinuousUpdates False (Region 0 0 (sz_width csz) (sz_height csz)))))"

text \<open>The event stands for \<open>ChannelClient::recvLtsmProto\<close>.\<close>

definition cl_recvLtsmProto :: "'a client_scheme client_class \<Rightarrow> ('a client_scheme, unit) exc" where
  "cl_recvLtsmProto c =
     ebind (egets cl_ltsmVersion) (\<lambda>supported.
     if supported = 0 then ethrow NetworkError
     else ebind cr8 (\<lambda>version.
       if version \<noteq> LtsmProtocolVersion then ethrow RuntimeError
       else ebind cr8 (\<lambda>channel. ebind (cr16 (cl_be c)) (\<lambda>length.
         ebind (crData (unat length)) (\<lambda>buf. cl_fire c (ClLtsm channel buf))))))"

definition client_round :: "'a client_scheme client_class \<Rightarrow> ('a client_scheme, unit) exc" where
  "client_round c =
     ebind cr8 (\<lambda>msgType.
     if msgType = PROTOCOL_LTSM then cl_recvLtsmProto c
     else if msgType = SERVER_FB_UPDATE then recvFBUpdateEvent c
     else if msgType = SERVER_SET_COLOURMAP then recvColorMapEvent c
     else if msgType = SERVER_BELL then recvBellEvent c
     else if msgType = SERVER_CUT_TEXT then recvCutTextEvent c
     else if msgType = SERVER_CONTINUOUS_UPDATES then recvContinuousUpdatesEvent c
     else ethrow NetworkError)"

text \<open>The loop ends by an exception only; a round takes at least one byte.\<close>

primrec client_rounds :: "nat \<Rightarrow> 'a client_scheme client_class \<Rightarrow> ('a client_scheme, unit) exc" where
  "client_rounds 0 c = ethrow Diverges"
| "client_rounds (Suc n) c = eseq (client_round c) (client_rounds n c)"

definition supportedEncodings :: "'s client_class \<Rightarrow> bool \<Rightarrow> int list" where
  "supportedEncodings c extclip =
     (if decoding_ltsm c then [ENCODING_LTSM_QOI] @
        (if decoding_lz4 c then [ENCODING_LTSM_ZQOI, ENCODING_LTSM_LZ4] else []) @
        (if decoding_tjpg c then [ENCODING_LTSM_TJPG] else []) else []) @
     (if decoding_ffmpeg c then (if decoding_h264 c then [ENCODING_LTSM_H264] else []) @
        (if decoding_mpeg4 c then [ENCODING_LTSM_MPEG4] else []) else []) @
     [ENCODING_LTSM_KEYB, ENCODING_LTSM_CURSOR,
      ENCODING_ZRLE, ENCODING_TRLE, ENCODING_HEXTILE, ENCODING_ZLIB, ENCODING_CORRE, ENCODING_RRE] @
     (if decoding_opus c then [ENCODING_LTSM_OPUS] else []) @ [ENCODING_LTSM_PCM] @
     (if extclip then [ENCODING_EXT_CLIPBOARD] else []) @ [ENCODING_RAW]"

text \<open>\<open>remove1\<close> is the erasure of the iterator that \<open>find_if\<close> returns, \<open>removeAll\<close> is \<open>std::list::remove\<close>.\<close>

definition insert_after_ltsm :: "int \<Rightarrow> int list \<Rightarrow> int list" where
  "insert_after_ltsm enc encodings =
     (let i = length (takeWhile (\<lambda>e. e \<noteq> ENCODING_LTSM) encodings) in
      if i = length encodings then encodings @ [enc] else take (Suc i) encodings @ [enc] @ drop (Suc i) encodings)"

definition client_encodings :: "'s client_class \<Rightarrow> int list" where
  "client_encodings c =
     (let encodings = [ENCODING_CONTINUOUS_UPDATES, ENCODING_EXT_DESKTOP_SIZE, ENCODING_RICH_CURSOR,
            ENCODING_LAST_RECT] @ supportedEncodings c False;
          encodings = (if 0 < cl_audioEncoding c then cl_audioEncoding c # encodings else encodings);
          encodings = (if cl_ltsmSupported c then ENCODING_LTSM # encodings else encodings);
          preffered = cl_videoEncoding c
      in if 0 < preffered then
           let encodings = (if decoding_ffmpeg c \<and> preffered \<noteq> ENCODING_LTSM_H264
                            then removeAll ENCODING_LTSM_H264 encodings else encodings);
               encodings = (if decoding_ffmpeg c \<and> preffered \<noteq> ENCODING_LTSM_MPEG4
                            then removeAll ENCODING_LTSM_MPEG4 encodings else encodings)
           in if List.member encodings preffered
              then insert_after_ltsm preffered (remove1 preffered encodings) else encodings
         else encodings)"

definition rfbMessagesLoopAwait :: "'a client_scheme client_class \<Rightarrow> ('a client_scheme, unit) exc" where
  "rfbMessagesLoopAwait c s =
     eseq (sendEncodingsAwait (client_encodings c))
     (eseq (sendPixelFormatAwait c)
     (eseq (sendFullUpdateAwait c False)
     (client_rounds (length (cl_input s) + 1) c))) s"

end
