(* ===== verification/Rfb_Messages.thy ===== *)
theory Rfb_Messages
  imports Rfb_Loop Rfb_Client
begin

text \<open>
  The client's messages and the server: every message that a client sends arrives as the event that
  it stands for, with the state it leaves on the server, and a sequence of messages as the sequence
  of their events. \<open>base_class\<close> is the server without a derived class: the event methods of
  \<^verbatim>\<open>RFB::ServerEncoder\<close> are empty; its clipboard sends as that of \<^verbatim>\<open>RFB::X11Server\<close> does.
\<close>

section \<open>Reading step by step\<close>

lemma rd_steps [exc_simps]:
  assumes "rfbMessages s"
  shows "1 \<le> length (sv_input s) \<Longrightarrow> ebind rd8 f8 s = f8 (hd (sv_input s)) (s\<lparr>sv_input := tl (sv_input s)\<rparr>)"
    and "2 \<le> length (sv_input s) \<Longrightarrow>
      ebind (rd16 be) f16 s = f16 (be_val (take 2 (sv_input s))) (s\<lparr>sv_input := drop 2 (sv_input s)\<rparr>)"
    and "4 \<le> length (sv_input s) \<Longrightarrow>
      ebind (rd32 be) f32 s = f32 (be_val (take 4 (sv_input s))) (s\<lparr>sv_input := drop 4 (sv_input s)\<rparr>)"
    and "n \<le> length (sv_input s) \<Longrightarrow>
      ebind (rdData n) fd s = fd (take n (sv_input s)) (s\<lparr>sv_input := drop n (sv_input s)\<rparr>)"
    and "n \<le> length (sv_input s) \<Longrightarrow>
      ebind (rdSkip n) fs s = fs () (s\<lparr>sv_input := drop n (sv_input s)\<rparr>)"
proof -
  show "ebind rd8 f8 s = f8 (hd (sv_input s)) (s\<lparr>sv_input := tl (sv_input s)\<rparr>)" if "1 \<le> length (sv_input s)"
    using that by (intro takes_step [OF takes_ints(1) assms]) (cases "sv_input s"; simp)
  show "ebind (rd16 be) f16 s = f16 (be_val (take 2 (sv_input s))) (s\<lparr>sv_input := drop 2 (sv_input s)\<rparr>)"
    if "2 \<le> length (sv_input s)"
    using that by (intro takes_step [OF takes_ints(2) assms]) simp
  show "ebind (rd32 be) f32 s = f32 (be_val (take 4 (sv_input s))) (s\<lparr>sv_input := drop 4 (sv_input s)\<rparr>)"
    if "4 \<le> length (sv_input s)"
    using that by (intro takes_step [OF takes_ints(3) assms]) simp
  show "ebind (rdData n) fd s = fd (take n (sv_input s)) (s\<lparr>sv_input := drop n (sv_input s)\<rparr>)"
    if "n \<le> length (sv_input s)"
    using that by (intro takes_step [OF takes_data assms]) simp_all
  show "ebind (rdSkip n) fs s = fs () (s\<lparr>sv_input := drop n (sv_input s)\<rparr>)"
    if "n \<le> length (sv_input s)"
    using that by (intro takes_step [OF takes_skip [of n "take n (sv_input s)"] assms]) simp_all
qed

section \<open>Messages\<close>

datatype client_message =
    MsgPixelFormat pixelformat
  | MsgEncodings "int list"
  | MsgFBUpdate bool region
  | MsgKey bool u32 u16
  | MsgPointer u8 u16 u16
  | MsgCutText bytes
  | MsgContinuousUpdates bool region
  | MsgDesktopSize xsize
  | MsgChannel u8 bytes

text \<open>Sending a message from a client of byte order \<open>be\<close>, and its bytes.\<close>

definition send_message :: "bool \<Rightarrow> client_message \<Rightarrow> ('a client_scheme, unit) exc" where
  "send_message be m = (case m of
     MsgPixelFormat pf \<Rightarrow> cl_send (pixelFormat_message be pf)
   | MsgEncodings encs \<Rightarrow> sendEncodingsAwait encs
   | MsgFBUpdate incr reg \<Rightarrow> sendFrameBufferUpdateAwait reg incr
   | MsgKey pressed keysym scancode \<Rightarrow> sendKeyEventAwait pressed keysym scancode
   | MsgPointer buttons x y \<Rightarrow> sendPointerEventAwait buttons x y
   | MsgCutText buf \<Rightarrow> sendCutTextEventAwait buf False
   | MsgContinuousUpdates enable reg \<Rightarrow> sendContinuousUpdatesAwait enable reg
   | MsgDesktopSize sz \<Rightarrow> sendSetDesktopSizeAwait sz
   | MsgChannel ch buf \<Rightarrow> sendLtsmChannelAwait ch buf)"

definition message_bytes :: "bool \<Rightarrow> client_message \<Rightarrow> bytes" where
  "message_bytes be m = cl_output (snd (send_message be m
     \<lparr>remoteExtClipboardFlags = 0, remoteExtClipTypeTextSz = 0, remoteExtClipTypeRtfSz = 0,
      remoteExtClipTypeHtmlSz = 0, remoteExtClipTypeDibSz = 0, remoteExtClipTypeFilesSz = 0,
      localExtClipboardFlags = 0, localExtClipTypeTextSz = 0, localExtClipTypeRtfSz = 0,
      localExtClipTypeHtmlSz = 0, localExtClipTypeDibSz = 0, localExtClipTypeFilesSz = 0,
      localProvideTypes = 0, cl_input = [], cl_output = [], cl_room = None, cl_log = [], cl_spawned = [],
      cl_decoder = None, cl_serverPf = RGB565, cl_ltsmVersion = 0, cl_serverTrueColor = False,
      cl_serverBigEndian = False, cl_continueSupport = False, cl_continueProcessed = False\<rparr>))"

lemma send_message_bytes:
  assumes "cl_room s = None"
  shows "\<exists>t. send_message be m s = (Inr (), t) \<and> cl_output t = cl_output s @ message_bytes be m \<and> cl_room t = None"
  using assms
  by (cases m) (simp_all add: send_message_def message_bytes_def cl_send_def sendEncodingsAwait_def
      sendFrameBufferUpdateAwait_def sendKeyEventAwait_def sendPointerEventAwait_def sendCutTextEventAwait_def
      sendContinuousUpdatesAwait_def sendSetDesktopSizeAwait_def sendLtsmChannelAwait_def Let_def ebind_def)

lemma message_bytes_simps:
  "message_bytes be (MsgPixelFormat pf) = pixelFormat_message be pf"
  "message_bytes be (MsgEncodings encs) = [CLIENT_SET_ENCODINGS, 0] @ be_bytes 2 (of_nat (length encs) :: u16) @
     concat (map (\<lambda>val. be_bytes 4 (word_of_int val :: u32)) encs)"
  "message_bytes be (MsgFBUpdate incr reg) = [CLIENT_REQUEST_FB_UPDATE, bool8 incr] @ region_bytes reg"
  "message_bytes be (MsgKey pressed keysym scancode) =
     [CLIENT_EVENT_KEY, bool8 pressed] @ be_bytes 2 scancode @ be_bytes 4 keysym"
  "message_bytes be (MsgPointer buttons x y) = [CLIENT_EVENT_POINTER, buttons] @ be_bytes 2 x @ be_bytes 2 y"
  "message_bytes be (MsgCutText buf) =
     [CLIENT_CUT_TEXT, 0, 0, 0] @ be_bytes 4 (of_nat (length buf) :: u32) @ buf"
  "message_bytes be (MsgContinuousUpdates enable reg) = [CLIENT_CONTINUOUS_UPDATES, bool8 enable] @ region_bytes reg"
  "message_bytes be (MsgDesktopSize sz) = [CLIENT_SET_DESKTOP_SIZE, 0] @ be_bytes 2 (sz_width sz) @
     be_bytes 2 (sz_height sz) @ [1, 0] @ be_bytes 4 (0 :: u32) @ be_bytes 4 (0 :: u32) @ be_bytes 2 (sz_width sz) @
     be_bytes 2 (sz_height sz) @ be_bytes 4 (0 :: u32)"
  "message_bytes be (MsgChannel ch buf) =
     [PROTOCOL_LTSM, LtsmProtocolVersion, ch] @ be_bytes 2 (of_nat (length buf) :: u16) @ buf"
  by (simp_all add: send_message_def message_bytes_def cl_send_def sendEncodingsAwait_def
      sendFrameBufferUpdateAwait_def sendKeyEventAwait_def sendPointerEventAwait_def sendCutTextEventAwait_def
      sendContinuousUpdatesAwait_def sendSetDesktopSizeAwait_def sendLtsmChannelAwait_def Let_def ebind_def)

section \<open>What a message means to the server\<close>

text \<open>
  The messages a client may send to a server that knows (\<open>ltsm\<close>) or does not know it for a client of
  LTSM: formats and texts that the protocol allows, encodings of 32 bits other than the extended
  clipboard, which the client never announces, and channel data only after an encoding of LTSM.
\<close>

definition legal :: "bool \<Rightarrow> client_message \<Rightarrow> bool" where
  "legal ltsm m = (case m of
     MsgPixelFormat pf \<Rightarrow> (bitsPixel pf = 32 \<or> bitsPixel pf = 16 \<or> bitsPixel pf = 8) \<and>
       redMax pf \<noteq> 0 \<and> greenMax pf \<noteq> 0 \<and> blueMax pf \<noteq> 0
   | MsgEncodings encs \<Rightarrow> length encs < 2 ^ 16 \<and> list_all (\<lambda>e. - (2 ^ 31) \<le> e \<and> e < 2 ^ 31) encs \<and>
       \<not> List.member encs ENCODING_EXT_CLIPBOARD
   | MsgCutText buf \<Rightarrow> buf \<noteq> [] \<and> length buf < 2 ^ 31
   | MsgChannel ch buf \<Rightarrow> length buf < 2 ^ 16 \<and> ltsm
   | _ \<Rightarrow> True)"

definition enabled_encodings :: "string list \<Rightarrow> int list \<Rightarrow> int list" where
  "enabled_encodings disabled encs = filter (\<lambda>e. \<not> is_disabled disabled e) encs"

definition ltsm_encoding :: "int \<Rightarrow> bool" where
  "ltsm_encoding e \<longleftrightarrow> List.member [ENCODING_LTSM, ENCODING_LTSM_ZQOI, ENCODING_LTSM_QOI, ENCODING_LTSM_LZ4,
     ENCODING_LTSM_TJPG, ENCODING_LTSM_H264, ENCODING_LTSM_MPEG4, ENCODING_LTSM_CURSOR, ENCODING_LTSM_KEYB] e"

definition announced_format :: "pixelformat \<Rightarrow> pixelformat" where
  "announced_format pf = pf\<lparr>alphaMax := 0, alphaShift := 0, bytePixel := drop_bit 3 (bitsPixel pf)\<rparr>"

definition message_event :: "bool \<Rightarrow> string list \<Rightarrow> client_message \<Rightarrow> 'a server_scheme \<Rightarrow> server_event" where
  "message_event be disabled m s = (case m of
     MsgPixelFormat pf \<Rightarrow> RecvPixelFormat (announced_format pf) be
   | MsgEncodings encs \<Rightarrow> RecvSetEncodings (enabled_encodings disabled encs)
   | MsgFBUpdate incr reg \<Rightarrow> RecvFBUpdate incr reg
   | MsgKey pressed keysym scancode \<Rightarrow> RecvKey pressed keysym (if clientLtsmKeyboard s then scancode else 0)
   | MsgPointer buttons x y \<Rightarrow> RecvPointer buttons x y
   | MsgCutText buf \<Rightarrow>
       RecvCutText (if localExtClipTypeTextSz s = 0 then buf else take (unat (localExtClipTypeTextSz s)) buf)
   | MsgContinuousUpdates enable reg \<Rightarrow> RecvSetContinuousUpdates enable reg
   | MsgDesktopSize sz \<Rightarrow> RecvDesktopSize [\<lparr>rg_x = 0, rg_y = 0, rg_width = sz_width sz, rg_height = sz_height sz,
       si_id = 0, si_flags = 0\<rparr>]
   | MsgChannel ch buf \<Rightarrow> RecvLtsm ch buf)"

definition message_effect ::
    "bool \<Rightarrow> string list \<Rightarrow> client_message \<Rightarrow> 'a server_scheme \<Rightarrow> 'a server_scheme" where
  "message_effect be disabled m s = (case m of
     MsgPixelFormat pf \<Rightarrow>
       s\<lparr>clientTrueColor := True, clientBigEndian := be, clientPf := announced_format pf, colourMap := []\<rparr>
   | MsgEncodings encs \<Rightarrow>
       (let encs = enabled_encodings disabled encs;
            cont = List.member encs ENCODING_CONTINUOUS_UPDATES in
        s\<lparr>clientLtsmSupported := clientLtsmSupported s \<or> list_ex ltsm_encoding encs,
          clientLtsmKeyboard := clientLtsmKeyboard s \<or> List.member encs ENCODING_LTSM_KEYB,
          clientEncodings := setPriority encs (clientEncodings s),
          sv_output := sv_output s @ (if cont then [SERVER_CONTINUOUS_UPDATES] else []),
          continueUpdatesProcessed := cont \<or> continueUpdatesProcessed s\<rparr>)
   | MsgContinuousUpdates enable reg \<Rightarrow> s\<lparr>continueUpdatesProcessed := enable\<rparr>
   | _ \<Rightarrow> s)"

section \<open>A round of the server's loop for every message\<close>

lemma region_eta [simp]: "Region (rg_x r) (rg_y r) (rg_width r) (rg_height r) = r"
  by (cases r) simp

lemma announced_max: "announced_format pf =
    pixelFormat_max (bitsPixel pf) (redMax pf) (greenMax pf) (blueMax pf) 0 (redShift pf) (greenShift pf) (blueShift pf) 0"
  by (cases pf) (simp add: announced_format_def pixelFormat_max_def)

lemma be_zero: "be_bytes 4 (0 :: u32) = [0, 0, 0, 0]" "be_val [0, 0] = (0 :: u16)" "be_val [0, 0, 0, 0] = (0 :: u32)"
  by code_simp+

lemma bool8 [simp]: "(bool8 b \<noteq> 0) = b" "(bool8 b = 0) = (\<not> b)"
  by (simp_all add: bool8_def)

lemma wait_idle [exc_simps]: "\<not> fbUpdateProcessing s \<Longrightarrow> ebind waitUpdateProcess f s = f () s"
  by (simp add: ebind_def waitUpdateProcess_def)

lemmas round_simps = messages_round_def exc_simps message_bytes_simps dispatch_def message_types
  message_event_def message_effect_def ebind_assoc

lemma round_simple:
  assumes "rfbMessages s" and "\<not> fbUpdateProcessing s"
    and "sv_input s = message_bytes be m @ rest" and "legal k m"
    and "\<And>encs. m \<noteq> MsgEncodings encs" and "\<And>buf. m \<noteq> MsgCutText buf" and "\<And>ch buf. m \<noteq> MsgChannel ch buf"
  shows "messages_round c s = eseq (fire c (message_event be disabled m s)) (ereturn True)
    (message_effect be disabled m (s\<lparr>sv_input := rest\<rparr>))"
proof (cases m)
  case (MsgPixelFormat pf)
  with assms(1-4) show ?thesis
    by (auto simp: round_simps recvPixelFormat_def Let_def pixelFormat_message_def legal_def announced_max)
next
  case (MsgFBUpdate incr reg)
  with assms(1-4) show ?thesis
    by (simp add: round_simps recvFramebufferUpdate_def rdRegion_def region_bytes_def)
next
  case (MsgKey pressed keysym scancode)
  with assms(1-4) show ?thesis by (simp add: round_simps recvKeyCode_def)
next
  case (MsgPointer b x y)
  with assms(1-4) show ?thesis by (simp add: round_simps recvPointer_def)
next
  case (MsgContinuousUpdates enable reg)
  with assms(1-4) show ?thesis
    by (simp add: round_simps recvSetContinuousUpdates_def rdRegion_def region_bytes_def)
next
  case (MsgDesktopSize sz)
  with assms(1-4) show ?thesis
    by (simp add: round_simps recvSetDesktopSize_def rdScreen_def be_zero)
qed (use assms(5-7) in auto)

lemma cut_length:
  assumes "buf \<noteq> []" and "length buf < 2 ^ 31"
  shows "0 < sint (of_nat (length buf) :: u32)" and "unat (of_nat (length buf) :: u32) = length buf"
proof -
  show "unat (of_nat (length buf) :: u32) = length buf"
    using assms(2) by (simp only: unsigned_of_nat) (simp add: take_bit_nat_eq_self)
  have "sint (of_nat (length buf) :: u32) = int (length buf)"
    using assms(2) by (simp add: signed_of_nat signed_take_bit_int_eq_self)
  with assms(1) show "0 < sint (of_nat (length buf) :: u32)" by simp
qed

lemma round_cutText:
  assumes "rfbMessages s" and "sv_input s = message_bytes be (MsgCutText buf) @ rest" and "legal k (MsgCutText buf)"
  shows "messages_round c s =
    eseq (fire c (message_event be disabled (MsgCutText buf) s)) (ereturn True) (s\<lparr>sv_input := rest\<rparr>)"
proof -
  have len: "buf \<noteq> []" "length buf < 2 ^ 31" using assms(3) by (simp_all add: legal_def)
  note cut = cut_length [OF len]
  let ?limit = "localExtClipTypeTextSz s" and ?n = "of_nat (length buf) :: u32"
  have min: "unat (min ?n ?limit) = min (length buf) (unat ?limit)"
    by (auto simp: min_def word_le_nat_alt cut)
  have "unat (?n - min ?n ?limit) = length buf - min (length buf) (unat ?limit)"
    by (subst unat_sub) (auto simp: min cut)
  moreover have "take (min (length buf) n) buf = take n buf" for n
    by (simp add: min_def)
  ultimately show ?thesis
    using min assms(1,2) cut by (simp add: round_simps recvCutText_def Let_def)
qed

lemma note_encodings:
  "ebind (note_encoding e) f s = f () (s\<lparr>clientLtsmSupported := clientLtsmSupported s \<or> ltsm_encoding e,
     clientLtsmKeyboard := clientLtsmKeyboard s \<or> e = ENCODING_LTSM_KEYB\<rparr>)"
  by (auto simp: note_encoding_def ltsm_encoding_def ebind_def encoding_defs)

lemma recv_encodings_bytes:
  fixes s :: "'a server_scheme"
  assumes "rfbMessages s" and "list_all (\<lambda>e. - (2 ^ 31) \<le> e \<and> e < 2 ^ 31) encs"
    and "sv_input s = concat (map (\<lambda>val. be_bytes 4 (word_of_int val :: u32)) encs) @ rest"
  shows "recv_encodings c disabled (length encs) acc cu ec s =
    (let encs = enabled_encodings disabled encs in
     (Inr (acc @ encs, cu \<or> List.member encs ENCODING_CONTINUOUS_UPDATES, ec \<or> List.member encs ENCODING_EXT_CLIPBOARD),
      s\<lparr>sv_input := rest, clientLtsmSupported := clientLtsmSupported s \<or> list_ex ltsm_encoding encs,
        clientLtsmKeyboard := clientLtsmKeyboard s \<or> List.member encs ENCODING_LTSM_KEYB\<rparr>))"
  using assms
proof (induction encs arbitrary: s acc cu ec)
  case Nil
  then show ?case by (simp add: enabled_encodings_def)
next
  case (Cons e encs)
  have e: "sint (word_of_int e :: u32) = e"
    using Cons.prems(2) by (simp add: signed_of_int signed_take_bit_int_eq_self)
  let ?rest = "concat (map (\<lambda>val. be_bytes 4 (word_of_int val :: u32)) encs) @ rest"
  let ?t = "(s\<lparr>sv_input := ?rest\<rparr>) :: 'a server_scheme"
  show ?case
  proof (cases "is_disabled disabled e")
    case True
    with Cons.prems e show ?thesis
      using Cons.IH [of ?t acc cu ec]
      by (simp add: exc_simps enabled_encodings_def)
  next
    case False
    let ?u = "?t\<lparr>clientLtsmSupported := clientLtsmSupported s \<or> ltsm_encoding e,
     clientLtsmKeyboard := clientLtsmKeyboard s \<or> e = ENCODING_LTSM_KEYB\<rparr>"
    from False Cons.prems e show ?thesis
      using Cons.IH [of ?u "acc @ [e]" "cu \<or> e = ENCODING_CONTINUOUS_UPDATES" "ec \<or> e = ENCODING_EXT_CLIPBOARD"]
      by (auto simp: exc_simps enabled_encodings_def note_encodings Let_def eq_commute [of ENCODING_LTSM_KEYB e])
  qed
qed

lemma round_encodings:
  fixes s :: "'a server_scheme"
  assumes "rfbMessages s" and "\<not> fbUpdateProcessing s" and "sv_room s = None"
    and "sv_input s = message_bytes be (MsgEncodings encs) @ rest" and "legal k (MsgEncodings encs)"
    and "\<And>t. sv_disabled c t = disabled"
  shows "messages_round c s =
    eseq (fire c (message_event be disabled (MsgEncodings encs) s)) (ereturn True)
      (message_effect be disabled (MsgEncodings encs) (s\<lparr>sv_input := rest\<rparr>))"
proof -
  have n: "unat (of_nat (length encs) :: u16) = length encs"
    using assms(5) by (simp only: unsigned_of_nat legal_def) (simp add: take_bit_nat_eq_self)
  have range: "list_all (\<lambda>e. - (2 ^ 31) \<le> e \<and> e < 2 ^ 31) encs"
    using assms(5) by (simp add: legal_def)
  have ext: "\<not> List.member (enabled_encodings disabled encs) ENCODING_EXT_CLIPBOARD"
    using assms(5) by (simp add: legal_def enabled_encodings_def)
  let ?t = "s\<lparr>sv_input := concat (map (\<lambda>val. be_bytes 4 (word_of_int val :: u32)) encs) @ rest\<rparr>"
  let ?encs = "enabled_encodings disabled encs"
  have recv: "ebind (recv_encodings c disabled (length encs) [] False False) f ?t =
      f (?encs, List.member ?encs ENCODING_CONTINUOUS_UPDATES, False)
        (s\<lparr>sv_input := rest, clientLtsmSupported := clientLtsmSupported s \<or> list_ex ltsm_encoding ?encs,
           clientLtsmKeyboard := clientLtsmKeyboard s \<or> List.member ?encs ENCODING_LTSM_KEYB\<rparr>)"
    for f :: "_ \<Rightarrow> ('a server_scheme, bool) exc"
    using recv_encodings_bytes [of ?t encs rest c disabled "[]" False False] assms(1) range ext
    by (simp add: ebind_def Let_def)
  from assms(1-4,6) n recv show ?thesis
    by (simp add: round_simps recvSetEncodings_def Let_def ewhen_def
        sendContinuousUpdates_def wr_bytes ebind_wrData wrData_running)
qed

text \<open>An exception of the channel listener ends the session.\<close>

lemma round_channel:
  assumes "rfbMessages s" and "sv_input s = message_bytes be (MsgChannel ch buf) @ rest"
    and "legal (clientLtsmSupported s) (MsgChannel ch buf)"
  shows "messages_round c s =
    ecatch (eseq (fire c (RecvLtsm ch buf)) (ereturn True))
      (\<lambda>e. if is_exception e then eseq rfbMessagesShutdown (ereturn False) else ethrow e) (s\<lparr>sv_input := rest\<rparr>)"
proof -
  have n: "unat (of_nat (length buf) :: u16) = length buf"
    using assms(3) by (simp only: unsigned_of_nat legal_def) (simp add: take_bit_nat_eq_self)
  with assms show ?thesis
    by (simp add: round_simps recvLtsmProto_def legal_def LtsmProtocolVersion_def ecatch_def)
qed

section \<open>Sequences of messages\<close>

text \<open>
  The methods of the derived class as functions on the state: they return and leave what the protocol
  depends on alone.
\<close>

definition protocol_view where
  "protocol_view s = (rfbMessages s, sv_input s, sv_room s, fbUpdateProcessing s, clientLtsmSupported s)"

locale event_effects = session_class c for c :: "'a server_scheme server_class" +
  fixes ev :: "server_event \<Rightarrow> 'a server_scheme \<Rightarrow> 'a server_scheme" and disabled :: "string list"
  assumes event_runs: "sv_event c e s = (Inr (), ev e s)"
    and event_view: "protocol_view (ev e s) = protocol_view s"
    and event_input: "ev e (s\<lparr>sv_input := i\<rparr>) = (ev e s)\<lparr>sv_input := i\<rparr>"
    and encodings_disabled: "sv_disabled c s = disabled"

text \<open>The state after a message: what it sets, the record of its event, and what the event method does.\<close>

definition deliver ::
    "bool \<Rightarrow> string list \<Rightarrow> (server_event \<Rightarrow> 'a server_scheme \<Rightarrow> 'a server_scheme) \<Rightarrow> client_message \<Rightarrow>
     'a server_scheme \<Rightarrow> 'a server_scheme" where
  "deliver be disabled ev m s =
     (let e = message_event be disabled m s; t = message_effect be disabled m s in
      ev e (t\<lparr>sv_log := sv_log t @ [e]\<rparr>))"

definition announces_ltsm :: "string list \<Rightarrow> client_message \<Rightarrow> bool" where
  "announces_ltsm disabled m = (case m of
     MsgEncodings encs \<Rightarrow> list_ex ltsm_encoding (enabled_encodings disabled encs) | _ \<Rightarrow> False)"

primrec legal_session :: "string list \<Rightarrow> bool \<Rightarrow> client_message list \<Rightarrow> bool" where
  "legal_session disabled ltsm [] \<longleftrightarrow> True"
| "legal_session disabled ltsm (m # ms) \<longleftrightarrow>
     legal ltsm m \<and> legal_session disabled (ltsm \<or> announces_ltsm disabled m) ms"

lemma message_effect_view:
  "protocol_view (message_effect be disabled m s) =
     (rfbMessages s, sv_input s, sv_room s, fbUpdateProcessing s, clientLtsmSupported s \<or> announces_ltsm disabled m)"
  by (cases m) (simp_all add: protocol_view_def message_effect_def announces_ltsm_def Let_def)

lemma message_event_input [simp]: "message_event be disabled m (s\<lparr>sv_input := i\<rparr>) = message_event be disabled m s"
  by (cases m) (simp_all add: message_event_def)

context event_effects begin

lemma fire_runs: "fire c e s = (Inr (), ev e (s\<lparr>sv_log := sv_log s @ [e]\<rparr>))"
  by (simp add: fire_def note_event_def event_runs)

lemma round_delivers:
  assumes "rfbMessages s" "\<not> fbUpdateProcessing s" "sv_room s = None"
    and "sv_input s = message_bytes be m @ rest" and "legal (clientLtsmSupported s) m"
  shows "messages_round c s = (Inr True, deliver be disabled ev m (s\<lparr>sv_input := rest\<rparr>))"
proof -
  have "messages_round c s = eseq (fire c (message_event be disabled m s)) (ereturn True)
      (message_effect be disabled m (s\<lparr>sv_input := rest\<rparr>))"
  proof (cases m)
    case (MsgEncodings encs)
    show ?thesis unfolding MsgEncodings
      by (rule round_encodings) (use assms MsgEncodings encodings_disabled in auto)
  next
    case (MsgCutText buf)
    with assms show ?thesis by (simp add: round_cutText [where disabled = disabled] message_effect_def)
  next
    case (MsgChannel ch buf)
    with assms show ?thesis
      by (simp add: round_channel message_effect_def message_event_def ecatch_def ebind_def fire_runs)
  qed (use assms in \<open>simp_all add: round_simple [where disabled = disabled]\<close>)
  then show ?thesis
    by (simp add: ebind_def fire_runs deliver_def Let_def)
qed

lemma deliver_view:
  "protocol_view (deliver be disabled ev m s) =
     (rfbMessages s, sv_input s, sv_room s, fbUpdateProcessing s, clientLtsmSupported s \<or> announces_ltsm disabled m)"
  using message_effect_view [of be disabled m s]
  by (simp add: deliver_def Let_def event_view) (simp add: protocol_view_def)

lemma effect_input:
  "(message_effect be disabled m s)\<lparr>sv_input := i\<rparr> = message_effect be disabled m (s\<lparr>sv_input := i\<rparr>)"
  by (cases m) (simp_all add: message_effect_def Let_def)

lemma log_input: "(t\<lparr>sv_log := l, sv_input := i\<rparr>) = (t :: 'b server_scheme)\<lparr>sv_input := i, sv_log := l\<rparr>"
  by (cases t) simp

lemma deliver_input: "(deliver be disabled ev m s)\<lparr>sv_input := i\<rparr> = deliver be disabled ev m (s\<lparr>sv_input := i\<rparr>)"
  by (simp add: deliver_def Let_def flip: event_input effect_input) (simp only: log_input)

lemma sv_input_same: "sv_input s = i \<Longrightarrow> s\<lparr>sv_input := i\<rparr> = s"
  by (cases s) simp

lemma rounds_deliver:
  assumes "rfbMessages s" "\<not> fbUpdateProcessing s" "sv_room s = None"
    and "sv_input s = concat (map (message_bytes be) ms) @ rest"
    and "legal_session disabled (clientLtsmSupported s) ms"
  shows "messages_rounds (length ms + n) c s =
    messages_rounds n c (fold (deliver be disabled ev) ms (s\<lparr>sv_input := rest\<rparr>))"
  using assms
proof (induction ms arbitrary: s)
  case (Cons m ms)
  let ?input = "concat (map (message_bytes be) ms) @ rest"
  let ?t = "deliver be disabled ev m (s\<lparr>sv_input := ?input\<rparr>)"
  have round: "messages_round c s = (Inr True, ?t)"
    by (rule round_delivers) (use Cons.prems in simp_all)
  have view: "rfbMessages ?t" "\<not> fbUpdateProcessing ?t" "sv_room ?t = None" "sv_input ?t = ?input"
    "clientLtsmSupported ?t = (clientLtsmSupported s \<or> announces_ltsm disabled m)"
    using deliver_view [of be m "s\<lparr>sv_input := ?input\<rparr>"] Cons.prems by (simp_all add: protocol_view_def)
  have "messages_rounds (length ms + n) c ?t =
      messages_rounds n c (fold (deliver be disabled ev) ms (?t\<lparr>sv_input := rest\<rparr>))"
    by (rule Cons.IH) (use view Cons.prems in simp_all)
  with round Cons.prems show ?case by (simp add: ebind_Inr deliver_input)
qed (simp add: sv_input_same)

end

end
