(* ===== verification/Rfb_Update.thy ===== *)
theory Rfb_Update
  imports Rfb_Loop
begin

text \<open>
  The choice of the encoder and the updates of the frame buffer of \<^verbatim>\<open>RFB::ServerEncoder\<close>
  (\<^verbatim>\<open>src/src/librfb/server/librfb_server.cpp\<close>). What the encoders take from the platform and from the
  libraries is the record \<open>frame_class\<close>.
\<close>

section \<open>Encoders\<close>

definition encoder_type :: "encoder_kind \<Rightarrow> int" where
  "encoder_type k = (case k of
       EncodingRaw \<Rightarrow> ENCODING_RAW
     | EncodingRRE corre \<Rightarrow> (if corre then ENCODING_CORRE else ENCODING_RRE)
     | EncodingHexTile \<Rightarrow> ENCODING_HEXTILE
     | EncodingTRLE zrle _ \<Rightarrow> (if zrle then ENCODING_ZRLE else ENCODING_TRLE)
     | EncodingZlib _ \<Rightarrow> ENCODING_ZLIB
     | EncodingLZ4 \<Rightarrow> ENCODING_LTSM_LZ4
     | EncodingTJPG \<Rightarrow> ENCODING_LTSM_TJPG
     | EncodingQOI zqoi \<Rightarrow> (if zqoi then ENCODING_LTSM_ZQOI else ENCODING_LTSM_QOI)
     | EncodingFFmpeg type \<Rightarrow> type)"

text \<open>
  \<open>fc_deflate\<close> is the output of a zlib stream for its next block, \<open>fc_lz4\<close> that of lz4; \<open>fc_tjpg\<close> and
  \<open>fc_ffmpeg\<close> stand for the encoders over the jpeg and the video library. \<open>fc_sent\<close> are the bytes
  an encoder has sent when it throws. \<open>fc_frame\<close> is \<open>serverFrameBuffer\<close>, \<open>None\<close> for its exception
  \<open>xcb_error_busy\<close>; \<open>fc_request\<close> is \<open>serverScreenUpdateRequest\<close>; \<open>fc_stoi\<close> the library's parser
  of numbers.
\<close>

record 's frame_class =
  fc_par :: bool
  fc_order :: "u32 list \<Rightarrow> u32 list"
  fc_displaySize :: "'s \<Rightarrow> xsize"
  fc_cores :: int
  fc_deflate :: "zstream \<Rightarrow> bytes \<Rightarrow> bytes res"
  fc_lz4 :: "bytes \<Rightarrow> bytes res"
  fc_tjpg :: "encoderstream \<Rightarrow> framebuffer \<Rightarrow> bytes res"
  fc_ffmpeg :: "int \<Rightarrow> encoderstream \<Rightarrow> framebuffer \<Rightarrow> bytes res"
  fc_sent :: "encoder \<Rightarrow> framebuffer \<Rightarrow> bytes"
  fc_frame :: "region \<Rightarrow> ('s, framebuffer option) exc"
  fc_request :: "('s, unit) exc"
  fc_stoi :: "string \<Rightarrow> int option"
  fc_tjpg_options :: "string list \<Rightarrow> bool"

definition deflate_next :: "'s frame_class \<Rightarrow> zstream \<Rightarrow> bytes \<Rightarrow> (bytes \<times> zstream) res" where
  "deflate_next fc z bs = rbind (fc_deflate fc z bs) (\<lambda>out. Inr (out, fst z, snd z @ [bs]))"

definition encoder_stream ::
    "'a server_scheme frame_class \<Rightarrow> 'a server_scheme server_class \<Rightarrow> 'a server_scheme \<Rightarrow> encoderstream" where
  "encoder_stream fc c s = \<lparr>es_be = sv_be c, es_par = fc_par fc, es_order = fc_order fc,
     serverFormat = sv_format c, clientFormat = clientPf s, clientIsBigEndian = clientBigEndian s,
     displaySize = fc_displaySize fc s\<rparr>"

text \<open>\<open>EncodingBase::sendFrameBuffer\<close> of every class: the bytes it sends and its own state after them.\<close>

definition encoder_sendFrameBuffer ::
    "'s frame_class \<Rightarrow> encoderstream \<Rightarrow> encoder \<Rightarrow> framebuffer \<Rightarrow> (bytes \<times> encoder_kind) res" where
  "encoder_sendFrameBuffer fc st e fb =
     (let k = enc_kind e; plain = (\<lambda>r. rbind r (\<lambda>out. Inr (out, k))) in
      case k of
        EncodingRaw \<Rightarrow> plain (raw_sendFrameBuffer st fb)
      | EncodingRRE corre \<Rightarrow> plain (rre_sendFrameBuffer st corre fb)
      | EncodingHexTile \<Rightarrow> plain (hextile_sendFrameBuffer st fb)
      | EncodingTRLE zrle z \<Rightarrow>
          rbind (trle_sendFrameBuffer (deflate_next fc) st zrle z fb) (\<lambda>(out, z). Inr (out, EncodingTRLE zrle z))
      | EncodingZlib ez \<Rightarrow>
          rbind (zlib_sendFrameBuffer (deflate_next fc) st ez fb) (\<lambda>(out, ez). Inr (out, EncodingZlib ez))
      | EncodingLZ4 \<Rightarrow> plain (lz4_sendFrameBuffer (fc_lz4 fc) st (enc_threads e) fb)
      | EncodingTJPG \<Rightarrow> plain (fc_tjpg fc st fb)
      | EncodingQOI zqoi \<Rightarrow> plain (qoi_sendFrameBuffer (fc_lz4 fc) st zqoi (enc_threads e) fb)
      | EncodingFFmpeg type \<Rightarrow> plain (fc_ffmpeg fc type st fb))"

section \<open>Choosing the encoder\<close>

definition server_encodings :: "'s server_class \<Rightarrow> int list" where
  "server_encodings c =
     (if with_ffmpeg_encoding c then [ENCODING_LTSM_H264, ENCODING_LTSM_MPEG4] else []) @
     (if with_ltsm_encoding c then [ENCODING_LTSM_ZQOI, ENCODING_LTSM_QOI, ENCODING_LTSM_LZ4, ENCODING_LTSM_TJPG] else []) @
     [ENCODING_ZRLE, ENCODING_TRLE, ENCODING_ZLIB, ENCODING_HEXTILE, ENCODING_CORRE, ENCODING_RRE, ENCODING_RAW]"

definition serverSelectCompatibleEncoding :: "'s server_class \<Rightarrow> int list \<Rightarrow> int" where
  "serverSelectCompatibleEncoding c encs = findPriorityFrom (server_encodings c) encs"

definition Z_BEST_SPEED :: int where
  "Z_BEST_SPEED = 1"

definition zlib_level :: "int list \<Rightarrow> int" where
  "zlib_level encs =
     (case List.find (\<lambda>enc. isPresent enc encs)
         [ENCODING_COMPRESS1, ENCODING_COMPRESS2, ENCODING_COMPRESS3, ENCODING_COMPRESS4, ENCODING_COMPRESS5,
          ENCODING_COMPRESS6, ENCODING_COMPRESS7, ENCODING_COMPRESS8, ENCODING_COMPRESS9] of
        Some enc \<Rightarrow> ENCODING_COMPRESS1 - enc + Z_BEST_SPEED
      | None \<Rightarrow> Z_BEST_SPEED)"

definition new_zstream :: "int \<Rightarrow> zstream" where
  "new_zstream level = (level, [])"

definition new_encoder :: "'s server_class \<Rightarrow> int list \<Rightarrow> int \<Rightarrow> encoder_kind" where
  "new_encoder c encs compatible =
     (if compatible = ENCODING_RAW then EncodingRaw
      else if compatible = ENCODING_ZLIB then EncodingZlib (encodingZlib new_zstream (zlib_level encs))
      else if compatible = ENCODING_HEXTILE then EncodingHexTile
      else if compatible = ENCODING_CORRE then EncodingRRE True
      else if compatible = ENCODING_RRE then EncodingRRE False
      else if compatible = ENCODING_TRLE then EncodingTRLE False (new_zstream Z_BEST_SPEED)
      else if compatible = ENCODING_ZRLE then EncodingTRLE True (new_zstream Z_BEST_SPEED)
      else if with_ffmpeg_encoding c \<and> (compatible = ENCODING_LTSM_H264 \<or> compatible = ENCODING_LTSM_MPEG4)
      then EncodingFFmpeg compatible
      else if with_ltsm_encoding c \<and> compatible = ENCODING_LTSM_ZQOI then EncodingQOI True
      else if with_ltsm_encoding c \<and> compatible = ENCODING_LTSM_QOI then EncodingQOI False
      else if with_ltsm_encoding c \<and> compatible = ENCODING_LTSM_LZ4 then EncodingLZ4
      else if with_ltsm_encoding c \<and> compatible = ENCODING_LTSM_TJPG then EncodingTJPG
      else EncodingRaw)"

definition change_qoi :: "pixelformat \<Rightarrow> int \<Rightarrow> int" where
  "change_qoi pf compatible =
     (if (compatible = ENCODING_LTSM_QOI \<or> compatible = ENCODING_LTSM_ZQOI) \<and> 24 \<noteq> depth pf
      then ENCODING_LTSM_LZ4 else compatible)"

definition serverSelectClientEncoding :: "'a server_scheme server_class \<Rightarrow> ('a server_scheme, unit) exc" where
  "serverSelectClientEncoding c s =
     (let compatible = serverSelectCompatibleEncoding c (clientEncodings s) in
      case sv_encoder s of
        Some e \<Rightarrow> if encoder_type (enc_kind e) = compatible then (Inr (), s)
          else eseq (emodify (\<lambda>s. s\<lparr>sv_encoder := Some
                 \<lparr>enc_kind = new_encoder c (clientEncodings s) (change_qoi (sv_format c) compatible), enc_threads = 2\<rparr>\<rparr>))
               (fire c EncoderInit) s
      | None \<Rightarrow> eseq (emodify (\<lambda>s. s\<lparr>sv_encoder := Some
                 \<lparr>enc_kind = new_encoder c (clientEncodings s) (change_qoi (sv_format c) compatible), enc_threads = 2\<rparr>\<rparr>))
               (fire c EncoderInit) s)"

definition serverSelectEncodings :: "'a server_scheme server_class \<Rightarrow> ('a server_scheme, unit) exc" where
  "serverSelectEncodings c = eseq (serverSelectClientEncoding c) (fire c EncodingSelected)"

definition isEncoderFFmpeg :: "'a server_scheme \<Rightarrow> bool" where
  "isEncoderFFmpeg s = (case sv_encoder s of
       None \<Rightarrow> False
     | Some e \<Rightarrow> encoder_type (enc_kind e) = ENCODING_LTSM_H264 \<or> encoder_type (enc_kind e) = ENCODING_LTSM_MPEG4)"

definition setEncodingThreads :: "'a server_scheme frame_class \<Rightarrow> int \<Rightarrow> 'a server_scheme \<Rightarrow> 'a server_scheme" where
  "setEncodingThreads fc threads s =
     (let threads = (if threads < 1 then 1 else if fc_cores fc < threads then fc_cores fc else threads)
      in s\<lparr>sv_encoder := map_option (\<lambda>e. e\<lparr>enc_threads := threads\<rparr>) (sv_encoder s)\<rparr>)"

text \<open>\<open>setEncodingOptions\<close> of the encoders; only those of zlib and of the jpeg library have options.\<close>

definition encoder_setOptions :: "'s frame_class \<Rightarrow> string list \<Rightarrow> encoder_kind \<Rightarrow> bool \<times> encoder_kind" where
  "encoder_setOptions fc opts k = (case k of
       EncodingZlib ez \<Rightarrow> (case zlib_setEncodingOptions (fc_stoi fc) new_zstream opts ez of (r, ez) \<Rightarrow> (r, EncodingZlib ez))
     | EncodingTJPG \<Rightarrow> (fc_tjpg_options fc opts, EncodingTJPG)
     | _ \<Rightarrow> (False, k))"

definition setEncodingOptions :: "'a server_scheme frame_class \<Rightarrow> string list \<Rightarrow> ('a server_scheme, unit) exc" where
  "setEncodingOptions fc opts s = (case sv_encoder s of
       None \<Rightarrow> (Inr (), s)
     | Some e \<Rightarrow>
         eseq (ewhen (isEncoderFFmpeg s) (fc_request fc))
         (case encoder_setOptions fc opts (enc_kind e) of (full, k) \<Rightarrow>
          eseq (emodify (\<lambda>s. s\<lparr>sv_encoder := Some (e\<lparr>enc_kind := k\<rparr>)\<rparr>)) (ewhen full (fc_request fc))) s)"

definition cursorFailed :: "u32 \<Rightarrow> ('a server_scheme, unit) exc" where
  "cursorFailed cursorId = emodify (\<lambda>s. s\<lparr>cursorSended := removeAll cursorId (cursorSended s)\<rparr>)"

section \<open>Sending an update\<close>

definition sendFrameBufferUpdate ::
    "'a server_scheme frame_class \<Rightarrow> 'a server_scheme server_class \<Rightarrow> framebuffer \<Rightarrow> ('a server_scheme, bool) exc" where
  "sendFrameBufferUpdate fc c fb s = (case sv_encoder s of
       None \<Rightarrow> (Inr False, s)
     | Some e \<Rightarrow>
         eseq (wr8 SERVER_FB_UPDATE) (eseq (wr8 0)
         (case encoder_sendFrameBuffer fc (encoder_stream fc c s) e fb of
            Inl err \<Rightarrow> eseq (wrData (fc_sent fc e fb)) (ethrow err)
          | Inr (out, k) \<Rightarrow>
              eseq (wrData out) (eseq (emodify (\<lambda>s. s\<lparr>sv_encoder := Some (e\<lparr>enc_kind := k\<rparr>)\<rparr>)) (ereturn True)))) s)"

definition sendUpdateSafe ::
    "'a server_scheme frame_class \<Rightarrow> 'a server_scheme server_class \<Rightarrow> region \<Rightarrow> ('a server_scheme, bool) exc" where
  "sendUpdateSafe fc c area =
     eseq (emodify (\<lambda>s. s\<lparr>fbUpdateProcessing := True\<rparr>))
     (ebind (ecatch
        (ebind (fc_frame fc area) (\<lambda>reply.
         case reply of
           None \<Rightarrow> ereturn True
         | Some fb \<Rightarrow> ebind (sendFrameBufferUpdate fc c fb) (\<lambda>sent.
             if sent then eseq (fire c (SendFBUpdate area)) (ereturn True) else ereturn False)))
        (\<lambda>e. if is_exception e then ereturn False else ethrow e)) (\<lambda>res.
      eseq (emodify (\<lambda>s. s\<lparr>fbUpdateProcessing := False\<rparr>)) (ereturn res)))"

section \<open>Properties\<close>

lemma server_encodings_type:
  "enc \<in> set (server_encodings c) \<Longrightarrow> encoder_type (new_encoder c encs enc) = enc"
  by (auto simp: server_encodings_def new_encoder_def encoder_type_def encoding_defs split: if_splits)

lemma compatible_cases:
  obtains "serverSelectCompatibleEncoding c encs \<in> set encs" and "serverSelectCompatibleEncoding c encs \<in> set (server_encodings c)"
  | "serverSelectCompatibleEncoding c encs = ENCODING_RAW" and "set encs \<inter> set (server_encodings c) = {}"
proof (cases "List.find (\<lambda>enc. list_ex (\<lambda>val. val = enc) (server_encodings c)) encs")
  case None
  then have "set encs \<inter> set (server_encodings c) = {}" by (auto simp: find_None_iff list_ex_iff)
  moreover have "serverSelectCompatibleEncoding c encs = ENCODING_RAW"
    using None by (simp add: serverSelectCompatibleEncoding_def findPriorityFrom_def)
  ultimately show ?thesis using that by blast
next
  case (Some enc)
  then have "enc \<in> set encs" "enc \<in> set (server_encodings c)"
    by (auto simp: find_Some_iff list_ex_iff)
  moreover have "serverSelectCompatibleEncoding c encs = enc"
    using Some by (simp add: serverSelectCompatibleEncoding_def findPriorityFrom_def)
  ultimately show ?thesis using that by blast
qed

lemma compatible_known: "serverSelectCompatibleEncoding c encs \<in> set (server_encodings c)"
  by (rule compatible_cases [of c encs]) (auto simp: server_encodings_def)

text \<open>What the client prefers among the encodings that the server has.\<close>

lemma compatible_find:
  "serverSelectCompatibleEncoding c encs =
     (case List.find (\<lambda>enc. enc \<in> set (server_encodings c)) encs of Some enc \<Rightarrow> enc | None \<Rightarrow> ENCODING_RAW)"
proof -
  have "(\<lambda>enc. list_ex (\<lambda>val. val = enc) (server_encodings c)) = (\<lambda>enc. enc \<in> set (server_encodings c))"
    by (auto simp: list_ex_iff)
  then show ?thesis by (simp add: serverSelectCompatibleEncoding_def findPriorityFrom_def)
qed

text \<open>The encoder that is there stays when its type is the one to use; otherwise a new one takes its place.\<close>

lemma selected_encoder:
  fixes s :: "'a server_scheme"
  assumes "\<And>e t. sv_encoder (snd (sv_event c e t)) = sv_encoder t"
  shows "sv_encoder (snd (serverSelectEncodings c s)) =
    (let compatible = serverSelectCompatibleEncoding c (clientEncodings s);
         new = Some \<lparr>enc_kind = new_encoder c (clientEncodings s) (change_qoi (sv_format c) compatible), enc_threads = 2\<rparr>
     in case sv_encoder s of
          None \<Rightarrow> new
        | Some e \<Rightarrow> if encoder_type (enc_kind e) = compatible then Some e else new)"
proof -
  have fired: "sv_encoder (snd (fire c e t)) = sv_encoder t" for e and t :: "'a server_scheme"
    using assms by (simp add: fire_def note_event_def)
  have seq: "sv_encoder (snd (eseq m (fire c e) t)) = sv_encoder (snd (m t))" for m :: "('a server_scheme, unit) exc" and e t
    by (simp add: ebind_def fired split: prod.split sum.split)
  show ?thesis
    unfolding serverSelectEncodings_def seq by (simp add: serverSelectClientEncoding_def fired Let_def split: option.split)
qed

lemma new_encoder_type:
  "encoder_type (new_encoder c encs (change_qoi (sv_format c) (serverSelectCompatibleEncoding c encs))) =
     change_qoi (sv_format c) (serverSelectCompatibleEncoding c encs)"
proof (cases "change_qoi (sv_format c) (serverSelectCompatibleEncoding c encs) = serverSelectCompatibleEncoding c encs")
  case True
  then show ?thesis by (simp add: server_encodings_type compatible_known)
next
  case False
  then have lz4: "change_qoi (sv_format c) (serverSelectCompatibleEncoding c encs) = ENCODING_LTSM_LZ4"
    and q: "serverSelectCompatibleEncoding c encs = ENCODING_LTSM_QOI \<or> serverSelectCompatibleEncoding c encs = ENCODING_LTSM_ZQOI"
    by (auto simp: change_qoi_def split: if_splits)
  then have "with_ltsm_encoding c"
    using compatible_known [of c encs] by (auto simp: server_encodings_def encoding_defs split: if_splits)
  with lz4 show ?thesis by (simp add: server_encodings_type server_encodings_def)
qed


text \<open>A server as its constructor leaves it, over a socket with the given input, and the class without events.\<close>

definition server_init :: "bytes \<Rightarrow> server" where
  "server_init input = extclip.extend extclip_init
     \<lparr>rfbMessages = True, sv_input = input, sv_junk = [], sv_output = [], sv_room = None, sv_log = [],
      clientEncodings = [ENCODING_RAW], cursorSended = [], sv_encoder = None, clientPf = RGB565,
      colourMap = [], fbUpdateProcessing = False, clientLtsmSupported = False, clientLtsmKeyboard = False,
      clientTrueColor = True, clientBigEndian = False, continueUpdatesProcessed = False,
      clientAuthName = [], clientAuthDomain = []\<rparr>"

definition base_class :: "server server_class" where
  "base_class = \<lparr>sv_be = False, sv_format = BGRX32, sv_event = (\<lambda>_. ereturn ()),
     sv_clip = \<lparr>extClipboardLocalTypes = (\<lambda>_. 0), extClipboardLocalData = (\<lambda>_. ereturn []),
       extClipboardRemoteTypesEvent = (\<lambda>_. ereturn ()), extClipboardRemoteDataEvent = (\<lambda>_ _. ereturn ()),
       extClipboardSendEvent = (\<lambda>buf. sendCutTextEvent False buf True)\<rparr>,
     sv_disabled = (\<lambda>_. []), sv_zlib = stored_zlib, sv_compress = Inr,
     with_ltsm_encoding = True, with_ffmpeg_encoding = False\<rparr>"


text \<open>
  The level of compression that a client asks for with an encoding of COMPRESS1 to COMPRESS9 is
  lost: the difference of the two numbers is never positive, so every stream has the lowest level.
\<close>

theorem zlib_level_lost: "new_encoder c encs ENCODING_ZLIB = EncodingZlib \<lparr>ez_zlib = (1, []), ez_level = 1\<rparr>"
proof -
  have "zlib_level encs \<le> 1"
    by (auto simp: zlib_level_def Z_BEST_SPEED_def encoding_defs split: option.split)
  then show ?thesis
    by (auto simp: new_encoder_def encodingZlib_def new_zstream_def encoding_defs Let_def)
qed

text \<open>
  An update never leaves the server waiting: whatever the encoder and the methods of the derived
  class do, a call that ends has cleared \<open>fbUpdateProcessing\<close>, and none of their exceptions escapes.
\<close>

theorem update_safe:
  "case fst (sendUpdateSafe fc c area s) of
     Inr b \<Rightarrow> \<not> fbUpdateProcessing (snd (sendUpdateSafe fc c area s))
   | Inl e \<Rightarrow> \<not> is_exception e"
  by (auto simp: sendUpdateSafe_def ebind_def ecatch_def split: prod.splits sum.splits if_splits)

end
