(* ===== verification/Rfb_Session.thy ===== *)
theory Rfb_Session
  imports Rfb_Messages Rfb_Update
begin

text \<open>
  A client and a server end to end: the sequence of messages that a client sends is handled by the
  server's loop as the sequence of their events. The events of \<open>base_class\<close>, those of
  \<^verbatim>\<open>RFB::ServerEncoder\<close> itself, are empty.
\<close>

lemma sends_bytes:
  "cl_room s = None \<Longrightarrow> \<exists>t. eeach (send_message be) ms s = (Inr (), t) \<and> cl_room t = None \<and>
     cl_output t = cl_output s @ concat (map (message_bytes be) ms)"
proof (induction ms arbitrary: s)
  case (Cons m ms)
  obtain t where t: "send_message be m s = (Inr (), t)" "cl_output t = cl_output s @ message_bytes be m" "cl_room t = None"
    using send_message_bytes [OF Cons.prems] by blast
  obtain u where "eeach (send_message be) ms t = (Inr (), u)" "cl_room u = None"
    "cl_output u = cl_output t @ concat (map (message_bytes be) ms)"
    using Cons.IH [OF t(3)] by blast
  with t show ?case by (simp add: ebind_Inr)
qed simp

lemma base_session: "session_class base_class"
proof
  show "sessional s0 (sv_event base_class e)" for s0 e
    by (simp add: base_class_def keeps_basic)
  show "sessional s0 (extClipboardLocalData (sv_clip base_class) t)"
    "sessional s0 (extClipboardRemoteTypesEvent (sv_clip base_class) t)"
    "sessional s0 (extClipboardRemoteDataEvent (sv_clip base_class) t bs)"
    "sessional s0 (extClipboardSendEvent (sv_clip base_class) bs)" for s0 t bs
    by (simp_all add: base_class_def keeps_basic session.sends_keep)
qed

interpretation base: event_effects base_class "\<lambda>e s. s" "[]"
  by (intro event_effects.intro event_effects_axioms.intro base_session) (simp_all add: base_class_def)

text \<open>The clipboard of a server that only sends leaves the members of the extended clipboard alone.\<close>

lemma sent_clip: "steps same_clip (sendCutTextEvent be buf ext :: ('a server_scheme, unit) exc)"
proof (rule steps_keeps)
  fix s0 :: "'a server_scheme"
  have writes: "keeps (same_clip s0) (wrData bs :: ('a server_scheme, unit) exc)" for bs
    by (rule keepsI) (auto simp: wrData_def ewriter_def server_sendRaw_def rfbMessagesShutdown_def note_event_def
        same_clip_def extclip.truncate_def split: option.split)
  show "keeps (same_clip s0) (sendCutTextEvent be buf ext :: ('a server_scheme, unit) exc)"
    unfolding sendCutTextEvent_def wr_bytes by (intro keeps_intros writes)
qed (simp add: same_clip_def)

interpretation base_clip: clip_methods "sv_clip base_class"
  by unfold_locales (simp_all add: base_class_def sent_clip, simp_all add: steps_def same_clip_def)

interpretation base_clip_keeps: clip_keeps "sv_clip base_class" provide_bounded
  by (rule base_clip.keeps_clip) (simp add: provide_bounded_def same_clip_simps)

text \<open>
  C1. The messages that a client sends, in any order that the protocol allows, reach the server's class
  one by one: its loop on their bytes goes on as from the state in which every message has had its
  effect and every event has been handled, with the bytes that follow still to be read.
\<close>

theorem messages_delivered:
  assumes "event_effects c ev disabled" and "cl_room cl = None" and "cl_output cl = []"
    and "rfbMessages s" "\<not> fbUpdateProcessing s" "sv_room s = None"
    and "sv_input s = cl_output (snd (eeach (send_message be) ms cl)) @ rest"
    and "legal_session disabled (clientLtsmSupported s) ms"
  shows "fst (eeach (send_message be) ms cl) = Inr () \<and>
    rfbMessagesLoop c s = rfbMessagesLoop c (fold (deliver be disabled ev) ms (s\<lparr>sv_input := rest\<rparr>))"
proof -
  obtain cl' where cl: "eeach (send_message be) ms cl = (Inr (), cl')"
    "cl_output cl' = concat (map (message_bytes be) ms)"
    using sends_bytes [OF assms(2), of be ms] assms(3) by auto
  let ?t = "fold (deliver be disabled ev) ms (s\<lparr>sv_input := rest\<rparr>)"
  have input: "sv_input (fold (deliver be disabled ev) ks u) = sv_input u" for ks u
    by (induction ks arbitrary: u) (use event_effects.deliver_view [OF assms(1)] in \<open>simp_all add: protocol_view_def\<close>)
  have session: "session_class c" using assms(1) by (rule event_effects.axioms)
  let ?n = "length (sv_input s) + 2"
  have "rfbMessagesLoop c s = messages_rounds (length ms + ?n) c s"
    by (rule session_class.loop_rounds [OF session, symmetric]) simp
  also have "\<dots> = messages_rounds ?n c ?t"
    by (rule event_effects.rounds_deliver [OF assms(1)]) (use assms cl in simp_all)
  also have "\<dots> = rfbMessagesLoop c ?t"
    by (rule session_class.loop_rounds [OF session]) (use assms(7) in \<open>simp add: input\<close>)
  finally show ?thesis using cl by simp
qed

text \<open>The client of the witness: the state of \<open>message_bytes\<close>, with a pointer and a key message.\<close>

definition client_init :: client where
  "client_init = extclip.extend extclip_init
     \<lparr>cl_input = [], cl_output = [], cl_room = None, cl_log = [], cl_spawned = [], cl_decoder = None,
      cl_serverPf = RGB565, cl_ltsmVersion = 0, cl_serverTrueColor = True, cl_serverBigEndian = False,
      cl_continueSupport = False, cl_continueProcessed = False\<rparr>"

theorem messages_delivered_witness:
  "rfbMessagesLoop base_class (server_init [5, 1, 0, 9, 0, 7, 4, 1, 0, 30, 0, 0, 0, 97]) =
   rfbMessagesLoop base_class (fold (deliver False [] (\<lambda>e s. s)) [MsgPointer 1 9 7, MsgKey True 97 30] (server_init []))"
proof -
  let ?s = "server_init [5, 1, 0, 9, 0, 7, 4, 1, 0, 30, 0, 0, 0, 97]" and ?ms = "[MsgPointer 1 9 7, MsgKey True 97 30]"
  have s: "rfbMessages ?s" "\<not> fbUpdateProcessing ?s" "sv_room ?s = None"
    "legal_session [] (clientLtsmSupported ?s) ?ms" "cl_room client_init = None" "cl_output client_init = []"
    by code_simp+
  have "sv_input ?s = cl_output (snd (eeach (send_message False) ?ms client_init)) @ []" by code_simp
  with messages_delivered [OF base.event_effects_axioms s(5,6) s(1-3) _ s(4)]
  have "rfbMessagesLoop base_class ?s = rfbMessagesLoop base_class (fold (deliver False [] (\<lambda>e s. s)) ?ms (?s\<lparr>sv_input := []\<rparr>))"
    by blast
  moreover have "?s\<lparr>sv_input := []\<rparr> = server_init []" by code_simp
  ultimately show ?thesis by simp
qed

end
