(* ===== verification/Rfb_Security.thy ===== *)
theory Rfb_Security
  imports Rfb_Update
begin

text \<open>
  The handshake of \<^verbatim>\<open>RFB::ServerEncoder\<close> (\<^verbatim>\<open>src/src/librfb/server/librfb_server.cpp\<close>): version,
  security type, authentication, VeNCrypt, client init, and the cipher of
  \<^verbatim>\<open>src/src/common/ltsm_sockets.cpp\<close> that the VNC authentication uses. What it calls of gnutls, GSSAPI,
  the file system and the random generator is the record \<open>security_class\<close>.
\<close>

section \<open>The cipher of a challenge\<close>

text \<open>The bits of a byte of the password are reversed, the parity bit of the key is zero.\<close>

definition key_byte :: "u8 \<Rightarrow> u8" where
  "key_byte val =
     (if val \<noteq> 0 then ucast ((ucast val * 0x0202020202 AND 0x010884422010 :: u64) mod 1023) AND 0xfe else val)"

definition des_key :: "bytes \<Rightarrow> bytes" where
  "des_key str = map key_byte (take 8 (take 8 str @ replicate 8 0))"

text \<open>
  \<open>TLS::encryptDES\<close> makes a new context for every block: \<open>gnutls key iv block\<close> is the result of
  \<open>gnutls_cipher_encrypt\<close> in the mode \<open>DES_CBC\<close>, or the exception after an error.
\<close>

function encrypt_blocks :: "(bytes \<Rightarrow> bytes \<Rightarrow> bytes \<Rightarrow> bytes res) \<Rightarrow> bytes \<Rightarrow> bytes \<Rightarrow> bytes res" where
  "encrypt_blocks gnutls key res =
     (if res = [] then Inr []
      else rbind (gnutls key (replicate 8 0) (take 8 res)) (\<lambda>block.
        rbind (encrypt_blocks gnutls key (drop 8 res)) (\<lambda>rest. Inr (block @ rest))))"
  by pat_completeness auto
termination by (relation "measure (\<lambda>(_, _, res). length res)") auto

declare encrypt_blocks.simps [simp del]

definition encryptDES :: "(bytes \<Rightarrow> bytes \<Rightarrow> bytes \<Rightarrow> bytes res) \<Rightarrow> bytes \<Rightarrow> bytes \<Rightarrow> bytes res" where
  "encryptDES gnutls data str = encrypt_blocks gnutls (des_key str) data"

section \<open>Parameters\<close>

record securityinfo =
  passwdFile :: string
  caFile :: string
  certFile :: string
  keyFile :: string
  krb5Service :: string
  krb5Name :: string
  authNone :: bool
  authVnc :: bool
  authVenCrypt :: bool
  authKrb5 :: bool
  tlsAnonMode :: bool

text \<open>
  \<open>sc_file\<close> is what an input stream reads of a file, \<open>None\<close> when it cannot be opened. \<open>sc_tls\<close> makes
  the TLS session over the socket, with or without certificates, and puts it in place of the streams:
  from then on the input and the output of the server are those of the session; it returns false
  after an exception of gnutls. \<open>sc_gss\<close> is the handshake of the Kerberos layer with the name of the
  peer, \<open>None\<close> when it fails; \<open>sc_gssRaw\<close> reads through that layer, \<open>sc_continueTls\<close> is the member
  \<open>continue:tls\<close> of the JSON object that is read.
\<close>

record 's security_class =
  sc_be :: bool
  with_gnutls :: bool
  with_gssapi :: bool
  noVncMode :: "'s \<Rightarrow> bool"
  sc_randomBytes :: "nat \<Rightarrow> 's \<Rightarrow> bytes"
  sc_exists :: "string \<Rightarrow> bool"
  sc_file :: "string \<Rightarrow> bytes option"
  sc_gnutls :: "bytes \<Rightarrow> bytes \<Rightarrow> bytes \<Rightarrow> bytes res"
  sc_tls :: "bool \<Rightarrow> ('s, bool) exc"
  sc_gss :: "string \<Rightarrow> ('s, string option) exc"
  sc_gssRaw :: "'s get_raw"
  sc_continueTls :: "bytes \<Rightarrow> bool res"

definition "SECURITY_TYPE_NONE = (1 :: u8)"
definition "SECURITY_TYPE_VNC = (2 :: u8)"
definition "SECURITY_TYPE_VENCRYPT = (19 :: u8)"
definition "SECURITY_TYPE_GSSAPI = (77 :: u8)"
definition "SECURITY_VENCRYPT01_TLSNONE = (20 :: u8)"
definition "SECURITY_VENCRYPT01_X509NONE = (23 :: u8)"
definition "SECURITY_VENCRYPT02_TLSNONE = (257 :: u32)"
definition "SECURITY_VENCRYPT02_X509NONE = (260 :: u32)"
definition "SECURITY_RESULT_OK = (0 :: u32)"
definition "SECURITY_RESULT_ERR = (1 :: u32)"

lemmas security_defs = SECURITY_TYPE_NONE_def SECURITY_TYPE_VNC_def SECURITY_TYPE_VENCRYPT_def
  SECURITY_TYPE_GSSAPI_def SECURITY_VENCRYPT01_TLSNONE_def SECURITY_VENCRYPT01_X509NONE_def
  SECURITY_VENCRYPT02_TLSNONE_def SECURITY_VENCRYPT02_X509NONE_def SECURITY_RESULT_OK_def SECURITY_RESULT_ERR_def

section \<open>Version\<close>

definition digits3 :: "nat \<Rightarrow> bytes" where
  "digits3 n = [of_nat (48 + n div 100), of_nat (48 + n div 10 mod 10), of_nat (48 + n mod 10)]"

definition rfb_version :: "nat \<Rightarrow> nat \<Rightarrow> bytes" where
  "rfb_version major minor = str_bytes ''RFB '' @ digits3 major @ str_bytes ''.'' @ digits3 minor @ [10]"

definition serverHandshakeVersion :: "('a server_scheme, nat) exc" where
  "serverHandshakeVersion =
     (let version = rfb_version 3 8 in
      eseq (wrData version)
      (ebind (rdData 12) (\<lambda>magick.
       ereturn (if magick = rfb_version 3 3 then 33
         else if magick = rfb_version 3 7 then 37
         else if magick \<noteq> version then 0 else 38))))"

section \<open>Authentication\<close>

text \<open>The lines that \<open>std::getline\<close> gives until the stream is no longer good.\<close>

function getlines :: "bytes \<Rightarrow> bytes list" where
  "getlines cont =
     (let line = takeWhile (\<lambda>c. c \<noteq> 10) cont; rest = dropWhile (\<lambda>c. c \<noteq> 10) cont
      in if rest = [] then [line] else line # getlines (tl rest))"
  by pat_completeness auto
termination
proof (relation "measure length", goal_cases)
  case (2 cont line rest)
  then have "cont \<noteq> []" by auto
  moreover have "length rest \<le> length cont" using 2 by (simp add: length_dropWhile_le)
  moreover have "length (tl rest) < length rest" using 2 by (cases rest) auto
  ultimately show ?case by simp
qed simp

declare getlines.simps [simp del]

definition passwd_lines :: "bytes option \<Rightarrow> bytes list" where
  "passwd_lines file = (case file of None \<Rightarrow> [] | Some cont \<Rightarrow> getlines cont)"

primrec vnc_match :: "(bytes \<Rightarrow> bytes \<Rightarrow> bytes \<Rightarrow> bytes res) \<Rightarrow> bytes \<Rightarrow> bytes \<Rightarrow> bytes list \<Rightarrow> bool res" where
  "vnc_match gnutls challenge response [] = Inr False"
| "vnc_match gnutls challenge response (pass # ps) =
     rbind (encryptDES gnutls challenge pass) (\<lambda>crypt.
       if crypt = response then Inr True else vnc_match gnutls challenge response ps)"

definition send_refusal :: "bool \<Rightarrow> string \<Rightarrow> ('a server_scheme, bool) exc" where
  "send_refusal be err =
     eseq (wr32 be SECURITY_RESULT_ERR) (eseq (wr32 be (of_nat (length err))) (eseq (wrData (str_bytes err))
     (ereturn False)))"

definition authVncInit :: "'a server_scheme security_class \<Rightarrow> string \<Rightarrow> ('a server_scheme, bool) exc" where
  "authVncInit k file =
     ebind (egets (sc_randomBytes k 16)) (\<lambda>challenge.
     eseq (wrData challenge)
     (ebind (rdData 16) (\<lambda>response.
      ebind (elift (vnc_match (sc_gnutls k) challenge response (passwd_lines (sc_file k file)))) (\<lambda>found.
      if found then ereturn True else send_refusal (sc_be k) ''password mismatch''))))"

text \<open>The mode that the client chooses: with certificates or without, \<open>None\<close> when it is refused.\<close>

definition vencrypt_mode ::
    "'a server_scheme security_class \<Rightarrow> securityinfo \<Rightarrow> u8 \<Rightarrow> ('a server_scheme, bool option) exc" where
  "vencrypt_mode k sec minorVer =
     (let be = sc_be k in
      if minorVer = 1 then
        eseq (if tlsAnonMode sec then eseq (wr8 1) (wr8 SECURITY_VENCRYPT01_TLSNONE)
              else eseq (wr8 2) (eseq (wr8 SECURITY_VENCRYPT01_TLSNONE) (wr8 SECURITY_VENCRYPT01_X509NONE)))
        (ebind rd8 (\<lambda>mode.
         ereturn (if mode = SECURITY_VENCRYPT01_TLSNONE then Some False
           else if mode = SECURITY_VENCRYPT01_X509NONE then (if tlsAnonMode sec then None else Some True)
           else None)))
      else
        eseq (if tlsAnonMode sec then eseq (wr8 1) (wr32 be SECURITY_VENCRYPT02_TLSNONE)
              else eseq (wr8 2) (eseq (wr32 be SECURITY_VENCRYPT02_TLSNONE) (wr32 be SECURITY_VENCRYPT02_X509NONE)))
        (ebind (rd32 be) (\<lambda>mode.
         ereturn (if mode = SECURITY_VENCRYPT02_TLSNONE then Some False
           else if mode = SECURITY_VENCRYPT02_X509NONE then (if tlsAnonMode sec then None else Some True)
           else None))))"

definition authVenCryptInit ::
    "'a server_scheme security_class \<Rightarrow> securityinfo \<Rightarrow> ('a server_scheme, bool) exc" where
  "authVenCryptInit k sec =
     eseq (wr8 0) (eseq (wr8 2)
     (ebind rd8 (\<lambda>majorVer. ebind rd8 (\<lambda>minorVer.
      if majorVer \<noteq> 0 \<or> minorVer < 1 \<or> 2 < minorVer then eseq (wr8 255) (ereturn False)
      else
        eseq (wr8 0)
        (ebind (vencrypt_mode k sec minorVer) (\<lambda>mode.
         case mode of
           None \<Rightarrow> ereturn False
         | Some x509Mode \<Rightarrow>
             if x509Mode \<and> \<not> (sc_exists k (caFile sec) \<and> sc_exists k (certFile sec) \<and> sc_exists k (keyFile sec))
             then eseq (wr8 0) (ereturn False)
             else eseq (wr8 1) (sc_tls k x509Mode)))))))"

section \<open>The security type\<close>

definition security_types ::
    "'a server_scheme security_class \<Rightarrow> securityinfo \<Rightarrow> 'a server_scheme \<Rightarrow> bytes" where
  "security_types k sec s =
     (if noVncMode k s then []
      else (if with_gssapi k then [SECURITY_TYPE_GSSAPI] else []) @
        (if with_gnutls k \<and> authVenCrypt sec then [SECURITY_TYPE_VENCRYPT] else []) @
        (if with_gnutls k \<and> authVnc sec then [SECURITY_TYPE_VNC] else [])) @
     (if authNone sec then [SECURITY_TYPE_NONE] else [])"

text \<open>The types that the server offers; false when there are none.\<close>

definition security_offer ::
    "'a server_scheme security_class \<Rightarrow> nat \<Rightarrow> securityinfo \<Rightarrow> ('a server_scheme, bool) exc" where
  "security_offer k protover sec =
     (if protover = 33 then
        let res = (if authVnc sec then ucast SECURITY_TYPE_VNC else 0) OR (if authNone sec then ucast SECURITY_TYPE_NONE else 0)
        in eseq (wr32 (sc_be k) res) (ereturn True)
      else
        ebind (egets (security_types k sec)) (\<lambda>res.
        eseq (wr8 (of_nat (length res)))
        (if res = [] then ereturn False else eseq (wrData res) (ereturn True))))"

definition security_refused :: "bool \<Rightarrow> ('a server_scheme, bool) exc" where
  "security_refused be = eseq (wr32 be SECURITY_RESULT_ERR) (eseq (wr32 be 0) (ereturn False))"

definition security_vnc ::
    "'a server_scheme security_class \<Rightarrow> securityinfo \<Rightarrow> ('a server_scheme, bool) exc" where
  "security_vnc k sec =
     (if passwdFile sec = [] then security_refused (sc_be k)
      else if \<not> sc_exists k (passwdFile sec) then security_refused (sc_be k)
      else ebind (authVncInit k (passwdFile sec)) (\<lambda>ok.
        if \<not> ok then security_refused (sc_be k)
        else eseq (wr32 (sc_be k) SECURITY_RESULT_OK) (ereturn True)))"

definition security_vencrypt ::
    "'a server_scheme security_class \<Rightarrow> securityinfo \<Rightarrow> ('a server_scheme, bool) exc" where
  "security_vencrypt k sec =
     ebind (authVenCryptInit k sec) (\<lambda>ok.
     if \<not> ok then security_refused (sc_be k)
     else eseq (wr32 (sc_be k) SECURITY_RESULT_OK) (ereturn True))"

definition gss_names :: "string \<Rightarrow> 'a server_scheme \<Rightarrow> 'a server_scheme" where
  "gss_names remoteName s =
     (if list_ex (\<lambda>c. c = CHR ''@'') remoteName
      then s\<lparr>clientAuthName := takeWhile (\<lambda>c. c \<noteq> CHR ''@'') remoteName,
             clientAuthDomain := tl (dropWhile (\<lambda>c. c \<noteq> CHR ''@'') remoteName)\<rparr>
      else s\<lparr>clientAuthName := remoteName\<rparr>)"

text \<open>\<open>None\<close> when the handshake of Kerberos fails, so that the refusal follows.\<close>

definition security_gss_try ::
    "'a server_scheme security_class \<Rightarrow> securityinfo \<Rightarrow> ('a server_scheme, bool option) exc" where
  "security_gss_try k sec =
     ebind (sc_gss k (krb5Service sec)) (\<lambda>peer.
     case peer of
       None \<Rightarrow> ereturn None
     | Some remoteName \<Rightarrow>
         ebind (ereader (getIntBE32 (sc_be k) (sc_gssRaw k))) (\<lambda>len.
         ebind (if 0 < len then
                  ebind (ereader (recvData (sc_gssRaw k) (unat len))) (\<lambda>raw. elift (sc_continueTls k raw))
                else ereturn False) (\<lambda>tls.
         eseq (emodify (gss_names remoteName))
         (ebind (if tls then authVenCryptInit k sec else ereturn True) (\<lambda>ok.
          if \<not> ok then ereturn (Some False)
          else eseq (wr32 (sc_be k) SECURITY_RESULT_OK) (ereturn (Some True)))))))"

definition security_gss ::
    "'a server_scheme security_class \<Rightarrow> securityinfo \<Rightarrow> ('a server_scheme, bool) exc" where
  "security_gss k sec =
     ebind (ecatch (security_gss_try k sec) (\<lambda>e. if is_exception e then ereturn None else ethrow e)) (\<lambda>res.
     case res of Some b \<Rightarrow> ereturn b | None \<Rightarrow> send_refusal (sc_be k) ''security kerberos failed'')"

definition serverSecurityInit ::
    "'a server_scheme security_class \<Rightarrow> nat \<Rightarrow> securityinfo \<Rightarrow> ('a server_scheme, bool) exc" where
  "serverSecurityInit k protover sec =
     ebind (security_offer k protover sec) (\<lambda>offered.
     if \<not> offered then ereturn False
     else if protover = 33 then ereturn True
     else ebind rd8 (\<lambda>clientSecurity.
       if protover = 38 \<or> clientSecurity \<noteq> SECURITY_TYPE_NONE then
         if clientSecurity = SECURITY_TYPE_NONE \<and> authNone sec
         then eseq (wr32 (sc_be k) SECURITY_RESULT_OK) (ereturn True)
         else if with_gnutls k \<and> clientSecurity = SECURITY_TYPE_VNC \<and> authVnc sec then security_vnc k sec
         else if with_gnutls k \<and> clientSecurity = SECURITY_TYPE_VENCRYPT \<and> authVenCrypt sec then security_vencrypt k sec
         else if with_gssapi k \<and> clientSecurity = SECURITY_TYPE_GSSAPI then security_gss k sec
         else send_refusal (sc_be k) ''no matching security types''
       else ereturn True))"

section \<open>Client init\<close>

definition serverClientInit ::
    "'a server_scheme server_class \<Rightarrow> string \<Rightarrow> xsize \<Rightarrow> u8 \<Rightarrow> pixelformat \<Rightarrow> ('a server_scheme, unit) exc" where
  "serverClientInit c desktopName sz displayDepth pf =
     (let be = sv_be c in
      ebind rd8 (\<lambda>clientSharedFlag.
      eseq (wr16 be (sz_width sz)) (eseq (wr16 be (sz_height sz))
      (eseq (emodify (\<lambda>s. s\<lparr>clientPf := sv_format c\<rparr>))
      (eseq (wr8 (bitsPixel pf)) (eseq (wr8 displayDepth) (eseq (wr8 (if be then 1 else 0)) (eseq (wr8 1)
      (eseq (wr16 be (redMax pf)) (eseq (wr16 be (greenMax pf)) (eseq (wr16 be (blueMax pf))
      (eseq (wr8 (redShift pf)) (eseq (wr8 (greenShift pf)) (eseq (wr8 (blueShift pf))
      (eseq (wr8 0) (eseq (wr8 0) (eseq (wr8 0)
      (eseq (wr32 be (of_nat (length desktopName))) (wrData (str_bytes desktopName))))))))))))))))))))"

text \<open>
  The start of \<open>X11Server::rfbCommunication\<close>, until the threads run: false stands for the exit with a
  failure. \<open>hs_events\<close> are the virtual methods between the phases.
\<close>

record 's handshake_events =
  serverHandshakeVersionEvent :: "('s, unit) exc"
  serverSecurityInitEvent :: "('s, unit) exc"

definition server_handshake ::
    "'a server_scheme server_class \<Rightarrow> 'a server_scheme security_class \<Rightarrow> 'a server_scheme handshake_events \<Rightarrow>
     securityinfo \<Rightarrow> xsize \<Rightarrow> u8 \<Rightarrow> ('a server_scheme, bool) exc" where
  "server_handshake c k ev sec sz displayDepth =
     eseq (serverSelectEncodings c)
     (ebind serverHandshakeVersion (\<lambda>protover.
      if protover = 0 then ereturn False
      else
        eseq (serverHandshakeVersionEvent ev)
        (ebind (serverSecurityInit k protover sec) (\<lambda>ok.
         if \<not> ok then ereturn False
         else
           eseq (serverSecurityInitEvent ev)
           (eseq (serverClientInit c ''X11 Remote Desktop'' sz displayDepth (sv_format c)) (ereturn True))))))"

end
