(* ===== verification/Security_Properties.thy ===== *)
theory Security_Properties
  imports Rfb_Security
begin

text \<open>
  What the handshake of the server guarantees about a client that it lets in, and where it does not.
\<close>

section \<open>The cipher\<close>

lemma length_des_key [simp]: "length (des_key str) = 8"
  by (simp add: des_key_def)

text \<open>
  What the libraries document about the mode CBC of a cipher of eight bytes: a block is combined
  with the initial vector and encrypted, its result is the vector of the next block.
\<close>

definition xor_bytes :: "bytes \<Rightarrow> bytes \<Rightarrow> bytes" where
  "xor_bytes as bs = map2 (XOR) as bs"

lemma xor_zero: "length bs = 8 \<Longrightarrow> xor_bytes bs (replicate 8 0) = bs"
  by (auto simp: xor_bytes_def list_eq_iff_nth_eq)

lemma encrypt_two:
  assumes "\<And>k iv b. length b = 8 \<Longrightarrow> gnutls k iv b = Inr (des k (xor_bytes b iv))"
    and "length b1 = 8" "length b2 = 8"
  shows "encryptDES gnutls (b1 @ b2) str = Inr (des (des_key str) b1 @ des (des_key str) b2)"
proof -
  have "b1 \<noteq> []" "b2 \<noteq> []" using assms by auto
  then show ?thesis using assms
    by (simp add: encryptDES_def encrypt_blocks.simps [of _ _ "b1 @ b2"] encrypt_blocks.simps [of _ _ b2]
        encrypt_blocks.simps [of _ _ "[]"] xor_zero)
qed

section \<open>Lines of the password file\<close>

lemma getlines_concat: "concat (map (\<lambda>l. l @ [10]) (getlines cont)) = cont @ [10]"
proof (induction cont rule: getlines.induct)
  case (1 cont)
  show ?case
  proof (cases "dropWhile (\<lambda>c. c \<noteq> 10) cont")
    case Nil
    then have "takeWhile (\<lambda>c. c \<noteq> 10) cont = cont"
      by (metis append_Nil2 takeWhile_dropWhile_id)
    with Nil show ?thesis by (simp add: getlines.simps [of cont])
  next
    case (Cons c rest)
    then have "c = 10" using hd_dropWhile [of "\<lambda>c. c \<noteq> 10" cont] by simp
    moreover have "takeWhile (\<lambda>c. c \<noteq> 10) cont @ c # rest = cont"
      using takeWhile_dropWhile_id [of "\<lambda>c. c \<noteq> 10" cont] Cons by simp
    ultimately have "takeWhile (\<lambda>c. c \<noteq> 10) cont @ 10 # rest @ [10] = cont @ [10]" by (metis append.assoc append_Cons)
    then show ?thesis using 1 Cons by (simp add: getlines.simps [of cont] Let_def)
  qed
qed

lemma getlines_last: "cont = [] \<or> last cont = 10 \<Longrightarrow> last (getlines cont) = [] \<and> getlines cont \<noteq> []"
proof (induction cont rule: getlines.induct)
  case (1 cont)
  show ?case
  proof (cases "dropWhile (\<lambda>c. c \<noteq> 10) cont")
    case Nil
    then have "\<forall>c \<in> set cont. c \<noteq> 10" by (simp add: dropWhile_eq_Nil_conv)
    with 1(2) have "cont = []" using last_in_set by blast
    then show ?thesis by (simp add: getlines.simps)
  next
    case (Cons c rest)
    then have "cont = takeWhile (\<lambda>c. c \<noteq> 10) cont @ c # rest"
      using takeWhile_dropWhile_id [of "\<lambda>c. c \<noteq> 10" cont] by simp
    then have "last cont = last (c # rest)" "cont \<noteq> []" by (metis append_is_Nil_conv last_appendR list.distinct(1))+
    with 1(2) have "rest = [] \<or> last rest = 10" by (auto split: if_splits)
    with 1 Cons show ?thesis by (simp add: getlines.simps [of cont] Let_def)
  qed
qed

lemma vnc_match_iff:
  assumes "\<And>p. encryptDES gnutls challenge p = Inr (crypt p)"
  shows "vnc_match gnutls challenge response ps = Inr (\<exists>p \<in> set ps. crypt p = response)"
  by (induction ps) (auto simp: assms)

lemma vnc_match_sound:
  "vnc_match gnutls challenge response ps = Inr True \<Longrightarrow> \<exists>p \<in> set ps. encryptDES gnutls challenge p = Inr response"
  by (induction ps) (auto simp: rbind_eq_Inr split: if_splits)

section \<open>Properties\<close>

lemma ebind_InrE:
  assumes "fst (ebind m f s) = Inr b"
  obtains a t where "m s = (Inr a, t)" and "fst (f a t) = Inr b"
  using assms by (auto simp: ebind_def split: prod.splits sum.splits)

lemma security_refusals [simp]:
  "fst (security_refused be s) = Inr False" "fst (send_refusal be err s) = Inr False"
  by (simp_all add: security_refused_def send_refusal_def wr_bytes ebind_wrData)

lemma authVnc_admits:
  assumes "fst (authVncInit k file s) = Inr True"
  shows "\<exists>pass \<in> set (passwd_lines (sc_file k file)).
    encryptDES (sc_gnutls k) (sc_randomBytes k 16 s) pass =
      fst (rdData 16 (snd (wrData (sc_randomBytes k 16 s) s)))"
proof -
  let ?challenge = "sc_randomBytes k 16 s"
  from assms have "fst (ebind (rdData 16) (\<lambda>response.
      ebind (elift (vnc_match (sc_gnutls k) ?challenge response (passwd_lines (sc_file k file)))) (\<lambda>found.
      if found then ereturn True else send_refusal (sc_be k) ''password mismatch'')) (snd (wrData ?challenge s))) = Inr True"
    by (simp add: authVncInit_def ebind_wrData)
  then obtain response t where r: "rdData 16 (snd (wrData ?challenge s)) = (Inr response, t)"
    and "fst (ebind (elift (vnc_match (sc_gnutls k) ?challenge response (passwd_lines (sc_file k file)))) (\<lambda>found.
      if found then ereturn True else send_refusal (sc_be k) ''password mismatch'') t) = Inr True"
    by (rule ebind_InrE)
  then have "vnc_match (sc_gnutls k) ?challenge response (passwd_lines (sc_file k file)) = Inr True"
    by (auto elim!: ebind_InrE simp: elift_def split: if_splits)
  with r show ?thesis using vnc_match_sound by fastforce
qed

lemma venCrypt_admits:
  assumes "authVenCryptInit k sec s = (Inr True, t)"
  shows "\<exists>x509 t. fst (sc_tls k x509 t) = Inr True"
proof (rule ccontr)
  assume "\<nexists>x509 t. fst (sc_tls k x509 t) = Inr True"
  then have no: "fst (sc_tls k x509 t) \<noteq> Inr True" for x509 t by simp
  have "fst (authVenCryptInit k sec s) = Inr True" using assms by simp
  then show False unfolding authVenCryptInit_def wr_bytes ebind_wrData
    by (auto elim!: ebind_InrE simp: ebind_wrData no split: if_splits option.splits)
qed


lemma gss_admits:
  assumes "fst (security_gss k sec s) = Inr True"
  shows "\<exists>name. fst (sc_gss k (krb5Service sec) s) = Inr (Some name)"
proof -
  from assms obtain t where "ecatch (security_gss_try k sec) (\<lambda>e. if is_exception e then ereturn None else ethrow e) s =
      (Inr (Some True), t)"
    by (auto simp: security_gss_def elim!: ebind_InrE split: option.splits)
  then have "fst (security_gss_try k sec s) = Inr (Some True)"
    by (auto simp: ecatch_def split: prod.splits sum.splits if_splits)
  then show ?thesis
    by (auto simp: security_gss_try_def elim!: ebind_InrE split: option.splits)
qed

lemma vnc_admits:
  assumes "fst (security_vnc k sec s) = Inr True"
  shows "passwdFile sec \<noteq> [] \<and> sc_exists k (passwdFile sec) \<and> fst (authVncInit k (passwdFile sec) s) = Inr True"
  using assms by (auto simp: security_vnc_def elim!: ebind_InrE split: if_splits)

text \<open>
  C3. Whom the server lets in, unless the client speaks version 3.3: a client that chose no authentication,
  when that is configured or its version is not 3.8; one that answered the challenge with the cipher of a
  line of the password file; one with which the server has made a TLS session; one that Kerberos knows.
\<close>

theorem security_admits:
  fixes s :: "'a server_scheme" and k sec protover
  defines "offered \<equiv> snd (security_offer k protover sec s)"
  defines "chosen \<equiv> snd (rd8 offered)"
  assumes "fst (serverSecurityInit k protover sec s) = Inr True" and "protover \<noteq> 33"
  shows "\<exists>choice. fst (rd8 offered) = Inr choice \<and>
    (choice = SECURITY_TYPE_NONE \<and> (authNone sec \<or> protover \<noteq> 38) \<or>
     choice = SECURITY_TYPE_VNC \<and> authVnc sec \<and> sc_exists k (passwdFile sec) \<and>
       (\<exists>pass \<in> set (passwd_lines (sc_file k (passwdFile sec))).
          encryptDES (sc_gnutls k) (sc_randomBytes k 16 chosen) pass =
            fst (rdData 16 (snd (wrData (sc_randomBytes k 16 chosen) chosen)))) \<or>
     choice = SECURITY_TYPE_VENCRYPT \<and> authVenCrypt sec \<and> (\<exists>x509 t. fst (sc_tls k x509 t) = Inr True) \<or>
     choice = SECURITY_TYPE_GSSAPI \<and> (\<exists>name. fst (sc_gss k (krb5Service sec) chosen) = Inr (Some name)))"
proof -
  let ?result = "\<lambda>clientSecurity. if protover = 38 \<or> clientSecurity \<noteq> SECURITY_TYPE_NONE then
         if clientSecurity = SECURITY_TYPE_NONE \<and> authNone sec
         then eseq (wr32 (sc_be k) SECURITY_RESULT_OK) (ereturn True)
         else if with_gnutls k \<and> clientSecurity = SECURITY_TYPE_VNC \<and> authVnc sec then security_vnc k sec
         else if with_gnutls k \<and> clientSecurity = SECURITY_TYPE_VENCRYPT \<and> authVenCrypt sec then security_vencrypt k sec
         else if with_gssapi k \<and> clientSecurity = SECURITY_TYPE_GSSAPI then security_gss k sec
         else send_refusal (sc_be k) ''no matching security types''
       else ereturn True"
  from assms(3,4) obtain choice where c: "rd8 offered = (Inr choice, chosen)" "fst (?result choice chosen) = Inr True"
    unfolding serverSecurityInit_def offered_def chosen_def
    by (elim ebind_InrE) (auto elim!: ebind_InrE split: if_splits)
  from c(2) consider "choice = SECURITY_TYPE_NONE" "authNone sec \<or> protover \<noteq> 38"
    | "choice = SECURITY_TYPE_VNC" "authVnc sec" "fst (security_vnc k sec chosen) = Inr True"
    | "choice = SECURITY_TYPE_VENCRYPT" "authVenCrypt sec" "fst (security_vencrypt k sec chosen) = Inr True"
    | "choice = SECURITY_TYPE_GSSAPI" "fst (security_gss k sec chosen) = Inr True"
    by (simp split: if_splits)
  then show ?thesis
  proof cases
    case 2
    then show ?thesis using c(1) vnc_admits [of k sec chosen] authVnc_admits [of k "passwdFile sec" chosen] by simp
  next
    case 3
    then have "\<exists>x509 t. fst (sc_tls k x509 t) = Inr True"
      by (auto simp: security_vencrypt_def elim!: ebind_InrE split: if_splits dest!: venCrypt_admits)
    with 3 c(1) show ?thesis by simp
  next
    case 4
    then show ?thesis using c(1) gss_admits [of k sec chosen] by simp
  qed (use c(1) in simp)
qed

text \<open>A server that asks for the password of a file of one line, over a cipher that keeps a block as it is.\<close>

definition plain_cipher :: "bytes \<Rightarrow> bytes \<Rightarrow> bytes \<Rightarrow> bytes res" where
  "plain_cipher key iv bs = Inr (map2 (XOR) key (map2 (XOR) bs iv))"

definition vnc_security :: "bytes \<Rightarrow> server security_class" where
  "vnc_security file = \<lparr>sc_be = False, with_gnutls = True, with_gssapi = False, noVncMode = (\<lambda>_. False),
     sc_randomBytes = (\<lambda>n _. map of_nat [0..<n]), sc_exists = (\<lambda>_. True), sc_file = (\<lambda>_. Some file),
     sc_gnutls = plain_cipher, sc_tls = (\<lambda>_. ereturn True), sc_gss = (\<lambda>_. ereturn None),
     sc_gssRaw = (\<lambda>s n. Inl NetworkError), sc_continueTls = (\<lambda>_. Inr False)\<rparr>"

definition vnc_info :: securityinfo where
  "vnc_info = \<lparr>passwdFile = ''passwd'', caFile = [], certFile = [], keyFile = [], krb5Service = [], krb5Name = [],
     authNone = False, authVnc = True, authVenCrypt = False, authKrb5 = False, tlsAnonMode = True\<rparr>"

definition vnc_answer :: bytes where
  "vnc_answer = [134, 71, 2, 3, 4, 5, 6, 7, 142, 79, 10, 11, 12, 13, 14, 15]"

theorem security_admits_witness:
  "\<exists>choice. fst (rd8 (snd (security_offer (vnc_security [97, 98, 10]) 38 vnc_info (server_init (2 # vnc_answer))))) = Inr choice \<and>
     choice = SECURITY_TYPE_VNC"
proof -
  have "fst (serverSecurityInit (vnc_security [97, 98, 10]) 38 vnc_info (server_init (2 # vnc_answer))) = Inr True"
    by code_simp
  from security_admits [OF this] show ?thesis by (auto simp: vnc_info_def vnc_security_def)
qed

text \<open>
  C24. An empty password is always enough when the file ends with the end of a line, as editors leave it, or
  is empty: reading goes on after the last line and gives an empty one.
\<close>

theorem empty_password_accepted:
  assumes "sc_file k file = Some cont" and "cont = [] \<or> last cont = 10"
    and "\<And>p. encryptDES (sc_gnutls k) (sc_randomBytes k 16 s) p = Inr (crypt p)"
    and "rdData 16 (snd (wrData (sc_randomBytes k 16 s) s)) = (Inr (crypt []), t)"
  shows "authVncInit k file s = (Inr True, t)"
proof -
  have "[] \<in> set (passwd_lines (sc_file k file))"
    using getlines_last [OF assms(2)] last_in_set [of "getlines cont"] by (simp add: passwd_lines_def assms(1))
  then have "vnc_match (sc_gnutls k) (sc_randomBytes k 16 s) (crypt []) (passwd_lines (sc_file k file)) = Inr True"
    by (auto simp: vnc_match_iff [OF assms(3)])
  with assms(4) show ?thesis by (simp add: authVncInit_def ebind_wrData ebind_Inr)
qed

theorem empty_password_accepted_witness:
  "fst (authVncInit (vnc_security [97, 98, 10]) ''passwd'' (server_init (map of_nat [0..<16]))) = Inr True"
proof -
  let ?k = "vnc_security [97, 98, 10]" and ?s = "server_init (map of_nat [0..<16])"
  have two: "sc_randomBytes ?k 16 ?s = map of_nat [0..<8] @ map of_nat [8..<16]" by code_simp
  have k: "sc_gnutls ?k k' iv b = Inr (map2 (XOR) k' (xor_bytes b iv))" for k' iv b
    by (simp add: vnc_security_def plain_cipher_def xor_bytes_def)
  have crypt: "encryptDES (sc_gnutls ?k) (sc_randomBytes ?k 16 ?s) p =
      Inr (map2 (XOR) (des_key p) (map of_nat [0..<8]) @ map2 (XOR) (des_key p) (map of_nat [8..<16]))" for p
    unfolding two by (rule encrypt_two) (simp_all add: k)
  have passwd: "sc_file ?k ''passwd'' = Some [97, 98, 10]" "[97, 98, 10 :: u8] = [] \<or> last [97, 98, 10 :: u8] = 10"
    by (simp_all add: vnc_security_def)
  have "rdData 16 (snd (wrData (sc_randomBytes ?k 16 ?s) ?s)) =
      (Inr (map2 (XOR) (des_key []) (map of_nat [0..<8]) @ map2 (XOR) (des_key []) (map of_nat [8..<16])),
       snd (rdData 16 (snd (wrData (sc_randomBytes ?k 16 ?s) ?s))))"
    by code_simp
  from empty_password_accepted [OF passwd crypt this] show ?thesis by simp
qed

text \<open>
  Older versions are let in without any check: 3.3 whatever is configured, 3.7 by the answer that no
  authentication is wanted, which is not compared with the types that were offered.
\<close>

theorem old_versions_admitted:
  "fst (serverSecurityInit k 33 sec s) = Inr True \<and>
   (rfbMessages s \<and> sv_room s = None \<and> security_types k sec s \<noteq> [] \<and> sv_input s = SECURITY_TYPE_NONE # rest \<longrightarrow>
     fst (serverSecurityInit k 37 sec s) = Inr True)"
proof (intro conjI impI)
  show "fst (serverSecurityInit k 33 sec s) = Inr True"
    by (simp add: serverSecurityInit_def security_offer_def Let_def wr_bytes ebind_assoc ebind_wrData)
next
  assume s: "rfbMessages s \<and> sv_room s = None \<and> security_types k sec s \<noteq> [] \<and> sv_input s = SECURITY_TYPE_NONE # rest"
  have w: "wrData bs s = (Inr (), s\<lparr>sv_output := sv_output s @ bs\<rparr>)" for bs
    using s by (simp add: wrData_def ewriter_def server_sendRaw_def)
  have w': "wrData bs (s\<lparr>sv_output := out\<rparr>) = (Inr (), s\<lparr>sv_output := out @ bs\<rparr>)" for bs out
    using s by (simp add: wrData_def ewriter_def server_sendRaw_def)
  have "rd8 (s\<lparr>sv_output := out\<rparr>) = (Inr SECURITY_TYPE_NONE, s\<lparr>sv_output := out, sv_input := rest\<rparr>)" for out
    using s takesD [OF takes_ints(1), of "s\<lparr>sv_output := out\<rparr>" SECURITY_TYPE_NONE rest] by simp
  with s show "fst (serverSecurityInit k 37 sec s) = Inr True"
    by (simp add: serverSecurityInit_def security_offer_def wr_bytes ebind_assoc ebind_wrData w w' ebind_Inr)
qed

theorem old_versions_admitted_witness:
  "fst (serverSecurityInit (vnc_security [97, 98, 10]) 37 vnc_info (server_init [1])) = Inr True"
proof -
  have "rfbMessages (server_init [1]) \<and> sv_room (server_init [1]) = None \<and>
      security_types (vnc_security [97, 98, 10]) vnc_info (server_init [1]) \<noteq> [] \<and>
      sv_input (server_init [1]) = [SECURITY_TYPE_NONE]"
    by code_simp
  with old_versions_admitted [of "vnc_security [97, 98, 10]" vnc_info "server_init [1]" "[]"] show ?thesis by blast
qed


end
