(* ===== verification/Rfb_Handshake.thy ===== *)
theory Rfb_Handshake
  imports Security_Properties Rfb_Messages
begin

text \<open>
  The handshake of \<^verbatim>\<open>RFB::ClientDecoder\<close> (\<^verbatim>\<open>src/src/librfb/client/librfb_client.cpp\<close>), and both sides
  of it together.
\<close>

section \<open>Parameters\<close>

text \<open>
  \<open>ks_evp key iv data\<close> is what \<open>EVP_EncryptUpdate\<close> gives in the mode \<open>EVP_des_cbc\<close> without padding, or the
  exception after an error. \<open>ks_tls\<close> makes the TLS session and puts it in place of the stream, with
  certificates or without; it returns false after a \<open>system_error\<close>. \<open>ks_connect\<close> is
  \<open>Gss::ClientContext::connectService\<close> with the credential of a user or the default one.
\<close>

record 's client_security =
  ks_gssapi :: bool
  ks_evp :: "bytes \<Rightarrow> bytes \<Rightarrow> bytes \<Rightarrow> bytes res"
  ks_tls :: "bool \<Rightarrow> ('s, bool) exc"
  ks_credential :: "string \<Rightarrow> bool"
  ks_connect :: "string \<Rightarrow> bool \<Rightarrow> string option \<Rightarrow> ('s, bool) exc"

section \<open>Authentication\<close>

definition openssl_encryptDES :: "(bytes \<Rightarrow> bytes \<Rightarrow> bytes \<Rightarrow> bytes res) \<Rightarrow> bytes \<Rightarrow> bytes \<Rightarrow> bytes res" where
  "openssl_encryptDES evp data str = evp (des_key str) (replicate 8 0) data"

definition authVncInitAwait ::
    "'a client_scheme client_security \<Rightarrow> bytes \<Rightarrow> ('a client_scheme, unit) exc" where
  "authVncInitAwait k password =
     ebind (crData 16) (\<lambda>challenge.
     ebind (elift (openssl_encryptDES (ks_evp k) challenge password)) (\<lambda>crypt.
     cl_send crypt))"

definition authVenCryptInitAwait ::
    "'a client_scheme client_class \<Rightarrow> 'a client_scheme client_security \<Rightarrow> securityinfo \<Rightarrow>
     ('a client_scheme, bool) exc" where
  "authVenCryptInitAwait c k sec =
     ebind cr8 (\<lambda>majorVer. ebind cr8 (\<lambda>minorVer.
     eseq (cl_send [0]) (eseq (cl_send [2])
     (ebind cr8 (\<lambda>zeroVer.
      if zeroVer \<noteq> 0 then ereturn False
      else ebind cr8 (\<lambda>typesCount.
        if typesCount = 0 then ereturn False
        else ebind (etimes (unat typesCount) (cr32 (cl_be c))) (\<lambda>venCryptTypes.
          let mode = (if tlsAnonMode sec then SECURITY_VENCRYPT02_TLSNONE else SECURITY_VENCRYPT02_X509NONE)
          in if \<not> list_ex (\<lambda>val. val = mode) venCryptTypes then ereturn False
             else eseq (cl_send (be_bytes 4 mode))
               (ebind cr8 (\<lambda>status.
                if status = 0 then ereturn False
                else ks_tls k (mode = SECURITY_VENCRYPT02_X509NONE))))))))))"

text \<open>The messages of the GSS wrapper: \<open>sendLength\<close> calls \<open>sync_recv_buf\<close>.\<close>

definition gss_recvToken :: "bool \<Rightarrow> ('a client_scheme, bytes) exc" where
  "gss_recvToken be = ebind (cr32 be) (\<lambda>len. crData (unat len))"

definition gss_sendLength :: "u32 \<Rightarrow> ('a client_scheme, unit) exc" where
  "gss_sendLength val = ebind (crData 4) (\<lambda>_. ereturn ())"

definition gss_sendToken :: "bytes \<Rightarrow> ('a client_scheme, unit) exc" where
  "gss_sendToken buf = eseq (gss_sendLength (of_nat (length buf))) (cl_send buf)"

definition gss_handshakeLayer ::
    "'a client_scheme client_security \<Rightarrow> string \<Rightarrow> bool \<Rightarrow> string \<Rightarrow> ('a client_scheme, bool) exc" where
  "gss_handshakeLayer k service mutual username =
     (if username = [] then ks_connect k service mutual None
      else if ks_credential k username then ks_connect k service mutual (Some username)
      else ereturn False)"

definition tls_json :: "bool \<Rightarrow> bytes" where
  "tls_json tls = str_bytes (''{'' @ [CHR 0x22] @ ''continue:tls'' @ [CHR 0x22] @ '':'' @ (if tls then ''true'' else ''false'') @ ''}'')"

text \<open>The outcome of \<open>authVenCryptInitAwait\<close> is not looked at.\<close>

definition authGssApiInitAwait ::
    "'a client_scheme client_class \<Rightarrow> 'a client_scheme client_security \<Rightarrow> securityinfo \<Rightarrow>
     ('a client_scheme, bool) exc" where
  "authGssApiInitAwait c k sec =
     ecatch
       (ebind (gss_handshakeLayer k (krb5Service sec) True (krb5Name sec)) (\<lambda>ok.
        if ok then
          eseq (gss_sendToken (tls_json (authVenCrypt sec)))
            (if authVenCrypt sec then eseq (authVenCryptInitAwait c k sec) (ereturn True) else ereturn True)
        else ereturn False))
       (\<lambda>e. if is_exception e then ereturn False else ethrow e)"

section \<open>Handshake\<close>

text \<open>The choice of the type and its authentication; none fits: false.\<close>

definition client_security_type ::
    "'a client_scheme client_class \<Rightarrow> 'a client_scheme client_security \<Rightarrow> securityinfo \<Rightarrow> bytes \<Rightarrow>
     ('a client_scheme, bool) exc" where
  "client_security_type c k sec security =
     (let offers = (\<lambda>t. list_ex (\<lambda>val. val = t) security) in
      if ks_gssapi k \<and> authKrb5 sec \<and> offers SECURITY_TYPE_GSSAPI \<and> ks_credential k (krb5Name sec)
      then eseq (cl_send [SECURITY_TYPE_GSSAPI]) (authGssApiInitAwait c k sec)
      else if authVenCrypt sec \<and> offers SECURITY_TYPE_VENCRYPT
      then eseq (cl_send [SECURITY_TYPE_VENCRYPT]) (authVenCryptInitAwait c k sec)
      else if authVnc sec \<and> offers SECURITY_TYPE_VNC
      then if passwdFile sec = [] then ereturn False
           else eseq (cl_send [SECURITY_TYPE_VNC]) (eseq (authVncInitAwait k (str_bytes (passwdFile sec))) (ereturn True))
      else if authNone sec \<and> offers SECURITY_TYPE_NONE
      then eseq (cl_send [SECURITY_TYPE_NONE]) (ereturn True)
      else ereturn False)"

text \<open>The server's frame buffer and pixel format, from the twenty bytes of its init message.\<close>

definition client_server_init ::
    "'a client_scheme client_class \<Rightarrow> bytes \<Rightarrow> ('a client_scheme, bool) exc" where
  "client_server_init c buf =
     (let be = cl_be c in
      ebind (ref_rd16 be (streamBufRef (Some buf) (length buf))) (\<lambda>(fbWidth, sb).
      ebind (ref_rd16 be sb) (\<lambda>(fbHeight, sb). ebind (ref_rd8 sb) (\<lambda>(bpp, sb). ebind (ref_rd8 sb) (\<lambda>(dep, sb).
      ebind (ref_rd8 sb) (\<lambda>(bigEndian, sb).
      eseq (emodify (\<lambda>s. s\<lparr>cl_serverBigEndian := (bigEndian \<noteq> 0)\<rparr>))
      (ebind (ref_rd8 sb) (\<lambda>(trueColor, sb).
       eseq (emodify (\<lambda>s. s\<lparr>cl_serverTrueColor := (trueColor \<noteq> 0)\<rparr>))
       (ebind (ref_rd16 be sb) (\<lambda>(rmax, sb). ebind (ref_rd16 be sb) (\<lambda>(gmax, sb). ebind (ref_rd16 be sb) (\<lambda>(bmax, sb).
        ebind (ref_rd8 sb) (\<lambda>(rshift, sb). ebind (ref_rd8 sb) (\<lambda>(gshift, sb). ebind (ref_rd8 sb) (\<lambda>(bshift, sb).
        let pf = pixelFormat_max bpp rmax gmax bmax 0 rshift gshift bshift 0 in
        eseq (emodify (\<lambda>s. s\<lparr>cl_serverPf := pf\<rparr>))
        (if bpp \<noteq> 32 \<and> bpp \<noteq> 24 \<and> bpp \<noteq> 16 \<and> bpp \<noteq> 8 then ereturn False
         else if trueColor = 0 \<or> rmax = 0 \<or> gmax = 0 \<or> bmax = 0 then ereturn False
         else
           eseq (cl_fire c (ClPixelFormat pf (Size fbWidth fbHeight)))
           (ebind (cr32 be) (\<lambda>nameLen. ebind (crData (unat nameLen)) (\<lambda>nameDesktop.
            ereturn True)))))))))))))))))))"

definition rfbHandshakeAwait ::
    "'a client_scheme client_class \<Rightarrow> 'a client_scheme client_security \<Rightarrow> securityinfo \<Rightarrow>
     ('a client_scheme, bool) exc" where
  "rfbHandshakeAwait c k sec =
     (let version = rfb_version 3 8 in
      ebind (crData 12) (\<lambda>magick.
      if magick = [] then ereturn False
      else if magick \<noteq> version then ereturn False
      else
        eseq (cl_send version)
        (ebind cr8 (\<lambda>counts.
         if counts = 0 then
           ebind (cr32 (cl_be c)) (\<lambda>len. ebind (crData (unat len)) (\<lambda>err. ereturn False))
         else
           ebind (crData (unat counts)) (\<lambda>security.
           ebind (client_security_type c k sec security) (\<lambda>ok.
           if \<not> ok then ereturn False
           else
             ebind (cr32 (cl_be c)) (\<lambda>secReply.
             if SECURITY_RESULT_OK \<noteq> secReply then
               ebind (cr32 (cl_be c)) (\<lambda>len. ebind (crData (unat len)) (\<lambda>err. ereturn False))
             else
               eseq (cl_send [0])
               (ebind (crData 20) (\<lambda>buf. client_server_init c buf)))))))))"

end
