(* ===== verification/Handshake_Properties.thy ===== *)
theory Handshake_Properties
  imports Rfb_Handshake Rfb_Session
begin

text \<open>
  Both sides of the handshake together: each takes what the other one sends, and they agree on the pixel
  format.
\<close>

section \<open>Conversations\<close>

text \<open>
  \<open>talks calm inp out m X Y Q\<close>: on a connection that is up, the method \<open>m\<close> takes the bytes \<open>X\<close>, sends \<open>Y\<close>
  and returns a value that satisfies \<open>Q\<close> with the state it leaves.
\<close>

definition talks ::
    "('s \<Rightarrow> bool) \<Rightarrow> ('s \<Rightarrow> bytes) \<Rightarrow> ('s \<Rightarrow> bytes) \<Rightarrow> ('s, 'a) exc \<Rightarrow> bytes \<Rightarrow> bytes \<Rightarrow> ('a \<Rightarrow> 's \<Rightarrow> bool) \<Rightarrow> bool" where
  "talks calm inp out m X Y Q \<longleftrightarrow>
     (\<forall>s rest. calm s \<longrightarrow> inp s = X @ rest \<longrightarrow>
       (\<exists>v t. m s = (Inr v, t) \<and> calm t \<and> inp t = rest \<and> out t = out s @ Y \<and> Q v t))"

lemma talksI:
  "(\<And>s rest. calm s \<Longrightarrow> inp s = X @ rest \<Longrightarrow>
     \<exists>v t. m s = (Inr v, t) \<and> calm t \<and> inp t = rest \<and> out t = out s @ Y \<and> Q v t) \<Longrightarrow> talks calm inp out m X Y Q"
  by (simp add: talks_def)

lemma talksE:
  assumes "talks calm inp out m X Y Q" and "calm s" and "inp s = X @ rest"
  obtains v t where "m s = (Inr v, t)" "calm t" "inp t = rest" "out t = out s @ Y" "Q v t"
proof -
  have "\<exists>v t. m s = (Inr v, t) \<and> calm t \<and> inp t = rest \<and> out t = out s @ Y \<and> Q v t"
    using assms by (simp only: talks_def)
  then show thesis using that by blast
qed

lemma talks_bind:
  assumes "talks calm inp out m X Y (\<lambda>v t. v = a)" and "talks calm inp out (f a) X' Y' Q"
    and "X'' = X @ X'" and "Y'' = Y @ Y'"
  shows "talks calm inp out (ebind m f) X'' Y'' Q"
proof (rule talksI)
  fix s rest assume s: "calm s" "inp s = X'' @ rest"
  from s assms(3) have "inp s = X @ X' @ rest" by simp
  with assms(1) s(1) obtain v t where t: "m s = (Inr v, t)" "calm t" "inp t = X' @ rest" "out t = out s @ Y" "v = a"
    by (rule talksE)
  from assms(2) t(2,3) obtain w u where "f a t = (Inr w, u)" "calm u" "inp u = rest" "out u = out t @ Y'" "Q w u"
    by (rule talksE)
  with t assms(4) show "\<exists>v u. ebind m f s = (Inr v, u) \<and> calm u \<and> inp u = rest \<and> out u = out s @ Y'' \<and> Q v u"
    by (simp add: ebind_Inr)
qed

lemma talks_return:
  "(\<And>s. Q v s) \<Longrightarrow> talks calm inp out (ereturn v) [] [] Q"
  "(\<And>s. Q v s) \<Longrightarrow> talks calm inp out (Pair (Inr v)) [] [] Q"
  by (rule talksI; simp)+

text \<open>The methods of the server and those of the client.\<close>

abbreviation sv_talks ::
    "('a server_scheme, 'b) exc \<Rightarrow> bytes \<Rightarrow> bytes \<Rightarrow> ('b \<Rightarrow> 'a server_scheme \<Rightarrow> bool) \<Rightarrow> bool" where
  "sv_talks \<equiv> talks (\<lambda>s. rfbMessages s \<and> sv_room s = None) sv_input sv_output"

abbreviation cl_talks ::
    "('a client_scheme, 'b) exc \<Rightarrow> bytes \<Rightarrow> bytes \<Rightarrow> ('b \<Rightarrow> 'a client_scheme \<Rightarrow> bool) \<Rightarrow> bool" where
  "cl_talks \<equiv> talks (\<lambda>s. cl_room s = None) cl_input cl_output"

lemma calm_write:
  "rfbMessages s \<Longrightarrow> sv_room s = None \<Longrightarrow> wrData bs s = (Inr (), s\<lparr>sv_output := sv_output s @ bs\<rparr>)"
  by (simp add: wrData_def ewriter_def server_sendRaw_def)

lemma sv_writes: "sv_talks (wrData bs) [] bs (\<lambda>v _. v = ())"
  by (rule talksI) (simp add: calm_write)

lemma sv_reads: "takes m bs v \<Longrightarrow> sv_talks m bs [] (\<lambda>w _. w = v)"
  by (rule talksI) (auto dest: takesD)

lemma cl_writes: "cl_talks (cl_send bs) [] bs (\<lambda>v _. v = ())"
  by (rule talksI) (simp add: cl_send_def)

lemma client_recv: "cl_input s = bs @ rest \<Longrightarrow> n = length bs \<Longrightarrow>
    client_recvRaw s n = Inr (bs, s\<lparr>cl_input := rest\<rparr>)"
  by (simp add: client_recvRaw_def)

lemma cl_reads:
  "cl_talks cr8 [a] [] (\<lambda>w _. w = a)"
  "cl_talks (cr16 be) (be_bytes 2 b) [] (\<lambda>w _. w = b)"
  "cl_talks (cr32 be) (be_bytes 4 d) [] (\<lambda>w _. w = d)"
  "n = length bs \<Longrightarrow> cl_talks (crData n) bs [] (\<lambda>w _. w = bs)"
  unfolding cr8_def cr16_def cr32_def crData_def
  by (rule talksI; force simp: ereader_def client_recv getInt_wire(1) [OF client_recv [where bs = "[a]"]]
      getInt_wire(2) [OF client_recv [where bs = "be_bytes 2 b"]]
      getInt_wire(3) [OF client_recv [where bs = "be_bytes 4 d"]])+
section \<open>The scripts\<close>

text \<open>
  What each side sends when no authentication is agreed on: \<open>types\<close> are the security types that the server
  offers.
\<close>

definition client_script :: bytes where
  "client_script = rfb_version 3 8 @ [SECURITY_TYPE_NONE] @ [0]"

definition init_message :: "bool \<Rightarrow> xsize \<Rightarrow> u8 \<Rightarrow> pixelformat \<Rightarrow> bytes" where
  "init_message be sz displayDepth pf =
     be_bytes 2 (sz_width sz) @ be_bytes 2 (sz_height sz) @ [bitsPixel pf, displayDepth, if be then 1 else 0, 1] @
     be_bytes 2 (redMax pf) @ be_bytes 2 (greenMax pf) @ be_bytes 2 (blueMax pf) @
     [redShift pf, greenShift pf, blueShift pf] @ [0, 0, 0]"

definition name_message :: "string \<Rightarrow> bytes" where
  "name_message name = be_bytes 4 (of_nat (length name) :: u32) @ str_bytes name"

definition server_script :: "bool \<Rightarrow> bytes \<Rightarrow> xsize \<Rightarrow> u8 \<Rightarrow> pixelformat \<Rightarrow> bytes" where
  "server_script be types sz displayDepth pf =
     rfb_version 3 8 @ [of_nat (length types)] @ types @ be_bytes 4 SECURITY_RESULT_OK @
     init_message be sz displayDepth pf @ name_message ''X11 Remote Desktop''"

section \<open>The server's side\<close>

lemma length_version: "length (rfb_version 3 8) = 12"
  by code_simp

lemma versions_differ: "rfb_version 3 8 \<noteq> rfb_version 3 3" "rfb_version 3 8 \<noteq> rfb_version 3 7"
  by code_simp+

lemma version_talks: "sv_talks serverHandshakeVersion (rfb_version 3 8) (rfb_version 3 8) (\<lambda>v _. v = 38)"
  unfolding serverHandshakeVersion_def Let_def
  by (rule talks_bind [OF sv_writes talks_bind [OF sv_reads [OF takes_data, of 12 "rfb_version 3 8"],
        where X' = "[]" and Y' = "[]"]])
    (simp_all add: length_version versions_differ talks_return)

lemma none_offered: "authNone sec \<Longrightarrow> SECURITY_TYPE_NONE \<in> set (security_types k sec s)"
  by (simp add: security_types_def)

lemma length_types: "length (security_types k sec s) < 256"
  by (simp add: security_types_def)

lemma security_talks:
  assumes "\<And>s. security_types k sec s = types" and "authNone sec"
  shows "sv_talks (serverSecurityInit k 38 sec) [SECURITY_TYPE_NONE]
    ([of_nat (length types)] @ types @ be_bytes 4 SECURITY_RESULT_OK) (\<lambda>v _. v = True)"
proof -
  have types: "types \<noteq> []" using none_offered [OF assms(2)] assms(1) by (metis list.set(1) empty_iff)
  have offer: "sv_talks (security_offer k 38 sec) [] ([of_nat (length types)] @ types) (\<lambda>v _. v = True)"
    unfolding security_offer_def wr_bytes
    by (rule talksI, use types in \<open>simp add: assms(1) ebind_assoc ebind_wrData calm_write\<close>) blast
  have chosen: "sv_talks (eseq (wrData (be_bytes 4 SECURITY_RESULT_OK)) (ereturn True)) [] (be_bytes 4 SECURITY_RESULT_OK)
      (\<lambda>v (_ :: 'a server_scheme). v = True)"
    by (rule talks_bind [OF sv_writes talks_return(1)]) simp_all
  show ?thesis unfolding serverSecurityInit_def wr_bytes
    by (rule talks_bind [OF offer], simp, rule talks_bind [OF sv_reads [OF takes_ints(1), of SECURITY_TYPE_NONE]])
      (use assms(2) chosen in \<open>simp_all\<close>)
qed

text \<open>The client init message is answered, and the pixels are the server's own until the client asks for others.\<close>

lemma init_talks:
  "sv_talks (serverClientInit c name sz displayDepth pf) [shared]
    (init_message (sv_be c) sz displayDepth pf @ name_message name) (\<lambda>_ t. clientPf t = sv_format c)"
  unfolding serverClientInit_def Let_def wr_bytes init_message_def name_message_def
  by (rule talks_bind [OF sv_reads [OF takes_ints(1)]])
    (auto intro!: talksI simp: ebind_assoc ebind_wrData calm_write)

text \<open>The events between the phases as \<open>RFB::X11Server\<close> itself has them: empty.\<close>

definition no_events :: "'s handshake_events" where
  "no_events = \<lparr>serverHandshakeVersionEvent = ereturn (), serverSecurityInitEvent = ereturn ()\<rparr>"

lemma fire_talks:
  assumes "\<And>e s. sv_event c e s = (Inr (), s)"
  shows "sv_talks (fire c e) [] [] (\<lambda>v _. v = ())"
  by (rule talksI) (simp add: fire_def note_event_def assms)

lemma select_talks:
  assumes "\<And>e s. sv_event c e s = (Inr (), s)"
  shows "sv_talks (serverSelectEncodings c) [] [] (\<lambda>v _. v = ())"
proof -
  have "sv_talks (serverSelectClientEncoding c) [] [] (\<lambda>v _. v = ())"
    by (rule talksI) (auto simp: serverSelectClientEncoding_def fire_def note_event_def Let_def assms split: option.splits)
  then show ?thesis unfolding serverSelectEncodings_def
    by (intro talks_bind [where a = "()" and X = "[]" and Y = "[]" and X' = "[]" and Y' = "[]"])
      (use fire_talks [OF assms] in simp_all)
qed

lemma ebind_ereturn: "ebind (ereturn a) f = f a"
  by (simp add: fun_eq_iff)

lemma server_talks:
  fixes c :: "'a server_scheme server_class"
  assumes "\<And>s. security_types k sec s = types" and "authNone sec" and "\<And>e s. sv_event c e s = (Inr (), s)"
  shows "sv_talks (server_handshake c k no_events sec sz dd) client_script
    (server_script (sv_be c) types sz dd (sv_format c)) (\<lambda>v t. v = True \<and> clientPf t = sv_format c)"
proof -
  let ?init = "init_message (sv_be c) sz dd (sv_format c) @ name_message ''X11 Remote Desktop''"
  let ?Q = "\<lambda>v t. v = True \<and> clientPf t = sv_format c"
  have "sv_talks (eseq (serverClientInit c ''X11 Remote Desktop'' sz dd (sv_format c)) (ereturn True)) [0] ?init ?Q"
  proof (rule talksI)
    fix s :: "'a server_scheme" and rest assume "rfbMessages s \<and> sv_room s = None" "sv_input s = [0] @ rest"
    with init_talks [of c "''X11 Remote Desktop''" sz dd "sv_format c" 0]
    show "\<exists>v t. eseq (serverClientInit c ''X11 Remote Desktop'' sz dd (sv_format c)) (ereturn True) s = (Inr v, t) \<and>
        (rfbMessages t \<and> sv_room t = None) \<and> sv_input t = rest \<and> sv_output t = sv_output s @ ?init \<and> ?Q v t"
      by (elim talksE) (auto simp: ebind_Inr)
  qed
  then have "sv_talks (ebind (serverSecurityInit k 38 sec) (\<lambda>ok. if \<not> ok then ereturn False
      else eseq (serverSecurityInitEvent no_events)
        (eseq (serverClientInit c ''X11 Remote Desktop'' sz dd (sv_format c)) (ereturn True))))
      ([SECURITY_TYPE_NONE] @ [0]) (([of_nat (length types)] @ types @ be_bytes 4 SECURITY_RESULT_OK) @ ?init) ?Q"
    by (intro talks_bind [OF security_talks [OF assms(1,2)]]) (simp_all add: no_events_def ebind_ereturn)
  then show ?thesis unfolding server_handshake_def
    by (intro talks_bind [OF select_talks [OF assms(3)] talks_bind [OF version_talks]])
      (simp_all add: client_script_def server_script_def no_events_def ebind_ereturn)
qed

section \<open>The client's side\<close>

lemma type_talks:
  assumes "authNone sec" "\<not> authVnc sec" "\<not> authVenCrypt sec" "\<not> authKrb5 sec" "SECURITY_TYPE_NONE \<in> set types"
  shows "cl_talks (client_security_type c k sec types) [] [SECURITY_TYPE_NONE] (\<lambda>v _. v = True)"
proof -
  have "client_security_type c k sec types = eseq (cl_send [SECURITY_TYPE_NONE]) (ereturn True)"
    using assms by (simp add: client_security_type_def list_ex_iff)
  moreover have "cl_talks (eseq (cl_send [SECURITY_TYPE_NONE]) (ereturn True)) [] [SECURITY_TYPE_NONE] (\<lambda>v _. v = True)"
    by (rule talks_bind [OF cl_writes talks_return(1)]) simp_all
  ultimately show ?thesis by simp
qed

text \<open>Reading the init message one integer after the other.\<close>

lemma read_int8:
  assumes "ref_pending sb = a # bs"
    and "\<And>sb'. ref_pending sb' = bs \<Longrightarrow> \<exists>v t. f a sb' s = (Inr v, t) \<and> P v t"
  shows "\<exists>v t. ebind (ref_rd8 sb) (\<lambda>(a, sb). f a sb) s = (Inr v, t) \<and> P v t"
proof -
  obtain sb' where "getInt8 ref_getRaw sb = Inr (a, sb')" "ref_pending sb' = bs"
    using readsE [OF sbref.reads_int8, of sb a bs] assms(1) by auto
  with assms(2) [of sb'] show ?thesis by (simp add: ref_rd8_def)
qed

lemma read_int16:
  assumes "ref_pending sb = be_bytes 2 b @ bs"
    and "\<And>sb'. ref_pending sb' = bs \<Longrightarrow> \<exists>v t. f b sb' s = (Inr v, t) \<and> P v t"
  shows "\<exists>v t. ebind (ref_rd16 be sb) (\<lambda>(b, sb). f b sb) s = (Inr v, t) \<and> P v t"
proof -
  obtain sb' where "getIntBE16 be ref_getRaw sb = Inr (b, sb')" "ref_pending sb' = bs"
    using readsE [OF sbref.reads_BE(1), of sb b bs be] assms(1) by auto
  with assms(2) [of sb'] show ?thesis by (simp add: ref_rd16_def)
qed

lemma read_modify:
  "\<exists>v t. g (f s) = (Inr v, t) \<and> P v t \<Longrightarrow> \<exists>v t. eseq (emodify f) g s = (Inr v, t) \<and> P v t"
  by simp

lemma name_read:
  assumes "length name < 2 ^ 32" and "cl_input s = name_message name @ rest"
  shows "ebind (cr32 be) (\<lambda>n. ebind (crData (unat n)) (\<lambda>_. ereturn True)) s = (Inr True, s\<lparr>cl_input := rest\<rparr>)"
proof -
  have "unat (of_nat (length name) :: u32) = length (str_bytes name)"
    using assms by (simp add: str_bytes_def unsigned_of_nat take_bit_nat_eq_self)
  moreover have "cl_input s = be_bytes 4 (of_nat (length name) :: u32) @ str_bytes name @ rest"
    using assms(2) by (simp add: name_message_def)
  ultimately show ?thesis
    by (simp add: cr32_def crData_def ereader_def ebind_def client_recv
        getInt_wire(3) [OF client_recv [where bs = "be_bytes 4 (of_nat (length name) :: u32)"]])
qed

lemma client_init_talks:
  assumes "bitsPixel pf \<in> {8, 16, 24, 32}" "redMax pf \<noteq> 0" "greenMax pf \<noteq> 0" "blueMax pf \<noteq> 0"
    and "\<And>e s. cl_event c e s = (Inr (), s)" and "length name < 2 ^ 32"
  shows "cl_talks (client_server_init c (init_message be sz dd pf)) (name_message name) []
    (\<lambda>v t. v = True \<and> pf_compare (cl_serverPf t) pf True)"
proof (rule talksI)
  fix s :: "'a client_scheme" and rest
  assume s: "cl_room s = None" "cl_input s = name_message name @ rest"
  let ?buf = "init_message be sz dd pf"
  show "\<exists>v t. client_server_init c ?buf s = (Inr v, t) \<and> cl_room t = None \<and> cl_input t = rest \<and>
      cl_output t = cl_output s @ [] \<and> v = True \<and> pf_compare (cl_serverPf t) pf True"
    unfolding client_server_init_def Let_def
    apply (rule read_int16, rule trans [OF ref_pending_new], unfold init_message_def append_assoc, rule refl)
    apply (rule read_int16, assumption, simp only: append_Cons append_Nil)
    apply (rule read_int8, assumption, rule read_int8, assumption, rule read_int8, assumption)
    apply (rule read_modify, rule read_int8, assumption, rule read_modify)
    apply (rule read_int16, assumption, rule read_int16, assumption, rule read_int16, assumption)
    apply (rule read_int8, assumption, rule read_int8, assumption, rule read_int8, assumption, rule read_modify)
    using assms(1-5) s(1)
    by (auto simp: name_read [OF assms(6)] s(2) cl_fire_def ebind_assoc ebind_Inr pixelFormat_max_def pf_compare_def)
qed
lemma length_init: "length (init_message be sz dd pf) = 20"
  by (simp add: init_message_def)

lemma client_talks:
  assumes "authNone sec" "\<not> authVnc sec" "\<not> authVenCrypt sec" "\<not> authKrb5 sec"
    and "SECURITY_TYPE_NONE \<in> set types" "length types < 256"
    and "bitsPixel pf \<in> {8, 16, 24, 32}" "redMax pf \<noteq> 0" "greenMax pf \<noteq> 0" "blueMax pf \<noteq> 0"
    and "\<And>e s. cl_event c e s = (Inr (), s)"
  shows "cl_talks (rfbHandshakeAwait c k sec) (server_script be types sz dd pf) client_script
    (\<lambda>v t. v = True \<and> pf_compare (cl_serverPf t) pf True)"
proof -
  let ?Q = "\<lambda>v t. v = True \<and> pf_compare (cl_serverPf t) pf True"
  have n: "unat (of_nat (length types) :: u8) = length types"
    using assms(6) by (simp add: unsigned_of_nat take_bit_nat_eq_self)
  have nonzero: "(of_nat (length types) :: u8) \<noteq> 0"
  proof
    assume "(of_nat (length types) :: u8) = 0"
    with n assms(5) show False by simp
  qed
  have "cl_talks (client_server_init c (init_message be sz dd pf)) (name_message ''X11 Remote Desktop'') [] ?Q"
    by (rule client_init_talks) (use assms in simp_all)
  then have init: "cl_talks (ebind (crData 20) (client_server_init c))
      (init_message be sz dd pf @ name_message ''X11 Remote Desktop'') [] ?Q"
    by (intro talks_bind [OF cl_reads(4) [where bs = "init_message be sz dd pf"]]) (simp_all add: length_init)
  have "cl_talks (eseq (cl_send [0]) (ebind (crData 20) (client_server_init c)))
      (init_message be sz dd pf @ name_message ''X11 Remote Desktop'') [0] ?Q"
    by (rule talks_bind [OF cl_writes init]) simp_all
  then have result: "cl_talks (ebind (cr32 (cl_be c)) (\<lambda>secReply. if SECURITY_RESULT_OK \<noteq> secReply then
        ebind (cr32 (cl_be c)) (\<lambda>len. ebind (crData (unat len)) (\<lambda>err. ereturn False))
      else eseq (cl_send [0]) (ebind (crData 20) (client_server_init c))))
      (be_bytes 4 SECURITY_RESULT_OK @ init_message be sz dd pf @ name_message ''X11 Remote Desktop'') [0] ?Q"
    by (intro talks_bind [OF cl_reads(3) [where d = SECURITY_RESULT_OK]]) simp_all
  let ?choose = "\<lambda>security. ebind (client_security_type c k sec security) (\<lambda>ok. if \<not> ok then ereturn False else
      ebind (cr32 (cl_be c)) (\<lambda>secReply. if SECURITY_RESULT_OK \<noteq> secReply then
        ebind (cr32 (cl_be c)) (\<lambda>len. ebind (crData (unat len)) (\<lambda>err. ereturn False))
      else eseq (cl_send [0]) (ebind (crData 20) (client_server_init c))))"
  let ?init = "init_message be sz dd pf @ name_message ''X11 Remote Desktop''"
  have "cl_talks (?choose types) (be_bytes 4 SECURITY_RESULT_OK @ ?init) ([SECURITY_TYPE_NONE] @ [0]) ?Q"
    by (intro talks_bind [OF type_talks [OF assms(1-5)]]) (use result in simp_all)
  then have "cl_talks (ebind (crData (length types)) ?choose) (types @ be_bytes 4 SECURITY_RESULT_OK @ ?init)
      ([SECURITY_TYPE_NONE] @ [0]) ?Q"
    by (intro talks_bind [OF cl_reads(4) [where bs = types]]) simp_all
  then have "cl_talks (ebind cr8 (\<lambda>counts. if counts = 0 then
        ebind (cr32 (cl_be c)) (\<lambda>len. ebind (crData (unat len)) (\<lambda>err. ereturn False))
      else ebind (crData (unat counts)) ?choose))
      ([of_nat (length types)] @ types @ be_bytes 4 SECURITY_RESULT_OK @ ?init) ([SECURITY_TYPE_NONE] @ [0]) ?Q"
    by (intro talks_bind [OF cl_reads(1) [where a = "of_nat (length types)"]]) (simp_all add: n nonzero)
  then have "cl_talks (eseq (cl_send (rfb_version 3 8)) (ebind cr8 (\<lambda>counts. if counts = 0 then
        ebind (cr32 (cl_be c)) (\<lambda>len. ebind (crData (unat len)) (\<lambda>err. ereturn False))
      else ebind (crData (unat counts)) ?choose)))
      ([of_nat (length types)] @ types @ be_bytes 4 SECURITY_RESULT_OK @ ?init) client_script ?Q"
    by (intro talks_bind [OF cl_writes]) (simp_all add: client_script_def)
  moreover have "rfb_version 3 8 \<noteq> []" using length_version by auto
  ultimately show ?thesis unfolding rfbHandshakeAwait_def Let_def server_script_def
    by (intro talks_bind [OF cl_reads(4) [where bs = "rfb_version 3 8"]]) (simp_all add: length_version)
qed

section \<open>Properties\<close>

text \<open>
  C4. A client without authentication and a server that offers it accept each other: what each sends is what the
  other one reads, up to the last byte of the handshake, and the client takes the server's pixel format over.
\<close>

theorem handshake_agrees:
  assumes "\<And>s. security_types k sec s = types" and "authNone sec" and "\<And>e s. sv_event c e s = (Inr (), s)"
    and "authNone csec" "\<not> authVnc csec" "\<not> authVenCrypt csec" "\<not> authKrb5 csec"
    and "\<And>e s. cl_event cc e s = (Inr (), s)"
    and "bitsPixel (sv_format c) \<in> {8, 16, 24, 32}" "redMax (sv_format c) \<noteq> 0" "greenMax (sv_format c) \<noteq> 0"
      "blueMax (sv_format c) \<noteq> 0"
    and "rfbMessages s" "sv_room s = None" "sv_input s = client_script @ rest"
    and "cl_room cl = None" "cl_input cl = server_script (sv_be c) types sz dd (sv_format c) @ rest'"
  shows "\<exists>s' cl'. server_handshake c k no_events sec sz dd s = (Inr True, s') \<and>
      rfbHandshakeAwait cc ck csec cl = (Inr True, cl') \<and>
      sv_output s' = sv_output s @ server_script (sv_be c) types sz dd (sv_format c) \<and> sv_input s' = rest \<and>
      cl_output cl' = cl_output cl @ client_script \<and> cl_input cl' = rest' \<and>
      clientPf s' = sv_format c \<and> pf_compare (cl_serverPf cl') (sv_format c) True"
proof -
  have types: "SECURITY_TYPE_NONE \<in> set types" "length types < 256"
    using none_offered [OF assms(2)] length_types assms(1) by metis+
  have "rfbMessages s \<and> sv_room s = None" using assms by simp
  from talksE [OF server_talks [OF assms(1-3)] this assms(15)]
  obtain s' where "server_handshake c k no_events sec sz dd s = (Inr True, s')" "sv_input s' = rest"
    "sv_output s' = sv_output s @ server_script (sv_be c) types sz dd (sv_format c)" "clientPf s' = sv_format c"
    by metis
  moreover from talksE [OF client_talks [OF assms(4-7) types assms(9-12) assms(8)] assms(16,17)]
  obtain cl' where "rfbHandshakeAwait cc ck csec cl = (Inr True, cl')" "cl_input cl' = rest'"
    "cl_output cl' = cl_output cl @ client_script" "pf_compare (cl_serverPf cl') (sv_format c) True"
    by metis
  ultimately show ?thesis by blast
qed

text \<open>Classes without events, for a server that asks for nothing and a client that has nothing.\<close>

definition open_info :: securityinfo where
  "open_info = vnc_info\<lparr>authNone := True, authVnc := False\<rparr>"

definition silent_render :: "client decoderrender" where
  "silent_render = \<lparr>dr_serverFormat = cl_serverPf, dr_clientFormat = cl_serverPf, dr_setPixel = (\<lambda>_ _. Inr),
     dr_fillPixel = (\<lambda>_ _. Inr), dr_updateRawPixels = (\<lambda>_ _ _ _. Inr), dr_postDecoderJob = (\<lambda>_ _ _ _ _. Inr)\<rparr>"

definition silent_client :: "client client_class" where
  "silent_client = \<lparr>cl_be = False, cl_event = (\<lambda>_. ereturn ()),
     cl_clip = \<lparr>extClipboardLocalTypes = (\<lambda>_. 0), extClipboardLocalData = (\<lambda>_. ereturn []),
       extClipboardRemoteTypesEvent = (\<lambda>_. ereturn ()), extClipboardRemoteDataEvent = (\<lambda>_ _. ereturn ()),
       extClipboardSendEvent = (\<lambda>_. ereturn ())\<rparr>,
     cl_zlib = stored_zlib, cl_inflate = (\<lambda>_. Inr), cl_lz4d = (\<lambda>bs _. Inr bs), cl_uncompress = (\<lambda>bs _. Inr bs),
     cl_video = (\<lambda>_ _ _. ereturn ()), cl_render = silent_render, cl_clientSize = (\<lambda>_. Size 64 48),
     cl_ltsmSupported = True, cl_videoEncoding = 0, cl_audioEncoding = 0, decoding_ltsm = True, decoding_lz4 = True,
     decoding_tjpg = False, decoding_ffmpeg = False, decoding_h264 = False, decoding_mpeg4 = False,
     decoding_opus = False\<rparr>"

definition plain_client_security :: "client client_security" where
  "plain_client_security = \<lparr>ks_gssapi = False, ks_evp = (\<lambda>_ _. Inr), ks_tls = (\<lambda>_. ereturn False),
     ks_credential = (\<lambda>_. False), ks_connect = (\<lambda>_ _ _. ereturn False)\<rparr>"

theorem handshake_agrees_witness:
  "\<exists>s' cl'. server_handshake base_class (vnc_security []) no_events open_info (Size 64 48) 24 (server_init client_script) = (Inr True, s') \<and>
     rfbHandshakeAwait silent_client plain_client_security open_info
       (client_init\<lparr>cl_input := server_script False [1] (Size 64 48) 24 BGRX32\<rparr>) = (Inr True, cl') \<and>
     pf_compare (cl_serverPf cl') BGRX32 True"
proof -
  have format: "sv_format base_class = BGRX32" "sv_be base_class = False" by (simp_all add: base_class_def)
  have types: "security_types (vnc_security []) open_info s = [1]" for s
    by (simp add: security_types_def vnc_security_def open_info_def vnc_info_def SECURITY_TYPE_NONE_def)
  have events: "sv_event base_class e s = (Inr (), s)" "cl_event silent_client e' cl = (Inr (), cl)" for e s e' cl
    by (simp_all add: base_class_def silent_client_def)
  have info: "authNone open_info" "\<not> authVnc open_info" "\<not> authVenCrypt open_info" "\<not> authKrb5 open_info"
    by (simp_all add: open_info_def vnc_info_def)
  have pf: "bitsPixel (sv_format base_class) \<in> {8, 16, 24, 32}" "redMax (sv_format base_class) \<noteq> 0"
    "greenMax (sv_format base_class) \<noteq> 0" "blueMax (sv_format base_class) \<noteq> 0"
    unfolding format by code_simp+
  have s: "rfbMessages (server_init client_script)" "sv_room (server_init client_script) = None"
    "sv_input (server_init client_script) = client_script @ []"
    by (simp_all add: server_init_def extclip.defs)
  have cl: "cl_room (client_init\<lparr>cl_input := server_script False [1] (Size 64 48) 24 BGRX32\<rparr>) = None"
    "cl_input (client_init\<lparr>cl_input := server_script False [1] (Size 64 48) 24 BGRX32\<rparr>) =
      server_script (sv_be base_class) [1] (Size 64 48) 24 (sv_format base_class) @ []"
    by (simp_all add: client_init_def extclip.defs format)
  from handshake_agrees [OF types info(1) events(1) info events(2) pf s cl] show ?thesis unfolding format by blast
qed

lemma xor_fixed: "x XOR y = x \<longleftrightarrow> y = (0 :: u8)"
  by (auto simp: bit_eq_iff bit_simps)

text \<open>
  C25. The password is not enough for a client of this library to get into a server of it: over the same cipher,
  the client chains the two blocks of the challenge, the server encrypts each on its own, and the two
  results agree only if the first block is encrypted to zeros.
\<close>

theorem vnc_ciphers_differ:
  assumes "\<And>key iv b. length b = 8 \<Longrightarrow> gnutls key iv b = Inr (des key (xor_bytes b iv))"
    and "\<And>key iv b1 b2. length b1 = 8 \<Longrightarrow> length b2 = 8 \<Longrightarrow> evp key iv (b1 @ b2) =
      Inr (des key (xor_bytes b1 iv) @ des key (xor_bytes b2 (des key (xor_bytes b1 iv))))"
    and "\<And>key b. length b = 8 \<Longrightarrow> length (des key b) = 8"
    and "\<And>key. inj_on (des key) {b. length b = 8}"
    and "length b1 = 8" "length b2 = 8"
  shows "openssl_encryptDES evp (b1 @ b2) pass = encryptDES gnutls (b1 @ b2) pass \<longleftrightarrow>
    des (des_key pass) b1 = replicate 8 0"
proof -
  let ?x = "des (des_key pass) b1"
  have x: "length ?x = 8" using assms by simp
  have "openssl_encryptDES evp (b1 @ b2) pass = encryptDES gnutls (b1 @ b2) pass \<longleftrightarrow>
      des (des_key pass) (xor_bytes b2 ?x) = des (des_key pass) b2"
    using encrypt_two [of gnutls des b1 b2 pass] assms by (simp add: openssl_encryptDES_def xor_zero)
  also have "\<dots> \<longleftrightarrow> xor_bytes b2 ?x = b2"
    using inj_on_eq_iff [OF assms(4) [of "des_key pass"], of "xor_bytes b2 ?x" b2] assms(6) x
    by (simp add: xor_bytes_def)
  also have "\<dots> \<longleftrightarrow> ?x = replicate 8 0"
    using assms(6) x by (simp add: xor_bytes_def list_eq_iff_nth_eq xor_fixed)
  finally show ?thesis .
qed

theorem vnc_ciphers_differ_witness:
  "openssl_encryptDES (\<lambda>key iv bs. Inr (rev (xor_bytes (take 8 bs) iv) @
       rev (xor_bytes (drop 8 bs) (rev (xor_bytes (take 8 bs) iv)))))
     ([1, 2, 3, 4, 5, 6, 7, 8] @ [1, 2, 3, 4, 5, 6, 7, 8]) [97, 98, 99] \<noteq>
   encryptDES (\<lambda>key iv bs. Inr (rev (xor_bytes bs iv))) ([1, 2, 3, 4, 5, 6, 7, 8] @ [1, 2, 3, 4, 5, 6, 7, 8]) [97, 98, 99]"
proof -
  have "rev [1, 2, 3, 4, 5, 6, 7, 8 :: u8] \<noteq> replicate 8 0" by code_simp
  then show ?thesis
    by (subst vnc_ciphers_differ [where des = "\<lambda>key. rev"]) simp_all
qed

end
