(* ===== verification/Rfb_X11server.thy ===== *)
theory Rfb_X11server
  imports Rfb_Messages Rfb_Update
begin

text \<open>
  \<^verbatim>\<open>RFB::X11Server\<close> (\<^verbatim>\<open>src/src/librfb/server/librfb_x11server.cpp\<close>): the server of an X display. The
  requests it makes to the X server are recorded in \<open>x11_calls\<close>, the threads it detaches are entries
  of \<open>x11_jobs\<close>; what it asks the display and the connector that derives from it for is the record
  \<open>x11_class\<close>. Its threads (messages, X events, updates, detached jobs) are the steps of \<open>x11_step\<close>.
\<close>

section \<open>State\<close>

datatype x11_call =
    FakeKey u8 bool
  | FakeButton nat point bool
  | FakeMove point
  | SetSelectionOwner
  | ConvertSelection u32
  | ConvertTargets
  | SetScreenSize xsize
  | DamageSubtract region

datatype x11_job =
    JobResized desktop_resize_status xsize
  | JobFirstResize
  | JobSetScreen xsize

datatype x11_image = ImageBusy | ImageNone | ImageData bytes nat

record x11server = server +
  clientClipboard :: bytes
  clientRegion :: region
  damageRegion :: region
  pressedMask :: u32
  randrSequence :: u16
  displayResizeNegotiation :: bool
  displayResizeProcessed :: bool
  clientUpdateCursor :: bool
  fullscreenUpdateReq :: bool
  clipLocalTypes :: u16
  clipRemoteTypes :: u16
  x11_calls :: "x11_call list"
  x11_jobs :: "x11_job list"

text \<open>
  \<open>x_base\<close> are the members of \<open>ServerEncoder\<close> that the connector provides, with its events. The
  \<open>x_has\<close> functions tell whether an extension is there. \<open>x_selection\<close> is what the X thread has put into the clipboard when
  the wait for the data of an atom ends, \<open>x_image\<close> the outcome of the request of the image of a
  region (the exception \<open>xcb_error_busy\<close>, no reply, or its bytes and the bytes of a pixel),
  \<open>x_setScreenSize\<close> the sequence number of an accepted resize.
\<close>

record 's x11_class =
  x_base :: "'s server_class"
  x_atoms :: x11_atoms
  x_allow :: "'s \<Rightarrow> bool"
  x_size :: "'s \<Rightarrow> xsize"
  x_hasTest :: "'s \<Rightarrow> bool"
  x_hasCopy :: "'s \<Rightarrow> bool"
  x_hasPaste :: "'s \<Rightarrow> bool"
  x_noDamage :: bool
  x_clipboardEnable :: bool
  x_desktopResizeEnabled :: bool
  x_userKeycode :: "u32 \<Rightarrow> u8"
  x_keysymToKeycode :: "'s \<Rightarrow> u32 \<Rightarrow> u8"
  x_scanCodeToKeySym :: "u16 \<Rightarrow> u32"
  x_layoutGroup :: "'s \<Rightarrow> int option"
  x_keycodeGroup :: "'s \<Rightarrow> u32 \<Rightarrow> u8 \<times> int"
  x_groupKeysym :: "'s \<Rightarrow> u8 \<Rightarrow> int \<Rightarrow> u32"
  x_selection :: "u32 \<Rightarrow> 's \<Rightarrow> bytes"
  x_image :: "region \<Rightarrow> 's \<Rightarrow> x11_image"
  x_setScreenSize :: "xsize \<Rightarrow> 's \<Rightarrow> u16 option"
  x_cursor :: "'s \<Rightarrow> (framebuffer \<times> u16 \<times> u16) option"

definition x11_call :: "x11_call \<Rightarrow> ('a x11server_scheme, unit) exc" where
  "x11_call k = emodify (\<lambda>s. s\<lparr>x11_calls := x11_calls s @ [k]\<rparr>)"

definition x11_detach :: "x11_job \<Rightarrow> ('a x11server_scheme, unit) exc" where
  "x11_detach j = emodify (\<lambda>s. s\<lparr>x11_jobs := x11_jobs s @ [j]\<rparr>)"

definition x11_region :: "'a x11server_scheme x11_class \<Rightarrow> 'a x11server_scheme \<Rightarrow> region" where
  "x11_region x s = Region 0 0 (sz_width (x_size x s)) (sz_height (x_size x s))"

section \<open>Input events\<close>

definition serverRecvKeyEvent ::
    "'a x11server_scheme x11_class \<Rightarrow> bool \<Rightarrow> u32 \<Rightarrow> u16 \<Rightarrow> ('a x11server_scheme, unit) exc" where
  "serverRecvKeyEvent x pressed keycode scancode s =
     (if \<not> x_allow x s then (Inr (), s)
      else
        let keysym =
              (if clientLtsmKeyboard s then
                 let x11sym = x_scanCodeToKeySym x scancode;
                     keysym = (if x11sym \<noteq> 0 then x11sym else keycode)
                 in case x_layoutGroup x s of
                      None \<Rightarrow> keysym
                    | Some grp \<Rightarrow>
                        (case x_keycodeGroup x s x11sym of (code, codeGroup) \<Rightarrow>
                           if grp \<noteq> codeGroup then x_groupKeysym x s code grp else keysym)
               else keycode)
        in if x_hasTest x s then
             let keycode = (if x_userKeycode x keysym = 0 then x_keysymToKeycode x s keysym else x_userKeycode x keysym)
             in if keycode \<noteq> 0 then x11_call (FakeKey keycode pressed) s else (Inr (), s)
           else (Inr (), s))"

definition pointer_button :: "u8 \<Rightarrow> point \<Rightarrow> nat \<Rightarrow> ('a x11server_scheme, unit) exc" where
  "pointer_button buttons pos num s =
     (let bit = push_bit num 1 :: u32 in
      if bit AND ucast buttons \<noteq> 0 then
        eseq (x11_call (FakeButton (num + 1) pos True))
          (emodify (\<lambda>s. s\<lparr>pressedMask := pressedMask s OR bit\<rparr>)) s
      else if bit AND pressedMask s \<noteq> 0 then
        eseq (x11_call (FakeButton (num + 1) pos False))
          (emodify (\<lambda>s. s\<lparr>pressedMask := pressedMask s AND NOT bit\<rparr>)) s
      else (Inr (), s))"

definition serverRecvPointerEvent ::
    "'a x11server_scheme x11_class \<Rightarrow> u8 \<Rightarrow> u16 \<Rightarrow> u16 \<Rightarrow> ('a x11server_scheme, unit) exc" where
  "serverRecvPointerEvent x buttons posx posy s =
     (if x_allow x s then
        if \<not> x_hasTest x s then (Inr (), s)
        else if pressedMask s XOR ucast buttons \<noteq> 0
        then eeach (pointer_button buttons (Point posx posy)) [0..<8] s
        else x11_call (FakeMove (Point posx posy)) s
      else (Inr (), s))"

section \<open>Update requests\<close>

definition serverScreenUpdateRequest :: "('a x11server_scheme, unit) exc" where
  "serverScreenUpdateRequest = emodify (\<lambda>s. s\<lparr>fullscreenUpdateReq := True\<rparr>)"

definition serverRegionUpdateRequest :: "region \<Rightarrow> ('a x11server_scheme, unit) exc" where
  "serverRegionUpdateRequest reg = emodify (\<lambda>s. s\<lparr>damageRegion := region_join (damageRegion s) reg\<rparr>)"

definition serverRecvFBUpdateEvent ::
    "'a x11server_scheme x11_class \<Rightarrow> bool \<Rightarrow> region \<Rightarrow> ('a x11server_scheme, unit) exc" where
  "serverRecvFBUpdateEvent x incremental reg s =
     (if \<not> x_allow x s then (Inr (), s\<lparr>fullscreenUpdateReq := True\<rparr>)
      else
        let s = s\<lparr>clientRegion := reg\<rparr> in
        if \<not> incremental then (Inr (), s\<lparr>fullscreenUpdateReq := True\<rparr>)
        else if continueUpdatesProcessed s then (Inr (), s\<lparr>clientRegion := region_reset (clientRegion s)\<rparr>)
        else (Inr (), s))"

definition serverRecvSetContinuousUpdatesEvent :: "bool \<Rightarrow> region \<Rightarrow> ('a x11server_scheme, unit) exc" where
  "serverRecvSetContinuousUpdatesEvent enable reg =
     eseq (emodify (\<lambda>s. s\<lparr>clientRegion := reg\<rparr>))
     (ewhen enable (emodify (\<lambda>s. s\<lparr>damageRegion := region_join (damageRegion s) reg\<rparr>)))"

definition serverRecvDesktopSizeEvent ::
    "'a x11server_scheme x11_class \<Rightarrow> screeninfo list \<Rightarrow> ('a x11server_scheme, unit) exc" where
  "serverRecvDesktopSizeEvent x screens s =
     (let be = sv_be (x_base x);
          desktop = fold (\<lambda>info d. region_join d (region.truncate info)) screens (Region 0 0 0 0)
      in if rg_x desktop \<noteq> 0 \<and> rg_y desktop \<noteq> 0 then
           sendEncodingDesktopResize be ClientSide InvalidScreenLayout (x_size x s) s
         else if \<not> x_allow x s then
           sendEncodingDesktopResize be ClientSide OutOfResources (Size 0 0) s
         else if x_size x s = toSize desktop then
           sendEncodingDesktopResize be ClientSide NoError (x_size x s) s
         else eseq (emodify (\<lambda>s. s\<lparr>displayResizeNegotiation := True\<rparr>)) (x11_detach (JobSetScreen (toSize desktop))) s)"

definition serverRecvSetEncodingsEvent :: "'a x11server_scheme x11_class \<Rightarrow> ('a x11server_scheme, unit) exc" where
  "serverRecvSetEncodingsEvent x =
     eseq (serverSelectEncodings (x_base x))
     (ebind (egets (isClientSupportedEncoding ENCODING_EXT_DESKTOP_SIZE)) (\<lambda>ext.
      ewhen (ext \<and> x_desktopResizeEnabled x) (x11_detach JobFirstResize)))"

definition serverSendFBUpdateEvent :: "'a x11server_scheme x11_class \<Rightarrow> region \<Rightarrow> ('a x11server_scheme, unit) exc" where
  "serverSendFBUpdateEvent x reg = ewhen (\<not> x_noDamage x) (x11_call (DamageSubtract reg))"

section \<open>Clipboard\<close>

definition x11_send_cut :: "'a x11server_scheme x11_class \<Rightarrow> bytes \<Rightarrow> bool \<Rightarrow> ('a x11server_scheme, unit) exc" where
  "x11_send_cut x = sendCutTextEvent (sv_be (x_base x))"

definition serverRecvCutTextEvent :: "'a x11server_scheme x11_class \<Rightarrow> bytes \<Rightarrow> ('a x11server_scheme, unit) exc" where
  "serverRecvCutTextEvent x buf =
     ewhen (x_clipboardEnable x)
     (eseq (emodify (\<lambda>s. s\<lparr>clientClipboard := buf\<rparr>))
     (ebind (egets (\<lambda>s. x_allow x s \<and> x_hasPaste x s)) (\<lambda>b. ewhen b (x11_call SetSelectionOwner))))"

primrec wait_selection ::
    "'a x11server_scheme x11_class \<Rightarrow> u32 list \<Rightarrow> ('a x11server_scheme, bytes) exc" where
  "wait_selection x [] = ereturn []"
| "wait_selection x (atom # atoms) =
     eseq (emodify (\<lambda>s. s\<lparr>clientClipboard := []\<rparr>)) (eseq (x11_call (ConvertSelection atom))
     (eseq (emodify (\<lambda>s. s\<lparr>clientClipboard := x_selection x atom s\<rparr>))
     (ebind (egets clientClipboard) (\<lambda>data. if data \<noteq> [] then ereturn data else wait_selection x atoms))))"

definition x11_localData :: "'a x11server_scheme x11_class \<Rightarrow> u16 \<Rightarrow> ('a x11server_scheme, bytes) exc" where
  "x11_localData x type =
     ebind (egets extClipboardRemoteCaps) (\<lambda>caps.
     if caps = 0 then ethrow RfbError
     else ebind (egets (x_hasCopy x)) (\<lambda>copy.
       if copy then wait_selection x (typesToX11Atoms (x_atoms x) type) else ereturn []))"

definition x11_remoteTypes :: "'a x11server_scheme x11_class \<Rightarrow> u16 \<Rightarrow> ('a x11server_scheme, unit) exc" where
  "x11_remoteTypes x types =
     ebind (egets extClipboardRemoteCaps) (\<lambda>caps.
     if caps \<noteq> 0 then
       eseq (emodify (\<lambda>s. s\<lparr>clipRemoteTypes := types\<rparr>))
       (ebind (egets (x_hasPaste x)) (\<lambda>paste. ewhen paste (x11_call SetSelectionOwner)))
     else ethrow RfbError)"

definition x11_remoteData :: "u16 \<Rightarrow> bytes \<Rightarrow> ('a x11server_scheme, unit) exc" where
  "x11_remoteData type buf =
     ebind (egets extClipboardRemoteCaps) (\<lambda>caps.
     if caps \<noteq> 0 then emodify (\<lambda>s. s\<lparr>clientClipboard := buf\<rparr>) else ethrow RfbError)"

definition x11_clip :: "'a x11server_scheme x11_class \<Rightarrow> 'a x11server_scheme clip_virtuals" where
  "x11_clip x = \<lparr>extClipboardLocalTypes = clipLocalTypes, extClipboardLocalData = x11_localData x,
     extClipboardRemoteTypesEvent = x11_remoteTypes x, extClipboardRemoteDataEvent = x11_remoteData,
     extClipboardSendEvent = (\<lambda>buf. x11_send_cut x buf True)\<rparr>"

definition selectionSourceTargets :: "'a x11server_scheme x11_class \<Rightarrow> 'a x11server_scheme \<Rightarrow> u32 list" where
  "selectionSourceTargets x s =
     typesToX11Atoms (x_atoms x) (if extClipboardRemoteCaps s \<noteq> 0 then clipRemoteTypes s else ucast TypeText)"

text \<open>The data that the message thread has received when the wait of three seconds ends.\<close>

definition selectionSourceReady ::
    "'a x11server_scheme x11_class \<Rightarrow> ('a x11server_scheme \<Rightarrow> bytes) \<Rightarrow> u32 \<Rightarrow> ('a x11server_scheme, bool) exc" where
  "selectionSourceReady x received atom s =
     (if \<not> list_ex (\<lambda>trgt. atom = trgt) (selectionSourceTargets x s) then (Inr False, s)
      else if extClipboardRemoteCaps s \<noteq> 0 then
        eseq (emodify (\<lambda>s. s\<lparr>clientClipboard := []\<rparr>))
        (eseq (sendExtClipboardRequest (x11_clip x) (sv_be (x_base x)) (x11AtomToType (x_atoms x) atom))
        (eseq (emodify (\<lambda>s. s\<lparr>clientClipboard := received s\<rparr>))
        (egets (\<lambda>s. clientClipboard s \<noteq> [])))) s
      else (Inr (clientClipboard s \<noteq> []), s))"

definition selectionSourceSize :: "'a x11server_scheme x11_class \<Rightarrow> u32 \<Rightarrow> 'a x11server_scheme \<Rightarrow> nat" where
  "selectionSourceSize x atom s =
     (if \<not> list_ex (\<lambda>trgt. atom = trgt) (selectionSourceTargets x s) then 0 else length (clientClipboard s))"

definition selectionSourceData ::
    "'a x11server_scheme x11_class \<Rightarrow> u32 \<Rightarrow> nat \<Rightarrow> nat \<Rightarrow> 'a x11server_scheme \<Rightarrow> bytes" where
  "selectionSourceData x atom offset len s =
     (if \<not> list_ex (\<lambda>trgt. atom = trgt) (selectionSourceTargets x s) then []
      else if offset + len \<le> length (clientClipboard s) then take len (drop offset (clientClipboard s))
      else [])"

definition selectionReceiveData :: "'a x11server_scheme x11_class \<Rightarrow> bytes \<Rightarrow> ('a x11server_scheme, unit) exc" where
  "selectionReceiveData x buf =
     ebind (egets extClipboardRemoteCaps) (\<lambda>caps.
     if caps \<noteq> 0 then emodify (\<lambda>s. s\<lparr>clientClipboard := buf\<rparr>) else x11_send_cut x buf False)"

definition selectionReceiveTargets :: "'a x11server_scheme x11_class \<Rightarrow> u32 list \<Rightarrow> ('a x11server_scheme, unit) exc" where
  "selectionReceiveTargets x atoms =
     eseq (emodify (\<lambda>s. s\<lparr>clipLocalTypes := 0\<rparr>))
     (ebind (egets extClipboardRemoteCaps) (\<lambda>caps.
      if caps \<noteq> 0 then
        eseq (emodify (\<lambda>s. s\<lparr>clipLocalTypes := fold (\<lambda>atom t. t OR x11AtomToType (x_atoms x) atom) atoms (clipLocalTypes s)\<rparr>))
        (ebind (egets clipLocalTypes) (\<lambda>types. sendExtClipboardNotify (x11_clip x) (sv_be (x_base x)) types))
      else
        ebind (egets (x_hasCopy x)) (\<lambda>copy.
        ebind (egets (selectionSourceTargets x)) (\<lambda>targets.
        case List.find (\<lambda>atom. list_ex (\<lambda>trgt. atom = trgt) atoms) targets of
          Some atom \<Rightarrow> ewhen copy (x11_call (ConvertSelection atom))
        | None \<Rightarrow> ereturn ()))))"

definition selectionChangedEvent :: "'a x11server_scheme x11_class \<Rightarrow> ('a x11server_scheme, unit) exc" where
  "selectionChangedEvent x = ebind (egets (x_hasCopy x)) (\<lambda>copy. ewhen copy (x11_call ConvertTargets))"

section \<open>The class\<close>

text \<open>\<open>serverEncodingsEvent\<close> and \<open>serverEncodingSelectedEvent\<close> of the connector are one event.\<close>

definition x11_event :: "'a x11server_scheme x11_class \<Rightarrow> server_event \<Rightarrow> ('a x11server_scheme, unit) exc" where
  "x11_event x e = (case e of
       RecvPixelFormat pf bigEndian \<Rightarrow> ereturn ()
     | RecvSetEncodings encs \<Rightarrow> serverRecvSetEncodingsEvent x
     | RecvKey pressed keycode scancode \<Rightarrow> serverRecvKeyEvent x pressed keycode scancode
     | RecvPointer buttons posx posy \<Rightarrow> serverRecvPointerEvent x buttons posx posy
     | RecvCutText buf \<Rightarrow> serverRecvCutTextEvent x buf
     | RecvFBUpdate incremental reg \<Rightarrow> serverRecvFBUpdateEvent x incremental reg
     | RecvSetContinuousUpdates enable reg \<Rightarrow> serverRecvSetContinuousUpdatesEvent enable reg
     | RecvDesktopSize screens \<Rightarrow> serverRecvDesktopSizeEvent x screens
     | SendFBUpdate reg \<Rightarrow> serverSendFBUpdateEvent x reg
     | _ \<Rightarrow> sv_event (x_base x) e)"

definition x11_server :: "'a x11server_scheme x11_class \<Rightarrow> 'a x11server_scheme server_class" where
  "x11_server x = (x_base x)\<lparr>sv_event := x11_event x, sv_clip := x11_clip x\<rparr>"

section \<open>Events of the display\<close>

definition xcbFixesCursorChangedEvent :: "('a x11server_scheme, unit) exc" where
  "xcbFixesCursorChangedEvent =
     emodify (\<lambda>s. s\<lparr>clientUpdateCursor := isClientSupportedEncoding ENCODING_RICH_CURSOR s\<rparr>)"

definition xcbDamageNotifyEvent :: "region \<Rightarrow> ('a x11server_scheme, unit) exc" where
  "xcbDamageNotifyEvent rt = emodify (\<lambda>s. s\<lparr>damageRegion := region_join (damageRegion s) rt\<rparr>)"

definition xcbRandrScreenSetSizeEvent :: "('a x11server_scheme, unit) exc" where
  "xcbRandrScreenSetSizeEvent = emodify (\<lambda>s. s\<lparr>displayResizeProcessed := True\<rparr>)"

definition xcbRandrScreenChangedEvent :: "xsize \<Rightarrow> u16 \<Rightarrow> ('a x11server_scheme, unit) exc" where
  "xcbRandrScreenChangedEvent wsz sequence =
     eseq (emodify (\<lambda>s. s\<lparr>displayResizeProcessed := False\<rparr>))
     (ebind (egets (isClientSupportedEncoding ENCODING_EXT_DESKTOP_SIZE)) (\<lambda>ext.
      ebind (egets randrSequence) (\<lambda>randr.
      ewhen ext (x11_detach (JobResized (if randr = sequence then ClientSide else ServerRuntime) wsz)))))"

text \<open>The bodies of the detached threads. \<open>displayResizeEvent\<close> only tells the video encoder.\<close>

definition run_x11_job :: "'a x11server_scheme x11_class \<Rightarrow> x11_job \<Rightarrow> ('a x11server_scheme, unit) exc" where
  "run_x11_job x j = (let be = sv_be (x_base x) in case j of
       JobResized status wsz \<Rightarrow>
         if status = ServerRuntime then sendEncodingDesktopResize be status NoError wsz
         else ebind (egets displayResizeNegotiation) (\<lambda>negotiation.
           ewhen negotiation (eseq (sendEncodingDesktopResize be status NoError wsz)
             (emodify (\<lambda>s. s\<lparr>displayResizeNegotiation := False\<rparr>))))
     | JobFirstResize \<Rightarrow>
         ebind (egets (x_size x)) (\<lambda>sz. sendEncodingDesktopResize be ServerRuntime NoError sz)
     | JobSetScreen sz \<Rightarrow>
         eseq waitUpdateProcess
         (eseq (x11_call (SetScreenSize sz))
         (ebind (egets (x_setScreenSize x sz)) (\<lambda>accepted.
          case accepted of
            Some sequence \<Rightarrow> emodify (\<lambda>s. s\<lparr>randrSequence := sequence\<rparr>)
          | None \<Rightarrow>
              ebind (egets (x_size x)) (\<lambda>size.
              eseq (sendEncodingDesktopResize be ClientSide OutOfResources size)
              (emodify (\<lambda>s. s\<lparr>displayResizeNegotiation := False, displayResizeProcessed := False, randrSequence := 0\<rparr>)))))))"

section \<open>Updates\<close>

definition serverFrameBuffer ::
    "'a x11server_scheme x11_class \<Rightarrow> region \<Rightarrow> ('a x11server_scheme, framebuffer option) exc" where
  "serverFrameBuffer x reg s = (case x_image x reg s of
       ImageBusy \<Rightarrow> (Inr None, s)
     | ImageNone \<Rightarrow> (Inl RfbError, s)
     | ImageData buf bpp \<Rightarrow>
         if length buf \<noteq> unat (rg_width reg) * unat (rg_height reg) * bpp then (Inl RfbError, s)
         else (Inr (Some (frameBuffer_wrap buf reg (sv_format (x_base x)) 0)), s))"

definition x11_frames ::
    "'a x11server_scheme x11_class \<Rightarrow> 'a x11server_scheme frame_class \<Rightarrow> 'a x11server_scheme frame_class" where
  "x11_frames x fc = fc\<lparr>fc_frame := serverFrameBuffer x, fc_displaySize := x_size x,
     fc_request := serverScreenUpdateRequest\<rparr>"

definition sendUpdateRichCursor :: "'a x11server_scheme x11_class \<Rightarrow> ('a x11server_scheme, unit) exc" where
  "sendUpdateRichCursor x = ebind (egets (x_cursor x)) (\<lambda>cursor. case cursor of
       None \<Rightarrow> ereturn ()
     | Some (fb, xhot, yhot) \<Rightarrow> sendEncodingRichCursor (x11_server x) fb xhot yhot)"

text \<open>The region of the next update, and one iteration of the main loop after its wait for the frame.\<close>

definition update_region :: "'a x11server_scheme x11_class \<Rightarrow> 'a x11server_scheme \<Rightarrow> region" where
  "update_region x s =
     (let serverRegion = x11_region x s;
          damage = (if fullscreenUpdateReq s then serverRegion
                    else region_intersected serverRegion (region_align 4 (damageRegion s)))
      in if clientRegion s \<noteq> serverRegion then region_intersected (clientRegion s) damage else damage)"

definition main_update ::
    "'a x11server_scheme x11_class \<Rightarrow> 'a x11server_scheme frame_class \<Rightarrow> ('a x11server_scheme, unit) exc" where
  "main_update x fc s =
     (if fullscreenUpdateReq s \<or> \<not> region_isEmpty (damageRegion s) then
        if \<not> x_allow x s \<or> displayResizeProcessed s \<or> displayResizeNegotiation s \<or> region_isEmpty (clientRegion s)
        then (Inr (), s)
        else
          eseq (emodify (\<lambda>s. s\<lparr>damageRegion := update_region x s, fullscreenUpdateReq := False\<rparr>))
          (ebind (egets damageRegion) (\<lambda>reg.
           ebind (sendUpdateSafe (x11_frames x fc) (x11_server x) reg) (\<lambda>sent.
           if \<not> sent then rfbMessagesShutdown
           else
             ebind (egets clientUpdateCursor) (\<lambda>cursor.
             eseq (ewhen cursor (eseq (sendUpdateRichCursor x) (emodify (\<lambda>s. s\<lparr>clientUpdateCursor := False\<rparr>))))
             (emodify (\<lambda>s. s\<lparr>damageRegion := region_reset (damageRegion s)\<rparr>)))))) s
      else (Inr (), s))"

section \<open>The threads of the server\<close>

text \<open>
  The threads that handle the client's messages, the events of the display and the updates, and the
  detached ones, interleaved by whole handlers: they share the state under the locks of the class.
\<close>

inductive x11_step ::
    "'a x11server_scheme x11_class \<Rightarrow> 'a x11server_scheme frame_class \<Rightarrow>
     'a x11server_scheme \<Rightarrow> 'a x11server_scheme \<Rightarrow> bool"
  for x fc where
  step_message: "rfbMessages s \<Longrightarrow> x11_step x fc s (snd (messages_round (x11_server x) s))"
| step_update: "rfbMessages s \<Longrightarrow> x11_step x fc s (snd (main_update x fc s))"
| step_cursor: "x11_step x fc s (snd (xcbFixesCursorChangedEvent s))"
| step_damage: "x11_step x fc s (snd (xcbDamageNotifyEvent reg s))"
| step_set_size: "x11_step x fc s (snd (xcbRandrScreenSetSizeEvent s))"
| step_changed: "x11_step x fc s (snd (xcbRandrScreenChangedEvent wsz sequence s))"
| step_data: "x11_step x fc s (snd (selectionReceiveData x buf s))"
| step_targets: "x11_step x fc s (snd (selectionReceiveTargets x atoms s))"
| step_changed_selection: "x11_step x fc s (snd (selectionChangedEvent x s))"
| step_source: "x11_step x fc s (snd (selectionSourceReady x received atom s))"
| step_job: "j \<in> set (x11_jobs s) \<Longrightarrow>
    x11_step x fc s (snd (run_x11_job x j (s\<lparr>x11_jobs := remove1 j (x11_jobs s)\<rparr>)))"

inductive_cases x11_stepE: "x11_step x fc s t"

abbreviation x11_reaches ::
    "'a x11server_scheme x11_class \<Rightarrow> 'a x11server_scheme frame_class \<Rightarrow>
     'a x11server_scheme \<Rightarrow> 'a x11server_scheme \<Rightarrow> bool" where
  "x11_reaches x fc \<equiv> (x11_step x fc)\<^sup>*\<^sup>*"

end
