(* ===== verification/X11_Threads.thy ===== *)
theory X11_Threads
  imports Rfb_X11server
begin

text \<open>
  What every interleaving of the threads of \<open>RFB::X11Server\<close> keeps: the locale \<open>x11_frame\<close> extends
  \<open>server_frame\<close> by the members of the class, so that one proof serves the session, the format of
  the client, the requests of the clipboard and the pressed buttons.
\<close>

locale x11_frame = server_frame P for P :: "'a x11server_scheme \<Rightarrow> bool" +
  fixes x :: "'a x11server_scheme x11_class"
  assumes calls: "(\<And>n p b. k \<noteq> FakeButton n p b) \<Longrightarrow> keeps P (x11_call k)"
    and pointer: "num < 8 \<Longrightarrow> keeps P (pointer_button buttons pos num)"
    and base_keeps: "keeps P (sv_event (x_base x) e)"
    and jobs: "keeps P (x11_detach j)" "P s \<Longrightarrow> P (s\<lparr>x11_jobs := js\<rparr>)"
    and encoders: "keeps P (emodify (\<lambda>s. s\<lparr>sv_encoder := enc s\<rparr>))"
      "keeps P (emodify (\<lambda>s. s\<lparr>fbUpdateProcessing := b\<rparr>))"
    and requests: "keeps P (emodify (\<lambda>s. s\<lparr>localProvideTypes := localProvideTypes s OR (p AND ucast (types :: u16))\<rparr>))"
    and x_members: "keeps P (emodify (\<lambda>s. s\<lparr>clientClipboard := data s\<rparr>))"
      "keeps P (emodify (\<lambda>s. s\<lparr>clientRegion := reg s\<rparr>))" "keeps P (emodify (\<lambda>s. s\<lparr>damageRegion := reg s\<rparr>))"
      "keeps P (emodify (\<lambda>s. s\<lparr>damageRegion := reg s, fullscreenUpdateReq := b\<rparr>))"
      "keeps P (emodify (\<lambda>s. s\<lparr>randrSequence := sequence\<rparr>))"
      "keeps P (emodify (\<lambda>s. s\<lparr>displayResizeNegotiation := b\<rparr>))"
      "keeps P (emodify (\<lambda>s. s\<lparr>displayResizeProcessed := b\<rparr>))"
      "keeps P (emodify (\<lambda>s. s\<lparr>displayResizeNegotiation := b, displayResizeProcessed := d, randrSequence := sequence\<rparr>))"
      "keeps P (emodify (\<lambda>s. s\<lparr>clientUpdateCursor := cursor s\<rparr>))"
      "keeps P (emodify (\<lambda>s. s\<lparr>fullscreenUpdateReq := b\<rparr>))"
      "keeps P (emodify (\<lambda>s. s\<lparr>clipLocalTypes := local s\<rparr>))" "keeps P (emodify (\<lambda>s. s\<lparr>clipRemoteTypes := remote\<rparr>))"
begin

lemmas [frame_intros] = pointer base_keeps jobs(1) encoders x_members resize_keeps keeps_case_sum

lemma calls_keep [frame_intros]:
  "keeps P (x11_call (FakeKey code b))" "keeps P (x11_call (FakeMove pos))" "keeps P (x11_call SetSelectionOwner)"
  "keeps P (x11_call (ConvertSelection atom))" "keeps P (x11_call ConvertTargets)"
  "keeps P (x11_call (SetScreenSize sz))" "keeps P (x11_call (DamageSubtract r))"
  by (rule calls, simp)+

lemma keeps_option [frame_intros]:
  "keeps P m \<Longrightarrow> (\<And>a. keeps P (f a)) \<Longrightarrow> keeps P (case r of None \<Rightarrow> m | Some a \<Rightarrow> f a)"
  by (cases r) simp_all

lemma keeps_state: "(\<And>s. keeps P (f s)) \<Longrightarrow> keeps P (\<lambda>s. f s s)"
  by (simp add: keeps_def)

lemma key_keeps [frame_intros]: "keeps P (serverRecvKeyEvent x pressed keycode scancode)"
  by (rule keepsI) (auto simp: serverRecvKeyEvent_def Let_def intro: keeps_app calls_keep)

lemma pointer_event_keeps [frame_intros]: "keeps P (serverRecvPointerEvent x buttons posx posy)"
proof -
  have each: "keeps P (eeach (pointer_button buttons pos) ns)" if "set ns \<subseteq> {..<8}" for ns pos
    using that by (induction ns) (auto intro!: keeps_basic keeps_bind pointer)
  have "keeps P (eeach (pointer_button buttons pos) [0..<8])" for pos
    by (rule each) auto
  then show ?thesis
    by (intro keepsI) (auto simp: serverRecvPointerEvent_def simp del: upt_Suc intro: keeps_app calls_keep)
qed

lemma update_event_keeps [frame_intros]: "keeps P (serverRecvFBUpdateEvent x incremental r)"
proof (rule keepsI)
  fix s assume "P s"
  have full: "P t \<Longrightarrow> P (t\<lparr>fullscreenUpdateReq := True\<rparr>)" for t
    using keeps_app [OF x_members(10) [of True], of t] by simp
  have region: "P t \<Longrightarrow> P (t\<lparr>clientRegion := r\<rparr>)" for t r
    using keeps_app [OF x_members(2) [of "\<lambda>_. r"], of t] by simp
  have both: "P t \<Longrightarrow> P (t\<lparr>clientRegion := r, fullscreenUpdateReq := True\<rparr>)" for t r
    using full [OF region [of t r]] by simp
  from \<open>P s\<close> full region both show "P (snd (serverRecvFBUpdateEvent x incremental r s))"
    by (simp add: serverRecvFBUpdateEvent_def Let_def)
qed

lemma simple_events_keep [frame_intros]:
  "keeps P (serverRecvSetContinuousUpdatesEvent b r)" "keeps P (serverRecvCutTextEvent x buf)"
  "keeps P (serverSendFBUpdateEvent x r)"
  unfolding serverRecvSetContinuousUpdatesEvent_def serverRecvCutTextEvent_def serverSendFBUpdateEvent_def
  by (intro frame_intros)+

lemma desktop_event_keeps [frame_intros]: "keeps P (serverRecvDesktopSizeEvent x screens)"
proof -
  have "P s \<Longrightarrow> P (s\<lparr>displayResizeNegotiation := True\<rparr>)" for s
    using keeps_app [OF x_members(6) [of True], of s] by simp
  then show ?thesis
    by (intro keepsI) (auto simp: serverRecvDesktopSizeEvent_def Let_def intro: keeps_app resize_keeps jobs(1))
qed

lemma base_fire_keeps [frame_intros]: "keeps P (fire (x_base x) e)"
  unfolding fire_def by (intro frame_intros)

lemma select_keeps [frame_intros]: "keeps P (serverSelectEncodings (x_base x))"
proof -
  have "P s \<Longrightarrow> P (s\<lparr>sv_encoder := enc\<rparr>)" for s enc
    using keeps_app [OF encoders(1) [of "\<lambda>_. enc"], of s] by simp
  then have "keeps P (serverSelectClientEncoding (x_base x))"
    by (intro keepsI) (simp add: serverSelectClientEncoding_def Let_def keeps_app [OF base_fire_keeps] split: option.split)
  then show ?thesis unfolding serverSelectEncodings_def by (intro frame_intros)
qed

lemma encodings_event_keeps [frame_intros]: "keeps P (serverRecvSetEncodingsEvent x)"
  unfolding serverRecvSetEncodingsEvent_def by (intro frame_intros)

lemma event_keeps: "keeps P (x11_event x e)"
  unfolding x11_event_def by (cases e; simp; intro frame_intros)

lemma wait_keeps [frame_intros]: "keeps P (wait_selection x atoms)"
proof (induction atoms)
  case (Cons atom atoms)
  show ?case unfolding wait_selection.simps by (intro frame_intros Cons.IH)
qed (simp add: keeps_basic)

lemma send_cut_keeps [frame_intros]: "keeps P (x11_send_cut x buf ext)"
  unfolding x11_send_cut_def by (rule sends_keep)

lemma clip_keeps: "clip_keeps (x11_clip x) P"
proof
  show "keeps P (extClipboardLocalData (x11_clip x) t)" "keeps P (extClipboardRemoteTypesEvent (x11_clip x) t)"
    "keeps P (extClipboardRemoteDataEvent (x11_clip x) t bs)" "keeps P (extClipboardSendEvent (x11_clip x) bs)" for t bs
    unfolding x11_clip_def clip_virtuals.simps x11_localData_def x11_remoteTypes_def x11_remoteData_def
    by (intro frame_intros)+
qed

end

sublocale x11_frame \<subseteq> handlers: server_events P "x11_server x"
  by (intro server_events.intro server_events_axioms.intro server_frame_axioms)
    (simp_all add: x11_server_def event_keeps clip_keeps)

context x11_frame begin

lemma display_events_keep:
  "keeps P (xcbFixesCursorChangedEvent :: ('a x11server_scheme, unit) exc)" "keeps P (xcbDamageNotifyEvent r)"
  "keeps P (xcbRandrScreenSetSizeEvent :: ('a x11server_scheme, unit) exc)"
  "keeps P (xcbRandrScreenChangedEvent wsz sq)"
  unfolding xcbFixesCursorChangedEvent_def xcbDamageNotifyEvent_def xcbRandrScreenSetSizeEvent_def
    xcbRandrScreenChangedEvent_def
  by (intro frame_intros)+

lemma job_keeps: "keeps P (run_x11_job x j)"
  unfolding run_x11_job_def Let_def by (cases j; simp; intro frame_intros impI conjI)

lemma selection_keeps:
  "keeps P (selectionReceiveData x buf)" "keeps P (selectionReceiveTargets x atoms)" "keeps P (selectionChangedEvent x)"
proof -
  have "keeps P (sendExtClipboardNotify (x11_clip x) be types)" for be types
    by (rule clip_keeps.sends_keep [OF clip_keeps])
  then show "keeps P (selectionReceiveTargets x atoms)"
    unfolding selectionReceiveTargets_def by (intro frame_intros)
qed (unfold selectionReceiveData_def selectionChangedEvent_def, (intro frame_intros)+)

lemma source_keeps: "keeps P (selectionSourceReady x received atom)"
proof (rule keepsI)
  fix s assume "P s"
  have "keeps P (sendExtClipboardRequest (x11_clip x) be t)" for be t
    by (rule clip_keeps.request_keep [OF clip_keeps requests])
  then have "keeps P (eseq (emodify (\<lambda>s. s\<lparr>clientClipboard := []\<rparr>))
        (eseq (sendExtClipboardRequest (x11_clip x) be t)
        (eseq (emodify (\<lambda>s. s\<lparr>clientClipboard := received s\<rparr>))
        (egets (\<lambda>s. clientClipboard s \<noteq> [])))))" for be t
    by (intro frame_intros)
  from keeps_app [OF this \<open>P s\<close>] \<open>P s\<close> show "P (snd (selectionSourceReady x received atom s))"
    by (simp add: selectionSourceReady_def)
qed

lemma frame_keeps [frame_intros]: "keeps P (serverFrameBuffer x r)"
  by (rule keepsI) (simp add: serverFrameBuffer_def split: x11_image.split)

lemma cursor_rows_keep [frame_intros]: "keeps P (cursor_rows c pfa fb ys bm)"
proof -
  have px: "keeps P (cursor_pixel c pfa fb pos b)" for pos b
    unfolding cursor_pixel_def by (intro frame_intros)
  have row: "keeps P (cursor_row c pfa fb oy xs b)" for oy xs b
    by (induction xs arbitrary: b) (auto intro!: frame_intros px)
  show ?thesis by (induction ys arbitrary: bm) (auto intro!: frame_intros row)
qed

lemma rich_cursor_keeps [frame_intros]: "keeps P (sendEncodingRichCursor c fb xhot yhot)"
proof (rule keepsI)
  fix s assume "P s"
  have "keeps P (eseq (send_rect_head be xh yh w h t)
           (ebind (cursor_rows c pfa fb ys b) (\<lambda>bitmask.
            if n \<noteq> length (vecbuf bitmask) then ethrow RfbError else wrData (vecbuf bitmask))))"
    for be xh yh w h t pfa ys b n
    by (intro frame_intros)
  from keeps_app [OF this \<open>P s\<close>] \<open>P s\<close> show "P (snd (sendEncodingRichCursor c fb xhot yhot s))"
    by (simp add: sendEncodingRichCursor_def Let_def keeps_app [OF cursor_keeps])
qed

lemma send_update_keeps [frame_intros]: "keeps P (sendFrameBufferUpdate fc (x11_server x) fb)"
proof (rule keepsI)
  fix s assume "P s"
  have "keeps P (eseq (wr8 a) (eseq (wr8 b) (case r of
        Inl err \<Rightarrow> eseq (wrData bs) (ethrow err)
      | Inr (out, k) \<Rightarrow> eseq (wrData out) (eseq (emodify (\<lambda>s. s\<lparr>sv_encoder := Some (e\<lparr>enc_kind := k\<rparr>)\<rparr>)) (ereturn True)))))"
    for a b r bs e
    by (cases r) (auto split: prod.split intro!: frame_intros)
  from keeps_app [OF this \<open>P s\<close>] \<open>P s\<close> show "P (snd (sendFrameBufferUpdate fc (x11_server x) fb s))"
    by (simp add: sendFrameBufferUpdate_def split: option.split)
qed

lemma update_safe_keeps [frame_intros]: "keeps P (sendUpdateSafe (x11_frames x fc) (x11_server x) r)"
  unfolding sendUpdateSafe_def x11_frames_def by (simp, intro frame_intros handlers.fire_keeps)

lemma main_keeps: "keeps P (main_update x fc)"
proof (rule keepsI)
  fix s assume "P s"
  have "keeps P (eseq (emodify (\<lambda>s. s\<lparr>damageRegion := reg s, fullscreenUpdateReq := False\<rparr>))
          (ebind (egets damageRegion) (\<lambda>reg.
           ebind (sendUpdateSafe (x11_frames x fc) (x11_server x) reg) (\<lambda>sent.
           if \<not> sent then rfbMessagesShutdown
           else
             ebind (egets clientUpdateCursor) (\<lambda>cursor.
             eseq (ewhen cursor (eseq (sendUpdateRichCursor x) (emodify (\<lambda>s. s\<lparr>clientUpdateCursor := False\<rparr>))))
             (emodify (\<lambda>s. s\<lparr>damageRegion := region_reset (damageRegion s)\<rparr>)))))))" for reg
    unfolding sendUpdateRichCursor_def split_beta by (intro frame_intros)
  from keeps_app [OF this \<open>P s\<close>] \<open>P s\<close> show "P (snd (main_update x fc s))"
    by (simp add: main_update_def)
qed

lemma step_keeps: "x11_step x fc s t \<Longrightarrow> P s \<Longrightarrow> P t"
  by (induction rule: x11_step.induct)
    (blast intro: keeps_app handlers.round_keeps main_keeps display_events_keep selection_keeps source_keeps
      job_keeps jobs(2))+

lemma reaches_keeps: "x11_reaches x fc s t \<Longrightarrow> P s \<Longrightarrow> P t"
  by (induction rule: rtranclp_induct) (auto intro: step_keeps)

end

end
