(* ===== verification/X11_Ends.thy ===== *)
theory X11_Ends
  imports X11_Threads
begin

text \<open>
  The message loop of the server ends: none of its handlers waits for ever as long as no update is under way, each round takes
  a byte or shuts the session down, and the rounds that the input allows are enough.
\<close>

section \<open>Methods that settle\<close>

text \<open>While no update is sent, the method returns or throws, and it starts no update.\<close>

definition settles :: "('a server_scheme, 'b) exc \<Rightarrow> bool" where
  "settles m \<longleftrightarrow>
     (\<forall>s. \<not> fbUpdateProcessing s \<longrightarrow> fst (m s) \<noteq> Inl Diverges \<and> \<not> fbUpdateProcessing (snd (m s)))"

named_theorems settle_intros "methods that settle"

lemma settlesI:
  "(\<And>s. \<not> fbUpdateProcessing s \<Longrightarrow> fst (m s) \<noteq> Inl Diverges \<and> \<not> fbUpdateProcessing (snd (m s))) \<Longrightarrow> settles m"
  by (simp add: settles_def)

lemma settles_app:
  "settles m \<Longrightarrow> \<not> fbUpdateProcessing s \<Longrightarrow> fst (m s) \<noteq> Inl Diverges \<and> \<not> fbUpdateProcessing (snd (m s))"
  by (simp add: settles_def)

lemma settlesD: "settles m \<Longrightarrow> \<not> fbUpdateProcessing s \<Longrightarrow> m s = (r, t) \<Longrightarrow> r \<noteq> Inl Diverges \<and> \<not> fbUpdateProcessing t"
  using settles_app [of m s] by simp

lemma settles_basic [settle_intros]:
  "settles (ereturn a)" "e \<noteq> Diverges \<Longrightarrow> settles (ethrow e)" "settles (egets f)" "r \<noteq> Inl Diverges \<Longrightarrow> settles (elift r)"
  by (simp_all add: settles_def elift_def)

lemma settles_bind [settle_intros]:
  assumes "settles m" "\<And>a. settles (f a)"
  shows "settles (ebind m f)"
proof (rule settlesI)
  fix s :: "'a server_scheme" assume s: "\<not> fbUpdateProcessing s"
  obtain r t where m: "m s = (r, t)" by (cases "m s")
  from settlesD [OF assms(1) s m] settles_app [OF assms(2), of t] m
  show "fst (ebind m f s) \<noteq> Inl Diverges \<and> \<not> fbUpdateProcessing (snd (ebind m f s))"
    by (cases r) (auto simp: ebind_def)
qed

lemma settles_if [settle_intros]: "settles m \<Longrightarrow> settles n \<Longrightarrow> settles (if b then m else n)"
  by simp

lemma settles_when [settle_intros]: "settles m \<Longrightarrow> settles (ewhen b m)"
  by (simp add: ewhen_def settles_basic)

lemma settles_catch:
  assumes "settles m" "\<And>e. e \<noteq> Diverges \<Longrightarrow> settles (h e)"
  shows "settles (ecatch m h)"
proof (rule settlesI)
  fix s :: "'a server_scheme" assume s: "\<not> fbUpdateProcessing s"
  obtain r t where m: "m s = (r, t)" by (cases "m s")
  note t = settlesD [OF assms(1) s m]
  show "fst (ecatch m h s) \<noteq> Inl Diverges \<and> \<not> fbUpdateProcessing (snd (ecatch m h s))"
  proof (cases r)
    case (Inl e)
    with t have "settles (h e)" by (intro assms(2)) simp
    with settles_app [of "h e" t] t m Inl show ?thesis by (simp add: ecatch_def)
  qed (use t m in \<open>simp add: ecatch_def\<close>)
qed

lemma settles_each [settle_intros]: "(\<And>x. settles (f x)) \<Longrightarrow> settles (eeach f xs)"
  by (induction xs) (simp_all add: settles_basic settles_bind)

lemma settles_times [settle_intros]: "settles m \<Longrightarrow> settles (etimes n m)"
  by (induction n) (simp_all add: settles_basic settles_bind)

lemma settles_option [settle_intros]:
  "settles m \<Longrightarrow> (\<And>a. settles (f a)) \<Longrightarrow> settles (case r of None \<Rightarrow> m | Some a \<Rightarrow> f a)"
  by (cases r) simp_all

lemma settles_pair: "(\<And>a b. settles (f a b)) \<Longrightarrow> settles (case p of (a, b) \<Rightarrow> f a b)"
  by (cases p) simp

lemma settles_modify: "(\<And>s. fbUpdateProcessing (f s) = fbUpdateProcessing s) \<Longrightarrow> settles (emodify f)"
  by (simp add: settles_def)

lemma same_members_update: "same_members s t \<Longrightarrow> fbUpdateProcessing t = fbUpdateProcessing s"
  unfolding same_members_def by (erule ssubst, simp)

text \<open>A method that returns, and changes no more than the members of the stream.\<close>

lemma settles_stream:
  assumes "steps same_members m" "\<And>s. \<exists>a. fst (m s) = Inr a"
  shows "settles m"
proof (rule settlesI)
  fix s :: "'a server_scheme" assume "\<not> fbUpdateProcessing s"
  moreover have "same_members s (snd (m s))" using assms(1) by (simp add: steps_def)
  then have "fbUpdateProcessing (snd (m s)) = fbUpdateProcessing s"
    by (rule same_members_update)
  ultimately show "fst (m s) \<noteq> Inl Diverges \<and> \<not> fbUpdateProcessing (snd (m s))"
    using assms(2) [of s] by auto
qed

section \<open>The stream\<close>

lemma recvRaw_Inr: "\<exists>bs t. server_recvRaw buffer s n = Inr (bs, t)"
  by (simp add: server_recvRaw_def split_beta Let_def)

lemma sendRaw_Inr: "\<exists>t. server_sendRaw s bs = Inr t"
  by (simp add: server_sendRaw_def split: option.split)

lemma recvRaw_map: "\<exists>x. rbind (server_recvRaw buffer s n) (\<lambda>(bs, t). Inr (f bs, t)) = Inr x"
  using recvRaw_Inr [of buffer s n] by auto

lemma reader_Inr: "\<exists>x. g s = Inr x \<Longrightarrow> \<exists>a. fst (ereader g s) = Inr a"
  by (auto simp: ereader_def)

lemma reads_settle [settle_intros]: "settles rd8" "settles (rd16 be)" "settles (rd32 be)" "settles (rdData n)"
     apply (rule settles_stream [OF same_members_stream(1)], unfold rd8_def getInt8_def, rule reader_Inr, rule recvRaw_map)
    apply (rule settles_stream [OF same_members_stream(2)], unfold rd16_def getIntBE16_def Let_def, rule reader_Inr, rule recvRaw_map)
   apply (rule settles_stream [OF same_members_stream(3)], unfold rd32_def getIntBE32_def Let_def, rule reader_Inr, rule recvRaw_map)
  apply (rule settles_stream [OF same_members_stream(4)], unfold rdData_def recvData_def, rule reader_Inr)
  apply (simp add: recvRaw_Inr)
  done

lemma write_settles [settle_intros]: "settles (wrData bs)"
proof (rule settles_stream [OF same_members_stream(5)])
  show "\<exists>a. fst (wrData bs s) = Inr a" for s :: "'a server_scheme"
    using sendRaw_Inr [of s bs] by (auto simp: wrData_def ewriter_def)
qed

lemma notes_settle [settle_intros]: "settles (note_event e)" "settles rfbMessagesShutdown"
  by (simp_all add: settles_def note_event_def rfbMessagesShutdown_def)

lemma ints_settle [settle_intros]: "settles (wr8 a)" "settles (wr16 be x)" "settles (wr32 be y)"
  by (simp_all add: wr_bytes write_settles)

lemma loops_settle [settle_intros]: "settles (rdSkip n)" "settles (wrZero n)"
  by (induction n) (auto intro!: settle_intros)

lemma waiting_settles [settle_intros]: "settles waitUpdateProcess"
  by (simp add: settles_def waitUpdateProcess_def)

lemma rects_settle [settle_intros]:
  "settles (rdRegion be)" "settles (rdScreen be)" "settles (send_rect_head be x y w h type)"
  unfolding rdRegion_def rdScreen_def send_rect_head_def by (intro settle_intros)+

lemma members_settle [settle_intros]:
  "settles (emodify (\<lambda>s. s\<lparr>continueUpdatesProcessed := b\<rparr>))" "settles (emodify (\<lambda>s. s\<lparr>clientLtsmSupported := b\<rparr>))"
  "settles (emodify (\<lambda>s. s\<lparr>clientLtsmSupported := b, clientLtsmKeyboard := k\<rparr>))"
  "settles (emodify (\<lambda>s. s\<lparr>clientEncodings := encs s\<rparr>))" "settles (emodify (\<lambda>s. s\<lparr>remoteExtClipTypeTextSz := z\<rparr>))"
  "settles (emodify (\<lambda>s. s\<lparr>clientTrueColor := b, clientBigEndian := d, clientPf := pf, colourMap := cm\<rparr>))"
  "settles (emodify (\<lambda>s. s\<lparr>localProvideTypes := types s\<rparr>))"
  "settles (setExtClipboardRemoteCaps y)" "settles (setExtClipboardLocalCaps y)"
  by (simp_all add: settles_def setExtClipboardRemoteCaps_def setExtClipboardLocalCaps_def)

lemma sends_settle [settle_intros]:
  "settles (sendContinuousUpdates b)" "settles (sendCutTextEvent be buf ext)" "settles (note_encoding enc)"
  unfolding sendContinuousUpdates_def sendCutTextEvent_def note_encoding_def
  by (intro settle_intros; simp)+

lemma recv_encodings_settle [settle_intros]: "settles (recv_encodings c disabled n encs cu ec)"
  by (induction n arbitrary: encs cu ec) (auto intro!: settle_intros simp: Let_def)

lemma resize_settles: "settles (sendEncodingDesktopResize be status err sz)"
proof (rule settlesI)
  fix s :: "'a server_scheme" assume "\<not> fbUpdateProcessing s"
  moreover have "settles (eseq (send_rect_head be x y w h t) (eseq (wr8 1) (eseq (wrZero 3) (eseq (wr32 be 0)
     (eseq (wr16 be 0) (eseq (wr16 be 0) (eseq (wr16 be w) (eseq (wr16 be h) (wr32 be 0)))))))) :: ('a server_scheme, unit) exc)" for x y w h t
    by (intro settle_intros)
  ultimately show "fst (sendEncodingDesktopResize be status err sz s) \<noteq> Inl Diverges \<and>
      \<not> fbUpdateProcessing (snd (sendEncodingDesktopResize be status err sz s))"
    by (simp add: sendEncodingDesktopResize_def settles_app)
qed

section \<open>The handlers\<close>

lemma buffers_end:
  "getIntBE32 be buf_getRaw sb \<noteq> Inl Diverges" "getIntBE32 be ref_getRaw sbr \<noteq> Inl Diverges"
  "buf_read n sb \<noteq> Inl Diverges" "ref_read n sbr \<noteq> Inl Diverges"
  by (auto simp: getIntBE32_def buf_getRaw_def ref_getRaw_def buf_read_def ref_read_def read_mem_def Let_def rbind_def
      split: sum.splits if_splits)

lemma read_buffer_settles [settle_intros]:
  "settles (readIntBE32 be sb)" "settles (elift (getIntBE32 be ref_getRaw sbr))" "settles (elift (buf_read n sb))"
  "settles (elift (ref_read n sbr))" "settles (elift (writeIntBE32 be v sb))" "settles (elift (write_block be bs sb))"
  unfolding readIntBE32_def
  by (intro settles_basic(4) buffers_end; simp add: write_simps write_block_simps)+

text \<open>The methods of the derived class and of zlib settle.\<close>

locale settling_class =
  fixes c :: "'a server_scheme server_class"
  assumes events: "settles (sv_event c e)"
    and clip: "settles (extClipboardLocalData (sv_clip c) t)" "settles (extClipboardRemoteTypesEvent (sv_clip c) t)"
      "settles (extClipboardRemoteDataEvent (sv_clip c) t bs)" "settles (extClipboardSendEvent (sv_clip c) bs)"
    and zlib: "zlib_compress (sv_zlib c) bs \<noteq> Inl Diverges" "zlib_uncompress (sv_zlib c) bs \<noteq> Inl Diverges"
begin

lemmas [settle_intros] = clip

lemma fire_settles [settle_intros]: "settles (fire c e)"
  unfolding fire_def by (intro settle_intros events)

lemma zl_settles [settle_intros]: "settles (elift (zl_deflate (sv_zlib c) bs))" "settles (elift (zl_inflate (sv_zlib c) bs))"
  using zlib by (simp_all add: settles_def elift_def zl_deflate_def zl_inflate_def)

lemma clip_sends_settle [settle_intros]:
  "settles (send_flags (sv_clip c) be flags)" "settles (sendExtClipboardCapsEvent (sv_clip c) be)"
  "settles (sendExtClipboardNotify (sv_clip c) be types)"
proof -
  show flags: "settles (send_flags (sv_clip c) be flags)" for flags
    unfolding send_flags_def by (intro settle_intros)
  show "settles (sendExtClipboardCapsEvent (sv_clip c) be)"
    by (rule settlesI) (simp add: sendCaps_message settles_app clip)
  show "settles (sendExtClipboardNotify (sv_clip c) be types)"
    by (rule settlesI) (simp add: sendExtClipboardNotify_def Let_def settles_app flags)
qed

lemma blocks_settle [settle_intros]: "settles (provide_blocks (sv_clip c) be types ts sb)"
  by (induction ts arbitrary: sb) (auto intro!: settle_intros)

lemma provide_settles [settle_intros]: "settles (sendExtClipboardProvide (sv_clip c) (sv_zlib c) be types)"
  unfolding sendExtClipboardProvide_def by (intro settle_intros)

lemma provided_settles [settle_intros]: "settles (provided_types (sv_clip c) be ts sbr)"
  by (induction ts arbitrary: sbr) (auto intro!: settle_intros settles_pair)

lemma caps_continue_settles [settle_intros]: "settles (recvExtClipboardCapsContinue be flags sb)"
proof -
  have read: "settles (read_size be b upd sb)"
    if "\<And>f s. fbUpdateProcessing (upd f s) = fbUpdateProcessing s" for b upd and sb :: streambuf
    unfolding read_size_def using that by (intro settle_intros settles_pair settles_modify)
  show ?thesis
    unfolding recvExtClipboardCapsContinue_def by (intro settle_intros read settles_modify) simp_all
qed

lemma clip_ops_settle [settle_intros]:
  "settles (recvExtClipboardRequest (sv_clip c) (sv_zlib c) be flags)" "settles (recvExtClipboardPeek (sv_clip c) be)"
  "settles (recvExtClipboardNotify (sv_clip c) flags)" "settles (recvExtClipboardProvide (sv_clip c) (sv_zlib c) be sb)"
proof -
  have "settles (ebind (readIntBE32 be sb) (\<lambda>(len, sb).
        if len \<noteq> 0 then
          ebind (elift (buf_read (unat len) sb)) (\<lambda>(raw, sb).
          ebind (elift (zl_inflate (sv_zlib c) raw)) (\<lambda>buf.
          provided_types (sv_clip c) be (map (\<lambda>i. push_bit i 1) [0..<32]) (streamBufRef (Some buf) (length buf))))
        else ereturn ()))"
    by (intro settle_intros settles_pair)
  then show "settles (recvExtClipboardProvide (sv_clip c) (sv_zlib c) be sb)"
    by (intro settlesI) (simp add: recvExtClipboardProvide_def settles_app)
qed (rule settlesI, simp add: recvExtClipboardRequest_def recvExtClipboardPeek_def recvExtClipboardNotify_def
  settles_app [OF provide_settles] settles_app [OF clip_sends_settle(3)] settles_app [OF clip(2)])+

lemma clip_recv_settles [settle_intros]: "settles (recvExtClipboardCapsEvent (sv_clip c) (sv_zlib c) be buf)"
  unfolding recvExtClipboardCapsEvent_def Let_def
  by (intro settle_intros settles_pair; simp)

lemma handlers_settle [settle_intros]:
  "settles (recvPixelFormat c)" "settles (recvSetEncodings c)" "settles (recvFramebufferUpdate c)" "settles (recvKeyCode c)"
  "settles (recvPointer c)" "settles (recvCutText c)" "settles (recvSetContinuousUpdates c)" "settles (recvSetDesktopSize c)"
  "settles (recvLtsmProto c)"
  unfolding recvPixelFormat_def recvSetEncodings_def recvFramebufferUpdate_def recvKeyCode_def recvPointer_def recvCutText_def
    recvSetContinuousUpdates_def recvSetDesktopSize_def recvLtsmProto_def Let_def
  by (intro settle_intros settles_pair; simp)+

lemma dispatch_settles: "settles (dispatch c m)"
  unfolding dispatch_def
  by (intro settle_intros settles_catch) simp

end

section \<open>The server of a display\<close>

lemma resize_settle [settle_intros]: "settles (sendEncodingDesktopResize be status err sz)"
  by (rule resize_settles)

lemma x11_members_settle [settle_intros]:
  "settles (x11_call k)" "settles (x11_detach j)" "settles (pointer_button buttons pos num)"
  "settles (emodify (\<lambda>s. s\<lparr>clientClipboard := data s\<rparr>))" "settles (emodify (\<lambda>s. s\<lparr>clientRegion := reg s\<rparr>))"
  "settles (emodify (\<lambda>s. s\<lparr>damageRegion := reg s\<rparr>))" "settles (emodify (\<lambda>s. s\<lparr>displayResizeNegotiation := b\<rparr>))"
  "settles (emodify (\<lambda>s. s\<lparr>clipRemoteTypes := types\<rparr>))" "settles (x11_send_cut x buf ext)"
  using sends_settle(2) [of "sv_be (x_base x)" buf ext]
  by (simp_all add: settles_def x11_call_def x11_detach_def pointer_button_def x11_send_cut_def Let_def)

text \<open>The events of the connector and of zlib settle; then so do the events of the class.\<close>

locale settling_x11 =
  fixes x :: "'a x11server_scheme x11_class"
  assumes base: "settles (sv_event (x_base x) e)"
    and library: "zlib_compress (sv_zlib (x_base x)) bs \<noteq> Inl Diverges" "zlib_uncompress (sv_zlib (x_base x)) bs \<noteq> Inl Diverges"
begin

lemma base_settles [settle_intros]: "settles (fire (x_base x) e)"
  unfolding fire_def by (intro settle_intros base)

lemma key_settles [settle_intros]: "settles (serverRecvKeyEvent x pressed keycode scancode)"
  by (rule settlesI) (simp add: serverRecvKeyEvent_def Let_def settles_app [OF x11_members_settle(1)])

lemma pointer_settles [settle_intros]: "settles (serverRecvPointerEvent x buttons posx posy)"
proof (rule settlesI)
  fix s :: "'a x11server_scheme" assume "\<not> fbUpdateProcessing s"
  moreover have "settles (eeach (pointer_button buttons pos) [0..<8] :: ('a x11server_scheme, unit) exc)" for pos
    by (intro settle_intros)
  ultimately show "fst (serverRecvPointerEvent x buttons posx posy s) \<noteq> Inl Diverges \<and>
      \<not> fbUpdateProcessing (snd (serverRecvPointerEvent x buttons posx posy s))"
    by (simp add: serverRecvPointerEvent_def settles_app [OF x11_members_settle(1)] settles_app del: upt_Suc)
qed

lemma requests_settle [settle_intros]:
  "settles (serverRecvFBUpdateEvent x incremental reg)" "settles (serverRecvSetContinuousUpdatesEvent b reg)"
  "settles (serverSendFBUpdateEvent x reg)" "settles (serverRecvCutTextEvent x buf)"
proof -
  show "settles (serverRecvFBUpdateEvent x incremental reg)"
    by (rule settlesI) (simp add: serverRecvFBUpdateEvent_def Let_def)
qed (unfold serverRecvSetContinuousUpdatesEvent_def serverSendFBUpdateEvent_def serverRecvCutTextEvent_def, (intro settle_intros)+)

lemma desktop_settles [settle_intros]: "settles (serverRecvDesktopSizeEvent x screens)"
  by (rule settlesI)
    (simp add: serverRecvDesktopSizeEvent_def Let_def settles_app [OF resize_settles] settles_app [OF x11_members_settle(2)])

lemma select_settles [settle_intros]: "settles (serverSelectEncodings (x_base x))"
proof -
  have "settles (serverSelectClientEncoding (x_base x))"
    by (rule settlesI) (simp add: serverSelectClientEncoding_def Let_def settles_app [OF base_settles] split: option.split)
  then show ?thesis unfolding serverSelectEncodings_def by (intro settle_intros)
qed

lemma event_settles: "settles (x11_event x e)"
proof -
  have "settles (serverRecvSetEncodingsEvent x)"
    unfolding serverRecvSetEncodingsEvent_def by (intro settle_intros)
  then show ?thesis unfolding x11_event_def by (cases e; simp; intro settle_intros base)
qed

lemma selection_settles [settle_intros]: "settles (wait_selection x atoms)"
proof (induction atoms)
  case (Cons atom atoms)
  show ?case unfolding wait_selection.simps by (intro settle_intros Cons.IH)
qed (simp add: settles_def)

lemma clip_settles:
  "settles (extClipboardLocalData (x11_clip x) t)" "settles (extClipboardRemoteTypesEvent (x11_clip x) t)"
  "settles (extClipboardRemoteDataEvent (x11_clip x) t bs)" "settles (extClipboardSendEvent (x11_clip x) bs)"
  unfolding x11_clip_def clip_virtuals.simps x11_localData_def x11_remoteTypes_def x11_remoteData_def
  by (intro settle_intros; simp)+

end

sublocale settling_x11 \<subseteq> settling_class "x11_server x"
  by unfold_locales (simp_all add: x11_server_def event_settles clip_settles library)

context settling_x11 begin

lemmas server_settles = settling_class_axioms

end

section \<open>The loop\<close>

text \<open>With as many rounds as the input allows, the loop does not run out of them.\<close>

context session_class begin

lemma rounds_settle:
  assumes "\<And>m. settles (dispatch c m)"
  shows "\<not> fbUpdateProcessing s \<Longrightarrow> fuel s \<le> n \<Longrightarrow> fst (messages_rounds n c s) \<noteq> Inl Diverges"
proof (induction n arbitrary: s)
  case 0
  then show ?case by (simp add: fuel_def split: if_splits)
next
  case (Suc n)
  show ?case
  proof (cases "rfbMessages s")
    case True
    have "settles (messages_round c)" unfolding messages_round_def by (intro settle_intros assms)
    moreover obtain r t where r: "messages_round c s = (r, t)" by (cases "messages_round c s")
    ultimately have t: "r \<noteq> Inl Diverges" "\<not> fbUpdateProcessing t" using settlesD [OF _ Suc.prems(1)] by blast+
    have "fuel t \<le> n" using round_progress [OF True r] Suc.prems(2) True by (auto simp: fuel_def)
    then have "fst (messages_rounds n c t) \<noteq> Inl Diverges" by (rule Suc.IH [OF t(2)])
    with True r t(1) show ?thesis by (cases r) (simp_all add: ebind_Inr ebind_Inl)
  qed simp
qed

lemma loop_settles:
  assumes "\<And>m. settles (dispatch c m)" "\<not> fbUpdateProcessing s"
  shows "fst (rfbMessagesLoop c s) \<noteq> Inl Diverges"
  unfolding rfbMessagesLoop_def by (rule rounds_settle [OF assms]) (simp add: fuel_def)

end

end
