(* ===== verification/Region_Align.thy ===== *)
theory Region_Align
  imports Xcb_Types
begin

unbundle bit_operations_syntax

text \<open>
  \<open>Region::intersected\<close> as an operation on sets of pixels, and the alignment of a region to blocks of
  four pixels (\<open>Region::align\<close> with \<open>alignUp\<close> and \<open>alignDown\<close> of \<^verbatim>\<open>ltsm_tools.h\<close>).
\<close>

lemma intersected_pixels: "pixels (region_intersected r1 r2) = pixels r1 \<inter> pixels r2"
proof -
  obtain r' where r: "region_intersection r1 r2 (Some region_default) = (pixels r1 \<inter> pixels r2 \<noteq> {}, Some r')"
    and p: "if pixels r1 \<inter> pixels r2 \<noteq> {} then pixels r' = pixels r1 \<inter> pixels r2 else r' = region_default"
    using intersection_correct [of r1 r2 region_default] by blast
  have "region_isEmpty region_default" by (simp add: isEmpty_iff region_default_def)
  then have "pixels region_default = {}" by (simp only: isEmpty_pixels)
  with r p show ?thesis by (simp add: region_intersected_def split: if_splits)
qed

lemma and_not3: "(w :: 'a::len word) AND - 4 = push_bit 2 (drop_bit 2 w)"
proof -
  have "(3 :: 'a word) = mask 2" by (simp add: mask_eq_exp_minus_1)
  moreover have "w AND NOT (mask 2) = push_bit 2 (drop_bit 2 w)"
  proof (rule bit_word_eqI)
    fix n
    show "bit (w AND NOT (mask 2)) n = bit (push_bit 2 (drop_bit 2 w)) n" if "n < LENGTH('a)"
      using that le_add_diff_inverse [of 2 n] by (cases "2 \<le> n") (simp_all add: bit_simps)
  qed
  ultimately show ?thesis by simp
qed

lemma uint_and_not3: "uint ((w :: 'a::len word) AND - 4) = 4 * (uint w div 4)"
proof -
  have "uint (push_bit 2 (drop_bit 2 w)) = take_bit LENGTH('a) (4 * (uint w div 4))"
    by (simp only: unsigned_push_bit_eq unsigned_drop_bit_eq) (simp add: push_bit_eq_mult drop_bit_eq_div ac_simps take_bit_int_eq_self)
  moreover have "4 * (uint w div 4) \<le> uint w" by simp
  then have "4 * (uint w div 4) < 2 ^ LENGTH('a)" using uint_lt2p [of w] by linarith
  ultimately show ?thesis by (simp add: and_not3 take_bit_int_eq_self pos_imp_zdiv_nonneg_iff)
qed

lemma align_down4: "alignDown (x :: u16) 4 = x AND - 4"
proof -
  have "has_single_bit 4" by code_simp
  then show ?thesis
    by (simp add: alignDown_def) (auto intro!: bit_word_eqI simp: bit_simps)
qed

lemma uint_align_up4:
  assumes "uint (w :: u32) < 2 ^ 31 - 4"
  shows "uint (alignUp w 4) = 4 * ((uint w + 3) div 4)"
proof -
  have one: "has_single_bit 4" by code_simp
  have "sint w = uint w"
    using assms by (simp add: sint_uint) (rule signed_take_bit_int_eq_self; simp add: order_trans [OF _ uint_ge_0])
  then have s: "uint (scast w :: u64) = uint w"
    using assms by (simp add: scast_eq unsigned_ucast_eq take_bit_int_eq_self)
  have "uint (3 + scast w :: u64) = uint w + 3"
    using assms by (simp add: uint_word_arith_bintrs s take_bit_int_eq_self)
  then have "uint ((3 + scast w :: u64) AND - 4) = 4 * ((uint w + 3) div 4)"
    by (simp add: uint_and_not3)
  moreover have "4 * ((uint w + 3) div 4) < 2 ^ 32" using assms by simp
  moreover have "0 \<le> 4 * ((uint w + 3) div 4)" by (simp add: pos_imp_zdiv_nonneg_iff)
  ultimately show ?thesis
    by (simp add: alignUp_def one unsigned_ucast_eq take_bit_int_eq_self)
qed

lemma sint_uint_nonneg: "0 \<le> sint (x :: u16) \<Longrightarrow> sint x = uint x"
  using u16_bounds(2) [of x] by (simp add: uint_sint take_bit_int_eq_self)

text \<open>Alignment to four pixels only grows a region that lies at coordinates that are not negative.\<close>

lemma align_pixels:
  assumes "0 \<le> sint (rg_x r)" "0 \<le> sint (rg_y r)" "uint (rg_width r) < 65530" "uint (rg_height r) < 65530"
  shows "pixels r \<subseteq> pixels (region_align 4 r)"
proof -
  have edge: "sint (alignDown x 4) \<le> sint x \<and>
      sint x + uint w \<le> sint (alignDown x 4) + uint (ucast (alignUp (word_of_int (uint w + (sint x - sint (alignDown x 4))) :: u32) 4) :: u16)"
    if "0 \<le> sint x" "uint w < 65530" for x w :: u16
  proof -
    have x: "sint x = uint x" using that(1) by (simp add: sint_uint_nonneg)
    have "uint x < 32768" using u16_bounds(2) [of x] x by linarith
    then have "sint (x AND - 4) = 4 * (uint x div 4)"
      by (subst sint_eq_uint_u16) (simp_all add: uint_and_not3)
    then have d: "sint (alignDown x 4) = 4 * (uint x div 4)" by (simp add: align_down4)
    let ?w = "uint w + (uint x - 4 * (uint x div 4))"
    have r: "0 \<le> ?w" "?w < 65533" using that(2) u16_bounds(3) [of w] by simp_all
    then have "uint (word_of_int ?w :: u32) = ?w" by (simp only: unsigned_of_int) (simp add: take_bit_int_eq_self)
    with r have u: "uint (alignUp (word_of_int ?w :: u32) 4) = 4 * ((?w + 3) div 4)"
      by (simp add: uint_align_up4)
    moreover have "0 \<le> 4 * ((?w + 3) div 4)" using r(1) by (simp add: pos_imp_zdiv_nonneg_iff)
    moreover have "4 * ((?w + 3) div 4) < 65536" using r(2) by linarith
    ultimately have "uint (ucast (alignUp (word_of_int ?w :: u32) 4) :: u16) = 4 * ((?w + 3) div 4)"
      by (simp add: unsigned_ucast_eq take_bit_int_eq_self)
    then show ?thesis by (simp add: x d) presburger
  qed
  from edge [OF assms(1,3)] edge [OF assms(2,4)] show ?thesis
    by (auto simp: region_align_def Let_def)
qed

end
