(* ===== verification/X11_Properties.thy ===== *)
theory X11_Properties
  imports X11_Ends Region_Align
begin

text \<open>
  The instances of \<open>x11_frame\<close> and the properties of \<open>RFB::X11Server\<close> that hold for every interleaving
  of its threads.
\<close>

section \<open>The pressed buttons\<close>

text \<open>The buttons that the X server holds pressed after a sequence of requests.\<close>

definition button_effect :: "x11_call \<Rightarrow> (nat \<Rightarrow> bool) \<Rightarrow> nat \<Rightarrow> bool" where
  "button_effect k down = (case k of FakeButton n p b \<Rightarrow> down(n := b) | _ \<Rightarrow> down)"

definition buttons_down :: "x11_call list \<Rightarrow> nat \<Rightarrow> bool" where
  "buttons_down ks = fold button_effect ks (\<lambda>_. False)"

definition pressed_ok :: "'a x11server_scheme \<Rightarrow> bool" where
  "pressed_ok s \<longleftrightarrow> list_all (\<lambda>num. bit (pressedMask s) num = buttons_down (x11_calls s) (num + 1)) [0..<8] \<and>
     pressedMask s AND 0xFF = pressedMask s"

lemma buttons_down_snoc: "buttons_down (ks @ [k]) = button_effect k (buttons_down ks)"
  by (simp add: buttons_down_def)

lemma pressed_okD: "pressed_ok s \<Longrightarrow> num < 8 \<Longrightarrow> bit (pressedMask s) num = buttons_down (x11_calls s) (num + 1)"
  by (auto simp: pressed_ok_def list_all_iff)

lemma byte_and: "(w :: u32) AND 0xFF = w \<longleftrightarrow> (\<forall>n. bit w n \<longrightarrow> n < 8)"
proof -
  have "(0xFF :: u32) = mask 8" by (simp add: mask_eq_exp_minus_1)
  moreover have "bit w n \<Longrightarrow> n < 32" for n
    using bit_imp_le_length [of w n] by simp
  ultimately show ?thesis unfolding \<open>0xFF = mask 8\<close>
    by (auto simp: bit_eq_iff bit_simps)
qed

lemma pressed_okI:
  "(\<And>num. num < 8 \<Longrightarrow> bit (pressedMask s) num = buttons_down (x11_calls s) (num + 1)) \<Longrightarrow>
   (\<And>n. bit (pressedMask s) n \<Longrightarrow> n < 8) \<Longrightarrow> pressed_ok s"
  by (auto simp: pressed_ok_def list_all_iff byte_and)

lemma pressed_ok_other:
  assumes "\<And>n p b. k \<noteq> FakeButton n p b"
  shows "pressed_ok (s\<lparr>x11_calls := x11_calls s @ [k]\<rparr>) = pressed_ok s"
proof -
  have "button_effect k down = down" for down
  proof (cases k)
    case (FakeButton n p b)
    with assms [of n p b] show ?thesis by simp
  qed (simp_all add: button_effect_def)
  then show ?thesis by (simp add: pressed_ok_def buttons_down_snoc)
qed

text \<open>One button: afterwards its bit is that of the client's mask, the others are kept.\<close>

lemma pointer_button_step:
  assumes "num < 8"
  shows "fst (pointer_button buttons pos num s) = Inr ()"
    and "pressed_ok s \<Longrightarrow> pressed_ok (snd (pointer_button buttons pos num s))"
    and "bit (pressedMask (snd (pointer_button buttons pos num s))) n =
      (if n = num then bit buttons num else bit (pressedMask s) n)"
proof -
  have on: "bit (ucast buttons :: u32) num = bit buttons num"
    using assms by (simp add: bit_simps)
  have steps: "pointer_button buttons pos num s =
    (if bit buttons num then (Inr (), s\<lparr>x11_calls := x11_calls s @ [FakeButton (num + 1) pos True],
        pressedMask := pressedMask s OR push_bit num 1\<rparr>)
     else if bit (pressedMask s) num then (Inr (), s\<lparr>x11_calls := x11_calls s @ [FakeButton (num + 1) pos False],
        pressedMask := pressedMask s AND NOT (push_bit num 1)\<rparr>)
     else (Inr (), s))"
    using assms by (simp add: pointer_button_def Let_def has_bit on x11_call_def del: push_bit_of_1)
  show "fst (pointer_button buttons pos num s) = Inr ()" by (simp add: steps)
  show bits: "bit (pressedMask (snd (pointer_button buttons pos num s))) n =
      (if n = num then bit buttons num else bit (pressedMask s) n)" for n
    using assms by (auto simp: steps bit_simps dest: bit_imp_le_length)
  show "pressed_ok (snd (pointer_button buttons pos num s))" if ok: "pressed_ok s"
  proof (rule pressed_okI)
    fix k :: nat assume k: "k < 8"
    have "buttons_down (x11_calls (snd (pointer_button buttons pos num s))) (k + 1) =
        (if k = num then bit buttons num else bit (pressedMask s) k)"
      using pressed_okD [OF ok k] by (simp add: steps buttons_down_snoc button_effect_def) auto
    then show "bit (pressedMask (snd (pointer_button buttons pos num s))) k =
        buttons_down (x11_calls (snd (pointer_button buttons pos num s))) (k + 1)"
      by (simp add: bits)
  next
    fix k assume "bit (pressedMask (snd (pointer_button buttons pos num s))) k"
    with ok assms show "k < 8" by (auto simp: bits pressed_ok_def byte_and split: if_splits)
  qed
qed

lemma pointer_buttons_each:
  assumes "set nums \<subseteq> {..<8}" and "pressed_ok s"
  shows "pressed_ok (snd (eeach (pointer_button buttons pos) nums s)) \<and>
    bit (pressedMask (snd (eeach (pointer_button buttons pos) nums s))) n =
      (if n \<in> set nums then bit buttons n else bit (pressedMask s) n)"
  using assms
proof (induction nums arbitrary: s)
  case (Cons num nums)
  obtain t where t: "pointer_button buttons pos num s = (Inr (), t)"
    using pointer_button_step(1) [of num buttons pos s] Cons.prems
    by (cases "pointer_button buttons pos num s") auto
  have ok: "pressed_ok t"
    using pointer_button_step [where num = num and buttons = buttons and pos = pos and s = s] Cons.prems t by simp
  have bits: "bit (pressedMask t) k = (if k = num then bit buttons num else bit (pressedMask s) k)" for k
    using pointer_button_step [where num = num and buttons = buttons and pos = pos and s = s] Cons.prems t by simp_all
  show ?case using Cons.IH [OF _ ok] Cons.prems t by (auto simp: ebind_Inr bits)
qed simp

section \<open>Connectors\<close>

text \<open>
  What a connector may do in its own events: whatever it does to its session, it leaves the format of
  the client, the requests of the clipboard and the buttons to this class. The events of
  \<open>RFB::X11Server\<close> itself are empty.
\<close>

definition connector_step :: "'a x11server_scheme \<Rightarrow> 'a x11server_scheme \<Rightarrow> bool" where
  "connector_step s t \<longleftrightarrow> session_step s t \<and> clientPf t = clientPf s \<and> localProvideTypes t = localProvideTypes s \<and>
     pressedMask t = pressedMask s \<and> x11_calls t = x11_calls s"

definition plain_x11 :: "'a x11server_scheme x11_class \<Rightarrow> 'a x11server_scheme x11_class" where
  "plain_x11 x = x\<lparr>x_base := (x_base x)\<lparr>sv_event := (\<lambda>_. ereturn ())\<rparr>\<rparr>"

locale x11_connector =
  fixes x :: "'a x11server_scheme x11_class"
  assumes connector: "steps connector_step (sv_event (x_base x) e)"

lemma same_members_x11:
  "same_members s t \<Longrightarrow> pressedMask t = pressedMask s"
  "same_members u v \<Longrightarrow> x11_calls v = x11_calls u"
  unfolding same_members_def by (erule ssubst, simp)+

lemma session_x11_update:
  fixes f :: "'a x11server_scheme \<Rightarrow> 'a x11server_scheme"
  assumes "\<And>s. rfbMessages (f s) = rfbMessages s" "\<And>s. sv_input (f s) = sv_input s"
    "\<And>s. sv_output (f s) = sv_output s" "\<And>s. sv_log (f s) = sv_log s"
  shows "session_step s0 s \<Longrightarrow> session_step s0 (f s)"
  by (simp add: session_step_def assms)

sublocale x11_connector \<subseteq> sessions: x11_frame "session_step s0" x for s0
proof (unfold_locales, goal_cases)
  case (2 num buttons pos)
  then show ?case
    by (intro keepsI) (auto simp: pointer_button_def Let_def x11_call_def session_step_def)
next
  case (3 e)
  show ?case by (rule keeps_of_steps [OF connector]) (auto simp: connector_step_def intro: session_step_trans)
qed (simp_all add: x11_call_def x11_detach_def session_update keeps_def session_step_def)

sublocale x11_connector \<subseteq> format: x11_frame "\<lambda>s. valid_client_format (clientPf s)" x
proof (unfold_locales, goal_cases)
  case (2 num buttons pos)
  then show ?case by (intro keepsI) (simp add: pointer_button_def Let_def x11_call_def)
next
  case (3 e)
  show ?case by (rule keeps_of_steps [OF connector]) (simp add: connector_step_def)
qed (simp_all add: x11_call_def x11_detach_def keeps_def)

sublocale x11_connector \<subseteq> types: x11_frame provide_bounded x
proof (unfold_locales, goal_cases)
  case (2 num buttons pos)
  then show ?case by (intro keepsI) (simp add: pointer_button_def Let_def x11_call_def provide_bounded_def)
next
  case (3 e)
  show ?case by (rule keeps_of_steps [OF connector]) (simp add: connector_step_def provide_bounded_def)
qed (simp_all add: x11_call_def x11_detach_def keeps_def provide_bounded_def provide_bounded_or)

sublocale x11_connector \<subseteq> buttons: x11_frame pressed_ok x
proof (unfold_locales, goal_cases)
  show "keeps pressed_ok rd8" "keeps pressed_ok (rd16 be)" "keeps pressed_ok (rd32 be)" "keeps pressed_ok (rdData n)"
    "keeps pressed_ok (wrData bs)" "keeps pressed_ok (note_event e)" "keeps pressed_ok rfbMessagesShutdown" for be n bs e
    by (rule keeps_of_steps, rule same_members_stream, simp add: pressed_ok_def same_members_x11)+
  show "(\<And>n p b. k \<noteq> FakeButton n p b) \<Longrightarrow> keeps pressed_ok (x11_call k)" for k
    by (rule keepsI) (simp add: x11_call_def pressed_ok_other)
  show "num < 8 \<Longrightarrow> keeps pressed_ok (pointer_button buttons pos num)" for num buttons pos
    by (rule keepsI) (simp add: pointer_button_step)
  show "keeps pressed_ok (sv_event (x_base x) e)" for e
    by (rule keeps_of_steps [OF connector]) (simp add: connector_step_def pressed_ok_def)
qed (simp_all add: x11_detach_def keeps_def pressed_ok_def setExtClipboardRemoteCaps_def setExtClipboardLocalCaps_def accept_caps_def)

context x11_connector begin

lemma reaches_session: "x11_reaches x fc s t \<Longrightarrow> session_step s t"
  by (erule sessions.reaches_keeps) simp

lemmas reaches_format = format.reaches_keeps
lemmas reaches_types = types.reaches_keeps
lemmas reaches_buttons = buttons.reaches_keeps

lemma handlers_session: "session_class (x11_server x)"
  by (intro session_class.intro sessions.handlers.event_keeps sessions.handlers.clip_methods_keep)

end

interpretation plain: x11_connector "plain_x11 x" for x
  by unfold_locales (simp add: plain_x11_def steps_def connector_step_def)

section \<open>Properties\<close>

text \<open>A display that allows input, and a server on it as its constructor leaves it.\<close>

definition idle_display :: "x11server x11_class" where
  "idle_display = \<lparr>x_base = \<lparr>sv_be = False, sv_format = BGRX32, sv_event = (\<lambda>_. ereturn ()),
       sv_clip = \<lparr>extClipboardLocalTypes = (\<lambda>_. 0), extClipboardLocalData = (\<lambda>_. ereturn []),
         extClipboardRemoteTypesEvent = (\<lambda>_. ereturn ()), extClipboardRemoteDataEvent = (\<lambda>_ _. ereturn ()),
         extClipboardSendEvent = (\<lambda>_. ereturn ())\<rparr>,
       sv_disabled = (\<lambda>_. []), sv_zlib = stored_zlib, sv_compress = Inr,
       with_ltsm_encoding = False, with_ffmpeg_encoding = False\<rparr>,
     x_atoms = x11AtomsUpdate (\<lambda>_. 0), x_allow = (\<lambda>_. True), x_size = (\<lambda>_. Size 64 48),
     x_hasTest = (\<lambda>_. True), x_hasCopy = (\<lambda>_. True), x_hasPaste = (\<lambda>_. True), x_noDamage = False,
     x_clipboardEnable = True, x_desktopResizeEnabled = True, x_userKeycode = (\<lambda>_. 0),
     x_keysymToKeycode = (\<lambda>_ _. 38), x_scanCodeToKeySym = (\<lambda>_. 0), x_layoutGroup = (\<lambda>_. None),
     x_keycodeGroup = (\<lambda>_ _. (0, 0)), x_groupKeysym = (\<lambda>_ _ _. 0), x_selection = (\<lambda>_ _. []),
     x_image = (\<lambda>_ _. ImageBusy), x_setScreenSize = (\<lambda>_ _. Some 1), x_cursor = (\<lambda>_. None)\<rparr>"

definition x11server_init :: "bytes \<Rightarrow> x11server" where
  "x11server_init input = server.extend (server_init input)
     \<lparr>clientClipboard = [], clientRegion = region_default, damageRegion = region_default, pressedMask = 0,
      randrSequence = 0, displayResizeNegotiation = False, displayResizeProcessed = False,
      clientUpdateCursor = False, fullscreenUpdateReq = False, clipLocalTypes = 0, clipRemoteTypes = 0,
      x11_calls = [], x11_jobs = []\<rparr>"

lemma idle_connector: "steps connector_step (sv_event (x_base idle_display) e)"
  by (simp add: idle_display_def steps_def connector_step_def)

lemma idle_message: "x11_reaches idle_display fc s (snd (messages_round (x11_server idle_display) s))" if "rfbMessages s"
  by (rule r_into_rtranclp) (rule step_message [OF that])

text \<open>
  C2. However the threads of the server interleave: what the client has sent is consumed in order, what
  the server has sent is only added to, and once the session is shut down it stays so and neither
  reads nor sends another byte.
\<close>

theorem shutdown_final:
  assumes "\<And>e. steps connector_step (sv_event (x_base x) e)" and "x11_reaches x fc s t"
  shows "(\<exists>n. sv_input t = drop n (sv_input s)) \<and> (\<exists>bs. sv_output t = sv_output s @ bs) \<and>
    (rfbMessages s \<or> \<not> rfbMessages t \<and> sv_input t = sv_input s \<and> sv_output t = sv_output s)"
  using x11_connector.reaches_session [OF x11_connector.intro assms(2), OF assms(1)]
  by (auto simp: session_step_def)

theorem shutdown_final_witness:
  "\<exists>n. sv_input (snd (messages_round (x11_server idle_display) (x11server_init [5, 1, 0, 9, 0, 7, 3]))) =
     drop n [5, 1, 0, 9, 0, 7, 3]"
proof -
  have "rfbMessages (x11server_init [5, 1, 0, 9, 0, 7, 3])" "sv_input (x11server_init [5, 1, 0, 9, 0, 7, 3]) = [5, 1, 0, 9, 0, 7, 3]"
    by code_simp+
  with shutdown_final [OF idle_connector idle_message] show ?thesis by metis
qed

text \<open>
  C21. The buttons that the X server holds pressed are those of the mask that the class keeps, in every
  state that the interleaved threads reach.
\<close>

theorem buttons_in_step:
  assumes "\<And>e. steps connector_step (sv_event (x_base x) e)" and "x11_reaches x fc s t"
    and "pressedMask s = 0" and "x11_calls s = []" and "num < 8"
  shows "bit (pressedMask t) num = buttons_down (x11_calls t) (num + 1)"
proof -
  have "pressed_ok s" using assms(3,4) by (simp add: pressed_ok_def buttons_down_def list_all_iff)
  then have "pressed_ok t"
    using x11_connector.reaches_buttons [OF x11_connector.intro assms(2), OF assms(1)] by simp
  then show ?thesis using assms(5) by (rule pressed_okD)
qed

theorem buttons_in_step_witness:
  "bit (pressedMask (snd (messages_round (x11_server idle_display) (x11server_init [5, 1, 0, 9, 0, 7, 3])))) 0 =
   buttons_down (x11_calls (snd (messages_round (x11_server idle_display) (x11server_init [5, 1, 0, 9, 0, 7, 3])))) (0 + 1)"
  by (rule buttons_in_step [OF idle_connector idle_message]) code_simp+

text \<open>
  C22. After a pointer event that the display accepts, the X server holds exactly the buttons of the
  client's mask.
\<close>

theorem pointer_event_buttons:
  assumes "pressed_ok s" and "x_allow x s" and "x_hasTest x s" and "num < 8"
  shows "buttons_down (x11_calls (snd (serverRecvPointerEvent x buttons posx posy s))) (num + 1) = bit buttons num"
proof (cases "pressedMask s XOR ucast buttons = 0")
  case True
  have "pressedMask s = (pressedMask s XOR ucast buttons) XOR ucast buttons" by (simp add: xor.assoc)
  with True have "pressedMask s = ucast buttons" by simp
  then have "bit (pressedMask s) num = bit buttons num" using assms(4) by (simp add: bit_simps)
  with True assms pressed_okD [OF assms(1,4)] show ?thesis
    by (simp add: serverRecvPointerEvent_def x11_call_def buttons_down_snoc button_effect_def)
next
  case False
  have "set [0..<8] \<subseteq> {..<8 :: nat}" by auto
  note each = pointer_buttons_each [OF this assms(1), where n = num]
  from False assms(2,3) have "serverRecvPointerEvent x buttons posx posy s =
      eeach (pointer_button buttons (Point posx posy)) [0..<8] s"
    by (simp add: serverRecvPointerEvent_def del: upt_Suc)
  with each [of buttons "Point posx posy"] pressed_okD [OF conjunct1 [OF each] assms(4), of buttons "Point posx posy"] assms(4)
  show ?thesis by (simp del: upt_Suc)
qed

theorem pointer_event_buttons_witness:
  "buttons_down (x11_calls (snd (serverRecvPointerEvent idle_display 5 10 20 (x11server_init [])))) (2 + 1)"
proof -
  have "pressed_ok (x11server_init [])" "x_allow idle_display (x11server_init [])" "x_hasTest idle_display (x11server_init [])"
    by code_simp+
  from pointer_event_buttons [OF this, of 2 5 10 20] show ?thesis by simp
qed

text \<open>
  C26. The pixel format that the encoders work with is at all times one the server accepts: of 8, 16 or 32
  bits, with colours of every channel and the bytes that its bits take.
\<close>

theorem client_format_valid:
  assumes "\<And>e. steps connector_step (sv_event (x_base x) e)" and "x11_reaches x fc s t"
    and "valid_client_format (clientPf s)"
  shows "valid_client_format (clientPf t)"
  using x11_connector.reaches_format [OF x11_connector.intro assms(2), OF assms(1)] assms(3) by simp

theorem client_format_valid_witness:
  "valid_client_format (clientPf (snd (messages_round (x11_server idle_display) (x11server_init [0, 0, 0]))))"
  by (rule client_format_valid [OF idle_connector idle_message]) code_simp+

text \<open>
  C27. The types of the clipboard that the server has asked the client for stay within the 16 bits of the
  types, so no bit of an operation is ever taken for an outstanding request.
\<close>

theorem requests_bounded:
  assumes "\<And>e. steps connector_step (sv_event (x_base x) e)" and "x11_reaches x fc s t"
    and "localProvideTypes s = 0"
  shows "localProvideTypes t AND 0xFFFF = localProvideTypes t"
proof -
  have "provide_bounded s" using assms(3) by (simp add: provide_bounded_def)
  then have "provide_bounded t"
    using x11_connector.reaches_types [OF x11_connector.intro assms(2), OF assms(1)] by simp
  then show ?thesis by (simp add: provide_bounded_def)
qed

theorem requests_bounded_witness:
  "localProvideTypes (snd (messages_round (x11_server idle_display) (x11server_init [6, 0, 0, 0]))) AND 0xFFFF =
   localProvideTypes (snd (messages_round (x11_server idle_display) (x11server_init [6, 0, 0, 0])))"
  by (rule requests_bounded [OF idle_connector idle_message]) code_simp+

text \<open>
  C32. The region of an update lies on the screen and in the region the client asked for, and it shows
  all the damage there.
\<close>

theorem update_region_covers:
  assumes "0 \<le> sint (rg_x (damageRegion s))" "0 \<le> sint (rg_y (damageRegion s))"
    and "uint (rg_width (damageRegion s)) < 65530" "uint (rg_height (damageRegion s)) < 65530"
  shows "pixels (update_region x s) \<subseteq> pixels (x11_region x s) \<inter> pixels (clientRegion s) \<and>
    pixels (x11_region x s) \<inter> pixels (clientRegion s) \<inter> pixels (damageRegion s) \<subseteq> pixels (update_region x s) \<and>
    (fullscreenUpdateReq s \<longrightarrow> pixels (update_region x s) = pixels (x11_region x s) \<inter> pixels (clientRegion s))"
  using align_pixels [OF assms]
  by (cases "clientRegion s = x11_region x s") (auto simp: update_region_def Let_def intersected_pixels simp del: in_pixels)

theorem update_region_covers_witness:
  "pixels (update_region idle_display ((x11server_init [])\<lparr>damageRegion := Region 3 5 10 10, clientRegion := Region 0 0 64 48\<rparr>))
    \<subseteq> pixels (Region 0 0 64 48)"
proof -
  let ?s = "(x11server_init [])\<lparr>damageRegion := Region 3 5 10 10, clientRegion := Region 0 0 64 48\<rparr>"
  have "damageRegion ?s = Region 3 5 10 10" "clientRegion ?s = Region 0 0 64 48" by simp_all
  with update_region_covers [of ?s idle_display] show ?thesis by auto
qed


text \<open>The server of the witnesses is one whose loop ends; its client breaks off in the middle of a message.\<close>

interpretation settled: settling_x11 idle_display
  by unfold_locales (simp_all add: idle_display_def settles_def stored_zlib_def)


end
