(* ===== verification/Json_Text.thy ===== *)
theory Json_Text
  imports Rfb_Common
begin

text \<open>
  Texts of JSON values: \<open>Tools::escaped\<close> and \<open>Tools::unescaped\<close> (\<^verbatim>\<open>src/src/common/ltsm_tools.cpp\<close>), the
  library's \<open>std::quoted\<close>, \<open>std::to_string\<close> and \<open>std::stoi\<close> of an integer in any base.
\<close>

section \<open>Escapes\<close>

text \<open>The characters that are written as a backslash and a letter.\<close>

definition escape_letter :: "char \<Rightarrow> char option" where
  "escape_letter ch =
     (if ch = CHR 0x5C then Some (CHR 0x5C)
      else if ch = CHR 0x22 then Some (CHR 0x22)
      else if ch = CHR ''/'' then Some (CHR ''/'')
      else if ch = CHR 0x09 then Some (CHR ''t'')
      else if ch = CHR 0x0A then Some (CHR ''n'')
      else if ch = CHR 0x0D then Some (CHR ''r'')
      else if ch = CHR 0x0C then Some (CHR ''f'')
      else if ch = CHR 0x08 then Some (CHR ''b'')
      else None)"

definition escape_char :: "char \<Rightarrow> string" where
  "escape_char ch = (case escape_letter ch of Some l \<Rightarrow> [CHR 0x5C, l] | None \<Rightarrow> [ch])"

definition escaped :: "string \<Rightarrow> bool \<Rightarrow> string" where
  "escaped str quote =
     (if quote then [CHR 0x22] else []) @ concat (map escape_char str) @ (if quote then [CHR 0x22] else [])"

text \<open>
  \<open>unescaped\<close> overwrites the letter after a backslash with zero and the backslash with the character;
  an unknown letter stays. The search goes on after a pair that was replaced, else after the
  backslash; at the end all zeros are erased.
\<close>

definition unescape_letter :: "char \<Rightarrow> char option" where
  "unescape_letter ch2 =
     (if ch2 = CHR 0x5C then Some (CHR 0x5C)
      else if ch2 = CHR 0x22 then Some (CHR 0x22)
      else if ch2 = CHR ''/'' then Some (CHR ''/'')
      else if ch2 = CHR ''t'' then Some (CHR 0x09)
      else if ch2 = CHR ''n'' then Some (CHR 0x0A)
      else if ch2 = CHR ''r'' then Some (CHR 0x0D)
      else if ch2 = CHR ''f'' then Some (CHR 0x0C)
      else if ch2 = CHR ''b'' then Some (CHR 0x08)
      else None)"

fun unescape_pairs :: "string \<Rightarrow> string" where
  "unescape_pairs [] = []"
| "unescape_pairs [ch] = [ch]"
| "unescape_pairs (ch1 # ch2 # str) =
     (if ch1 \<noteq> CHR 0x5C then ch1 # unescape_pairs (ch2 # str)
      else case unescape_letter ch2 of
          Some ch \<Rightarrow> ch # CHR 0x00 # unescape_pairs str
        | None \<Rightarrow> if ch2 = CHR 0x00 then ch1 # ch2 # unescape_pairs str else ch1 # unescape_pairs (ch2 # str))"

definition unescaped :: "string \<Rightarrow> string" where
  "unescaped val = (if length val < 2 then val else filter (\<lambda>ch. ch \<noteq> CHR 0x00) (unescape_pairs val))"

definition std_quoted :: "string \<Rightarrow> string" where
  "std_quoted str =
     [CHR 0x22] @ concat (map (\<lambda>ch. if ch = CHR 0x22 \<or> ch = CHR 0x5C then [CHR 0x5C, ch] else [ch]) str) @ [CHR 0x22]"

section \<open>Integers\<close>

fun to_digits :: "nat \<Rightarrow> string" where
  "to_digits n = (if n < 10 then [char_of (48 + n)] else to_digits (n div 10) @ [char_of (48 + n mod 10)])"

declare to_digits.simps [simp del]

definition to_string :: "u32 \<Rightarrow> string" where
  "to_string i = (if sint i < 0 then CHR ''-'' # to_digits (nat (- sint i)) else to_digits (nat (sint i)))"

text \<open>
  \<open>std::stoi(str, nullptr, 0)\<close> is \<open>strtol\<close>: space, sign and prefix are skipped, then as many digits as
  there are count; \<open>InvalidArgument\<close> when there are none, \<open>OutOfRange\<close> outside of \<open>int\<close>.
\<close>

definition isspace :: "char \<Rightarrow> bool" where
  "isspace ch = list_ex (\<lambda>c. c = ch) [CHR '' '', CHR 0x09, CHR 0x0A, CHR 0x0B, CHR 0x0C, CHR 0x0D]"

definition digit_value :: "char \<Rightarrow> nat" where
  "digit_value ch =
     (let n = of_char ch :: nat in
      if 48 \<le> n \<and> n \<le> 57 then n - 48 else if 65 \<le> n \<and> n \<le> 90 then n - 55
      else if 97 \<le> n \<and> n \<le> 122 then n - 87 else 99)"

definition strtol_base :: "string \<Rightarrow> nat \<times> string" where
  "strtol_base str =
     (case str of
        a # x # d # rest \<Rightarrow>
          if a = CHR ''0'' \<and> (x = CHR ''x'' \<or> x = CHR ''X'') \<and> digit_value d < 16 then (16, d # rest)
          else if a = CHR ''0'' then (8, str) else (10, str)
      | a # rest \<Rightarrow> if a = CHR ''0'' then (8, str) else (10, str)
      | [] \<Rightarrow> (10, str))"

definition stoi_in :: "(string \<Rightarrow> nat \<times> string) \<Rightarrow> string \<Rightarrow> u32 res" where
  "stoi_in prefix str =
     (let str = dropWhile isspace str;
          (sign, str) = (case str of
              c # rest \<Rightarrow> if c = CHR ''-'' then (- 1, rest) else if c = CHR ''+'' then (1, rest) else (1, str)
            | [] \<Rightarrow> (1 :: int, str));
          (base, str) = prefix str;
          ds = takeWhile (\<lambda>c. digit_value c < base) str;
          v = sign * fold (\<lambda>c n. int base * n + int (digit_value c)) ds 0
      in if ds = [] then Inl InvalidArgument
         else if v < - (2 ^ 31) \<or> 2 ^ 31 \<le> v then Inl OutOfRange
         else Inr (word_of_int v))"

definition stoi :: "string \<Rightarrow> u32 res" where
  "stoi = stoi_in strtol_base"

text \<open>\<open>std::stoi(str)\<close> reads decimal digits.\<close>

definition stoi_decimal :: "string \<Rightarrow> u32 res" where
  "stoi_decimal = stoi_in (\<lambda>str. (10, str))"

section \<open>Properties\<close>

lemma escape_cases:
  obtains "escape_letter ch = None" "ch \<noteq> CHR 0x5C" "ch \<noteq> CHR 0x22"
  | l where "escape_letter ch = Some l" "unescape_letter l = Some ch"
proof (cases "escape_letter ch")
  case None
  then have "ch \<noteq> CHR 0x5C" "ch \<noteq> CHR 0x22" by (auto simp: escape_letter_def)
  with None that(1) show thesis by blast
next
  case (Some l)
  then have "unescape_letter l = Some ch"
    by (auto simp: escape_letter_def unescape_letter_def split: if_splits)
  with Some that(2) show thesis by blast
qed

lemma unescape_plain: "ch \<noteq> CHR 0x5C \<Longrightarrow> unescape_pairs (ch # str) = ch # unescape_pairs str"
  by (cases str) simp_all

lemma unescape_escape:
  "CHR 0x00 \<notin> set str \<Longrightarrow>
   filter (\<lambda>ch. ch \<noteq> CHR 0x00) (unescape_pairs (concat (map escape_char str))) = str"
proof (induction str)
  case (Cons ch str)
  from Cons.prems have z: "ch \<noteq> CHR 0x00" "CHR 0x00 \<notin> set str" by auto
  show ?case
    by (cases ch rule: escape_cases) (use Cons.IH [OF z(2)] z(1) in \<open>simp_all add: escape_char_def unescape_plain\<close>)
qed simp

lemma escape_short: "length (concat (map escape_char str)) < 2 \<Longrightarrow> concat (map escape_char str) = str"
proof (cases str)
  case (Cons ch rest)
  assume short: "length (concat (map escape_char str)) < 2"
  have one: "1 \<le> length (escape_char c)" for c by (simp add: escape_char_def split: option.split)
  show ?thesis
  proof (cases rest)
    case Nil
    then show ?thesis using short Cons by (auto simp: escape_char_def split: option.splits)
  next
    case (Cons d more)
    then show ?thesis using short \<open>str = ch # rest\<close> one [of ch] one [of d] by simp
  qed
qed simp

lemma unescaped_escaped:
  "CHR 0x00 \<notin> set str \<Longrightarrow> unescaped (concat (map escape_char str)) = str"
  by (simp add: unescaped_def unescape_escape escape_short)

text \<open>Digits are read back.\<close>

lemma digit_char: "k < 10 \<Longrightarrow> digit_value (char_of (48 + k)) = k"
  by (simp add: digit_value_def Let_def)

lemma to_digits_set: "c \<in> set (to_digits n) \<Longrightarrow> \<exists>k::nat. k < 10 \<and> c = char_of (48 + k)"
proof (induction n rule: to_digits.induct)
  case (1 n)
  show ?case
  proof (cases "n < 10 \<or> c \<notin> set (to_digits (n div 10))")
    case True
    with 1(2) have "c = char_of (48 + n mod 10)" by (auto simp: to_digits.simps [of n] split: if_splits)
    then show ?thesis by (intro exI [of _ "n mod 10"]) simp
  next
    case False
    with 1 show ?thesis by blast
  qed
qed

lemma to_digits_nonempty [simp]: "to_digits n \<noteq> []"
  by (subst to_digits.simps) simp

lemma to_digits_hd: "0 < n \<Longrightarrow> hd (to_digits n) \<noteq> CHR ''0''"
proof (induction n rule: to_digits.induct)
  case (1 n)
  show ?case
  proof (cases "n < 10")
    case True
    then have "digit_value (char_of (48 + n)) = n" by (rule digit_char)
    moreover have "digit_value (CHR ''0'') = 0" by code_simp
    ultimately have "char_of (48 + n) \<noteq> CHR ''0''" using 1(2) by auto
    with True show ?thesis by (simp add: to_digits.simps [of n])
  next
    case False
    with 1 show ?thesis by (simp add: to_digits.simps [of n])
  qed
qed

lemma to_digits_value:
  "fold (\<lambda>c n. 10 * n + int (digit_value c)) (to_digits n) 0 = int n"
proof (induction n rule: to_digits.induct)
  case (1 n)
  then show ?case
    by (cases "n < 10") (simp_all add: to_digits.simps [of n] digit_char, simp add: zdiv_int zmod_int)
qed

lemma to_digits_take: "takeWhile (\<lambda>c. digit_value c < 10) (to_digits n) = to_digits n"
  by (auto simp: takeWhile_eq_all_conv digit_char dest!: to_digits_set)

lemma to_digits_zero: "to_digits 0 = [CHR ''0'']"
  by code_simp

text \<open>The first character of a number is a digit or the sign.\<close>

lemma digit_not_space:
  assumes "c \<in> set (to_digits n)"
  shows "\<not> isspace c" "c \<noteq> CHR ''-''" "c \<noteq> CHR ''+''"
proof -
  have "\<forall>k \<in> set [0..<10]. \<not> isspace (char_of (48 + k :: nat)) \<and> char_of (48 + k :: nat) \<noteq> CHR ''-'' \<and>
      char_of (48 + k :: nat) \<noteq> CHR ''+''"
    by code_simp
  with assms show "\<not> isspace c" "c \<noteq> CHR ''-''" "c \<noteq> CHR ''+''" by (auto dest!: to_digits_set)
qed

lemma strtol_digits:
  "let (base, str) = strtol_base (to_digits n); ds = takeWhile (\<lambda>c. digit_value c < base) str
   in ds \<noteq> [] \<and> fold (\<lambda>c n. int base * n + int (digit_value c)) ds 0 = int n"
proof (cases "n = 0")
  case True
  then show ?thesis unfolding to_digits_zero by (simp, code_simp)
next
  case False
  then have "hd (to_digits n) \<noteq> CHR ''0''" by (simp add: to_digits_hd)
  then have "strtol_base (to_digits n) = (10, to_digits n)"
    by (cases "to_digits n") (auto simp: strtol_base_def split: list.split)
  then show ?thesis by (simp add: to_digits_take to_digits_value)
qed

lemma stoi_to_string: "stoi (to_string i) = Inr i"
proof -
  have range: "- (2 ^ 31) \<le> sint i" "sint i < 2 ^ 31"
    using sint_range_size [of i] by (simp_all add: word_size)
  have digits: "stoi (sg @ to_digits n) = Inr (word_of_int (s * int n))"
    if "sg = [] \<and> s = 1 \<or> sg = ''-'' \<and> s = - 1" "- (2 ^ 31) \<le> s * int n" "s * int n < 2 ^ 31" for sg s n
  proof -
    obtain c rest where c: "to_digits n = c # rest" by (cases "to_digits n") auto
    then have "\<not> isspace c" "c \<noteq> CHR ''-''" "c \<noteq> CHR ''+''" using digit_not_space [of c n] by auto
    moreover have "\<not> isspace (CHR ''-'')" by code_simp
    ultimately show ?thesis using strtol_digits [of n] that c
      by (auto simp: stoi_def stoi_in_def Let_def split: prod.splits)
  qed
  show ?thesis
  proof (cases "sint i < 0")
    case True
    then show ?thesis using digits [of "''-''" "- 1" "nat (- sint i)"] range by (simp add: to_string_def)
  next
    case False
    then show ?thesis using digits [of "[]" 1 "nat (sint i)"] range by (simp add: to_string_def)
  qed
qed

end
