(* ===== verification/Jsmn.thy ===== *)
theory Jsmn
  imports Json_Text
begin

text \<open>
  The tokenizer \<^verbatim>\<open>src/src/common/jsmn/jsmn.h\<close> (neither strict nor with parent links, as the sources build
  it): one pass over a text that records the tokens of JSON in the order of their starts. The text is
  the list of the characters from \<open>pos\<close> on; \<open>toks\<close> are the tokens that have been allocated, \<open>toksuper\<close>
  is the index of the token that the next one belongs to, \<open>None\<close> for -1. Positions are not bounded:
  texts are shorter than 2 GiB.
\<close>

section \<open>State\<close>

datatype jsmntype = JSMN_PRIMITIVE | JSMN_OBJECT | JSMN_ARRAY | JSMN_STRING

record jsmntok =
  tok_type :: jsmntype
  tok_start :: int
  tok_end :: int
  tok_size :: nat

datatype jsmn_error = JSMN_ERROR_NOMEM | JSMN_ERROR_INVAL | JSMN_ERROR_PART

record jsmn =
  toks :: "jsmntok list"
  toksuper :: "nat option"

definition jsmn_init :: jsmn where
  "jsmn_init = \<lparr>toks = [], toksuper = None\<rparr>"

definition jsmn_alloc :: "nat \<Rightarrow> jsmntok \<Rightarrow> jsmn \<Rightarrow> jsmn_error + jsmn" where
  "jsmn_alloc num_tokens tok st =
     (if num_tokens \<le> length (toks st) then Inl JSMN_ERROR_NOMEM
      else Inr (st\<lparr>toks := toks st @ [tok]\<rparr>))"

text \<open>One more token belongs to the one at \<open>toksuper\<close>.\<close>

definition jsmn_count :: "nat option \<Rightarrow> jsmn \<Rightarrow> jsmn" where
  "jsmn_count super st =
     (case super of
        None \<Rightarrow> st
      | Some i \<Rightarrow> st\<lparr>toks := (toks st)[i := (toks st ! i)\<lparr>tok_size := tok_size (toks st ! i) + 1\<rparr>]\<rparr>)"

section \<open>Primitives and strings\<close>

text \<open>How many characters a primitive has; \<open>char\<close> is signed, so bytes from 128 on are below 32.\<close>

fun jsmn_parse_primitive :: "string \<Rightarrow> jsmn_error + nat" where
  "jsmn_parse_primitive [] = Inr 0"
| "jsmn_parse_primitive (c # js) =
     (if c = CHR 0x00 then Inr 0
      else if list_ex (\<lambda>d. c = d) [CHR '':'', CHR 0x09, CHR 0x0D, CHR 0x0A, CHR '' '', CHR '','', CHR '']'', CHR ''}'']
      then Inr 0
      else if (of_char c :: nat) < 32 \<or> 127 \<le> (of_char c :: nat) then Inl JSMN_ERROR_INVAL
      else map_sum id Suc (jsmn_parse_primitive js))"

definition is_hex :: "char \<Rightarrow> bool" where
  "is_hex c =
     (let n = of_char c :: nat in 48 \<le> n \<and> n \<le> 57 \<or> 65 \<le> n \<and> n \<le> 70 \<or> 97 \<le> n \<and> n \<le> 102)"

text \<open>Up to four hexadecimal digits: how many, or \<open>None\<close> after another character.\<close>

fun jsmn_hex :: "nat \<Rightarrow> string \<Rightarrow> nat option" where
  "jsmn_hex 0 js = Some 0"
| "jsmn_hex (Suc i) [] = Some 0"
| "jsmn_hex (Suc i) (c # js) =
     (if c = CHR 0x00 then Some 0
      else if \<not> is_hex c then None else map_option Suc (jsmn_hex i js))"

text \<open>How many characters a string has up to its closing quote.\<close>

function jsmn_parse_string :: "string \<Rightarrow> jsmn_error + nat" where
  "jsmn_parse_string js =
     (case js of
        [] \<Rightarrow> Inl JSMN_ERROR_PART
      | c # js \<Rightarrow>
          if c = CHR 0x00 then Inl JSMN_ERROR_PART
          else if c = CHR 0x22 then Inr 0
          else if c = CHR 0x5C \<and> js \<noteq> [] then
            if list_ex (\<lambda>d. hd js = d) [CHR 0x22, CHR ''/'', CHR 0x5C, CHR ''b'', CHR ''f'', CHR ''r'', CHR ''n'', CHR ''t'']
            then map_sum id (\<lambda>n. n + 2) (jsmn_parse_string (tl js))
            else if hd js = CHR ''u'' then
              case jsmn_hex 4 (tl js) of
                None \<Rightarrow> Inl JSMN_ERROR_INVAL
              | Some k \<Rightarrow> map_sum id (\<lambda>n. n + (2 + k)) (jsmn_parse_string (drop k (tl js)))
            else Inl JSMN_ERROR_INVAL
          else map_sum id Suc (jsmn_parse_string js))"
  by pat_completeness auto
termination by (relation "measure length") auto

declare jsmn_parse_string.simps [simp del]

section \<open>One character\<close>

definition open_tok :: "jsmntok \<Rightarrow> bool" where
  "open_tok tok \<longleftrightarrow> tok_start tok \<noteq> - 1 \<and> tok_end tok = - 1"

text \<open>The last token of a kind.\<close>

definition last_such :: "(jsmntok \<Rightarrow> bool) \<Rightarrow> jsmntok list \<Rightarrow> nat option" where
  "last_such P ts =
     (let rest = dropWhile (\<lambda>t. \<not> P t) (rev ts) in if rest = [] then None else Some (length rest - 1))"

definition jsmn_open :: "nat \<Rightarrow> nat \<Rightarrow> jsmntype \<Rightarrow> jsmn \<Rightarrow> jsmn_error + jsmn" where
  "jsmn_open num_tokens pos type st =
     (case jsmn_alloc num_tokens \<lparr>tok_type = type, tok_start = int pos, tok_end = - 1, tok_size = 0\<rparr> st of
        Inl e \<Rightarrow> Inl e
      | Inr st' \<Rightarrow> Inr ((jsmn_count (toksuper st) st')\<lparr>toksuper := Some (length (toks st))\<rparr>))"

definition jsmn_close :: "nat \<Rightarrow> jsmntype \<Rightarrow> jsmn \<Rightarrow> jsmn_error + jsmn" where
  "jsmn_close pos type st =
     (case last_such open_tok (toks st) of
        None \<Rightarrow> Inl JSMN_ERROR_INVAL
      | Some i \<Rightarrow>
          if tok_type (toks st ! i) \<noteq> type then Inl JSMN_ERROR_INVAL
          else
            let ts = (toks st)[i := (toks st ! i)\<lparr>tok_end := int pos + 1\<rparr>]
            in Inr (st\<lparr>toks := ts, toksuper := last_such open_tok (take (Suc i) ts)\<rparr>))"

definition jsmn_comma :: "jsmn \<Rightarrow> jsmn" where
  "jsmn_comma st =
     (case toksuper st of
        None \<Rightarrow> st
      | Some i \<Rightarrow>
          if tok_type (toks st ! i) = JSMN_ARRAY \<or> tok_type (toks st ! i) = JSMN_OBJECT then st
          else case last_such (\<lambda>tok. (tok_type tok = JSMN_ARRAY \<or> tok_type tok = JSMN_OBJECT) \<and> open_tok tok) (toks st) of
              None \<Rightarrow> st | Some k \<Rightarrow> st\<lparr>toksuper := Some k\<rparr>)"

text \<open>A token that is read at once, from \<open>start\<close> to \<open>stop\<close>.\<close>

definition jsmn_fill :: "nat \<Rightarrow> jsmntype \<Rightarrow> nat \<Rightarrow> nat \<Rightarrow> jsmn \<Rightarrow> jsmn_error + jsmn" where
  "jsmn_fill num_tokens type start stop st =
     (case jsmn_alloc num_tokens \<lparr>tok_type = type, tok_start = int start, tok_end = int stop, tok_size = 0\<rparr> st of
        Inl e \<Rightarrow> Inl e
      | Inr st' \<Rightarrow> Inr (jsmn_count (toksuper st) st'))"

text \<open>The handling of the character \<open>c\<close> at \<open>pos\<close>, with the number of characters that it takes with it.\<close>

definition jsmn_more :: "nat \<Rightarrow> jsmn_error + jsmn \<Rightarrow> jsmn_error + nat \<times> jsmn" where
  "jsmn_more n r = (case r of Inl e \<Rightarrow> Inl e | Inr st \<Rightarrow> Inr (n, st))"

definition jsmn_char :: "nat \<Rightarrow> nat \<Rightarrow> char \<Rightarrow> string \<Rightarrow> jsmn \<Rightarrow> jsmn_error + nat \<times> jsmn" where
  "jsmn_char num_tokens pos c js st =
     (if c = CHR ''{'' then jsmn_more 0 (jsmn_open num_tokens pos JSMN_OBJECT st)
      else if c = CHR ''['' then jsmn_more 0 (jsmn_open num_tokens pos JSMN_ARRAY st)
      else if c = CHR ''}'' then jsmn_more 0 (jsmn_close pos JSMN_OBJECT st)
      else if c = CHR '']'' then jsmn_more 0 (jsmn_close pos JSMN_ARRAY st)
      else if c = CHR 0x22 then
        case jsmn_parse_string js of
          Inl e \<Rightarrow> Inl e
        | Inr n \<Rightarrow> jsmn_more (Suc n) (jsmn_fill num_tokens JSMN_STRING (pos + 1) (pos + 1 + n) st)
      else if c = CHR 0x09 \<or> c = CHR 0x0D \<or> c = CHR 0x0A \<or> c = CHR '' '' then Inr (0, st)
      else if c = CHR '':'' then
        Inr (0, st\<lparr>toksuper := (if toks st = [] then None else Some (length (toks st) - 1))\<rparr>)
      else if c = CHR '','' then Inr (0, jsmn_comma st)
      else
        case jsmn_parse_primitive (c # js) of
          Inl e \<Rightarrow> Inl e
        | Inr n \<Rightarrow> jsmn_more (n - 1) (jsmn_fill num_tokens JSMN_PRIMITIVE pos (pos + n) st))"

function jsmn_loop :: "nat \<Rightarrow> nat \<Rightarrow> string \<Rightarrow> jsmn \<Rightarrow> jsmn_error + jsmn" where
  "jsmn_loop num_tokens pos [] st = Inr st"
| "jsmn_loop num_tokens pos (c # js) st =
     (if c = CHR 0x00 then Inr st
      else case jsmn_char num_tokens pos c js st of
          Inl e \<Rightarrow> Inl e
        | Inr (n, st) \<Rightarrow> jsmn_loop num_tokens (pos + 1 + n) (drop n js) st)"
  by pat_completeness auto
termination by (relation "measure (\<lambda>(_, _, js, _). length js)") auto

text \<open>The count that the function returns is the number of tokens.\<close>

definition jsmn_parse :: "nat \<Rightarrow> string \<Rightarrow> jsmn_error + jsmntok list" where
  "jsmn_parse num_tokens js =
     (case jsmn_loop num_tokens 0 js jsmn_init of
        Inl e \<Rightarrow> Inl e
      | Inr st \<Rightarrow> if list_ex open_tok (toks st) then Inl JSMN_ERROR_PART else Inr (toks st))"

section \<open>Space for the tokens\<close>

text \<open>A text has at most as many tokens as characters, and what is found does not depend on the space.\<close>

lemma alloc_cases:
  "jsmn_alloc num tok st = Inl e \<Longrightarrow> e = JSMN_ERROR_NOMEM \<and> num \<le> length (toks st)"
  "jsmn_alloc num tok st = Inr st' \<Longrightarrow> length (toks st') = Suc (length (toks st))"
  by (auto simp: jsmn_alloc_def split: if_splits)

lemma length_count [simp]: "length (toks (jsmn_count super st)) = length (toks st)"
  by (simp add: jsmn_count_def split: option.split)

lemma comma_toks [simp]: "toks (jsmn_comma st) = toks st"
  by (simp add: jsmn_comma_def split: option.split)

lemma open_fill_tokens:
  "jsmn_open num pos type st = Inl e \<Longrightarrow> num \<le> length (toks st)"
  "jsmn_open num pos type st = Inr st' \<Longrightarrow> length (toks st') = Suc (length (toks st))"
  "jsmn_fill num type a b st = Inl e \<Longrightarrow> num \<le> length (toks st)"
  "jsmn_fill num type a b st = Inr st' \<Longrightarrow> length (toks st') = Suc (length (toks st))"
  by (auto simp: jsmn_open_def jsmn_fill_def dest: alloc_cases split: sum.splits)

lemma close_tokens:
  "jsmn_close pos type st = Inr st' \<Longrightarrow> length (toks st') = length (toks st)"
  "jsmn_close pos type st \<noteq> Inl JSMN_ERROR_NOMEM"
  by (auto simp: jsmn_close_def Let_def split: option.splits if_splits)

lemma map_sum_Inl: "map_sum id f r = Inl e \<longleftrightarrow> r = Inl e"
  by (cases r) auto

lemma parse_errors:
  "jsmn_parse_primitive js \<noteq> Inl JSMN_ERROR_NOMEM"
  "jsmn_parse_string js \<noteq> Inl JSMN_ERROR_NOMEM"
proof -
  show "jsmn_parse_primitive js \<noteq> Inl JSMN_ERROR_NOMEM"
    by (induction js rule: jsmn_parse_primitive.induct) (auto simp: map_sum_Inl)
  show "jsmn_parse_string js \<noteq> Inl JSMN_ERROR_NOMEM"
  proof (induction js rule: length_induct)
    case (1 js)
    show ?case
    proof (cases js)
      case (Cons c rest)
      have "jsmn_parse_string ys \<noteq> Inl JSMN_ERROR_NOMEM" if "length ys \<le> length rest" for ys
        using 1 that Cons by auto
      then have "jsmn_parse_string rest \<noteq> Inl JSMN_ERROR_NOMEM" "jsmn_parse_string (tl rest) \<noteq> Inl JSMN_ERROR_NOMEM"
        "jsmn_parse_string (drop k (tl rest)) \<noteq> Inl JSMN_ERROR_NOMEM" for k
        by simp_all
      then show ?thesis unfolding Cons jsmn_parse_string.simps [of "c # rest"]
        by (simp add: map_sum_Inl split: option.split)
    qed (simp add: jsmn_parse_string.simps)
  qed
qed

lemma more_eq [simp]:
  "jsmn_more n r = Inr (m, st) \<longleftrightarrow> r = Inr st \<and> m = n" "jsmn_more n r = Inl e \<longleftrightarrow> r = Inl e"
  by (auto simp: jsmn_more_def split: sum.split)

lemma char_tokens:
  "jsmn_char num pos c js st = Inr (n, st') \<Longrightarrow> length (toks st') \<le> Suc (length (toks st))"
  "jsmn_char num pos c js st = Inl JSMN_ERROR_NOMEM \<Longrightarrow> num \<le> length (toks st)"
proof -
  assume "jsmn_char num pos c js st = Inr (n, st')"
  then consider type where "jsmn_open num pos type st = Inr st'" | type where "jsmn_close pos type st = Inr st'"
    | type a b where "jsmn_fill num type a b st = Inr st'" | "toks st' = toks st"
    by (auto simp: jsmn_char_def split: if_splits sum.splits)
  then show "length (toks st') \<le> Suc (length (toks st))"
    by cases (auto dest: open_fill_tokens close_tokens(1))
next
  assume "jsmn_char num pos c js st = Inl JSMN_ERROR_NOMEM"
  then consider type where "jsmn_open num pos type st = Inl JSMN_ERROR_NOMEM"
    | type a b where "jsmn_fill num type a b st = Inl JSMN_ERROR_NOMEM"
    by (auto simp: jsmn_char_def parse_errors map_sum_Inl close_tokens(2) split: if_splits sum.splits)
  then show "num \<le> length (toks st)"
    by cases (auto dest: open_fill_tokens)
qed

lemma char_space:
  assumes "jsmn_char num pos c js st \<noteq> Inl JSMN_ERROR_NOMEM" and "num \<le> num'"
  shows "jsmn_char num' pos c js st = jsmn_char num pos c js st"
proof -
  have alloc: "jsmn_alloc num' tok st = jsmn_alloc num tok st" if "jsmn_alloc num tok st \<noteq> Inl JSMN_ERROR_NOMEM" for tok
    using that assms(2) by (auto simp: jsmn_alloc_def split: if_splits)
  have "jsmn_open num' pos type st = jsmn_open num pos type st" if "jsmn_open num pos type st \<noteq> Inl JSMN_ERROR_NOMEM" for type
    using that alloc by (auto simp: jsmn_open_def split: sum.splits)
  moreover have "jsmn_fill num' type a b st = jsmn_fill num type a b st" if "jsmn_fill num type a b st \<noteq> Inl JSMN_ERROR_NOMEM" for type a b
    using that alloc by (auto simp: jsmn_fill_def split: sum.splits)
  ultimately show ?thesis using assms(1)
    by (auto simp: jsmn_char_def split: sum.splits if_splits)
qed

lemma loop_enough:
  "length (toks st) + length js \<le> num \<Longrightarrow> jsmn_loop num pos js st \<noteq> Inl JSMN_ERROR_NOMEM"
proof (induction num pos js st rule: jsmn_loop.induct)
  case (2 num pos c js st)
  show ?case
  proof (cases "jsmn_char num pos c js st")
    case (Inl e)
    with 2(2) char_tokens(2) [of num pos c js st] show ?thesis by auto
  next
    case (Inr r)
    obtain n st' where r: "r = (n, st')" by (cases r)
    have "length (toks st') + length (drop n js) \<le> num"
      using char_tokens(1) [of num pos c js st n st'] Inr r 2(2) by simp
    with 2(1) [OF _ Inr r [symmetric]] Inr r show ?thesis by simp
  qed
qed simp

lemma loop_space:
  "jsmn_loop num pos js st \<noteq> Inl JSMN_ERROR_NOMEM \<Longrightarrow> num \<le> num' \<Longrightarrow> jsmn_loop num' pos js st = jsmn_loop num pos js st"
proof (induction num pos js st rule: jsmn_loop.induct)
  case (2 num pos c js st)
  show ?case
  proof (cases "c = CHR 0x00")
    case False
    then have "jsmn_char num pos c js st \<noteq> Inl JSMN_ERROR_NOMEM" using 2(2) by auto
    then have "jsmn_char num' pos c js st = jsmn_char num pos c js st" using 2(3) by (rule char_space)
    with 2 False show ?thesis by (auto split: sum.splits prod.splits)
  qed simp
qed simp

lemma parse_enough: "length js \<le> num \<Longrightarrow> jsmn_parse num js \<noteq> Inl JSMN_ERROR_NOMEM"
  using loop_enough [of jsmn_init js num 0] by (auto simp: jsmn_parse_def jsmn_init_def split: sum.splits)

lemma parse_space:
  "jsmn_parse num js \<noteq> Inl JSMN_ERROR_NOMEM \<Longrightarrow> num \<le> num' \<Longrightarrow> jsmn_parse num' js = jsmn_parse num js"
  using loop_space [of num 0 js jsmn_init num'] by (auto simp: jsmn_parse_def split: sum.splits)

end
