(* ===== verification/Json_Value.thy ===== *)
theory Json_Value
  imports Jsmn
begin

text \<open>
  The document model \<^verbatim>\<open>src/src/common/ltsm_json_wrapper.cpp\<close>: values and their conversions, objects and
  arrays, their texts, the values that are built from the tokens of a text, and the streams that write
  JSON piece by piece. The members of an object are listed in the order in which its map is
  iterated; the model appends new members, the program's map may put them anywhere.
\<close>

section \<open>Values\<close>

datatype json_type = NullType | IntegerType | DoubleType | StringType | BooleanType | ObjectType | ArrayType

datatype 'd json =
    JsonNull
  | JsonInteger u32
  | JsonDouble 'd
  | JsonString string
  | JsonBoolean bool
  | JsonObject "(string \<times> 'd json) list"
  | JsonArray "'d json list"

text \<open>
  The numbers of the library's type \<open>double\<close>: \<open>std::to_string\<close>, \<open>std::stod\<close>, the conversions to and from
  \<open>int\<close> (undefined behaviour outside of its range) and the test against zero.
\<close>

record 'd doubles =
  d_to_string :: "'d \<Rightarrow> string"
  d_stod :: "string \<Rightarrow> 'd res"
  d_trunc :: "'d \<Rightarrow> u32 res"
  d_of_int :: "u32 \<Rightarrow> 'd"
  d_nonzero :: "'d \<Rightarrow> bool"

definition jv_getType :: "'d json \<Rightarrow> json_type" where
  "jv_getType jv = (case jv of
       JsonNull \<Rightarrow> NullType | JsonInteger _ \<Rightarrow> IntegerType | JsonDouble _ \<Rightarrow> DoubleType | JsonString _ \<Rightarrow> StringType
     | JsonBoolean _ \<Rightarrow> BooleanType | JsonObject _ \<Rightarrow> ObjectType | JsonArray _ \<Rightarrow> ArrayType)"

text \<open>A call that turns \<open>std::invalid_argument\<close> into a default; other exceptions pass.\<close>

definition or_default :: "'a \<Rightarrow> 'a res \<Rightarrow> 'a res" where
  "or_default d r = (case r of Inl InvalidArgument \<Rightarrow> Inr d | _ \<Rightarrow> r)"

definition starts_with :: "string \<Rightarrow> string \<Rightarrow> bool" where
  "starts_with str pred = (take (length pred) str = pred)"

definition string_getBoolean :: "string \<Rightarrow> bool res" where
  "string_getBoolean content =
     (if starts_with content ''fals'' then Inr False
      else if starts_with content ''true'' then Inr True
      else or_default False (rbind (stoi content) (\<lambda>n. Inr (n \<noteq> 0))))"

definition jv_getInteger :: "'d doubles \<Rightarrow> 'd json \<Rightarrow> u32 res" where
  "jv_getInteger ops jv = (case jv of
       JsonInteger n \<Rightarrow> Inr n | JsonDouble d \<Rightarrow> d_trunc ops d | JsonString s \<Rightarrow> or_default 0 (stoi s)
     | JsonBoolean b \<Rightarrow> Inr (if b then 1 else 0) | _ \<Rightarrow> Inr 0)"

definition jv_getDouble :: "'d doubles \<Rightarrow> 'd json \<Rightarrow> 'd res" where
  "jv_getDouble ops jv = (case jv of
       JsonInteger n \<Rightarrow> Inr (d_of_int ops n) | JsonDouble d \<Rightarrow> Inr d
     | JsonString s \<Rightarrow> or_default (d_of_int ops 0) (d_stod ops s)
     | JsonBoolean b \<Rightarrow> Inr (d_of_int ops (if b then 1 else 0)) | _ \<Rightarrow> Inr (d_of_int ops 0))"

definition jv_getBoolean :: "'d doubles \<Rightarrow> 'd json \<Rightarrow> bool res" where
  "jv_getBoolean ops jv = (case jv of
       JsonInteger n \<Rightarrow> Inr (n \<noteq> 0) | JsonDouble d \<Rightarrow> Inr (d_nonzero ops d) | JsonString s \<Rightarrow> string_getBoolean s
     | JsonBoolean b \<Rightarrow> Inr b | _ \<Rightarrow> Inr False)"

fun jv_toString :: "'d doubles \<Rightarrow> 'd json \<Rightarrow> string"
  and array_items :: "'d doubles \<Rightarrow> 'd json list \<Rightarrow> string"
  and object_items :: "'d doubles \<Rightarrow> (string \<times> 'd json) list \<Rightarrow> string" where
  "jv_toString ops JsonNull = ''null''"
| "jv_toString ops (JsonInteger n) = to_string n"
| "jv_toString ops (JsonDouble d) = d_to_string ops d"
| "jv_toString ops (JsonString s) = escaped s True"
| "jv_toString ops (JsonBoolean b) = (if b then ''true'' else ''false'')"
| "jv_toString ops (JsonObject ms) = ''{ '' @ object_items ops ms @ '' }''"
| "jv_toString ops (JsonArray vs) = ''[ '' @ array_items ops vs @ '' ]''"
| "array_items ops [] = []"
| "array_items ops (v # vs) = jv_toString ops v @ (if vs = [] then [] else '', '') @ array_items ops vs"
| "object_items ops [] = []"
| "object_items ops ((k, v) # ms) =
     escaped k True @ '': '' @ jv_toString ops v @ (if ms = [] then [] else '', '') @ object_items ops ms"

definition jv_getString :: "'d doubles \<Rightarrow> 'd json \<Rightarrow> string" where
  "jv_getString ops jv = (case jv of
       JsonNull \<Rightarrow> [] | JsonInteger n \<Rightarrow> to_string n | JsonDouble d \<Rightarrow> d_to_string ops d | JsonString s \<Rightarrow> s
     | JsonBoolean b \<Rightarrow> (if b then ''true'' else ''false'') | _ \<Rightarrow> escaped (jv_toString ops jv) False)"

section \<open>Objects\<close>

type_synonym 'd members = "(string \<times> 'd json) list"

definition obj_getValue :: "string \<Rightarrow> 'd members \<Rightarrow> 'd json option" where
  "obj_getValue key content = map_of content key"

definition obj_hasKey :: "string \<Rightarrow> 'd members \<Rightarrow> bool" where
  "obj_hasKey key content = (obj_getValue key content \<noteq> None)"

definition obj_keys :: "'d members \<Rightarrow> string list" where
  "obj_keys content = map fst content"

definition obj_isNull :: "string \<Rightarrow> 'd members \<Rightarrow> bool" where
  "obj_isNull key content = (case obj_getValue key content of None \<Rightarrow> True | Some jv \<Rightarrow> jv_getType jv = NullType)"

text \<open>\<open>isBoolean\<close>, \<open>isInteger\<close>, \<open>isDouble\<close>, \<open>isString\<close>, \<open>isObject\<close> and \<open>isArray\<close> of a key.\<close>

definition obj_isType :: "json_type \<Rightarrow> string \<Rightarrow> 'd members \<Rightarrow> bool" where
  "obj_isType type key content =
     (case obj_getValue key content of None \<Rightarrow> False | Some jv \<Rightarrow> jv_getType jv = type)"

definition obj_getType :: "string \<Rightarrow> 'd members \<Rightarrow> json_type" where
  "obj_getType key content = (case obj_getValue key content of None \<Rightarrow> NullType | Some jv \<Rightarrow> jv_getType jv)"

definition obj_getInteger :: "'d doubles \<Rightarrow> string \<Rightarrow> u32 \<Rightarrow> 'd members \<Rightarrow> u32 res" where
  "obj_getInteger ops key def content =
     (case obj_getValue key content of None \<Rightarrow> Inr def | Some jv \<Rightarrow> jv_getInteger ops jv)"

definition obj_getString :: "'d doubles \<Rightarrow> string \<Rightarrow> string \<Rightarrow> 'd members \<Rightarrow> string" where
  "obj_getString ops key def content =
     (case obj_getValue key content of None \<Rightarrow> def | Some jv \<Rightarrow> jv_getString ops jv)"

definition obj_getDouble :: "'d doubles \<Rightarrow> string \<Rightarrow> 'd \<Rightarrow> 'd members \<Rightarrow> 'd res" where
  "obj_getDouble ops key def content =
     (case obj_getValue key content of None \<Rightarrow> Inr def | Some jv \<Rightarrow> jv_getDouble ops jv)"

definition obj_getBoolean :: "'d doubles \<Rightarrow> string \<Rightarrow> bool \<Rightarrow> 'd members \<Rightarrow> bool res" where
  "obj_getBoolean ops key def content =
     (case obj_getValue key content of None \<Rightarrow> Inr def | Some jv \<Rightarrow> jv_getBoolean ops jv)"

definition obj_getObject :: "string \<Rightarrow> 'd members \<Rightarrow> 'd members option" where
  "obj_getObject key content = (case obj_getValue key content of Some (JsonObject ms) \<Rightarrow> Some ms | _ \<Rightarrow> None)"

definition obj_getArray :: "string \<Rightarrow> 'd members \<Rightarrow> 'd json list option" where
  "obj_getArray key content = (case obj_getValue key content of Some (JsonArray vs) \<Rightarrow> Some vs | _ \<Rightarrow> None)"

text \<open>\<open>addValue\<close> of every type: a member that is there gets the value, else it is added.\<close>

definition obj_addValue :: "string \<Rightarrow> 'd json \<Rightarrow> 'd members \<Rightarrow> 'd members" where
  "obj_addValue key val content =
     (if obj_hasKey key content then map (\<lambda>(k, v). (k, if k = key then val else v)) content
      else content @ [(key, val)])"

definition obj_emplace :: "string \<Rightarrow> 'd json \<Rightarrow> 'd members \<Rightarrow> 'd members" where
  "obj_emplace key val content = (if obj_hasKey key content then content else content @ [(key, val)])"

definition obj_removeKey :: "string \<Rightarrow> 'd members \<Rightarrow> 'd members" where
  "obj_removeKey key content = filter (\<lambda>(k, v). k \<noteq> key) content"

text \<open>
  \<open>join\<close> puts a whole array into the array that is there. For an object it asks whether the member that is there is an
  array and then takes it for an object, which is undefined behaviour.
\<close>

definition join_member :: "string \<Rightarrow> 'd json \<Rightarrow> 'd members \<Rightarrow> 'd members res" where
  "join_member key val content =
     (case val of
        JsonArray _ \<Rightarrow>
          (case obj_getValue key content of
             Some (JsonArray vs) \<Rightarrow> Inr (obj_addValue key (JsonArray (vs @ [val])) content)
           | _ \<Rightarrow> Inr (obj_emplace key val content))
      | JsonObject _ \<Rightarrow>
          (case obj_getValue key content of
             Some (JsonArray _) \<Rightarrow> Inl MemoryFault
           | _ \<Rightarrow> Inr (obj_emplace key val content))
      | _ \<Rightarrow> Inr (obj_addValue key val content))"

primrec obj_join :: "'d members \<Rightarrow> 'd members \<Rightarrow> 'd members res" where
  "obj_join [] content = Inr content"
| "obj_join (m # jo) content = rbind (join_member (fst m) (snd m) content) (obj_join jo)"

section \<open>Arrays\<close>

definition arr_getValue :: "nat \<Rightarrow> 'd json list \<Rightarrow> 'd json option" where
  "arr_getValue index content = (if index < length content then Some (content ! index) else None)"

definition arr_getInteger :: "'d doubles \<Rightarrow> nat \<Rightarrow> 'd json list \<Rightarrow> u32 res" where
  "arr_getInteger ops index content =
     (if index < length content then jv_getInteger ops (content ! index) else Inr 0)"

definition arr_getString :: "'d doubles \<Rightarrow> nat \<Rightarrow> 'd json list \<Rightarrow> string" where
  "arr_getString ops index content =
     (if index < length content then jv_getString ops (content ! index) else [])"

definition arr_getDouble :: "'d doubles \<Rightarrow> nat \<Rightarrow> 'd json list \<Rightarrow> 'd res" where
  "arr_getDouble ops index content =
     (if index < length content then jv_getDouble ops (content ! index) else Inr (d_of_int ops 0))"

definition arr_getBoolean :: "'d doubles \<Rightarrow> nat \<Rightarrow> 'd json list \<Rightarrow> bool res" where
  "arr_getBoolean ops index content =
     (if index < length content then jv_getBoolean ops (content ! index) else Inr False)"

definition arr_getObject :: "nat \<Rightarrow> 'd json list \<Rightarrow> 'd members option" where
  "arr_getObject index content = (case arr_getValue index content of Some (JsonObject ms) \<Rightarrow> Some ms | _ \<Rightarrow> None)"

definition arr_getArray :: "nat \<Rightarrow> 'd json list \<Rightarrow> 'd json list option" where
  "arr_getArray index content = (case arr_getValue index content of Some (JsonArray vs) \<Rightarrow> Some vs | _ \<Rightarrow> None)"

text \<open>\<open>addInteger\<close>, \<open>addString\<close>, \<open>addDouble\<close>, \<open>addBoolean\<close>, \<open>addArray\<close>, \<open>addObject\<close>.\<close>

definition arr_add :: "'d json \<Rightarrow> 'd json list \<Rightarrow> 'd json list" where
  "arr_add val content = content @ [val]"

section \<open>Contents\<close>

record jsoncontent =
  jc_tokens :: "jsmntok list"
  jc_content :: string

text \<open>The tokens of a text, with room for 128 more in every round; \<open>None\<close> when the rounds do not suffice.\<close>

primrec parse_rounds :: "nat \<Rightarrow> nat \<Rightarrow> string \<Rightarrow> (jsmn_error + jsmntok list) option" where
  "parse_rounds 0 room str = None"
| "parse_rounds (Suc n) room str =
     (case jsmn_parse (room + 128) str of
        Inl JSMN_ERROR_NOMEM \<Rightarrow> parse_rounds n (room + 128) str
      | r \<Rightarrow> Some r)"

definition json_parse :: "string \<Rightarrow> (jsmn_error + jsmntok list) option" where
  "json_parse str = parse_rounds (length str div 128 + 1) 0 str"

definition jsonContentString :: "string \<Rightarrow> jsoncontent" where
  "jsonContentString str =
     (case json_parse str of
        Some (Inr ts) \<Rightarrow> \<lparr>jc_tokens = ts, jc_content = str\<rparr>
      | _ \<Rightarrow> \<lparr>jc_tokens = [], jc_content = []\<rparr>)"

definition stringToken :: "string \<Rightarrow> jsmntok \<Rightarrow> string" where
  "stringToken content tok =
     (if 0 \<le> tok_start tok \<and> tok_start tok < tok_end tok
      then take (nat (tok_end tok - tok_start tok)) (drop (nat (tok_start tok)) content)
      else [])"

definition getValuePrimitive :: "'d doubles \<Rightarrow> string \<Rightarrow> 'd json res" where
  "getValuePrimitive ops val =
     (case (if list_ex (\<lambda>c. c = CHR ''.'') val then rbind (d_stod ops val) (\<lambda>d. Inr (JsonDouble d))
            else rbind (stoi val) (\<lambda>n. Inr (JsonInteger n))) of
        Inl InvalidArgument \<Rightarrow>
          if starts_with (lower val) ''fals'' then Inr (JsonBoolean False)
          else if starts_with (lower val) ''true'' then Inr (JsonBoolean True)
          else Inr JsonNull
      | r \<Rightarrow> r)"

text \<open>
  The value that starts with the first of the tokens, and how many tokens it takes; then the values of an
  array and the members of an object, as many as the token says or there are.
\<close>

function (sequential) getValueFromIter :: "'d doubles \<Rightarrow> string \<Rightarrow> jsmntok list \<Rightarrow> ('d json \<times> nat) res"
  and pushValuesToArray :: "'d doubles \<Rightarrow> string \<Rightarrow> nat \<Rightarrow> jsmntok list \<Rightarrow> ('d json list \<times> nat) res"
  and pushValuesToObject :: "'d doubles \<Rightarrow> string \<Rightarrow> nat \<Rightarrow> jsmntok list \<Rightarrow> 'd members \<Rightarrow> ('d members \<times> nat) res" where
  "getValueFromIter ops content [] = Inl MemoryFault"
| "getValueFromIter ops content (tok # ts) =
     (if tok_type tok = JSMN_ARRAY then
        rbind (pushValuesToArray ops content (tok_size tok) ts) (\<lambda>(vs, k). Inr (JsonArray vs, 1 + k))
      else if tok_type tok = JSMN_OBJECT then
        rbind (pushValuesToObject ops content (tok_size tok) ts []) (\<lambda>(ms, k). Inr (JsonObject ms, 1 + k))
      else if tok_type tok = JSMN_PRIMITIVE then
        rbind (getValuePrimitive ops (stringToken content tok)) (\<lambda>v. Inr (v, 1))
      else Inr (JsonString (unescaped (stringToken content tok)), 1))"
| "pushValuesToArray ops content 0 ts = Inr ([], 0)"
| "pushValuesToArray ops content (Suc n) [] = Inr ([], 0)"
| "pushValuesToArray ops content (Suc n) ts =
     rbind (getValueFromIter ops content ts) (\<lambda>(v, k).
     rbind (pushValuesToArray ops content n (drop k ts)) (\<lambda>(vs, m). Inr (v # vs, k + m)))"
| "pushValuesToObject ops content 0 ts obj = Inr (obj, 0)"
| "pushValuesToObject ops content (Suc n) [] obj = Inr (obj, 0)"
| "pushValuesToObject ops content (Suc n) [key] obj = Inr (obj, 0)"
| "pushValuesToObject ops content (Suc n) (key # tok # ts) obj =
     rbind (getValueFromIter ops content (tok # ts)) (\<lambda>(v, k).
     rbind (pushValuesToObject ops content n (drop k (tok # ts))
         (obj_addValue (unescaped (stringToken content key)) v obj)) (\<lambda>(ms, m). Inr (ms, 1 + k + m)))"
  by pat_completeness auto
termination
  by (relation "inv_image (less_than <*lex*> less_than) (\<lambda>x. case x of
        Inl (_, _, ts) \<Rightarrow> (length ts, 0)
      | Inr (Inl (_, _, n, ts)) \<Rightarrow> (length ts, Suc n)
      | Inr (Inr (_, _, n, ts, _)) \<Rightarrow> (length ts, Suc n))") auto

definition toObject :: "'d doubles \<Rightarrow> jsoncontent \<Rightarrow> 'd members res" where
  "toObject ops jc =
     (case jc_tokens jc of
        tok # ts \<Rightarrow>
          if tok_type tok = JSMN_OBJECT
          then rbind (pushValuesToObject ops (jc_content jc) (tok_size tok) ts []) (\<lambda>(ms, _). Inr ms)
          else Inl RuntimeError
      | [] \<Rightarrow> Inl RuntimeError)"

definition toArray :: "'d doubles \<Rightarrow> jsoncontent \<Rightarrow> 'd json list res" where
  "toArray ops jc =
     (case jc_tokens jc of
        tok # ts \<Rightarrow>
          if tok_type tok = JSMN_ARRAY
          then rbind (pushValuesToArray ops (jc_content jc) (tok_size tok) ts) (\<lambda>(vs, _). Inr vs)
          else Inl RuntimeError
      | [] \<Rightarrow> Inl RuntimeError)"

section \<open>Streams\<close>

text \<open>What is pushed into a stream: \<open>StreamPlain\<close> is a value whose text goes in as it is.\<close>

datatype stream_value =
    StreamNull
  | StreamBoolean bool
  | StreamString string
  | StreamInteger int
  | StreamPlain string

definition int_text :: "int \<Rightarrow> string" where
  "int_text i = (if i < 0 then CHR ''-'' # to_digits (nat (- i)) else to_digits (nat i))"

definition stream_text :: "stream_value \<Rightarrow> string" where
  "stream_text v = (case v of
       StreamNull \<Rightarrow> ''null'' | StreamBoolean b \<Rightarrow> (if b then ''true'' else ''false'')
     | StreamString s \<Rightarrow> std_quoted s | StreamInteger i \<Rightarrow> int_text i | StreamPlain s \<Rightarrow> s)"

type_synonym json_stream = "string \<times> bool"

definition jsonObjectStream :: json_stream where
  "jsonObjectStream = (''{'', False)"

definition object_push :: "string \<Rightarrow> stream_value \<Rightarrow> json_stream \<Rightarrow> json_stream" where
  "object_push key v = (\<lambda>(os, comma). (os @ (if comma then '','' else []) @ std_quoted key @ '':'' @ stream_text v, True))"

definition object_flush :: "json_stream \<Rightarrow> string" where
  "object_flush st = fst st @ ''}''"

definition jsonArrayStream :: json_stream where
  "jsonArrayStream = (''['', False)"

definition array_push_text :: "string \<Rightarrow> json_stream \<Rightarrow> json_stream" where
  "array_push_text t = (\<lambda>(os, comma). (os @ (if comma then '','' else []) @ t, True))"

text \<open>
  A range: its values are pushed one by one, after a comma of its own. A \<open>json_plain\<close> is a range too, of its
  characters, and a character is pushed as its number.
\<close>

definition array_push_each :: "('a \<Rightarrow> json_stream \<Rightarrow> json_stream) \<Rightarrow> 'a list \<Rightarrow> json_stream \<Rightarrow> json_stream" where
  "array_push_each push vs = (\<lambda>(os, comma). (fst (fold push vs (os @ (if comma then '','' else []), False)), True))"

definition char_int :: "char \<Rightarrow> int" where
  "char_int ch = (let n = of_char ch :: int in if n < 128 then n else n - 256)"

definition array_push :: "stream_value \<Rightarrow> json_stream \<Rightarrow> json_stream" where
  "array_push v = (case v of
       StreamPlain s \<Rightarrow> array_push_each (\<lambda>ch. array_push_text (int_text (char_int ch))) s
     | _ \<Rightarrow> array_push_text (stream_text v))"

definition array_push_range :: "stream_value list \<Rightarrow> json_stream \<Rightarrow> json_stream" where
  "array_push_range vs = array_push_each array_push vs"

definition array_flush :: "json_stream \<Rightarrow> string" where
  "array_flush st = fst st @ '']''"

end
