(* ===== verification/Channel_Url.thy ===== *)
theory Channel_Url
  imports Json_Value
begin

text \<open>
  The names of \<^verbatim>\<open>src/src/channels/channel_system.cpp\<close>: types, modes and speeds of connectors with their strings,
  URLs, addresses with ports, and what is planned for a channel.
\<close>

section \<open>Types, modes and speeds\<close>

datatype connectorType =
    TypeUnknown | TypeUnix | TypeSocket | TypeFile | TypeCommand | TypeFuse | TypeAudio | TypePcsc | TypePkcs11

datatype connectorMode = ModeUnknown | ReadOnly | ReadWrite | WriteOnly

datatype speed = VerySlow | Slow | Medium | Fast | UltraFast | Ultra5

definition typeString :: "connectorType \<Rightarrow> string" where
  "typeString t = (case t of
       TypeUnix \<Rightarrow> ''unix'' | TypeFile \<Rightarrow> ''file'' | TypeSocket \<Rightarrow> ''socket'' | TypeCommand \<Rightarrow> ''command''
     | TypeFuse \<Rightarrow> ''fuse'' | TypeAudio \<Rightarrow> ''audio'' | TypePcsc \<Rightarrow> ''pcsc'' | TypePkcs11 \<Rightarrow> ''pkcs11''
     | TypeUnknown \<Rightarrow> ''unknown'')"

definition modeString :: "connectorMode \<Rightarrow> string" where
  "modeString m = (case m of
       ReadWrite \<Rightarrow> ''rw'' | ReadOnly \<Rightarrow> ''ro'' | WriteOnly \<Rightarrow> ''wo'' | ModeUnknown \<Rightarrow> ''unknown'')"

definition speedString :: "speed \<Rightarrow> string" where
  "speedString s = (case s of
       Slow \<Rightarrow> ''slow'' | Medium \<Rightarrow> ''medium'' | Fast \<Rightarrow> ''fast'' | UltraFast \<Rightarrow> ''ultra'' | Ultra5 \<Rightarrow> ''ultra5''
     | VerySlow \<Rightarrow> ''very'')"

text \<open>The first of the listed values whose name is the string.\<close>

definition named :: "('a \<Rightarrow> string) \<Rightarrow> 'a list \<Rightarrow> 'a \<Rightarrow> string \<Rightarrow> 'a" where
  "named name vals def str = (case find (\<lambda>v. str = name v) vals of Some v \<Rightarrow> v | None \<Rightarrow> def)"

definition connectorType_of :: "string \<Rightarrow> connectorType" where
  "connectorType_of = named typeString
     [TypeUnix, TypeSocket, TypeFile, TypeCommand, TypeFuse, TypeAudio, TypePcsc, TypePkcs11] TypeUnknown"

definition connectorMode_of :: "string \<Rightarrow> connectorMode" where
  "connectorMode_of = named modeString [ReadOnly, ReadWrite, WriteOnly] ModeUnknown"

definition connectorSpeed :: "string \<Rightarrow> speed" where
  "connectorSpeed = named speedString [VerySlow, Slow, Medium, Fast, UltraFast, Ultra5] VerySlow"

section \<open>URLs\<close>

definition createUrl :: "connectorType \<Rightarrow> string \<Rightarrow> string" where
  "createUrl t body = typeString t @ ''://'' @ body"

definition parseUrl :: "string \<Rightarrow> connectorType \<times> string" where
  "parseUrl url =
     (if starts_with url ''file://'' then (TypeFile, drop 7 url)
      else if starts_with url ''unix://'' then (TypeUnix, drop 7 url)
      else if starts_with url ''sock://'' then (TypeSocket, drop 7 url)
      else if starts_with url ''socket://'' then (TypeSocket, drop 9 url)
      else if starts_with url ''cmd://'' then (TypeCommand, drop 6 url)
      else if starts_with url ''command://'' then (TypeCommand, drop 10 url)
      else if starts_with url ''fuse://'' then (TypeFuse, drop 7 url)
      else if starts_with url ''audio://'' then (TypeAudio, drop 8 url)
      else if starts_with url ''pcsc://'' then (TypePcsc, drop 7 url)
      else if starts_with url ''pkcs11://'' then (TypePkcs11, drop 9 url)
      else (TypeUnknown, url))"

text \<open>\<open>Tools::split\<close> at a character; empty parts are left out.\<close>

fun split_parts :: "char \<Rightarrow> string \<Rightarrow> string list" where
  "split_parts sep [] = [[]]"
| "split_parts sep (c # str) =
     (if c = sep then [] # split_parts sep str
      else case split_parts sep str of p # ps \<Rightarrow> (c # p) # ps | [] \<Rightarrow> [[c]])"

definition tools_split :: "char \<Rightarrow> string \<Rightarrow> string list" where
  "tools_split sep str = filter (\<lambda>p. p \<noteq> []) (split_parts sep str)"

text \<open>
  Address and port; \<open>resolv\<close> is the resolver of host names. The octets of a numeric address are only checked
  for a message in the log: the address that is returned then is the default.
\<close>

definition parseAddrPort :: "(string \<Rightarrow> string) \<Rightarrow> string \<Rightarrow> string \<times> u32" where
  "parseAddrPort resolv addrPort =
     (let parts = tools_split (CHR '':'') addrPort;
          addr = ''127.0.0.1''
      in if length parts \<noteq> 2 then (addr, - 1)
         else
           let addr2 = resolv (hd parts);
               addr' = (if length (tools_split (CHR ''.'') (hd parts)) = 4 then addr
                        else if addr2 = [] then addr else addr2);
               port = (case stoi_decimal (last parts) of Inl _ \<Rightarrow> - 1 | Inr n \<Rightarrow> n)
           in (addr', port))"

section \<open>Options and plans\<close>

record urlmode =
  um_type :: connectorType
  um_content :: string
  um_mode :: connectorMode
  um_url :: string

definition urlMode_of_url :: "string \<Rightarrow> string \<Rightarrow> urlmode" where
  "urlMode_of_url str md =
     \<lparr>um_type = fst (parseUrl str), um_content = snd (parseUrl str), um_mode = connectorMode_of md, um_url = str\<rparr>"

definition urlMode_of_type :: "connectorType \<Rightarrow> string \<Rightarrow> connectorMode \<Rightarrow> urlmode" where
  "urlMode_of_type t body md = \<lparr>um_type = t, um_content = body, um_mode = md, um_url = createUrl t body\<rparr>"

text \<open>The flags \<open>ZLibCompression\<close> and \<open>AllowLoginSession\<close> are the bits 0 and 1.\<close>

record chan_opts =
  opt_speed :: speed
  opt_flags :: u32

definition default_opts :: chan_opts where
  "default_opts = \<lparr>opt_speed = Medium, opt_flags = 0\<rparr>"

record planned =
  pl_serverOpts :: urlmode
  pl_clientOpts :: urlmode
  pl_chOpts :: chan_opts
  pl_serverFd :: int
  pl_channel :: u8

section \<open>Names and values\<close>

lemma type_name [simp]: "connectorType_of (typeString t) = t"
  by (cases t) (simp_all only:, code_simp+)

lemma mode_name [simp]: "connectorMode_of (modeString m) = m"
  by (cases m) (simp_all only:, code_simp+)

lemma speed_name [simp]: "connectorSpeed (speedString s) = s"
  by (cases s) (simp_all only:, code_simp+)

lemma url_parts: "t \<noteq> TypeUnknown \<Longrightarrow> parseUrl (createUrl t body) = (t, body)"
  by (cases t) (simp_all add: parseUrl_def createUrl_def typeString_def starts_with_def)

lemma url_unknown: "parseUrl (createUrl TypeUnknown body) = (TypeUnknown, createUrl TypeUnknown body)"
  by (simp add: parseUrl_def createUrl_def typeString_def starts_with_def)

lemma split_parts_nonempty [simp]: "split_parts sep str \<noteq> []"
  by (cases str) (simp_all split: list.split)

lemma split_parts_plain: "sep \<notin> set str \<Longrightarrow> split_parts sep str = [str]"
  by (induction str) auto

lemma split_parts_append: "sep \<notin> set a \<Longrightarrow> split_parts sep (a @ sep # b) = a # split_parts sep b"
  by (induction a) auto

lemma split_parts_concat:
  "concat (map (\<lambda>p. sep # p) (split_parts sep str)) = sep # str"
proof (induction str)
  case (Cons c str)
  then show ?case by (cases "split_parts sep str") auto
qed simp

end
