(* ===== verification/Channel_Streams.thy ===== *)
theory Channel_Streams
  imports Channel_Url Ext_Clip
begin

text \<open>
  The two directions of a channel, \<open>Local2Remote\<close> and \<open>Remote2Local\<close> of \<^verbatim>\<open>src/src/channels/channel_system.cpp\<close>, over
  a file descriptor. What the system calls answer is an argument of every method that makes them.
\<close>

section \<open>From the descriptor to the peer\<close>

definition "EAGAIN = (11 :: u32)"
definition "EINTR = (4 :: u32)"

text \<open>
  The answers to one round of calls: \<open>hasInput\<close> and \<open>hasData\<close> (with the \<open>errno\<close> of an exception), and \<open>read\<close>, which
  gives at most as many bytes as are asked for, none at the end.
\<close>

datatype sys_read = ReadBytes bytes | ReadFailed u32

record read_calls =
  rd_input :: "bool res"
  rd_data :: "nat res"
  rd_errno :: u32
  rd_read :: "nat \<Rightarrow> sys_read"

record local2remote =
  l2r_delay :: nat
  l2r_buf :: bytes
  l2r_transfer1 :: u64
  l2r_transfer2 :: u64
  l2r_blocksz :: nat
  l2r_error :: u32
  l2r_cid :: u8
  l2r_zlib :: bool
  l2r_fd :: int
  l2r_needClose :: bool

definition has_zlib :: "u32 \<Rightarrow> bool" where
  "has_zlib flags = (1 AND flags \<noteq> 0)"

definition local2Remote_FD :: "u8 \<Rightarrow> int \<Rightarrow> bool \<Rightarrow> u32 \<Rightarrow> local2remote" where
  "local2Remote_FD cid fd close flags =
     \<lparr>l2r_delay = 100, l2r_buf = [], l2r_transfer1 = 0, l2r_transfer2 = 0, l2r_blocksz = 4096, l2r_error = 0,
      l2r_cid = cid, l2r_zlib = has_zlib flags, l2r_fd = fd, l2r_needClose = close\<rparr>"

definition l2r_setSpeed :: "speed \<Rightarrow> local2remote \<Rightarrow> local2remote" where
  "l2r_setSpeed s st = (case s of
       VerySlow \<Rightarrow> st\<lparr>l2r_blocksz := 8192, l2r_delay := 200\<rparr>
     | Slow \<Rightarrow> st\<lparr>l2r_blocksz := 16384, l2r_delay := 100\<rparr>
     | Medium \<Rightarrow> st\<lparr>l2r_blocksz := 16384, l2r_delay := 70\<rparr>
     | Fast \<Rightarrow> st\<lparr>l2r_blocksz := 32768, l2r_delay := 40\<rparr>
     | UltraFast \<Rightarrow> st\<lparr>l2r_blocksz := 32768, l2r_delay := 20\<rparr>
     | Ultra5 \<Rightarrow> st\<lparr>l2r_blocksz := 32768, l2r_delay := 5\<rparr>)"

definition resize_bytes :: "nat \<Rightarrow> bytes \<Rightarrow> bytes" where
  "resize_bytes n buf = take n buf @ replicate (n - length buf) 0"

definition readData :: "zlib \<Rightarrow> read_calls \<Rightarrow> (local2remote, bool) exc" where
  "readData z rc st =
     (case rbind (rd_input rc) (\<lambda>input. if input then rd_data rc else Inr 0) of
        Inl _ \<Rightarrow> (Inr False, st\<lparr>l2r_error := rd_errno rc\<rparr>)
      | Inr dtsz \<Rightarrow>
          if dtsz = 0 then (Inr True, st\<lparr>l2r_buf := []\<rparr>)
          else
            let n = min dtsz (l2r_blocksz st);
                st = st\<lparr>l2r_buf := resize_bytes n (l2r_buf st)\<rparr>
            in case rd_read rc n of
                 ReadBytes bs \<Rightarrow>
                   if bs \<noteq> [] then
                     let st = st\<lparr>l2r_buf := bs, l2r_transfer1 := l2r_transfer1 st + of_nat (length bs)\<rparr>
                     in if l2r_zlib st then
                          case zl_deflate z bs of
                            Inl e \<Rightarrow> (Inl e, st)
                          | Inr buf \<Rightarrow> (Inr True, st\<lparr>l2r_buf := buf, l2r_transfer2 := l2r_transfer2 st + of_nat (length buf)\<rparr>)
                        else (Inr True, st\<lparr>l2r_transfer2 := l2r_transfer2 st + of_nat (length bs)\<rparr>)
                   else (Inr False, st)
               | ReadFailed e \<Rightarrow>
                   if e = EAGAIN \<or> e = EINTR then (Inr True, st\<lparr>l2r_buf := []\<rparr>)
                   else (Inr False, st\<lparr>l2r_error := e\<rparr>))"

section \<open>From the peer to the descriptor\<close>

text \<open>
  The answers of \<open>write\<close>: so many bytes, or none with an \<open>errno\<close>. \<open>r2l_out\<close> is what the descriptor has taken.
\<close>

datatype sys_write = Wrote nat | NotWrote u32

record remote2local =
  r2l_queueBufs :: "bytes list"
  r2l_delay :: nat
  r2l_transfer1 :: u64
  r2l_transfer2 :: u64
  r2l_error :: u32
  r2l_cid :: u8
  r2l_zlib :: bool
  r2l_fd :: int
  r2l_needClose :: bool
  r2l_out :: bytes

definition remote2Local_FD :: "u8 \<Rightarrow> int \<Rightarrow> bool \<Rightarrow> u32 \<Rightarrow> remote2local" where
  "remote2Local_FD cid fd close flags =
     \<lparr>r2l_queueBufs = [], r2l_delay = 100, r2l_transfer1 = 0, r2l_transfer2 = 0, r2l_error = 0,
      r2l_cid = cid, r2l_zlib = has_zlib flags, r2l_fd = fd, r2l_needClose = close, r2l_out = []\<rparr>"

definition r2l_setSpeed :: "speed \<Rightarrow> remote2local \<Rightarrow> remote2local" where
  "r2l_setSpeed s st = st\<lparr>r2l_delay := (case s of
       VerySlow \<Rightarrow> 200 | Slow \<Rightarrow> 100 | Medium \<Rightarrow> 70 | Fast \<Rightarrow> 40 | UltraFast \<Rightarrow> 20 | Ultra5 \<Rightarrow> 5)\<rparr>"

definition r2l_isEmpty :: "remote2local \<Rightarrow> bool" where
  "r2l_isEmpty st = (r2l_queueBufs st = [])"

definition r2l_pushData :: "bytes \<Rightarrow> remote2local \<Rightarrow> remote2local" where
  "r2l_pushData buf st = st\<lparr>r2l_queueBufs := r2l_queueBufs st @ [buf]\<rparr>"

definition popData :: "remote2local \<Rightarrow> bytes \<times> remote2local" where
  "popData st =
     (case r2l_queueBufs st of
        [] \<Rightarrow> ([], st)
      | buf # bufs \<Rightarrow>
          let delay = (if length (r2l_queueBufs st) > 10 \<and> r2l_delay st > 10 then r2l_delay st - 10 else r2l_delay st)
          in (buf, st\<lparr>r2l_delay := delay, r2l_queueBufs := bufs\<rparr>))"

text \<open>The loop of \<open>write\<close>; with no more answers the call waits, \<open>Diverges\<close>.\<close>

fun write_loop :: "bytes \<Rightarrow> sys_write list \<Rightarrow> (remote2local, bool) exc" where
  "write_loop [] ws st = (Inr True, st)"
| "write_loop buf [] st = (Inl Diverges, st)"
| "write_loop buf (Wrote n # ws) st =
     write_loop (drop n buf) ws
       (st\<lparr>r2l_out := r2l_out st @ take n buf, r2l_transfer2 := r2l_transfer2 st + of_nat (min n (length buf))\<rparr>)"
| "write_loop buf (NotWrote e # ws) st =
     (if e = EAGAIN \<or> e = EINTR then write_loop buf ws st else (Inr False, st\<lparr>r2l_error := e\<rparr>))"

definition writeData :: "zlib \<Rightarrow> sys_write list \<Rightarrow> (remote2local, bool) exc" where
  "writeData z ws st =
     (let (buf, st) = popData st
      in if buf = [] then (Inr True, st)
         else
           let st = st\<lparr>r2l_transfer1 := r2l_transfer1 st + of_nat (length buf)\<rparr>
           in if r2l_zlib st then
                case zl_inflate z buf of Inl e \<Rightarrow> (Inl e, st) | Inr buf \<Rightarrow> write_loop buf ws st
              else write_loop buf ws st)"

section \<open>Transport\<close>

text \<open>A descriptor that takes everything: its answers cover the bytes, between interruptions.\<close>

definition takes_all :: "nat \<Rightarrow> sys_write list \<Rightarrow> bool" where
  "takes_all n ws \<longleftrightarrow> list_all (\<lambda>w. case w of Wrote _ \<Rightarrow> True | NotWrote e \<Rightarrow> e = EAGAIN \<or> e = EINTR) ws \<and>
     n \<le> sum_list (map (\<lambda>w. case w of Wrote k \<Rightarrow> k | NotWrote _ \<Rightarrow> 0) ws)"

lemma write_loop_all:
  "takes_all (length buf) ws \<Longrightarrow> \<exists>t. write_loop buf ws st = (Inr True, st\<lparr>r2l_out := r2l_out st @ buf, r2l_transfer2 := t\<rparr>)"
proof (induction buf ws st rule: write_loop.induct)
  case (1 ws st)
  show ?case by (rule exI [of _ "r2l_transfer2 st"]) simp
next
  case (3 b buf n ws st)
  have "takes_all (length (drop n (b # buf))) ws" using 3(2) by (auto simp: takes_all_def)
  from 3(1) [OF this] show ?case by auto
qed (auto simp: takes_all_def)

lemma write_loop_prefix:
  "\<exists>k. r2l_out (snd (write_loop buf ws st)) = r2l_out st @ take k buf \<and>
     r2l_queueBufs (snd (write_loop buf ws st)) = r2l_queueBufs st \<and>
     (fst (write_loop buf ws st) = Inr True \<longrightarrow> length buf \<le> k)"
proof (induction buf ws st rule: write_loop.induct)
  case (3 b buf n ws st)
  then obtain k where k: "r2l_out (snd (write_loop (b # buf) (Wrote n # ws) st)) = r2l_out st @ take n (b # buf) @ take k (drop n (b # buf))"
      "r2l_queueBufs (snd (write_loop (b # buf) (Wrote n # ws) st)) = r2l_queueBufs st"
      "fst (write_loop (b # buf) (Wrote n # ws) st) = Inr True \<longrightarrow> length (drop n (b # buf)) \<le> k"
    by auto
  have "take n (b # buf) @ take k (drop n (b # buf)) = take (n + k) (b # buf)" by (rule take_add [symmetric])
  with k show ?case by (intro exI [of _ "n + k"]) auto
qed (auto intro: exI [of _ 0])

end
