(* ===== verification/Channel_System.thy ===== *)
theory Channel_System
  imports Channel_Streams
begin

text \<open>
  The channels of \<^verbatim>\<open>src/src/channels/channel_system.cpp\<close>: connectors with the threads that serve them, the client
  that owns them (\<open>ChannelClient\<close>), which is one of the bases of the RFB server and of the RFB client, and the
  listeners. A thread is a state of the connector; one round of its loop is one operation.
\<close>

section \<open>Connectors\<close>

text \<open>
  \<open>Device\<close> stands for the connectors of the client that serve a redirected device (\<open>Fuse\<close>, \<open>Audio\<close>, \<open>Pcsc\<close>, \<open>Pkcs11\<close>)
  with code of their own and no threads.
\<close>

datatype connectorKind = FD_R | FD_W | FD_RW | CMD_R | CMD_W | Device connectorType

text \<open>A thread that runs has the local variable \<open>error\<close>.\<close>

datatype thread = NoThread | Looping bool | Ended

record connector =
  cn_kind :: connectorKind
  cn_cid :: u8
  cn_mode :: connectorMode
  cn_flags :: u32
  loopRunning :: bool
  remoteConnected :: bool
  localRemote :: "local2remote option"
  remoteLocal :: "remote2local option"
  cn_reader :: thread
  cn_writer :: thread

definition has_reader :: "connectorKind \<Rightarrow> bool" where
  "has_reader k = (case k of FD_R \<Rightarrow> True | CMD_R \<Rightarrow> True | FD_RW \<Rightarrow> True | _ \<Rightarrow> False)"

definition has_writer :: "connectorKind \<Rightarrow> bool" where
  "has_writer k = (case k of FD_W \<Rightarrow> True | CMD_W \<Rightarrow> True | FD_RW \<Rightarrow> True | _ \<Rightarrow> False)"

text \<open>
  The constructors, all of which start with \<open>ConnectorBase\<close>: the descriptor of a command is not closed with
  the direction but with the command.
\<close>

definition connectorFD :: "connectorKind \<Rightarrow> u8 \<Rightarrow> int \<Rightarrow> chan_opts \<Rightarrow> connector" where
  "connectorFD kind ch fd opts =
     (let close = (case kind of CMD_R \<Rightarrow> False | CMD_W \<Rightarrow> False | _ \<Rightarrow> True) in
      \<lparr>cn_kind = kind, cn_cid = ch,
       cn_mode = (if has_reader kind then if has_writer kind then ReadWrite else ReadOnly else WriteOnly),
       cn_flags = opt_flags opts, loopRunning = True, remoteConnected = False,
       localRemote = (if has_reader kind
         then Some (l2r_setSpeed (opt_speed opts) (local2Remote_FD ch fd close (opt_flags opts))) else None),
       remoteLocal = (if has_writer kind
         then Some (r2l_setSpeed (opt_speed opts) (remote2Local_FD ch fd close (opt_flags opts))) else None),
       cn_reader = (if has_reader kind then Looping False else NoThread),
       cn_writer = (if has_writer kind then Looping False else NoThread)\<rparr>)"

definition connectorDevice :: "connectorType \<Rightarrow> u8 \<Rightarrow> connectorMode \<Rightarrow> chan_opts \<Rightarrow> connector" where
  "connectorDevice t ch md opts =
     \<lparr>cn_kind = Device t, cn_cid = ch, cn_mode = md, cn_flags = opt_flags opts, loopRunning = True,
      remoteConnected = False, localRemote = None, remoteLocal = None, cn_reader = NoThread, cn_writer = NoThread\<rparr>"

definition cn_channel :: "connector \<Rightarrow> u8" where
  "cn_channel c = (case cn_kind c of
       Device _ \<Rightarrow> cn_cid c
     | _ \<Rightarrow> (case remoteLocal c of Some st \<Rightarrow> r2l_cid st
            | None \<Rightarrow> (case localRemote c of Some st \<Rightarrow> l2r_cid st | None \<Rightarrow> 0)))"

definition cn_error :: "connector \<Rightarrow> u32" where
  "cn_error c =
     (let err1 = (case remoteLocal c of Some st \<Rightarrow> r2l_error st | None \<Rightarrow> 0);
          err2 = (case localRemote c of Some st \<Rightarrow> l2r_error st | None \<Rightarrow> 0)
      in if err1 \<noteq> 0 then err1 else err2)"

definition cn_setSpeed :: "speed \<Rightarrow> connector \<Rightarrow> connector" where
  "cn_setSpeed s c = c\<lparr>localRemote := map_option (l2r_setSpeed s) (localRemote c),
     remoteLocal := map_option (r2l_setSpeed s) (remoteLocal c)\<rparr>"

definition isAllowSessionFor :: "bool \<Rightarrow> connector \<Rightarrow> bool" where
  "isAllowSessionFor user c = (if cn_flags c AND 2 \<noteq> 0 then \<not> user else user)"

section \<open>The client of the channels\<close>

text \<open>
  A call of \<open>createChannel\<close> or \<open>createChannelAcceptFd\<close> that looks for a number: it asks for each number whether a channel has
  it, then whether a plan has it, enters its plan under the number it has found and tells the peer. Every one of these
  takes its lock and releases it, so that another thread may run between any two of them.
\<close>

datatype creating = LookChannel u8 | LookPlanned u8 | EnterPlan u8 | SendOpen u8

record creation =
  cr_copts :: urlmode
  cr_sopts :: urlmode
  cr_opts :: chan_opts
  cr_fd :: int
  cr_at :: creating

text \<open>\<open>ls_creating\<close>: the call of \<open>createChannelAcceptFd\<close> in which the thread of the listener is.\<close>

record listener =
  ls_sopts :: urlmode
  ls_copts :: urlmode
  ls_chopts :: chan_opts
  ls_srvfd :: int
  ls_running :: bool
  ls_creating :: "creation option"

text \<open>
  \<open>ch_sent\<close>: the calls of the virtual method \<open>sendLtsmChannelData\<close>, which queues a message for the peer;
  \<open>ch_closed\<close>: the descriptors given to \<open>close\<close>, in order; \<open>ch_device\<close>: data pushed to a device. \<open>ch_destroys\<close>: the
  detached threads of \<open>destroyChannel\<close> that have not started, \<open>ch_removing\<close>: the one that holds the lock of the
  channels; \<open>ch_creating\<close>: the calls of \<open>createChannel\<close> that have not returned.
\<close>

record chan_client =
  channels :: "connector list"
  channelsPlanned :: "planned list"
  chan_listeners :: "listener list"
  ch_debug :: int
  ch_sent :: "(u8 \<times> bytes) list"
  ch_closed :: "int list"
  ch_device :: "(u8 \<times> bytes) list"
  ch_destroys :: "u8 list"
  ch_removing :: "u8 option"
  ch_creating :: "creation list"

definition channelClient :: chan_client where
  "channelClient = \<lparr>channels = [], channelsPlanned = [], chan_listeners = [], ch_debug = - 1, ch_sent = [], ch_closed = [],
     ch_device = [], ch_destroys = [], ch_removing = None, ch_creating = []\<rparr>"

text \<open>
  The virtual methods of the derived class, what the build supports, and the operating system: descriptors are
  negative when a call fails.
\<close>

record chan_env =
  isUserSession :: bool
  serverSide :: bool
  ltsmClient :: bool
  deviceSupport :: "connectorType \<Rightarrow> bool"
  createChannelAllow :: "connectorType \<Rightarrow> string \<Rightarrow> connectorMode \<Rightarrow> bool"
  os_is_socket :: "string \<Rightarrow> bool"
  os_exists :: "string \<Rightarrow> bool"
  os_symlink :: "string \<Rightarrow> string option"
  os_is_regular :: "string \<Rightarrow> bool"
  os_unix_connect :: "string \<Rightarrow> int"
  os_tcp_connect :: "string \<Rightarrow> u32 \<Rightarrow> int"
  os_unix_listen :: "string \<Rightarrow> nat \<Rightarrow> int"
  os_tcp_listen :: "string \<Rightarrow> u32 \<Rightarrow> nat \<Rightarrow> int"
  os_open :: "string \<Rightarrow> connectorMode \<Rightarrow> bool \<Rightarrow> int"
  os_popen :: "string \<Rightarrow> bool \<Rightarrow> int option"
  os_resolv :: "string \<Rightarrow> string"
  os_readable :: "string \<Rightarrow> bool"
  os_file_size :: "string \<Rightarrow> nat"
  os_strerror :: "u32 \<Rightarrow> string"

definition findChannel :: "u8 \<Rightarrow> chan_client \<Rightarrow> connector option" where
  "findChannel ch s = find (\<lambda>c. cn_channel c = ch) (channels s)"

definition findPlanned :: "u8 \<Rightarrow> chan_client \<Rightarrow> planned option" where
  "findPlanned ch s = find (\<lambda>p. pl_channel p = ch) (channelsPlanned s)"

text \<open>The first channel with this number changes.\<close>

fun update_first :: "('a \<Rightarrow> bool) \<Rightarrow> ('a \<Rightarrow> 'a) \<Rightarrow> 'a list \<Rightarrow> 'a list" where
  "update_first P f [] = []"
| "update_first P f (x # xs) = (if P x then f x # xs else x # update_first P f xs)"

fun remove_first :: "('a \<Rightarrow> bool) \<Rightarrow> 'a list \<Rightarrow> 'a list" where
  "remove_first P [] = []"
| "remove_first P (x # xs) = (if P x then xs else x # remove_first P xs)"

definition on_channel :: "u8 \<Rightarrow> (connector \<Rightarrow> connector) \<Rightarrow> (chan_client, unit) exc" where
  "on_channel ch f = emodify (\<lambda>s. s\<lparr>channels := update_first (\<lambda>c. cn_channel c = ch) f (channels s)\<rparr>)"

definition countFreeChannels :: "chan_client \<Rightarrow> nat res" where
  "countFreeChannels s =
     (let used = 2 + length (channels s) + length (channelsPlanned s) in
      if used > 0xFF then Inl RuntimeError else Inr (0xFF - used))"

definition setChannelDebug :: "u8 \<Rightarrow> bool \<Rightarrow> (chan_client, unit) exc" where
  "setChannelDebug ch debug =
     emodify (\<lambda>s. if debug then s\<lparr>ch_debug := int (unat ch)\<rparr>
                  else if ch_debug s = int (unat ch) then s\<lparr>ch_debug := - 1\<rparr> else s)"

definition channelsShutdown :: "(chan_client, unit) exc" where
  "channelsShutdown = emodify (\<lambda>s. s\<lparr>channels := map (\<lambda>c. c\<lparr>loopRunning := False\<rparr>) (channels s)\<rparr>)"

section \<open>Messages of the channel 0\<close>

definition send_data :: "u8 \<Rightarrow> bytes \<Rightarrow> (chan_client, unit) exc" where
  "send_data ch buf = emodify (\<lambda>s. s\<lparr>ch_sent := ch_sent s @ [(ch, buf)]\<rparr>)"

definition stream_message :: "(string \<times> stream_value) list \<Rightarrow> string" where
  "stream_message kvs = object_flush (fold (\<lambda>(k, v). object_push k v) kvs jsonObjectStream)"

definition send_system :: "(string \<times> stream_value) list \<Rightarrow> (chan_client, unit) exc" where
  "send_system kvs = send_data 0 (str_bytes (stream_message kvs))"

definition sendSystemClientVariables :: "string \<Rightarrow> string \<Rightarrow> string list \<Rightarrow> string \<Rightarrow> (chan_client, unit) exc" where
  "sendSystemClientVariables vars env layouts current =
     send_system [(''cmd'', StreamString ''ClientVariables''), (''options'', StreamPlain vars),
       (''environments'', StreamPlain env),
       (''keyboard'', StreamPlain (stream_message
          [(''layouts'', StreamPlain (array_flush (array_push_range (map StreamString layouts) jsonArrayStream))),
           (''current'', StreamString current)]))]"

definition sendSystemCursorFailed :: "u32 \<Rightarrow> (chan_client, unit) exc" where
  "sendSystemCursorFailed cursorId =
     send_system [(''cmd'', StreamString ''CursorFailed''), (''cursor'', StreamInteger (sint cursorId))]"

text \<open>\<open>names.size()\<close> is unsigned, but a negative number is excluded before.\<close>

definition sendSystemKeyboardChange :: "string list \<Rightarrow> u32 \<Rightarrow> (chan_client, unit) exc" where
  "sendSystemKeyboardChange names grp =
     ewhen (0 \<le> sint grp \<and> unat grp < length names)
       (send_system [(''cmd'', StreamString ''KeyboardChange''), (''layout'', StreamString (names ! unat grp)),
          (''group'', StreamInteger (sint grp)),
          (''names'', StreamPlain (array_flush (array_push_range (map StreamString names) jsonArrayStream)))])"

definition file_entry :: "chan_env \<Rightarrow> string \<Rightarrow> stream_value" where
  "file_entry env fname = StreamPlain (stream_message
     [(''file'', StreamString fname), (''size'', StreamInteger (int (os_file_size env fname)))])"

definition sendSystemTransferFiles :: "chan_env \<Rightarrow> string list \<Rightarrow> (chan_client, bool) exc" where
  "sendSystemTransferFiles env files =
     (let files = filter (\<lambda>f. os_is_regular env f \<and> os_readable env f) files in
      if files = [] then ereturn False
      else
        let ja = fold array_push (map (file_entry env) (filter (\<lambda>f. os_file_size env f \<noteq> 0) files)) jsonArrayStream
        in eseq (send_system [(''cmd'', StreamString ''TransferFiles''), (''files'', StreamPlain (array_flush ja))])
             (ereturn True))"

definition content_member :: "connectorType \<Rightarrow> string" where
  "content_member t = (case t of
       TypeCommand \<Rightarrow> ''runcmd'' | TypeFuse \<Rightarrow> ''fuse'' | TypeAudio \<Rightarrow> ''audio'' | TypePcsc \<Rightarrow> ''pcsc''
     | TypePkcs11 \<Rightarrow> ''pkcs11'' | _ \<Rightarrow> ''path'')"

definition open_members :: "chan_env \<Rightarrow> u8 \<Rightarrow> urlmode \<Rightarrow> chan_opts \<Rightarrow> (string \<times> stream_value) list" where
  "open_members env ch clientOpts opts =
     [(''cmd'', StreamString ''ChannelOpen''), (''id'', StreamInteger (uint ch)),
      (''type'', StreamString (typeString (um_type clientOpts))), (''mode'', StreamString (modeString (um_mode clientOpts))),
      (''speed'', StreamString (speedString (opt_speed opts))), (''flags'', StreamInteger (sint (opt_flags opts)))] @
     (if um_type clientOpts = TypeSocket then
        let (ipaddr, port) = parseAddrPort (os_resolv env) (um_content clientOpts)
        in [(''port'', StreamInteger (sint port)), (''ipaddr'', StreamString ipaddr)]
      else [(content_member (um_type clientOpts), StreamString (um_content clientOpts))])"

definition sendSystemChannelOpen :: "chan_env \<Rightarrow> u8 \<Rightarrow> urlmode \<Rightarrow> chan_opts \<Rightarrow> (chan_client, unit) exc" where
  "sendSystemChannelOpen env ch clientOpts opts = send_system (open_members env ch clientOpts opts)"

definition sendSystemChannelError :: "u8 \<Rightarrow> u32 \<Rightarrow> string \<Rightarrow> (chan_client, unit) exc" where
  "sendSystemChannelError ch code err =
     send_system [(''cmd'', StreamString ''ChannelError''), (''id'', StreamInteger (uint ch)),
       (''code'', StreamInteger (sint code)), (''error'', StreamString err)]"

definition close_members :: "u8 \<Rightarrow> (string \<times> stream_value) list" where
  "close_members ch = [(''cmd'', StreamString ''ChannelClose''), (''id'', StreamInteger (uint ch))]"

definition sendSystemChannelClose :: "u8 \<Rightarrow> (chan_client, unit) exc" where
  "sendSystemChannelClose ch = send_system (close_members ch)"

definition connected_members :: "u8 \<Rightarrow> u32 \<Rightarrow> bool \<Rightarrow> (string \<times> stream_value) list" where
  "connected_members ch flags noerror =
     [(''cmd'', StreamString ''ChannelConnected''), (''flags'', StreamInteger (sint flags)),
      (''error'', StreamBoolean (\<not> noerror)), (''id'', StreamInteger (uint ch))]"

definition sendSystemChannelConnected :: "u8 \<Rightarrow> u32 \<Rightarrow> bool \<Rightarrow> (chan_client, unit) exc" where
  "sendSystemChannelConnected ch flags noerror = send_system (connected_members ch flags noerror)"

section \<open>Making connectors\<close>

text \<open>\<open>ConnectorBase\<close> tells the peer before the connector is there.\<close>

definition new_connector :: "connectorKind \<Rightarrow> u8 \<Rightarrow> int \<Rightarrow> chan_opts \<Rightarrow> (chan_client, connector) exc" where
  "new_connector kind ch fd opts =
     eseq (sendSystemChannelConnected ch (opt_flags opts) True) (ereturn (connectorFD kind ch fd opts))"

definition fd_connector :: "u8 \<Rightarrow> int \<Rightarrow> connectorMode \<Rightarrow> chan_opts \<Rightarrow> (chan_client, connector) exc" where
  "fd_connector ch fd md opts = (case md of
       ReadWrite \<Rightarrow> new_connector FD_RW ch fd opts
     | ReadOnly \<Rightarrow> new_connector FD_R ch fd opts
     | WriteOnly \<Rightarrow> new_connector FD_W ch fd opts
     | ModeUnknown \<Rightarrow> ethrow RuntimeError)"

definition createSockConnector :: "u8 \<Rightarrow> int \<Rightarrow> connectorMode \<Rightarrow> chan_opts \<Rightarrow> (chan_client, connector) exc" where
  "createSockConnector ch sock md opts = (if sock < 0 then ethrow RuntimeError else fd_connector ch sock md opts)"

definition createUnixConnector ::
    "chan_env \<Rightarrow> u8 \<Rightarrow> string \<Rightarrow> connectorMode \<Rightarrow> chan_opts \<Rightarrow> (chan_client, connector) exc" where
  "createUnixConnector env ch path md opts =
     (if \<not> os_is_socket env path then ethrow RuntimeError
      else
        let fd = os_unix_connect env path
        in if fd < 0 then ethrow RuntimeError else fd_connector ch fd md opts)"

definition createTcpConnector ::
    "chan_env \<Rightarrow> u8 \<Rightarrow> string \<Rightarrow> u32 \<Rightarrow> connectorMode \<Rightarrow> chan_opts \<Rightarrow> (chan_client, connector) exc" where
  "createTcpConnector env ch ipaddr port md opts =
     (let fd = os_tcp_connect env ipaddr port in
      if fd < 0 then ethrow RuntimeError else fd_connector ch fd md opts)"

definition createFileConnector ::
    "chan_env \<Rightarrow> u8 \<Rightarrow> string \<Rightarrow> connectorMode \<Rightarrow> chan_opts \<Rightarrow> (chan_client, connector) exc" where
  "createFileConnector env ch path md opts =
     (if md = ReadWrite \<or> md = ModeUnknown then ethrow RuntimeError
      else if md = ReadOnly \<and> \<not> os_exists env path then ethrow RuntimeError
      else
        let fd = os_open env path md (os_exists env path)
        in if fd < 0 then ethrow RuntimeError else fd_connector ch fd md opts)"

fun tools_join :: "string \<Rightarrow> string list \<Rightarrow> string" where
  "tools_join sep [] = []"
| "tools_join sep [x] = x"
| "tools_join sep (x # xs) = x @ sep @ tools_join sep xs"

definition createCommandConnector ::
    "chan_env \<Rightarrow> u8 \<Rightarrow> string \<Rightarrow> connectorMode \<Rightarrow> chan_opts \<Rightarrow> (chan_client, connector) exc" where
  "createCommandConnector env ch runcmd md opts =
     (if md = ReadWrite \<or> md = ModeUnknown then ethrow RuntimeError
      else
        case tools_split (CHR '' '') runcmd of
          [] \<Rightarrow> ethrow RuntimeError
        | cmd # params \<Rightarrow>
            if \<not> os_exists env cmd then ethrow RuntimeError
            else
              case (case os_symlink env cmd of
                      Some target \<Rightarrow> os_popen env (tools_join '' '' (target # params)) (md = ReadOnly)
                    | None \<Rightarrow> if os_is_regular env cmd then os_popen env runcmd (md = ReadOnly) else None) of
                None \<Rightarrow> ethrow RuntimeError
              | Some fd \<Rightarrow> new_connector (if md = ReadOnly then CMD_R else CMD_W) ch fd opts)"

text \<open>The connector joins the channels; an exception of its making is the result \<open>false\<close>.\<close>

definition emplace_channel :: "(chan_client, connector) exc \<Rightarrow> (chan_client, bool) exc" where
  "emplace_channel m =
     ecatch (ebind m (\<lambda>c. eseq (emodify (\<lambda>s. s\<lparr>channels := channels s @ [c]\<rparr>)) (ereturn True))) (\<lambda>_. ereturn False)"

definition createChannelUnix :: "chan_env \<Rightarrow> u8 \<Rightarrow> string \<Rightarrow> connectorMode \<Rightarrow> chan_opts \<Rightarrow> (chan_client, bool) exc" where
  "createChannelUnix env ch path md opts =
     (if \<not> createChannelAllow env TypeUnix path md then ereturn False
      else emplace_channel (createUnixConnector env ch path md opts))"

text \<open>\<open>createChannelUnixFd\<close> and \<open>createChannelSocketFd\<close>.\<close>

definition createChannelFd :: "u8 \<Rightarrow> int \<Rightarrow> connectorMode \<Rightarrow> chan_opts \<Rightarrow> (chan_client, bool) exc" where
  "createChannelFd ch sock md opts = emplace_channel (createSockConnector ch sock md opts)"

definition createChannelFile :: "chan_env \<Rightarrow> u8 \<Rightarrow> string \<Rightarrow> connectorMode \<Rightarrow> chan_opts \<Rightarrow> (chan_client, bool) exc" where
  "createChannelFile env ch path md opts =
     (if \<not> createChannelAllow env TypeFile path md then ereturn False
      else emplace_channel (createFileConnector env ch path md opts))"

definition createChannelCommand :: "chan_env \<Rightarrow> u8 \<Rightarrow> string \<Rightarrow> connectorMode \<Rightarrow> chan_opts \<Rightarrow> (chan_client, bool) exc" where
  "createChannelCommand env ch runcmd md opts =
     (if \<not> createChannelAllow env TypeCommand runcmd md then ereturn False
      else emplace_channel (createCommandConnector env ch runcmd md opts))"

definition createChannelSocket ::
    "chan_env \<Rightarrow> u8 \<Rightarrow> string \<times> u32 \<Rightarrow> connectorMode \<Rightarrow> chan_opts \<Rightarrow> (chan_client, bool) exc" where
  "createChannelSocket env ch addr md opts =
     (if \<not> createChannelAllow env TypeSocket (fst addr) md then ereturn False
      else if serverSide env \<and> \<not> starts_with (fst addr) ''127.'' then ereturn False
      else if sint (snd addr) < 0 then ereturn False
      else emplace_channel (createTcpConnector env ch (fst addr) (snd addr) md opts))"

text \<open>
  \<open>createChannelClientAudio\<close>, \<open>createChannelClientFuse\<close>, \<open>createChannelClientPcsc\<close> and \<open>createChannelClientPkcs11\<close>: what
  the build does not have is refused.
\<close>

definition createChannelDevice ::
    "chan_env \<Rightarrow> connectorType \<Rightarrow> u8 \<Rightarrow> connectorMode \<Rightarrow> chan_opts \<Rightarrow> (chan_client, bool) exc" where
  "createChannelDevice env t ch md opts =
     (if ltsmClient env \<and> deviceSupport env t
      then emplace_channel (eseq (sendSystemChannelConnected ch (opt_flags opts) True) (ereturn (connectorDevice t ch md opts)))
      else ereturn False)"

section \<open>Opening a channel\<close>

definition open_connector ::
    "chan_env \<Rightarrow> 'd doubles \<Rightarrow> 'd members \<Rightarrow> connectorType \<Rightarrow> u8 \<Rightarrow> connectorMode \<Rightarrow> chan_opts \<Rightarrow> (chan_client, bool) exc" where
  "open_connector env ops jo t ch md opts =
     (let str = (\<lambda>key. obj_getString ops key [] jo) in
      case t of
        TypeFile \<Rightarrow> createChannelFile env ch (str ''path'') md opts
      | TypeUnix \<Rightarrow> createChannelUnix env ch (str ''path'') md opts
      | TypeSocket \<Rightarrow>
          ebind (elift (obj_getInteger ops ''port'' 0 jo)) (\<lambda>port.
          createChannelSocket env ch (str ''ipaddr'', port) md opts)
      | TypeCommand \<Rightarrow> createChannelCommand env ch (str ''runcmd'') md opts
      | TypeUnknown \<Rightarrow> ereturn False
      | _ \<Rightarrow> createChannelDevice env t ch md opts)"

text \<open>The number of the message is an \<open>int\<close>; the methods that take a channel take its lowest byte.\<close>

definition systemChannelOpen :: "chan_env \<Rightarrow> 'd doubles \<Rightarrow> 'd members \<Rightarrow> (chan_client, unit) exc" where
  "systemChannelOpen env ops jo =
     ebind (elift (obj_getInteger ops ''id'' 0 jo)) (\<lambda>channel.
     ebind (elift (obj_getInteger ops ''flags'' 0 jo)) (\<lambda>flags.
     let ch = ucast channel :: u8;
         md = connectorMode_of (obj_getString ops ''mode'' [] jo);
         opts = \<lparr>opt_speed = connectorSpeed (obj_getString ops ''speed'' [] jo), opt_flags = flags\<rparr>
     in ebind (egets (\<lambda>s. \<not> isUserSession env \<or> sint channel \<le> 0 \<or> 255 \<le> sint channel \<or> md = ModeUnknown \<or>
                 findChannel ch s \<noteq> None)) (\<lambda>replyError.
        ebind (if replyError then ereturn False
               else open_connector env ops jo (connectorType_of (obj_getString ops ''type'' [] jo)) ch md opts) (\<lambda>ok.
        ewhen (\<not> ok) (sendSystemChannelConnected ch flags False)))))"

definition close_fd :: "int \<Rightarrow> (chan_client, unit) exc" where
  "close_fd fd = ewhen (0 \<le> fd) (emodify (\<lambda>s. s\<lparr>ch_closed := ch_closed s @ [fd]\<rparr>))"

text \<open>The result of making the channel is not looked at.\<close>

definition channelPlannedCreate :: "chan_env \<Rightarrow> planned \<Rightarrow> (chan_client, bool) exc" where
  "channelPlannedCreate env job =
     (let ch = pl_channel job; srv = pl_serverOpts job; md = um_mode srv; opts = pl_chOpts job; content = um_content srv in
      if 0 \<le> pl_serverFd job then
        if um_type srv = TypeUnix \<or> um_type srv = TypeSocket
        then eseq (createChannelFd ch (pl_serverFd job) md opts) (ereturn True)
        else ethrow RuntimeError
      else if content \<noteq> [] then
        case um_type srv of
          TypeUnix \<Rightarrow> eseq (createChannelUnix env ch content md opts) (ereturn True)
        | TypeSocket \<Rightarrow> eseq (createChannelSocket env ch (parseAddrPort (os_resolv env) content) md opts) (ereturn True)
        | TypeFile \<Rightarrow> eseq (createChannelFile env ch content md opts) (ereturn True)
        | TypeCommand \<Rightarrow> eseq (createChannelCommand env ch content md opts) (ereturn True)
        | _ \<Rightarrow> ereturn False
      else ereturn True)"

text \<open>What is left to do for a channel that was planned; the plan is removed in any case.\<close>

definition planned_connected :: "chan_env \<Rightarrow> bool \<Rightarrow> u32 \<Rightarrow> planned \<Rightarrow> (chan_client, bool) exc" where
  "planned_connected env err flags p =
     eseq (emodify (\<lambda>s. s\<lparr>channelsPlanned := remove_first (\<lambda>q. pl_channel q = pl_channel p) (channelsPlanned s)\<rparr>))
     (let job = p\<lparr>pl_chOpts := (pl_chOpts p)\<lparr>opt_flags := flags\<rparr>\<rparr>; ch = pl_channel job in
      ebind (egets (findChannel ch)) (\<lambda>found.
      if err \<or> ch = 0 \<or> ch = 255 \<or> found \<noteq> None
      then eseq (close_fd (pl_serverFd job)) (ereturn False)
      else channelPlannedCreate env job))"

definition systemChannelConnected :: "chan_env \<Rightarrow> 'd doubles \<Rightarrow> 'd members \<Rightarrow> (chan_client, bool) exc" where
  "systemChannelConnected env ops jo =
     ebind (elift (obj_getInteger ops ''id'' 0 jo)) (\<lambda>channel.
     ebind (elift (obj_getBoolean ops ''error'' False jo)) (\<lambda>err.
     ebind (elift (obj_getInteger ops ''flags'' 0 jo)) (\<lambda>flags.
     ebind (egets (\<lambda>s. find (\<lambda>p. int (unat (pl_channel p)) = sint channel) (channelsPlanned s))) (\<lambda>found.
     ebind (case found of None \<Rightarrow> ereturn True | Some p \<Rightarrow> planned_connected env err flags p) (\<lambda>go.
     if \<not> go then ereturn False
     else eseq (on_channel (ucast channel) (\<lambda>c. c\<lparr>remoteConnected := True\<rparr>)) (ereturn True))))))"

definition destroyChannel :: "u8 \<Rightarrow> (chan_client, unit) exc" where
  "destroyChannel ch = emodify (\<lambda>s. s\<lparr>ch_destroys := ch_destroys s @ [ch]\<rparr>)"

definition systemChannelClose :: "'d doubles \<Rightarrow> 'd members \<Rightarrow> (chan_client, unit) exc" where
  "systemChannelClose ops jo =
     ebind (elift (obj_getInteger ops ''id'' 0 jo)) (\<lambda>channel. destroyChannel (ucast channel))"

text \<open>The first number that is neither a channel nor planned.\<close>

definition free_channel :: "chan_client \<Rightarrow> u8 option" where
  "free_channel s = find (\<lambda>ch. findChannel ch s = None \<and> findPlanned ch s = None) (map of_nat [1..<255])"

definition modes_refused :: "urlmode \<Rightarrow> urlmode \<Rightarrow> bool" where
  "modes_refused clientOpts serverOpts \<longleftrightarrow>
     um_mode clientOpts = ModeUnknown \<or> um_mode serverOpts = ModeUnknown \<or>
     um_mode serverOpts = um_mode clientOpts \<and> (um_mode serverOpts = ReadOnly \<or> um_mode serverOpts = WriteOnly)"

definition plannedEmplace :: "planned \<Rightarrow> (chan_client, unit) exc" where
  "plannedEmplace p = emodify (\<lambda>s. s\<lparr>channelsPlanned := channelsPlanned s @ [p]\<rparr>)"

definition plan_at :: "chan_env \<Rightarrow> u8 \<Rightarrow> urlmode \<Rightarrow> urlmode \<Rightarrow> chan_opts \<Rightarrow> int \<Rightarrow> (chan_client, bool) exc" where
  "plan_at env ch clientOpts serverOpts opts fd =
     eseq (plannedEmplace
         \<lparr>pl_serverOpts = serverOpts, pl_clientOpts = clientOpts, pl_chOpts = opts, pl_serverFd = fd, pl_channel = ch\<rparr>)
     (eseq (sendSystemChannelOpen env ch clientOpts opts) (ereturn True))"

text \<open>
  The whole calls, for a thread that no other one interrupts; \<open>creation_step\<close> below is one access to what the threads share,
  and \<open>creation_alone\<close> shows that the steps of a thread that runs alone are the whole call.
\<close>

definition plan_channel :: "chan_env \<Rightarrow> urlmode \<Rightarrow> urlmode \<Rightarrow> chan_opts \<Rightarrow> int \<Rightarrow> (chan_client, bool) exc" where
  "plan_channel env clientOpts serverOpts opts fd =
     ebind (egets free_channel) (\<lambda>free. case free of
       None \<Rightarrow> ereturn False
     | Some ch \<Rightarrow> plan_at env ch clientOpts serverOpts opts fd)"

definition createChannel :: "chan_env \<Rightarrow> urlmode \<Rightarrow> urlmode \<Rightarrow> chan_opts \<Rightarrow> (chan_client, bool) exc" where
  "createChannel env clientOpts serverOpts opts =
     (if modes_refused clientOpts serverOpts \<or> um_type clientOpts = TypeUnknown \<or> um_type serverOpts = TypeUnknown
      then ereturn False else plan_channel env clientOpts serverOpts opts (- 1))"

definition createChannelAcceptFd :: "chan_env \<Rightarrow> urlmode \<Rightarrow> int \<Rightarrow> urlmode \<Rightarrow> chan_opts \<Rightarrow> (chan_client, bool) exc" where
  "createChannelAcceptFd env clientOpts sock serverOpts opts =
     (if modes_refused clientOpts serverOpts \<or> um_type clientOpts = TypeUnknown
      then ereturn False else plan_channel env clientOpts serverOpts opts sock)"

section \<open>The search for a number, step by step\<close>

text \<open>What the two methods check before they search; \<open>None\<close> is their early return.\<close>

definition createChannel_begin :: "urlmode \<Rightarrow> urlmode \<Rightarrow> chan_opts \<Rightarrow> creation option" where
  "createChannel_begin clientOpts serverOpts opts =
     (if modes_refused clientOpts serverOpts \<or> um_type clientOpts = TypeUnknown \<or> um_type serverOpts = TypeUnknown
      then None
      else Some \<lparr>cr_copts = clientOpts, cr_sopts = serverOpts, cr_opts = opts, cr_fd = - 1, cr_at = LookChannel 1\<rparr>)"

definition createChannelAcceptFd_begin :: "urlmode \<Rightarrow> int \<Rightarrow> urlmode \<Rightarrow> chan_opts \<Rightarrow> creation option" where
  "createChannelAcceptFd_begin clientOpts sock serverOpts opts =
     (if modes_refused clientOpts serverOpts \<or> um_type clientOpts = TypeUnknown
      then None
      else Some \<lparr>cr_copts = clientOpts, cr_sopts = serverOpts, cr_opts = opts, cr_fd = sock, cr_at = LookChannel 1\<rparr>)"

text \<open>One step: the call returns (\<open>Inl\<close>) or goes on.\<close>

definition creation_step :: "chan_env \<Rightarrow> creation \<Rightarrow> (chan_client, bool + creation) exc" where
  "creation_step env cr = (case cr_at cr of
       LookChannel ch \<Rightarrow>
         if ch = 255 then ereturn (Inl False)
         else ebind (egets (findChannel ch)) (\<lambda>found.
           ereturn (Inr (cr\<lparr>cr_at := (case found of None \<Rightarrow> LookPlanned ch | Some _ \<Rightarrow> LookChannel (ch + 1))\<rparr>)))
     | LookPlanned ch \<Rightarrow>
         ebind (egets (findPlanned ch)) (\<lambda>found.
           ereturn (Inr (cr\<lparr>cr_at := (case found of None \<Rightarrow> EnterPlan ch | Some _ \<Rightarrow> LookChannel (ch + 1))\<rparr>)))
     | EnterPlan ch \<Rightarrow>
         eseq (plannedEmplace \<lparr>pl_serverOpts = cr_sopts cr, pl_clientOpts = cr_copts cr, pl_chOpts = cr_opts cr,
             pl_serverFd = cr_fd cr, pl_channel = ch\<rparr>)
           (ereturn (Inr (cr\<lparr>cr_at := SendOpen ch\<rparr>)))
     | SendOpen ch \<Rightarrow>
         eseq (sendSystemChannelOpen env ch (cr_copts cr) (cr_opts cr)) (ereturn (Inl True)))"

text \<open>A step that asks for a channel waits while a removal holds the lock of the channels.\<close>

definition creation_waits :: "creation \<Rightarrow> chan_client \<Rightarrow> bool" where
  "creation_waits cr s = (case cr_at cr of LookChannel ch \<Rightarrow> ch \<noteq> 255 \<and> ch_removing s \<noteq> None | _ \<Rightarrow> False)"

text \<open>The steps of a thread that runs alone: two for each of the 254 numbers, the entry, the message and the end.\<close>

primrec creation_run :: "nat \<Rightarrow> chan_env \<Rightarrow> creation \<Rightarrow> (chan_client, bool) exc" where
  "creation_run 0 env cr = ethrow Diverges"
| "creation_run (Suc n) env cr =
     ebind (creation_step env cr) (\<lambda>r. case r of Inl ok \<Rightarrow> ereturn ok | Inr cr' \<Rightarrow> creation_run n env cr')"

lemma creation_runs:
  "creation_run (Suc j) env (cr\<lparr>cr_at := LookChannel ch\<rparr>) s =
     (if ch = 255 then (Inr False, s)
      else case findChannel ch s of
          Some _ \<Rightarrow> creation_run j env (cr\<lparr>cr_at := LookChannel (ch + 1)\<rparr>) s
        | None \<Rightarrow> creation_run j env (cr\<lparr>cr_at := LookPlanned ch\<rparr>) s)"
  "creation_run (Suc j) env (cr\<lparr>cr_at := LookPlanned ch\<rparr>) s =
     (case findPlanned ch s of
        Some _ \<Rightarrow> creation_run j env (cr\<lparr>cr_at := LookChannel (ch + 1)\<rparr>) s
      | None \<Rightarrow> creation_run j env (cr\<lparr>cr_at := EnterPlan ch\<rparr>) s)"
  "creation_run (Suc (Suc j)) env (cr\<lparr>cr_at := EnterPlan ch\<rparr>) s =
     plan_at env ch (cr_copts cr) (cr_sopts cr) (cr_opts cr) (cr_fd cr) s"
    apply (simp add: creation_step_def ebind_def split: option.split)
   apply (simp add: creation_step_def ebind_def split: option.split)
  apply (simp add: creation_step_def plan_at_def plannedEmplace_def ebind_def split: prod.split sum.split)
  done

lemma creation_search:
  assumes "1 \<le> k" "k \<le> 255" "2 * (255 - k) + 3 \<le> n"
  shows "creation_run n env (cr\<lparr>cr_at := LookChannel (of_nat k)\<rparr>) s =
    (case find (\<lambda>ch. findChannel ch s = None \<and> findPlanned ch s = None) (map of_nat [k..<255]) of
       None \<Rightarrow> (Inr False, s)
     | Some ch \<Rightarrow> plan_at env ch (cr_copts cr) (cr_sopts cr) (cr_opts cr) (cr_fd cr) s)"
  using assms
proof (induction "255 - k" arbitrary: k n)
  case 0
  then have "k = 255" by simp
  moreover obtain m where "n = Suc m" using 0 by (cases n) auto
  ultimately show ?case by (simp add: creation_step_def)
next
  case (Suc d)
  then have k: "k < 255" by simp
  then have word: "(of_nat k :: u8) \<noteq> 255" "(of_nat k + 1 :: u8) = of_nat (Suc k)"
    by (auto dest: arg_cong [of _ _ unat] simp: unsigned_of_nat take_bit_eq_mod)
  have "3 \<le> n" using Suc.prems by simp
  then obtain m where n: "n = Suc (Suc (Suc m))" by (metis Suc3_eq_add_3 le_Suc_ex)
  have up: "[k..<255] = k # [Suc k..<255]" using k by (simp add: upt_conv_Cons)
  have next': "creation_run j env (cr\<lparr>cr_at := LookChannel (of_nat (Suc k))\<rparr>) s =
      (case find (\<lambda>ch. findChannel ch s = None \<and> findPlanned ch s = None) (map of_nat [Suc k..<255]) of
         None \<Rightarrow> (Inr False, s)
       | Some ch \<Rightarrow> plan_at env ch (cr_copts cr) (cr_sopts cr) (cr_opts cr) (cr_fd cr) s)" if "Suc m \<le> j" for j
    using Suc.hyps(1) [of "Suc k" j] Suc.hyps(2) Suc.prems k n that by simp
  consider (channel) "findChannel (of_nat k) s \<noteq> None" | (plan) "findChannel (of_nat k) s = None" "findPlanned (of_nat k) s \<noteq> None"
    | (free) "findChannel (of_nat k) s = None" "findPlanned (of_nat k) s = None" by blast
  then show ?case
  proof cases
    case channel
    then show ?thesis
      using next' [of "Suc (Suc m)"] by (auto simp: n up creation_runs word simp del: upt_Suc creation_run.simps)
  next
    case plan
    then show ?thesis
      using next' [of "Suc m"] by (auto simp: n up creation_runs word simp del: upt_Suc creation_run.simps)
  next
    case free
    obtain j where "m = Suc j" using Suc.prems k n by (cases m) auto
    with free show ?thesis
      by (simp add: n up creation_runs word del: upt_Suc creation_run.simps)
  qed
qed

lemma creation_alone:
  "createChannel env copts sopts opts s = (case createChannel_begin copts sopts opts of
       None \<Rightarrow> (Inr False, s) | Some cr \<Rightarrow> creation_run 511 env cr s)"
  "createChannelAcceptFd env copts sock sopts opts s = (case createChannelAcceptFd_begin copts sock sopts opts of
       None \<Rightarrow> (Inr False, s) | Some cr \<Rightarrow> creation_run 511 env cr s)"
proof -
  have run: "creation_run 511 env \<lparr>cr_copts = copts, cr_sopts = sopts, cr_opts = opts, cr_fd = fd, cr_at = LookChannel 1\<rparr> s =
      plan_channel env copts sopts opts fd s" for fd
    using creation_search [of 1 511 env "\<lparr>cr_copts = copts, cr_sopts = sopts, cr_opts = opts, cr_fd = fd, cr_at = LookChannel 1\<rparr>" s]
    by (simp add: plan_channel_def free_channel_def split: option.split del: upt_Suc creation_run.simps)
  show "createChannel env copts sopts opts s = (case createChannel_begin copts sopts opts of
       None \<Rightarrow> (Inr False, s) | Some cr \<Rightarrow> creation_run 511 env cr s)"
    using run by (simp add: createChannel_def createChannel_begin_def)
  show "createChannelAcceptFd env copts sock sopts opts s = (case createChannelAcceptFd_begin copts sock sopts opts of
       None \<Rightarrow> (Inr False, s) | Some cr \<Rightarrow> creation_run 511 env cr s)"
    using run by (simp add: createChannelAcceptFd_def createChannelAcceptFd_begin_def)
qed

end
