(* ===== verification/Channel_Threads.thy ===== *)
theory Channel_Threads
  imports Channel_System
begin

text \<open>
  What arrives on a channel, the rounds of the threads \<open>loopReader\<close> and \<open>loopWriter\<close> of a connector, the detached threads that
  remove a channel, and the listeners: the actions whose interleaving is a run of the channels.
\<close>

section \<open>Arriving data\<close>

definition cn_pushData :: "bytes \<Rightarrow> connector \<Rightarrow> connector" where
  "cn_pushData buf c =
     (if buf = [] then c else c\<lparr>remoteLocal := map_option (r2l_pushData buf) (remoteLocal c)\<rparr>)"

definition session_refused :: "chan_env \<Rightarrow> connector \<Rightarrow> bool" where
  "session_refused env c \<longleftrightarrow> \<not> ltsmClient env \<and>
     (isAllowSessionFor True c \<and> \<not> isUserSession env \<or> isAllowSessionFor False c \<and> isUserSession env)"

definition recvChannelData :: "chan_env \<Rightarrow> u8 \<Rightarrow> bytes \<Rightarrow> (chan_client, unit) exc" where
  "recvChannelData env ch buf =
     ebind (egets (findChannel ch)) (\<lambda>found. case found of
       None \<Rightarrow> ethrow InvalidArgument
     | Some c \<Rightarrow>
         if session_refused env c then ethrow InvalidArgument
         else if \<not> remoteConnected c then ethrow InvalidArgument
         else if \<not> loopRunning c then ethrow InvalidArgument
         else case cn_kind c of
             Device _ \<Rightarrow> emodify (\<lambda>s. s\<lparr>ch_device := ch_device s @ [(ch, buf)]\<rparr>)
           | _ \<Rightarrow> on_channel ch (cn_pushData buf))"

text \<open>
  \<open>recvChannelSystemEvent\<close> of the server and of the client. The other commands are virtual methods of the derived class,
  \<open>virt\<close>.
\<close>

definition system_object :: "'d doubles \<Rightarrow> bytes \<Rightarrow> ('d members \<times> string) res" where
  "system_object ops buf =
     (let jc = jsonContentString (bytes_str buf) in
      case jc_tokens jc of
        [] \<Rightarrow> Inl InvalidArgument
      | tok # _ \<Rightarrow>
          if tok_type tok \<noteq> JSMN_OBJECT then Inl InvalidArgument
          else rbind (toObject ops jc) (\<lambda>jo.
            let cmd = obj_getString ops ''cmd'' [] jo in if cmd = [] then Inl InvalidArgument else Inr (jo, cmd)))"

definition server_commands :: "string list" where
  "server_commands = [''ClientVariables'', ''KeyboardChange'', ''CursorFailed'', ''TransferFiles'', ''ChannelError'', ''LoginSuccess'']"

definition server_recvChannelSystemEvent ::
    "chan_env \<Rightarrow> 'd doubles \<Rightarrow> (string \<Rightarrow> 'd members \<Rightarrow> (chan_client, unit) exc) \<Rightarrow> bytes \<Rightarrow> (chan_client, unit) exc" where
  "server_recvChannelSystemEvent env ops virt buf =
     ebind (elift (system_object ops buf)) (\<lambda>(jo, cmd).
       if cmd = ''ChannelClose'' then systemChannelClose ops jo
       else if cmd = ''ChannelConnected'' then ebind (systemChannelConnected env ops jo) (\<lambda>_. ereturn ())
       else if list_ex (\<lambda>c. c = cmd) server_commands then virt cmd jo
       else ethrow InvalidArgument)"

definition client_recvChannelSystemEvent ::
    "chan_env \<Rightarrow> 'd doubles \<Rightarrow> (string \<Rightarrow> 'd members \<Rightarrow> (chan_client, unit) exc) \<Rightarrow> bytes \<Rightarrow> (chan_client, unit) exc" where
  "client_recvChannelSystemEvent env ops virt buf =
     ebind (elift (system_object ops buf)) (\<lambda>(jo, cmd).
       if cmd = ''ChannelOpen'' then systemChannelOpen env ops jo
       else if cmd = ''ChannelListen'' then ereturn ()
       else if cmd = ''ChannelClose'' then systemChannelClose ops jo
       else if cmd = ''ChannelConnected'' then ebind (systemChannelConnected env ops jo) (\<lambda>_. ereturn ())
       else if cmd = ''ChannelError'' \<or> cmd = ''LoginSuccess'' then virt cmd jo
       else ethrow InvalidArgument)"

definition recvLtsmEvent ::
    "chan_env \<Rightarrow> (bytes \<Rightarrow> (chan_client, unit) exc) \<Rightarrow> u8 \<Rightarrow> bytes \<Rightarrow> (chan_client, unit) exc" where
  "recvLtsmEvent env sys ch buf =
     (if ch = 255 then ethrow InvalidArgument
      else if ch = 0 then sys buf else recvChannelData env ch buf)"

section \<open>The threads of a connector\<close>

text \<open>
  One round of \<open>loopReader\<close>. The server sends a copy of the buffer, the client moves it away. An exception of
  zlib leaves the function of the thread, which ends the process.
\<close>

definition reader_send :: "chan_env \<Rightarrow> local2remote \<Rightarrow> connector \<Rightarrow> (chan_client, connector) exc" where
  "reader_send env st c =
     (if l2r_buf st = [] then ereturn (c\<lparr>localRemote := Some st\<rparr>)
      else eseq (send_data (l2r_cid st) (l2r_buf st))
        (ereturn (c\<lparr>localRemote := Some (if ltsmClient env then st\<lparr>l2r_buf := []\<rparr> else st)\<rparr>)))"

definition reader_round :: "chan_env \<Rightarrow> zlib \<Rightarrow> read_calls \<Rightarrow> connector \<Rightarrow> (chan_client, connector) exc" where
  "reader_round env z rc c =
     (case (cn_reader c, localRemote c) of
        (Looping err, Some st) \<Rightarrow>
          if loopRunning c then
            case readData z rc st of
              (Inl e, st) \<Rightarrow> ethrow e
            | (Inr True, st) \<Rightarrow> reader_send env st c
            | (Inr False, st) \<Rightarrow> reader_send env st (c\<lparr>cn_reader := Looping True, loopRunning := False\<rparr>)
          else
            eseq (ewhen err (sendSystemChannelError (l2r_cid st) (l2r_error st) (os_strerror env (l2r_error st))))
            (eseq (ewhen (cn_mode c = ReadWrite \<or> cn_mode c = ReadOnly) (sendSystemChannelClose (l2r_cid st)))
            (ereturn (c\<lparr>cn_reader := Ended\<rparr>)))
      | _ \<Rightarrow> ereturn c)"

text \<open>After the loop what is queued is written, as long as that succeeds.\<close>

fun drain :: "zlib \<Rightarrow> sys_write list list \<Rightarrow> (remote2local, unit) exc" where
  "drain z [] st = (if r2l_isEmpty st then (Inr (), st) else (Inl Diverges, st))"
| "drain z (ws # wss) st =
     (if r2l_isEmpty st then (Inr (), st)
      else case writeData z ws st of
          (Inl e, st) \<Rightarrow> (Inl e, st)
        | (Inr True, st) \<Rightarrow> drain z wss st
        | (Inr False, st) \<Rightarrow> (Inr (), st))"

text \<open>One round of \<open>loopWriter\<close>: the first answers serve the loop, all of them what is left at the end.\<close>

definition writer_round :: "chan_env \<Rightarrow> zlib \<Rightarrow> sys_write list list \<Rightarrow> connector \<Rightarrow> (chan_client, connector) exc" where
  "writer_round env z wss c =
     (case (cn_writer c, remoteLocal c) of
        (Looping err, Some st) \<Rightarrow>
          if loopRunning c then
            if r2l_isEmpty st then ereturn c
            else
              case writeData z (case wss of [] \<Rightarrow> [] | ws # _ \<Rightarrow> ws) st of
                (Inl e, st) \<Rightarrow> ethrow e
              | (Inr True, st) \<Rightarrow> ereturn (c\<lparr>remoteLocal := Some st\<rparr>)
              | (Inr False, st) \<Rightarrow> ereturn (c\<lparr>remoteLocal := Some st, cn_writer := Looping True, loopRunning := False\<rparr>)
          else
            let finish = (\<lambda>st. eseq (ewhen (cn_mode c \<noteq> ReadWrite \<or> cn_mode c = WriteOnly) (sendSystemChannelClose (r2l_cid st)))
                  (ereturn (c\<lparr>remoteLocal := Some st, cn_writer := Ended\<rparr>)))
            in if err
               then eseq (sendSystemChannelError (r2l_cid st) (r2l_error st) (os_strerror env (r2l_error st))) (finish st)
               else (case drain z wss st of (Inl e, st) \<Rightarrow> ethrow e | (Inr _, st) \<Rightarrow> finish st)
      | _ \<Rightarrow> ereturn c)"

text \<open>The descriptors that the destructors close: every direction its own, and the command its pipe.\<close>

definition cn_closes :: "connector \<Rightarrow> int list" where
  "cn_closes c =
     (case cn_kind c of
        CMD_R \<Rightarrow> (case localRemote c of Some st \<Rightarrow> [l2r_fd st] | None \<Rightarrow> [])
      | CMD_W \<Rightarrow> (case remoteLocal c of Some st \<Rightarrow> [r2l_fd st] | None \<Rightarrow> [])
      | _ \<Rightarrow>
         (case localRemote c of Some st \<Rightarrow> (if l2r_needClose st \<and> 0 \<le> l2r_fd st then [l2r_fd st] else []) | None \<Rightarrow> []) @
         (case remoteLocal c of Some st \<Rightarrow> (if r2l_needClose st \<and> 0 \<le> r2l_fd st then [r2l_fd st] else []) | None \<Rightarrow> []))"

definition threads_ended :: "connector \<Rightarrow> bool" where
  "threads_ended c \<longleftrightarrow> (\<forall>err. cn_reader c \<noteq> Looping err) \<and> (\<forall>err. cn_writer c \<noteq> Looping err)"

lemma threads_ended_code [code]:
  "threads_ended c = ((case cn_reader c of Looping _ \<Rightarrow> False | _ \<Rightarrow> True) \<and> (case cn_writer c of Looping _ \<Rightarrow> False | _ \<Rightarrow> True))"
  by (auto simp: threads_ended_def split: thread.splits)

section \<open>Listeners\<close>

definition new_listener :: "int \<Rightarrow> urlmode \<Rightarrow> urlmode \<Rightarrow> chan_opts \<Rightarrow> listener" where
  "new_listener fd serverOpts clientOpts opts =
     \<lparr>ls_sopts = serverOpts, ls_copts = clientOpts, ls_chopts = opts, ls_srvfd = fd, ls_running = True,
      ls_creating = None\<rparr>"

definition createUnixListener :: "chan_env \<Rightarrow> urlmode \<Rightarrow> nat \<Rightarrow> urlmode \<Rightarrow> chan_opts \<Rightarrow> listener res" where
  "createUnixListener env serverOpts limit clientOpts opts =
     (let path = um_content serverOpts in
      if os_exists env path \<and> \<not> os_is_socket env path then Inl RuntimeError
      else
        let fd = os_unix_listen env path limit
        in if fd < 0 then Inl RuntimeError else Inr (new_listener fd serverOpts clientOpts opts))"

definition createTcpListener :: "chan_env \<Rightarrow> urlmode \<Rightarrow> nat \<Rightarrow> urlmode \<Rightarrow> chan_opts \<Rightarrow> listener res" where
  "createTcpListener env serverOpts limit clientOpts opts =
     (let (ipaddr, port) = parseAddrPort (os_resolv env) (um_content serverOpts) in
      if sint port \<le> 0 then Inl RuntimeError
      else
        let fd = os_tcp_listen env (if serverSide env then ''127.0.0.1'' else ipaddr) port limit
        in if fd < 0 then Inl RuntimeError else Inr (new_listener fd serverOpts clientOpts opts))"

definition createListener :: "chan_env \<Rightarrow> urlmode \<Rightarrow> urlmode \<Rightarrow> nat \<Rightarrow> chan_opts \<Rightarrow> (chan_client, bool) exc" where
  "createListener env clientOpts serverOpts limit opts s =
     (if list_ex (\<lambda>l. um_url (ls_sopts l) = um_url serverOpts) (chan_listeners s) then (Inr True, s)
      else
        let made = (if um_type serverOpts = TypeSocket then createTcpListener env serverOpts limit clientOpts opts
                    else if um_type serverOpts = TypeUnix then createUnixListener env serverOpts limit clientOpts opts
                    else Inl RuntimeError)
        in case made of
             Inl _ \<Rightarrow> (Inr False, s)
           | Inr l \<Rightarrow> (Inr True, s\<lparr>chan_listeners := chan_listeners s @ [l]\<rparr>))"

definition destroyListener :: "string \<Rightarrow> (chan_client, unit) exc" where
  "destroyListener clientUrl s =
     (case find (\<lambda>l. um_url (ls_copts l) = clientUrl) (chan_listeners s) of
        None \<Rightarrow> (Inr (), s)
      | Some l \<Rightarrow>
          eseq (emodify (\<lambda>s. s\<lparr>chan_listeners := remove_first (\<lambda>l. um_url (ls_copts l) = clientUrl) (chan_listeners s)\<rparr>))
            (close_fd (ls_srvfd l)) s)"

text \<open>
  One round of \<open>loopAccept\<close> that has input; \<open>sock\<close> is the answer of \<open>accept\<close>. The thread is then in
  \<open>createChannelAcceptFd\<close>, whose steps are those of \<open>accept_step\<close>; a call that returns \<open>false\<close> closes the connection.
\<close>

definition accept_round :: "int \<Rightarrow> listener \<Rightarrow> (chan_client, listener) exc" where
  "accept_round sock l =
     (if \<not> ls_running l then ereturn l
      else if sock < 0 then ereturn (l\<lparr>ls_running := False\<rparr>)
      else case createChannelAcceptFd_begin (ls_copts l) sock (ls_sopts l) (ls_chopts l) of
          None \<Rightarrow> eseq (close_fd sock) (ereturn l)
        | Some cr \<Rightarrow> ereturn (l\<lparr>ls_creating := Some cr\<rparr>))"

definition accept_step :: "chan_env \<Rightarrow> listener \<Rightarrow> (chan_client, listener) exc" where
  "accept_step env l =
     (case ls_creating l of
        None \<Rightarrow> ereturn l
      | Some cr \<Rightarrow> ebind (creation_step env cr) (\<lambda>r. case r of
          Inl ok \<Rightarrow> eseq (ewhen (\<not> ok) (close_fd (cr_fd cr))) (ereturn (l\<lparr>ls_creating := None\<rparr>))
        | Inr cr' \<Rightarrow> ereturn (l\<lparr>ls_creating := Some cr'\<rparr>)))"

definition on_listener :: "nat \<Rightarrow> (listener \<Rightarrow> (chan_client, listener) exc) \<Rightarrow> (chan_client, unit) exc" where
  "on_listener i f =
     ebind (egets (\<lambda>s. chan_listeners s ! i)) (\<lambda>l.
     ebind (f l) (\<lambda>l'.
     emodify (\<lambda>s. s\<lparr>chan_listeners := (chan_listeners s)[i := l']\<rparr>)))"

section \<open>Calls of \<open>createChannel\<close>\<close>

definition create_start :: "urlmode \<Rightarrow> urlmode \<Rightarrow> chan_opts \<Rightarrow> (chan_client, unit) exc" where
  "create_start copts sopts opts = (case createChannel_begin copts sopts opts of
       None \<Rightarrow> ereturn ()
     | Some cr \<Rightarrow> emodify (\<lambda>s. s\<lparr>ch_creating := ch_creating s @ [cr]\<rparr>))"

definition create_step :: "chan_env \<Rightarrow> nat \<Rightarrow> (chan_client, unit) exc" where
  "create_step env i =
     ebind (egets (\<lambda>s. ch_creating s ! i)) (\<lambda>cr.
     ebind (creation_step env cr) (\<lambda>r. case r of
       Inl _ \<Rightarrow> emodify (\<lambda>s. s\<lparr>ch_creating := take i (ch_creating s) @ drop (Suc i) (ch_creating s)\<rparr>)
     | Inr cr' \<Rightarrow> emodify (\<lambda>s. s\<lparr>ch_creating := (ch_creating s)[i := cr']\<rparr>)))"

section \<open>Actions\<close>

text \<open>
  \<open>Remove\<close>: a thread of \<open>destroyChannel\<close> takes the lock of the channels and stops the channel; \<open>Erase\<close>: its threads have
  ended, the connector is destroyed and the lock released. Handlers that look for channels wait for that lock. \<open>Create\<close> and
  \<open>Accept\<close> begin a call that looks for a number, \<open>CreateStep\<close> and \<open>AcceptStep\<close> are its steps. Only the one thread that receives
  makes channels, and holds the lock of the plans from the end of a plan to its channel, so that \<open>Receive\<close> is one action. The
  destructor of a listener waits for its thread.
\<close>

datatype chan_action =
    Receive u8 bytes
  | Create urlmode urlmode chan_opts
  | CreateStep nat
  | Accept nat int
  | AcceptStep nat
  | Destroy u8
  | Listen urlmode urlmode nat chan_opts
  | Unlisten string
  | Remove nat
  | Erase
  | ReaderRound u8 read_calls
  | WriterRound u8 "sys_write list list"
  | Shutdown

definition thread_round :: "u8 \<Rightarrow> (connector \<Rightarrow> (chan_client, connector) exc) \<Rightarrow> (chan_client, unit) exc" where
  "thread_round ch f =
     ebind (egets (findChannel ch)) (\<lambda>found. case found of
       None \<Rightarrow> ereturn ()
     | Some c \<Rightarrow> ebind (f c) (\<lambda>c'. on_channel ch (\<lambda>_. c')))"

definition remove_start :: "nat \<Rightarrow> (chan_client, unit) exc" where
  "remove_start i s =
     (let ch = ch_destroys s ! i; rest = take i (ch_destroys s) @ drop (Suc i) (ch_destroys s) in
      case findChannel ch s of
        None \<Rightarrow> (Inr (), s\<lparr>ch_destroys := rest\<rparr>)
      | Some _ \<Rightarrow> eseq (on_channel ch (\<lambda>c. c\<lparr>loopRunning := False\<rparr>))
          (emodify (\<lambda>s. s\<lparr>ch_destroys := rest, ch_removing := Some ch\<rparr>)) s)"

definition remove_end :: "(chan_client, unit) exc" where
  "remove_end s =
     (case ch_removing s of
        None \<Rightarrow> (Inr (), s)
      | Some ch \<Rightarrow>
          (case findChannel ch s of
             None \<Rightarrow> (Inr (), s\<lparr>ch_removing := None\<rparr>)
           | Some c \<Rightarrow> (Inr (), s\<lparr>channels := remove_first (\<lambda>c. cn_channel c = ch) (channels s),
               ch_closed := ch_closed s @ cn_closes c, ch_removing := None\<rparr>)))"

definition can_do :: "chan_action \<Rightarrow> chan_client \<Rightarrow> bool" where
  "can_do a s = (case a of
       ReaderRound _ _ \<Rightarrow> True
     | WriterRound _ _ \<Rightarrow> True
     | Destroy _ \<Rightarrow> True
     | Erase \<Rightarrow> (case ch_removing s of
           None \<Rightarrow> False
         | Some ch \<Rightarrow> (case findChannel ch s of None \<Rightarrow> True | Some c \<Rightarrow> threads_ended c))
     | Remove i \<Rightarrow> ch_removing s = None \<and> i < length (ch_destroys s)
     | Listen _ _ _ _ \<Rightarrow> True
     | Unlisten url \<Rightarrow> (case find (\<lambda>l. um_url (ls_copts l) = url) (chan_listeners s) of
           None \<Rightarrow> True | Some l \<Rightarrow> (case ls_creating l of None \<Rightarrow> True | Some _ \<Rightarrow> False))
     | Create _ _ _ \<Rightarrow> True
     | CreateStep i \<Rightarrow> i < length (ch_creating s) \<and> \<not> creation_waits (ch_creating s ! i) s
     | Accept i _ \<Rightarrow> i < length (chan_listeners s) \<and> (case ls_creating (chan_listeners s ! i) of None \<Rightarrow> True | Some _ \<Rightarrow> False)
     | AcceptStep i \<Rightarrow> i < length (chan_listeners s) \<and>
         (case ls_creating (chan_listeners s ! i) of None \<Rightarrow> False | Some cr \<Rightarrow> \<not> creation_waits cr s)
     | _ \<Rightarrow> ch_removing s = None)"

definition chan_do :: "chan_env \<Rightarrow> zlib \<Rightarrow> (bytes \<Rightarrow> (chan_client, unit) exc) \<Rightarrow> chan_action \<Rightarrow> (chan_client, unit) exc" where
  "chan_do env z sys a = (case a of
       Receive ch buf \<Rightarrow> recvLtsmEvent env sys ch buf
     | Create copts sopts opts \<Rightarrow> create_start copts sopts opts
     | CreateStep i \<Rightarrow> create_step env i
     | Accept i sock \<Rightarrow> on_listener i (accept_round sock)
     | AcceptStep i \<Rightarrow> on_listener i (accept_step env)
     | Destroy ch \<Rightarrow> destroyChannel ch
     | Listen copts sopts limit opts \<Rightarrow> ebind (createListener env copts sopts limit opts) (\<lambda>_. ereturn ())
     | Unlisten url \<Rightarrow> destroyListener url
     | Remove i \<Rightarrow> remove_start i
     | Erase \<Rightarrow> remove_end
     | ReaderRound ch rc \<Rightarrow> thread_round ch (reader_round env z rc)
     | WriterRound ch wss \<Rightarrow> thread_round ch (writer_round env z wss)
     | Shutdown \<Rightarrow> channelsShutdown)"

text \<open>
  The states of a client of channels under every interleaving, with the environment that every action finds; an action that
  throws leaves the state that it has reached.
\<close>

inductive chan_reach :: "zlib \<Rightarrow> (chan_env \<Rightarrow> bytes \<Rightarrow> (chan_client, unit) exc) \<Rightarrow> chan_client \<Rightarrow> bool"
  for z sys where
  chan_start: "chan_reach z sys channelClient"
| chan_action: "chan_reach z sys s \<Longrightarrow> can_do a s \<Longrightarrow> chan_reach z sys (snd (chan_do env z (sys env) a s))"

end
