(* ===== verification/Channel_Invariant.thy ===== *)
theory Channel_Invariant
  imports Channel_Threads
begin

text \<open>
  What every interleaving of handlers and threads keeps of the channels of a server: no two of them have the same number,
  every connector has the directions and threads of its kind, and no number that is searched, planned or in use is one of
  the two that are reserved. The numbers of plans may coincide, with one another and with that of a channel.
\<close>

section \<open>Sending changes no channel\<close>

text \<open>\<open>quiet R m\<close>: the method leaves the channels, the plans and the searches, and what it returns satisfies \<open>R\<close>.\<close>

definition same_tables :: "chan_client \<Rightarrow> chan_client \<Rightarrow> bool" where
  "same_tables s t \<longleftrightarrow> channels t = channels s \<and> channelsPlanned t = channelsPlanned s \<and> ch_creating t = ch_creating s \<and>
     chan_listeners t = chan_listeners s"

lemma same_tables_refl [simp]: "same_tables s s"
  by (simp add: same_tables_def)

lemma same_tables_trans: "same_tables s t \<Longrightarrow> same_tables t u \<Longrightarrow> same_tables s u"
  by (simp add: same_tables_def)

definition quiet :: "('a \<Rightarrow> bool) \<Rightarrow> (chan_client, 'a) exc \<Rightarrow> bool" where
  "quiet R m \<longleftrightarrow> (\<forall>s. same_tables s (snd (m s)) \<and> (\<forall>a. fst (m s) = Inr a \<longrightarrow> R a))"

lemma quiet_return: "R a \<Longrightarrow> quiet R (ereturn a)" and quiet_throw: "quiet R (ethrow e)" and quiet_get: "(\<And>s. R (f s)) \<Longrightarrow> quiet R (egets f)"
  by (simp_all add: quiet_def)

lemma quietD: "quiet R m \<Longrightarrow> m s = (Inr a, t) \<Longrightarrow> R a"
  unfolding quiet_def by (erule allE [of _ s]) simp

lemma quiet_tables: "quiet R m \<Longrightarrow> m s = (r, t) \<Longrightarrow> same_tables s t"
  unfolding quiet_def by (erule allE [of _ s]) simp

lemma quiet_bind:
  assumes "quiet Q m" "\<And>a. Q a \<Longrightarrow> quiet R (f a)"
  shows "quiet R (ebind m f)"
  unfolding quiet_def
proof (rule allI)
  fix s
  obtain r t where m: "m s = (r, t)" by (cases "m s")
  note st = quiet_tables [OF assms(1) m]
  show "same_tables s (snd (ebind m f s)) \<and> (\<forall>a. fst (ebind m f s) = Inr a \<longrightarrow> R a)"
  proof (cases r)
    case (Inl e)
    with m st show ?thesis by (simp add: ebind_def)
  next
    case (Inr a)
    obtain q u where f: "f a t = (q, u)" by (cases "f a t")
    have q: "quiet R (f a)" by (rule assms(2), rule quietD [OF assms(1) m [unfolded Inr]])
    from same_tables_trans [OF st quiet_tables [OF q f]] quietD [OF q] f m Inr show ?thesis by (auto simp: ebind_def)
  qed
qed

lemma quiet_if: "(b \<Longrightarrow> quiet R m) \<Longrightarrow> (\<not> b \<Longrightarrow> quiet R n) \<Longrightarrow> quiet R (if b then m else n)"
  by simp

lemma quiet_seq: "quiet (\<lambda>_. True) m \<Longrightarrow> quiet R n \<Longrightarrow> quiet R (eseq m n)"
  by (rule quiet_bind)

lemma quiet_when: "quiet (\<lambda>_. True) m \<Longrightarrow> quiet (\<lambda>_. True) (ewhen b m)"
  by (simp add: ewhen_def quiet_return)

lemma quiet_send:
  "quiet (\<lambda>_. True) (send_data ch buf)" "quiet (\<lambda>_. True) (send_system kvs)" "quiet (\<lambda>_. True) (close_fd fd)"
  "quiet (\<lambda>_. True) (sendSystemChannelOpen env ch copts opts)" "quiet (\<lambda>_. True) (sendSystemChannelClose ch)"
  "quiet (\<lambda>_. True) (sendSystemChannelError ch code err)" "quiet (\<lambda>_. True) (sendSystemChannelConnected ch flags b)"
  by (simp_all add: quiet_def same_tables_def send_data_def send_system_def sendSystemChannelOpen_def sendSystemChannelClose_def
      sendSystemChannelError_def sendSystemChannelConnected_def close_fd_def ewhen_def)

section \<open>Well-formed connectors\<close>

text \<open>What no operation on a direction changes.\<close>

definition l2r_same :: "local2remote \<Rightarrow> local2remote \<Rightarrow> bool" where
  "l2r_same st' st \<longleftrightarrow> l2r_cid st' = l2r_cid st \<and> l2r_fd st' = l2r_fd st \<and> l2r_needClose st' = l2r_needClose st"

definition r2l_same :: "remote2local \<Rightarrow> remote2local \<Rightarrow> bool" where
  "r2l_same st' st \<longleftrightarrow> r2l_cid st' = r2l_cid st \<and> r2l_fd st' = r2l_fd st \<and> r2l_needClose st' = r2l_needClose st"

definition connector_ok :: "connector \<Rightarrow> bool" where
  "connector_ok c \<longleftrightarrow> cn_cid c \<noteq> 0 \<and> cn_cid c \<noteq> 255 \<and>
     (case localRemote c of None \<Rightarrow> \<not> has_reader (cn_kind c) | Some st \<Rightarrow> has_reader (cn_kind c) \<and> l2r_cid st = cn_cid c) \<and>
     (case remoteLocal c of None \<Rightarrow> \<not> has_writer (cn_kind c) | Some st \<Rightarrow> has_writer (cn_kind c) \<and> r2l_cid st = cn_cid c) \<and>
     (case (localRemote c, remoteLocal c) of
        (Some st, Some rt) \<Rightarrow> l2r_fd st = r2l_fd rt \<and> l2r_needClose st \<and> r2l_needClose rt | _ \<Rightarrow> True) \<and>
     (cn_reader c = NoThread \<longleftrightarrow> \<not> has_reader (cn_kind c)) \<and> (cn_writer c = NoThread \<longleftrightarrow> \<not> has_writer (cn_kind c)) \<and>
     ((\<forall>t. cn_kind c \<noteq> Device t) \<longrightarrow>
        cn_mode c = (if has_reader (cn_kind c) then if has_writer (cn_kind c) then ReadWrite else ReadOnly else WriteOnly))"

lemma channel_cid: "connector_ok c \<Longrightarrow> cn_channel c = cn_cid c"
  by (auto simp: connector_ok_def cn_channel_def has_reader_def has_writer_def split: connectorKind.splits option.splits)

definition ok_id :: "u8 \<Rightarrow> connector \<Rightarrow> bool" where
  "ok_id ch c \<longleftrightarrow> connector_ok c \<and> cn_cid c = ch"

lemma cid_speed:
  "l2r_cid (l2r_setSpeed s st) = l2r_cid st" "r2l_cid (r2l_setSpeed s st') = r2l_cid st'"
  "l2r_fd (l2r_setSpeed s st) = l2r_fd st" "r2l_fd (r2l_setSpeed s st') = r2l_fd st'"
  "l2r_needClose (l2r_setSpeed s st) = l2r_needClose st" "r2l_needClose (r2l_setSpeed s st') = r2l_needClose st'"
  by (simp_all add: l2r_setSpeed_def r2l_setSpeed_def split: speed.split)

lemma connectorFD_ok: "ch \<noteq> 0 \<Longrightarrow> ch \<noteq> 255 \<Longrightarrow> (\<forall>t. kind \<noteq> Device t) \<Longrightarrow> ok_id ch (connectorFD kind ch fd opts)"
  by (cases kind)
    (simp_all add: ok_id_def connectorFD_def connector_ok_def has_reader_def has_writer_def cid_speed local2Remote_FD_def
      remote2Local_FD_def Let_def)

lemma connectorDevice_ok: "ch \<noteq> 0 \<Longrightarrow> ch \<noteq> 255 \<Longrightarrow> ok_id ch (connectorDevice t ch md opts)"
  by (simp add: ok_id_def connectorDevice_def connector_ok_def has_reader_def has_writer_def)

text \<open>The makers of connectors.\<close>

lemma quiet_new:
  "ch \<noteq> 0 \<Longrightarrow> ch \<noteq> 255 \<Longrightarrow> (\<forall>t. kind \<noteq> Device t) \<Longrightarrow> quiet (ok_id ch) (new_connector kind ch fd opts)"
  unfolding new_connector_def by (intro quiet_seq quiet_send quiet_return connectorFD_ok)

lemma quiet_fd: "ch \<noteq> 0 \<Longrightarrow> ch \<noteq> 255 \<Longrightarrow> quiet (ok_id ch) (fd_connector ch fd md opts)"
  unfolding fd_connector_def by (cases md) (simp_all add: quiet_throw quiet_new)

lemma quiet_makers:
  assumes "ch \<noteq> 0" "ch \<noteq> 255"
  shows "quiet (ok_id ch) (createSockConnector ch sock md opts)"
    "quiet (ok_id ch) (createUnixConnector env ch path md opts)"
    "quiet (ok_id ch) (createTcpConnector env ch ipaddr port md opts)"
    "quiet (ok_id ch) (createFileConnector env ch path md opts)"
    "quiet (ok_id ch) (createCommandConnector env ch runcmd md opts)"
  unfolding createSockConnector_def createUnixConnector_def createTcpConnector_def createFileConnector_def
    createCommandConnector_def Let_def
  using assms by (auto intro!: quiet_throw quiet_fd quiet_new split: list.split option.split)

lemma running_ok [simp]:
  "connector_ok (c\<lparr>loopRunning := b\<rparr>) = connector_ok c" "cn_channel (c\<lparr>loopRunning := b\<rparr>) = cn_channel c"
  by (simp_all add: connector_ok_def cn_channel_def split: option.split connectorKind.split)

section \<open>The invariant\<close>

definition number_ok :: "u8 \<Rightarrow> bool" where
  "number_ok ch \<longleftrightarrow> ch \<noteq> 0 \<and> ch \<noteq> 255"

definition creation_ok :: "creation \<Rightarrow> bool" where
  "creation_ok cr = (case cr_at cr of
       LookChannel ch \<Rightarrow> ch \<noteq> 0 | LookPlanned ch \<Rightarrow> number_ok ch | EnterPlan ch \<Rightarrow> number_ok ch | SendOpen ch \<Rightarrow> number_ok ch)"

definition listener_ok :: "listener \<Rightarrow> bool" where
  "listener_ok l = (case ls_creating l of None \<Rightarrow> True | Some cr \<Rightarrow> creation_ok cr)"

definition chan_inv :: "chan_client \<Rightarrow> bool" where
  "chan_inv s \<longleftrightarrow> distinct (map cn_channel (channels s)) \<and> (\<forall>c \<in> set (channels s). connector_ok c) \<and>
     (\<forall>p \<in> set (channelsPlanned s). number_ok (pl_channel p)) \<and> (\<forall>cr \<in> set (ch_creating s). creation_ok cr) \<and>
     (\<forall>l \<in> set (chan_listeners s). listener_ok l)"

definition free_id :: "u8 \<Rightarrow> chan_client \<Rightarrow> bool" where
  "free_id ch s \<longleftrightarrow> number_ok ch \<and> ch \<notin> cn_channel ` set (channels s)"

lemma found_none: "findChannel ch s = None \<longleftrightarrow> ch \<notin> cn_channel ` set (channels s)"
  by (auto simp: findChannel_def find_None_iff)

lemma found_some: "findChannel ch s = Some c \<Longrightarrow> c \<in> set (channels s) \<and> cn_channel c = ch"
  by (auto simp: findChannel_def find_Some_iff)

lemma quiet_inv: "quiet R m \<Longrightarrow> chan_inv s \<Longrightarrow> chan_inv (snd (m s))"
  by (simp add: quiet_def same_tables_def chan_inv_def)

lemma quiet_free: "quiet R m \<Longrightarrow> free_id ch s \<Longrightarrow> free_id ch (snd (m s))"
  by (simp add: quiet_def same_tables_def free_id_def)

lemma quiet_keeps: "quiet R m \<Longrightarrow> keeps chan_inv m"
  by (simp add: keeps_def quiet_inv)

lemma add_channel_inv:
  "chan_inv s \<Longrightarrow> free_id ch s \<Longrightarrow> ok_id ch c \<Longrightarrow> chan_inv (s\<lparr>channels := channels s @ [c]\<rparr>)"
  by (auto simp: chan_inv_def free_id_def ok_id_def channel_cid)

text \<open>\<open>adds ch m\<close>: the method keeps the invariant where the number is free.\<close>

definition adds :: "u8 \<Rightarrow> (chan_client, 'a) exc \<Rightarrow> bool" where
  "adds ch m \<longleftrightarrow> (\<forall>s. chan_inv s \<longrightarrow> free_id ch s \<longrightarrow> chan_inv (snd (m s)))"

lemma adds_keeps: "keeps chan_inv m \<Longrightarrow> adds ch m"
  by (simp add: adds_def keeps_def)

lemma adds_if: "adds ch m \<Longrightarrow> adds ch n \<Longrightarrow> adds ch (if b then m else n)"
  by simp

lemma adds_bind:
  assumes "adds ch m" "\<And>a. keeps chan_inv (f a)"
  shows "adds ch (ebind m f)"
  unfolding adds_def
proof (intro allI impI)
  fix s assume s: "chan_inv s" "free_id ch s"
  obtain r t where m: "m s = (r, t)" by (cases "m s")
  with assms(1) s have "chan_inv t" by (force simp: adds_def)
  with m assms(2) show "chan_inv (snd (ebind m f s))"
    by (cases r) (simp_all add: ebind_def keeps_def)
qed

lemma adds_after:
  assumes "quiet R m" "\<And>a. adds ch (f a)"
  shows "adds ch (ebind m f)"
  unfolding adds_def
proof (intro allI impI)
  fix s assume s: "chan_inv s" "free_id ch s"
  obtain r t where m: "m s = (r, t)" by (cases "m s")
  with quiet_inv [OF assms(1) s(1)] quiet_free [OF assms(1) s(2)] have "chan_inv t" "free_id ch t" by simp_all
  with m assms(2) show "chan_inv (snd (ebind m f s))"
    by (cases r) (simp_all add: ebind_def adds_def)
qed

lemma emplace_adds:
  assumes "ch \<noteq> 0 \<Longrightarrow> ch \<noteq> 255 \<Longrightarrow> quiet (ok_id ch) m"
  shows "adds ch (emplace_channel m)"
  unfolding adds_def
proof (intro allI impI)
  fix s assume s: "chan_inv s" "free_id ch s"
  then have q: "quiet (ok_id ch) m" using assms by (simp add: free_id_def number_ok_def)
  obtain r t where m: "m s = (r, t)" by (cases "m s")
  from quiet_inv [OF q s(1)] quiet_free [OF q s(2)] m have t: "chan_inv t" "free_id ch t" by simp_all
  show "chan_inv (snd (emplace_channel m s))"
  proof (cases r)
    case (Inr c)
    have "ok_id ch c" by (rule quietD [OF q m [unfolded Inr]])
    with t add_channel_inv [of t ch c] show ?thesis using m Inr by (simp add: emplace_channel_def ebind_def ecatch_def)
  qed (use m t in \<open>simp add: emplace_channel_def ebind_def ecatch_def\<close>)
qed

lemma creates_add:
  "adds ch (createChannelUnix env ch path md opts)" "adds ch (createChannelFd ch sock md opts)"
  "adds ch (createChannelFile env ch path md opts)" "adds ch (createChannelCommand env ch runcmd md opts)"
  "adds ch (createChannelSocket env ch addr md opts)" "adds ch (createChannelDevice env t ch md opts)"
  unfolding createChannelUnix_def createChannelFd_def createChannelFile_def createChannelCommand_def createChannelSocket_def
    createChannelDevice_def
  by (intro adds_if emplace_adds quiet_makers adds_keeps keeps_basic quiet_seq quiet_send quiet_return connectorDevice_ok;
      assumption)+

section \<open>The handlers\<close>

lemma quiet_modify: "(\<And>s. same_tables s (f s)) \<Longrightarrow> quiet (\<lambda>_. True) (emodify f)"
  by (simp add: quiet_def)

lemma update_first_map: "(\<And>x. g (f x) = g x) \<Longrightarrow> map g (update_first P f xs) = map g xs"
  by (induction xs) simp_all

lemma update_first_set: "x \<in> set (update_first P f xs) \<Longrightarrow> x \<in> set xs \<or> (\<exists>y \<in> set xs. P y \<and> x = f y)"
  by (induction xs) (auto split: if_splits)

lemma remove_first_map: "distinct (map g xs) \<Longrightarrow> remove_first (\<lambda>x. g x = k) xs = filter (\<lambda>x. g x \<noteq> k) xs"
proof (induction xs)
  case (Cons x xs)
  then show ?case by (cases "g x = k") (auto intro!: filter_True [symmetric], metis imageI)
qed simp

lemma remove_first_set: "x \<in> set (remove_first P xs) \<Longrightarrow> x \<in> set xs"
  by (induction xs) (auto split: if_splits)

lemma on_channel_keeps:
  assumes "\<And>c. connector_ok c \<Longrightarrow> connector_ok (f c)" "\<And>c. cn_channel (f c) = cn_channel c"
  shows "keeps chan_inv (on_channel ch f)"
  unfolding on_channel_def
proof (rule keeps_modify)
  fix s assume "chan_inv s"
  then show "chan_inv (s\<lparr>channels := update_first (\<lambda>c. cn_channel c = ch) f (channels s)\<rparr>)"
    using assms(1) unfolding chan_inv_def
    by (auto simp: update_first_map [where g = cn_channel, OF assms(2)] simp flip: set_map simp del: set_map
        dest!: update_first_set)
qed

lemma channel_flags_keep:
  "keeps chan_inv (on_channel ch (\<lambda>c. c\<lparr>remoteConnected := b\<rparr>))"
  "keeps chan_inv (on_channel ch (\<lambda>c. c\<lparr>loopRunning := b\<rparr>))"
  "keeps chan_inv (on_channel ch (cn_pushData buf))"
  by (rule on_channel_keeps;
      auto simp: connector_ok_def cn_channel_def cn_pushData_def r2l_pushData_def split: option.splits connectorKind.splits)+

lemma logs_keep:
  "keeps chan_inv (emodify (\<lambda>s. s\<lparr>ch_device := d s\<rparr>))" "keeps chan_inv (destroyChannel ch)"
  "keeps chan_inv (emodify (\<lambda>s. s\<lparr>ch_destroys := ds s, ch_removing := r s\<rparr>))"
  by (simp_all add: keeps_def chan_inv_def destroyChannel_def)

lemma planned_create_adds: "adds (pl_channel job) (channelPlannedCreate env job)"
proof -
  have ret: "adds ch m \<Longrightarrow> adds ch (eseq m (ereturn True))" for ch and m :: "(chan_client, bool) exc"
    by (rule adds_bind, assumption, rule keeps_basic)
  have stop: "adds ch (ereturn b)" "adds ch (ethrow e)" for ch and b :: bool and e
    by (simp_all add: adds_keeps keeps_basic)
  show ?thesis
    unfolding channelPlannedCreate_def Let_def
    by (cases "um_type (pl_serverOpts job)") (simp_all add: ret creates_add stop)
qed

lemma planned_connected_keeps:
  assumes "chan_inv s" "p \<in> set (channelsPlanned s)"
  shows "chan_inv (snd (planned_connected env err flags p s))"
proof -
  let ?s = "s\<lparr>channelsPlanned := remove_first (\<lambda>q. pl_channel q = pl_channel p) (channelsPlanned s)\<rparr>"
  let ?job = "p\<lparr>pl_chOpts := (pl_chOpts p)\<lparr>opt_flags := flags\<rparr>\<rparr>"
  have s: "chan_inv ?s" "findChannel (pl_channel p) ?s = None \<Longrightarrow> free_id (pl_channel p) ?s"
    using assms by (auto simp: chan_inv_def free_id_def found_none dest: remove_first_set)
  have job: "pl_channel ?job = pl_channel p" by simp
  show ?thesis
  proof (cases "err \<or> pl_channel p = 0 \<or> pl_channel p = 255 \<or> findChannel (pl_channel p) ?s \<noteq> None")
    case True
    then show ?thesis
      using quiet_inv [OF quiet_seq [OF quiet_send(3) quiet_return [of "\<lambda>_. True"]] s(1)]
      by (simp add: planned_connected_def Let_def)
  next
    case False
    then have "chan_inv (snd (channelPlannedCreate env ?job ?s))"
      using planned_create_adds [of ?job env] s unfolding adds_def job by blast
    with False show ?thesis by (simp add: planned_connected_def Let_def)
  qed
qed

lemma connected_keeps: "keeps chan_inv (systemChannelConnected env ops jo)"
  unfolding systemChannelConnected_def
proof (rule keeps_bind, rule keeps_basic, rule keeps_bind, rule keeps_basic, rule keeps_bind, rule keeps_basic)
  fix channel flags :: u32 and err
  show "keeps chan_inv (ebind (egets (\<lambda>s. find (\<lambda>p. int (unat (pl_channel p)) = sint channel) (channelsPlanned s)))
     (\<lambda>found. ebind (case found of None \<Rightarrow> ereturn True | Some p \<Rightarrow> planned_connected env err flags p)
     (\<lambda>go. if \<not> go then ereturn False
       else eseq (on_channel (ucast channel) (\<lambda>c. c\<lparr>remoteConnected := True\<rparr>)) (ereturn True))))"
    (is "keeps _ (ebind (egets ?find) (\<lambda>found. ebind (?job found) ?go))")
  proof (rule keepsI)
    fix s assume s: "chan_inv s"
    have go: "keeps chan_inv (?go b)" for b by (intro keeps_if keeps_basic keeps_bind channel_flags_keep)
    have "chan_inv (snd (?job (?find s) s))"
      using s by (auto simp: find_Some_iff intro!: planned_connected_keeps split: option.split)
    with go have "chan_inv (snd (ebind (?job (?find s)) ?go s))"
      by (cases "?job (?find s) s") (auto simp: ebind_def keeps_def split: sum.split)
    then show "chan_inv (snd (ebind (egets ?find) (\<lambda>found. ebind (?job found) ?go) s))" by simp
  qed
qed

lemma close_keeps: "keeps chan_inv (systemChannelClose ops jo)"
  unfolding systemChannelClose_def by (intro keeps_bind keeps_basic logs_keep)

lemma server_event_keeps:
  assumes "\<And>cmd jo. keeps chan_inv (virt cmd jo)"
  shows "keeps chan_inv (server_recvChannelSystemEvent env ops virt buf)"
  unfolding server_recvChannelSystemEvent_def
  by (intro keeps_bind keeps_basic) (auto intro!: keeps_basic keeps_bind close_keeps connected_keeps assms)

lemma data_keeps: "keeps chan_inv (recvChannelData env ch buf)"
  unfolding recvChannelData_def
  by (intro keeps_bind keeps_basic) (auto intro!: keeps_basic logs_keep channel_flags_keep split: option.split connectorKind.split)

lemma ltsm_event_keeps: "(\<And>buf. keeps chan_inv (sys buf)) \<Longrightarrow> keeps chan_inv (recvLtsmEvent env sys ch buf)"
  unfolding recvLtsmEvent_def by (intro keeps_if keeps_basic data_keeps)

section \<open>New plans\<close>

lemma find_SomeD: "find P xs = Some x \<Longrightarrow> P x \<and> x \<in> set xs"
  by (induction xs) (auto split: if_splits)

lemma free_channel_free:
  assumes "free_channel s = Some ch"
  shows "free_id ch s" and "ch \<notin> pl_channel ` set (channelsPlanned s)"
proof -
  have none: "findChannel ch s = None" "findPlanned ch s = None" and mem: "ch \<in> set (map of_nat [1..<255])"
    using assms unfolding free_channel_def by (blast dest: find_SomeD)+
  from mem obtain n :: nat where n: "ch = of_nat n" "1 \<le> n" "n < 255" by auto
  then have "unat ch = n" by (simp add: unsigned_of_nat take_bit_eq_mod)
  with n have "ch \<noteq> 0" "ch \<noteq> 255" by auto
  with none show "free_id ch s" "ch \<notin> pl_channel ` set (channelsPlanned s)"
    by (auto simp: free_id_def number_ok_def found_none findPlanned_def find_None_iff)
qed

lemma next_number: "(ch :: u8) \<noteq> 255 \<Longrightarrow> ch + 1 \<noteq> 0"
proof
  assume "ch \<noteq> 255" "ch + 1 = 0"
  from \<open>ch + 1 = 0\<close> have "ch = - 1" by (simp add: add_eq_0_iff2)
  with \<open>ch \<noteq> 255\<close> show False by simp
qed

lemma begin_ok:
  "createChannel_begin copts sopts opts = Some cr \<Longrightarrow> creation_ok cr"
  "createChannelAcceptFd_begin copts sock sopts opts = Some cr \<Longrightarrow> creation_ok cr"
  by (auto simp: createChannel_begin_def createChannelAcceptFd_begin_def creation_ok_def split: if_splits)

text \<open>A step of a search keeps the invariant and changes neither the searches nor the listeners; where it goes on, it looks at a proper number.\<close>

lemma creation_step_ok:
  assumes "chan_inv s" "creation_ok cr" "creation_step env cr s = (r, t)"
  shows "chan_inv t" "ch_creating t = ch_creating s" "chan_listeners t = chan_listeners s" "r = Inr (Inr cr') \<Longrightarrow> creation_ok cr'"
proof -
  have send: "quiet (\<lambda>_. True) (sendSystemChannelOpen env ch c o')" for ch c o' by (rule quiet_send)
  have "chan_inv t \<and> ch_creating t = ch_creating s \<and> chan_listeners t = chan_listeners s \<and> (\<forall>cr'. r = Inr (Inr cr') \<longrightarrow> creation_ok cr')"
  proof (cases "cr_at cr")
    case (LookChannel ch)
    with assms show ?thesis
      by (auto simp: creation_step_def creation_ok_def number_ok_def next_number split: if_splits option.splits)
  next
    case (LookPlanned ch)
    with assms show ?thesis
      by (auto simp: creation_step_def creation_ok_def number_ok_def next_number split: option.splits)
  next
    case (EnterPlan ch)
    with assms show ?thesis
      by (auto simp: creation_step_def creation_ok_def plannedEmplace_def chan_inv_def)
  next
    case (SendOpen ch)
    obtain r' t' where o: "sendSystemChannelOpen env ch (cr_copts cr) (cr_opts cr) s = (r', t')"
      by (cases "sendSystemChannelOpen env ch (cr_copts cr) (cr_opts cr) s")
    then have "same_tables s t'" by (rule quiet_tables [OF send])
    moreover have "t = t'" "\<forall>cr'. r \<noteq> Inr (Inr cr')"
      using SendOpen assms(3) o by (auto simp: creation_step_def ebind_def split: sum.splits)
    ultimately show ?thesis using assms(1) by (simp add: same_tables_def chan_inv_def)
  qed
  then show "chan_inv t" "ch_creating t = ch_creating s" "chan_listeners t = chan_listeners s" "r = Inr (Inr cr') \<Longrightarrow> creation_ok cr'"
    by blast+
qed

lemma create_keeps: "keeps chan_inv (create_start copts sopts opts)"
  unfolding create_start_def
  by (rule keepsI) (auto simp: chan_inv_def begin_ok split: option.split)

lemma set_without: "x \<in> set (take i xs @ drop (Suc i) xs) \<Longrightarrow> x \<in> set xs"
  by (auto dest: in_set_takeD in_set_dropD)

lemma create_step_inv:
  assumes "chan_inv s" "i < length (ch_creating s)"
  shows "chan_inv (snd (create_step env i s))"
proof -
  let ?cr = "ch_creating s ! i"
  obtain r t where st: "creation_step env ?cr s = (r, t)" by (cases "creation_step env ?cr s")
  have "creation_ok ?cr" using assms by (simp add: chan_inv_def)
  note ok = creation_step_ok [OF assms(1) this st]
  show ?thesis
  proof (cases r)
    case (Inr q)
    show ?thesis
    proof (cases q)
      case (Inl b)
      have "chan_inv (t\<lparr>ch_creating := take i (ch_creating t) @ drop (Suc i) (ch_creating t)\<rparr>)"
        using ok(1) by (auto simp: chan_inv_def dest: in_set_takeD in_set_dropD)
      with st Inr Inl show ?thesis by (simp add: create_step_def ebind_def)
    next
      case (Inr cr')
      then have "creation_ok cr'" using ok(4) \<open>r = Inr q\<close> by simp
      then have "chan_inv (t\<lparr>ch_creating := (ch_creating t)[i := cr']\<rparr>)"
        using ok(1) by (auto simp: chan_inv_def dest: set_update_subset_insert [THEN subsetD])
      with st \<open>r = Inr q\<close> Inr show ?thesis by (simp add: create_step_def ebind_def)
    qed
  qed (use st ok in \<open>simp add: create_step_def ebind_def\<close>)
qed

section \<open>Threads\<close>

text \<open>A round of a thread keeps the number and the shape of its connector.\<close>

definition same_connector :: "connector \<Rightarrow> connector \<Rightarrow> bool" where
  "same_connector c c' \<longleftrightarrow> connector_ok c' \<and> cn_channel c' = cn_channel c"

lemma read_cid: "l2r_same (snd (readData z rc st)) st"
  by (auto simp: l2r_same_def readData_def Let_def split: sum.split sys_read.split)

lemma write_cid: "r2l_same (snd (writeData z ws st)) st"
proof -
  have pop: "r2l_same (snd (popData st)) st" by (simp add: r2l_same_def popData_def Let_def split: list.split)
  have loop: "r2l_same (snd (write_loop buf ws st)) st" for buf st
    by (induction buf ws st rule: write_loop.induct) (auto simp: r2l_same_def)
  obtain buf st' where "popData st = (buf, st')" by (cases "popData st")
  with pop loop show ?thesis by (simp add: r2l_same_def writeData_def Let_def split: sum.split)
qed

lemma drain_cid: "r2l_same (snd (drain z wss st)) st"
proof (induction z wss st rule: drain.induct)
  case (2 z ws wss st)
  obtain r st' where w: "writeData z ws st = (r, st')" by (cases "writeData z ws st")
  then have "r2l_same st' st" using write_cid [of z ws st] by simp
  with 2 w show ?case by (auto simp: r2l_same_def split: sum.split bool.split)
qed (simp add: r2l_same_def)

lemma ok_parts:
  assumes "connector_ok c"
  shows "cn_reader c = Looping e \<Longrightarrow> localRemote c = Some st \<Longrightarrow> l2r_same st' st \<Longrightarrow> t \<noteq> NoThread \<Longrightarrow>
      same_connector c (c\<lparr>localRemote := Some st', cn_reader := t, loopRunning := b\<rparr>)"
    and "cn_writer c = Looping e \<Longrightarrow> remoteLocal c = Some rt \<Longrightarrow> r2l_same rt' rt \<Longrightarrow> t \<noteq> NoThread \<Longrightarrow>
      same_connector c (c\<lparr>remoteLocal := Some rt', cn_writer := t, loopRunning := b\<rparr>)"
proof -
  show "same_connector c (c\<lparr>localRemote := Some st', cn_reader := t, loopRunning := b\<rparr>)"
    if "cn_reader c = Looping e" "localRemote c = Some st" "l2r_same st' st" "t \<noteq> NoThread"
  proof -
    have "connector_ok (c\<lparr>localRemote := Some st', cn_reader := t, loopRunning := b\<rparr>)"
      using assms that by (auto simp: connector_ok_def l2r_same_def r2l_same_def split: option.splits)
    from channel_cid [OF this] channel_cid [OF assms] this show ?thesis by (simp add: same_connector_def)
  qed
  show "same_connector c (c\<lparr>remoteLocal := Some rt', cn_writer := t, loopRunning := b\<rparr>)"
    if "cn_writer c = Looping e" "remoteLocal c = Some rt" "r2l_same rt' rt" "t \<noteq> NoThread"
  proof -
    have "connector_ok (c\<lparr>remoteLocal := Some rt', cn_writer := t, loopRunning := b\<rparr>)"
      using assms that by (auto simp: connector_ok_def l2r_same_def r2l_same_def split: option.splits)
    from channel_cid [OF this] channel_cid [OF assms] this show ?thesis by (simp add: same_connector_def)
  qed
qed

lemma same_parts: "l2r_same st st" "r2l_same rt rt" "l2r_same (st\<lparr>l2r_buf := b\<rparr>) st' = l2r_same st st'"
  by (simp_all add: l2r_same_def r2l_same_def)

lemma same_refl: "connector_ok c \<Longrightarrow> same_connector c c"
  by (simp add: same_connector_def)

lemma reader_send_quiet:
  assumes "same_connector c (d\<lparr>localRemote := Some st\<rparr>)" "same_connector c (d\<lparr>localRemote := Some (st\<lparr>l2r_buf := []\<rparr>)\<rparr>)"
  shows "quiet (same_connector c) (reader_send env st d)"
  unfolding reader_send_def using assms
  by (auto intro!: quiet_return quiet_seq quiet_send)

lemma reader_quiet: "connector_ok c \<Longrightarrow> quiet (same_connector c) (reader_round env z rc c)"
proof -
  assume c: "connector_ok c"
  show ?thesis
  proof (cases "\<exists>err st. cn_reader c = Looping err \<and> localRemote c = Some st")
    case True
    then obtain err st where th: "cn_reader c = Looping err" "localRemote c = Some st" by blast
    obtain r st' where rd: "readData z rc st = (r, st')" by (cases "readData z rc st")
    then have cid: "l2r_same st' st" using read_cid [of z rc st] by simp
    have ne: "cn_reader c \<noteq> NoThread" using th by simp
    have go: "same_connector c (c\<lparr>localRemote := Some st''\<rparr>)" if "l2r_same st'' st" for st''
      using ok_parts(1) [OF c th that, of "cn_reader c" "loopRunning c"] ne by simp
    have stop: "same_connector c (c\<lparr>cn_reader := Looping True, loopRunning := False, localRemote := Some st''\<rparr>)"
      if "l2r_same st'' st" for st''
    proof -
      have eq: "c\<lparr>cn_reader := Looping True, loopRunning := False, localRemote := Some st''\<rparr> =
          c\<lparr>localRemote := Some st'', cn_reader := Looping True, loopRunning := False\<rparr>" by (cases c) simp
      show ?thesis unfolding eq by (rule ok_parts(1) [OF c th that]) simp
    qed
    have fin: "same_connector c (c\<lparr>cn_reader := Ended\<rparr>)"
    proof -
      have eq: "c\<lparr>cn_reader := Ended\<rparr> = c\<lparr>localRemote := Some st, cn_reader := Ended, loopRunning := loopRunning c\<rparr>"
        using th(2) by (cases c) simp
      show ?thesis unfolding eq by (rule ok_parts(1) [OF c th]) (simp_all add: l2r_same_def)
    qed
    show ?thesis unfolding reader_round_def using th rd cid
      by (auto simp: reader_send_quiet go stop fin same_parts intro!: quiet_throw quiet_seq quiet_when quiet_send quiet_return
          split: sum.split bool.split)
  next
    case False
    then have "reader_round env z rc c = ereturn c"
      by (auto simp: reader_round_def split: thread.split option.split)
    with c show ?thesis by (simp add: quiet_return same_refl)
  qed
qed

lemma writer_quiet: "connector_ok c \<Longrightarrow> quiet (same_connector c) (writer_round env z wss c)"
proof -
  assume c: "connector_ok c"
  show ?thesis
  proof (cases "\<exists>err st. cn_writer c = Looping err \<and> remoteLocal c = Some st")
    case True
    then obtain err st where th: "cn_writer c = Looping err" "remoteLocal c = Some st" by blast
    let ?ws = "case wss of [] \<Rightarrow> [] | ws # _ \<Rightarrow> ws"
    obtain r st' where wr: "writeData z ?ws st = (r, st')" by (cases "writeData z ?ws st")
    obtain q st2 where dr: "drain z wss st = (q, st2)" by (cases "drain z wss st")
    have cid: "r2l_same st' st" "r2l_same st2 st"
      using write_cid [of z ?ws st] drain_cid [of z wss st] wr dr by simp_all
    have part: "same_connector c (c\<lparr>remoteLocal := Some st'', cn_writer := t, loopRunning := b\<rparr>)"
      if "r2l_same st'' st" "t \<noteq> NoThread" for st'' t b
      by (rule ok_parts(2) [OF c th that])
    have ne: "cn_writer c \<noteq> NoThread" using th by simp
    have go: "same_connector c (c\<lparr>remoteLocal := Some st'\<rparr>)" "same_connector c (c\<lparr>remoteLocal := Some st', cn_writer := Looping True, loopRunning := False\<rparr>)"
      "same_connector c (c\<lparr>remoteLocal := Some st, cn_writer := Ended\<rparr>)" "same_connector c (c\<lparr>remoteLocal := Some st2, cn_writer := Ended\<rparr>)"
      using part [of st' "cn_writer c" "loopRunning c"] part [of st' "Looping True" False] part [of st Ended "loopRunning c"]
        part [of st2 Ended "loopRunning c"] ne cid by (simp_all add: same_parts)
    show ?thesis unfolding writer_round_def Let_def using th wr dr
      by (auto simp: go same_refl c intro!: quiet_throw quiet_seq quiet_when quiet_send quiet_return split: sum.split bool.split)
  next
    case False
    then have "writer_round env z wss c = ereturn c"
      by (auto simp: writer_round_def split: thread.split option.split)
    with c show ?thesis by (simp add: quiet_return same_refl)
  qed
qed

lemma thread_keeps:
  assumes "\<And>c. connector_ok c \<Longrightarrow> quiet (same_connector c) (f c)"
  shows "keeps chan_inv (thread_round ch f)"
proof (rule keepsI)
  fix s assume s: "chan_inv s"
  show "chan_inv (snd (thread_round ch f s))"
  proof (cases "findChannel ch s")
    case (Some c)
    then have c: "c \<in> set (channels s)" "cn_channel c = ch" "connector_ok c"
      using s found_some [of ch s c] by (auto simp: chan_inv_def)
    obtain r t where f: "f c s = (r, t)" by (cases "f c s")
    have t: "chan_inv t" using quiet_inv [OF assms [OF c(3)] s] f by simp
    show ?thesis
    proof (cases r)
      case (Inr c')
      have c': "connector_ok c'" "cn_channel c' = ch"
        using quietD [OF assms [OF c(3)] f [unfolded Inr]] c(2) by (simp_all add: same_connector_def)
      have same: "map cn_channel (update_first (\<lambda>c. cn_channel c = ch) (\<lambda>_. c') xs) = map cn_channel xs" for xs
        using c'(2) by (induction xs) auto
      have ok: "connector_ok d" if "d \<in> set (update_first (\<lambda>c. cn_channel c = ch) (\<lambda>_. c') (channels t))" for d
        using update_first_set [OF that] c'(1) t by (auto simp: chan_inv_def)
      have "chan_inv (t\<lparr>channels := update_first (\<lambda>c. cn_channel c = ch) (\<lambda>_. c') (channels t)\<rparr>)"
        using t ok by (auto simp: chan_inv_def same simp flip: set_map simp del: set_map)
      then show ?thesis using Some f Inr by (simp add: thread_round_def on_channel_def ebind_def)
    qed (use Some f t in \<open>simp add: thread_round_def ebind_def\<close>)
  qed (simp add: thread_round_def s)
qed

section \<open>Removal and listeners\<close>

lemma remove_keeps: "keeps chan_inv (remove_start i)" "keeps chan_inv remove_end"
proof -
  show "keeps chan_inv (remove_start i)"
  proof (rule keepsI)
    fix s assume s: "chan_inv s"
    show "chan_inv (snd (remove_start i s))"
    proof (cases "findChannel (ch_destroys s ! i) s")
      case None
      then show ?thesis using s by (simp add: remove_start_def Let_def chan_inv_def)
    next
      case (Some c)
      have "keeps chan_inv (eseq (on_channel ch (\<lambda>c. c\<lparr>loopRunning := False\<rparr>))
          (emodify (\<lambda>s. s\<lparr>ch_destroys := ds, ch_removing := Some ch\<rparr>)))" for ch ds
        by (intro keeps_bind channel_flags_keep logs_keep(3))
      with Some s show ?thesis by (simp add: remove_start_def Let_def keeps_def)
    qed
  qed
  show "keeps chan_inv remove_end"
  proof (rule keepsI)
    fix s assume s: "chan_inv s"
    then have "remove_first (\<lambda>c. cn_channel c = ch) (channels s) = filter (\<lambda>c. cn_channel c \<noteq> ch) (channels s)" for ch
      by (intro remove_first_map) (simp add: chan_inv_def)
    with s show "chan_inv (snd (remove_end s))"
      by (auto simp: remove_end_def chan_inv_def distinct_map_filter split: option.split)
  qed
qed

lemma listen_keeps: "keeps chan_inv (createListener env copts sopts limit opts)" "keeps chan_inv (destroyListener url)"
proof -
  show "keeps chan_inv (createListener env copts sopts limit opts)"
    by (rule keepsI) (auto simp: createListener_def createTcpListener_def createUnixListener_def new_listener_def listener_ok_def
        Let_def chan_inv_def split: sum.splits if_splits prod.splits)
  show "keeps chan_inv (destroyListener url)"
  proof (rule keepsI)
    fix s assume "chan_inv s"
    then show "chan_inv (snd (destroyListener url s))"
      by (auto simp: destroyListener_def close_fd_def ewhen_def chan_inv_def dest: remove_first_set split: option.split)
  qed
qed

lemma accept_round_ok:
  assumes "chan_inv s" "listener_ok l" "accept_round sock l s = (r, t)"
  shows "chan_inv t" "r = Inr l' \<Longrightarrow> listener_ok l'"
  using assms begin_ok(2) [of "ls_copts l" sock "ls_sopts l" "ls_chopts l"]
  by (auto simp: accept_round_def close_fd_def ewhen_def chan_inv_def listener_ok_def ebind_def split: if_splits option.splits)

lemma accept_step_ok:
  assumes "chan_inv s" "listener_ok l" "accept_step env l s = (r, t)"
  shows "chan_inv t" "r = Inr l' \<Longrightarrow> listener_ok l'"
proof -
  have "chan_inv t \<and> (\<forall>l'. r = Inr l' \<longrightarrow> listener_ok l')"
  proof (cases "ls_creating l")
    case None
    with assms show ?thesis by (auto simp: accept_step_def)
  next
    case (Some cr)
    obtain q u where st: "creation_step env cr s = (q, u)" by (cases "creation_step env cr s")
    have "creation_ok cr" using assms(2) Some by (simp add: listener_ok_def)
    note ok = creation_step_ok [OF assms(1) this st]
    show ?thesis using assms(3) Some st ok(1) ok(4)
      by (auto simp: accept_step_def ebind_def close_fd_def ewhen_def chan_inv_def listener_ok_def split: sum.splits if_splits)
  qed
  then show "chan_inv t" "r = Inr l' \<Longrightarrow> listener_ok l'" by blast+
qed

lemma on_listener_inv:
  assumes "chan_inv s" "i < length (chan_listeners s)"
    and "\<And>l r t. listener_ok l \<Longrightarrow> f l s = (r, t) \<Longrightarrow> chan_inv t \<and> (\<forall>l'. r = Inr l' \<longrightarrow> listener_ok l')"
  shows "chan_inv (snd (on_listener i f s))"
proof -
  let ?l = "chan_listeners s ! i"
  obtain r t where st: "f ?l s = (r, t)" by (cases "f ?l s")
  have "listener_ok ?l" using assms(1,2) by (simp add: chan_inv_def)
  with assms(3) st have ok: "chan_inv t" "\<forall>l'. r = Inr l' \<longrightarrow> listener_ok l'" by blast+
  show ?thesis
  proof (cases r)
    case (Inr l')
    then have "chan_inv (t\<lparr>chan_listeners := (chan_listeners t)[i := l']\<rparr>)"
      using ok by (auto simp: chan_inv_def dest: set_update_subset_insert [THEN subsetD])
    with st Inr show ?thesis by (simp add: on_listener_def ebind_def)
  qed (use st ok in \<open>simp add: on_listener_def ebind_def\<close>)
qed

lemma do_keeps:
  assumes "\<And>buf. keeps chan_inv (sys buf)" "chan_inv s" "can_do a s"
  shows "chan_inv (snd (chan_do env z sys a s))"
proof (cases a)
  case (CreateStep i)
  with assms(2,3) show ?thesis by (simp add: chan_do_def can_do_def create_step_inv)
next
  case (Accept i sock)
  have "chan_inv (snd (on_listener i (accept_round sock) s))"
    using assms(3) Accept accept_round_ok [OF assms(2)]
    by (intro on_listener_inv [OF assms(2)]) (auto simp: can_do_def)
  with Accept show ?thesis by (simp add: chan_do_def)
next
  case (AcceptStep i)
  have "chan_inv (snd (on_listener i (accept_step env) s))"
    using assms(3) AcceptStep accept_step_ok [OF assms(2)]
    by (intro on_listener_inv [OF assms(2)]) (auto simp: can_do_def)
  with AcceptStep show ?thesis by (simp add: chan_do_def)
next
  case Shutdown
  have "keeps chan_inv channelsShutdown"
    unfolding channelsShutdown_def
    by (rule keeps_modify) (auto simp: chan_inv_def comp_def)
  with Shutdown assms(2) show ?thesis by (simp add: chan_do_def keeps_def)
qed (use assms(2) in \<open>auto simp: chan_do_def intro!: keeps_app [where P = chan_inv] ltsm_event_keeps assms(1) keeps_bind keeps_basic
      create_keeps listen_keeps remove_keeps logs_keep thread_keeps reader_quiet writer_quiet\<close>)

lemma reach_inv:
  assumes "chan_reach z sys s" "\<And>env buf. keeps chan_inv (sys env buf)"
  shows "chan_inv s"
  using assms(1)
proof induction
  case chan_start
  then show ?case by (simp add: chan_inv_def channelClient_def)
next
  case (chan_action s a env)
  then show ?case by (intro do_keeps assms(2))
qed

end
