(* ===== verification/Json_Roundtrip.thy ===== *)
theory Json_Roundtrip
  imports Json_Value
begin

text \<open>
  The texts of objects and arrays are read back: the tokens that \<open>jsmn_parse\<close> finds in the text of a value, and the
  value that is built from them.
\<close>

section \<open>Styles of text\<close>

text \<open>
  The program writes the same values in two styles: \<open>toString\<close> with spaces and the escapes of \<open>Tools::escaped\<close>, the
  streams without spaces and with those of \<open>std::quoted\<close>.
\<close>

record style =
  st_body :: "string \<Rightarrow> string"
  st_pad :: string

definition string_style :: style where
  "string_style = \<lparr>st_body = (\<lambda>s. concat (map escape_char s)), st_pad = '' ''\<rparr>"

definition stream_style :: style where
  "stream_style = \<lparr>st_body = (\<lambda>s. concat (map (\<lambda>ch. if ch = CHR 0x22 \<or> ch = CHR 0x5C then [CHR 0x5C, ch] else [ch]) s)),
     st_pad = []\<rparr>"

definition st_quote :: "style \<Rightarrow> string \<Rightarrow> string" where
  "st_quote sty s = [CHR 0x22] @ st_body sty s @ [CHR 0x22]"

fun value_text :: "style \<Rightarrow> 'd doubles \<Rightarrow> 'd json \<Rightarrow> string"
  and items_text :: "style \<Rightarrow> 'd doubles \<Rightarrow> 'd json list \<Rightarrow> string"
  and members_text :: "style \<Rightarrow> 'd doubles \<Rightarrow> 'd members \<Rightarrow> string" where
  "value_text sty ops (JsonObject ms) = ''{'' @ st_pad sty @ members_text sty ops ms @ st_pad sty @ ''}''"
| "value_text sty ops (JsonArray vs) = ''['' @ st_pad sty @ items_text sty ops vs @ st_pad sty @ '']''"
| "value_text sty ops (JsonString s) = st_quote sty s"
| "value_text sty ops v = jv_toString ops v"
| "items_text sty ops [] = []"
| "items_text sty ops (v # vs) =
     value_text sty ops v @ (if vs = [] then [] else '','' @ st_pad sty) @ items_text sty ops vs"
| "members_text sty ops [] = []"
| "members_text sty ops ((k, v) # ms) =
     st_quote sty k @ '':'' @ st_pad sty @ value_text sty ops v @ (if ms = [] then [] else '','' @ st_pad sty) @
     members_text sty ops ms"

lemma toString_style:
  "value_text string_style ops v = jv_toString ops v"
  "items_text string_style ops vs = array_items ops vs"
  "members_text string_style ops ms = object_items ops ms"
  by (induction string_style ops v and string_style ops vs and string_style ops ms
      rule: value_text_items_text_members_text.induct)
    (simp_all add: string_style_def st_quote_def escaped_def)

section \<open>The tokens of a text\<close>

definition value_length :: "style \<Rightarrow> 'd doubles \<Rightarrow> 'd json \<Rightarrow> nat" where
  "value_length sty ops v = length (value_text sty ops v)"

fun value_toks :: "style \<Rightarrow> 'd doubles \<Rightarrow> nat \<Rightarrow> 'd json \<Rightarrow> jsmntok list"
  and item_toks :: "style \<Rightarrow> 'd doubles \<Rightarrow> nat \<Rightarrow> 'd json list \<Rightarrow> jsmntok list"
  and member_toks :: "style \<Rightarrow> 'd doubles \<Rightarrow> nat \<Rightarrow> 'd members \<Rightarrow> jsmntok list" where
  "value_toks sty ops pos (JsonObject ms) =
     \<lparr>tok_type = JSMN_OBJECT, tok_start = int pos, tok_end = int (pos + value_length sty ops (JsonObject ms)),
      tok_size = length ms\<rparr> # member_toks sty ops (pos + 1 + length (st_pad sty)) ms"
| "value_toks sty ops pos (JsonArray vs) =
     \<lparr>tok_type = JSMN_ARRAY, tok_start = int pos, tok_end = int (pos + value_length sty ops (JsonArray vs)),
      tok_size = length vs\<rparr> # item_toks sty ops (pos + 1 + length (st_pad sty)) vs"
| "value_toks sty ops pos (JsonString s) =
     [\<lparr>tok_type = JSMN_STRING, tok_start = int (pos + 1), tok_end = int (pos + value_length sty ops (JsonString s) - 1),
       tok_size = 0\<rparr>]"
| "value_toks sty ops pos v =
     [\<lparr>tok_type = JSMN_PRIMITIVE, tok_start = int pos, tok_end = int (pos + value_length sty ops v), tok_size = 0\<rparr>]"
| "item_toks sty ops pos [] = []"
| "item_toks sty ops pos (v # vs) =
     value_toks sty ops pos v @ item_toks sty ops (pos + value_length sty ops v + 1 + length (st_pad sty)) vs"
| "member_toks sty ops pos [] = []"
| "member_toks sty ops pos ((k, v) # ms) =
     \<lparr>tok_type = JSMN_STRING, tok_start = int (pos + 1), tok_end = int (pos + length (st_quote sty k) - 1),
      tok_size = 1\<rparr> #
     value_toks sty ops (pos + length (st_quote sty k) + 1 + length (st_pad sty)) v @
     member_toks sty ops (pos + length (st_quote sty k) + 1 + length (st_pad sty) + value_length sty ops v +
       1 + length (st_pad sty)) ms"

text \<open>
  Values whose text can be read back: strings without a zero, different keys, and numbers of type \<open>double\<close> that the
  library reads back from their own text, which has a point and digits.
\<close>

definition prim_char :: "char \<Rightarrow> bool" where
  "prim_char c = list_ex (\<lambda>d. c = d) ''-.0123456789nultrefas''"

fun json_ok :: "'d doubles \<Rightarrow> 'd json \<Rightarrow> bool" where
  "json_ok ops (JsonString s) = (CHR 0x00 \<notin> set s)"
| "json_ok ops (JsonDouble d) =
     (list_all prim_char (d_to_string ops d) \<and> CHR ''.'' \<in> set (d_to_string ops d) \<and>
      d_stod ops (d_to_string ops d) = Inr d)"
| "json_ok ops (JsonObject ms) =
     (distinct (map fst ms) \<and> (\<forall>(k, v) \<in> set ms. CHR 0x00 \<notin> set k \<and> json_ok ops v))"
| "json_ok ops (JsonArray vs) = (\<forall>v \<in> set vs. json_ok ops v)"
| "json_ok ops v = True"

section \<open>Reading one token\<close>

lemma prim_char_plain:
  assumes "prim_char c"
  shows "\<not> list_ex (\<lambda>d. c = d) [CHR '':'', CHR 0x09, CHR 0x0D, CHR 0x0A, CHR '' '', CHR '','', CHR '']'', CHR ''}'']"
    "\<not> (of_char c :: nat) < 32" "\<not> 127 \<le> (of_char c :: nat)" "c \<noteq> CHR 0x00"
    "c \<noteq> CHR ''{''" "c \<noteq> CHR ''[''" "c \<noteq> CHR 0x22"
  using assms unfolding prim_char_def by (auto simp: of_char_def)

lemma parse_primitive_text:
  "list_all prim_char t \<Longrightarrow> rest = [] \<or> hd rest \<in> set '' ,]}'' \<Longrightarrow>
   jsmn_parse_primitive (t @ rest) = Inr (length t)"
proof (induction t)
  case Nil
  then show ?case by (cases rest) auto
next
  case (Cons c t)
  then show ?case using prim_char_plain [of c] by simp
qed

lemma escape_letter_allowed:
  "escape_letter ch = Some l \<Longrightarrow>
   list_ex (\<lambda>d. l = d) [CHR 0x22, CHR ''/'', CHR 0x5C, CHR ''b'', CHR ''f'', CHR ''r'', CHR ''n'', CHR ''t'']"
  by (auto simp: escape_letter_def split: if_splits)

lemma parse_string_text:
  "CHR 0x00 \<notin> set s \<Longrightarrow>
   jsmn_parse_string (concat (map escape_char s) @ CHR 0x22 # rest) = Inr (length (concat (map escape_char s)))"
proof (induction s)
  case Nil
  then show ?case by (simp add: jsmn_parse_string.simps)
next
  case (Cons ch s)
  let ?more = "concat (map escape_char s) @ CHR 0x22 # rest"
  from Cons have IH: "jsmn_parse_string ?more = Inr (length (concat (map escape_char s)))" and z: "ch \<noteq> CHR 0x00"
    by auto
  show ?case
  proof (cases ch rule: escape_cases)
    case 1
    then have "escape_char ch = [ch]" by (simp add: escape_char_def)
    with 1 show ?thesis using IH z by (simp add: jsmn_parse_string.simps [of "ch # ?more"])
  next
    case (2 l)
    then have "escape_char ch = [CHR 0x5C, l]" by (simp add: escape_char_def)
    then show ?thesis using IH escape_letter_allowed [OF 2(1)]
      by (simp add: jsmn_parse_string.simps [of "CHR 0x5C # l # ?more"])
  qed
qed

section \<open>Lists of tokens\<close>

definition bump :: "nat option \<Rightarrow> jsmntok list \<Rightarrow> jsmntok list" where
  "bump super ts = (case super of None \<Rightarrow> ts | Some i \<Rightarrow> ts[i := (ts ! i)\<lparr>tok_size := tok_size (ts ! i) + 1\<rparr>])"

definition valid_super :: "nat option \<Rightarrow> jsmntok list \<Rightarrow> bool" where
  "valid_super super ts \<longleftrightarrow> (case super of None \<Rightarrow> True | Some i \<Rightarrow> i < length ts)"

lemma count_bump: "jsmn_count super st = st\<lparr>toks := bump super (toks st)\<rparr>"
  by (simp add: jsmn_count_def bump_def split: option.split)

lemma bump_append: "valid_super super ts \<Longrightarrow> bump super (ts @ us) = bump super ts @ us"
  by (auto simp: bump_def valid_super_def list_update_append nth_append split: option.split)

lemma length_bump [simp]: "length (bump super ts) = length ts"
  by (simp add: bump_def split: option.split)

lemma last_such_end: "P t \<Longrightarrow> list_all (\<lambda>u. \<not> P u) us \<Longrightarrow> last_such P (ts @ t # us) = Some (length ts)"
  by (simp add: last_such_def Let_def dropWhile_append list_all_iff)

lemma last_such_skip: "list_all (\<lambda>u. \<not> P u) us \<Longrightarrow> last_such P (ts @ us) = last_such P ts"
  by (simp add: last_such_def Let_def dropWhile_append list_all_iff)

lemma last_such_map:
  assumes "map P ts = map P us"
  shows "last_such P ts = last_such P us"
proof -
  have same: "length (dropWhile (\<lambda>t. \<not> P t) ts') = length (dropWhile (\<lambda>t. \<not> P t) us')"
    if "map P ts' = map P us'" for ts' us'
    using that
  proof (induction ts' arbitrary: us')
    case (Cons t ts')
    then show ?case by (cases us') (auto dest: map_eq_imp_length_eq)
  qed simp
  have "map P (rev ts) = map P (rev us)" using arg_cong [OF assms, of rev] by (simp only: rev_map)
  from same [OF this] have len: "length (dropWhile (\<lambda>t. \<not> P t) (rev ts)) = length (dropWhile (\<lambda>t. \<not> P t) (rev us))" .
  then have "dropWhile (\<lambda>t. \<not> P t) (rev ts) = [] \<longleftrightarrow> dropWhile (\<lambda>t. \<not> P t) (rev us) = []"
    by (metis length_0_conv)
  with len show ?thesis by (simp only: last_such_def Let_def)
qed

lemma bump_open: "map open_tok (bump super ts) = map open_tok ts"
proof (rule nth_equalityI)
  fix k assume "k < length (map open_tok (bump super ts))"
  then have k: "k < length ts" by simp
  show "map open_tok (bump super ts) ! k = map open_tok ts ! k"
  proof (cases super)
    case (Some i)
    with k show ?thesis by (cases "i = k") (simp_all add: bump_def open_tok_def)
  qed (simp add: bump_def)
qed simp

lemma last_open_bump: "last_such open_tok (bump super ts) = last_such open_tok ts"
  by (rule last_such_map) (rule bump_open)

lemma toks_closed:
  "list_all (\<lambda>t. \<not> open_tok t) (value_toks sty ops pos v)"
  "list_all (\<lambda>t. \<not> open_tok t) (item_toks sty ops pos vs)"
  "list_all (\<lambda>t. \<not> open_tok t) (member_toks sty ops pos ms)"
  by (induction ops pos v and ops pos vs and ops pos ms rule: value_toks_item_toks_member_toks.induct)
    (auto simp: open_tok_def value_length_def st_quote_def)


section \<open>The tokenizer on a text\<close>

text \<open>Where the next token belongs to after a value: a container leaves the innermost one that is open.\<close>

definition super_after :: "'d json \<Rightarrow> jsmntok list \<Rightarrow> nat option \<Rightarrow> nat option" where
  "super_after v ts super =
     (case v of JsonObject _ \<Rightarrow> last_such open_tok ts | JsonArray _ \<Rightarrow> last_such open_tok ts | _ \<Rightarrow> super)"

definition text_follows :: "'d json \<Rightarrow> string \<Rightarrow> bool" where
  "text_follows v rest \<longleftrightarrow>
     (case v of JsonObject _ \<Rightarrow> True | JsonArray _ \<Rightarrow> True | JsonString _ \<Rightarrow> True
      | _ \<Rightarrow> rest \<noteq> [] \<and> hd rest \<in> set '' ,]}'')"

lemma alloc_room: "length (toks st) < num \<Longrightarrow> jsmn_alloc num tok st = Inr (st\<lparr>toks := toks st @ [tok]\<rparr>)"
  by (simp add: jsmn_alloc_def)

lemma fill_room:
  "length (toks st) < num \<Longrightarrow> valid_super (toksuper st) (toks st) \<Longrightarrow>
   jsmn_fill num type a b st = Inr (st\<lparr>toks := bump (toksuper st) (toks st) @
     [\<lparr>tok_type = type, tok_start = int a, tok_end = int b, tok_size = 0\<rparr>]\<rparr>)"
  by (simp add: jsmn_fill_def alloc_room count_bump bump_append)

lemma open_room:
  "length (toks st) < num \<Longrightarrow> valid_super (toksuper st) (toks st) \<Longrightarrow>
   jsmn_open num pos type st = Inr (st\<lparr>toks := bump (toksuper st) (toks st) @
     [\<lparr>tok_type = type, tok_start = int pos, tok_end = - 1, tok_size = 0\<rparr>], toksuper := Some (length (toks st))\<rparr>)"
  by (simp add: jsmn_open_def alloc_room count_bump bump_append)

lemma loop_space_char:
  "jsmn_loop num pos (CHR '' '' # js) st = jsmn_loop num (pos + 1) js st"
  by (simp add: jsmn_char_def)

text \<open>What the loop makes of a value: of one that is a single token, and of a container around its contents.\<close>

definition value_read :: "style \<Rightarrow> 'd doubles \<Rightarrow> 'd json \<Rightarrow> bool" where
  "value_read sty ops v \<longleftrightarrow> (\<forall>num pos rest T super. json_ok ops v \<longrightarrow> text_follows v rest \<longrightarrow>
     length T + length (value_text sty ops v) \<le> num \<longrightarrow> valid_super super T \<longrightarrow>
     jsmn_loop num pos (value_text sty ops v @ rest) \<lparr>toks = T, toksuper = super\<rparr> =
     jsmn_loop num (pos + value_length sty ops v) rest
       \<lparr>toks = bump super T @ value_toks sty ops pos v, toksuper = super_after v T super\<rparr>)"

definition items_read :: "style \<Rightarrow> 'd doubles \<Rightarrow> 'd json list \<Rightarrow> bool" where
  "items_read sty ops vs \<longleftrightarrow> (\<forall>num pos rest T t E. (\<forall>v \<in> set vs. json_ok ops v) \<longrightarrow> open_tok t \<longrightarrow>
     tok_type t = JSMN_ARRAY \<longrightarrow> list_all (\<lambda>u. \<not> open_tok u) E \<longrightarrow>
     length T + 1 + length E + length (items_text sty ops vs) \<le> num \<longrightarrow>
     jsmn_loop num pos (items_text sty ops vs @ st_pad sty @ '']'' @ rest) \<lparr>toks = T @ t # E, toksuper = Some (length T)\<rparr> =
     jsmn_loop num (pos + length (items_text sty ops vs) + 1 + length (st_pad sty)) rest
       \<lparr>toks = T @ t\<lparr>tok_size := tok_size t + length vs, tok_end := int (pos + length (items_text sty ops vs) + 1 + length (st_pad sty))\<rparr> #
          E @ item_toks sty ops pos vs, toksuper = last_such open_tok T\<rparr>)"

definition members_read :: "style \<Rightarrow> 'd doubles \<Rightarrow> 'd members \<Rightarrow> bool" where
  "members_read sty ops ms \<longleftrightarrow> (\<forall>num pos rest T t E. (\<forall>(k, v) \<in> set ms. CHR 0x00 \<notin> set k \<and> json_ok ops v) \<longrightarrow> open_tok t \<longrightarrow>
     tok_type t = JSMN_OBJECT \<longrightarrow> list_all (\<lambda>u. \<not> open_tok u) E \<longrightarrow>
     length T + 1 + length E + length (members_text sty ops ms) \<le> num \<longrightarrow>
     jsmn_loop num pos (members_text sty ops ms @ st_pad sty @ ''}'' @ rest) \<lparr>toks = T @ t # E, toksuper = Some (length T)\<rparr> =
     jsmn_loop num (pos + length (members_text sty ops ms) + 1 + length (st_pad sty)) rest
       \<lparr>toks = T @ t\<lparr>tok_size := tok_size t + length ms, tok_end := int (pos + length (members_text sty ops ms) + 1 + length (st_pad sty))\<rparr> #
          E @ member_toks sty ops pos ms, toksuper = last_such open_tok T\<rparr>)"

text \<open>What is needed of a style: the bodies of its strings are read to their end, and read back.\<close>

locale json_style =
  fixes sty :: style
  assumes pad: "st_pad sty = [] \<or> st_pad sty = '' ''"
    and body_parse: "CHR 0x00 \<notin> set s \<Longrightarrow>
      jsmn_parse_string (st_body sty s @ CHR 0x22 # rest) = Inr (length (st_body sty s))"
    and body_read: "CHR 0x00 \<notin> set s \<Longrightarrow> unescaped (st_body sty s) = s"
begin

lemma loop_pad: "jsmn_loop num pos (st_pad sty @ rest) st = jsmn_loop num (pos + length (st_pad sty)) rest st"
  using pad by (auto simp: jsmn_char_def)

lemma loop_string:
  assumes "CHR 0x00 \<notin> set s" "length (toks st) < num" "valid_super (toksuper st) (toks st)"
  shows "jsmn_loop num pos (st_quote sty s @ rest) st = jsmn_loop num (pos + length (st_quote sty s)) rest
    (st\<lparr>toks := bump (toksuper st) (toks st) @ [\<lparr>tok_type = JSMN_STRING, tok_start = int (pos + 1),
      tok_end = int (pos + length (st_quote sty s) - 1), tok_size = 0\<rparr>]\<rparr>)"
proof -
  let ?e = "st_body sty s"
  have "jsmn_char num pos (CHR 0x22) (?e @ CHR 0x22 # rest) st = Inr (Suc (length ?e),
      st\<lparr>toks := bump (toksuper st) (toks st) @ [\<lparr>tok_type = JSMN_STRING, tok_start = int (pos + 1),
      tok_end = int (pos + 1 + length ?e), tok_size = 0\<rparr>]\<rparr>)"
    by (simp add: jsmn_char_def jsmn_more_def body_parse [OF assms(1)] fill_room [OF assms(2,3)])
  then show ?thesis by (simp add: st_quote_def add.assoc)
qed

lemma loop_primitive:
  assumes "list_all prim_char t" "t \<noteq> []" "rest = [] \<or> hd rest \<in> set '' ,]}''"
    and "length (toks st) < num" "valid_super (toksuper st) (toks st)"
  shows "jsmn_loop num pos (t @ rest) st = jsmn_loop num (pos + length t) rest
    (st\<lparr>toks := bump (toksuper st) (toks st) @
      [\<lparr>tok_type = JSMN_PRIMITIVE, tok_start = int pos, tok_end = int (pos + length t), tok_size = 0\<rparr>]\<rparr>)"
proof -
  obtain c u where t: "t = c # u" using assms(2) by (cases t) auto
  then have c: "prim_char c" using assms(1) by simp
  have "jsmn_parse_primitive (c # u @ rest) = Inr (length t)"
    using parse_primitive_text [OF assms(1,3)] t by simp
  then have "jsmn_char num pos c (u @ rest) st = Inr (length u, st\<lparr>toks := bump (toksuper st) (toks st) @
      [\<lparr>tok_type = JSMN_PRIMITIVE, tok_start = int pos, tok_end = int (pos + length t), tok_size = 0\<rparr>]\<rparr>)"
    using prim_char_plain [OF c] t
    by (auto simp: jsmn_char_def jsmn_more_def fill_room [OF assms(4,5)] simp del: jsmn_parse_primitive.simps)
  then show ?thesis using prim_char_plain(4) [OF c] t by simp
qed

lemma close_open:
  assumes "open_tok t" "tok_type t = type" "list_all (\<lambda>u. \<not> open_tok u) E"
  shows "jsmn_close pos type \<lparr>toks = T @ t # E, toksuper = super\<rparr> =
    Inr \<lparr>toks = T @ t\<lparr>tok_end := int pos + 1\<rparr> # E, toksuper = last_such open_tok T\<rparr>"
proof -
  have "last_such open_tok (T @ [t\<lparr>tok_end := int pos + 1\<rparr>]) = last_such open_tok T"
    by (rule last_such_skip) (simp add: open_tok_def)
  then show ?thesis
    using assms by (simp add: jsmn_close_def last_such_end Let_def list_update_append)
qed

lemma loop_close:
  assumes "open_tok t" "list_all (\<lambda>u. \<not> open_tok u) E"
  shows "tok_type t = JSMN_ARRAY \<Longrightarrow>
      jsmn_loop num pos (st_pad sty @ '']'' @ rest) \<lparr>toks = T @ t # E, toksuper = super\<rparr> = jsmn_loop num (pos + 1 + length (st_pad sty)) rest
        \<lparr>toks = T @ t\<lparr>tok_end := int (pos + 1 + length (st_pad sty))\<rparr> # E, toksuper = last_such open_tok T\<rparr>"
    and "tok_type t = JSMN_OBJECT \<Longrightarrow>
      jsmn_loop num pos (st_pad sty @ ''}'' @ rest) \<lparr>toks = T @ t # E, toksuper = super\<rparr> = jsmn_loop num (pos + 1 + length (st_pad sty)) rest
        \<lparr>toks = T @ t\<lparr>tok_end := int (pos + 1 + length (st_pad sty))\<rparr> # E, toksuper = last_such open_tok T\<rparr>"
  using assms by (simp_all add: loop_pad jsmn_char_def jsmn_more_def close_open algebra_simps)

lemma loop_comma:
  assumes "open_tok t" "tok_type t = JSMN_ARRAY \<or> tok_type t = JSMN_OBJECT" "list_all (\<lambda>u. \<not> open_tok u) E"
    and "super = Some (length T) \<or> super = Some i \<and> tok_type ((T @ t # E) ! i) = JSMN_STRING"
  shows "jsmn_loop num pos ('','' @ st_pad sty @ rest) \<lparr>toks = T @ t # E, toksuper = super\<rparr> =
    jsmn_loop num (pos + 1 + length (st_pad sty)) rest \<lparr>toks = T @ t # E, toksuper = Some (length T)\<rparr>"
proof -
  have "last_such (\<lambda>tok. (tok_type tok = JSMN_ARRAY \<or> tok_type tok = JSMN_OBJECT) \<and> open_tok tok) (T @ t # E) =
      Some (length T)"
    by (rule last_such_end) (use assms(1-3) in \<open>auto simp: list_all_iff\<close>)
  then have "jsmn_comma \<lparr>toks = T @ t # E, toksuper = super\<rparr> = \<lparr>toks = T @ t # E, toksuper = Some (length T)\<rparr>"
    using assms(2,4) by (auto simp: jsmn_comma_def)
  then show ?thesis by (simp add: jsmn_char_def loop_pad)
qed

lemma loop_colon:
  "jsmn_loop num pos ('':'' @ st_pad sty @ rest) \<lparr>toks = T @ [t], toksuper = super\<rparr> =
   jsmn_loop num (pos + 1 + length (st_pad sty)) rest \<lparr>toks = T @ [t], toksuper = Some (length T)\<rparr>"
  by (simp add: jsmn_char_def loop_pad)

lemma toks_length:
  "json_ok ops v \<Longrightarrow> length (value_toks sty ops pos v) \<le> length (value_text sty ops v)"
  "\<forall>v \<in> set vs. json_ok ops v \<Longrightarrow> length (item_toks sty ops pos vs) \<le> length (items_text sty ops vs)"
  "\<forall>m \<in> set ms. json_ok ops (snd m) \<Longrightarrow> length (member_toks sty ops pos ms) \<le> length (members_text sty ops ms)"
proof (induction ops pos v and ops pos vs and ops pos ms rule: value_toks_item_toks_member_toks.induct)
  case "4_2"
  then show ?case using to_digits_nonempty by (auto simp: to_string_def Suc_le_eq)
next
  case "4_3"
  then show ?case by (force simp: Suc_le_eq)
qed (force simp: st_quote_def)+

lemma to_string_prim: "list_all prim_char (to_string n) \<and> to_string n \<noteq> []"
proof -
  have "\<forall>k \<in> set [0..<10]. prim_char (char_of (48 + k :: nat))" by code_simp
  then have "prim_char c" if "c \<in> set (to_digits m)" for c m
    using to_digits_set [OF that] by auto
  moreover have "prim_char (CHR ''-'')" by code_simp
  ultimately show ?thesis by (auto simp: to_string_def list_all_iff)
qed

lemma bump_super: "bump (Some (length T)) (T @ t # E) = T @ t\<lparr>tok_size := tok_size t + 1\<rparr> # E"
  by (simp add: bump_def)

lemma array_read:
  assumes "items_read sty ops vs" shows "value_read sty ops (JsonArray vs)"
  unfolding value_read_def
proof (intro allI impI)
  fix num pos rest T super
  assume a: "json_ok ops (JsonArray vs)" "length T + length (value_text sty ops (JsonArray vs)) \<le> num" "valid_super super T"
  let ?t = "\<lparr>tok_type = JSMN_ARRAY, tok_start = int pos, tok_end = - 1, tok_size = 0\<rparr>"
  have "jsmn_loop num pos (value_text sty ops (JsonArray vs) @ rest) \<lparr>toks = T, toksuper = super\<rparr> =
      jsmn_loop num (pos + 1 + length (st_pad sty)) (items_text sty ops vs @ st_pad sty @ '']'' @ rest)
        \<lparr>toks = bump super T @ ?t # [], toksuper = Some (length (bump super T))\<rparr>"
    using a by (simp add: jsmn_char_def jsmn_more_def open_room loop_pad)
  also have "\<dots> = jsmn_loop num (pos + 1 + length (st_pad sty) + length (items_text sty ops vs) + 1 + length (st_pad sty)) rest
      \<lparr>toks = bump super T @ ?t\<lparr>tok_size := length vs, tok_end := int (pos + 1 + length (st_pad sty) + length (items_text sty ops vs) + 1 + length (st_pad sty))\<rparr> #
        [] @ item_toks sty ops (pos + 1 + length (st_pad sty)) vs, toksuper = last_such open_tok (bump super T)\<rparr>"
    using assms [unfolded items_read_def, rule_format, of ?t "[]" "bump super T" num "pos + 1 + length (st_pad sty)" rest] a
    by (simp add: open_tok_def)
  finally show "jsmn_loop num pos (value_text sty ops (JsonArray vs) @ rest) \<lparr>toks = T, toksuper = super\<rparr> =
     jsmn_loop num (pos + value_length sty ops (JsonArray vs)) rest
       \<lparr>toks = bump super T @ value_toks sty ops pos (JsonArray vs), toksuper = super_after (JsonArray vs) T super\<rparr>"
    by (simp add: super_after_def last_open_bump value_length_def algebra_simps)
qed

lemma object_read:
  assumes "members_read sty ops ms" shows "value_read sty ops (JsonObject ms)"
  unfolding value_read_def
proof (intro allI impI)
  fix num pos rest T super
  assume a: "json_ok ops (JsonObject ms)" "length T + length (value_text sty ops (JsonObject ms)) \<le> num" "valid_super super T"
  let ?t = "\<lparr>tok_type = JSMN_OBJECT, tok_start = int pos, tok_end = - 1, tok_size = 0\<rparr>"
  have "jsmn_loop num pos (value_text sty ops (JsonObject ms) @ rest) \<lparr>toks = T, toksuper = super\<rparr> =
      jsmn_loop num (pos + 1 + length (st_pad sty)) (members_text sty ops ms @ st_pad sty @ ''}'' @ rest)
        \<lparr>toks = bump super T @ ?t # [], toksuper = Some (length (bump super T))\<rparr>"
    using a by (simp add: jsmn_char_def jsmn_more_def open_room loop_pad)
  also have "\<dots> = jsmn_loop num (pos + 1 + length (st_pad sty) + length (members_text sty ops ms) + 1 + length (st_pad sty)) rest
      \<lparr>toks = bump super T @ ?t\<lparr>tok_size := length ms, tok_end := int (pos + 1 + length (st_pad sty) + length (members_text sty ops ms) + 1 + length (st_pad sty))\<rparr> #
        [] @ member_toks sty ops (pos + 1 + length (st_pad sty)) ms, toksuper = last_such open_tok (bump super T)\<rparr>"
    using assms [unfolded members_read_def, rule_format, of ?t "[]" "bump super T" num "pos + 1 + length (st_pad sty)" rest] a
    by (simp add: open_tok_def)
  finally show "jsmn_loop num pos (value_text sty ops (JsonObject ms) @ rest) \<lparr>toks = T, toksuper = super\<rparr> =
     jsmn_loop num (pos + value_length sty ops (JsonObject ms)) rest
       \<lparr>toks = bump super T @ value_toks sty ops pos (JsonObject ms), toksuper = super_after (JsonObject ms) T super\<rparr>"
    by (simp add: super_after_def last_open_bump value_length_def algebra_simps)
qed

lemma quote_length: "2 \<le> length (st_quote sty s)"
  by (simp add: st_quote_def)

lemma single_read:
  assumes "\<And>ms. v \<noteq> JsonObject ms" "\<And>vs. v \<noteq> JsonArray vs"
  shows "value_read sty ops v"
proof (cases "\<exists>s. v = JsonString s")
  case True
  then obtain s where s: "v = JsonString s" ..
  show ?thesis unfolding value_read_def s
  proof (intro allI impI)
    fix num pos rest T super
    assume a: "json_ok ops (JsonString s)" "length T + length (value_text sty ops (JsonString s)) \<le> num" "valid_super super T"
    then have "length T < num" using quote_length [of s] by simp
    with a show "jsmn_loop num pos (value_text sty ops (JsonString s) @ rest) \<lparr>toks = T, toksuper = super\<rparr> =
        jsmn_loop num (pos + value_length sty ops (JsonString s)) rest
          \<lparr>toks = bump super T @ value_toks sty ops pos (JsonString s), toksuper = super_after (JsonString s) T super\<rparr>"
      by (simp add: loop_string value_length_def super_after_def)
  qed
next
  case False
  have words: "list_all prim_char ''null''" "list_all prim_char ''true''" "list_all prim_char ''false''" by code_simp+
  let ?t = "value_text sty ops v"
  have prim: "list_all prim_char ?t \<and> ?t \<noteq> []" if "json_ok ops v"
    using that False assms to_string_prim by (cases v) (auto simp: words [simplified])
  have tok: "value_toks sty ops pos v = [\<lparr>tok_type = JSMN_PRIMITIVE, tok_start = int pos, tok_end = int (pos + length ?t), tok_size = 0\<rparr>]"
      "super_after v T super = super" "text_follows v rest \<Longrightarrow> hd rest \<in> set '' ,]}''" for pos T super rest
    using False assms by (cases v; auto simp: value_length_def super_after_def text_follows_def)+
  show ?thesis unfolding value_read_def
  proof (intro allI impI)
    fix num pos rest T super
    assume a: "json_ok ops v" "text_follows v rest" "length T + length ?t \<le> num" "valid_super super T"
    then have "length T < num" using prim by (cases ?t) auto
    with a show "jsmn_loop num pos (?t @ rest) \<lparr>toks = T, toksuper = super\<rparr> =
        jsmn_loop num (pos + value_length sty ops v) rest
          \<lparr>toks = bump super T @ value_toks sty ops pos v, toksuper = super_after v T super\<rparr>"
      using loop_primitive [of ?t rest "\<lparr>toks = T, toksuper = super\<rparr>" num pos] prim tok
      by (simp add: value_length_def)
  qed
qed

lemma items_nil: "items_read sty ops []"
  unfolding items_read_def
proof (intro allI impI)
  fix num pos rest and T E :: "jsmntok list" and t :: jsmntok
  assume "open_tok t" "tok_type t = JSMN_ARRAY" "list_all (\<lambda>u. \<not> open_tok u) E"
  then show "jsmn_loop num pos (items_text sty ops [] @ st_pad sty @ '']'' @ rest) \<lparr>toks = T @ t # E, toksuper = Some (length T)\<rparr> =
     jsmn_loop num (pos + length (items_text sty ops []) + 1 + length (st_pad sty)) rest
       \<lparr>toks = T @ t\<lparr>tok_size := tok_size t + length ([] :: 'a json list), tok_end := int (pos + length (items_text sty ops []) + 1 + length (st_pad sty))\<rparr> #
          E @ item_toks sty ops pos [], toksuper = last_such open_tok T\<rparr>"
    using loop_close(1) [of t E num pos rest T "Some (length T)"] by simp
qed

lemma items_cons:
  assumes "value_read sty ops v" "items_read sty ops vs"
  shows "items_read sty ops (v # vs)"
  unfolding items_read_def
proof (intro allI impI)
  fix num pos rest and T E :: "jsmntok list" and t :: jsmntok
  assume ok: "\<forall>v \<in> set (v # vs). json_ok ops v" and t: "open_tok t" "tok_type t = JSMN_ARRAY"
    and E: "list_all (\<lambda>u. \<not> open_tok u) E" and num: "length T + 1 + length E + length (items_text sty ops (v # vs)) \<le> num"
  let ?sep = "if vs = [] then [] else '','' @ st_pad sty" and ?more = "items_text sty ops vs @ st_pad sty @ '']'' @ rest"
  let ?t = "t\<lparr>tok_size := tok_size t + 1\<rparr>" and ?E = "E @ value_toks sty ops pos v"
  let ?p = "pos + value_length sty ops v"
  have follows: "text_follows v (?sep @ ?more)"
    using pad by (cases v) (auto simp: text_follows_def)
  have after: "super_after v (T @ t # E) (Some (length T)) = Some (length T)"
    using last_such_end [of open_tok t E T] t(1) E by (simp add: super_after_def split: json.split)
  have closed: "list_all (\<lambda>u. \<not> open_tok u) ?E" using E toks_closed(1) by simp
  have len: "length (value_toks sty ops pos v) \<le> length (value_text sty ops v)" 
    by (rule toks_length(1)) (use ok in simp)
  have "jsmn_loop num pos (items_text sty ops (v # vs) @ st_pad sty @ '']'' @ rest) \<lparr>toks = T @ t # E, toksuper = Some (length T)\<rparr> =
      jsmn_loop num ?p (?sep @ ?more) \<lparr>toks = T @ ?t # ?E, toksuper = Some (length T)\<rparr>"
    using assms(1) [unfolded value_read_def, rule_format, of "?sep @ ?more" "T @ t # E" num "Some (length T)" pos]
      ok num follows after by (simp add: valid_super_def bump_super)
  also have "\<dots> = jsmn_loop num (?p + length ?sep) ?more \<lparr>toks = T @ ?t # ?E, toksuper = Some (length T)\<rparr>"
    using loop_comma [of ?t ?E "Some (length T)" T _ num ?p ?more] t closed by (simp add: open_tok_def)
  also have "\<dots> = jsmn_loop num (?p + length ?sep + length (items_text sty ops vs) + 1 + length (st_pad sty)) rest
      \<lparr>toks = T @ ?t\<lparr>tok_size := tok_size ?t + length vs, tok_end := int (?p + length ?sep + length (items_text sty ops vs) + 1 + length (st_pad sty))\<rparr> #
        ?E @ item_toks sty ops (?p + length ?sep) vs, toksuper = last_such open_tok T\<rparr>"
    by (rule assms(2) [unfolded items_read_def, rule_format])
      (use ok t closed num len in \<open>auto simp: open_tok_def value_length_def split: if_splits\<close>)
  finally show "jsmn_loop num pos (items_text sty ops (v # vs) @ st_pad sty @ '']'' @ rest) \<lparr>toks = T @ t # E, toksuper = Some (length T)\<rparr> =
      jsmn_loop num (pos + length (items_text sty ops (v # vs)) + 1 + length (st_pad sty)) rest
       \<lparr>toks = T @ t\<lparr>tok_size := tok_size t + length (v # vs), tok_end := int (pos + length (items_text sty ops (v # vs)) + 1 + length (st_pad sty))\<rparr> #
          E @ item_toks sty ops pos (v # vs), toksuper = last_such open_tok T\<rparr>"
    by (simp add: value_length_def algebra_simps)
qed

lemma members_nil: "members_read sty ops []"
  unfolding members_read_def
proof (intro allI impI)
  fix num pos rest and T E :: "jsmntok list" and t :: jsmntok
  assume "open_tok t" "tok_type t = JSMN_OBJECT" "list_all (\<lambda>u. \<not> open_tok u) E"
  then show "jsmn_loop num pos (members_text sty ops [] @ st_pad sty @ ''}'' @ rest) \<lparr>toks = T @ t # E, toksuper = Some (length T)\<rparr> =
     jsmn_loop num (pos + length (members_text sty ops []) + 1 + length (st_pad sty)) rest
       \<lparr>toks = T @ t\<lparr>tok_size := tok_size t + length ([] :: 'a members), tok_end := int (pos + length (members_text sty ops []) + 1 + length (st_pad sty))\<rparr> #
          E @ member_toks sty ops pos [], toksuper = last_such open_tok T\<rparr>"
    using loop_close(2) [of t E num pos rest T "Some (length T)"] by simp
qed

text \<open>A key and its value; what follows belongs to the key or, after a container, to the object.\<close>

lemma member_read:
  assumes "value_read sty ops v" "CHR 0x00 \<notin> set k" "json_ok ops v" "text_follows v rest"
    and t: "open_tok t" and E: "list_all (\<lambda>u. \<not> open_tok u) E"
    and num: "length T + 1 + length E + length (st_quote sty k) + length (value_text sty ops v) \<le> num"
  obtains i super where
    "jsmn_loop num pos (st_quote sty k @ '':'' @ st_pad sty @ value_text sty ops v @ rest) \<lparr>toks = T @ t # E, toksuper = Some (length T)\<rparr> =
     jsmn_loop num (pos + length (st_quote sty k) + 1 + length (st_pad sty) + value_length sty ops v) rest
       \<lparr>toks = (T @ t\<lparr>tok_size := tok_size t + 1\<rparr> # E) @ member_toks sty ops pos [(k, v)], toksuper = super\<rparr>"
    "super = Some (length T) \<or> super = Some i \<and>
       tok_type (((T @ t\<lparr>tok_size := tok_size t + 1\<rparr> # E) @ member_toks sty ops pos [(k, v)]) ! i) = JSMN_STRING"
proof -
  let ?t = "t\<lparr>tok_size := tok_size t + 1\<rparr>" and ?p = "pos + length (st_quote sty k) + 1 + length (st_pad sty)"
  let ?key = "\<lparr>tok_type = JSMN_STRING, tok_start = int (pos + 1), tok_end = int (pos + length (st_quote sty k) - 1), tok_size = 0\<rparr>"
  let ?U = "T @ ?t # E" and ?i = "length T + 1 + length E"
  let ?super = "super_after v (?U @ [?key]) (Some ?i)"
  have room: "length T + 1 + length E < num" using num quote_length [of k] by simp
  have "jsmn_loop num pos (st_quote sty k @ '':'' @ st_pad sty @ value_text sty ops v @ rest) \<lparr>toks = T @ t # E, toksuper = Some (length T)\<rparr> =
      jsmn_loop num (pos + length (st_quote sty k)) ('':'' @ st_pad sty @ value_text sty ops v @ rest)
        \<lparr>toks = ?U @ [?key], toksuper = Some (length T)\<rparr>"
    using loop_string [OF assms(2), of "\<lparr>toks = T @ t # E, toksuper = Some (length T)\<rparr>" num pos] room
    by (simp add: valid_super_def bump_super)
  also have "\<dots> = jsmn_loop num ?p (value_text sty ops v @ rest) \<lparr>toks = ?U @ [?key], toksuper = Some (length ?U)\<rparr>"
    by (rule loop_colon)
  also have "\<dots> = jsmn_loop num (?p + value_length sty ops v) rest
      \<lparr>toks = bump (Some (length ?U)) (?U @ [?key]) @ value_toks sty ops ?p v, toksuper = super_after v (?U @ [?key]) (Some (length ?U))\<rparr>"
    by (rule assms(1) [unfolded value_read_def, rule_format])
      (use assms(3,4) num quote_length [of k] in \<open>auto simp: valid_super_def\<close>)
  also have "bump (Some (length ?U)) (?U @ [?key]) @ value_toks sty ops ?p v = ?U @ member_toks sty ops pos [(k, v)]"
    by (subst bump_super) simp
  finally have "jsmn_loop num pos (st_quote sty k @ '':'' @ st_pad sty @ value_text sty ops v @ rest)
        \<lparr>toks = T @ t # E, toksuper = Some (length T)\<rparr> =
      jsmn_loop num (?p + value_length sty ops v) rest \<lparr>toks = ?U @ member_toks sty ops pos [(k, v)], toksuper = ?super\<rparr>"
    by simp
  moreover have "last_such open_tok (T @ ?t # E @ [?key]) = Some (length T)"
    by (rule last_such_end) (use t E in \<open>auto simp: open_tok_def st_quote_def\<close>)
  then have "?super = Some (length T) \<or> ?super = Some ?i \<and>
      tok_type ((?U @ member_toks sty ops pos [(k, v)]) ! ?i) = JSMN_STRING"
    by (simp add: super_after_def nth_append split: json.split)
  ultimately show ?thesis by (rule that)
qed

lemma members_cons:
  assumes v: "value_read sty ops v" and ms: "members_read sty ops ms"
  shows "members_read sty ops ((k, v) # ms)"
  unfolding members_read_def
proof (intro allI impI)
  fix num pos rest and T E :: "jsmntok list" and t :: jsmntok
  assume ok: "\<forall>(k, v) \<in> set ((k, v) # ms). CHR 0x00 \<notin> set k \<and> json_ok ops v" and t: "open_tok t" "tok_type t = JSMN_OBJECT"
    and E: "list_all (\<lambda>u. \<not> open_tok u) E" and num: "length T + 1 + length E + length (members_text sty ops ((k, v) # ms)) \<le> num"
  let ?sep = "if ms = [] then [] else '','' @ st_pad sty" and ?more = "members_text sty ops ms @ st_pad sty @ ''}'' @ rest"
  let ?t = "t\<lparr>tok_size := tok_size t + 1\<rparr>" and ?E = "E @ member_toks sty ops pos [(k, v)]"
  let ?p = "pos + length (st_quote sty k) + 1 + length (st_pad sty) + value_length sty ops v"
  let ?run = "jsmn_loop num pos (members_text sty ops ((k, v) # ms) @ st_pad sty @ ''}'' @ rest) \<lparr>toks = T @ t # E, toksuper = Some (length T)\<rparr>"
  have follows: "text_follows v (?sep @ ?more)"
    using pad by (cases v) (auto simp: text_follows_def)
  have closed: "list_all (\<lambda>u. \<not> open_tok u) ?E" using E toks_closed(3) [of sty ops pos "[(k, v)]"] by (simp del: member_toks.simps)
  have len: "length (value_toks sty ops (pos + length (st_quote sty k) + 1 + length (st_pad sty)) v) \<le> length (value_text sty ops v)"
    by (rule toks_length(1)) (use ok in simp)
  have k: "CHR 0x00 \<notin> set k" "json_ok ops v" using ok by simp_all
  have room: "length T + 1 + length E + length (st_quote sty k) + length (value_text sty ops v) \<le> num" using num by simp
  obtain i super where
    run: "jsmn_loop num pos (st_quote sty k @ '':'' @ st_pad sty @ value_text sty ops v @ ?sep @ ?more) \<lparr>toks = T @ t # E, toksuper = Some (length T)\<rparr> =
      jsmn_loop num ?p (?sep @ ?more) \<lparr>toks = (T @ ?t # E) @ member_toks sty ops pos [(k, v)], toksuper = super\<rparr>"
    and super: "super = Some (length T) \<or> super = Some i \<and> tok_type (((T @ ?t # E) @ member_toks sty ops pos [(k, v)]) ! i) = JSMN_STRING"
    by (rule member_read [OF v k follows t(1) E room])
  have run: "?run = jsmn_loop num ?p (?sep @ ?more) \<lparr>toks = T @ ?t # ?E, toksuper = super\<rparr>"
    using run by simp
  have super: "super = Some (length T) \<or> super = Some i \<and> tok_type ((T @ ?t # ?E) ! i) = JSMN_STRING"
    using super by simp
  have t': "open_tok ?t" "tok_type ?t = JSMN_OBJECT" using t by (simp_all add: open_tok_def)
  show "?run = jsmn_loop num (pos + length (members_text sty ops ((k, v) # ms)) + 1 + length (st_pad sty)) rest
       \<lparr>toks = T @ t\<lparr>tok_size := tok_size t + length ((k, v) # ms), tok_end := int (pos + length (members_text sty ops ((k, v) # ms)) + 1 + length (st_pad sty))\<rparr> #
          E @ member_toks sty ops pos ((k, v) # ms), toksuper = last_such open_tok T\<rparr>"
  proof (cases "ms = []")
    case True
    show ?thesis unfolding run
      using loop_close(2) [OF t'(1) closed t'(2), of num ?p rest T super] True by (simp add: value_length_def algebra_simps)
  next
    case False
    have "?run = jsmn_loop num (?p + 1 + length (st_pad sty)) ?more \<lparr>toks = T @ ?t # ?E, toksuper = Some (length T)\<rparr>"
      unfolding run using loop_comma [OF t'(1) _ closed super, of num ?p ?more] t'(2) False by simp
    also have "\<dots> = jsmn_loop num (?p + 1 + length (st_pad sty) + length (members_text sty ops ms) + 1 + length (st_pad sty)) rest
        \<lparr>toks = T @ ?t\<lparr>tok_size := tok_size ?t + length ms, tok_end := int (?p + 1 + length (st_pad sty) + length (members_text sty ops ms) + 1 + length (st_pad sty))\<rparr> #
          ?E @ member_toks sty ops (?p + 1 + length (st_pad sty)) ms, toksuper = last_such open_tok T\<rparr>"
      by (rule ms [unfolded members_read_def, rule_format])
        (use ok t' closed num len [simplified] quote_length [of k] False in \<open>auto simp: value_length_def\<close>)
    finally show ?thesis using False by (simp add: value_length_def algebra_simps)
  qed
qed

lemma text_read:
  "value_read sty ops v" "items_read sty ops vs" "members_read sty ops ms"
proof (induction ops v and ops vs and ops ms rule: jv_toString_array_items_object_items.induct)
qed (auto intro: single_read array_read object_read items_nil items_cons members_nil members_cons)

lemma parse_text:
  assumes "json_ok ops v" "v = JsonObject ms \<or> v = JsonArray vs"
  shows "jsmn_parse (length (value_text sty ops v)) (value_text sty ops v) = Inr (value_toks sty ops 0 v)"
proof -
  have "text_follows v []" using assms(2) by (auto simp: text_follows_def)
  from text_read(1) [of ops v, unfolded value_read_def, rule_format, OF assms(1) this, of "[]" _ None 0]
  have "jsmn_loop (length (value_text sty ops v)) 0 (value_text sty ops v) jsmn_init =
      Inr \<lparr>toks = value_toks sty ops 0 v, toksuper = super_after v [] None\<rparr>"
    by (simp add: jsmn_init_def valid_super_def bump_def)
  moreover have "\<not> list_ex open_tok (value_toks sty ops 0 v)"
    using toks_closed(1) [of sty ops 0 v] by (simp add: list_ex_iff list_all_iff)
  ultimately show ?thesis by (simp add: jsmn_parse_def)
qed

end

section \<open>The two styles\<close>

lemma quoted_parse:
  "CHR 0x00 \<notin> set s \<Longrightarrow>
   jsmn_parse_string (st_body stream_style s @ CHR 0x22 # rest) = Inr (length (st_body stream_style s))"
proof (induction s)
  case Nil
  then show ?case by (simp add: stream_style_def jsmn_parse_string.simps)
next
  case (Cons ch s)
  let ?more = "st_body stream_style s @ CHR 0x22 # rest"
  from Cons have IH: "jsmn_parse_string ?more = Inr (length (st_body stream_style s))" and z: "ch \<noteq> CHR 0x00"
    by auto
  show ?case
  proof (cases "ch = CHR 0x22 \<or> ch = CHR 0x5C")
    case True
    then have "st_body stream_style (ch # s) = CHR 0x5C # ch # st_body stream_style s" by (simp add: stream_style_def)
    then show ?thesis using IH True by (auto simp: jsmn_parse_string.simps [of "CHR 0x5C # ch # ?more"])
  next
    case False
    then have "st_body stream_style (ch # s) = ch # st_body stream_style s" by (simp add: stream_style_def)
    then show ?thesis using IH False z by (simp add: jsmn_parse_string.simps [of "ch # ?more"])
  qed
qed

lemma quoted_pairs:
  "CHR 0x00 \<notin> set s \<Longrightarrow> filter (\<lambda>ch. ch \<noteq> CHR 0x00) (unescape_pairs (st_body stream_style s)) = s"
proof (induction s)
  case (Cons ch s)
  then have IH: "filter (\<lambda>ch. ch \<noteq> CHR 0x00) (unescape_pairs (st_body stream_style s)) = s" and z: "ch \<noteq> CHR 0x00"
    by auto
  show ?case
  proof (cases "ch = CHR 0x22 \<or> ch = CHR 0x5C")
    case True
    then have "st_body stream_style (ch # s) = CHR 0x5C # ch # st_body stream_style s" by (simp add: stream_style_def)
    then show ?thesis using IH True z by (auto simp: unescape_letter_def)
  next
    case False
    then have "st_body stream_style (ch # s) = ch # st_body stream_style s" by (simp add: stream_style_def)
    then show ?thesis using IH False z by (cases "st_body stream_style s") auto
  qed
qed (simp add: stream_style_def)

lemma quoted_read: "CHR 0x00 \<notin> set s \<Longrightarrow> unescaped (st_body stream_style s) = s"
proof (cases "length (st_body stream_style s) < 2")
  case True
  then have "st_body stream_style s = s"
    by (cases s; cases "tl s") (auto simp: stream_style_def split: if_splits)
  with True show ?thesis by (simp add: unescaped_def)
qed (simp add: unescaped_def quoted_pairs)

interpretation strings: json_style string_style
proof
  show "st_pad string_style = [] \<or> st_pad string_style = '' ''" by (simp add: string_style_def)
  show "CHR 0x00 \<notin> set s \<Longrightarrow> jsmn_parse_string (st_body string_style s @ CHR 0x22 # rest) =
      Inr (length (st_body string_style s))" for s rest
    by (simp add: string_style_def parse_string_text)
  show "CHR 0x00 \<notin> set s \<Longrightarrow> unescaped (st_body string_style s) = s" for s
    by (simp add: string_style_def unescaped_escaped)
qed

interpretation streams: json_style stream_style
proof
  show "st_pad stream_style = [] \<or> st_pad stream_style = '' ''" by (simp add: stream_style_def)
qed (simp_all add: quoted_parse quoted_read)

end
