(* ===== verification/Json_Document.thy ===== *)
theory Json_Document
  imports Json_Roundtrip
begin

text \<open>
  The documents of \<^verbatim>\<open>src/src/common/ltsm_json_wrapper.cpp\<close>: what the program writes for an object or an array is
  what it reads back, and the reading of a text ends, however many tokens it has.
\<close>

section \<open>Room for the tokens\<close>

lemma parse_any_room:
  assumes "jsmn_parse num str \<noteq> Inl JSMN_ERROR_NOMEM"
  shows "jsmn_parse num str = jsmn_parse (length str) str"
proof -
  have "jsmn_parse (max num (length str)) str = jsmn_parse num str"
    by (rule parse_space [OF assms]) simp
  moreover have "jsmn_parse (max num (length str)) str = jsmn_parse (length str) str"
    by (rule parse_space [OF parse_enough]) simp_all
  ultimately show ?thesis by simp
qed

lemma parse_rounds_enough:
  "0 < n \<Longrightarrow> length str \<le> room + 128 * n \<Longrightarrow> parse_rounds n room str = Some (jsmn_parse (length str) str)"
proof (induction n arbitrary: room)
  case (Suc n)
  show ?case
  proof (cases "jsmn_parse (room + 128) str = Inl JSMN_ERROR_NOMEM")
    case True
    then have "0 < n" using parse_enough [of str "room + 128"] Suc.prems(2) by (cases n) auto
    with True Suc show ?thesis by simp
  next
    case False
    then show ?thesis using parse_any_room [OF False]
      by (auto split: sum.split jsmn_error.split)
  qed
qed simp

lemma json_parse_text: "json_parse str = Some (jsmn_parse (length str) str)"
  unfolding json_parse_def by (rule parse_rounds_enough; arith)

section \<open>Building the values\<close>

lemma stringToken_middle:
  "stringToken (pre @ t @ post) \<lparr>tok_type = type, tok_start = int (length pre), tok_end = int (length pre + length t), tok_size = n\<rparr> = t"
  by (cases t) (simp_all add: stringToken_def nat_add_distrib)

lemma stringToken_quoted:
  "stringToken (pre @ st_quote sty s @ post) \<lparr>tok_type = type, tok_start = int (length pre + 1),
     tok_end = int (length pre + length (st_quote sty s) - 1), tok_size = n\<rparr> = st_body sty s"
  using stringToken_middle [of "pre @ [CHR 0x22]" "st_body sty s" "CHR 0x22 # post" type n]
  by (simp add: st_quote_def algebra_simps)

lemma to_string_plain: "CHR ''.'' \<notin> set (to_string n)"
proof
  assume "CHR ''.'' \<in> set (to_string n)"
  then obtain m where "CHR ''.'' \<in> set (to_digits m)" by (auto simp: to_string_def split: if_splits)
  from to_digits_set [OF this] obtain k :: nat where "k < 10" "CHR ''.'' = (char_of (48 + k) :: char)" by auto
  moreover have "\<forall>k \<in> set [0..<10]. CHR ''.'' \<noteq> (char_of (48 + k :: nat) :: char)" by code_simp
  ultimately show False by auto
qed

lemma primitive_word:
  "getValuePrimitive ops ''null'' = Inr JsonNull"
  "getValuePrimitive ops ''true'' = Inr (JsonBoolean True)"
  "getValuePrimitive ops ''false'' = Inr (JsonBoolean False)"
proof -
  have "stoi ''null'' = Inl InvalidArgument" "stoi ''true'' = Inl InvalidArgument" "stoi ''false'' = Inl InvalidArgument"
      "starts_with (lower ''null'') ''fals'' = False" "starts_with (lower ''null'') ''true'' = False"
      "starts_with (lower ''true'') ''fals'' = False" "starts_with (lower ''true'') ''true'' = True"
      "starts_with (lower ''false'') ''fals'' = True"
    by code_simp+
  then show "getValuePrimitive ops ''null'' = Inr JsonNull"
      "getValuePrimitive ops ''true'' = Inr (JsonBoolean True)"
      "getValuePrimitive ops ''false'' = Inr (JsonBoolean False)"
    by (simp_all add: getValuePrimitive_def)
qed

lemma primitive_integer: "getValuePrimitive ops (to_string n) = Inr (JsonInteger n)"
  using to_string_plain [of n] by (simp add: getValuePrimitive_def stoi_to_string list_ex_iff)

lemma primitive_double:
  "json_ok ops (JsonDouble d) \<Longrightarrow> getValuePrimitive ops (d_to_string ops d) = Inr (JsonDouble d)"
  by (auto simp: getValuePrimitive_def list_ex_iff)

context json_style
begin

lemma value_single:
  assumes "\<And>ms. v \<noteq> JsonObject ms" "\<And>vs. v \<noteq> JsonArray vs" "json_ok ops v"
  shows "getValueFromIter ops (pre @ value_text sty ops v @ post) (value_toks sty ops (length pre) v @ ts) =
    Inr (v, length (value_toks sty ops (length pre) v))"
proof (cases "\<exists>s. v = JsonString s")
  case True
  then obtain s where "v = JsonString s" ..
  then show ?thesis
    using assms(3) stringToken_quoted [of pre sty s post] body_read [of s] by (simp add: value_length_def)
next
  case False
  let ?t = "value_text sty ops v"
  have "getValuePrimitive ops ?t = Inr v"
    using False assms primitive_double [of ops] by (cases v) (auto simp: primitive_word primitive_integer)
  moreover have "value_toks sty ops (length pre) v =
      [\<lparr>tok_type = JSMN_PRIMITIVE, tok_start = int (length pre), tok_end = int (length pre + length ?t), tok_size = 0\<rparr>]"
    using False assms by (cases v) (auto simp: value_length_def)
  ultimately show ?thesis by (simp add: stringToken_middle del: of_nat_add)
qed

lemma value_toks_Cons: obtains tok us where "value_toks sty ops pos v = tok # us"
  by (cases v) auto

lemma build_value:
  "json_ok ops v \<Longrightarrow>
   getValueFromIter ops (pre @ value_text sty ops v @ post) (value_toks sty ops (length pre) v @ ts) =
   Inr (v, length (value_toks sty ops (length pre) v))"
  "\<forall>v \<in> set vs. json_ok ops v \<Longrightarrow>
   pushValuesToArray ops (pre @ items_text sty ops vs @ post) (length vs) (item_toks sty ops (length pre) vs @ ts) =
   Inr (vs, length (item_toks sty ops (length pre) vs))"
  "\<forall>(k, v) \<in> set ms. CHR 0x00 \<notin> set k \<and> json_ok ops v \<Longrightarrow> distinct (map fst (obj @ ms)) \<Longrightarrow>
   pushValuesToObject ops (pre @ members_text sty ops ms @ post) (length ms) (member_toks sty ops (length pre) ms @ ts) obj =
   Inr (obj @ ms, length (member_toks sty ops (length pre) ms))"
proof (induction ops v and ops vs and ops ms arbitrary: pre post ts and pre post ts and pre post ts obj
    rule: jv_toString_array_items_object_items.induct)
  case (6 ops ms)
  from "6.IH" [of "[]" "pre @ ''{'' @ st_pad sty" "st_pad sty @ ''}'' @ post" ts] "6.prems" show ?case by simp
next
  case (7 ops vs)
  from "7.IH" [of "pre @ ''['' @ st_pad sty" "st_pad sty @ '']'' @ post" ts] "7.prems" show ?case by simp
next
  case (9 ops v vs)
  let ?sep = "if vs = [] then [] else '','' @ st_pad sty" and ?p = "length pre + value_length sty ops v"
  obtain tok us where toks: "value_toks sty ops (length pre) v = tok # us" by (rule value_toks_Cons)
  have v: "getValueFromIter ops (pre @ value_text sty ops v @ ?sep @ items_text sty ops vs @ post)
      ((tok # us) @ item_toks sty ops (?p + 1 + length (st_pad sty)) vs @ ts) = Inr (v, length (tok # us))"
    using "9.IH"(1) [of pre "?sep @ items_text sty ops vs @ post" "item_toks sty ops (?p + 1 + length (st_pad sty)) vs @ ts"] "9.prems" toks by simp
  have vs: "pushValuesToArray ops (pre @ value_text sty ops v @ ?sep @ items_text sty ops vs @ post) (length vs)
      (item_toks sty ops (?p + 1 + length (st_pad sty)) vs @ ts) = Inr (vs, length (item_toks sty ops (?p + 1 + length (st_pad sty)) vs))"
  proof (cases "vs = []")
    case False
    then show ?thesis
      using "9.IH"(2) [of "pre @ value_text sty ops v @ ?sep" post ts] "9.prems" by (simp add: value_length_def add.assoc)
  qed simp
  show ?case using v vs toks by simp
next
  case (11 ops k v ms)
  let ?sep = "if ms = [] then [] else '','' @ st_pad sty" and ?p = "length pre + length (st_quote sty k) + 1 + length (st_pad sty)"
  let ?q = "?p + value_length sty ops v + 1 + length (st_pad sty)"
  let ?content = "pre @ st_quote sty k @ '':'' @ st_pad sty @ value_text sty ops v @ ?sep @ members_text sty ops ms @ post"
  let ?key = "\<lparr>tok_type = JSMN_STRING, tok_start = int (length pre + 1),
    tok_end = int (length pre + length (st_quote sty k) - 1), tok_size = 1\<rparr>"
  obtain tok us where toks: "value_toks sty ops ?p v = tok # us" by (rule value_toks_Cons)
  have k: "unescaped (stringToken ?content ?key) = k"
    using "11.prems"(1) body_read [of k] by (simp only: stringToken_quoted) auto
  have v: "getValueFromIter ops ?content ((tok # us) @ member_toks sty ops ?q ms @ ts) = Inr (v, length (tok # us))"
    using "11.IH"(1) [of "pre @ st_quote sty k @ '':'' @ st_pad sty" "?sep @ members_text sty ops ms @ post" "member_toks sty ops ?q ms @ ts"]
      "11.prems" toks by (simp add: add.assoc del: getValueFromIter.simps)
  have new: "obj_addValue k v obj = obj @ [(k, v)]"
    using "11.prems"(2) by (auto simp: obj_addValue_def obj_hasKey_def obj_getValue_def map_of_eq_None_iff)
  have ms: "pushValuesToObject ops ?content (length ms) (member_toks sty ops ?q ms @ ts) (obj @ [(k, v)]) =
      Inr (obj @ (k, v) # ms, length (member_toks sty ops ?q ms))"
  proof (cases "ms = []")
    case False
    then show ?thesis
      using "11.IH"(2) [of "obj @ [(k, v)]" "pre @ st_quote sty k @ '':'' @ st_pad sty @ value_text sty ops v @ ?sep" post ts] "11.prems"
      by (simp add: value_length_def add.assoc)
  qed simp
  have "pre @ members_text sty ops ((k, v) # ms) @ post = ?content" by simp
  moreover have "member_toks sty ops (length pre) ((k, v) # ms) @ ts = ?key # tok # us @ member_toks sty ops ?q ms @ ts"
    using toks by simp
  ultimately show ?case
    using k v new ms toks by (simp del: members_text.simps)
qed (simp_all only: append_Nil2 items_text.simps members_text.simps item_toks.simps member_toks.simps append_Nil
      pushValuesToArray.simps pushValuesToObject.simps list.size, (rule value_single; simp)+)

lemma object_content:
  assumes "json_ok ops (JsonObject ms)"
  shows "jsonContentString (value_text sty ops (JsonObject ms)) =
    \<lparr>jc_tokens = value_toks sty ops 0 (JsonObject ms), jc_content = value_text sty ops (JsonObject ms)\<rparr>"
  using parse_text [OF assms] by (simp add: jsonContentString_def json_parse_text del: value_text.simps)

lemma array_content:
  assumes "json_ok ops (JsonArray vs)"
  shows "jsonContentString (value_text sty ops (JsonArray vs)) =
    \<lparr>jc_tokens = value_toks sty ops 0 (JsonArray vs), jc_content = value_text sty ops (JsonArray vs)\<rparr>"
  using parse_text [OF assms] by (simp add: jsonContentString_def json_parse_text del: value_text.simps)

lemma object_read_back:
  assumes "json_ok ops (JsonObject ms)"
  shows "toObject ops (jsonContentString (value_text sty ops (JsonObject ms))) = Inr ms"
  using object_content [OF assms] build_value(3) [of ms ops "[]" "''{'' @ st_pad sty" "st_pad sty @ ''}''" "[]"] assms
  by (simp add: toObject_def)

lemma array_read_back:
  assumes "json_ok ops (JsonArray vs)"
  shows "toArray ops (jsonContentString (value_text sty ops (JsonArray vs))) = Inr vs"
  using array_content [OF assms] build_value(2) [of vs ops "''['' @ st_pad sty" "st_pad sty @ '']''" "[]"] assms
  by (simp add: toArray_def)

end

section \<open>Streams\<close>

text \<open>What the streams put together is the text of a value in their style.\<close>

lemma quoted_style: "std_quoted s = st_quote stream_style s"
  by (simp add: std_quoted_def st_quote_def stream_style_def)

lemma int_text_string: "- (2 ^ 31) \<le> i \<Longrightarrow> i < 2 ^ 31 \<Longrightarrow> int_text i = to_string (word_of_int i)"
  by (simp add: int_text_def to_string_def signed_of_int signed_take_bit_int_eq_self)

lemma stream_means:
  "stream_text StreamNull = value_text stream_style ops JsonNull"
  "stream_text (StreamBoolean b) = value_text stream_style ops (JsonBoolean b)"
  "stream_text (StreamString str) = value_text stream_style ops (JsonString str)"
  "- (2 ^ 31) \<le> i \<Longrightarrow> i < 2 ^ 31 \<Longrightarrow> stream_text (StreamInteger i) = value_text stream_style ops (JsonInteger (word_of_int i))"
  "stream_text (StreamPlain (value_text stream_style ops v)) = value_text stream_style ops v"
  by (simp_all add: stream_text_def quoted_style int_text_string)

lemma object_stream_members:
  "list_all2 (\<lambda>(k, v) (k', j). k = k' \<and> stream_text v = value_text stream_style ops j) kvs ms \<Longrightarrow> ms \<noteq> [] \<Longrightarrow>
   fold (\<lambda>(k, v). object_push k v) kvs (os, comma) =
   (os @ (if comma then '','' else []) @ members_text stream_style ops ms, True)"
proof (induction kvs ms arbitrary: os comma rule: list_all2_induct)
  case (Cons kv kvs m ms)
  obtain k v j where kv: "kv = (k, v)" "m = (k, j)" "stream_text v = value_text stream_style ops j"
    using Cons(1) by (cases kv; cases m) auto
  have pad: "st_pad stream_style = []" by (simp add: stream_style_def)
  show ?case
  proof (cases "ms = []")
    case True
    with Cons(2) have "kvs = []" by simp
    with True kv show ?thesis by (simp add: object_push_def quoted_style pad)
  next
    case False
    from Cons(3) [OF False] kv False show ?thesis by (simp add: object_push_def quoted_style pad)
  qed
qed simp

lemma object_stream_text:
  assumes "list_all2 (\<lambda>(k, v) (k', j). k = k' \<and> stream_text v = value_text stream_style ops j) kvs ms"
  shows "object_flush (fold (\<lambda>(k, v). object_push k v) kvs jsonObjectStream) = value_text stream_style ops (JsonObject ms)"
proof (cases "ms = []")
  case True
  with assms show ?thesis by (simp add: jsonObjectStream_def object_flush_def stream_style_def)
next
  case False
  from object_stream_members [OF assms this] show ?thesis
    by (simp add: jsonObjectStream_def object_flush_def) (simp add: stream_style_def)
qed

lemma array_stream_items:
  "list_all2 (\<lambda>v j. (\<forall>t. v \<noteq> StreamPlain t) \<and> stream_text v = value_text stream_style ops j) vs js \<Longrightarrow> js \<noteq> [] \<Longrightarrow>
   fold array_push vs (os, comma) = (os @ (if comma then '','' else []) @ items_text stream_style ops js, True)"
proof (induction vs js arbitrary: os comma rule: list_all2_induct)
  case (Cons v vs j js)
  have pad: "st_pad stream_style = []" by (simp add: stream_style_def)
  have v: "array_push v = array_push_text (value_text stream_style ops j)"
    using Cons(1) by (cases v) (simp_all add: array_push_def)
  show ?case
  proof (cases "js = []")
    case True
    with Cons(2) have "vs = []" by simp
    with True v show ?thesis by (simp add: array_push_text_def)
  next
    case False
    from Cons(3) [OF False] v False show ?thesis by (simp add: array_push_text_def pad)
  qed
qed simp

lemma array_stream_text:
  assumes "list_all2 (\<lambda>v j. (\<forall>t. v \<noteq> StreamPlain t) \<and> stream_text v = value_text stream_style ops j) vs js"
  shows "array_flush (array_push_range vs jsonArrayStream) = value_text stream_style ops (JsonArray js)"
proof (cases "js = []")
  case True
  with assms show ?thesis
    by (simp add: jsonArrayStream_def array_flush_def array_push_range_def array_push_each_def stream_style_def)
next
  case False
  from array_stream_items [OF assms this] show ?thesis
    by (simp add: jsonArrayStream_def array_flush_def array_push_range_def array_push_each_def) (simp add: stream_style_def)
qed

section \<open>Properties\<close>

text \<open>
  A library for the witnesses: two doubles.
\<close>

definition half_ops :: "bool doubles" where
  "half_ops = \<lparr>d_to_string = (\<lambda>b. if b then ''1.000000'' else ''-0.500000''),
     d_stod = (\<lambda>s. if s = ''1.000000'' then Inr True else if s = ''-0.500000'' then Inr False else Inl InvalidArgument),
     d_trunc = (\<lambda>b. Inr (if b then 1 else 0)), d_of_int = (\<lambda>n. n \<noteq> 0), d_nonzero = (\<lambda>_. True)\<rparr>"

text \<open>
  C19. What the program writes for an object or an array it reads back as the same object or array, nested to
  any depth, with every character of its strings and keys except the zero, every \<open>int\<close>, and every double that the library
  itself reads back from its text.
\<close>

theorem document_roundtrip:
  assumes "json_ok ops (JsonObject ms)" and "json_ok ops (JsonArray vs)"
  shows "toObject ops (jsonContentString (jv_toString ops (JsonObject ms))) = Inr ms \<and>
    toArray ops (jsonContentString (jv_toString ops (JsonArray vs))) = Inr vs"
  using strings.object_read_back [OF assms(1)] strings.array_read_back [OF assms(2)]
  unfolding toString_style ..

theorem document_roundtrip_witness:
  "let ms = [(''a b'', JsonArray [JsonInteger (- 12), JsonArray [], JsonNull]),
             (''q'', JsonObject [(''x'', JsonString (CHR 0x22 # CHR 0x0A # ''{,'')), (''y'', JsonDouble False)]),
             ([], JsonBoolean False)];
       vs = [JsonObject [], JsonDouble True, JsonString [], JsonBoolean True]
   in toObject half_ops (jsonContentString (jv_toString half_ops (JsonObject ms))) = Inr ms \<and>
      toArray half_ops (jsonContentString (jv_toString half_ops (JsonArray vs))) = Inr vs"
proof -
  let ?ms = "[(''a b'', JsonArray [JsonInteger (- 12), JsonArray [], JsonNull]),
             (''q'', JsonObject [(''x'', JsonString (CHR 0x22 # CHR 0x0A # ''{,'')), (''y'', JsonDouble False)]),
             ([], JsonBoolean False)]"
  let ?vs = "[JsonObject [], JsonDouble True, JsonString [], JsonBoolean True]"
  have "json_ok half_ops (JsonObject ?ms)" "json_ok half_ops (JsonArray ?vs)"
    by (simp_all add: half_ops_def prim_char_def)
  from document_roundtrip [OF this] show ?thesis unfolding Let_def by blast
qed

text \<open>
  C20. The reading of any text ends: the rounds of 128 more tokens find enough room, and what they find is what the tokenizer
  finds with any number of tokens that suffices.
\<close>

theorem json_parse_ends:
  "\<exists>r. json_parse str = Some r \<and> r \<noteq> Inl JSMN_ERROR_NOMEM \<and>
     (\<forall>num. jsmn_parse num str \<noteq> Inl JSMN_ERROR_NOMEM \<longrightarrow> r = jsmn_parse num str)"
proof (intro exI conjI allI impI)
  show "json_parse str = Some (jsmn_parse (length str) str)" by (rule json_parse_text)
  show "jsmn_parse (length str) str \<noteq> Inl JSMN_ERROR_NOMEM" by (rule parse_enough) simp
  show "jsmn_parse (length str) str = jsmn_parse num str" if "jsmn_parse num str \<noteq> Inl JSMN_ERROR_NOMEM" for num
    by (rule parse_any_room [OF that, symmetric])
qed

theorem json_parse_ends_witness:
  "json_parse ''[1]'' = Some (jsmn_parse 2 ''[1]'')"
proof -
  have "jsmn_parse 2 ''[1]'' \<noteq> Inl JSMN_ERROR_NOMEM" by code_simp
  with json_parse_ends [of "''[1]''"] show ?thesis by auto
qed

text \<open>
  \<open>join\<close> never joins objects: an object that is there under the same key stays as it was, and an array that is there
  is taken for an object, which is undefined behaviour.
\<close>

theorem join_no_objects:
  "(obj_getObject key content \<noteq> None \<longrightarrow> join_member key (JsonObject jo) content = Inr content) \<and>
   (obj_getArray key content \<noteq> None \<longrightarrow> join_member key (JsonObject jo) content = Inl MemoryFault)"
  by (auto simp: obj_getObject_def obj_getArray_def join_member_def obj_emplace_def obj_hasKey_def
      split: option.splits json.splits)

theorem join_no_objects_witness:
  "obj_join [(''k'', JsonObject [(''b'', JsonInteger 2)])] [(''k'', JsonObject [(''a'', JsonInteger 1)])] =
     Inr [(''k'', JsonObject [(''a'', JsonInteger 1 :: bool json)])] \<and>
   obj_join [(''k'', JsonObject [(''b'', JsonInteger 2)])] [(''k'', JsonArray ([] :: bool json list))] = Inl MemoryFault"
  using join_no_objects [of "''k''" "[(''k'', JsonObject [(''a'', JsonInteger 1 :: bool json)])]" "[(''b'', JsonInteger 2)]"]
    join_no_objects [of "''k''" "[(''k'', JsonArray ([] :: bool json list))]" "[(''b'', JsonInteger 2)]"]
  by (simp add: obj_getObject_def obj_getArray_def obj_getValue_def)

end
