(* ===== verification/Channel_Messages.thy ===== *)
theory Channel_Messages
  imports Channel_Threads Json_Document
begin

text \<open>
  What the other end reads of a message of the channel 0, and the exchange of messages between the two ends.
\<close>

section \<open>Reading a message\<close>

text \<open>The value that the peer builds of what was pushed into the stream.\<close>

fun stream_json :: "stream_value \<Rightarrow> 'd json" where
  "stream_json (StreamBoolean b) = JsonBoolean b"
| "stream_json (StreamString str) = JsonString str"
| "stream_json (StreamInteger i) = JsonInteger (word_of_int i)"
| "stream_json _ = JsonNull"

fun stream_ok :: "stream_value \<Rightarrow> bool" where
  "stream_ok (StreamString str) = (CHR 0x00 \<notin> set str)"
| "stream_ok (StreamInteger i) = (- (2 ^ 31) \<le> i \<and> i < 2 ^ 31)"
| "stream_ok (StreamPlain t) = False"
| "stream_ok v = True"

definition members_of :: "(string \<times> stream_value) list \<Rightarrow> 'd members" where
  "members_of kvs = map (\<lambda>(k, v). (k, stream_json v)) kvs"

lemma stream_ok_means:
  "stream_ok v \<Longrightarrow> stream_text v = value_text stream_style ops (stream_json v)"
  "stream_ok v \<Longrightarrow> json_ok ops (stream_json v)"
  by (cases v; simp add: stream_means(1-4) [where ops = ops])+

lemma message_read:
  assumes "list_all2 (\<lambda>(k, v) (k', j). k = k' \<and> stream_text v = value_text stream_style ops j) kvs ms"
    and "json_ok ops (JsonObject ms)" and "obj_getString ops ''cmd'' [] ms = cmd" and "cmd \<noteq> []"
  shows "system_object ops (str_bytes (stream_message kvs)) = Inr (ms, cmd)"
proof -
  have t: "stream_message kvs = value_text stream_style ops (JsonObject ms)"
    unfolding stream_message_def by (rule object_stream_text [OF assms(1)])
  show ?thesis
    using streams.object_content [OF assms(2)] streams.object_read_back [OF assms(2)] assms(3,4)
    by (simp add: system_object_def t del: value_text.simps)
qed

lemma members_keys [simp]: "map fst (members_of kvs) = map fst kvs"
  by (simp add: members_of_def case_prod_beta')

lemma message_members:
  assumes "list_all (stream_ok \<circ> snd) kvs" "distinct (map fst kvs)" "list_all (\<lambda>k. CHR 0x00 \<notin> set k) (map fst kvs)"
    and "obj_getString ops ''cmd'' [] (members_of kvs) = cmd" "cmd \<noteq> []"
  shows "system_object ops (str_bytes (stream_message kvs)) = Inr (members_of kvs, cmd)"
proof (rule message_read [OF _ _ assms(4,5)])
  show "list_all2 (\<lambda>(k, v) (k', j). k = k' \<and> stream_text v = value_text stream_style ops j) kvs (members_of kvs)"
    using assms(1) by (induction kvs) (auto simp: members_of_def stream_ok_means [where ops = ops])
  have "CHR 0x00 \<notin> set k \<and> json_ok ops v" if member: "(k, v) \<in> set (members_of kvs)" for k v
  proof -
    from member obtain w where w: "(k, w) \<in> set kvs" "v = stream_json w" by (auto simp: members_of_def)
    then have "stream_ok w" "CHR 0x00 \<notin> set k" using assms(1,3) by (auto simp: list_all_iff)
    with w(2) show ?thesis by (simp add: stream_ok_means(2))
  qed
  with assms(2) show "json_ok ops (JsonObject (members_of kvs))" by auto
qed

lemma byte_ok [simp]: "stream_ok (StreamInteger (uint (ch :: u8)))"
  using uint_bounded [of ch] by (auto intro: order_trans [of _ 0])

lemma flag_ok [simp]: "stream_ok (StreamInteger (sint (w :: u32)))"
  using sint_ge [of w] sint_lt [of w] by simp

lemma byte_member: "word_of_int (uint (ch :: u8)) = (ucast ch :: u32)"
  by simp

lemmas members_simps = members_of_def obj_getString_def obj_getInteger_def obj_getBoolean_def obj_getValue_def
  jv_getString_def jv_getInteger_def jv_getBoolean_def byte_member

lemma connected_read:
  "system_object ops (str_bytes (stream_message (connected_members ch flags noerror))) =
   Inr (members_of (connected_members ch flags noerror), ''ChannelConnected'')"
  by (rule message_members) (simp_all add: connected_members_def members_simps del: stream_ok.simps(2))

lemma close_read:
  "system_object ops (str_bytes (stream_message (close_members ch))) = Inr (members_of (close_members ch), ''ChannelClose'')"
  by (rule message_members) (simp_all add: close_members_def members_simps del: stream_ok.simps(2))

lemma open_read:
  assumes "um_type copts \<noteq> TypeSocket" "CHR 0x00 \<notin> set (um_content copts)"
  shows "system_object ops (str_bytes (stream_message (open_members env ch copts opts))) =
    Inr (members_of (open_members env ch copts opts), ''ChannelOpen'')"
proof (rule message_members)
  show "list_all (stream_ok \<circ> snd) (open_members env ch copts opts)"
    using assms by (simp add: open_members_def typeString_def modeString_def speedString_def
        del: stream_ok.simps(2) split: connectorType.split connectorMode.split speed.split)
  show "distinct (map fst (open_members env ch copts opts))"
    "list_all (\<lambda>k. CHR 0x00 \<notin> set k) (map fst (open_members env ch copts opts))"
    using assms(1) by (simp_all add: open_members_def content_member_def split: connectorType.split)
qed (simp_all add: open_members_def members_simps)

end
