(* ===== verification/Channel_Properties.thy ===== *)
theory Channel_Properties
  imports Channel_Invariant Channel_Messages
begin

text \<open>
  The properties of the channels: numbers under every interleaving, what is admitted on a channel, the transport of data from
  one descriptor to the other, the opening of a channel between the two ends, and what goes wrong.
\<close>

section \<open>A machine for the witnesses\<close>

text \<open>Every call of the system succeeds; what is allowed is an argument.\<close>

definition some_env :: "bool \<Rightarrow> bool \<Rightarrow> chan_env" where
  "some_env client allow =
     \<lparr>isUserSession = True, serverSide = \<not> client, ltsmClient = client, deviceSupport = (\<lambda>_. client),
      createChannelAllow = (\<lambda>_ _ _. allow), os_is_socket = (\<lambda>_. True), os_exists = (\<lambda>_. True), os_symlink = (\<lambda>_. None),
      os_is_regular = (\<lambda>_. True), os_unix_connect = (\<lambda>_. 7), os_tcp_connect = (\<lambda>_ _. 8), os_unix_listen = (\<lambda>_ _. 5),
      os_tcp_listen = (\<lambda>_ _ _. 6), os_open = (\<lambda>_ _ _. 9), os_popen = (\<lambda>_ _. Some 4), os_resolv = (\<lambda>_. []),
      os_readable = (\<lambda>_. True), os_file_size = (\<lambda>_. 3), os_strerror = (\<lambda>_. ''failed'')\<rparr>"

definition plain_zlib :: zlib where
  "plain_zlib = \<lparr>zlib_compress = (\<lambda>b. Inr (1 # b)), zlib_uncompress = (\<lambda>b. Inr (tl b))\<rparr>"

definition audio_url :: urlmode where
  "audio_url = urlMode_of_type TypeAudio ''default'' ReadWrite"

definition unix_url :: urlmode where
  "unix_url = urlMode_of_type TypeUnix ''/run/audio'' ReadWrite"

text \<open>Runs of actions, under one environment.\<close>

primrec run_actions ::
    "chan_env \<Rightarrow> zlib \<Rightarrow> (bytes \<Rightarrow> (chan_client, unit) exc) \<Rightarrow> chan_action list \<Rightarrow> chan_client \<Rightarrow> chan_client option" where
  "run_actions env z sys [] s = Some s"
| "run_actions env z sys (a # as) s = (if can_do a s then run_actions env z sys as (snd (chan_do env z sys a s)) else None)"

lemma run_reach: "run_actions env z (sys env) as s = Some t \<Longrightarrow> chan_reach z sys s \<Longrightarrow> chan_reach z sys t"
  by (induction as arbitrary: s) (auto split: if_splits intro: chan_action)

lemma run_same:
  "(\<And>ch m. Receive ch m \<in> set as \<Longrightarrow> sys m = sys' m) \<Longrightarrow> run_actions env z sys as s = run_actions env z sys' as s"
proof (induction as arbitrary: s)
  case (Cons a as)
  have "chan_do env z sys a = chan_do env z sys' a"
    using Cons.prems by (cases a) (auto simp: chan_do_def recvLtsmEvent_def fun_eq_iff)
  moreover have "run_actions env z sys as t = run_actions env z sys' as t" for t
    using Cons.prems by (intro Cons.IH) auto
  ultimately show ?case by simp
qed simp

definition quiet_virt :: "string \<Rightarrow> bool members \<Rightarrow> (chan_client, unit) exc" where
  "quiet_virt cmd jo = ereturn ()"

lemma free_first:
  assumes "channels s = []" "channelsPlanned s = []"
  shows "free_channel s = Some 1"
proof -
  have "[1..<255] = 1 # [Suc 1..<255]" by (rule upt_conv_Cons) simp
  with assms show ?thesis by (simp add: free_channel_def findChannel_def findPlanned_def del: upt_Suc)
qed

lemma quiet_virt_keeps: "keeps P (quiet_virt cmd jo)"
  by (simp add: quiet_virt_def keeps_basic)

lemmas run_simps = can_do_def chan_do_def thread_round_def createListener_def createUnixListener_def new_listener_def
  some_env_def audio_url_def unix_url_def default_opts_def urlMode_of_type_def channelClient_def accept_round_def
  createChannelAcceptFd_begin_def modes_refused_def on_listener_def accept_step_def creation_step_def creation_waits_def
  plannedEmplace_def create_start_def create_step_def createChannel_begin_def sendSystemChannelOpen_def send_system_def send_data_def
  findPlanned_def recvLtsmEvent_def systemChannelConnected_def planned_connected_def channelPlannedCreate_def createChannelFd_def
  createSockConnector_def fd_connector_def new_connector_def sendSystemChannelConnected_def emplace_channel_def
  connectorFD_def has_reader_def has_writer_def findChannel_def cn_channel_def on_channel_def destroyChannel_def
  remove_start_def writer_round_def reader_round_def sendSystemChannelClose_def threads_ended_def drain.simps
  Let_def close_fd_def ebind_def ereturn_def egets_def emodify_def ewhen_def elift_def ecatch_def
  local2Remote_FD_def l2r_setSpeed_def remote2Local_FD_def r2l_setSpeed_def r2l_isEmpty_def
  connected_members_def members_simps ethrow_def

section \<open>Numbers\<close>

text \<open>
  C10. In every state that a server reaches, however its handlers, threads, listeners, searches for a number and removals
  interleave: no two channels have the same number, every connector has the directions, the threads and the mode of its kind,
  and the numbers 0 and 255 are neither used nor planned nor about to be planned. The plans themselves may share a number,
  with one another and with a channel, so it is the check when a plan becomes a channel that keeps the channels apart.
\<close>

theorem channels_apart:
  assumes "chan_reach z (\<lambda>env. server_recvChannelSystemEvent env ops virt) s"
    and "\<And>cmd jo. keeps chan_inv (virt cmd jo)"
  shows "chan_inv s"
  by (rule reach_inv [OF assms(1)]) (rule server_event_keeps [OF assms(2)])

text \<open>Two calls of \<open>createChannel\<close>, one after the other.\<close>

definition create_run :: "chan_action list" where
  "create_run = [Create audio_url unix_url default_opts, CreateStep 0, CreateStep 0, CreateStep 0, CreateStep 0,
     Create audio_url unix_url default_opts, CreateStep 0, CreateStep 0, CreateStep 0, CreateStep 0, CreateStep 0]"

theorem channels_apart_witness:
  "\<exists>s. chan_reach plain_zlib (\<lambda>env. server_recvChannelSystemEvent env half_ops quiet_virt) s \<and>
     map pl_channel (channelsPlanned s) = [1, 2] \<and> chan_inv s"
proof -
  let ?sys = "\<lambda>env. server_recvChannelSystemEvent env half_ops quiet_virt"
  let ?run = "\<lambda>sys. run_actions (some_env False False) plain_zlib sys create_run channelClient"
  have same: "?run (?sys (some_env False False)) = ?run (\<lambda>_. ereturn ())"
    by (intro run_same) (auto simp: create_run_def)
  have "case ?run (\<lambda>_. ereturn ()) of None \<Rightarrow> False | Some s \<Rightarrow> map pl_channel (channelsPlanned s) = [1, 2]"
    by (simp add: create_run_def run_simps)
  then obtain s where run: "?run (?sys (some_env False False)) = Some s" and s: "map pl_channel (channelsPlanned s) = [1, 2]"
    unfolding same by (auto split: option.splits)
  have r: "chan_reach plain_zlib ?sys s" by (rule run_reach [where sys = ?sys, OF run chan_start])
  have "chan_inv s" by (rule channels_apart [OF r]) (rule quiet_virt_keeps)
  with r s show ?thesis by (intro exI [of _ s] conjI)
qed

section \<open>Admission\<close>

definition admitted :: "chan_env \<Rightarrow> connector \<Rightarrow> bool" where
  "admitted env c \<longleftrightarrow> remoteConnected c \<and> loopRunning c \<and> (ltsmClient env \<or> (isUserSession env \<longleftrightarrow> cn_flags c AND 2 = 0))"

lemma recvChannelData_cases:
  "findChannel ch s = None \<Longrightarrow> recvChannelData env ch buf s = (Inl InvalidArgument, s)"
  "findChannel ch s = Some c \<Longrightarrow> \<not> admitted env c \<Longrightarrow> recvChannelData env ch buf s = (Inl InvalidArgument, s)"
  "findChannel ch s = Some c \<Longrightarrow> admitted env c \<Longrightarrow> recvChannelData env ch buf s = (case cn_kind c of
       Device _ \<Rightarrow> (Inr (), s\<lparr>ch_device := ch_device s @ [(ch, buf)]\<rparr>) | _ \<Rightarrow> on_channel ch (cn_pushData buf) s)"
  by (auto simp: recvChannelData_def admitted_def session_refused_def isAllowSessionFor_def split: connectorKind.split)

lemma find_update:
  assumes "find P xs = Some x"
  shows "P (f x) \<Longrightarrow> find P (update_first P f xs) = Some (f x)"
    and "\<not> Q x \<Longrightarrow> \<not> Q (f x) \<Longrightarrow> find Q (update_first P f xs) = find Q xs"
  using assms by (induction xs) (auto split: if_splits)

lemma update_same: "find P xs = Some x \<Longrightarrow> f x = x \<Longrightarrow> update_first P f xs = xs"
  by (induction xs) (auto split: if_splits)

lemma pushData_channel: "cn_channel (cn_pushData buf c) = cn_channel c"
  by (simp add: cn_pushData_def cn_channel_def r2l_pushData_def split: connectorKind.split option.split)

text \<open>
  C13. What happens to data that arrives for a channel, in every state that a server reaches. It is taken exactly when the
  channel is there, connected, running and of the kind of session that is on; otherwise the handler throws
  \<open>invalid_argument\<close>, which ends the session, and nothing changes: data that arrives late for a channel that was just removed
  is no exception. Data that is taken becomes the last of the queue of the channel's writer, with everything else as it was,
  and is handed to the device of a channel that serves one; a channel that only reads drops it without an error.
\<close>

theorem data_admitted:
  assumes "chan_reach z (\<lambda>env. server_recvChannelSystemEvent env ops virt) s" and "\<And>cmd jo. keeps chan_inv (virt cmd jo)"
    and "recvChannelData env ch buf s = (r, t)"
  shows "case findChannel ch s of
      None \<Rightarrow> r = Inl InvalidArgument \<and> t = s
    | Some c \<Rightarrow>
        if \<not> admitted env c then r = Inl InvalidArgument \<and> t = s
        else r = Inr () \<and>
          (case cn_kind c of
             Device _ \<Rightarrow> t = s\<lparr>ch_device := ch_device s @ [(ch, buf)]\<rparr>
           | _ \<Rightarrow>
               if has_writer (cn_kind c) then
                 (\<exists>st. remoteLocal c = Some st \<and>
                   findChannel ch t = Some (c\<lparr>remoteLocal := Some
                     (st\<lparr>r2l_queueBufs := r2l_queueBufs st @ (if buf = [] then [] else [buf])\<rparr>)\<rparr>)) \<and>
                 (\<forall>ch'. ch' \<noteq> ch \<longrightarrow> findChannel ch' t = findChannel ch' s) \<and>
                 map cn_channel (channels t) = map cn_channel (channels s) \<and> s\<lparr>channels := channels t\<rparr> = t
               else t = s)"
proof (cases "findChannel ch s")
  case None
  with assms(3) show ?thesis by (simp add: recvChannelData_cases)
next
  case (Some c)
  note c = found_some [OF Some]
  have "chan_inv s" by (rule reach_inv [OF assms(1)]) (rule server_event_keeps [OF assms(2)])
  then have ok: "connector_ok c" using c by (simp add: chan_inv_def)
  show ?thesis
  proof (cases "admitted env c \<and> (\<forall>d. cn_kind c \<noteq> Device d)")
    case True
    then have run: "recvChannelData env ch buf s = on_channel ch (cn_pushData buf) s"
      using recvChannelData_cases(3) [OF Some, of env buf] by (cases "cn_kind c") simp_all
    let ?t = "s\<lparr>channels := update_first (\<lambda>c. cn_channel c = ch) (cn_pushData buf) (channels s)\<rparr>"
    have t: "r = Inr ()" "t = ?t" using run assms(3) by (simp_all add: on_channel_def)
    have found: "find (\<lambda>c. cn_channel c = ch) (channels s) = Some c" using Some by (simp add: findChannel_def)
    show ?thesis
    proof (cases "has_writer (cn_kind c)")
      case w: True
      then obtain st where st: "remoteLocal c = Some st" using ok by (auto simp: connector_ok_def split: option.splits)
      have here: "findChannel ch t = Some (cn_pushData buf c)"
        using find_update(1) [OF found, of "cn_pushData buf"] c by (simp add: findChannel_def t pushData_channel)
      have there: "findChannel ch' t = findChannel ch' s" if "ch' \<noteq> ch" for ch'
        using find_update(2) [OF found, of "\<lambda>c. cn_channel c = ch'" "cn_pushData buf"] c that
        by (simp add: findChannel_def t pushData_channel)
      have numbers: "map cn_channel (channels t) = map cn_channel (channels s)"
        by (simp add: t update_first_map pushData_channel)
      have push: "cn_pushData buf c = c\<lparr>remoteLocal := Some (st\<lparr>r2l_queueBufs := r2l_queueBufs st @ (if buf = [] then [] else [buf])\<rparr>)\<rparr>"
        using st by (cases c) (simp add: cn_pushData_def r2l_pushData_def)
      have "s\<lparr>channels := channels t\<rparr> = t" by (simp add: t)
      with True w st here there numbers push t(1) Some show ?thesis by (cases "cn_kind c") (auto simp: has_writer_def)
    next
      case False
      then have "remoteLocal c = None" using ok by (auto simp: connector_ok_def split: option.splits)
      then have "cn_pushData buf c = c" by (cases c) (simp add: cn_pushData_def)
      then have "t = s" using update_same [OF found] by (simp add: t)
      with True False t(1) Some show ?thesis by (cases "cn_kind c") simp_all
    qed
  next
    case False
    with assms(3) Some show ?thesis
      by (cases "cn_kind c") (auto simp: recvChannelData_cases)
  qed
qed

text \<open>A connection of which the client has agreed to the channel, and data that arrives on it.\<close>

definition agreed :: bytes where
  "agreed = str_bytes (stream_message (connected_members 1 0 True))"

definition accept_run :: "chan_action list" where
  "accept_run = Listen audio_url unix_url 5 default_opts # Accept 0 42 #
     [AcceptStep 0, AcceptStep 0, AcceptStep 0, AcceptStep 0, Receive 0 agreed]"

text \<open>The runs of a server, where its handler of the agreement is evaluated once.\<close>

lemma agreed_runs:
  "(\<And>ch m. Receive ch m \<in> set as \<Longrightarrow> m = agreed) \<Longrightarrow>
   run_actions env z (server_recvChannelSystemEvent env ops virt) as s =
   run_actions env z (\<lambda>_. ebind (systemChannelConnected env ops (members_of (connected_members 1 0 True))) (\<lambda>_. ereturn ())) as s"
  by (rule run_same)
    (force simp: server_recvChannelSystemEvent_def agreed_def connected_read elift_def ebind_def fun_eq_iff)

theorem data_admitted_witness:
  "\<exists>s c st. chan_reach plain_zlib (\<lambda>env. server_recvChannelSystemEvent env half_ops quiet_virt) s \<and>
     findChannel 1 (snd (recvChannelData (some_env False False) 1 [5, 6] s)) = Some c \<and> remoteLocal c = Some st \<and>
     r2l_queueBufs st = [[5, 6]]"
proof -
  let ?sys = "\<lambda>env. server_recvChannelSystemEvent env half_ops quiet_virt"
  let ?run = "run_actions (some_env False False) plain_zlib (?sys (some_env False False)) accept_run channelClient"
  have same: "?run = run_actions (some_env False False) plain_zlib (\<lambda>_. ebind (systemChannelConnected (some_env False False)
      half_ops (members_of (connected_members 1 0 True))) (\<lambda>_. ereturn ())) accept_run channelClient"
    by (rule agreed_runs) (auto simp: accept_run_def)
  have "case ?run of None \<Rightarrow> False | Some s \<Rightarrow>
      (case findChannel 1 s of None \<Rightarrow> False | Some c \<Rightarrow> cn_kind c = FD_RW \<and> remoteConnected c \<and> loopRunning c \<and> cn_flags c = 0 \<and>
         (case remoteLocal c of None \<Rightarrow> False | Some st \<Rightarrow> r2l_queueBufs st = []))"
    unfolding same by (simp add: accept_run_def run_simps)
  then obtain s c st where run: "?run = Some s" and s: "findChannel 1 s = Some c" "cn_kind c = FD_RW" "remoteConnected c"
      "loopRunning c" "cn_flags c = 0" "remoteLocal c = Some st" "r2l_queueBufs st = []"
    by (auto split: option.splits)
  have r: "chan_reach plain_zlib ?sys s" by (rule run_reach [where sys = ?sys, OF run chan_start])
  obtain q t where d: "recvChannelData (some_env False False) 1 [5, 6] s = (q, t)"
    by (cases "recvChannelData (some_env False False) 1 [5, 6] s")
  have "admitted (some_env False False) c" using s by (simp add: admitted_def some_env_def)
  moreover note data_admitted [OF r quiet_virt_keeps d]
  ultimately have "findChannel 1 t = Some (c\<lparr>remoteLocal := Some (st\<lparr>r2l_queueBufs := [[5, 6]]\<rparr>)\<rparr>)"
    using s by (auto simp: has_writer_def)
  with d have "findChannel 1 (snd (recvChannelData (some_env False False) 1 [5, 6] s)) =
      Some (c\<lparr>remoteLocal := Some (st\<lparr>r2l_queueBufs := [[5, 6]]\<rparr>)\<rparr>)" by simp
  with r show ?thesis
    by (intro exI [of _ s] exI [of _ "c\<lparr>remoteLocal := Some (st\<lparr>r2l_queueBufs := [[5, 6]]\<rparr>)\<rparr>"]
      exI [of _ "st\<lparr>r2l_queueBufs := [[5, 6]]\<rparr>"] conjI) simp_all
qed

section \<open>Descriptors\<close>

lemma ok_directions:
  assumes "connector_ok c" "cn_kind c = FD_RW"
  obtains st rt where "localRemote c = Some st" "remoteLocal c = Some rt" "l2r_fd st = r2l_fd rt" "l2r_needClose st" "r2l_needClose rt"
  using assms by (auto simp: connector_ok_def has_reader_def has_writer_def split: option.splits)

text \<open>
  C14. The destructor of a channel that reads and writes closes its descriptor twice, in every state that a server reaches: each of
  the two directions owns it. The second call may close a descriptor that another thread has just opened under that number.
\<close>

theorem descriptor_closed_twice:
  assumes "chan_reach z (\<lambda>env. server_recvChannelSystemEvent env ops virt) s" and "\<And>cmd jo. keeps chan_inv (virt cmd jo)"
    and "ch_removing s = Some ch" and "findChannel ch s = Some c" and "cn_kind c = FD_RW"
    and "localRemote c = Some st" and "0 \<le> l2r_fd st"
  shows "ch_closed (snd (remove_end s)) = ch_closed s @ [l2r_fd st, l2r_fd st]"
proof -
  have "chan_inv s" by (rule reach_inv [OF assms(1)]) (rule server_event_keeps [OF assms(2)])
  then have "connector_ok c" using found_some [OF assms(4)] by (simp add: chan_inv_def)
  from ok_directions [OF this assms(5)] assms(6) obtain rt where
    "remoteLocal c = Some rt" "l2r_fd st = r2l_fd rt" "l2r_needClose st" "r2l_needClose rt" by auto
  with assms show ?thesis by (simp add: remove_end_def cn_closes_def)
qed

text \<open>A server whose listener has accepted a connection, to which the client has agreed, and which is then removed.\<close>

definition removal_run :: "chan_action list" where
  "removal_run = accept_run @ [Destroy 1, Remove 0,
     WriterRound 1 [], ReaderRound 1 \<lparr>rd_input = Inr False, rd_data = Inr 0, rd_errno = 0, rd_read = (\<lambda>_. ReadBytes [])\<rparr>]"

theorem descriptor_closed_twice_witness:
  "\<exists>s. chan_reach plain_zlib (\<lambda>env. server_recvChannelSystemEvent env half_ops quiet_virt) s \<and>
     ch_closed (snd (remove_end s)) = [42, 42]"
proof -
  let ?sys = "\<lambda>env. server_recvChannelSystemEvent env half_ops quiet_virt"
  let ?run = "run_actions (some_env False False) plain_zlib (?sys (some_env False False)) removal_run channelClient"
  have same: "?run = run_actions (some_env False False) plain_zlib (\<lambda>_. ebind (systemChannelConnected (some_env False False)
      half_ops (members_of (connected_members 1 0 True))) (\<lambda>_. ereturn ())) removal_run channelClient"
    by (rule agreed_runs) (auto simp: removal_run_def accept_run_def)
  have "case ?run of None \<Rightarrow> False | Some s \<Rightarrow>
      ch_removing s = Some 1 \<and> ch_closed s = [] \<and>
      (case findChannel 1 s of None \<Rightarrow> False | Some c \<Rightarrow>
         cn_kind c = FD_RW \<and> (case localRemote c of None \<Rightarrow> False | Some st \<Rightarrow> l2r_fd st = 42))"
    unfolding same by (simp add: removal_run_def accept_run_def run_simps)
  then obtain s c st where run: "?run = Some s" and s: "ch_removing s = Some 1" "findChannel 1 s = Some c" "cn_kind c = FD_RW"
      "localRemote c = Some st" and fd: "l2r_fd st = 42" "ch_closed s = []"
    by (auto split: option.splits)
  have r: "chan_reach plain_zlib ?sys s" by (rule run_reach [where sys = ?sys, OF run chan_start])
  have "ch_closed (snd (remove_end s)) = ch_closed s @ [l2r_fd st, l2r_fd st]"
    by (rule descriptor_closed_twice [OF r quiet_virt_keeps s]) (simp add: fd)
  with r fd show ?thesis by auto
qed

end
