(* ===== verification/Channel_Transport.thy ===== *)
theory Channel_Transport
  imports Channel_Properties
begin

text \<open>
  The transport of data on a channel: what the reader of one end takes from its descriptor is what the writer of the other end
  gives to its own.
\<close>

section \<open>Rounds of the reader\<close>

text \<open>What a round without an error takes from the descriptor: nothing when there is no input or the call is interrupted.\<close>

definition read_piece :: "nat \<Rightarrow> read_calls \<Rightarrow> bytes option" where
  "read_piece blocksz rc =
     (case rbind (rd_input rc) (\<lambda>input. if input then rd_data rc else Inr 0) of
        Inl _ \<Rightarrow> None
      | Inr n \<Rightarrow>
          if n = 0 then Some []
          else case rd_read rc (min n blocksz) of
              ReadBytes bs \<Rightarrow> if bs = [] then None else Some bs
            | ReadFailed e \<Rightarrow> if e = EAGAIN \<or> e = EINTR then Some [] else None)"

definition packed_piece :: "zlib \<Rightarrow> bool \<Rightarrow> bytes \<Rightarrow> bytes res" where
  "packed_piece z compress bs = (if compress then zl_deflate z bs else Inr bs)"

text \<open>What zlib does: what it packs is not empty, and is unpacked to the same bytes.\<close>

definition zlib_inverse :: "zlib \<Rightarrow> bool" where
  "zlib_inverse z \<longleftrightarrow> (\<forall>bs. bs \<noteq> [] \<longrightarrow> (\<exists>p. zl_deflate z bs = Inr p \<and> p \<noteq> [] \<and> zl_inflate z p = Inr bs))"

lemma zlib_inverseD: "zlib_inverse z \<Longrightarrow> bs \<noteq> [] \<Longrightarrow> \<exists>p. zl_deflate z bs = Inr p \<and> p \<noteq> [] \<and> zl_inflate z p = Inr bs"
  by (simp add: zlib_inverse_def)

lemma readData_piece:
  assumes "read_piece (l2r_blocksz st) rc = Some bs" "zlib_inverse z"
  obtains m t1 t2 where "readData z rc st = (Inr True, st\<lparr>l2r_buf := m, l2r_transfer1 := t1, l2r_transfer2 := t2\<rparr>)"
    "bs = [] \<Longrightarrow> m = []" "bs \<noteq> [] \<Longrightarrow> packed_piece z (l2r_zlib st) bs = Inr m \<and> m \<noteq> []"
proof (cases "bs = []")
  case True
  with assms(1) have "readData z rc st = (Inr True, st\<lparr>l2r_buf := []\<rparr>)"
    by (auto simp: read_piece_def readData_def Let_def split: sum.splits sys_read.splits if_splits)
  then show ?thesis by (intro that [where m = "[]" and ?t1.0 = "l2r_transfer1 st" and ?t2.0 = "l2r_transfer2 st"]) (simp_all add: True)
next
  case False
  from zlib_inverseD [OF assms(2) this] obtain p where p: "zl_deflate z bs = Inr p" "p \<noteq> []" by blast
  let ?m = "if l2r_zlib st then p else bs"
  have "readData z rc st = (Inr True, st\<lparr>l2r_buf := ?m, l2r_transfer1 := l2r_transfer1 st + of_nat (length bs),
      l2r_transfer2 := l2r_transfer2 st + of_nat (length ?m)\<rparr>)"
    using assms(1) False p
    by (cases st) (auto simp: read_piece_def readData_def Let_def split: sum.splits sys_read.splits if_splits)
  then show ?thesis using p False by (intro that) (auto simp: packed_piece_def)
qed

lemma found_updated:
  assumes "findChannel ch s = Some c" "cn_channel (f c) = ch"
  shows "findChannel ch (snd (on_channel ch f s)) = Some (f c)"
proof -
  have "find P (update_first P f xs) = Some (f c)" if "find P xs = Some c" "P (f c)" for P and xs
    using that by (induction xs) (auto split: if_splits)
  with assms show ?thesis by (simp add: findChannel_def on_channel_def)
qed

lemma on_channel_logs:
  "fst (on_channel ch f s) = Inr ()" "ch_sent (snd (on_channel ch f s)) = ch_sent s"
  by (simp_all add: on_channel_def)

lemma found_sent [simp]: "findChannel ch (s\<lparr>ch_sent := m\<rparr>) = findChannel ch s"
  by (simp add: findChannel_def)

text \<open>A channel whose reader runs, with the size of its blocks and the compression that it was made with.\<close>

definition reads :: "u8 \<Rightarrow> nat \<Rightarrow> bool \<Rightarrow> chan_client \<Rightarrow> bool" where
  "reads ch blocksz compress s \<longleftrightarrow> (\<exists>c st err. findChannel ch s = Some c \<and> loopRunning c \<and> cn_reader c = Looping err \<and>
     localRemote c = Some st \<and> l2r_cid st = ch \<and> l2r_blocksz st = blocksz \<and> l2r_zlib st = compress)"

lemma channel_same: "localRemote c = Some st \<Longrightarrow> l2r_cid st' = l2r_cid st \<Longrightarrow> cn_channel (c\<lparr>localRemote := Some st'\<rparr>) = cn_channel c"
  by (simp add: cn_channel_def split: connectorKind.split option.split)

lemma running_readerE:
  assumes "reads ch blocksz compress s"
  obtains c st err where "findChannel ch s = Some c" "loopRunning c" "cn_reader c = Looping err"
    "localRemote c = Some st" "l2r_cid st = ch" "l2r_blocksz st = blocksz" "l2r_zlib st = compress"
  using assms by (auto simp: reads_def)

lemma reader_continues:
  assumes "findChannel ch s = Some c" "loopRunning c" "cn_reader c = Looping err" "localRemote c = Some st"
    and "readData z rc st = (Inr True, st')" "l2r_cid st' = ch" "l2r_cid st = ch"
  obtains t where "thread_round ch (reader_round env z rc) s = (Inr (), t)" "reads ch (l2r_blocksz st') (l2r_zlib st') t"
    "ch_sent t = ch_sent s @ (if l2r_buf st' = [] then [] else [(ch, l2r_buf st')])"
proof -
  let ?st = "if l2r_buf st' \<noteq> [] \<and> ltsmClient env then st'\<lparr>l2r_buf := []\<rparr> else st'"
  let ?s = "if l2r_buf st' = [] then s else s\<lparr>ch_sent := ch_sent s @ [(ch, l2r_buf st')]\<rparr>"
  let ?c = "c\<lparr>localRemote := Some ?st\<rparr>"
  let ?t = "snd (on_channel ch (\<lambda>_. ?c) ?s)"
  have round: "thread_round ch (reader_round env z rc) s = on_channel ch (\<lambda>_. ?c) ?s"
    using assms by (simp add: thread_round_def reader_round_def reader_send_def send_data_def ebind_def)
  have "cn_channel ?c = ch"
    using channel_same [OF assms(4), of ?st] assms(6,7) found_some [OF assms(1)] by simp
  with assms(1) have found: "findChannel ch ?t = Some ?c" by (intro found_updated) simp_all
  show ?thesis
  proof (rule that [of ?t])
    show "thread_round ch (reader_round env z rc) s = (Inr (), ?t)"
      using round on_channel_logs(1) [of ch "\<lambda>_. ?c" ?s] by (metis prod.collapse)
    show "reads ch (l2r_blocksz st') (l2r_zlib st') ?t"
      using found assms unfolding reads_def by (intro exI [of _ ?c] exI [of _ ?st] exI [of _ err]) simp
  qed (simp add: on_channel_logs)
qed

lemma reader_sends:
  assumes "reads ch blocksz compress s" "read_piece blocksz rc = Some bs" "zlib_inverse z"
  obtains ms t where "thread_round ch (reader_round env z rc) s = (Inr (), t)" "reads ch blocksz compress t"
    "ch_sent t = ch_sent s @ map (Pair ch) ms" "bs = [] \<Longrightarrow> ms = []"
    "bs \<noteq> [] \<Longrightarrow> \<exists>m. ms = [m] \<and> m \<noteq> [] \<and> packed_piece z compress bs = Inr m"
proof -
  obtain c st err where c: "findChannel ch s = Some c" "loopRunning c" "cn_reader c = Looping err"
    "localRemote c = Some st" "l2r_cid st = ch" "l2r_blocksz st = blocksz" "l2r_zlib st = compress"
    by (rule running_readerE [OF assms(1)])
  from assms(2) c(6) have p: "read_piece (l2r_blocksz st) rc = Some bs" by simp
  from readData_piece [OF p assms(3)] obtain m t1 t2
    where m: "readData z rc st = (Inr True, st\<lparr>l2r_buf := m, l2r_transfer1 := t1, l2r_transfer2 := t2\<rparr>)"
      "bs = [] \<Longrightarrow> m = []" "bs \<noteq> [] \<Longrightarrow> packed_piece z (l2r_zlib st) bs = Inr m \<and> m \<noteq> []" by blast
  show ?thesis
    by (rule reader_continues [OF c(1-4) m(1) _ c(5), of env], simp add: c, rule that [of _ "if m = [] then [] else [m]"])
      (use m(2,3) c in auto)
qed

text \<open>The pieces that are not empty, each packed, are the messages that are sent.\<close>

definition messages_of :: "zlib \<Rightarrow> bool \<Rightarrow> bytes list \<Rightarrow> bytes list \<Rightarrow> bool" where
  "messages_of z compress ps ms \<longleftrightarrow>
     list_all2 (\<lambda>p m. m \<noteq> [] \<and> packed_piece z compress p = Inr m) (filter (\<lambda>p. p \<noteq> []) ps) ms"

lemma readers_send:
  assumes "list_all2 (\<lambda>rc p. read_piece blocksz rc = Some p) rcs ps" "reads ch blocksz compress s" "zlib_inverse z"
  obtains ms t where "eeach (\<lambda>rc. thread_round ch (reader_round env z rc)) rcs s = (Inr (), t)"
    "ch_sent t = ch_sent s @ map (Pair ch) ms" "messages_of z compress ps ms"
  using assms(1,2)
proof (induction rcs ps arbitrary: s thesis rule: list_all2_induct)
  case Nil
  show ?case by (rule Nil(1) [of s "[]"]) (simp_all add: messages_of_def)
next
  case (Cons rc rcs p ps)
  from reader_sends [OF Cons.prems(2) Cons.hyps(1) assms(3), of env] obtain ms t where
    t: "thread_round ch (reader_round env z rc) s = (Inr (), t)" "reads ch blocksz compress t"
      "ch_sent t = ch_sent s @ map (Pair ch) ms" "p = [] \<Longrightarrow> ms = []"
      "p \<noteq> [] \<Longrightarrow> \<exists>m. ms = [m] \<and> m \<noteq> [] \<and> packed_piece z compress p = Inr m" by metis
  from Cons.IH [OF _ t(2)] obtain ms' u where
    u: "eeach (\<lambda>rc. thread_round ch (reader_round env z rc)) rcs t = (Inr (), u)"
      "ch_sent u = ch_sent t @ map (Pair ch) ms'" "messages_of z compress ps ms'" by metis
  show ?case
  proof (rule Cons.prems(1))
    show "eeach (\<lambda>rc. thread_round ch (reader_round env z rc)) (rc # rcs) s = (Inr (), u)"
      using t(1) u(1) by (simp add: ebind_def)
    show "ch_sent u = ch_sent s @ map (Pair ch) (ms @ ms')" using t(3) u(2) by simp
    show "messages_of z compress (p # ps) (ms @ ms')" using t(4,5) u(3) by (cases "p = []") (auto simp: messages_of_def)
  qed
qed

section \<open>The writer\<close>

text \<open>A channel that takes what arrives, with what its writer has queued.\<close>

definition takes :: "chan_env \<Rightarrow> u8 \<Rightarrow> remote2local \<Rightarrow> chan_client \<Rightarrow> bool" where
  "takes env ch rt s \<longleftrightarrow> (\<exists>c. findChannel ch s = Some c \<and> loopRunning c \<and> remoteConnected c \<and> \<not> session_refused env c \<and>
     has_writer (cn_kind c) \<and> remoteLocal c = Some rt \<and> r2l_cid rt = ch)"

lemma channel_pushed: "remoteLocal c = Some rt \<Longrightarrow> cn_channel (cn_pushData buf c) = cn_channel c"
  by (simp add: cn_pushData_def cn_channel_def r2l_pushData_def split: connectorKind.split)

lemma takes_one:
  assumes "takes env ch rt s" "m \<noteq> []" "ch \<noteq> 0" "ch \<noteq> 255"
  obtains t where "recvLtsmEvent env sys ch m s = (Inr (), t)" "takes env ch (r2l_pushData m rt) t"
proof -
  from assms(1) obtain c where c: "findChannel ch s = Some c" "loopRunning c" "remoteConnected c" "\<not> session_refused env c"
    "has_writer (cn_kind c)" "remoteLocal c = Some rt" "r2l_cid rt = ch" by (auto simp: takes_def)
  have "recvLtsmEvent env sys ch m s = on_channel ch (cn_pushData m) s"
    using c assms(3,4) by (simp add: recvLtsmEvent_def recvChannelData_def has_writer_def split: connectorKind.splits)
  then have "recvLtsmEvent env sys ch m s = (Inr (), snd (on_channel ch (cn_pushData m) s))"
    using on_channel_logs(1) [of ch "cn_pushData m" s] by (metis prod.collapse)
  moreover have "findChannel ch (snd (on_channel ch (cn_pushData m) s)) = Some (cn_pushData m c)"
    using c found_some [OF c(1)] by (intro found_updated) (simp_all add: channel_pushed)
  then have "takes env ch (r2l_pushData m rt) (snd (on_channel ch (cn_pushData m) s))"
    using c assms(2) by (auto simp: takes_def cn_pushData_def session_refused_def isAllowSessionFor_def r2l_pushData_def)
  ultimately show ?thesis by (rule that)
qed

lemma takes_each:
  assumes "takes env ch rt s" "list_all (\<lambda>m. m \<noteq> []) ms" "ch \<noteq> 0" "ch \<noteq> 255"
  obtains t where "eeach (\<lambda>(n, m). recvLtsmEvent env sys n m) (map (Pair ch) ms) s = (Inr (), t)"
    "takes env ch (rt\<lparr>r2l_queueBufs := r2l_queueBufs rt @ ms\<rparr>) t"
  using assms(1,2)
proof (induction ms arbitrary: rt s thesis)
  case Nil
  then show ?case by simp
next
  case (Cons m ms)
  from takes_one [OF Cons.prems(2) _ assms(3,4), of m sys] Cons.prems(3) obtain t where
    t: "recvLtsmEvent env sys ch m s = (Inr (), t)" "takes env ch (r2l_pushData m rt) t" by auto
  from Cons.IH [OF _ t(2)] Cons.prems(3) obtain u where
    "eeach (\<lambda>(n, m). recvLtsmEvent env sys n m) (map (Pair ch) ms) t = (Inr (), u)"
    "takes env ch ((r2l_pushData m rt)\<lparr>r2l_queueBufs := r2l_queueBufs (r2l_pushData m rt) @ ms\<rparr>) u" by auto
  with t(1) show ?case by (intro Cons.prems(1) [of u]) (simp_all add: ebind_def r2l_pushData_def)
qed

lemma filter_pieces: "filter (\<lambda>p. p \<noteq> []) ps = qs \<Longrightarrow> concat ps = concat qs \<and> list_all (\<lambda>p. p \<noteq> []) qs"
  by (induction ps arbitrary: qs) auto

text \<open>The writer gives the pieces to a descriptor that takes them, one round for each message.\<close>

lemma drain_writes:
  assumes "list_all2 (\<lambda>p m. m \<noteq> [] \<and> packed_piece z compress p = Inr m) ps ms" "list_all (\<lambda>p. p \<noteq> []) ps" "zlib_inverse z"
    and "r2l_queueBufs rt = ms" "r2l_zlib rt = compress" "list_all2 (\<lambda>p ws. takes_all (length p) ws) ps wss"
  shows "\<exists>rt'. drain z wss rt = (Inr (), rt') \<and> r2l_isEmpty rt' \<and> r2l_out rt' = r2l_out rt @ concat ps"
  using assms(1,2,4-6)
proof (induction ps ms arbitrary: rt wss rule: list_all2_induct)
  case Nil
  then show ?case by (simp add: r2l_isEmpty_def)
next
  case (Cons p ps m ms)
  obtain ws wss' where wss: "wss = ws # wss'" "takes_all (length p) ws" "list_all2 (\<lambda>p ws. takes_all (length p) ws) ps wss'"
    using Cons.prems(4) by (auto simp: list_all2_Cons1)
  obtain d where pop: "popData rt = (m, rt\<lparr>r2l_delay := d, r2l_queueBufs := ms\<rparr>)"
    using Cons.prems(2) by (simp add: popData_def Let_def)
  let ?rt = "rt\<lparr>r2l_delay := d, r2l_queueBufs := ms, r2l_transfer1 := r2l_transfer1 rt + of_nat (length m)\<rparr>"
  have m: "m \<noteq> []" "packed_piece z (r2l_zlib rt) p = Inr m" and p: "p \<noteq> []"
    using Cons.hyps(1) Cons.prems(1,3) by simp_all
  have "writeData z ws rt = write_loop p ws ?rt"
    using pop m zlib_inverseD [OF assms(3) p] by (auto simp: writeData_def packed_piece_def Let_def split: if_splits)
  with write_loop_all [OF wss(2), of ?rt] obtain t where
    w: "writeData z ws rt = (Inr True, ?rt\<lparr>r2l_out := r2l_out rt @ p, r2l_transfer2 := t\<rparr>)" (is "_ = (_, ?u)") by auto
  have "\<exists>rt'. drain z wss' ?u = (Inr (), rt') \<and> r2l_isEmpty rt' \<and> r2l_out rt' = r2l_out ?u @ concat ps"
    using Cons.prems(1,3) wss(3) by (intro Cons.IH) simp_all
  moreover have "\<not> r2l_isEmpty rt" using Cons.prems(2) by (simp add: r2l_isEmpty_def)
  ultimately show ?case using w wss(1) by simp
qed

section \<open>The transport\<close>

text \<open>
  C12. What the reader of one end takes from its descriptor, in any number of rounds with or without data, interrupted or not,
  packed or not, is what the writer of the other end gives to its own descriptor, once all of its messages have arrived: no
  byte is lost, added or out of order.
\<close>

theorem channel_transport:
  assumes "reads ch blocksz compress s" and "list_all2 (\<lambda>rc p. read_piece blocksz rc = Some p) rcs ps" and "zlib_inverse z"
    and "takes env' ch rt t" and "r2l_isEmpty rt" and "r2l_zlib rt = compress" and "ch \<noteq> 0" and "ch \<noteq> 255"
    and "list_all2 (\<lambda>p ws. takes_all (length p) ws) (filter (\<lambda>p. p \<noteq> []) ps) wss"
  shows "\<exists>s' ms t' rt' rt''. eeach (\<lambda>rc. thread_round ch (reader_round env z rc)) rcs s = (Inr (), s') \<and>
      ch_sent s' = ch_sent s @ ms \<and>
      eeach (\<lambda>(n, m). recvLtsmEvent env' sys n m) ms t = (Inr (), t') \<and> takes env' ch rt' t' \<and>
      drain z wss rt' = (Inr (), rt'') \<and> r2l_isEmpty rt'' \<and> r2l_out rt'' = r2l_out rt @ concat ps"
proof -
  from readers_send [OF assms(2,1,3), of env] obtain ms s' where
    s: "eeach (\<lambda>rc. thread_round ch (reader_round env z rc)) rcs s = (Inr (), s')"
      "ch_sent s' = ch_sent s @ map (Pair ch) ms" "messages_of z compress ps ms" by metis
  have ms: "list_all2 (\<lambda>p m. m \<noteq> [] \<and> packed_piece z compress p = Inr m) (filter (\<lambda>p. p \<noteq> []) ps) ms"
    using s(3) by (simp add: messages_of_def)
  then have "list_all (\<lambda>m. m \<noteq> []) ms" by (auto simp: list_all2_conv_all_nth list_all_length)
  from takes_each [OF assms(4) this assms(7,8), of sys] obtain t' where
    t: "eeach (\<lambda>(n, m). recvLtsmEvent env' sys n m) (map (Pair ch) ms) t = (Inr (), t')"
      "takes env' ch (rt\<lparr>r2l_queueBufs := r2l_queueBufs rt @ ms\<rparr>) t'" by blast
  have "\<exists>rt''. drain z wss (rt\<lparr>r2l_queueBufs := r2l_queueBufs rt @ ms\<rparr>) = (Inr (), rt'') \<and> r2l_isEmpty rt'' \<and>
      r2l_out rt'' = r2l_out (rt\<lparr>r2l_queueBufs := r2l_queueBufs rt @ ms\<rparr>) @ concat (filter (\<lambda>p. p \<noteq> []) ps)"
    using assms(5,6,9) filter_pieces [of ps] by (intro drain_writes [OF ms _ assms(3)]) (simp_all add: r2l_isEmpty_def)
  moreover have "concat (filter (\<lambda>p. p \<noteq> []) ps) = concat ps" using filter_pieces [of ps] by simp
  ultimately show ?thesis using s(1,2) t by auto
qed

definition round_of :: "sys_read \<Rightarrow> read_calls" where
  "round_of r = \<lparr>rd_input = Inr True, rd_data = Inr 9, rd_errno = 0, rd_read = (\<lambda>_. r)\<rparr>"

definition one_channel :: "connectorKind \<Rightarrow> chan_client" where
  "one_channel k = channelClient\<lparr>channels :=
     [(connectorFD k 1 5 \<lparr>opt_speed = Medium, opt_flags = 1\<rparr>)\<lparr>remoteConnected := True\<rparr>]\<rparr>"

lemma one_channel_reads: "reads 1 16384 True (one_channel FD_R)"
  by (auto simp: reads_def one_channel_def channelClient_def connectorFD_def findChannel_def cn_channel_def has_reader_def
      has_writer_def local2Remote_FD_def l2r_setSpeed_def has_zlib_def)

theorem channel_transport_witness:
  "\<exists>s' ms t' rt' rt''.
     eeach (\<lambda>rc. thread_round 1 (reader_round (some_env False False) plain_zlib rc))
       [round_of (ReadBytes [65, 66]), round_of (ReadFailed EINTR), round_of (ReadBytes [67])] (one_channel FD_R) = (Inr (), s') \<and>
     ch_sent s' = ch_sent (one_channel FD_R) @ ms \<and>
     eeach (\<lambda>(n, m). recvLtsmEvent (some_env True True) (\<lambda>_. ereturn ()) n m) ms (one_channel FD_W) = (Inr (), t') \<and>
     takes (some_env True True) 1 rt' t' \<and>
     drain plain_zlib [[Wrote 1, NotWrote EAGAIN, Wrote 1], [Wrote 1]] rt' = (Inr (), rt'') \<and> r2l_isEmpty rt'' \<and>
     r2l_out rt'' = r2l_out (r2l_setSpeed Medium (remote2Local_FD 1 5 True 1)) @ concat [[65, 66], [], [67]]"
proof (rule channel_transport [where compress = True and blocksz = 16384])
  show "reads 1 16384 True (one_channel FD_R)" by (rule one_channel_reads)
  show "takes (some_env True True) 1 (r2l_setSpeed Medium (remote2Local_FD 1 5 True 1)) (one_channel FD_W)"
    by (simp add: takes_def one_channel_def channelClient_def connectorFD_def findChannel_def cn_channel_def has_reader_def
        has_writer_def remote2Local_FD_def r2l_setSpeed_def session_refused_def some_env_def)
  show "zlib_inverse plain_zlib" by (simp add: zlib_inverse_def plain_zlib_def zl_deflate_def zl_inflate_def)
qed (simp_all add: read_piece_def round_of_def EINTR_def EAGAIN_def takes_all_def r2l_isEmpty_def remote2Local_FD_def
    r2l_setSpeed_def has_zlib_def)

section \<open>Where the data ends\<close>

text \<open>
  The end of what the descriptor gives is not seen: when it is reported as input without data, the reader goes on as if
  there were nothing yet, sends nothing and never asks to read.
\<close>

theorem end_not_seen:
  assumes "reads ch blocksz compress s" and "rd_input rc = Inr True" and "rd_data rc = Inr 0"
  shows "\<exists>t. thread_round ch (reader_round env z rc) s = (Inr (), t) \<and> ch_sent t = ch_sent s \<and> reads ch blocksz compress t"
proof -
  obtain c st err where c: "findChannel ch s = Some c" "loopRunning c" "cn_reader c = Looping err"
    "localRemote c = Some st" "l2r_cid st = ch" "l2r_blocksz st = blocksz" "l2r_zlib st = compress"
    by (rule running_readerE [OF assms(1)])
  have "readData z rc st = (Inr True, st\<lparr>l2r_buf := []\<rparr>)" using assms(2,3) by (simp add: readData_def)
  from reader_continues [OF c(1-4) this _ c(5), of env] c obtain t where
    "thread_round ch (reader_round env z rc) s = (Inr (), t)" "reads ch blocksz compress t" "ch_sent t = ch_sent s" by auto
  then show ?thesis by blast
qed

theorem end_not_seen_witness:
  "\<exists>t. thread_round 1 (reader_round (some_env False False) plain_zlib
        \<lparr>rd_input = Inr True, rd_data = Inr 0, rd_errno = 0, rd_read = (\<lambda>_. ReadBytes [])\<rparr>) (one_channel FD_R) = (Inr (), t) \<and>
     ch_sent t = ch_sent (one_channel FD_R) \<and> reads 1 16384 True t"
  by (rule end_not_seen) (simp_all add: one_channel_reads)

text \<open>
  C16. A read that fails sends what it has not read: as many bytes as were asked for, those of the last packet or zeros, go to the
  peer as data before the channel stops.
\<close>

theorem failed_read_sends:
  assumes "findChannel ch s = Some c" and "loopRunning c" and "cn_reader c = Looping err" and "localRemote c = Some st"
    and "l2r_cid st = ch" and "rd_input rc = Inr True" and "rd_data rc = Inr n" and "0 < min n (l2r_blocksz st)"
    and "rd_read rc (min n (l2r_blocksz st)) = ReadFailed e" and "e \<noteq> EAGAIN" and "e \<noteq> EINTR"
  shows "ch_sent (snd (thread_round ch (reader_round env z rc) s)) =
      ch_sent s @ [(ch, resize_bytes (min n (l2r_blocksz st)) (l2r_buf st))] \<and>
    length (resize_bytes (min n (l2r_blocksz st)) (l2r_buf st)) = min n (l2r_blocksz st)"
proof -
  have len: "length (resize_bytes (min n (l2r_blocksz st)) (l2r_buf st)) = min n (l2r_blocksz st)" by (simp add: resize_bytes_def)
  with assms(8) have "resize_bytes (min n (l2r_blocksz st)) (l2r_buf st) \<noteq> []" by force
  with assms len show ?thesis
    by (simp add: thread_round_def reader_round_def reader_send_def readData_def send_data_def ebind_def on_channel_logs Let_def)
qed

theorem failed_read_sends_witness:
  "ch_sent (snd (thread_round 1 (reader_round (some_env True True) plain_zlib
      \<lparr>rd_input = Inr True, rd_data = Inr 2, rd_errno = 0, rd_read = (\<lambda>_. ReadFailed 5)\<rparr>) (one_channel FD_R))) = [(1, [0, 0])]"
proof -
  let ?c = "(connectorFD FD_R 1 5 \<lparr>opt_speed = Medium, opt_flags = 1\<rparr>)\<lparr>remoteConnected := True\<rparr>"
  let ?rc = "\<lparr>rd_input = Inr True, rd_data = Inr 2, rd_errno = 0, rd_read = (\<lambda>_. ReadFailed 5)\<rparr>"
  let ?st = "l2r_setSpeed Medium (local2Remote_FD 1 5 True 1)"
  have st: "l2r_cid ?st = 1" "l2r_blocksz ?st = 16384" "l2r_buf ?st = []" by (simp_all add: l2r_setSpeed_def local2Remote_FD_def)
  have "ch_sent (snd (thread_round 1 (reader_round (some_env True True) plain_zlib ?rc) (one_channel FD_R))) =
      ch_sent (one_channel FD_R) @ [(1, resize_bytes (min 2 (l2r_blocksz ?st)) (l2r_buf ?st))] \<and>
      length (resize_bytes (min 2 (l2r_blocksz ?st)) (l2r_buf ?st)) = min 2 (l2r_blocksz ?st)"
  proof (rule failed_read_sends [where c = ?c and err = False and e = 5])
    show "findChannel 1 (one_channel FD_R) = Some ?c" "localRemote ?c = Some ?st"
      by (simp_all add: one_channel_def findChannel_def channelClient_def connectorFD_def cn_channel_def has_reader_def has_writer_def
          local2Remote_FD_def l2r_setSpeed_def)
  qed (simp_all add: st EAGAIN_def EINTR_def connectorFD_def has_reader_def)
  then show ?thesis by (simp add: st resize_bytes_def numeral_2_eq_2 one_channel_def channelClient_def)
qed

end
