(* ===== verification/Channel_Opening.thy ===== *)
theory Channel_Opening
  imports Channel_Properties
begin

text \<open>
  How a channel opens: the messages that the server and the client exchange, and where the opening fails.
\<close>

section \<open>The exchange\<close>

text \<open>What one side has sent between two states arrives at the other.\<close>

definition arrive :: "chan_env \<Rightarrow> (bytes \<Rightarrow> (chan_client, unit) exc) \<Rightarrow> chan_client \<Rightarrow> chan_client \<Rightarrow> chan_client \<Rightarrow> chan_client" where
  "arrive env sys before after t =
     fold (\<lambda>(ch, m) t. snd (recvLtsmEvent env sys ch m t)) (drop (length (ch_sent before)) (ch_sent after)) t"

lemma arrive_one:
  "ch_sent after = ch_sent before @ [(0, m)] \<Longrightarrow> arrive env sys before after t = snd (sys m t)"
  by (simp add: arrive_def recvLtsmEvent_def)

text \<open>A connection that a listener of the server has accepted, until no message is under way.\<close>

definition opening_run ::
    "chan_env \<Rightarrow> (bytes \<Rightarrow> (chan_client, unit) exc) \<Rightarrow> chan_env \<Rightarrow> (bytes \<Rightarrow> (chan_client, unit) exc) \<Rightarrow>
     urlmode \<Rightarrow> int \<Rightarrow> urlmode \<Rightarrow> chan_opts \<Rightarrow> chan_client \<Rightarrow> chan_client \<Rightarrow> chan_client \<times> chan_client" where
  "opening_run senv ssys cenv csys copts sock sopts opts s c =
     (let s1 = snd (createChannelAcceptFd senv copts sock sopts opts s);
          c1 = arrive cenv csys s s1 c;
          s2 = arrive senv ssys c c1 s1;
          c2 = arrive cenv csys s1 s2 c1
      in (s2, c2))"

section \<open>The steps\<close>

text \<open>The client has what the URL asks for: a socket to connect to, or a device.\<close>

definition client_serves :: "chan_env \<Rightarrow> urlmode \<Rightarrow> bool" where
  "client_serves env copts = (case um_type copts of
       TypeUnix \<Rightarrow> createChannelAllow env TypeUnix (um_content copts) (um_mode copts) \<and>
         os_is_socket env (um_content copts) \<and> 0 \<le> os_unix_connect env (um_content copts)
     | TypeFuse \<Rightarrow> ltsmClient env \<and> deviceSupport env TypeFuse
     | TypeAudio \<Rightarrow> ltsmClient env \<and> deviceSupport env TypeAudio
     | TypePcsc \<Rightarrow> ltsmClient env \<and> deviceSupport env TypePcsc
     | TypePkcs11 \<Rightarrow> ltsmClient env \<and> deviceSupport env TypePkcs11
     | _ \<Rightarrow> False)"

definition kind_of :: "connectorMode \<Rightarrow> connectorKind" where
  "kind_of md = (case md of ReadWrite \<Rightarrow> FD_RW | ReadOnly \<Rightarrow> FD_R | _ \<Rightarrow> FD_W)"

definition client_connector :: "chan_env \<Rightarrow> u8 \<Rightarrow> urlmode \<Rightarrow> chan_opts \<Rightarrow> connector" where
  "client_connector env ch copts opts =
     (if um_type copts = TypeUnix then connectorFD (kind_of (um_mode copts)) ch (os_unix_connect env (um_content copts)) opts
      else connectorDevice (um_type copts) ch (um_mode copts) opts)"

definition agree :: "u8 \<Rightarrow> chan_opts \<Rightarrow> u8 \<times> bytes" where
  "agree ch opts = (0, str_bytes (stream_message (connected_members ch (opt_flags opts) True)))"

lemma fd_connector_makes:
  "md \<noteq> ModeUnknown \<Longrightarrow> fd_connector ch fd md opts s =
   (Inr (connectorFD (kind_of md) ch fd opts), s\<lparr>ch_sent := ch_sent s @ [agree ch opts]\<rparr>)"
  by (cases md) (simp_all add: fd_connector_def new_connector_def sendSystemChannelConnected_def send_system_def send_data_def
      kind_of_def agree_def ebind_def)

lemma plan_step:
  assumes "\<not> modes_refused copts sopts" "um_type copts \<noteq> TypeUnknown" "free_channel s = Some ch"
  shows "createChannelAcceptFd env copts sock sopts opts s = (Inr True, s\<lparr>channelsPlanned := channelsPlanned s @
      [\<lparr>pl_serverOpts = sopts, pl_clientOpts = copts, pl_chOpts = opts, pl_serverFd = sock, pl_channel = ch\<rparr>],
      ch_sent := ch_sent s @ [(0, str_bytes (stream_message (open_members env ch copts opts)))]\<rparr>)"
  using assms by (simp add: createChannelAcceptFd_def plan_channel_def plan_at_def plannedEmplace_def sendSystemChannelOpen_def send_system_def
      send_data_def ebind_def)

lemma number_back:
  "ucast (ucast (ch :: u8) :: u32) = ch" "sint (ucast ch :: u32) = uint ch"
proof -
  show "ucast (ucast ch :: u32) = ch"
    by (rule bit_word_eqI) (simp add: bit_simps)
  have "uint ch < 2 ^ 8" using uint_bounded [of ch] by simp
  moreover have "- (2 ^ 31) \<le> uint ch" using unsigned_greater_eq [of ch] by (rule order_trans [rotated]) simp
  ultimately show "sint (ucast ch :: u32) = uint ch"
    by (simp add: signed_ucast_eq signed_take_bit_int_eq_self)
qed

lemma number_range: "(ch :: u8) \<noteq> 0 \<Longrightarrow> ch \<noteq> 255 \<Longrightarrow> 0 < uint ch \<and> uint ch < 255"
proof -
  assume ch: "ch \<noteq> 0" "ch \<noteq> 255"
  have "uint ch < 256" using uint_bounded [of ch] by simp
  moreover have "uint ch \<noteq> 255"
  proof
    assume "uint ch = 255"
    then have "uint ch = uint (255 :: u8)" by simp
    then have "ch = 255" by (simp only: word_uint_eq_iff)
    with ch(2) show False ..
  qed
  moreover have "uint ch \<noteq> 0" using ch(1) by (simp add: unsigned_eq_0_iff)
  moreover have "0 \<le> uint ch" by simp
  ultimately show "0 < uint ch \<and> uint ch < 255" by linarith
qed

lemma open_members_read:
  assumes "um_type copts \<noteq> TypeSocket"
  shows "obj_getInteger ops ''id'' 0 (members_of (open_members env ch copts opts)) = Inr (ucast ch)"
    "obj_getInteger ops ''flags'' 0 (members_of (open_members env ch copts opts)) = Inr (opt_flags opts)"
    "obj_getString ops ''type'' [] (members_of (open_members env ch copts opts)) = typeString (um_type copts)"
    "obj_getString ops ''mode'' [] (members_of (open_members env ch copts opts)) = modeString (um_mode copts)"
    "obj_getString ops ''speed'' [] (members_of (open_members env ch copts opts)) = speedString (opt_speed opts)"
    "obj_getString ops (content_member (um_type copts)) [] (members_of (open_members env ch copts opts)) = um_content copts"
  using assms by (simp_all add: open_members_def members_simps content_member_def split: connectorType.split)

lemma open_step:
  assumes "um_type copts \<noteq> TypeSocket" "CHR 0x00 \<notin> set (um_content copts)" "isUserSession env" "client_serves env copts"
    and "um_mode copts \<noteq> ModeUnknown" "ch \<noteq> 0" "ch \<noteq> 255" "findChannel ch c = None"
  shows "client_recvChannelSystemEvent env ops virt (str_bytes (stream_message (open_members env' ch copts opts))) c =
    (Inr (), c\<lparr>channels := channels c @ [client_connector env ch copts opts], ch_sent := ch_sent c @ [agree ch opts]\<rparr>)"
proof -
  let ?ms = "members_of (open_members env' ch copts opts) :: 'a members"
  have opts: "\<lparr>opt_speed = opt_speed opts, opt_flags = opt_flags opts\<rparr> = opts" by simp
  have run: "client_recvChannelSystemEvent env ops virt (str_bytes (stream_message (open_members env' ch copts opts))) c =
      ebind (open_connector env ops ?ms (um_type copts) ch (um_mode copts) opts)
        (\<lambda>ok. ewhen (\<not> ok) (sendSystemChannelConnected ch (opt_flags opts) False)) c"
    using assms number_range [of ch]
    by (simp add: client_recvChannelSystemEvent_def open_read systemChannelOpen_def open_members_read number_back opts Let_def)
  have "open_connector env ops ?ms (um_type copts) ch (um_mode copts) opts c =
      (Inr True, c\<lparr>channels := channels c @ [client_connector env ch copts opts], ch_sent := ch_sent c @ [agree ch opts]\<rparr>)"
  proof (cases "um_type copts = TypeUnix")
    case True
    then have path: "obj_getString ops ''path'' [] ?ms = um_content copts"
      using open_members_read(6) [OF assms(1), where ops = ops] by (simp add: content_member_def)
    show ?thesis
      using assms True
      by (cases c) (simp add: open_connector_def client_serves_def path createChannelUnix_def createUnixConnector_def
          emplace_channel_def fd_connector_makes client_connector_def ebind_def ecatch_def Let_def)
  next
    case False
    then show ?thesis
      using assms by (cases c; cases "um_type copts")
        (simp_all add: open_connector_def client_serves_def createChannelDevice_def emplace_channel_def client_connector_def
          agree_def sendSystemChannelConnected_def send_system_def send_data_def ebind_def ecatch_def)
  qed
  with run show ?thesis by (simp add: ebind_def)
qed

lemma first_new:
  assumes "\<And>x. x \<in> set xs \<Longrightarrow> \<not> P x" "P y"
  shows "find P (xs @ y # ys) = Some y" "remove_first P (xs @ y # ys) = xs @ ys" "update_first P f (xs @ y # ys) = xs @ f y # ys"
  using assms by (induction xs) simp_all

lemma connected_members_read:
  "obj_getInteger ops ''id'' 0 (members_of (connected_members ch flags noerror)) = Inr (ucast ch)"
  "obj_getInteger ops ''flags'' 0 (members_of (connected_members ch flags noerror)) = Inr flags"
  "obj_getBoolean ops ''error'' False (members_of (connected_members ch flags noerror)) = Inr (\<not> noerror)"
  by (simp_all add: connected_members_def members_simps)

lemma planned_number: "(int (unat n) = sint (ucast (ch :: u8) :: u32)) = (n = ch)"
  by (simp add: number_back(2) word_uint_eq_iff)

text \<open>The message that agrees, at an end that has planned the channel, and at one that has opened it.\<close>

definition served :: "u8 \<Rightarrow> int \<Rightarrow> urlmode \<Rightarrow> chan_opts \<Rightarrow> connector" where
  "served ch sock sopts opts = (connectorFD (kind_of (um_mode sopts)) ch sock opts)\<lparr>remoteConnected := True\<rparr>"

lemma served_channel: "cn_channel (connectorFD (kind_of md) ch fd opts) = ch"
  by (cases md) (simp_all add: connectorFD_def kind_of_def cn_channel_def has_reader_def has_writer_def Let_def cid_speed
      local2Remote_FD_def remote2Local_FD_def)

lemma connected_event:
  "server_recvChannelSystemEvent env ops virt (str_bytes (stream_message (connected_members ch flags noerror))) s =
    ebind (systemChannelConnected env ops (members_of (connected_members ch flags noerror))) (\<lambda>_. ereturn ()) s"
  "client_recvChannelSystemEvent env ops virt' (str_bytes (stream_message (connected_members ch flags noerror))) s =
    ebind (systemChannelConnected env ops (members_of (connected_members ch flags noerror))) (\<lambda>_. ereturn ()) s"
  by (simp_all add: server_recvChannelSystemEvent_def client_recvChannelSystemEvent_def connected_read)

lemma planned_first:
  assumes "free_id ch s" "ch \<notin> pl_channel ` set (channelsPlanned s)" "0 \<le> pl_serverFd p" "pl_channel p = ch" "pl_chOpts p = opts" "um_mode (pl_serverOpts p) \<noteq> ModeUnknown"
    and "um_type (pl_serverOpts p) = TypeUnix \<or> um_type (pl_serverOpts p) = TypeSocket"
  shows "systemChannelConnected env ops (members_of (connected_members ch (opt_flags opts) True))
      (s\<lparr>channelsPlanned := channelsPlanned s @ p # qs, ch_sent := m\<rparr>) =
    (Inr True, s\<lparr>channels := channels s @ [served ch (pl_serverFd p) (pl_serverOpts p) opts],
      channelsPlanned := channelsPlanned s @ qs, ch_sent := m @ [agree ch opts]\<rparr>)"
proof -
  let ?s = "s\<lparr>channelsPlanned := channelsPlanned s @ p # qs, ch_sent := m\<rparr>"
  let ?t = "s\<lparr>channelsPlanned := channelsPlanned s @ qs, ch_sent := m\<rparr>"
  have new: "pl_channel q \<noteq> ch" if "q \<in> set (channelsPlanned s)" for q
    using that assms(2) by auto
  have plan: "find (\<lambda>q. int (unat (pl_channel q)) = sint (ucast ch :: u32)) (channelsPlanned s @ p # qs) = Some p"
    "remove_first (\<lambda>q. pl_channel q = pl_channel p) (channelsPlanned s @ p # qs) = channelsPlanned s @ qs"
    unfolding planned_number using new assms(4) by (intro first_new; simp)+
  have none: "findChannel ch s = None" using assms(1) by (simp add: free_id_def found_none)
  have none': "findChannel ch (s\<lparr>ch_sent := m, channelsPlanned := ps\<rparr>) = None"
    "findChannel ch (s\<lparr>channelsPlanned := ps, ch_sent := m\<rparr>) = None" for m ps
    using none by (simp_all add: findChannel_def)
  have create: "channelPlannedCreate env p ?t = (Inr True, s\<lparr>channelsPlanned := channelsPlanned s @ qs, ch_sent := m @ [agree ch opts],
      channels := channels s @ [connectorFD (kind_of (um_mode (pl_serverOpts p))) ch (pl_serverFd p) opts]\<rparr>)"
    using assms by (cases s)
      (simp add: channelPlannedCreate_def createChannelFd_def createSockConnector_def emplace_channel_def fd_connector_makes
        ebind_def ecatch_def Let_def)
  have "planned_connected env False (opt_flags opts) p ?s = channelPlannedCreate env p ?t"
    using assms plan(2) none by (cases s; cases p) (simp add: planned_connected_def free_id_def number_ok_def findChannel_def Let_def)
  moreover have "update_first (\<lambda>c. cn_channel c = ch) (\<lambda>c. c\<lparr>remoteConnected := True\<rparr>)
      (channels s @ [connectorFD (kind_of (um_mode (pl_serverOpts p))) ch (pl_serverFd p) opts]) =
      channels s @ [served ch (pl_serverFd p) (pl_serverOpts p) opts]"
    unfolding served_def using assms(1) by (intro first_new(3)) (auto simp: free_id_def served_channel image_iff)
  ultimately show ?thesis
    using plan(1) create
    by (cases s) (simp add: systemChannelConnected_def connected_members_read number_back on_channel_def ebind_def)
qed

lemma planned_step:
  assumes "free_id ch s" "ch \<notin> pl_channel ` set (channelsPlanned s)" "0 \<le> pl_serverFd p" "pl_channel p = ch" "pl_chOpts p = opts"
    and "um_mode (pl_serverOpts p) \<noteq> ModeUnknown" "um_type (pl_serverOpts p) = TypeUnix \<or> um_type (pl_serverOpts p) = TypeSocket"
  shows "systemChannelConnected env ops (members_of (connected_members ch (opt_flags opts) True))
      (s\<lparr>channelsPlanned := channelsPlanned s @ [p], ch_sent := m\<rparr>) =
    (Inr True, s\<lparr>channels := channels s @ [served ch (pl_serverFd p) (pl_serverOpts p) opts], ch_sent := m @ [agree ch opts]\<rparr>)"
  using planned_first [OF assms, where env = env and ops = ops and qs = "[]" and m = m] by (cases s) simp

lemma opened_step:
  assumes "findChannel ch c = None" "findPlanned ch c = None" "cn_channel b = ch"
  shows "systemChannelConnected env ops (members_of (connected_members ch flags True)) (c\<lparr>channels := channels c @ [b], ch_sent := m\<rparr>) =
    (Inr True, c\<lparr>channels := channels c @ [b\<lparr>remoteConnected := True\<rparr>], ch_sent := m\<rparr>)"
proof -
  have "find (\<lambda>q. int (unat (pl_channel q)) = sint (ucast ch :: u32)) (channelsPlanned c) = None"
    using assms(2) unfolding planned_number findPlanned_def .
  moreover have "update_first (\<lambda>c. cn_channel c = ch) (\<lambda>c. c\<lparr>remoteConnected := True\<rparr>) (channels c @ [b]) =
      channels c @ [b\<lparr>remoteConnected := True\<rparr>]"
    using assms(1,3) by (intro first_new(3)) (auto simp: found_none image_iff)
  ultimately show ?thesis
    by (simp add: systemChannelConnected_def connected_members_read number_back on_channel_def ebind_def)
qed

section \<open>The properties\<close>

text \<open>
  C11. A connection that a listener of the server accepts becomes a channel at both ends, when the client has what its URL asks for
  and is in a session: after three messages both ends have the same new channel, running and connected, with the mode that its
  end asks for and the flags of the plan, and the plan is gone.
\<close>

theorem channel_opens:
  assumes "free_channel s = Some ch" and "\<not> modes_refused copts sopts"
    and "um_type sopts = TypeUnix \<or> um_type sopts = TypeSocket" and "0 \<le> sock" and "CHR 0x00 \<notin> set (um_content copts)"
    and "isUserSession cenv" and "client_serves cenv copts" and "findChannel ch c = None" and "findPlanned ch c = None"
  shows "\<exists>s' c'. opening_run senv (server_recvChannelSystemEvent senv ops virt) cenv (client_recvChannelSystemEvent cenv ops virt')
      copts sock sopts opts s c = (s', c') \<and>
    channels s' = channels s @ [served ch sock sopts opts] \<and> channelsPlanned s' = channelsPlanned s \<and>
    channels c' = channels c @ [(client_connector cenv ch copts opts)\<lparr>remoteConnected := True\<rparr>] \<and>
    loopRunning (served ch sock sopts opts) \<and> loopRunning (client_connector cenv ch copts opts) \<and>
    cn_mode (served ch sock sopts opts) = um_mode sopts \<and> cn_mode (client_connector cenv ch copts opts) = um_mode copts \<and>
    cn_flags (served ch sock sopts opts) = opt_flags opts \<and> cn_flags (client_connector cenv ch copts opts) = opt_flags opts"
proof -
  have modes: "um_mode copts \<noteq> ModeUnknown" "um_mode sopts \<noteq> ModeUnknown" using assms(2) by (simp_all add: modes_refused_def)
  have type: "um_type copts \<noteq> TypeSocket" "um_type copts \<noteq> TypeUnknown"
    using assms(7) by (auto simp: client_serves_def split: connectorType.splits)
  note free = free_channel_free [OF assms(1)]
  then have ch: "ch \<noteq> 0" "ch \<noteq> 255" by (simp_all add: free_id_def number_ok_def)
  let ?p = "\<lparr>pl_serverOpts = sopts, pl_clientOpts = copts, pl_chOpts = opts, pl_serverFd = sock, pl_channel = ch\<rparr>"
  let ?open = "str_bytes (stream_message (open_members senv ch copts opts))"
  let ?s1 = "s\<lparr>channelsPlanned := channelsPlanned s @ [?p], ch_sent := ch_sent s @ [(0, ?open)]\<rparr>"
  let ?b = "client_connector cenv ch copts opts"
  let ?c1 = "c\<lparr>channels := channels c @ [?b], ch_sent := ch_sent c @ [agree ch opts]\<rparr>"
  let ?s2 = "s\<lparr>channels := channels s @ [served ch sock sopts opts], ch_sent := ch_sent ?s1 @ [agree ch opts]\<rparr>"
  let ?c2 = "c\<lparr>channels := channels c @ [?b\<lparr>remoteConnected := True\<rparr>], ch_sent := ch_sent c @ [agree ch opts]\<rparr>"
  have 1: "snd (createChannelAcceptFd senv copts sock sopts opts s) = ?s1"
    by (simp add: plan_step [OF assms(2) type(2) assms(1)])
  have 2: "arrive cenv (client_recvChannelSystemEvent cenv ops virt') s ?s1 c = ?c1"
    by (subst arrive_one [where m = ?open]) (simp_all add: open_step [OF type(1) assms(5-7) modes(1) ch assms(8)])
  have 3: "arrive senv (server_recvChannelSystemEvent senv ops virt) c ?c1 ?s1 = ?s2"
    using planned_step [OF free, of ?p opts senv ops "ch_sent ?s1"] assms(3,4) modes(2)
    by (subst arrive_one [where m = "snd (agree ch opts)"]) (simp_all add: agree_def connected_event ebind_def)
  have number: "cn_channel ?b = ch"
    by (cases "um_type copts = TypeUnix")
      (simp_all add: client_connector_def served_channel, simp add: connectorDevice_def cn_channel_def)
  have 4: "arrive cenv (client_recvChannelSystemEvent cenv ops virt') ?s1 ?s2 ?c1 = ?c2"
    using opened_step [OF assms(8,9) number, of cenv ops] by (subst arrive_one [where m = "snd (agree ch opts)"]) (simp_all add: agree_def connected_event ebind_def)
  have "opening_run senv (server_recvChannelSystemEvent senv ops virt) cenv (client_recvChannelSystemEvent cenv ops virt')
      copts sock sopts opts s c = (?s2, ?c2)"
    by (simp only: opening_run_def Let_def 1 2 3 4)
  then show ?thesis
    using modes by (cases "um_mode copts"; cases "um_mode sopts")
      (simp_all add: served_def client_connector_def kind_of_def connectorFD_def connectorDevice_def has_reader_def has_writer_def Let_def)
qed

theorem channel_opens_witness:
  "\<exists>s' c'. opening_run (some_env False False) (server_recvChannelSystemEvent (some_env False False) half_ops quiet_virt)
      (some_env True True) (client_recvChannelSystemEvent (some_env True True) half_ops quiet_virt)
      audio_url 42 unix_url default_opts channelClient channelClient = (s', c') \<and>
    length (channels s') = 1 \<and> length (channels c') = 1"
proof -
  have "free_channel channelClient = Some 1" by (rule free_first) (simp_all add: channelClient_def)
  moreover have "\<not> modes_refused audio_url unix_url" "um_type unix_url = TypeUnix \<or> um_type unix_url = TypeSocket"
    "CHR 0x00 \<notin> set (um_content audio_url)" "isUserSession (some_env True True)" "client_serves (some_env True True) audio_url"
    "findChannel 1 channelClient = None" "findPlanned 1 channelClient = None" "(0 :: int) \<le> 42"
    by (simp_all add: modes_refused_def audio_url_def unix_url_def urlMode_of_type_def client_serves_def some_env_def
        channelClient_def findChannel_def findPlanned_def)
  ultimately have "\<exists>s' c'. opening_run (some_env False False) (server_recvChannelSystemEvent (some_env False False) half_ops quiet_virt)
      (some_env True True) (client_recvChannelSystemEvent (some_env True True) half_ops quiet_virt)
      audio_url 42 unix_url default_opts channelClient channelClient = (s', c') \<and>
      channels s' = channels channelClient @ [served 1 42 unix_url default_opts] \<and>
      channels c' = channels channelClient @ [(client_connector (some_env True True) 1 audio_url default_opts)\<lparr>remoteConnected := True\<rparr>]"
    using channel_opens [of channelClient 1 audio_url unix_url 42 "some_env True True" channelClient "some_env False False" half_ops
        quiet_virt quiet_virt default_opts] by blast
  then show ?thesis by (auto simp: channelClient_def)
qed

text \<open>Two listeners that accept at the same time; each looks for a number before either has entered its plan.\<close>

definition fuse_url :: urlmode where
  "fuse_url = urlMode_of_type TypeFuse ''/home'' ReadWrite"

definition fuse_socket :: urlmode where
  "fuse_socket = urlMode_of_type TypeUnix ''/run/fuse'' ReadWrite"

definition race_run :: "chan_action list" where
  "race_run = [Listen audio_url unix_url 5 default_opts, Listen fuse_url fuse_socket 5 default_opts, Accept 0 42, Accept 1 43,
     AcceptStep 0, AcceptStep 0, AcceptStep 1, AcceptStep 1, AcceptStep 0, AcceptStep 1, AcceptStep 1, AcceptStep 0]"

lemma race_state:
  "\<exists>s. run_actions (some_env False False) z sys race_run channelClient = Some s \<and> channels s = [] \<and>
     channelsPlanned s =
       [\<lparr>pl_serverOpts = unix_url, pl_clientOpts = audio_url, pl_chOpts = default_opts, pl_serverFd = 42, pl_channel = 1\<rparr>,
        \<lparr>pl_serverOpts = fuse_socket, pl_clientOpts = fuse_url, pl_chOpts = default_opts, pl_serverFd = 43, pl_channel = 1\<rparr>] \<and>
     ch_sent s =
       [(0, str_bytes (stream_message (open_members (some_env False False) 1 fuse_url default_opts))),
        (0, str_bytes (stream_message (open_members (some_env False False) 1 audio_url default_opts)))]"
  by (simp add: race_run_def fuse_url_def fuse_socket_def createUrl_def run_simps)

text \<open>
  C15. The search for a free number and the entry of the plan hold their locks one after the other: two listeners that accept
  at the same time plan the same number, and may tell the client of it in the other order. The client then opens the file
  system that the second one asks for, and its answer gives the server's channel the connection that the first one has
  accepted for the sound: what is written to the audio socket arrives at the file system of the client.
\<close>

theorem number_race:
  "\<exists>s p q c. chan_reach z (\<lambda>env. server_recvChannelSystemEvent env ops virt) s \<and>
     channelsPlanned s = [p, q] \<and> pl_channel p = pl_channel q \<and> pl_clientOpts p = audio_url \<and> pl_clientOpts q = fuse_url \<and>
     c = snd (client_recvChannelSystemEvent (some_env True True) ops virt' (snd (hd (ch_sent s))) channelClient) \<and>
     channels c = [client_connector (some_env True True) (pl_channel p) (pl_clientOpts q) (pl_chOpts q)] \<and>
     channels (snd (server_recvChannelSystemEvent (some_env False False) ops virt (snd (last (ch_sent c))) s)) =
       [served (pl_channel p) (pl_serverFd p) (pl_serverOpts p) (pl_chOpts p)]"
proof -
  let ?sys = "\<lambda>env. server_recvChannelSystemEvent env ops virt"
  let ?p = "\<lparr>pl_serverOpts = unix_url, pl_clientOpts = audio_url, pl_chOpts = default_opts, pl_serverFd = 42, pl_channel = 1\<rparr>"
  let ?q = "\<lparr>pl_serverOpts = fuse_socket, pl_clientOpts = fuse_url, pl_chOpts = default_opts, pl_serverFd = 43, pl_channel = 1\<rparr>"
  let ?open = "str_bytes (stream_message (open_members (some_env False False) 1 fuse_url default_opts))"
  let ?cenv = "some_env True True"
  obtain s where run: "run_actions (some_env False False) z (?sys (some_env False False)) race_run channelClient = Some s"
    and s: "channels s = []" "channelsPlanned s = [?p, ?q]" "snd (hd (ch_sent s)) = ?open"
    using race_state [of z "?sys (some_env False False)"] by auto
  have r: "chan_reach z ?sys s" by (rule run_reach [where sys = ?sys, OF run chan_start])
  have serves: "um_type fuse_url \<noteq> TypeSocket" "CHR 0x00 \<notin> set (um_content fuse_url)" "isUserSession ?cenv"
    "client_serves ?cenv fuse_url" "um_mode fuse_url \<noteq> ModeUnknown" "(1 :: u8) \<noteq> 0" "(1 :: u8) \<noteq> 255" "findChannel 1 channelClient = None"
    by (simp_all add: fuse_url_def urlMode_of_type_def some_env_def client_serves_def findChannel_def channelClient_def)
  let ?c = "channelClient\<lparr>channels := [client_connector ?cenv 1 fuse_url default_opts], ch_sent := [agree 1 default_opts]\<rparr>"
  have c: "snd (client_recvChannelSystemEvent ?cenv ops virt' (snd (hd (ch_sent s))) channelClient) = ?c"
    unfolding s(3) open_step [OF serves] by (simp add: channelClient_def)
  let ?s0 = "s\<lparr>channelsPlanned := []\<rparr>"
  have "systemChannelConnected (some_env False False) ops (members_of (connected_members 1 (opt_flags default_opts) True))
      (?s0\<lparr>channelsPlanned := channelsPlanned ?s0 @ ?p # [?q], ch_sent := ch_sent s\<rparr>) =
    (Inr True, ?s0\<lparr>channels := channels ?s0 @ [served 1 (pl_serverFd ?p) (pl_serverOpts ?p) default_opts],
      channelsPlanned := channelsPlanned ?s0 @ [?q], ch_sent := ch_sent s @ [agree 1 default_opts]\<rparr>)"
    by (rule planned_first) (simp_all add: free_id_def number_ok_def s(1) unix_url_def urlMode_of_type_def)
  moreover have "?s0\<lparr>channelsPlanned := channelsPlanned ?s0 @ ?p # [?q], ch_sent := ch_sent s\<rparr> = s"
    using s(2) by (cases s) simp
  ultimately have "channels (snd (?sys (some_env False False) (snd (agree 1 default_opts)) s)) = [served 1 42 unix_url default_opts]"
    by (simp add: agree_def connected_event ebind_def s(1))
  with r s c show ?thesis by (intro exI [of _ s] exI [of _ ?p] exI [of _ ?q] exI [of _ ?c] conjI) simp_all
qed

text \<open>
  C17. What the virtual method \<open>createChannelAllow\<close> does not allow is not made, and nobody is told: a plan without an accepted
  connection, which is the plan of a file, a command or a socket to connect to, leaves nothing, and the handler reports
  success. The server does not override the method, which allows nothing.
\<close>

theorem planned_blocked:
  assumes "pl_serverFd p < 0" and "\<And>type content md. \<not> createChannelAllow env type content md"
  shows "channelPlannedCreate env p s = (Inr (um_content (pl_serverOpts p) = [] \<or> um_type (pl_serverOpts p) = TypeUnix \<or>
    um_type (pl_serverOpts p) = TypeSocket \<or> um_type (pl_serverOpts p) = TypeFile \<or> um_type (pl_serverOpts p) = TypeCommand), s)"
  using assms by (cases "um_type (pl_serverOpts p)")
    (simp_all add: channelPlannedCreate_def createChannelUnix_def createChannelSocket_def createChannelFile_def
      createChannelCommand_def Let_def)

theorem planned_blocked_witness:
  "channelPlannedCreate (some_env False False)
     \<lparr>pl_serverOpts = urlMode_of_type TypeFile ''/tmp/a'' WriteOnly, pl_clientOpts = audio_url, pl_chOpts = default_opts,
      pl_serverFd = - 1, pl_channel = 1\<rparr> channelClient = (Inr True, channelClient)"
  by (subst planned_blocked) (simp_all add: some_env_def urlMode_of_type_def)

section \<open>Files that are offered\<close>

lemma char_int_range: "- 128 \<le> char_int ch \<and> char_int ch < 128"
proof -
  have "0 \<le> n mod 256 \<and> n mod 256 < 256" for n :: int by presburger
  from this [of "of_char ch"] have "0 \<le> (of_char ch :: int)" "(of_char ch :: int) < 256" by simp_all
  then show ?thesis by (auto simp: char_int_def Let_def)
qed

lemma push_ints:
  "cs \<noteq> [] \<Longrightarrow> fold (\<lambda>ch. array_push_text (int_text (char_int ch))) cs (os, comma) =
   (fst (fold (\<lambda>ch. array_push_text (int_text (char_int ch))) cs (os @ (if comma then '','' else []), False)), True)"
proof (induction cs arbitrary: os comma)
  case (Cons c cs)
  show ?case
  proof (cases "cs = []")
    case False
    from Cons.IH [OF this, of "os @ (if comma then '','' else []) @ int_text (char_int c)" True] show ?thesis
      by (simp add: array_push_text_def)
  qed (simp add: array_push_text_def)
qed simp

text \<open>Plain text that is pushed into an array is a list of numbers.\<close>

definition as_numbers :: "string \<Rightarrow> stream_value list" where
  "as_numbers cs = map (\<lambda>ch. StreamInteger (char_int ch)) cs"

lemma push_plain: "cs \<noteq> [] \<Longrightarrow> array_push (StreamPlain cs) st = fold array_push (as_numbers cs) st"
proof (cases st)
  case (Pair os comma)
  assume "cs \<noteq> []"
  from push_ints [OF this, of os comma] show ?thesis
    by (simp add: Pair array_push_def array_push_each_def as_numbers_def fold_map comp_def stream_text_def)
qed

lemma push_plains:
  "list_all (\<lambda>cs. cs \<noteq> []) css \<Longrightarrow> fold array_push (map StreamPlain css) st = fold array_push (as_numbers (concat css)) st"
  by (induction css arbitrary: st) (auto simp: push_plain as_numbers_def)

definition numbers_json :: "string \<Rightarrow> 'd json list" where
  "numbers_json cs = map (\<lambda>ch. JsonInteger (word_of_int (char_int ch))) cs"

lemma numbers_means:
  "list_all2 (\<lambda>v j. (\<forall>t. v \<noteq> StreamPlain t) \<and> stream_text v = value_text stream_style ops j) (as_numbers cs) (numbers_json cs)"
proof -
  have "stream_text (StreamInteger (char_int ch)) = value_text stream_style ops (JsonInteger (word_of_int (char_int ch)))" for ch
    using char_int_range [of ch] by (intro stream_means(4)) simp_all
  then show ?thesis by (simp add: as_numbers_def numbers_json_def list_all2_conv_all_nth del: value_text.simps)
qed

lemma numbers_array:
  "array_flush (fold array_push (as_numbers cs) jsonArrayStream) = value_text stream_style ops (JsonArray (numbers_json cs))"
proof (cases "cs = []")
  case False
  then have "numbers_json cs \<noteq> ([] :: 'a json list)" by (simp add: numbers_json_def)
  from array_stream_items [OF numbers_means this, where ops = ops and os = "''[''" and comma = False] show ?thesis
    by (simp add: jsonArrayStream_def array_flush_def) (simp add: stream_style_def)
qed (simp add: as_numbers_def numbers_json_def jsonArrayStream_def array_flush_def stream_style_def)

text \<open>
  C18. The files that one side offers are lost: their descriptions go into the array as the numbers of their characters, so the
  message is read, but no element of its array is an object.
\<close>

theorem transfer_files_lost:
  assumes "fst (sendSystemTransferFiles env files s) = Inr True"
  shows "\<exists>m jo vs. ch_sent (snd (sendSystemTransferFiles env files s)) = ch_sent s @ [(0, m)] \<and>
    system_object ops m = Inr (jo, ''TransferFiles'') \<and> obj_getArray ''files'' jo = Some vs \<and> (\<forall>i. arr_getObject i vs = None)"
proof -
  let ?ok = "filter (\<lambda>f. os_is_regular env f \<and> os_readable env f) files"
  let ?texts = "map (\<lambda>f. stream_message [(''file'', StreamString f), (''size'', StreamInteger (int (os_file_size env f)))])
    (filter (\<lambda>f. os_file_size env f \<noteq> 0) ?ok)"
  let ?a = "array_flush (fold array_push (map StreamPlain ?texts) jsonArrayStream)"
  let ?kvs = "[(''cmd'', StreamString ''TransferFiles''), (''files'', StreamPlain ?a)]"
  let ?vs = "numbers_json (concat ?texts) :: 'a json list"
  let ?ms = "[(''cmd'', JsonString ''TransferFiles''), (''files'', JsonArray ?vs)]"
  have sent: "ch_sent (snd (sendSystemTransferFiles env files s)) = ch_sent s @ [(0, str_bytes (stream_message ?kvs))]"
    using assms by (auto simp: sendSystemTransferFiles_def send_system_def send_data_def file_entry_def [abs_def] comp_def Let_def
        split: if_splits)
  have "list_all (\<lambda>cs. cs \<noteq> []) ?texts" by (simp add: list_all_iff stream_message_def object_flush_def)
  then have "?a = value_text stream_style ops (JsonArray ?vs)" by (simp only: push_plains numbers_array)
  then have pairs: "list_all2 (\<lambda>(k, v) (k', j). k = k' \<and> stream_text v = value_text stream_style ops j) ?kvs ?ms"
    using stream_means(3) [of "''TransferFiles''" ops] by (simp add: stream_text_def del: value_text.simps)
  have "system_object ops (str_bytes (stream_message ?kvs)) = Inr (?ms, ''TransferFiles'')"
    by (rule message_read [OF pairs]) (simp_all add: numbers_json_def members_simps)
  moreover have "obj_getArray ''files'' ?ms = Some ?vs" by (simp add: obj_getArray_def obj_getValue_def)
  moreover have "arr_getObject i ?vs = None" for i by (simp add: arr_getObject_def arr_getValue_def numbers_json_def)
  ultimately show ?thesis using sent by blast
qed

theorem transfer_files_lost_witness:
  "\<exists>m jo vs. ch_sent (snd (sendSystemTransferFiles (some_env False False) [''a''] channelClient)) = ch_sent channelClient @ [(0, m)] \<and>
    system_object half_ops m = Inr (jo, ''TransferFiles'') \<and> obj_getArray ''files'' jo = Some vs \<and> (\<forall>i. arr_getObject i vs = None)"
  by (rule transfer_files_lost)
    (simp add: sendSystemTransferFiles_def some_env_def send_system_def send_data_def Let_def)

end
